(* ===== verification/Routing.thy ===== *)
theory Routing
  imports Prelude
begin

text \<open>
  Package \<open>pkg/routing\<close>: agent and account identifiers (\<open>agent_id.go\<close>), session keys
  (\<open>session_key.go\<close>) and the binding cascade that picks the agent for an inbound message
  (\<open>route.go\<close>). A Go map of identity links is the association list of its entries in the
  order the \<open>range\<close> loop visits them; Go leaves that order open, and the theorems hold for
  every order.
\<close>

section \<open>Agent and account identifiers\<close>

definition DefaultAgentID :: string where
  "DefaultAgentID = ''main''"

definition DefaultMainKey :: string where
  "DefaultMainKey = ''main''"

definition DefaultAccountID :: string where
  "DefaultAccountID = ''default''"

definition MaxAgentIDLength :: nat where
  "MaxAgentIDLength = 64"

definition alnum_char :: "char \<Rightarrow> bool" where
  "alnum_char c \<longleftrightarrow> CHR ''a'' \<le> c \<and> c \<le> CHR ''z'' \<or> CHR ''0'' \<le> c \<and> c \<le> CHR ''9''"

definition id_char :: "char \<Rightarrow> bool" where
  "id_char c \<longleftrightarrow> alnum_char c \<or> c = CHR ''_'' \<or> c = CHR ''-''"

text \<open>\<open>validIDRe\<close>: \<open>^[a-z0-9][a-z0-9_-]{0,63}$\<close>.\<close>

definition valid_id :: "string \<Rightarrow> bool" where
  "valid_id s = (case s of [] \<Rightarrow> False
     | c # cs \<Rightarrow> alnum_char c \<and> list_all id_char cs \<and> length cs \<le> 63)"

text \<open>\<open>invalidCharsRe.ReplaceAllString(s, "-")\<close>: every maximal run of bytes outside
  \<open>[a-z0-9_-]\<close> becomes one dash.\<close>

function replace_invalid :: "string \<Rightarrow> string" where
  "replace_invalid [] = []"
| "replace_invalid (c # cs) =
     (if id_char c then c # replace_invalid cs
      else CHR ''-'' # replace_invalid (dropWhile (\<lambda>d. \<not> id_char d) cs))"
  by pat_completeness auto
termination
  by (relation "measure length") (auto simp: le_imp_less_Suc length_dropWhile_le)

definition strip_leading_dashes :: "string \<Rightarrow> string" where
  "strip_leading_dashes s = dropWhile (\<lambda>c. c = CHR ''-'') s"

definition strip_trailing_dashes :: "string \<Rightarrow> string" where
  "strip_trailing_dashes s = trim_right (\<lambda>c. c = CHR ''-'') s"

definition normalize_agent_id :: "string \<Rightarrow> string" where
  "normalize_agent_id i =
     (let trimmed = trim_space i in
      if trimmed = [] then DefaultAgentID
      else
        let lower = to_lower trimmed in
        if valid_id lower then lower
        else
          let result = replace_invalid lower;
              result = strip_leading_dashes result;
              result = strip_trailing_dashes result;
              result = (if length result > MaxAgentIDLength then take MaxAgentIDLength result else result)
          in if result = [] then DefaultAgentID else result)"

definition normalize_account_id :: "string \<Rightarrow> string" where
  "normalize_account_id i =
     (let trimmed = trim_space i in
      if trimmed = [] then DefaultAccountID
      else
        let lower = to_lower trimmed in
        if valid_id lower then lower
        else
          let result = replace_invalid lower;
              result = strip_leading_dashes result;
              result = strip_trailing_dashes result;
              result = (if length result > MaxAgentIDLength then take MaxAgentIDLength result else result)
          in if result = [] then DefaultAccountID else result)"

section \<open>Session keys\<close>

datatype dm_scope = DMScopeMain | DMScopePerPeer | DMScopePerChannelPeer
  | DMScopePerAccountChannelPeer | DMScopeEmpty | DMScopeOther string

definition dm_scope_of :: "string \<Rightarrow> dm_scope" where
  "dm_scope_of s =
     (if s = [] then DMScopeEmpty
      else if s = ''main'' then DMScopeMain
      else if s = ''per-peer'' then DMScopePerPeer
      else if s = ''per-channel-peer'' then DMScopePerChannelPeer
      else if s = ''per-account-channel-peer'' then DMScopePerAccountChannelPeer
      else DMScopeOther s)"

record route_peer =
  peer_kind :: string
  peer_id :: string

type_synonym identity_links = "(string \<times> string list) list"

record session_key_params =
  skp_agent_id :: string
  skp_channel :: string
  skp_account_id :: string
  skp_peer :: "route_peer option"
  skp_dm_scope :: dm_scope
  skp_identity_links :: identity_links

record parsed_session_key =
  psk_agent_id :: string
  psk_rest :: string

definition build_agent_main_session_key :: "string \<Rightarrow> string" where
  "build_agent_main_session_key agent =
     ''agent:'' @ normalize_agent_id agent @ '':'' @ DefaultMainKey"

definition normalize_channel :: "string \<Rightarrow> string" where
  "normalize_channel channel =
     (let c = trim_space (to_lower channel) in if c = [] then ''unknown'' else c)"

text \<open>The set \<open>candidates\<close> of \<open>resolveLinkedPeerID\<close>, as a list.\<close>

definition link_candidates :: "string \<Rightarrow> string \<Rightarrow> string list" where
  "link_candidates channel pid =
     (let raw = to_lower pid; ch = to_lower (trim_space channel) in
      (if raw \<noteq> [] then [raw] else []) @
      (if ch \<noteq> [] then [ch @ '':'' @ to_lower pid] else []) @
      (case index_byte CHR '':'' raw of
         None \<Rightarrow> []
       | Some idx \<Rightarrow> if idx > 0 \<and> idx < length raw - 1 then [drop (Suc idx) raw] else []))"

definition resolve_linked_peer_id :: "identity_links \<Rightarrow> string \<Rightarrow> string \<Rightarrow> string" where
  "resolve_linked_peer_id links channel pid =
     (if links = [] then []
      else
        let pid = trim_space pid in
        if pid = [] then []
        else
          let candidates = link_candidates channel pid in
          if candidates = [] then []
          else
            case find (\<lambda>(canonical, ids). trim_space canonical \<noteq> []
                   \<and> (\<exists>i \<in> set ids. to_lower (trim_space i) \<noteq> []
                        \<and> to_lower (trim_space i) \<in> set candidates)) links of
              None \<Rightarrow> []
            | Some (canonical, ids) \<Rightarrow> trim_space canonical)"

definition build_agent_peer_session_key :: "session_key_params \<Rightarrow> string" where
  "build_agent_peer_session_key params =
     (let agent = normalize_agent_id (skp_agent_id params);
          peer = (case skp_peer params of
                    None \<Rightarrow> \<lparr>peer_kind = ''direct'', peer_id = []\<rparr> | Some p \<Rightarrow> p);
          kind = trim_space (peer_kind peer);
          kind = (if kind = [] then ''direct'' else kind) in
      if kind = ''direct'' then
        let scope = (if skp_dm_scope params = DMScopeEmpty then DMScopeMain else skp_dm_scope params);
            pid = trim_space (peer_id peer);
            linked = resolve_linked_peer_id (skp_identity_links params) (skp_channel params) pid;
            pid = (if scope \<noteq> DMScopeMain \<and> pid \<noteq> [] \<and> linked \<noteq> [] then linked else pid);
            pid = to_lower pid;
            channel = normalize_channel (skp_channel params) in
        if scope = DMScopePerAccountChannelPeer \<and> pid \<noteq> [] then
          ''agent:'' @ agent @ '':'' @ channel @ '':'' @
            normalize_account_id (skp_account_id params) @ '':direct:'' @ pid
        else if scope = DMScopePerChannelPeer \<and> pid \<noteq> [] then
          ''agent:'' @ agent @ '':'' @ channel @ '':direct:'' @ pid
        else if scope = DMScopePerPeer \<and> pid \<noteq> [] then
          ''agent:'' @ agent @ '':direct:'' @ pid
        else build_agent_main_session_key agent
      else
        let channel = normalize_channel (skp_channel params);
            pid = to_lower (trim_space (peer_id peer));
            pid = (if pid = [] then ''unknown'' else pid) in
        ''agent:'' @ agent @ '':'' @ channel @ '':'' @ kind @ '':'' @ pid)"

definition parse_agent_session_key :: "string \<Rightarrow> parsed_session_key option" where
  "parse_agent_session_key key =
     (let raw = trim_space key in
      if raw = [] then None
      else
        case split_n CHR '':'' 3 raw of
          [p0, p1, p2] \<Rightarrow>
            if p0 \<noteq> ''agent'' then None
            else
              let agent = trim_space p1 in
              if agent = [] \<or> p2 = [] then None
              else Some \<lparr>psk_agent_id = agent, psk_rest = p2\<rparr>
        | _ \<Rightarrow> None)"

definition is_subagent_session_key :: "string \<Rightarrow> bool" where
  "is_subagent_session_key key =
     (let raw = trim_space key in
      if raw = [] then False
      else if has_prefix (to_lower raw) ''subagent:'' then True
      else
        case parse_agent_session_key raw of
          None \<Rightarrow> False
        | Some p \<Rightarrow> has_prefix (to_lower (psk_rest p)) ''subagent:'')"

section \<open>Route resolution\<close>

text \<open>The fields of the configuration that routing reads.\<close>

record agent_config =
  ac_id :: string
  ac_default :: bool

record binding_match =
  bm_channel :: string
  bm_account_id :: string
  bm_peer :: "route_peer option"
  bm_guild_id :: string
  bm_team_id :: string

record agent_binding =
  ab_agent_id :: string
  ab_match :: binding_match

record routing_config =
  rc_agents :: "agent_config list"
  rc_bindings :: "agent_binding list"
  rc_dm_scope :: string
  rc_identity_links :: identity_links

record route_input =
  ri_channel :: string
  ri_account_id :: string
  ri_peer :: "route_peer option"
  ri_parent_peer :: "route_peer option"
  ri_guild_id :: string
  ri_team_id :: string

datatype matched_by = BindingPeer | BindingPeerParent | BindingGuild | BindingTeam
  | BindingAccount | BindingChannel | DefaultMatch

record resolved_route =
  rr_agent_id :: string
  rr_channel :: string
  rr_account_id :: string
  rr_session_key :: string
  rr_main_session_key :: string
  rr_matched_by :: matched_by

definition matches_account_id :: "string \<Rightarrow> string \<Rightarrow> bool" where
  "matches_account_id matchAccountID actual =
     (let trimmed = trim_space matchAccountID in
      if trimmed = [] then actual = DefaultAccountID
      else if trimmed = ''*'' then True
      else to_lower trimmed = to_lower actual)"

definition filter_bindings :: "routing_config \<Rightarrow> string \<Rightarrow> string \<Rightarrow> agent_binding list" where
  "filter_bindings cfg channel accountID =
     filter (\<lambda>b. let matchChannel = to_lower (trim_space (bm_channel (ab_match b))) in
                 \<not> (matchChannel = [] \<or> matchChannel \<noteq> channel)
                 \<and> matches_account_id (bm_account_id (ab_match b)) accountID)
       (rc_bindings cfg)"

definition peer_binding_matches :: "route_peer \<Rightarrow> agent_binding \<Rightarrow> bool" where
  "peer_binding_matches peer b =
     (case bm_peer (ab_match b) of
        None \<Rightarrow> False
      | Some p \<Rightarrow>
          let kind = to_lower (trim_space (peer_kind p)); pid = trim_space (peer_id p) in
          kind \<noteq> [] \<and> pid \<noteq> [] \<and> kind = to_lower (peer_kind peer) \<and> pid = peer_id peer)"

definition find_peer_match :: "agent_binding list \<Rightarrow> route_peer \<Rightarrow> agent_binding option" where
  "find_peer_match bindings peer = find (peer_binding_matches peer) bindings"

definition guild_binding_matches :: "string \<Rightarrow> agent_binding \<Rightarrow> bool" where
  "guild_binding_matches guildID b =
     (let g = trim_space (bm_guild_id (ab_match b)) in g \<noteq> [] \<and> g = guildID)"

definition find_guild_match :: "agent_binding list \<Rightarrow> string \<Rightarrow> agent_binding option" where
  "find_guild_match bindings guildID = find (guild_binding_matches guildID) bindings"

definition team_binding_matches :: "string \<Rightarrow> agent_binding \<Rightarrow> bool" where
  "team_binding_matches teamID b =
     (let t = trim_space (bm_team_id (ab_match b)) in t \<noteq> [] \<and> t = teamID)"

definition find_team_match :: "agent_binding list \<Rightarrow> string \<Rightarrow> agent_binding option" where
  "find_team_match bindings teamID = find (team_binding_matches teamID) bindings"

definition unscoped_binding :: "agent_binding \<Rightarrow> bool" where
  "unscoped_binding b \<longleftrightarrow> bm_peer (ab_match b) = None \<and> bm_guild_id (ab_match b) = []
     \<and> bm_team_id (ab_match b) = []"

definition account_binding_matches :: "agent_binding \<Rightarrow> bool" where
  "account_binding_matches b \<longleftrightarrow>
     trim_space (bm_account_id (ab_match b)) \<noteq> ''*'' \<and> unscoped_binding b"

definition find_account_match :: "agent_binding list \<Rightarrow> agent_binding option" where
  "find_account_match bindings = find account_binding_matches bindings"

definition channel_binding_matches :: "agent_binding \<Rightarrow> bool" where
  "channel_binding_matches b \<longleftrightarrow>
     trim_space (bm_account_id (ab_match b)) = ''*'' \<and> unscoped_binding b"

definition find_channel_wildcard_match :: "agent_binding list \<Rightarrow> agent_binding option" where
  "find_channel_wildcard_match bindings = find channel_binding_matches bindings"

definition resolve_default_agent_id :: "routing_config \<Rightarrow> string" where
  "resolve_default_agent_id cfg =
     (case rc_agents cfg of
        [] \<Rightarrow> DefaultAgentID
      | first # _ \<Rightarrow>
          (case find (\<lambda>a. ac_default a \<and> trim_space (ac_id a) \<noteq> []) (rc_agents cfg) of
             Some a \<Rightarrow> normalize_agent_id (trim_space (ac_id a))
           | None \<Rightarrow>
               let i = trim_space (ac_id first) in
               if i \<noteq> [] then normalize_agent_id i else DefaultAgentID))"

definition pick_agent_id :: "routing_config \<Rightarrow> string \<Rightarrow> string" where
  "pick_agent_id cfg agentID =
     (let trimmed = trim_space agentID in
      if trimmed = [] then normalize_agent_id (resolve_default_agent_id cfg)
      else
        let normalized = normalize_agent_id trimmed in
        if rc_agents cfg = [] then normalized
        else if \<exists>a \<in> set (rc_agents cfg). normalize_agent_id (ac_id a) = normalized then normalized
        else normalize_agent_id (resolve_default_agent_id cfg))"

text \<open>The closure \<open>choose\<close> of \<open>ResolveRoute\<close>.\<close>

definition choose_route :: "routing_config \<Rightarrow> route_input \<Rightarrow> string \<Rightarrow> matched_by \<Rightarrow> resolved_route" where
  "choose_route cfg input agentID matchedBy =
     (let channel = to_lower (trim_space (ri_channel input));
          accountID = normalize_account_id (ri_account_id input);
          scope = dm_scope_of (rc_dm_scope cfg);
          scope = (if scope = DMScopeEmpty then DMScopeMain else scope);
          resolved = pick_agent_id cfg agentID in
      \<lparr>rr_agent_id = resolved,
       rr_channel = channel,
       rr_account_id = accountID,
       rr_session_key = to_lower (build_agent_peer_session_key
         \<lparr>skp_agent_id = resolved, skp_channel = channel, skp_account_id = accountID,
          skp_peer = ri_peer input, skp_dm_scope = scope,
          skp_identity_links = rc_identity_links cfg\<rparr>),
       rr_main_session_key = to_lower (build_agent_main_session_key resolved),
       rr_matched_by = matchedBy\<rparr>)"

text \<open>One level of the cascade that needs a peer: the peer is present and its ID is not blank.\<close>

definition match_peer_level :: "agent_binding list \<Rightarrow> route_peer option \<Rightarrow> agent_binding option" where
  "match_peer_level bindings peer =
     (case peer of
        None \<Rightarrow> None
      | Some p \<Rightarrow> if trim_space (peer_id p) \<noteq> [] then find_peer_match bindings p else None)"

definition resolve_route :: "routing_config \<Rightarrow> route_input \<Rightarrow> resolved_route" where
  "resolve_route cfg input =
     (let channel = to_lower (trim_space (ri_channel input));
          accountID = normalize_account_id (ri_account_id input);
          bindings = filter_bindings cfg channel accountID;
          guildID = trim_space (ri_guild_id input);
          teamID = trim_space (ri_team_id input) in
      case match_peer_level bindings (ri_peer input) of
        Some b \<Rightarrow> choose_route cfg input (ab_agent_id b) BindingPeer
      | None \<Rightarrow>
      (case match_peer_level bindings (ri_parent_peer input) of
        Some b \<Rightarrow> choose_route cfg input (ab_agent_id b) BindingPeerParent
      | None \<Rightarrow>
      (case (if guildID \<noteq> [] then find_guild_match bindings guildID else None) of
        Some b \<Rightarrow> choose_route cfg input (ab_agent_id b) BindingGuild
      | None \<Rightarrow>
      (case (if teamID \<noteq> [] then find_team_match bindings teamID else None) of
        Some b \<Rightarrow> choose_route cfg input (ab_agent_id b) BindingTeam
      | None \<Rightarrow>
      (case find_account_match bindings of
        Some b \<Rightarrow> choose_route cfg input (ab_agent_id b) BindingAccount
      | None \<Rightarrow>
      (case find_channel_wildcard_match bindings of
        Some b \<Rightarrow> choose_route cfg input (ab_agent_id b) BindingChannel
      | None \<Rightarrow> choose_route cfg input (resolve_default_agent_id cfg) DefaultMatch))))))"

section \<open>Identifiers: lemmas\<close>

lemma length_replace_invalid: "length (replace_invalid s) \<le> length s"
proof (induction s rule: replace_invalid.induct)
  case (2 c cs)
  have "length (dropWhile (\<lambda>d. \<not> id_char d) cs) \<le> length cs" by (rule length_dropWhile_le)
  with 2 show ?case by (cases "id_char c") (auto intro: order_trans)
qed simp

lemma replace_invalid_chars: "list_all id_char (replace_invalid s)"
  by (induction s rule: replace_invalid.induct) (auto simp: id_char_def)

lemma replace_invalid_id: "list_all id_char s \<Longrightarrow> replace_invalid s = s"
  by (induction s) auto

lemma list_all_trim_right: "list_all q s \<Longrightarrow> list_all q (trim_right p s)"
  using set_trim_right [of p s] by (auto simp: list_all_iff)

lemma list_all_dropWhile: "list_all q s \<Longrightarrow> list_all q (dropWhile p s)"
  by (auto simp: list_all_iff dest: set_dropWhileD)

lemma list_all_take: "list_all q s \<Longrightarrow> list_all q (take n s)"
  by (auto simp: list_all_iff dest: in_set_takeD)

lemma id_char_nat:
  "id_char c \<longleftrightarrow> (of_char c :: nat) \<in> {97..122} \<union> {48..57} \<union> {95, 45}"
  unfolding id_char_def alnum_char_def less_eq_char_def char_eq_iff_nat by auto

lemma id_char_facts: "id_char c \<Longrightarrow> c \<noteq> CHR '':'' \<and> \<not> is_space c \<and> lower_char c = c"
  unfolding id_char_nat is_space_of_char char_eq_iff_nat of_char_lower_char by auto

lemma valid_id_alt:
  "valid_id s \<longleftrightarrow> s \<noteq> [] \<and> alnum_char (hd s) \<and> list_all id_char s \<and> length s \<le> 64"
  by (cases s) (auto simp: valid_id_def id_char_def)

text \<open>The sanitising branch, shared by both normalisers.\<close>

definition sanitize_id :: "string \<Rightarrow> string" where
  "sanitize_id s = take MaxAgentIDLength (strip_trailing_dashes (strip_leading_dashes (replace_invalid s)))"

lemma sanitize_id_facts:
  assumes "sanitize_id s \<noteq> []"
  shows "list_all id_char (sanitize_id s)" and "length (sanitize_id s) \<le> 64"
    and "hd (sanitize_id s) \<noteq> CHR ''-''"
proof -
  let ?d = "strip_leading_dashes (replace_invalid s)"
  show "list_all id_char (sanitize_id s)"
    unfolding sanitize_id_def strip_trailing_dashes_def strip_leading_dashes_def
    by (intro list_all_take list_all_trim_right list_all_dropWhile replace_invalid_chars)
  show "length (sanitize_id s) \<le> 64" by (simp add: sanitize_id_def MaxAgentIDLength_def)
  from assms have ne: "strip_trailing_dashes ?d \<noteq> []" by (auto simp: sanitize_id_def)
  then have "hd (sanitize_id s) = hd (strip_trailing_dashes ?d)"
    by (simp add: sanitize_id_def MaxAgentIDLength_def)
  also have "\<dots> = hd ?d" using ne by (simp add: strip_trailing_dashes_def trim_right_hd)
  also have "\<dots> \<noteq> CHR ''-''"
    using ne unfolding strip_trailing_dashes_def strip_leading_dashes_def
    by (metis (mono_tags, lifting) hd_dropWhile trim_right_Nil)
  finally show "hd (sanitize_id s) \<noteq> CHR ''-''" .
qed

lemma normalize_id_unfold:
  "normalize_agent_id i =
     (let s = to_lower (trim_space i) in
      if s = [] then DefaultAgentID else if valid_id s then s
      else if sanitize_id s = [] then DefaultAgentID else sanitize_id s)"
  "normalize_account_id i =
     (let s = to_lower (trim_space i) in
      if s = [] then DefaultAccountID else if valid_id s then s
      else if sanitize_id s = [] then DefaultAccountID else sanitize_id s)"
  by (auto simp: normalize_agent_id_def normalize_account_id_def sanitize_id_def Let_def
      MaxAgentIDLength_def)

lemma valid_DefaultAgentID [simp]: "valid_id DefaultAgentID"
  by (simp add: DefaultAgentID_def valid_id_def id_char_def alnum_char_def less_eq_char_def)

lemma valid_DefaultAccountID [simp]: "valid_id DefaultAccountID"
  by (simp add: DefaultAccountID_def valid_id_def id_char_def alnum_char_def less_eq_char_def)

text \<open>What both normalisers return: an identifier over the allowed alphabet that is not
  empty, not too long and does not start with a dash.\<close>

definition clean_id :: "string \<Rightarrow> bool" where
  "clean_id s \<longleftrightarrow> s \<noteq> [] \<and> list_all id_char s \<and> length s \<le> MaxAgentIDLength \<and> hd s \<noteq> CHR ''-''"

lemma valid_clean: "valid_id s \<Longrightarrow> clean_id s"
  by (auto simp: valid_id_alt clean_id_def MaxAgentIDLength_def alnum_char_def less_eq_char_def)

lemma clean_sanitize: "sanitize_id s \<noteq> [] \<Longrightarrow> clean_id (sanitize_id s)"
  using sanitize_id_facts [of s] by (simp add: clean_id_def MaxAgentIDLength_def)

lemma clean_normalize_agent_id [simp]: "clean_id (normalize_agent_id i)"
  unfolding normalize_id_unfold Let_def by (auto intro: valid_clean clean_sanitize)

lemma clean_normalize_account_id [simp]: "clean_id (normalize_account_id i)"
  unfolding normalize_id_unfold Let_def by (auto intro: valid_clean clean_sanitize)

lemma clean_id_no_colon: "clean_id s \<Longrightarrow> CHR '':'' \<notin> set s"
  by (auto simp: clean_id_def list_all_iff dest: id_char_facts)

lemma clean_id_trim: "clean_id s \<Longrightarrow> trim_space s = s"
  by (rule trim_space_id) (metis clean_id_def list_all_iff id_char_facts hd_in_set last_in_set)+

lemma clean_id_lower: "clean_id s \<Longrightarrow> to_lower s = s"
  unfolding to_lower_def by (rule map_idI) (metis clean_id_def list_all_iff id_char_facts)

lemmas clean_id_simps = clean_id_no_colon clean_id_trim clean_id_lower

lemma normalize_valid_id: "valid_id s \<Longrightarrow> normalize_agent_id s = s"
  using clean_id_simps [OF valid_clean, of s]
  by (auto simp: normalize_id_unfold Let_def valid_id_alt)

lemma normalize_trim [simp]: "normalize_agent_id (trim_space i) = normalize_agent_id i"
  by (simp add: normalize_agent_id_def)

lemma normalize_lower [simp]: "normalize_agent_id (to_lower i) = normalize_agent_id i"
  by (simp add: normalize_id_unfold trim_space_to_lower)

section \<open>Session keys: lemmas\<close>

definition tight :: "string \<Rightarrow> bool" where
  "tight s \<longleftrightarrow> s \<noteq> [] \<and> \<not> is_space (last s)"

lemma tight_append [simp]: "tight t \<Longrightarrow> tight (s @ t)"
  by (auto simp: tight_def)

lemma tight_Cons [simp]: "tight t \<Longrightarrow> tight (c # t)"
  by (auto simp: tight_def)

lemma tight_clean: "clean_id s \<Longrightarrow> tight s"
  unfolding tight_def clean_id_def list_all_iff by (metis id_char_facts last_in_set)

lemma tight_trim: "trim_space s \<noteq> [] \<Longrightarrow> tight (trim_space s)"
  by (simp add: tight_def trim_space_last)

lemma tight_lower [simp]: "tight (to_lower s) = tight s"
  by (cases s rule: rev_cases) (auto simp: tight_def to_lower_def)

lemma tight_literals [simp]: "tight ''main''" "tight ''unknown''"
  by (simp_all add: tight_def is_space_def)

lemma resolve_linked_trimmed:
  "resolve_linked_peer_id links ch p \<noteq> [] \<Longrightarrow> tight (resolve_linked_peer_id links ch p)"
  by (auto simp: resolve_linked_peer_id_def Let_def tight_trim split: option.splits if_splits
      dest!: find_Some_set)

lemma split_agent_key:
  assumes "CHR '':'' \<notin> set a"
  shows "split_n CHR '':'' 3 (''agent:'' @ a @ '':'' @ rest) = [''agent'', a, rest]"
proof -
  have "index_byte CHR '':'' (''agent'' @ CHR '':'' # (a @ '':'' @ rest)) = Some (length ''agent'')"
    by (rule index_byte_append) simp
  moreover have "index_byte CHR '':'' (a @ CHR '':'' # rest) = Some (length a)"
    using assms by (rule index_byte_append)
  ultimately show ?thesis by (simp add: numeral_3_eq_3)
qed

lemma parse_agent_key:
  assumes "clean_id a" and "tight rest"
  shows "parse_agent_session_key (''agent:'' @ a @ '':'' @ rest)
           = Some \<lparr>psk_agent_id = a, psk_rest = rest\<rparr>"
proof -
  have "trim_space (''agent:'' @ a @ '':'' @ rest) = ''agent:'' @ a @ '':'' @ rest"
    using assms(2) by (intro trim_space_id) (auto simp: is_space_def tight_def)
  then show ?thesis
    using assms split_agent_key [OF clean_id_no_colon [OF assms(1)], of rest]
    by (auto simp: parse_agent_session_key_def Let_def clean_id_trim clean_id_def tight_def)
qed

text \<open>Normalising twice changes nothing for the identifiers the code documents; an
  identifier that starts with an underscore can lose trailing dashes the second time.\<close>

definition stable_agent_id :: "string \<Rightarrow> bool" where
  "stable_agent_id i \<longleftrightarrow> normalize_agent_id (normalize_agent_id i) = normalize_agent_id i"

lemma stable_valid: "valid_id (normalize_agent_id i) \<Longrightarrow> stable_agent_id i"
  by (simp add: stable_agent_id_def normalize_valid_id)

text \<open>The peer ID of a direct message after link resolution.\<close>

definition linked_peer :: "session_key_params \<Rightarrow> dm_scope \<Rightarrow> string \<Rightarrow> string" where
  "linked_peer p scope raw =
     (let pid = trim_space raw;
          linked = resolve_linked_peer_id (skp_identity_links p) (skp_channel p) pid
      in to_lower (if scope \<noteq> DMScopeMain \<and> pid \<noteq> [] \<and> linked \<noteq> [] then linked else pid))"

lemma tight_linked_peer: "linked_peer p scope raw \<noteq> [] \<Longrightarrow> tight (linked_peer p scope raw)"
  by (auto simp: linked_peer_def Let_def resolve_linked_trimmed tight_trim split: if_splits)

lemma build_key_form:
  assumes "stable_agent_id (skp_agent_id p)"
  shows "\<exists>rest. tight rest \<and> build_agent_peer_session_key p
           = ''agent:'' @ normalize_agent_id (skp_agent_id p) @ '':'' @ rest"
proof -
  let ?a = "normalize_agent_id (skp_agent_id p)"
  define peer where "peer = (case skp_peer p of
    None \<Rightarrow> \<lparr>peer_kind = ''direct'', peer_id = []\<rparr> | Some q \<Rightarrow> q)"
  define scope where "scope = (if skp_dm_scope p = DMScopeEmpty then DMScopeMain else skp_dm_scope p)"
  define pid where "pid = linked_peer p scope (peer_id peer)"
  define gid where "gid = (let i = to_lower (trim_space (peer_id peer)) in if i = [] then ''unknown'' else i)"
  have main: "build_agent_main_session_key ?a = ''agent:'' @ ?a @ '':'' @ ''main''"
    using assms by (simp add: build_agent_main_session_key_def stable_agent_id_def DefaultMainKey_def)
  have gid: "tight gid" by (simp add: gid_def Let_def tight_trim)
  have pid: "pid \<noteq> [] \<Longrightarrow> tight pid" unfolding pid_def by (rule tight_linked_peer)
  have "build_agent_peer_session_key p \<in>
      {''agent:'' @ ?a @ '':'' @ r | r. r = ''main'' \<or> (\<exists>u. r = u @ gid) \<or> pid \<noteq> [] \<and> (\<exists>u. r = u @ pid)}"
    unfolding build_agent_peer_session_key_def main Let_def peer_def [symmetric] scope_def [symmetric]
    using main by (auto simp: pid_def linked_peer_def gid_def Let_def)
  then show ?thesis using gid pid by auto
qed

section \<open>The cascade as a specification\<close>

text \<open>
  What \<open>route.go\<close> promises: levels in priority order, each a predicate on bindings, and
  the route of the first binding (in configuration order) of the first level that has an
  applicable binding.
\<close>

definition applicable_binding :: "route_input \<Rightarrow> agent_binding \<Rightarrow> bool" where
  "applicable_binding input b \<longleftrightarrow>
     (let channel = to_lower (trim_space (bm_channel (ab_match b))); account = trim_space (bm_account_id (ab_match b)) in
      channel \<noteq> [] \<and> channel = to_lower (trim_space (ri_channel input))
      \<and> (account = ''*'' \<or> account = [] \<and> normalize_account_id (ri_account_id input) = DefaultAccountID
        \<or> account \<noteq> [] \<and> to_lower account = to_lower (normalize_account_id (ri_account_id input))))"

definition names_peer :: "route_peer option \<Rightarrow> agent_binding \<Rightarrow> bool" where
  "names_peer peer b = (case (peer, bm_peer (ab_match b)) of
     (Some p, Some q) \<Rightarrow> trim_space (peer_id p) \<noteq> [] \<and> trim_space (peer_id q) = peer_id p
       \<and> to_lower (peer_kind p) \<noteq> [] \<and> to_lower (trim_space (peer_kind q)) = to_lower (peer_kind p)
   | _ \<Rightarrow> False)"

definition unscoped_account :: "agent_binding \<Rightarrow> bool \<Rightarrow> bool" where
  "unscoped_account b wildcard \<longleftrightarrow> bm_peer (ab_match b) = None \<and> bm_guild_id (ab_match b) = [] \<and> bm_team_id (ab_match b) = []
     \<and> (trim_space (bm_account_id (ab_match b)) = ''*'') = wildcard"

definition route_levels :: "route_input \<Rightarrow> (matched_by \<times> (agent_binding \<Rightarrow> bool)) list" where
  "route_levels input =
     [(BindingPeer, names_peer (ri_peer input)),
      (BindingPeerParent, names_peer (ri_parent_peer input)),
      (BindingGuild, \<lambda>b. trim_space (ri_guild_id input) \<noteq> []
         \<and> trim_space (bm_guild_id (ab_match b)) = trim_space (ri_guild_id input)),
      (BindingTeam, \<lambda>b. trim_space (ri_team_id input) \<noteq> []
         \<and> trim_space (bm_team_id (ab_match b)) = trim_space (ri_team_id input)),
      (BindingAccount, \<lambda>b. unscoped_account b False),
      (BindingChannel, \<lambda>b. unscoped_account b True)]"

definition route_candidates :: "routing_config \<Rightarrow> route_input \<Rightarrow> (string \<times> matched_by) list" where
  "route_candidates cfg input =
     [(ab_agent_id b, l). (l, level) \<leftarrow> route_levels input, b \<leftarrow> rc_bindings cfg,
        applicable_binding input b \<and> level b]"

lemma concat_filter_case:
  "(case concat (map (\<lambda>x. if P x then [f x] else []) xs) @ ys of [] \<Rightarrow> d | (a, l) # _ \<Rightarrow> g a l)
     = (case find P xs of Some b \<Rightarrow> (case f b of (a, l) \<Rightarrow> g a l)
        | None \<Rightarrow> (case ys of [] \<Rightarrow> d | (a, l) # _ \<Rightarrow> g a l))"
  by (induction xs) auto

lemma filter_bindings_alt:
  "filter_bindings cfg (to_lower (trim_space (ri_channel input))) (normalize_account_id (ri_account_id input))
     = filter (applicable_binding input) (rc_bindings cfg)"
proof -
  have star: "''*'' \<noteq> ([] :: string)" by simp
  show ?thesis
    unfolding filter_bindings_def Let_def
    by (rule filter_cong) (auto simp: applicable_binding_def matches_account_id_def Let_def star)
qed

lemma peer_match_names: "(trim_space (peer_id p) \<noteq> [] \<and> peer_binding_matches p b) = names_peer (Some p) b"
proof (cases "bm_peer (ab_match b)")
  case None
  then show ?thesis by (simp add: names_peer_def peer_binding_matches_def)
next
  case (Some q)
  have "trim_space (peer_id p) \<noteq> [] \<Longrightarrow> peer_id p \<noteq> []" by (auto simp: trim_space_def)
  then show ?thesis using Some unfolding names_peer_def peer_binding_matches_def Let_def by (simp only: prod.case option.case) metis
qed

lemma level_finds:
  "match_peer_level (filter q bs) peer = find (\<lambda>b. q b \<and> names_peer peer b) bs"
  "(if g \<noteq> [] then find_guild_match (filter q bs) g else None)
     = find (\<lambda>b. q b \<and> g \<noteq> [] \<and> trim_space (bm_guild_id (ab_match b)) = g) bs"
  "(if t \<noteq> [] then find_team_match (filter q bs) t else None)
     = find (\<lambda>b. q b \<and> t \<noteq> [] \<and> trim_space (bm_team_id (ab_match b)) = t) bs"
  "find_account_match (filter q bs) = find (\<lambda>b. q b \<and> unscoped_account b False) bs"
  "find_channel_wildcard_match (filter q bs) = find (\<lambda>b. q b \<and> unscoped_account b True) bs"
proof -
  have none: "find (\<lambda>b. False) bs = None" by (simp add: find_None_iff)
  show "match_peer_level (filter q bs) peer = find (\<lambda>b. q b \<and> names_peer peer b) bs"
  proof (cases peer)
    case None
    then show ?thesis by (simp add: match_peer_level_def names_peer_def none)
  next
    case (Some p)
    show ?thesis
    proof (cases "trim_space (peer_id p) = []")
      case True
      then have "names_peer peer = (\<lambda>b. False)" using Some by (simp add: names_peer_def fun_eq_iff split: option.split)
      then show ?thesis using True Some by (simp add: match_peer_level_def none)
    next
      case False
      then have "peer_binding_matches p = names_peer (Some p)" using peer_match_names [of p] by (simp add: fun_eq_iff)
      then show ?thesis using Some False by (simp add: match_peer_level_def find_peer_match_def find_filter)
    qed
  qed
  have g: "g \<noteq> [] \<Longrightarrow> guild_binding_matches g = (\<lambda>b. g \<noteq> [] \<and> trim_space (bm_guild_id (ab_match b)) = g)"
    and t: "t \<noteq> [] \<Longrightarrow> team_binding_matches t = (\<lambda>b. t \<noteq> [] \<and> trim_space (bm_team_id (ab_match b)) = t)"
    by (auto simp: guild_binding_matches_def team_binding_matches_def Let_def fun_eq_iff)
  show "(if g \<noteq> [] then find_guild_match (filter q bs) g else None)
     = find (\<lambda>b. q b \<and> g \<noteq> [] \<and> trim_space (bm_guild_id (ab_match b)) = g) bs"
    by (simp add: find_guild_match_def find_filter g none)
  show "(if t \<noteq> [] then find_team_match (filter q bs) t else None)
     = find (\<lambda>b. q b \<and> t \<noteq> [] \<and> trim_space (bm_team_id (ab_match b)) = t) bs"
    by (simp add: find_team_match_def find_filter t none)
  have acc: "account_binding_matches = (\<lambda>b. unscoped_account b False)"
    and chan: "channel_binding_matches = (\<lambda>b. unscoped_account b True)"
    by (auto simp: account_binding_matches_def channel_binding_matches_def unscoped_binding_def unscoped_account_def fun_eq_iff)
  show "find_account_match (filter q bs) = find (\<lambda>b. q b \<and> unscoped_account b False) bs"
    "find_channel_wildcard_match (filter q bs) = find (\<lambda>b. q b \<and> unscoped_account b True) bs"
    by (simp_all add: find_account_match_def find_channel_wildcard_match_def find_filter acc chan)
qed

lemma resolve_route_first:
  "resolve_route cfg input =
     (case route_candidates cfg input of
        [] \<Rightarrow> choose_route cfg input (resolve_default_agent_id cfg) DefaultMatch
      | (agent, level) # _ \<Rightarrow> choose_route cfg input agent level)"
  unfolding resolve_route_def Let_def filter_bindings_alt level_finds route_candidates_def
    route_levels_def
  by (simp add: concat_filter_case concat_filter_case [where ys = "[]", simplified]
      split: option.split)

text \<open>Property C7: the code's cascade of lookups refines the priority specification. The level of the route is that of
  the first applicable binding of the highest level that has one (peer, parent peer, guild, team, account, channel
  wildcard), and \<open>default\<close> when no level has one. Its agent is the one the binding names, unless the name is blank or
  agents are configured and none has that identifier: then it is the default agent, under the level of the binding. The
  session keys are those of the agent that is chosen in the end.\<close>

theorem resolve_route_priority:
  "resolve_route cfg input =
     (let (named, level) = (case route_candidates cfg input of
             [] \<Rightarrow> (resolve_default_agent_id cfg, DefaultMatch) | first # _ \<Rightarrow> first);
          i = normalize_agent_id (trim_space named);
          agent = (if trim_space named \<noteq> [] \<and> (rc_agents cfg = [] \<or> i \<in> (normalize_agent_id \<circ> ac_id) ` set (rc_agents cfg))
                   then i else normalize_agent_id (resolve_default_agent_id cfg));
          channel = to_lower (trim_space (ri_channel input)); account = normalize_account_id (ri_account_id input);
          scope = dm_scope_of (rc_dm_scope cfg)
      in \<lparr>rr_agent_id = agent, rr_channel = channel, rr_account_id = account,
          rr_session_key = to_lower (build_agent_peer_session_key
            \<lparr>skp_agent_id = agent, skp_channel = channel, skp_account_id = account, skp_peer = ri_peer input,
             skp_dm_scope = (if scope = DMScopeEmpty then DMScopeMain else scope), skp_identity_links = rc_identity_links cfg\<rparr>),
          rr_main_session_key = to_lower (build_agent_main_session_key agent), rr_matched_by = level\<rparr>)"
proof -
  have pick: "pick_agent_id cfg named
      = (if trim_space named \<noteq> [] \<and> (rc_agents cfg = []
             \<or> normalize_agent_id (trim_space named) \<in> (normalize_agent_id \<circ> ac_id) ` set (rc_agents cfg))
         then normalize_agent_id (trim_space named) else normalize_agent_id (resolve_default_agent_id cfg))" for named
    by (auto simp: pick_agent_id_def Let_def image_iff)
  show ?thesis
    unfolding resolve_route_first choose_route_def Let_def pick by (simp split: list.split prod.split)
qed

lemma choose_route_agent: "rr_agent_id (choose_route cfg input a l) = pick_agent_id cfg a"
  by (simp add: choose_route_def Let_def)

lemma resolve_route_agent: "\<exists>a. rr_agent_id (resolve_route cfg input) = pick_agent_id cfg a"
  unfolding resolve_route_def Let_def by (auto simp: choose_route_agent split: option.splits)

lemma normalize_blank: "trim_space i = [] \<Longrightarrow> normalize_agent_id i = DefaultAgentID"
  by (simp add: normalize_agent_id_def)

lemma resolve_default_configured:
  assumes "rc_agents cfg \<noteq> []"
  shows "\<exists>a \<in> set (rc_agents cfg). resolve_default_agent_id cfg = normalize_agent_id (ac_id a)"
proof -
  obtain first rest where c: "rc_agents cfg = first # rest"
    using assms by (cases "rc_agents cfg") auto
  show ?thesis
  proof (cases "find (\<lambda>a. ac_default a \<and> trim_space (ac_id a) \<noteq> []) (rc_agents cfg)")
    case None
    with c show ?thesis
      by (auto simp: resolve_default_agent_id_def Let_def normalize_blank)
  next
    case (Some a)
    with find_Some_set [OF Some] c show ?thesis by (auto simp: resolve_default_agent_id_def)
  qed
qed

text \<open>with agents configured and their identifiers stable under normalisation, a
  message is never routed to an agent outside the configuration, whatever a binding names.\<close>

theorem resolve_route_configured_agent:
  assumes "rc_agents cfg \<noteq> []"
    and "\<forall>a \<in> set (rc_agents cfg). stable_agent_id (ac_id a)"
  shows "rr_agent_id (resolve_route cfg input) \<in> (normalize_agent_id \<circ> ac_id) ` set (rc_agents cfg)"
proof -
  obtain d where "d \<in> set (rc_agents cfg)"
    and "resolve_default_agent_id cfg = normalize_agent_id (ac_id d)"
    using resolve_default_configured [OF assms(1)] by blast
  with assms(2) have "normalize_agent_id (resolve_default_agent_id cfg) \<in> (normalize_agent_id \<circ> ac_id) ` set (rc_agents cfg)"
    by (force simp: stable_agent_id_def)
  then have "pick_agent_id cfg a \<in> (normalize_agent_id \<circ> ac_id) ` set (rc_agents cfg)" for a
    using assms(1) by (auto simp: pick_agent_id_def Let_def image_iff) (metis+)?
  then show ?thesis using resolve_route_agent [of cfg input] by auto
qed

definition sample_config :: routing_config where
  "sample_config = \<lparr>rc_agents = [\<lparr>ac_id = ''sales'', ac_default = True\<rparr>, \<lparr>ac_id = ''Support'', ac_default = False\<rparr>],
     rc_bindings = [\<lparr>ab_agent_id = ''support'', ab_match = \<lparr>bm_channel = ''telegram'', bm_account_id = ''*'',
        bm_peer = Some \<lparr>peer_kind = ''direct'', peer_id = ''user123''\<rparr>, bm_guild_id = [], bm_team_id = []\<rparr>\<rparr>],
     rc_dm_scope = ''per-peer'', rc_identity_links = []\<rparr>"

definition sample_input :: route_input where
  "sample_input = \<lparr>ri_channel = ''telegram'', ri_account_id = [],
     ri_peer = Some \<lparr>peer_kind = ''direct'', peer_id = ''user123''\<rparr>, ri_parent_peer = None,
     ri_guild_id = [], ri_team_id = []\<rparr>"

theorem resolve_route_configured_agent_witness:
  "rr_agent_id (resolve_route sample_config sample_input)
     \<in> (normalize_agent_id \<circ> ac_id) ` set (rc_agents sample_config)"
proof (rule resolve_route_configured_agent)
  show "rc_agents sample_config \<noteq> []" by (simp add: sample_config_def)
  show "\<forall>a \<in> set (rc_agents sample_config). stable_agent_id (ac_id a)"
    unfolding sample_config_def stable_agent_id_def by code_simp
qed

section \<open>Properties of identifiers and session keys\<close>

text \<open>the agent normaliser returns a non-empty identifier of at most 64 bytes
  over \<open>[a-z0-9_-]\<close> that does not start with a dash, and either it has the documented form
  \<open>[a-z0-9][a-z0-9_-]{0,63}\<close>, and normalising again changes nothing, or it starts with an
  underscore.\<close>

theorem normalize_agent_id_canonical:
  "let s = normalize_agent_id i in
     s \<noteq> [] \<and> length s \<le> 64 \<and> list_all id_char s \<and> hd s \<noteq> CHR ''-''
     \<and> (valid_id s \<and> normalize_agent_id s = s \<or> hd s = CHR ''_'')"
proof -
  let ?s = "normalize_agent_id i"
  have c: "clean_id ?s" by simp
  then have "hd ?s \<in> set ?s" by (simp add: clean_id_def)
  with c have "id_char (hd ?s)" by (auto simp: clean_id_def list_all_iff)
  then have "hd ?s = CHR ''_'' \<or> valid_id ?s"
    using c by (auto simp: clean_id_def valid_id_alt id_char_def MaxAgentIDLength_def)
  with c show ?thesis
    by (auto simp: clean_id_def Let_def MaxAgentIDLength_def normalize_valid_id)
qed

text \<open>An identifier that starts with an underscore falls outside the documented
  form, and normalising it twice can give a different identifier, so the agent that a route
  names and the agent in its session key can differ.\<close>

theorem normalize_agent_id_underscore:
  "\<exists>i. \<not> valid_id (normalize_agent_id i) \<and> normalize_agent_id (normalize_agent_id i) \<noteq> normalize_agent_id i
     \<and> parse_agent_session_key (build_agent_main_session_key (normalize_agent_id i))
         \<noteq> Some \<lparr>psk_agent_id = normalize_agent_id i, psk_rest = ''main''\<rparr>"
proof (intro exI conjI)
  let ?i = "CHR ''_'' # replicate 62 CHR ''a'' @ ''-b''"
  show "\<not> valid_id (normalize_agent_id ?i)" by code_simp
  show "normalize_agent_id (normalize_agent_id ?i) \<noteq> normalize_agent_id ?i" by code_simp
  show "parse_agent_session_key (build_agent_main_session_key (normalize_agent_id ?i))
         \<noteq> Some \<lparr>psk_agent_id = normalize_agent_id ?i, psk_rest = ''main''\<rparr>" by code_simp
qed

text \<open>session keys round-trip: parsing the key built for any peer, scope and
  channel gives back the normalised agent and a non-empty rest, and the key is exactly
  \<open>agent:<agent>:<rest>\<close>.\<close>

theorem session_key_roundtrip:
  assumes "stable_agent_id (skp_agent_id p)"
  shows "\<exists>rest. rest \<noteq> [] \<and>
     build_agent_peer_session_key p = ''agent:'' @ normalize_agent_id (skp_agent_id p) @ '':'' @ rest \<and>
     parse_agent_session_key (build_agent_peer_session_key p)
       = Some \<lparr>psk_agent_id = normalize_agent_id (skp_agent_id p), psk_rest = rest\<rparr>"
proof -
  obtain rest where "tight rest" and key: "build_agent_peer_session_key p
      = ''agent:'' @ normalize_agent_id (skp_agent_id p) @ '':'' @ rest"
    using build_key_form [OF assms] by blast
  then have "parse_agent_session_key (build_agent_peer_session_key p)
      = Some \<lparr>psk_agent_id = normalize_agent_id (skp_agent_id p), psk_rest = rest\<rparr>"
    by (simp only: key) (rule parse_agent_key, simp_all)
  with key \<open>tight rest\<close> show ?thesis by (auto simp: tight_def)
qed

theorem session_key_roundtrip_witness:
  "\<exists>rest. rest \<noteq> [] \<and> parse_agent_session_key (build_agent_peer_session_key
     \<lparr>skp_agent_id = ''Sales Bot'', skp_channel = ''telegram'', skp_account_id = ''bot1'',
      skp_peer = Some \<lparr>peer_kind = ''direct'', peer_id = ''User123''\<rparr>,
      skp_dm_scope = DMScopePerAccountChannelPeer, skp_identity_links = []\<rparr>)
   = Some \<lparr>psk_agent_id = ''sales-bot'', psk_rest = rest\<rparr>"
proof -
  let ?p = "\<lparr>skp_agent_id = ''Sales Bot'', skp_channel = ''telegram'', skp_account_id = ''bot1'',
      skp_peer = Some \<lparr>peer_kind = ''direct'', peer_id = ''User123''\<rparr>,
      skp_dm_scope = DMScopePerAccountChannelPeer, skp_identity_links = []\<rparr>"
  have n: "normalize_agent_id ''Sales Bot'' = ''sales-bot''" by code_simp
  have "stable_agent_id (skp_agent_id ?p)" unfolding stable_agent_id_def by code_simp
  from session_key_roundtrip [OF this] show ?thesis by (simp add: n) blast
qed

text \<open>The parameters of a direct message without identity links.\<close>

definition dm_params :: "dm_scope \<Rightarrow> string \<Rightarrow> string \<Rightarrow> string \<Rightarrow> string \<Rightarrow> session_key_params" where
  "dm_params scope agent channel account pid =
     \<lparr>skp_agent_id = agent, skp_channel = channel, skp_account_id = account,
      skp_peer = Some \<lparr>peer_kind = ''direct'', peer_id = pid\<rparr>, skp_dm_scope = scope,
      skp_identity_links = []\<rparr>"

lemma account_channel_key:
  assumes "trim_space pid \<noteq> []"
  shows "build_agent_peer_session_key (dm_params DMScopePerAccountChannelPeer agent channel account pid)
    = ''agent:'' @ normalize_agent_id agent @ CHR '':'' # normalize_channel channel @ CHR '':'' #
      normalize_account_id account @ CHR '':'' # ''direct:'' @ to_lower (trim_space pid)"
proof -
  have "trim_space ''direct'' = ''direct''" by code_simp
  with assms show ?thesis
    by (simp add: build_agent_peer_session_key_def dm_params_def Let_def resolve_linked_peer_id_def)
qed

text \<open>with the finest session scope, two direct messages share a session key only
  when they agree on agent, channel, account and (up to case and surrounding blanks) sender:
  no two users of a channel ever share a conversation.\<close>

theorem dm_session_isolation:
  assumes "CHR '':'' \<notin> set ch1" and "CHR '':'' \<notin> set ch2"
    and "trim_space p1 \<noteq> []" and "trim_space p2 \<noteq> []"
    and "build_agent_peer_session_key (dm_params DMScopePerAccountChannelPeer a1 ch1 k1 p1)
       = build_agent_peer_session_key (dm_params DMScopePerAccountChannelPeer a2 ch2 k2 p2)"
  shows "normalize_agent_id a1 = normalize_agent_id a2 \<and> normalize_channel ch1 = normalize_channel ch2
     \<and> normalize_account_id k1 = normalize_account_id k2
     \<and> to_lower (trim_space p1) = to_lower (trim_space p2)"
proof -
  have colon: "lower_char c = CHR '':'' \<longleftrightarrow> c = CHR '':''" for c
    unfolding char_eq_iff_nat of_char_lower_char by auto
  have "CHR '':'' \<notin> set (normalize_channel ch)" if "CHR '':'' \<notin> set ch" for ch
  proof -
    from that have "CHR '':'' \<notin> set (to_lower ch)"
      unfolding to_lower_def set_map image_iff by (metis colon)
    then have "CHR '':'' \<notin> set (trim_space (to_lower ch))" using set_trim_space by blast
    then show ?thesis by (simp add: normalize_channel_def Let_def)
  qed
  with assms(1,2) have ch: "CHR '':'' \<notin> set (normalize_channel ch1)" "CHR '':'' \<notin> set (normalize_channel ch2)"
    by auto
  show ?thesis
    using assms(5) unfolding account_channel_key [OF assms(3)] account_channel_key [OF assms(4)]
    by (simp add: split_at_byte ch clean_id_no_colon)
qed

theorem dm_session_isolation_witness:
  "normalize_agent_id ''Main'' = normalize_agent_id ''main'' \<and> normalize_channel ''Telegram'' = normalize_channel ''telegram''
     \<and> normalize_account_id ''Bot1'' = normalize_account_id ''bot1'' \<and> to_lower (trim_space ''Alice'') = to_lower (trim_space ''alice'')"
proof -
  let ?k = "\<lambda>a ch k p. build_agent_peer_session_key (dm_params DMScopePerAccountChannelPeer a ch k p)"
  have p: "trim_space ''Alice'' \<noteq> []" "trim_space ''alice'' \<noteq> []"
    by (simp_all add: trim_space_def trim_right_def is_space_def)
  have "normalize_agent_id ''Main'' = ''main''" "normalize_agent_id ''main'' = ''main''"
    "normalize_channel ''Telegram'' = ''telegram''" "normalize_channel ''telegram'' = ''telegram''"
    "normalize_account_id ''Bot1'' = ''bot1''" "normalize_account_id ''bot1'' = ''bot1''"
    "to_lower (trim_space ''Alice'') = ''alice''" "to_lower (trim_space ''alice'') = ''alice''"
    by code_simp+
  then have "?k ''Main'' ''Telegram'' ''Bot1'' ''Alice'' = ?k ''main'' ''telegram'' ''bot1'' ''alice''"
    by (simp only: account_channel_key [OF p(1)] account_channel_key [OF p(2)])
  from dm_session_isolation [OF _ _ p this] show ?thesis by simp
qed

end
