(* ===== verification/Identity.thy ===== *)
theory Identity
  imports Prelude
begin

text \<open>
  Package \<open>pkg/identity\<close>: canonical \<open>platform:id\<close> identifiers and the matching of a
  message's sender against one allow-list entry in any of the formats the code accepts.
  The three results of \<open>ParseCanonicalID\<close> are an option of a pair.
\<close>

record sender_info =
  si_platform :: string
  si_platform_id :: string
  si_canonical_id :: string
  si_username :: string
  si_display_name :: string

definition build_canonical_id :: "string \<Rightarrow> string \<Rightarrow> string" where
  "build_canonical_id platform platformID =
     (let p = to_lower (trim_space platform); i = trim_space platformID in
      if p = [] \<or> i = [] then [] else p @ '':'' @ i)"

definition parse_canonical_id :: "string \<Rightarrow> (string \<times> string) option" where
  "parse_canonical_id canonical =
     (let canonical = trim_space canonical in
      case index_byte CHR '':'' canonical of
        None \<Rightarrow> None
      | Some idx \<Rightarrow>
          if idx = 0 \<or> idx = length canonical - 1 then None
          else Some (take idx canonical, drop (Suc idx) canonical))"

definition is_numeric :: "string \<Rightarrow> bool" where
  "is_numeric s \<longleftrightarrow> s \<noteq> [] \<and> list_all (\<lambda>r. \<not> (r < CHR ''0'' \<or> r > CHR ''9'')) s"

definition trim_prefix_at :: "string \<Rightarrow> string" where
  "trim_prefix_at s = (case s of [] \<Rightarrow> [] | c # cs \<Rightarrow> if c = CHR ''@'' then cs else s)"

text \<open>The part of \<open>MatchAllowed\<close> after the canonical attempt: \<open>@name\<close>, plain and
  \<open>id|username\<close> entries.\<close>

definition match_legacy :: "sender_info \<Rightarrow> string \<Rightarrow> bool" where
  "match_legacy sender allowed =
     (let trimmed = trim_prefix_at allowed;
          bar = index_byte CHR ''|'' trimmed;
          (allowedID, allowedUser) =
            (case bar of None \<Rightarrow> (trimmed, [])
             | Some idx \<Rightarrow> if idx > 0 then (take idx trimmed, drop (Suc idx) trimmed) else (trimmed, [])) in
      if si_platform_id sender \<noteq> [] \<and> si_platform_id sender = allowedID then True
      else if si_username sender \<noteq> [] \<and> (si_username sender = trimmed \<or> si_username sender = allowedUser) then True
      else if allowedUser \<noteq> [] \<and> si_platform_id sender \<noteq> [] \<and> si_platform_id sender = allowedID then True
      else if allowedUser \<noteq> [] \<and> si_username sender \<noteq> [] \<and> si_username sender = allowedUser then True
      else False)"

definition match_allowed :: "sender_info \<Rightarrow> string \<Rightarrow> bool" where
  "match_allowed sender allowed =
     (let allowed = trim_space allowed in
      if allowed = [] then False
      else
        case parse_canonical_id allowed of
          Some (platform, i) \<Rightarrow>
            if \<not> is_numeric platform then
              let candidate = build_canonical_id platform i in
              if candidate \<noteq> [] \<and> si_canonical_id sender \<noteq> []
              then equal_fold (si_canonical_id sender) candidate
              else equal_fold platform (si_platform sender) \<and> si_platform_id sender = i
            else match_legacy sender allowed
        | None \<Rightarrow> match_legacy sender allowed)"

section \<open>Canonical identifiers\<close>

lemma trim_right_append: "t \<noteq> [] \<Longrightarrow> \<not> p (last t) \<Longrightarrow> trim_right p (s @ t) = s @ t"
  by (rule trim_right_id) simp

lemma canonical_tight:
  assumes "p \<noteq> []" "\<not> is_space (hd p)" "i \<noteq> []" "\<not> is_space (last i)"
  shows "trim_space (p @ CHR '':'' # i) = p @ CHR '':'' # i"
  using assms by (intro trim_space_id) auto

lemma parse_canonical_join:
  assumes "p \<noteq> []" "\<not> is_space (hd p)" "CHR '':'' \<notin> set p" "i \<noteq> []" "\<not> is_space (last i)"
  shows "parse_canonical_id (p @ CHR '':'' # i) = Some (p, i)"
  using assms canonical_tight [of p i] index_byte_append [of "CHR '':''" p i]
  by (auto simp: parse_canonical_id_def Let_def)

text \<open>Canonical identifiers round-trip: parsing the identifier built from a platform
  name without a colon and an id gives back the normalised platform and the trimmed id.\<close>

theorem canonical_id_roundtrip:
  assumes "trim_space platform \<noteq> []" and "trim_space pid \<noteq> []" and "CHR '':'' \<notin> set platform"
  shows "parse_canonical_id (build_canonical_id platform pid)
    = Some (to_lower (trim_space platform), trim_space pid)"
proof -
  have "lower_char c = CHR '':'' \<longleftrightarrow> c = CHR '':''" for c
    unfolding char_eq_iff_nat of_char_lower_char by auto
  moreover have "CHR '':'' \<notin> set (trim_space platform)" using assms(3) set_trim_space by blast
  ultimately have "CHR '':'' \<notin> set (to_lower (trim_space platform))"
    unfolding to_lower_def set_map image_iff by metis
  moreover have "\<not> is_space (hd (to_lower (trim_space platform)))"
    using trim_space_hd [OF assms(1)] assms(1) by (simp add: to_lower_def hd_map)
  ultimately show ?thesis
    using assms trim_space_last [OF assms(2)]
    by (simp add: build_canonical_id_def Let_def parse_canonical_join)
qed

theorem canonical_id_roundtrip_witness:
  "parse_canonical_id (build_canonical_id '' Telegram'' ''123456 '')
     = Some (to_lower (trim_space '' Telegram''), trim_space ''123456 '')"
  by (rule canonical_id_roundtrip) (simp_all add: trim_space_def trim_right_def is_space_def)

section \<open>The allow list denies by default\<close>

lemma match_legacy_iff:
  "match_legacy sender allowed \<longleftrightarrow>
     (let t = trim_prefix_at allowed in
      si_username sender \<noteq> [] \<and> si_username sender = t
      \<or> (case index_byte CHR ''|'' t of
          Some (Suc n) \<Rightarrow> si_platform_id sender \<noteq> [] \<and> si_platform_id sender = take (Suc n) t
             \<or> si_username sender \<noteq> [] \<and> si_username sender = drop (Suc (Suc n)) t
        | _ \<Rightarrow> si_platform_id sender \<noteq> [] \<and> si_platform_id sender = t))"
  by (auto simp: match_legacy_def Let_def split: option.splits nat.splits)

definition entry_names :: "string \<Rightarrow> string list" where
  "entry_names allowed =
     (let t = trim_prefix_at (trim_space allowed) in
      t # (case index_byte CHR ''|'' t of Some (Suc n) \<Rightarrow> [take (Suc n) t, drop (Suc (Suc n)) t] | _ \<Rightarrow> []))"

text \<open>matching is sound: an entry admits a sender only if it spells out something
  the sender carries: its canonical identifier, its platform and platform id, its platform id,
  or its username (alone, or as one half of an \<open>id|username\<close> entry).\<close>

theorem match_allowed_sound:
  assumes "match_allowed sender allowed"
  shows "(\<exists>p i. parse_canonical_id (trim_space allowed) = Some (p, i) \<and>
            (si_canonical_id sender \<noteq> [] \<and> equal_fold (si_canonical_id sender) (build_canonical_id p i)
             \<or> si_platform sender \<noteq> [] \<and> equal_fold p (si_platform sender) \<and> si_platform_id sender = i))
      \<or> si_platform_id sender \<noteq> [] \<and> si_platform_id sender \<in> set (entry_names allowed)
      \<or> si_username sender \<noteq> [] \<and> si_username sender \<in> set (entry_names allowed)"
proof (cases "match_legacy sender (trim_space allowed)")
  case True
  then show ?thesis
    unfolding match_legacy_iff entry_names_def Let_def by (auto split: option.splits nat.splits)
next
  case False
  with assms obtain p i where pi: "parse_canonical_id (trim_space allowed) = Some (p, i)"
    and eq: "if build_canonical_id p i \<noteq> [] \<and> si_canonical_id sender \<noteq> []
       then equal_fold (si_canonical_id sender) (build_canonical_id p i)
       else equal_fold p (si_platform sender) \<and> si_platform_id sender = i"
    by (auto simp: match_allowed_def Let_def split: option.splits if_splits)
  have "p \<noteq> []"
    using pi by (auto simp: parse_canonical_id_def Let_def split: option.splits if_splits
        dest: index_byte_Some)
  with eq have "si_canonical_id sender \<noteq> [] \<and> equal_fold (si_canonical_id sender) (build_canonical_id p i)
      \<or> si_platform sender \<noteq> [] \<and> equal_fold p (si_platform sender) \<and> si_platform_id sender = i"
    by (auto simp: equal_fold_def split: if_splits)
  with pi show ?thesis by blast
qed

definition alice :: sender_info where
  "alice = \<lparr>si_platform = ''telegram'', si_platform_id = ''123456'', si_canonical_id = ''telegram:123456'',
     si_username = ''alice'', si_display_name = ''Alice''\<rparr>"

theorem match_allowed_sound_witness:
  "match_allowed alice ''123456|alice'' \<and>
   ((\<exists>p i. parse_canonical_id (trim_space ''123456|alice'') = Some (p, i) \<and>
            (si_canonical_id alice \<noteq> [] \<and> equal_fold (si_canonical_id alice) (build_canonical_id p i)
             \<or> si_platform alice \<noteq> [] \<and> equal_fold p (si_platform alice) \<and> si_platform_id alice = i))
      \<or> si_platform_id alice \<noteq> [] \<and> si_platform_id alice \<in> set (entry_names ''123456|alice'')
      \<or> si_username alice \<noteq> [] \<and> si_username alice \<in> set (entry_names ''123456|alice''))"
proof -
  have m: "match_allowed alice ''123456|alice''" by code_simp
  from m match_allowed_sound [OF m] show ?thesis by (rule conjI)
qed

end
