(* ===== verification/Go_Regexp.thy ===== *)
theory Go_Regexp
  imports Prelude
begin

text \<open>
  The part of package \<open>regexp\<close> that the error classifier and the guard of shell commands use:
  character classes, concatenation, alternatives, greedy repetition of a class, optional parts,
  word boundaries and one capture group. A match is found leftmost first; among the matches at one position Go
  returns the one a backtracking engine would find, so \<open>matches_at\<close> lists all matches at a
  position in that order and the search takes the first.
\<close>

datatype regexp =
    Cls "char \<Rightarrow> bool"
  | StarCls "char \<Rightarrow> bool"
  | Cat regexp regexp
  | Opt regexp
  | Alt regexp regexp
  | WordBoundary
  | Group regexp

text \<open>A position in the text: the byte before it, the text after it, and what the group
  captured so far.\<close>

type_synonym position = "char option \<times> string \<times> string option"

definition word_char :: "char \<Rightarrow> bool" where
  "word_char c \<longleftrightarrow> CHR ''0'' \<le> c \<and> c \<le> CHR ''9'' \<or> CHR ''A'' \<le> c \<and> c \<le> CHR ''Z''
     \<or> CHR ''a'' \<le> c \<and> c \<le> CHR ''z'' \<or> c = CHR ''_''"

definition at_boundary :: "char option \<Rightarrow> string \<Rightarrow> bool" where
  "at_boundary before rest \<longleftrightarrow>
     (case before of None \<Rightarrow> False | Some b \<Rightarrow> word_char b)
       \<noteq> (case rest of [] \<Rightarrow> False | c # _ \<Rightarrow> word_char c)"

fun star_matches :: "(char \<Rightarrow> bool) \<Rightarrow> char option \<Rightarrow> string \<Rightarrow> string option \<Rightarrow> position list" where
  "star_matches p before [] g = [(before, [], g)]"
| "star_matches p before (c # cs) g =
     (if p c then star_matches p (Some c) cs g else []) @ [(before, c # cs, g)]"

fun matches_at :: "regexp \<Rightarrow> position \<Rightarrow> position list" where
  "matches_at (Cls p) (before, rest, g) =
     (case rest of [] \<Rightarrow> [] | c # cs \<Rightarrow> if p c then [(Some c, cs, g)] else [])"
| "matches_at (StarCls p) (before, rest, g) = star_matches p before rest g"
| "matches_at (Cat r s) pos = concat (map (matches_at s) (matches_at r pos))"
| "matches_at (Opt r) pos = matches_at r pos @ [pos]"
| "matches_at (Alt r s) pos = matches_at r pos @ matches_at s pos"
| "matches_at WordBoundary (before, rest, g) =
     (if at_boundary before rest then [(before, rest, g)] else [])"
| "matches_at (Group r) (before, rest, g) =
     map (\<lambda>(b, rest', _). (b, rest', Some (take (length rest - length rest') rest)))
       (matches_at r (before, rest, g))"

text \<open>The first match at or after a position.\<close>

fun find_match :: "regexp \<Rightarrow> char option \<Rightarrow> string \<Rightarrow> position option" where
  "find_match r before [] =
     (case matches_at r (before, [], None) of [] \<Rightarrow> None | m # _ \<Rightarrow> Some m)"
| "find_match r before (c # cs) =
     (case matches_at r (before, c # cs, None) of
        [] \<Rightarrow> find_match r (Some c) cs
      | m # _ \<Rightarrow> Some m)"

definition match_string :: "regexp \<Rightarrow> string \<Rightarrow> bool" where
  "match_string r s = (find_match r None s \<noteq> None)"

text \<open>The capture of \<open>FindStringSubmatch\<close>; \<open>None\<close> when there is no match.\<close>

definition find_submatch :: "regexp \<Rightarrow> string \<Rightarrow> string option" where
  "find_submatch r s = Option.bind (find_match r None s) (\<lambda>(_, _, g). g)"

text \<open>\<open>FindAllString\<close>: the texts of the matches from left to right, each search starting at the end of the
  match before it. An empty match, which none of the expressions in use has, ends the search.\<close>

function find_all :: "regexp \<Rightarrow> char option \<Rightarrow> string \<Rightarrow> string list" where
  "find_all r before s =
     (case find_match (Group r) before s of
        None \<Rightarrow> []
      | Some (before', rest, g) \<Rightarrow>
          if length rest < length s \<and> g \<noteq> Some []
          then (case g of None \<Rightarrow> [] | Some t \<Rightarrow> [t]) @ find_all r before' rest
          else [])"
  by pat_completeness auto
termination by (relation "measure (\<lambda>(_, _, s). length s)") auto

declare find_all.simps [simp del]

section \<open>Building expressions\<close>

fun cats :: "regexp list \<Rightarrow> regexp" where
  "cats [] = StarCls (\<lambda>_. False)"
| "cats [r] = r"
| "cats (r # s # rs) = Cat r (cats (s # rs))"

text \<open>A literal, matched without regard to ASCII case (\<open>(?i)\<close>).\<close>

definition fold_lit :: "string \<Rightarrow> regexp" where
  "fold_lit s = cats (map (\<lambda>c. Cls (\<lambda>d. lower_char d = lower_char c)) s)"

definition lit :: "string \<Rightarrow> regexp" where
  "lit s = cats (map (\<lambda>c. Cls (\<lambda>d. d = c)) s)"

definition digit_char :: "char \<Rightarrow> bool" where
  "digit_char c \<longleftrightarrow> CHR ''0'' \<le> c \<and> c \<le> CHR ''9''"

text \<open>\<open>\s\<close> of RE2 (no vertical tab) and the dot (no newline).\<close>

definition re_space :: "char \<Rightarrow> bool" where
  "re_space c \<longleftrightarrow> c = CHR 0x20 \<or> c = CHR 0x09 \<or> c = CHR 0x0A \<or> c = CHR 0x0C \<or> c = CHR 0x0D"

definition dot_char :: "char \<Rightarrow> bool" where
  "dot_char c \<longleftrightarrow> c \<noteq> CHR 0x0A"

definition plus_cls :: "(char \<Rightarrow> bool) \<Rightarrow> regexp" where
  "plus_cls p = Cat (Cls p) (StarCls p)"

section \<open>Lemmas\<close>

text \<open>A match consumes a prefix of the text.\<close>

lemma star_matches_suffix:
  "(b', rest', g') \<in> set (star_matches p b rest g) \<Longrightarrow> \<exists>u. rest = u @ rest' \<and> list_all p u \<and> g' = g"
proof (induction rest arbitrary: b)
  case (Cons c cs)
  show ?case
  proof (cases "(b', rest') = (b, c # cs) \<and> g' = g")
    case True
    then show ?thesis by simp
  next
    case False
    with Cons.prems have "p c" and "(b', rest', g') \<in> set (star_matches p (Some c) cs g)"
      by (auto split: if_splits)
    with Cons.IH obtain u where "cs = u @ rest'" "list_all p u" "g' = g" by blast
    with \<open>p c\<close> show ?thesis by (auto intro!: exI [of _ "c # u"])
  qed
qed simp

lemma matches_at_suffix:
  "(b', rest', g') \<in> set (matches_at r (b, rest, g)) \<Longrightarrow> \<exists>u. rest = u @ rest'"
proof (induction r arbitrary: b rest g b' rest' g')
  case (StarCls p)
  then show ?case by (auto dest: star_matches_suffix)
next
  case (Cat r s)
  from Cat.prems obtain b1 rest1 g1 where m: "(b1, rest1, g1) \<in> set (matches_at r (b, rest, g))"
    "(b', rest', g') \<in> set (matches_at s (b1, rest1, g1))" by auto
  from Cat.IH(1) [OF m(1)] obtain u where "rest = u @ rest1" by blast
  moreover from Cat.IH(2) [OF m(2)] obtain v where "rest1 = v @ rest'" by blast
  ultimately have "rest = (u @ v) @ rest'" by simp
  then show ?case by blast
next
  case (Group r)
  from Group.prems obtain g1 where "(b', rest', g1) \<in> set (matches_at r (b, rest, g))" by auto
  then show ?case by (rule Group.IH)
next
  case (Opt r)
  from Opt.prems consider "(b', rest', g') \<in> set (matches_at r (b, rest, g))" | "rest' = rest"
    by auto
  then show ?case using Opt.IH by cases blast+
next
  case (Alt r s)
  from Alt.prems consider "(b', rest', g') \<in> set (matches_at r (b, rest, g))" | "(b', rest', g') \<in> set (matches_at s (b, rest, g))"
    by auto
  then show ?case using Alt.IH by cases blast+
next
  case (Cls p)
  then show ?case by (cases rest) (auto split: if_splits)
next
  case WordBoundary
  then show ?case by (auto split: if_splits)
qed

lemma find_match_matches:
  "find_match r b s = Some m \<Longrightarrow> \<exists>b' rest. m \<in> set (matches_at r (b', rest, None)) \<and> (\<exists>u. s = u @ rest)"
proof (induction s arbitrary: b)
  case Nil
  then have "m \<in> set (matches_at r (b, [], None))"
    by (cases "matches_at r (b, [], None)") auto
  then show ?case by blast
next
  case (Cons c cs)
  show ?case
  proof (cases "matches_at r (b, c # cs, None)")
    case Nil
    with Cons.prems have "find_match r (Some c) cs = Some m" by simp
    from Cons.IH [OF this] obtain b' rest u
      where m: "m \<in> set (matches_at r (b', rest, None))" and "cs = u @ rest" by blast
    then have "c # cs = (c # u) @ rest" by simp
    with m show ?thesis by blast
  next
    case (Cons m' ms)
    with Cons.prems have "m \<in> set (matches_at r (b, c # cs, None))" by simp
    then show ?thesis by blast
  qed
qed

text \<open>If the expression matches at some position of the text, the search finds a match.\<close>

lemma find_match_exists:
  "matches_at r (case u of [] \<Rightarrow> b | _ \<Rightarrow> Some (last u), rest, None) \<noteq> [] \<Longrightarrow> find_match r b (u @ rest) \<noteq> None"
proof (induction u arbitrary: b)
  case Nil
  then show ?case by (cases rest) (auto split: list.splits)
next
  case (Cons c u)
  have "find_match r (Some c) (u @ rest) \<noteq> None"
    by (rule Cons.IH) (use Cons.prems in \<open>auto split: list.splits\<close>)
  then show ?case by (auto split: list.splits)
qed

lemma matches_at_cats_Cls:
  "ps \<noteq> [] \<Longrightarrow> length ps = length u \<Longrightarrow> list_all2 (\<lambda>p c. p c) ps u
     \<Longrightarrow> matches_at (cats (map Cls ps)) (b, u @ rest, g) = [(Some (last u), rest, g)]"
proof (induction ps arbitrary: u b)
  case (Cons p ps)
  then obtain c cs where u: "u = c # cs" by (cases u) auto
  show ?case
  proof (cases ps)
    case Nil
    with Cons.prems u show ?thesis by simp
  next
    case (Cons q qs)
    with Cons.prems Cons.IH [of cs "Some c"] u show ?thesis by (cases cs) auto
  qed
qed simp

text \<open>A literal occurs in every text that contains it.\<close>

lemma match_string_fold_lit:
  assumes "l \<noteq> []"
  shows "match_string (fold_lit l) (u @ l @ v)"
proof -
  let ?ps = "map (\<lambda>c d. lower_char d = lower_char c) l"
  have "matches_at (fold_lit l) (b, l @ v, None) = [(Some (last l), v, None)]" for b
    using matches_at_cats_Cls [of ?ps l b v None] assms
    by (simp add: fold_lit_def comp_def list_all2_conv_all_nth)
  then have "find_match (fold_lit l) None (u @ l @ v) \<noteq> None"
    by (intro find_match_exists) simp
  then show ?thesis by (simp add: match_string_def)
qed

end
