(* ===== verification/Cooldown.thy ===== *)
theory Cooldown
  imports Prelude
begin

text \<open>
  \<open>pkg/providers/cooldown.go\<close>: the per-provider cooldown state that the fallback chain
  consults. Every operation of \<open>CooldownTracker\<close> reads the clock once; here the reading is
  an argument. A zero \<open>time.Time\<close> is \<open>None\<close>, and a Go map of counters is the function that
  is 0 where the map has no entry. The locale \<open>cooldown\<close> is the contract the fallback chain
  relies on; the tracker is its interpretation.
\<close>

section \<open>State\<close>

datatype failover_reason = FailoverAuth | FailoverRateLimit | FailoverBilling | FailoverTimeout
  | FailoverFormat | FailoverOverloaded | FailoverUnknown

record cooldown_entry =
  ce_error_count :: nat
  ce_failure_counts :: "failover_reason \<Rightarrow> nat"
  ce_cooldown_end :: "time option"
  ce_disabled_until :: "time option"
  ce_disabled_reason :: "failover_reason option"
  ce_last_failure :: "time option"

record cooldown_tracker =
  ct_entries :: "string \<Rightarrow> cooldown_entry option"
  ct_failure_window :: duration

definition default_failure_window :: duration where
  "default_failure_window = day"

definition new_cooldown_tracker :: cooldown_tracker where
  "new_cooldown_tracker = \<lparr>ct_entries = Map.empty, ct_failure_window = default_failure_window\<rparr>"

definition empty_entry :: cooldown_entry where
  "empty_entry = \<lparr>ce_error_count = 0, ce_failure_counts = (\<lambda>_. 0), ce_cooldown_end = None,
     ce_disabled_until = None, ce_disabled_reason = None, ce_last_failure = None\<rparr>"

section \<open>Back-off schedules\<close>

definition calculate_standard_cooldown :: "nat \<Rightarrow> duration" where
  "calculate_standard_cooldown errorCount =
     (let n = max 1 errorCount;
          e = min (n - 1) 3;
          ms = 60000 * (5::int) ^ e;
          ms = min 3600000 ms
      in ms * millisecond)"

definition calculate_billing_cooldown :: "nat \<Rightarrow> duration" where
  "calculate_billing_cooldown billingErrorCount =
     (let baseMs = 5 * 60 * 60 * 1000 :: int;
          maxMs = 24 * 60 * 60 * 1000 :: int;
          n = max 1 billingErrorCount;
          e = min (n - 1) 10;
          raw = baseMs * 2 ^ e;
          ms = min maxMs raw
      in ms * millisecond)"

section \<open>Operations\<close>

definition get_or_create :: "cooldown_tracker \<Rightarrow> string \<Rightarrow> cooldown_entry" where
  "get_or_create ct provider =
     (case ct_entries ct provider of None \<Rightarrow> empty_entry | Some e \<Rightarrow> e)"

definition fail_entry :: "duration \<Rightarrow> time \<Rightarrow> failover_reason \<Rightarrow> cooldown_entry \<Rightarrow> cooldown_entry" where
  "fail_entry window now reason e0 =
     (let e1 = (case ce_last_failure e0 of
                  None \<Rightarrow> e0
                | Some lf \<Rightarrow>
                    if now - lf > window
                    then e0\<lparr>ce_error_count := 0, ce_failure_counts := (\<lambda>_. 0)\<rparr> else e0);
          e2 = e1\<lparr>ce_error_count := ce_error_count e1 + 1,
                  ce_failure_counts := (ce_failure_counts e1)(reason := ce_failure_counts e1 reason + 1),
                  ce_last_failure := Some now\<rparr>
      in if reason = FailoverBilling
         then e2\<lparr>ce_disabled_until := Some (now + calculate_billing_cooldown (ce_failure_counts e2 FailoverBilling)),
                 ce_disabled_reason := Some FailoverBilling\<rparr>
         else e2\<lparr>ce_cooldown_end := Some (now + calculate_standard_cooldown (ce_error_count e2))\<rparr>)"

definition mark_failure :: "cooldown_tracker \<Rightarrow> string \<Rightarrow> failover_reason \<Rightarrow> time \<Rightarrow> cooldown_tracker" where
  "mark_failure ct provider reason now =
     ct\<lparr>ct_entries := (ct_entries ct)(provider \<mapsto>
          fail_entry (ct_failure_window ct) now reason (get_or_create ct provider))\<rparr>"

definition mark_success :: "cooldown_tracker \<Rightarrow> string \<Rightarrow> cooldown_tracker" where
  "mark_success ct provider =
     (case ct_entries ct provider of
        None \<Rightarrow> ct
      | Some e \<Rightarrow>
          ct\<lparr>ct_entries := (ct_entries ct)(provider \<mapsto>
               e\<lparr>ce_error_count := 0, ce_failure_counts := (\<lambda>_. 0), ce_cooldown_end := None,
                 ce_disabled_until := None, ce_disabled_reason := None\<rparr>)\<rparr>)"

text \<open>\<open>!t.IsZero() && now.Before(t)\<close>.\<close>

definition pending :: "time option \<Rightarrow> time \<Rightarrow> bool" where
  "pending t now = (case t of None \<Rightarrow> False | Some end \<Rightarrow> now < end)"

definition is_available :: "cooldown_tracker \<Rightarrow> string \<Rightarrow> time \<Rightarrow> bool" where
  "is_available ct provider now =
     (case ct_entries ct provider of
        None \<Rightarrow> True
      | Some e \<Rightarrow>
          if pending (ce_disabled_until e) now then False
          else if pending (ce_cooldown_end e) now then False
          else True)"

definition cooldown_remaining :: "cooldown_tracker \<Rightarrow> string \<Rightarrow> time \<Rightarrow> duration" where
  "cooldown_remaining ct provider now =
     (case ct_entries ct provider of
        None \<Rightarrow> 0
      | Some e \<Rightarrow>
          let r0 = (0 :: int);
              r1 = (if pending (ce_disabled_until e) now \<and> the (ce_disabled_until e) - now > r0
                    then the (ce_disabled_until e) - now else r0)
          in (if pending (ce_cooldown_end e) now \<and> the (ce_cooldown_end e) - now > r1
              then the (ce_cooldown_end e) - now else r1))"

definition error_count :: "cooldown_tracker \<Rightarrow> string \<Rightarrow> nat" where
  "error_count ct provider =
     (case ct_entries ct provider of None \<Rightarrow> 0 | Some e \<Rightarrow> ce_error_count e)"

definition failure_count :: "cooldown_tracker \<Rightarrow> string \<Rightarrow> failover_reason \<Rightarrow> nat" where
  "failure_count ct provider reason =
     (case ct_entries ct provider of None \<Rightarrow> 0 | Some e \<Rightarrow> ce_failure_counts e reason)"

section \<open>The contract the fallback chain relies on\<close>

locale cooldown =
  fixes available :: "'c \<Rightarrow> string \<Rightarrow> time \<Rightarrow> bool"
    and remaining :: "'c \<Rightarrow> string \<Rightarrow> time \<Rightarrow> duration"
    and fail :: "'c \<Rightarrow> string \<Rightarrow> failover_reason \<Rightarrow> time \<Rightarrow> 'c"
    and success :: "'c \<Rightarrow> string \<Rightarrow> 'c"
  assumes remaining_available: "available c p t \<longleftrightarrow> remaining c p t = 0"
    and remaining_nonneg: "0 \<le> remaining c p t"
    and available_later: "available c p t \<Longrightarrow> t \<le> u \<Longrightarrow> available c p u"
    and fail_blocks: "now \<le> t \<Longrightarrow> t < now + minute \<Longrightarrow> \<not> available (fail c p r now) p t"
    and fail_other: "q \<noteq> p \<Longrightarrow> remaining (fail c p r now) q t = remaining c q t"
    and success_available: "available (success c p) p t"
    and success_other: "q \<noteq> p \<Longrightarrow> remaining (success c p) q t = remaining c q t"
begin

lemma fail_other_available: "q \<noteq> p \<Longrightarrow> available (fail c p r now) q t = available c q t"
  by (simp add: remaining_available fail_other)

lemma success_other_available: "q \<noteq> p \<Longrightarrow> available (success c p) q t = available c q t"
  by (simp add: remaining_available success_other)

lemma success_releases:
  assumes "available c q t"
  shows "available (success c p) q t"
  using assms by (cases "q = p") (simp_all add: success_available success_other_available)

lemma failed_stays_blocked:
  assumes "t < now + minute"
  shows "\<not> available (fail c p r now) p t"
  using fail_blocks [of now "max t now" c p r] available_later [of "fail c p r now" p t "max t now"] assms
  by auto

lemma blocked_positive: "\<not> available c p t \<Longrightarrow> 0 < remaining c p t"
  using remaining_nonneg [of c p t] by (simp add: remaining_available)

end

section \<open>The tracker keeps the contract\<close>

lemma standard_cooldown_table:
  "calculate_standard_cooldown n =
     (if n \<le> 1 then minute else if n = 2 then 5 * minute else if n = 3 then 25 * minute else hour)"
proof -
  consider "n \<le> 1" | "n = 2" | "n = 3" | "min (n - 1) 3 = 3" "4 \<le> n" by linarith
  then show ?thesis by cases (simp_all add: calculate_standard_cooldown_def)
qed

lemma billing_cooldown_table:
  "calculate_billing_cooldown n =
     (if n \<le> 1 then 5 * hour else if n = 2 then 10 * hour else if n = 3 then 20 * hour else day)"
proof -
  consider "n \<le> 1" | "n = 2" | "n = 3" | "4 \<le> n" by linarith
  then show ?thesis
  proof cases
    case 4
    then have "3 \<le> min (n - 1) 10" by simp
    then have "(2::int) ^ 3 \<le> 2 ^ min (n - 1) 10" by (intro power_increasing) auto
    with 4 show ?thesis by (simp add: calculate_billing_cooldown_def max_def)
  qed (simp_all add: calculate_billing_cooldown_def)
qed

lemma cooldown_bounds:
  "minute \<le> calculate_standard_cooldown n" "calculate_standard_cooldown n \<le> hour"
  "5 * hour \<le> calculate_billing_cooldown n" "calculate_billing_cooldown n \<le> day"
  by (simp_all add: standard_cooldown_table billing_cooldown_table)

lemma pending_simps [simp]: "\<not> pending None t" "pending (Some u) t \<longleftrightarrow> t < u"
  by (simp_all add: pending_def)

lemma remaining_max:
  "cooldown_remaining ct p t =
     (case ct_entries ct p of None \<Rightarrow> 0
      | Some e \<Rightarrow> max (case ce_disabled_until e of None \<Rightarrow> 0 | Some u \<Rightarrow> max 0 (u - t))
                   (case ce_cooldown_end e of None \<Rightarrow> 0 | Some u \<Rightarrow> max 0 (u - t)))"
  unfolding cooldown_remaining_def Let_def
  by (auto split: option.split)

lemma remaining_available_iff: "is_available ct p t \<longleftrightarrow> cooldown_remaining ct p t = 0"
  by (auto simp: is_available_def remaining_max split: option.splits)

lemma cooldown_remaining_nonneg: "0 \<le> cooldown_remaining ct p t"
  by (auto simp: remaining_max split: option.splits)

lemma fail_entry_ends:
  "ce_cooldown_end (fail_entry w now r e) =
     (if r = FailoverBilling then ce_cooldown_end e
      else Some (now + calculate_standard_cooldown (ce_error_count (fail_entry w now r e))))"
  "ce_disabled_until (fail_entry w now r e) =
     (if r = FailoverBilling
      then Some (now + calculate_billing_cooldown (ce_failure_counts (fail_entry w now r e) FailoverBilling))
      else ce_disabled_until e)"
  by (auto simp: fail_entry_def Let_def split: option.splits)

lemma mark_failure_blocks:
  assumes "now \<le> t" and "t < now + minute"
  shows "\<not> is_available (mark_failure ct p r now) p t"
  using assms cooldown_bounds(1) [of "ce_error_count (fail_entry (ct_failure_window ct) now r (get_or_create ct p))"]
    cooldown_bounds(3) [of "ce_failure_counts (fail_entry (ct_failure_window ct) now r (get_or_create ct p)) FailoverBilling"]
  by (auto simp: is_available_def mark_failure_def fail_entry_ends)

lemma mark_failure_other [frame_simps]:
  "q \<noteq> p \<Longrightarrow> cooldown_remaining (mark_failure ct p r now) q t = cooldown_remaining ct q t"
  by (simp add: cooldown_remaining_def mark_failure_def)

lemma mark_success_available: "is_available (mark_success ct p) p t"
  by (simp add: is_available_def mark_success_def split: option.splits)

lemma mark_success_other [frame_simps]:
  "q \<noteq> p \<Longrightarrow> cooldown_remaining (mark_success ct p) q t = cooldown_remaining ct q t"
  by (cases "ct_entries ct p") (simp_all add: cooldown_remaining_def mark_success_def)

lemma is_available_later: "is_available ct p t \<Longrightarrow> t \<le> u \<Longrightarrow> is_available ct p u"
  by (auto simp: is_available_def pending_def split: option.splits if_splits)

interpretation tracker: cooldown is_available cooldown_remaining mark_failure mark_success
  by unfold_locales
     (simp_all add: remaining_available_iff cooldown_remaining_nonneg mark_failure_blocks
       mark_success_available [unfolded remaining_available_iff] frame_simps
       mark_failure_blocks [unfolded remaining_available_iff]
       is_available_later [unfolded remaining_available_iff])

section \<open>Properties\<close>

text \<open>one failure takes a provider out for exactly the back-off its history asks
  for: with no billing lock and \<open>n\<close> earlier errors inside the failure window, a failure that
  is not about billing makes it unavailable at every instant of the next 1, 5, 25 or 60
  minutes and available from then on; no other provider notices.\<close>

theorem mark_failure_backoff:
  assumes "ct_entries ct p = Some e" and "ce_last_failure e = Some lf" and "now - lf \<le> ct_failure_window ct"
    and "ce_disabled_until e = None" and "r \<noteq> FailoverBilling" and "now \<le> t"
  shows "(is_available (mark_failure ct p r now) p t
           \<longleftrightarrow> now + (case ce_error_count e of 0 \<Rightarrow> minute | Suc 0 \<Rightarrow> 5 * minute
                      | Suc (Suc 0) \<Rightarrow> 25 * minute | _ \<Rightarrow> hour) \<le> t)
         \<and> (\<forall>q. q \<noteq> p \<longrightarrow> is_available (mark_failure ct p r now) q t = is_available ct q t)"
proof
  show "\<forall>q. q \<noteq> p \<longrightarrow> is_available (mark_failure ct p r now) q t = is_available ct q t"
    by (simp add: tracker.fail_other_available)
qed (use assms in \<open>auto simp: is_available_def mark_failure_def get_or_create_def fail_entry_def
        standard_cooldown_table split: nat.split\<close>)

definition failed_once :: cooldown_tracker where
  "failed_once = mark_failure new_cooldown_tracker ''openai'' FailoverTimeout 0"

theorem mark_failure_backoff_witness:
  "\<not> is_available (mark_failure failed_once ''openai'' FailoverRateLimit minute) ''openai'' (5 * minute)
   \<and> is_available (mark_failure failed_once ''openai'' FailoverRateLimit minute) ''openai'' (6 * minute)
   \<and> is_available (mark_failure failed_once ''openai'' FailoverRateLimit minute) ''anthropic'' (5 * minute)"
proof -
  have e: "ct_entries failed_once ''openai'' = Some (fail_entry default_failure_window 0 FailoverTimeout empty_entry)"
    by (simp add: failed_once_def mark_failure_def new_cooldown_tracker_def get_or_create_def)
  have h: "ce_last_failure (fail_entry default_failure_window 0 FailoverTimeout empty_entry) = Some 0"
    "ce_disabled_until (fail_entry default_failure_window 0 FailoverTimeout empty_entry) = None"
    "ce_error_count (fail_entry default_failure_window 0 FailoverTimeout empty_entry) = 1"
    "minute - 0 \<le> ct_failure_window failed_once"
    by (simp_all add: fail_entry_def empty_entry_def Let_def failed_once_def mark_failure_def
        new_cooldown_tracker_def default_failure_window_def)
  have "is_available failed_once ''anthropic'' (5 * minute)"
    by (simp add: is_available_def failed_once_def mark_failure_def new_cooldown_tracker_def)
  then show ?thesis
    using mark_failure_backoff [OF e h(1) h(4) h(2), of FailoverRateLimit "5 * minute"]
      mark_failure_backoff [OF e h(1) h(4) h(2), of FailoverRateLimit "6 * minute"] h(3)
    by simp
qed

text \<open>Runs of the tracker: failures and successes of any providers at any times.\<close>

datatype cooldown_event = Failed string failover_reason time | Succeeded string

fun cooldown_step :: "cooldown_tracker \<Rightarrow> cooldown_event \<Rightarrow> cooldown_tracker" where
  "cooldown_step ct (Failed p r now) = mark_failure ct p r now"
| "cooldown_step ct (Succeeded p) = mark_success ct p"

fun event_by :: "time \<Rightarrow> cooldown_event \<Rightarrow> bool" where
  "event_by T (Failed p r now) = (now \<le> T)"
| "event_by T (Succeeded p) = True"

definition ends_by :: "time \<Rightarrow> cooldown_tracker \<Rightarrow> bool" where
  "ends_by T ct \<longleftrightarrow> (\<forall>p e. ct_entries ct p = Some e \<longrightarrow>
     \<not> pending (ce_cooldown_end e) T \<and> \<not> pending (ce_disabled_until e) T)"

lemma ends_by_step:
  assumes "ends_by U ct" and "event_by T ev" and "T + day \<le> U"
  shows "ends_by U (cooldown_step ct ev)"
proof (cases ev)
  case (Failed p r now)
  let ?e = "fail_entry (ct_failure_window ct) now r (get_or_create ct p)"
  have "\<not> pending (ce_cooldown_end (get_or_create ct p)) U"
    "\<not> pending (ce_disabled_until (get_or_create ct p)) U"
    using assms(1) unfolding ends_by_def
    by (cases "ct_entries ct p"; simp add: get_or_create_def empty_entry_def)+
  moreover have "now + day \<le> U" using assms(2,3) Failed by simp
  ultimately have "\<not> pending (ce_cooldown_end ?e) U" "\<not> pending (ce_disabled_until ?e) U"
    using cooldown_bounds(2) [of "ce_error_count ?e"]
      cooldown_bounds(4) [of "ce_failure_counts ?e FailoverBilling"]
    by (auto simp: fail_entry_ends)
  with assms(1) Failed show ?thesis by (auto simp: ends_by_def mark_failure_def)
next
  case (Succeeded p)
  with assms(1) show ?thesis by (auto simp: ends_by_def mark_success_def split: option.splits)
qed

text \<open>no provider is locked out for more than a day: after any history of failures
  (billing failures included) and successes, every provider is available 24 hours after the
  last event.\<close>

theorem cooldown_released_within_a_day:
  assumes "list_all (event_by T) events"
  shows "is_available (foldl cooldown_step new_cooldown_tracker events) p (T + day)"
proof -
  have "ends_by U (foldl cooldown_step ct events)" if "ends_by U ct" "T + day \<le> U" for ct U
    using that assms by (induction events arbitrary: ct) (auto intro: ends_by_step)
  moreover have "ends_by U new_cooldown_tracker" for U
    by (simp add: ends_by_def new_cooldown_tracker_def)
  ultimately have "ends_by (T + day) (foldl cooldown_step new_cooldown_tracker events)" by blast
  then show ?thesis by (auto simp: is_available_def ends_by_def split: option.splits)
qed

theorem cooldown_released_within_a_day_witness:
  "is_available (foldl cooldown_step new_cooldown_tracker
     [Failed ''openai'' FailoverBilling 5, Failed ''openai'' FailoverBilling 9]) ''openai'' (9 + day)"
  by (rule cooldown_released_within_a_day) simp

end
