(* ===== verification/Error_Classifier.thy ===== *)
theory Error_Classifier
  imports Go_Regexp Cooldown
begin

text \<open>
  \<open>pkg/providers/error_classifier.go\<close> and the error type of \<open>types.go\<close>: which failures of a
  model provider move the fallback chain on to the next candidate. A Go error is one of the
  two sentinel errors of package \<open>context\<close> the code compares with, or any other error with
  its message.
\<close>

datatype go_error = CtxCanceled | CtxDeadlineExceeded | GoError string

primrec error_message :: "go_error \<Rightarrow> string" where
  "error_message CtxCanceled = ''context canceled''"
| "error_message CtxDeadlineExceeded = ''context deadline exceeded''"
| "error_message (GoError s) = s"

record failover_error =
  fe_reason :: failover_reason
  fe_provider :: string
  fe_model :: string
  fe_status :: nat
  fe_wrapped :: go_error

definition is_retriable :: "failover_error \<Rightarrow> bool" where
  "is_retriable e \<longleftrightarrow> fe_reason e \<noteq> FailoverFormat"

section \<open>Patterns\<close>

datatype error_pattern = Substr string | Rxp regexp

definition digits3 :: regexp where
  "digits3 = Group (cats [Cls digit_char, Cls digit_char, Cls digit_char])"

definition status_pattern :: regexp where
  "status_pattern = Cat (lit ''status'') (Cat (plus_cls (\<lambda>c. c = CHR '':'' \<or> re_space c)) digits3)"

definition http_pattern :: regexp where
  "http_pattern = cats [lit ''http'', plus_cls (\<lambda>c. c = CHR ''/'' \<or> re_space c), StarCls digit_char,
     Opt (Cls (\<lambda>c. c = CHR ''.'')), StarCls digit_char, plus_cls re_space, digits3]"

definition standalone_pattern :: regexp where
  "standalone_pattern = cats [WordBoundary,
     Group (cats [Cls (\<lambda>c. CHR ''3'' \<le> c \<and> c \<le> CHR ''5''), Cls digit_char, Cls digit_char]), WordBoundary]"

definition httpStatusPatterns :: "regexp list" where
  "httpStatusPatterns = [status_pattern, http_pattern, standalone_pattern]"

definition underscore_or_space :: regexp where
  "underscore_or_space = Cls (\<lambda>c. c = CHR ''_'' \<or> c = CHR '' '')"

definition rateLimitPatterns :: "error_pattern list" where
  "rateLimitPatterns =
     [Rxp (cats [fold_lit ''rate'', underscore_or_space, fold_lit ''limit'']),
      Substr ''too many requests'',
      Substr ''429'',
      Substr ''exceeded your current quota'',
      Rxp (cats [fold_lit ''exceeded'', StarCls dot_char, fold_lit ''quota'']),
      Rxp (fold_lit ''resource has been exhausted''),
      Rxp (cats [fold_lit ''resource'', StarCls dot_char, fold_lit ''exhausted'']),
      Substr ''resource_exhausted'',
      Substr ''quota exceeded'',
      Substr ''usage limit'']"

definition overloadedPatterns :: "error_pattern list" where
  "overloadedPatterns =
     [Rxp (fold_lit ''overloaded_error''),
      Rxp (cats [fold_lit ''\"type\"'', StarCls re_space, fold_lit '':'', StarCls re_space, fold_lit ''\"overloaded_error\"'']),
      Substr ''overloaded'']"

definition timeoutPatterns :: "error_pattern list" where
  "timeoutPatterns = [Substr ''timeout'', Substr ''timed out'', Substr ''deadline exceeded'',
     Substr ''context deadline exceeded'']"

definition billingPatterns :: "error_pattern list" where
  "billingPatterns =
     [Rxp (cats [WordBoundary, fold_lit ''402'', WordBoundary]),
      Substr ''payment required'',
      Substr ''insufficient credits'',
      Substr ''credit balance'',
      Substr ''plans & billing'',
      Substr ''insufficient balance'']"

definition authPatterns :: "error_pattern list" where
  "authPatterns =
     [Rxp (cats [fold_lit ''invalid'', Opt underscore_or_space, fold_lit ''api'', Opt underscore_or_space, fold_lit ''key'']),
      Substr ''incorrect api key'',
      Substr ''invalid token'',
      Substr ''authentication'',
      Substr ''re-authenticate'',
      Substr ''oauth token refresh failed'',
      Substr ''unauthorized'',
      Substr ''forbidden'',
      Substr ''access denied'',
      Substr ''expired'',
      Substr ''token has expired'',
      Rxp (cats [WordBoundary, fold_lit ''401'', WordBoundary]),
      Rxp (cats [WordBoundary, fold_lit ''403'', WordBoundary]),
      Substr ''no credentials found'',
      Substr ''no api key found'']"

definition formatPatterns :: "error_pattern list" where
  "formatPatterns = [Substr ''string should match pattern'', Substr ''tool_use.id'', Substr ''tool_use_id'',
     Substr ''messages.1.content.1.tool_use.id'', Substr ''invalid request format'']"

definition imageDimensionPatterns :: "error_pattern list" where
  "imageDimensionPatterns = [Rxp (fold_lit ''image dimensions exceed max'')]"

definition imageSizePatterns :: "error_pattern list" where
  "imageSizePatterns = [Rxp (cats [fold_lit ''image exceeds'', StarCls dot_char, fold_lit ''mb''])]"

definition transientStatusCodes :: "nat list" where
  "transientStatusCodes = [500, 502, 503, 521, 522, 523, 524, 529]"

section \<open>Classification\<close>

fun matches_any :: "string \<Rightarrow> error_pattern list \<Rightarrow> bool" where
  "matches_any msg [] = False"
| "matches_any msg (Rxp r # ps) = (match_string r msg \<or> matches_any msg ps)"
| "matches_any msg (Substr s # ps) = (s \<noteq> [] \<and> contains msg s \<or> matches_any msg ps)"

definition parse_digits :: "string \<Rightarrow> nat" where
  "parse_digits s = foldl (\<lambda>n c. if CHR ''0'' \<le> c \<and> c \<le> CHR ''9'' then n * 10 + (of_char c - 48) else n) 0 s"

fun first_submatch :: "regexp list \<Rightarrow> string \<Rightarrow> string option" where
  "first_submatch [] msg = None"
| "first_submatch (p # ps) msg =
     (case find_submatch p msg of Some g \<Rightarrow> Some g | None \<Rightarrow> first_submatch ps msg)"

definition extract_http_status :: "string \<Rightarrow> nat" where
  "extract_http_status msg =
     (case first_submatch httpStatusPatterns msg of None \<Rightarrow> 0 | Some g \<Rightarrow> parse_digits g)"

definition is_image_dimension_error :: "string \<Rightarrow> bool" where
  "is_image_dimension_error msg = matches_any msg imageDimensionPatterns"

definition is_image_size_error :: "string \<Rightarrow> bool" where
  "is_image_size_error msg = matches_any msg imageSizePatterns"

definition classify_by_status :: "nat \<Rightarrow> failover_reason option" where
  "classify_by_status status =
     (if status = 401 \<or> status = 403 then Some FailoverAuth
      else if status = 402 then Some FailoverBilling
      else if status = 408 then Some FailoverTimeout
      else if status = 429 then Some FailoverRateLimit
      else if status = 400 then Some FailoverFormat
      else if status \<in> set transientStatusCodes then Some FailoverTimeout
      else None)"

definition classify_by_message :: "string \<Rightarrow> failover_reason option" where
  "classify_by_message msg =
     (if matches_any msg rateLimitPatterns then Some FailoverRateLimit
      else if matches_any msg overloadedPatterns then Some FailoverRateLimit
      else if matches_any msg billingPatterns then Some FailoverBilling
      else if matches_any msg timeoutPatterns then Some FailoverTimeout
      else if matches_any msg authPatterns then Some FailoverAuth
      else if matches_any msg formatPatterns then Some FailoverFormat
      else None)"

definition classify_error :: "go_error option \<Rightarrow> string \<Rightarrow> string \<Rightarrow> failover_error option" where
  "classify_error err provider model =
     (case err of
        None \<Rightarrow> None
      | Some CtxCanceled \<Rightarrow> None
      | Some CtxDeadlineExceeded \<Rightarrow>
          Some \<lparr>fe_reason = FailoverTimeout, fe_provider = provider, fe_model = model,
                fe_status = 0, fe_wrapped = CtxDeadlineExceeded\<rparr>
      | Some e \<Rightarrow>
          let msg = to_lower (error_message e) in
          if is_image_dimension_error msg \<or> is_image_size_error msg then
            Some \<lparr>fe_reason = FailoverFormat, fe_provider = provider, fe_model = model,
                  fe_status = 0, fe_wrapped = e\<rparr>
          else
            let status = extract_http_status msg in
            case (if status > 0 then classify_by_status status else None) of
              Some reason \<Rightarrow>
                Some \<lparr>fe_reason = reason, fe_provider = provider, fe_model = model,
                      fe_status = status, fe_wrapped = e\<rparr>
            | None \<Rightarrow>
                map_option (\<lambda>reason. \<lparr>fe_reason = reason, fe_provider = provider, fe_model = model,
                      fe_status = 0, fe_wrapped = e\<rparr>) (classify_by_message msg))"

section \<open>Lemmas\<close>

lemma find_match_skip:
  assumes "\<And>c b cs. c \<in> set u \<Longrightarrow> matches_at r (b, c # cs, None) = []"
  shows "\<exists>b'. find_match r b (u @ rest) = find_match r b' rest"
  using assms
proof (induction u arbitrary: b)
  case (Cons c u)
  have "find_match r b ((c # u) @ rest) = find_match r (Some c) (u @ rest)"
    by (simp add: Cons.prems)
  with Cons.IH [of "Some c"] Cons.prems show ?case by simp
qed auto

lemma digit_not_space: "digit_char c \<Longrightarrow> \<not> re_space c \<and> c \<noteq> CHR '':'' \<and> lower_char c = c"
  unfolding digit_char_def re_space_def less_eq_char_def char_eq_iff_nat of_char_lower_char by auto

lemma status_pattern_skip: "c \<noteq> CHR ''s'' \<Longrightarrow> matches_at status_pattern (b, c # cs, None) = []"
  by (simp add: status_pattern_def lit_def)

lemma status_pattern_here:
  assumes "digit_char d1" "digit_char d2" "digit_char d3"
  shows "\<exists>b'. matches_at status_pattern (b, ''status: '' @ d1 # d2 # d3 # v, None)
     = [(b', v, Some [d1, d2, d3])]"
  using assms digit_not_space [OF assms(1)]
  by (simp add: status_pattern_def lit_def plus_cls_def digits3_def re_space_def digit_char_def
      less_eq_char_def)

lemma find_submatch_status:
  assumes "digit_char d1" "digit_char d2" "digit_char d3" and "CHR ''s'' \<notin> set u"
  shows "find_submatch status_pattern (u @ ''status: '' @ d1 # d2 # d3 # v) = Some [d1, d2, d3]"
proof -
  let ?t = "''status: '' @ d1 # d2 # d3 # v"
  obtain b' where "find_match status_pattern None (u @ ?t) = find_match status_pattern b' ?t"
    using find_match_skip [of u status_pattern None ?t] assms(4) status_pattern_skip by metis
  moreover obtain b'' where "matches_at status_pattern (b', ?t, None) = [(b'', v, Some [d1, d2, d3])]"
    using status_pattern_here [OF assms(1-3)] by metis
  moreover obtain c cs where "?t = c # cs" by simp
  ultimately show ?thesis unfolding find_submatch_def by (simp del: append.simps)
qed

section \<open>Properties\<close>

text \<open>Image dimension errors never cause a fallback: whatever provider, letter case
  and surrounding text (HTTP status codes included), an error that says so is classified as a
  format error, which is not retriable.\<close>

theorem image_dimension_error_not_retriable:
  assumes "to_lower l = ''image dimensions exceed max''"
  shows "\<exists>fe. classify_error (Some (GoError (u @ l @ v))) provider model = Some fe
     \<and> fe_reason fe = FailoverFormat \<and> \<not> is_retriable fe"
proof -
  have "match_string (fold_lit ''image dimensions exceed max'') (to_lower u @ to_lower l @ to_lower v)"
    unfolding assms by (rule match_string_fold_lit) simp
  then have "is_image_dimension_error (to_lower (u @ l @ v))"
    by (simp add: is_image_dimension_error_def imageDimensionPatterns_def)
  then show ?thesis by (simp add: classify_error_def Let_def is_retriable_def)
qed

theorem image_dimension_error_not_retriable_witness:
  "\<exists>fe. classify_error (Some (GoError (''status: 429 '' @ ''Image dimensions exceed max'' @ '' allowed size''))) ''openai'' ''gpt'' = Some fe
     \<and> fe_reason fe = FailoverFormat \<and> \<not> is_retriable fe"
  by (rule image_dimension_error_not_retriable) code_simp

text \<open>an HTTP status in the message decides: when the first \<open>s\<close> of the message
  starts \<open>status: ddd\<close>, the error is classified by that code alone, with the code recorded,
  whatever else the message says, unless it is an image error.\<close>

theorem classify_error_status:
  assumes "digit_char d1" "digit_char d2" "digit_char d3"
    and "CHR ''s'' \<notin> set (to_lower u)"
    and "\<not> is_image_dimension_error (to_lower (u @ ''status: '' @ [d1, d2, d3] @ v))"
    and "\<not> is_image_size_error (to_lower (u @ ''status: '' @ [d1, d2, d3] @ v))"
    and "parse_digits [d1, d2, d3] = n" and "0 < n" and "classify_by_status n = Some reason"
  shows "classify_error (Some (GoError (u @ ''status: '' @ [d1, d2, d3] @ v))) provider model
     = Some \<lparr>fe_reason = reason, fe_provider = provider, fe_model = model, fe_status = n,
             fe_wrapped = GoError (u @ ''status: '' @ [d1, d2, d3] @ v)\<rparr>"
proof -
  have "to_lower (u @ ''status: '' @ [d1, d2, d3] @ v) = to_lower u @ ''status: '' @ d1 # d2 # d3 # to_lower v"
    using digit_not_space [OF assms(1)] digit_not_space [OF assms(2)] digit_not_space [OF assms(3)]
    by (simp add: to_lower_Cons) (simp add: lower_char_def less_eq_char_def)
  then have "extract_http_status (to_lower (u @ ''status: '' @ [d1, d2, d3] @ v)) = n"
    using find_submatch_status [OF assms(1-4)] assms(7)
    by (simp add: extract_http_status_def httpStatusPatterns_def)
  with assms(5,6,8,9) show ?thesis by (simp add: classify_error_def Let_def)
qed

theorem classify_error_status_witness:
  "classify_error (Some (GoError (''API error '' @ ''status: '' @ ''429'' @ '' billing''))) ''openai'' ''gpt''
     = Some \<lparr>fe_reason = FailoverRateLimit, fe_provider = ''openai'', fe_model = ''gpt'', fe_status = 429,
             fe_wrapped = GoError (''API error '' @ ''status: '' @ ''429'' @ '' billing'')\<rparr>"
  by (rule classify_error_status) code_simp+

end
