(* ===== verification/Fallback.thy ===== *)
theory Fallback
  imports Error_Classifier Cooldown
begin

text \<open>
  \<open>pkg/providers/model_ref.go\<close> and \<open>pkg/providers/fallback.go\<close>: references to models, the list of
  candidates a model configuration denotes, and the chain that tries the candidates in
  order. The clock, the caller's context and the provider call (\<open>run\<close>) are an environment
  with a hidden state that every use may change; the cooldown tracker is reached through
  the operations of its contract, and \<open>fallback_execute\<close> is the chain over the tracker of
  theory Cooldown. The attempts recorded on a path that returns without them are dropped, as
  the code drops them.
\<close>

section \<open>Model references\<close>

record model_ref =
  mr_provider :: string
  mr_model :: string

definition provider_alias :: "string \<Rightarrow> string" where
  "provider_alias p =
     (if p = ''z.ai'' \<or> p = ''z-ai'' then ''zai''
      else if p = ''opencode-zen'' then ''opencode''
      else if p = ''qwen'' then ''qwen-portal''
      else if p = ''kimi-code'' then ''kimi-coding''
      else if p = ''gpt'' then ''openai''
      else if p = ''claude'' then ''anthropic''
      else if p = ''glm'' then ''zhipu''
      else if p = ''google'' then ''gemini''
      else p)"

definition normalize_provider :: "string \<Rightarrow> string" where
  "normalize_provider provider = provider_alias (to_lower (trim_space provider))"

definition model_ref_of_default :: "string \<Rightarrow> string \<Rightarrow> model_ref" where
  "model_ref_of_default raw defaultProvider =
     \<lparr>mr_provider = normalize_provider defaultProvider, mr_model = raw\<rparr>"

definition parse_model_ref :: "string \<Rightarrow> string \<Rightarrow> model_ref option" where
  "parse_model_ref raw defaultProvider =
     (let raw = trim_space raw in
      if raw = [] then None
      else
        case index_byte CHR ''/'' raw of
          None \<Rightarrow> Some (model_ref_of_default raw defaultProvider)
        | Some idx \<Rightarrow>
            if idx > 0 then
              let provider = normalize_provider (take idx raw);
                  model = trim_space (drop (Suc idx) raw) in
              if model = [] then None else Some \<lparr>mr_provider = provider, mr_model = model\<rparr>
            else Some (model_ref_of_default raw defaultProvider))"

definition model_key :: "string \<Rightarrow> string \<Rightarrow> string" where
  "model_key provider model = normalize_provider provider @ ''/'' @ to_lower (trim_space model)"

section \<open>Candidates\<close>

record model_config =
  mc_primary :: string
  mc_fallbacks :: "string list"

record fallback_candidate =
  fc_provider :: string
  fc_model :: string

definition candidate_key :: "fallback_candidate \<Rightarrow> string" where
  "candidate_key cand = model_key (fc_provider cand) (fc_model cand)"

text \<open>The closure \<open>addCandidate\<close>; \<open>seen\<close> holds the keys of the candidates so far.\<close>

definition add_candidate ::
  "string \<Rightarrow> (string \<Rightarrow> string option) option \<Rightarrow> string set \<times> fallback_candidate list \<Rightarrow> string
     \<Rightarrow> string set \<times> fallback_candidate list" where
  "add_candidate defaultProvider lookup = (\<lambda>(seen, candidates) raw.
     let candidateRaw = trim_space raw;
         candidateRaw = (case lookup of
             None \<Rightarrow> candidateRaw
           | Some f \<Rightarrow> (case f candidateRaw of None \<Rightarrow> candidateRaw | Some resolved \<Rightarrow> resolved))
     in case parse_model_ref candidateRaw defaultProvider of
          None \<Rightarrow> (seen, candidates)
        | Some ref \<Rightarrow>
            let key = model_key (mr_provider ref) (mr_model ref) in
            if key \<in> seen then (seen, candidates)
            else (insert key seen,
                  candidates @ [\<lparr>fc_provider = mr_provider ref, fc_model = mr_model ref\<rparr>]))"

definition resolve_candidates_with_lookup ::
  "model_config \<Rightarrow> string \<Rightarrow> (string \<Rightarrow> string option) option \<Rightarrow> fallback_candidate list" where
  "resolve_candidates_with_lookup cfg defaultProvider lookup =
     (let st = add_candidate defaultProvider lookup ({}, []) (mc_primary cfg);
          st = foldl (add_candidate defaultProvider lookup) st (mc_fallbacks cfg)
      in snd st)"

definition resolve_candidates :: "model_config \<Rightarrow> string \<Rightarrow> fallback_candidate list" where
  "resolve_candidates cfg defaultProvider = resolve_candidates_with_lookup cfg defaultProvider None"

section \<open>The chain\<close>

text \<open>\<open>remaining.Round(time.Second)\<close> of a non-negative duration.\<close>

definition round_second :: "duration \<Rightarrow> duration" where
  "round_second d = (d + 500 * millisecond) div second * second"

datatype attempt_error = InCooldown string duration | RunError go_error | Classified failover_error

record fallback_attempt =
  fa_provider :: string
  fa_model :: string
  fa_error :: attempt_error
  fa_reason :: "failover_reason option"
  fa_duration :: duration
  fa_skipped :: bool

record 'r fallback_result =
  fr_response :: 'r
  fr_provider :: string
  fr_model :: string
  fr_attempts :: "fallback_attempt list"

datatype chain_error = NoCandidates | ChainCanceled | Unclassified string string go_error
  | NonRetriable failover_error | Exhausted "fallback_attempt list"

record 'c cooldown_ops =
  co_available :: "'c \<Rightarrow> string \<Rightarrow> time \<Rightarrow> bool"
  co_remaining :: "'c \<Rightarrow> string \<Rightarrow> time \<Rightarrow> duration"
  co_fail :: "'c \<Rightarrow> string \<Rightarrow> failover_reason \<Rightarrow> time \<Rightarrow> 'c"
  co_success :: "'c \<Rightarrow> string \<Rightarrow> 'c"

record ('w, 'r) environment =
  env_time :: "'w \<Rightarrow> time \<times> 'w"
  env_canceled :: "'w \<Rightarrow> bool \<times> 'w"
  env_run :: "string \<Rightarrow> string \<Rightarrow> 'w \<Rightarrow> (go_error + 'r) \<times> 'w"

text \<open>One round of the loop: the loop body either returns or goes on with more attempts.\<close>

datatype 'r loop_step = Return "chain_error + 'r fallback_result" | Continue "fallback_attempt list"

definition execute_body ::
  "'c cooldown_ops \<Rightarrow> ('w, 'r) environment \<Rightarrow> bool \<Rightarrow> fallback_candidate \<Rightarrow> fallback_attempt list \<Rightarrow> 'c \<Rightarrow> 'w
     \<Rightarrow> 'r loop_step \<times> 'c \<times> 'w" where
  "execute_body ops env is_last cand attempts c w =
     (let p = fc_provider cand; m = fc_model cand;
          (canceled, w) = env_canceled env w in
      if canceled then (Return (Inl ChainCanceled), c, w)
      else
      let (now, w) = env_time env w in
      if \<not> co_available ops c p now then
        let (now, w) = env_time env w;
            attempt = \<lparr>fa_provider = p, fa_model = m,
              fa_error = InCooldown p (round_second (co_remaining ops c p now)),
              fa_reason = Some FailoverRateLimit, fa_duration = 0, fa_skipped = True\<rparr>
        in (Continue (attempts @ [attempt]), c, w)
      else
      let (start, w) = env_time env w;
          (outcome, w) = env_run env p m w;
          (stop, w) = env_time env w;
          elapsed = stop - start in
      case outcome of
        Inr resp \<Rightarrow>
          (Return (Inr \<lparr>fr_response = resp, fr_provider = p, fr_model = m, fr_attempts = attempts\<rparr>),
           co_success ops c p, w)
      | Inl err \<Rightarrow>
          let (canceled, w) = env_canceled env w in
          if canceled then (Return (Inl ChainCanceled), c, w)
          else
          case classify_error (Some err) p m of
            None \<Rightarrow> (Return (Inl (Unclassified p m err)), c, w)
          | Some failErr \<Rightarrow>
              if \<not> is_retriable failErr then (Return (Inl (NonRetriable failErr)), c, w)
              else
              let (now, w) = env_time env w;
                  attempt = \<lparr>fa_provider = p, fa_model = m, fa_error = Classified failErr,
                    fa_reason = Some (fe_reason failErr), fa_duration = elapsed, fa_skipped = False\<rparr>
              in (if is_last then Return (Inl (Exhausted (attempts @ [attempt]))) else Continue (attempts @ [attempt]),
                  co_fail ops c p (fe_reason failErr) now, w))"

fun execute_loop ::
  "'c cooldown_ops \<Rightarrow> ('w, 'r) environment \<Rightarrow> fallback_candidate list \<Rightarrow> fallback_attempt list \<Rightarrow> 'c \<Rightarrow> 'w
     \<Rightarrow> (chain_error + 'r fallback_result) \<times> 'c \<times> 'w" where
  "execute_loop ops env [] attempts c w = (Inl (Exhausted attempts), c, w)"
| "execute_loop ops env (cand # rest) attempts c w =
     (case execute_body ops env (rest = []) cand attempts c w of
        (Return r, c, w) \<Rightarrow> (r, c, w)
      | (Continue attempts, c, w) \<Rightarrow> execute_loop ops env rest attempts c w)"

definition execute_chain ::
  "'c cooldown_ops \<Rightarrow> ('w, 'r) environment \<Rightarrow> fallback_candidate list \<Rightarrow> 'c \<Rightarrow> 'w
     \<Rightarrow> (chain_error + 'r fallback_result) \<times> 'c \<times> 'w" where
  "execute_chain ops env candidates c w =
     (if candidates = [] then (Inl NoCandidates, c, w) else execute_loop ops env candidates [] c w)"

definition tracker_ops :: "cooldown_tracker cooldown_ops" where
  "tracker_ops = \<lparr>co_available = is_available, co_remaining = cooldown_remaining,
     co_fail = mark_failure, co_success = mark_success\<rparr>"

definition fallback_execute ::
  "('w, 'r) environment \<Rightarrow> fallback_candidate list \<Rightarrow> cooldown_tracker \<Rightarrow> 'w
     \<Rightarrow> (chain_error + 'r fallback_result) \<times> cooldown_tracker \<times> 'w" where
  "fallback_execute = execute_chain tracker_ops"

text \<open>The image chain: no cooldown, and every error but an image error moves on.\<close>

definition image_body ::
  "('w, 'r) environment \<Rightarrow> bool \<Rightarrow> fallback_candidate \<Rightarrow> fallback_attempt list \<Rightarrow> 'w \<Rightarrow> 'r loop_step \<times> 'w" where
  "image_body env is_last cand attempts w =
     (let p = fc_provider cand; m = fc_model cand;
          (canceled, w) = env_canceled env w in
      if canceled then (Return (Inl ChainCanceled), w)
      else
      let (start, w) = env_time env w;
          (outcome, w) = env_run env p m w;
          (stop, w) = env_time env w;
          elapsed = stop - start in
      case outcome of
        Inr resp \<Rightarrow>
          (Return (Inr \<lparr>fr_response = resp, fr_provider = p, fr_model = m, fr_attempts = attempts\<rparr>), w)
      | Inl err \<Rightarrow>
          let (canceled, w) = env_canceled env w in
          if canceled then (Return (Inl ChainCanceled), w)
          else
          let errMsg = to_lower (error_message err) in
          if is_image_dimension_error errMsg \<or> is_image_size_error errMsg then
            (Return (Inl (NonRetriable \<lparr>fe_reason = FailoverFormat, fe_provider = p, fe_model = m,
               fe_status = 0, fe_wrapped = err\<rparr>)), w)
          else
          let attempt = \<lparr>fa_provider = p, fa_model = m, fa_error = RunError err,
                fa_reason = None, fa_duration = elapsed, fa_skipped = False\<rparr>
          in (if is_last then Return (Inl (Exhausted (attempts @ [attempt]))) else Continue (attempts @ [attempt]), w))"

fun execute_image_loop ::
  "('w, 'r) environment \<Rightarrow> fallback_candidate list \<Rightarrow> fallback_attempt list \<Rightarrow> 'w
     \<Rightarrow> (chain_error + 'r fallback_result) \<times> 'w" where
  "execute_image_loop env [] attempts w = (Inl (Exhausted attempts), w)"
| "execute_image_loop env (cand # rest) attempts w =
     (case image_body env (rest = []) cand attempts w of
        (Return r, w) \<Rightarrow> (r, w)
      | (Continue attempts, w) \<Rightarrow> execute_image_loop env rest attempts w)"

definition execute_image ::
  "('w, 'r) environment \<Rightarrow> fallback_candidate list \<Rightarrow> 'w \<Rightarrow> (chain_error + 'r fallback_result) \<times> 'w" where
  "execute_image env candidates w =
     (if candidates = [] then (Inl NoCandidates, w) else execute_image_loop env candidates [] w)"

section \<open>Model references: lemmas\<close>

text \<open>The canonical names the aliases map to.\<close>

definition alias_targets :: "string list" where
  "alias_targets = [''zai'', ''opencode'', ''qwen-portal'', ''kimi-coding'', ''openai'', ''anthropic'',
     ''zhipu'', ''gemini'']"

lemma provider_alias_cases: "provider_alias p = p \<or> provider_alias p \<in> set alias_targets"
  by (simp add: provider_alias_def alias_targets_def)

lemma alias_target_facts:
  assumes "q \<in> set alias_targets"
  shows "to_lower (trim_space q) = q \<and> provider_alias q = q \<and> q \<noteq> [] \<and> CHR ''/'' \<notin> set q"
proof -
  have "list_all (\<lambda>q. to_lower (trim_space q) = q \<and> provider_alias q = q \<and> q \<noteq> [] \<and> CHR ''/'' \<notin> set q)
      alias_targets"
    by code_simp
  with assms show ?thesis by (simp add: list_all_iff)
qed

lemma provider_alias_idem: "provider_alias (provider_alias p) = provider_alias p"
  using provider_alias_cases [of p] alias_target_facts [of "provider_alias p"] by auto

lemma provider_alias_Nil: "provider_alias p = [] \<longleftrightarrow> p = []"
proof
  have "provider_alias [] = []" by code_simp
  then show "p = [] \<Longrightarrow> provider_alias p = []" by simp
qed (use provider_alias_cases [of p] alias_target_facts [of "provider_alias p"] in auto)

lemma normalize_provider_lower: "to_lower (trim_space (normalize_provider p)) = normalize_provider p"
  unfolding normalize_provider_def
  using provider_alias_cases [of "to_lower (trim_space p)"]
    alias_target_facts [of "provider_alias (to_lower (trim_space p))"]
  by (auto simp: trim_space_to_lower)

lemma normalize_provider_idem [simp]: "normalize_provider (normalize_provider p) = normalize_provider p"
  by (subst normalize_provider_def, subst normalize_provider_lower)
     (simp add: normalize_provider_def provider_alias_idem)

lemma normalize_provider_Nil: "normalize_provider p = [] \<longleftrightarrow> trim_space p = []"
  by (simp add: normalize_provider_def provider_alias_Nil)

lemma trim_normalize_provider [simp]: "trim_space (normalize_provider p) = normalize_provider p"
proof -
  have "trim_space (to_lower (trim_space (normalize_provider p))) = to_lower (trim_space (normalize_provider p))"
    by (simp add: trim_space_to_lower)
  then show ?thesis unfolding normalize_provider_lower .
qed

lemma slash_normalize_provider:
  assumes "CHR ''/'' \<notin> set p"
  shows "CHR ''/'' \<notin> set (normalize_provider p)"
proof -
  have "lower_char c \<noteq> CHR ''/''" if "c \<noteq> CHR ''/''" for c
    using that unfolding char_eq_iff_nat of_char_lower_char by simp
  moreover have "c \<noteq> CHR ''/''" if "c \<in> set (trim_space p)" for c
    using assms that set_trim_space [of p] by blast
  ultimately have "CHR ''/'' \<notin> set (to_lower (trim_space p))"
    unfolding to_lower_def set_map by (metis imageE)
  then show ?thesis
    unfolding normalize_provider_def
    using provider_alias_cases [of "to_lower (trim_space p)"]
      alias_target_facts [of "provider_alias (to_lower (trim_space p))"] by auto
qed

lemma parse_model_ref_join:
  assumes "CHR ''/'' \<notin> set p" "normalize_provider p = p" "p \<noteq> []" "trim_space m = m" "m \<noteq> []"
  shows "parse_model_ref (p @ ''/'' @ m) dp = Some \<lparr>mr_provider = p, mr_model = m\<rparr>"
proof -
  have "trim_space p = p" using trim_normalize_provider [of p] assms(2) by simp
  then have t: "trim_space (p @ CHR ''/'' # m) = p @ CHR ''/'' # m"
    using trim_space_hd [of p] trim_space_last [of m] assms(3,4,5)
    by (intro trim_space_id) (auto simp: hd_append)
  have "index_byte CHR ''/'' (p @ CHR ''/'' # m) = Some (length p)"
    by (rule index_byte_append [OF assms(1)])
  with assms t show ?thesis by (simp add: parse_model_ref_def)
qed

lemma parse_model_ref_fields:
  assumes "parse_model_ref raw dp = Some ref" "CHR ''/'' \<notin> set dp" "trim_space dp \<noteq> []"
  shows "CHR ''/'' \<notin> set (mr_provider ref) \<and> normalize_provider (mr_provider ref) = mr_provider ref
    \<and> mr_provider ref \<noteq> [] \<and> trim_space (mr_model ref) = mr_model ref \<and> mr_model ref \<noteq> []"
proof (cases "index_byte CHR ''/'' (trim_space raw)")
  case (Some idx)
  let ?r = "trim_space raw"
  have i: "CHR ''/'' \<notin> set (take idx ?r)" using index_byte_Some [OF Some] by simp
  have "trim_space (take idx ?r) \<noteq> []" if "0 < idx"
  proof -
    have "?r \<noteq> []" "take idx ?r \<noteq> []" using that index_byte_Some [OF Some] by auto
    then have "\<not> is_space (hd (take idx ?r))" using trim_space_hd [of raw] that by simp
    with \<open>take idx ?r \<noteq> []\<close> show ?thesis by (rule trim_space_hd_in)
  qed
  with assms Some i show ?thesis
    by (auto simp: parse_model_ref_def Let_def model_ref_of_default_def slash_normalize_provider
        normalize_provider_Nil split: if_splits)
qed (use assms in \<open>auto simp: parse_model_ref_def Let_def model_ref_of_default_def
        slash_normalize_provider normalize_provider_Nil split: if_splits\<close>)

section \<open>Candidates: lemmas\<close>

text \<open>The candidate one entry of the configuration denotes, before deduplication.\<close>

definition candidate_of :: "string \<Rightarrow> (string \<Rightarrow> string option) option \<Rightarrow> string \<Rightarrow> fallback_candidate option" where
  "candidate_of defaultProvider lookup raw =
     map_option (\<lambda>ref. \<lparr>fc_provider = mr_provider ref, fc_model = mr_model ref\<rparr>)
       (parse_model_ref
         (case lookup of None \<Rightarrow> trim_space raw
          | Some f \<Rightarrow> (case f (trim_space raw) of None \<Rightarrow> trim_space raw | Some r \<Rightarrow> r))
         defaultProvider)"

text \<open>The elements no earlier element shares its key with.\<close>

definition first_by_key :: "('a \<Rightarrow> 'k) \<Rightarrow> 'a list \<Rightarrow> 'a list" where
  "first_by_key key xs = [xs ! i. i \<leftarrow> [0..<length xs], key (xs ! i) \<notin> key ` set (take i xs)]"

lemma first_by_key_snoc:
  "first_by_key key (xs @ [x]) = first_by_key key xs @ (if key x \<in> key ` set xs then [] else [x])"
proof -
  have "concat (map (\<lambda>i. if key ((xs @ [x]) ! i) \<notin> key ` set (take i (xs @ [x])) then [(xs @ [x]) ! i] else [])
         [0..<length xs])
      = concat (map (\<lambda>i. if key (xs ! i) \<notin> key ` set (take i xs) then [xs ! i] else []) [0..<length xs])"
    by (intro arg_cong [where f = concat] map_cong) (auto simp: nth_append)
  then show ?thesis by (simp add: first_by_key_def)
qed

lemma key_first_by_key: "key ` set (first_by_key key xs) = key ` set xs"
proof (induction xs rule: rev_induct)
  case (snoc x xs)
  then show ?case by (simp add: first_by_key_snoc insert_absorb)
qed (simp add: first_by_key_def)

lemma distinct_first_by_key: "distinct (map key (first_by_key key xs))"
proof (induction xs rule: rev_induct)
  case (snoc x xs)
  have "distinct (map key (first_by_key key xs @ [x]))" if "key x \<notin> key ` set xs"
    using that snoc by (simp add: key_first_by_key)
  with snoc show ?case by (simp add: first_by_key_snoc)
qed (simp add: first_by_key_def)

lemma add_candidate_first:
  "foldl (add_candidate dp lookup) ({}, []) raws =
     (candidate_key ` set (List.map_filter (candidate_of dp lookup) raws),
      first_by_key candidate_key (List.map_filter (candidate_of dp lookup) raws))"
proof (induction raws rule: rev_induct)
  case Nil
  show ?case by (simp add: map_filter_def first_by_key_def)
next
  case (snoc raw raws)
  have "List.map_filter (candidate_of dp lookup) (raws @ [raw])
      = List.map_filter (candidate_of dp lookup) raws
        @ (case candidate_of dp lookup raw of None \<Rightarrow> [] | Some c \<Rightarrow> [c])"
    by (simp add: map_filter_def split: option.split)
  moreover have "add_candidate dp lookup st raw =
      (case candidate_of dp lookup raw of None \<Rightarrow> st
       | Some c \<Rightarrow> if candidate_key c \<in> fst st then st
                  else (insert (candidate_key c) (fst st), snd st @ [c]))" for st
    by (simp add: add_candidate_def candidate_of_def candidate_key_def Let_def split: prod.splits option.splits)
  ultimately show ?case
    using snoc by (auto simp: first_by_key_snoc split: option.splits)
qed

section \<open>The chain over any tracker\<close>

text \<open>An environment that also logs which provider and model each call goes to.\<close>

definition logging :: "('w, 'r) environment \<Rightarrow> ('w \<times> (string \<times> string) list, 'r) environment" where
  "logging env =
     \<lparr>env_time = (\<lambda>(w, l). case env_time env w of (t, w') \<Rightarrow> (t, (w', l))),
      env_canceled = (\<lambda>(w, l). case env_canceled env w of (b, w') \<Rightarrow> (b, (w', l))),
      env_run = (\<lambda>p m (w, l). case env_run env p m w of (r, w') \<Rightarrow> (r, (w', l @ [(p, m)])))\<rparr>"

lemma logging_simps [simp]:
  "env_time (logging env) (w, l) = (case env_time env w of (t, w') \<Rightarrow> (t, (w', l)))"
  "env_canceled (logging env) (w, l) = (case env_canceled env w of (b, w') \<Rightarrow> (b, (w', l)))"
  "env_run (logging env) p m (w, l) = (case env_run env p m w of (r, w') \<Rightarrow> (r, (w', l @ [(p, m)])))"
  by (simp_all add: logging_def)

definition candidate_name :: "fallback_candidate \<Rightarrow> string \<times> string" where
  "candidate_name cand = (fc_provider cand, fc_model cand)"

definition attempt_name :: "fallback_attempt \<Rightarrow> string \<times> string" where
  "attempt_name a = (fa_provider a, fa_model a)"

text \<open>An attempt the chain may move on from: skipped, or failed in a way worth retrying.\<close>

definition moved_on :: "fallback_attempt \<Rightarrow> bool" where
  "moved_on a = (case fa_error a of InCooldown p d \<Rightarrow> fa_skipped a \<and> p = fa_provider a
     | Classified fe \<Rightarrow> \<not> fa_skipped a \<and> is_retriable fe \<and> fe_provider fe = fa_provider a
     | RunError _ \<Rightarrow> False)"

lemma classify_error_provider: "classify_error err p m = Some fe \<Longrightarrow> fe_provider fe = p \<and> fe_model fe = m"
  by (auto simp: classify_error_def Let_def split: option.splits go_error.splits if_splits)

text \<open>What one round can do to the attempts.\<close>

lemma execute_body_cases:
  assumes "execute_body ops env is_last cand attempts c w = (step, c', w')"
  obtains (cont) a where "step = Continue (attempts @ [a])" "attempt_name a = candidate_name cand" "moved_on a"
  | (exhausted) a where "step = Return (Inl (Exhausted (attempts @ [a])))" "is_last"
      "attempt_name a = candidate_name cand" "moved_on a"
  | (success) res where "step = Return (Inr res)" "fr_attempts res = attempts"
      "(fr_provider res, fr_model res) = candidate_name cand" "c' = co_success ops c (fr_provider res)"
  | (abort) e where "step = Return (Inl e)" "\<And>as. e \<noteq> Exhausted as"
  using assms classify_error_provider
  unfolding execute_body_def Let_def attempt_name_def candidate_name_def moved_on_def
  by (auto split: prod.splits sum.splits option.splits if_splits)

text \<open>What a result says about the candidates: each one before the answer is accounted for.\<close>

definition accounted ::
  "fallback_candidate list \<Rightarrow> fallback_attempt list \<Rightarrow> chain_error + 'r fallback_result \<Rightarrow> bool" where
  "accounted cands attempts r \<longleftrightarrow>
     (case r of
        Inr res \<Rightarrow> \<exists>pre cand post new. cands = pre @ cand # post \<and> fr_attempts res = attempts @ new
          \<and> map attempt_name new = map candidate_name pre \<and> list_all moved_on new
          \<and> (fr_provider res, fr_model res) = candidate_name cand
      | Inl e \<Rightarrow> \<forall>as. e = Exhausted as \<longrightarrow> (\<exists>new. as = attempts @ new
          \<and> map attempt_name new = map candidate_name cands \<and> list_all moved_on new))"

lemma accounted_Cons:
  assumes "accounted rest (attempts @ [a]) r" and "attempt_name a = candidate_name cand" and "moved_on a"
  shows "accounted (cand # rest) attempts r"
proof (cases r)
  case (Inr res)
  with assms(1) obtain pre c post new where "rest = pre @ c # post" "fr_attempts res = attempts @ (a # new)"
    "map attempt_name new = map candidate_name pre" "list_all moved_on new"
    "(fr_provider res, fr_model res) = candidate_name c"
    by (auto simp: accounted_def)
  with assms(2,3) have "cand # rest = (cand # pre) @ c # post \<and> fr_attempts res = attempts @ (a # new)
    \<and> map attempt_name (a # new) = map candidate_name (cand # pre) \<and> list_all moved_on (a # new)
    \<and> (fr_provider res, fr_model res) = candidate_name c" by simp
  then show ?thesis unfolding accounted_def Inr sum.case by blast
next
  case (Inl e)
  have "\<exists>new. as = attempts @ new \<and> map attempt_name new = map candidate_name (cand # rest) \<and> list_all moved_on new"
    if e: "e = Exhausted as" for as
  proof -
    from assms(1) e obtain new where "as = attempts @ (a # new)" "map attempt_name new = map candidate_name rest"
      "list_all moved_on new" by (auto simp: accounted_def Inl)
    with assms(2,3) have "as = attempts @ (a # new) \<and> map attempt_name (a # new) = map candidate_name (cand # rest)
      \<and> list_all moved_on (a # new)" by simp
    then show ?thesis by blast
  qed
  then show ?thesis by (simp add: accounted_def Inl)
qed

lemma execute_loop_accounted: "accounted cands attempts (fst (execute_loop ops env cands attempts c w))"
proof (induction cands arbitrary: attempts c w)
  case (Cons cand rest)
  obtain step c' w' where b: "execute_body ops env (rest = []) cand attempts c w = (step, c', w')"
    by (cases "execute_body ops env (rest = []) cand attempts c w")
  from b show ?case
  proof (cases rule: execute_body_cases)
    case (cont a)
    with Cons.IH [of "attempts @ [a]" c' w'] b show ?thesis by (auto intro: accounted_Cons)
  next
    case (exhausted a)
    with b have "accounted rest (attempts @ [a]) (fst (execute_loop ops env (cand # rest) attempts c w))"
      by (simp add: accounted_def)
    with exhausted(3,4) show ?thesis by (simp add: accounted_Cons)
  next
    case (success res)
    then have "cand # rest = [] @ cand # rest \<and> fr_attempts res = attempts @ []
      \<and> map attempt_name [] = map candidate_name [] \<and> list_all moved_on []
      \<and> (fr_provider res, fr_model res) = candidate_name cand" by simp
    then have "accounted (cand # rest) attempts (Inr res)" unfolding accounted_def sum.case by blast
    with success b show ?thesis by simp
  next
    case (abort e)
    with b show ?thesis by (simp add: accounted_def)
  qed
qed (simp add: accounted_def)

text \<open>What one round can do to the log and to the tracker.\<close>

lemma logging_body:
  assumes "execute_body ops (logging env) is_last cand attempts c (w, l) = (step, c', (w', l'))"
  obtains (idle) "l' = l" "c' = c"
  | (returned) r u t u' where "l' = l @ [candidate_name cand]" "step = Return r"
      "env_time env u = (t, u')" "co_available ops c (fc_provider cand) t"
  | (failed) r u t u' v s v' where "l' = l @ [candidate_name cand]"
      "env_time env u = (t, u')" "co_available ops c (fc_provider cand) t"
      "env_time env v = (s, v')" "c' = co_fail ops c (fc_provider cand) r s"
proof -
  let ?p = "fc_provider cand"
  obtain k w1 where 1: "env_canceled env w = (k, w1)" by fastforce
  obtain t w2 where 2: "env_time env w1 = (t, w2)" by fastforce
  obtain s w3 where 3: "env_time env w2 = (s, w3)" by fastforce
  obtain out w4 where 4: "env_run env ?p (fc_model cand) w3 = (out, w4)" by fastforce
  obtain e w5 where 5: "env_time env w4 = (e, w5)" by fastforce
  obtain k2 w6 where 6: "env_canceled env w5 = (k2, w6)" by fastforce
  obtain n w7 where 7: "env_time env w6 = (n, w7)" by fastforce
  note body = assms [unfolded execute_body_def Let_def, simplified 1 2 3 4 5 6 7 prod.case logging_simps]
  show thesis
  proof (cases "k \<or> \<not> co_available ops c ?p t")
    case True
    with body have "l' = l \<and> c' = c" by (auto split: if_splits)
    with idle show thesis by blast
  next
    case False
    then have av: "co_available ops c ?p t" by simp
    have l': "l' = l @ [candidate_name cand]"
      using body False by (simp add: candidate_name_def split: sum.splits option.splits if_splits)
    have "(\<exists>r. step = Return r) \<or> (\<exists>r. c' = co_fail ops c ?p r n)"
      using body False by (auto split: sum.splits option.splits if_splits)
    then show thesis using returned [OF l' _ 2 av] failed [OF l' 2 av 7] by blast
  qed
qed

context cooldown
begin

abbreviation ops where
  "ops \<equiv> \<lparr>co_available = available, co_remaining = remaining, co_fail = fail, co_success = success\<rparr>"

lemma loop_skips_cooling:
  assumes "\<And>w t w'. env_time env w = (t, w') \<Longrightarrow> t \<le> T" and "\<not> available c p T" and "p \<notin> fst ` set l"
  shows "p \<notin> fst ` set (snd (snd (snd (execute_loop ops (logging env) cands attempts c (w, l)))))"
  using assms(2,3)
proof (induction cands arbitrary: attempts c w l)
  case (Cons cand rest)
  obtain step c' w' l' where b: "execute_body ops (logging env) (rest = []) cand attempts c (w, l) = (step, c', (w', l'))"
    by (cases "execute_body ops (logging env) (rest = []) cand attempts c (w, l)") auto
  have "\<not> available c p t" if "env_time env u = (t, u')" for t u u'
    using available_later [of c p t T] assms(1) [OF that] Cons.prems(1) by blast
  note none = this
  have l': "p \<notin> fst ` set l'"
    and c': "(\<exists>r. step = Return r) \<or> c' = c \<or> (\<exists>r t. fc_provider cand \<noteq> p \<and> c' = fail c (fc_provider cand) r t)"
    using b by (cases rule: logging_body; use none Cons.prems(2) in \<open>auto simp: candidate_name_def\<close>)+
  show ?case
  proof (cases step)
    case (Continue as)
    with c' Cons.prems(1) have "\<not> available c' p T" by (auto simp: fail_other_available)
    from Cons.IH [OF this l'] Continue b show ?thesis by simp
  qed (use l' b in simp)
qed simp

lemma loop_contacts_once:
  assumes "\<And>w t w'. env_time env w = (t, w') \<Longrightarrow> T \<le> t \<and> t < T + minute"
    and "distinct (map fst l)" and "\<And>p m t. (p, m) \<in> set l \<Longrightarrow> t < T + minute \<Longrightarrow> \<not> available c p t"
  shows "distinct (map fst (snd (snd (snd (execute_loop ops (logging env) cands attempts c (w, l))))))"
  using assms(2,3)
proof (induction cands arbitrary: attempts c w l)
  case (Cons cand rest)
  let ?p = "fc_provider cand"
  obtain step c' w' l' where b: "execute_body ops (logging env) (rest = []) cand attempts c (w, l) = (step, c', (w', l'))"
    by (cases "execute_body ops (logging env) (rest = []) cand attempts c (w, l)") auto
  have fresh: "(?p, m) \<notin> set l" if "env_time env u = (t, u')" "available c ?p t" for t u u' m
    using Cons.prems(2) assms(1) [OF that(1)] that(2) by blast
  have blocked: "\<not> available (fail c ?p r t) q v"
    if "env_time env u = (t, u')" "v < T + minute" "q = ?p \<or> (q, m) \<in> set l" for t r q u u' v m
    using that failed_stays_blocked [of v t c ?p r] assms(1) [OF that(1)] Cons.prems(2) [of q m v]
    by (cases "q = ?p") (auto simp: fail_other_available)
  have "distinct (map fst l') \<and> (step = Continue as \<longrightarrow>
      (\<forall>p m t. (p, m) \<in> set l' \<longrightarrow> t < T + minute \<longrightarrow> \<not> available c' p t))" for as
    using b
  proof (cases rule: logging_body)
    case idle
    with Cons.prems show ?thesis by blast
  next
    case returned
    with fresh Cons.prems(1) show ?thesis by (auto simp: candidate_name_def)
  next
    case (failed r u t u' v s v')
    with fresh Cons.prems(1) have "distinct (map fst l')" by (auto simp: candidate_name_def)
    moreover have "\<not> available c' q x" if "(q, m) \<in> set l'" "x < T + minute" for q m x
      using that blocked [OF failed(4), of x q m r] failed(1,5) by (auto simp: candidate_name_def)
    ultimately show ?thesis by blast
  qed
  then have d: "distinct (map fst l')"
    and bl: "step = Continue as \<Longrightarrow> (p, m) \<in> set l' \<Longrightarrow> t < T + minute \<Longrightarrow> \<not> available c' p t" for as p m t
    by blast+
  show ?case
  proof (cases step)
    case (Continue as)
    from Cons.IH [OF d bl [OF Continue]] Continue b show ?thesis by simp
  qed (use d b in simp)
qed simp

end

context cooldown
begin

lemma loop_success_available:
  "case execute_loop ops env cands attempts c w of
     (Inr res, c', _) \<Rightarrow> available c' (fr_provider res) t | _ \<Rightarrow> True"
proof (induction cands arbitrary: attempts c w)
  case (Cons cand rest)
  obtain step c' w' where b: "execute_body ops env (rest = []) cand attempts c w = (step, c', w')"
    by (cases "execute_body ops env (rest = []) cand attempts c w")
  from b show ?case
    by (cases rule: execute_body_cases)
       (use b Cons.IH in \<open>auto simp: success_available split: sum.splits prod.splits\<close>)
qed simp

end

lemma tracker_ops_eq: "tracker_ops = tracker.ops"
  by (simp add: tracker_ops_def)

section \<open>Properties\<close>

text \<open>Property C11: the chain accounts for every candidate in order: a successful result comes
  from a candidate all of whose predecessors are recorded, each one skipped in cooldown or
  failed with a retriable error, and the provider that answered is available afterwards;
  an exhausted result records every candidate that way, so no candidate is lost.\<close>

theorem fallback_execute_accounts:
  "accounted cands [] (fst (fallback_execute env cands ct w))
   \<and> (case fallback_execute env cands ct w of
        (Inr res, ct', _) \<Rightarrow> is_available ct' (fr_provider res) t | _ \<Rightarrow> True)"
proof (cases "cands = []")
  case True
  then show ?thesis by (simp add: fallback_execute_def execute_chain_def accounted_def)
next
  case False
  then show ?thesis
    using execute_loop_accounted [of cands "[]" tracker_ops env ct w]
      tracker.loop_success_available [where env = env and cands = cands and attempts = "[]" and c = ct and w = w and t = t]
    by (simp add: fallback_execute_def execute_chain_def tracker_ops_eq)
qed

text \<open>a provider in cooldown is left alone: if it is still cooling down at time
  \<open>T\<close> and no clock reading of the chain is later than \<open>T\<close>, the chain never calls it,
  whatever the other providers answer.\<close>

theorem cooling_provider_not_contacted:
  assumes "\<And>w t w'. env_time env w = (t, w') \<Longrightarrow> t \<le> T"
    and "\<not> is_available ct p T"
    and "fallback_execute (logging env) cands ct (w, []) = (r, ct', (w', calls))"
  shows "p \<notin> fst ` set calls"
  using tracker.loop_skips_cooling [of env T ct p "[]" cands "[]" w] assms
  by (simp add: fallback_execute_def execute_chain_def tracker_ops_eq split: if_splits)

text \<open>A provider call that always answers the same, under a clock that stands still.\<close>

definition constant_env :: "time \<Rightarrow> (string \<Rightarrow> string \<Rightarrow> go_error + 'r) \<Rightarrow> (unit, 'r) environment" where
  "constant_env now f = \<lparr>env_time = (\<lambda>w. (now, w)), env_canceled = (\<lambda>w. (False, w)),
     env_run = (\<lambda>p m w. (f p m, w))\<rparr>"

definition two_models :: "fallback_candidate list" where
  "two_models = [\<lparr>fc_provider = ''openai'', fc_model = ''gpt-5''\<rparr>,
     \<lparr>fc_provider = ''anthropic'', fc_model = ''claude''\<rparr>]"

theorem cooling_provider_not_contacted_witness:
  "\<exists>r ct'. \<not> is_available failed_once ''openai'' 5
   \<and> fallback_execute (logging (constant_env 5 (\<lambda>p m. Inr p))) two_models failed_once ((), [])
       = (r, ct', ((), [(''anthropic'', ''claude'')]))
   \<and> ''openai'' \<notin> fst ` set [(''anthropic'', ''claude'')]"
proof -
  let ?env = "constant_env 5 (\<lambda>p m. Inr p :: go_error + string)"
  let ?run = "fallback_execute (logging ?env) two_models failed_once ((), [])"
  have na: "\<not> is_available failed_once ''openai'' 5"
    by (simp add: failed_once_def mark_failure_blocks)
  have "snd (snd ?run) = ((), [(''anthropic'', ''claude'')])" by code_simp
  then have run: "?run = (fst ?run, fst (snd ?run), ((), [(''anthropic'', ''claude'')]))"
    by (metis prod.collapse)
  have "\<And>w t w'. env_time ?env w = (t, w') \<Longrightarrow> t \<le> 5" by (simp add: constant_env_def)
  from cooling_provider_not_contacted [OF this na run] na run show ?thesis by (intro exI conjI)
qed

text \<open>when every clock reading of a run lies within one minute, the chain calls no
  provider twice: the first retriable failure of a provider rules out all its other models.\<close>

theorem provider_contacted_once:
  assumes "\<And>w t w'. env_time env w = (t, w') \<Longrightarrow> T \<le> t \<and> t < T + minute"
    and "fallback_execute (logging env) cands ct (w, []) = (r, ct', (w', calls))"
  shows "distinct (map fst calls)"
  using tracker.loop_contacts_once [of env T "[]" ct cands "[]" w] assms
  by (simp add: fallback_execute_def execute_chain_def tracker_ops_eq split: if_splits)

theorem provider_contacted_once_witness:
  "\<exists>r ct'. fallback_execute (logging (constant_env 5 (\<lambda>p m. Inl (GoError ''timeout'') :: go_error + unit)))
      (\<lparr>fc_provider = ''openai'', fc_model = ''gpt-4''\<rparr> # two_models) new_cooldown_tracker ((), [])
    = (r, ct', ((), [(''openai'', ''gpt-4''), (''anthropic'', ''claude'')]))
    \<and> distinct (map fst [(''openai'', ''gpt-4''), (''anthropic'', ''claude'')])"
proof -
  let ?env = "constant_env 5 (\<lambda>p m. Inl (GoError ''timeout'') :: go_error + unit)"
  let ?run = "fallback_execute (logging ?env) (\<lparr>fc_provider = ''openai'', fc_model = ''gpt-4''\<rparr> # two_models)
    new_cooldown_tracker ((), [])"
  have "snd (snd ?run) = ((), [(''openai'', ''gpt-4''), (''anthropic'', ''claude'')])" by code_simp
  then have run: "?run = (fst ?run, fst (snd ?run), ((), [(''openai'', ''gpt-4''), (''anthropic'', ''claude'')]))"
    by (metis prod.collapse)
  have "\<And>w t w'. env_time ?env w = (t, w') \<Longrightarrow> 5 \<le> t \<and> t < 5 + minute" by (simp add: constant_env_def)
  from provider_contacted_once [OF this run] run show ?thesis by (intro exI conjI)
qed

text \<open>Property C40: the candidates are the references of the primary model and then of the
  fallbacks, in configuration order, each kept exactly when no earlier one has the same
  provider and model up to case and aliases; so keys never repeat.\<close>

theorem resolve_candidates_spec:
  "resolve_candidates_with_lookup cfg dp lookup
     = first_by_key candidate_key (List.map_filter (candidate_of dp lookup) (mc_primary cfg # mc_fallbacks cfg))
   \<and> distinct (map candidate_key (resolve_candidates_with_lookup cfg dp lookup))"
proof -
  have "resolve_candidates_with_lookup cfg dp lookup
      = snd (foldl (add_candidate dp lookup) ({}, []) (mc_primary cfg # mc_fallbacks cfg))"
    by (simp add: resolve_candidates_with_lookup_def)
  then show ?thesis unfolding add_candidate_first by (simp add: distinct_first_by_key)
qed

text \<open>A parsed reference written out as \<open>provider/model\<close> parses to itself, under any
  default provider.\<close>

theorem model_ref_roundtrip:
  assumes "parse_model_ref raw dp = Some ref" and "CHR ''/'' \<notin> set dp" and "trim_space dp \<noteq> []"
  shows "parse_model_ref (mr_provider ref @ ''/'' @ mr_model ref) dp' = Some ref"
  using parse_model_ref_fields [OF assms] parse_model_ref_join [of "mr_provider ref" "mr_model ref" dp'] by simp

theorem model_ref_roundtrip_witness:
  "parse_model_ref '' Claude/opus '' ''openai'' = Some \<lparr>mr_provider = ''anthropic'', mr_model = ''opus''\<rparr>
   \<and> parse_model_ref ''anthropic/opus'' ''gemini'' = Some \<lparr>mr_provider = ''anthropic'', mr_model = ''opus''\<rparr>"
proof -
  have p: "parse_model_ref '' Claude/opus '' ''openai'' = Some \<lparr>mr_provider = ''anthropic'', mr_model = ''opus''\<rparr>"
    by code_simp
  have "trim_space ''openai'' \<noteq> []" by code_simp
  with model_ref_roundtrip [OF p, of "''gemini''"] p show ?thesis by simp
qed

end
