(* ===== verification/Split_Message.thy ===== *)
theory Split_Message
  imports Prelude
begin

text \<open>
  \<open>pkg/channels/split.go\<close>: cutting a long message into chunks a channel accepts, without
  leaving a fenced code block open at the end of a chunk. Indices are Go's \<open>int\<close>s, and the
  sentinel \<open>start-1\<close> for not found is kept. The main loop runs under fuel, one unit per
  round; \<open>None\<close> is a run that needs more rounds.
\<close>

section \<open>Searching\<close>

definition slice :: "string \<Rightarrow> int \<Rightarrow> int \<Rightarrow> string" where
  "slice runes a b = take (nat (b - a)) (drop (nat a) runes)"

definition split_space :: "char \<Rightarrow> bool" where
  "split_space c \<longleftrightarrow> c = CHR '' '' \<or> c = CHR 0x09 \<or> c = CHR 0x0A \<or> c = CHR 0x0D"

text \<open>The last index below \<open>hi\<close> and not below \<open>lo\<close> whose rune satisfies \<open>p\<close>.\<close>

fun last_index :: "(char \<Rightarrow> bool) \<Rightarrow> string \<Rightarrow> nat \<Rightarrow> nat \<Rightarrow> nat option" where
  "last_index p runes lo 0 = None"
| "last_index p runes lo (Suc i) =
     (if i < lo then None else if p (runes ! i) then Some i else last_index p runes lo i)"

definition find_last_in_range :: "(char \<Rightarrow> bool) \<Rightarrow> string \<Rightarrow> int \<Rightarrow> int \<Rightarrow> int \<Rightarrow> int" where
  "find_last_in_range p runes start end searchWindow =
     (let searchStart = max (end - searchWindow) start in
      case last_index p runes (nat searchStart) (nat end) of None \<Rightarrow> start - 1 | Some i \<Rightarrow> int i)"

definition find_last_newline_in_range :: "string \<Rightarrow> int \<Rightarrow> int \<Rightarrow> int \<Rightarrow> int" where
  "find_last_newline_in_range = find_last_in_range (\<lambda>c. c = CHR 0x0A)"

definition find_last_space_in_range :: "string \<Rightarrow> int \<Rightarrow> int \<Rightarrow> int \<Rightarrow> int" where
  "find_last_space_in_range = find_last_in_range (\<lambda>c. c = CHR '' '' \<or> c = CHR 0x09)"

definition find_newline_from :: "string \<Rightarrow> int \<Rightarrow> int" where
  "find_newline_from runes from =
     (case index_byte CHR 0x0A (drop (nat from) runes) of None \<Rightarrow> -1 | Some i \<Rightarrow> from + int i)"

text \<open>The scan for an unclosed fence: the list is what is left of the range, \<open>i\<close> its index.\<close>

definition fence_rune :: char where
  "fence_rune = CHR 0x60"

fun unclosed_scan :: "int \<Rightarrow> bool \<Rightarrow> int \<Rightarrow> string \<Rightarrow> int" where
  "unclosed_scan i inCodeBlock lastOpenIdx (a # b # c # rest) =
     (if a = fence_rune \<and> b = fence_rune \<and> c = fence_rune
      then unclosed_scan (i + 3) (\<not> inCodeBlock) (if inCodeBlock then lastOpenIdx else i) rest
      else unclosed_scan (i + 1) inCodeBlock lastOpenIdx (b # c # rest))"
| "unclosed_scan i inCodeBlock lastOpenIdx rest = (if inCodeBlock then lastOpenIdx else -1)"

definition find_last_unclosed :: "string \<Rightarrow> int \<Rightarrow> int \<Rightarrow> int" where
  "find_last_unclosed runes start end = unclosed_scan start False (-1) (slice runes start end)"

fun closing_scan :: "int \<Rightarrow> string \<Rightarrow> int" where
  "closing_scan i (a # b # c # rest) =
     (if a = fence_rune \<and> b = fence_rune \<and> c = fence_rune then i + 3 else closing_scan (i + 1) (b # c # rest))"
| "closing_scan i rest = -1"

definition find_next_closing :: "string \<Rightarrow> int \<Rightarrow> int \<Rightarrow> int" where
  "find_next_closing runes startIdx end = closing_scan startIdx (slice runes startIdx end)"

section \<open>The splitting loop\<close>

text \<open>The variables of the loop; \<open>totalLen\<close> is always the length of \<open>runes\<close>.\<close>

record split_state =
  ss_runes :: string
  ss_start :: int
  ss_messages :: "string list"

definition code_block_buffer :: "int \<Rightarrow> int" where
  "code_block_buffer maxLen =
     (let b = max (maxLen div 10) 50 in if b > maxLen div 2 then maxLen div 2 else b)"

definition effective_limit :: "int \<Rightarrow> int" where
  "effective_limit maxLen = max (maxLen - code_block_buffer maxLen) (maxLen div 2)"

definition closing_fence :: string where
  "closing_fence = CHR 0x0A # replicate 3 fence_rune"

text \<open>Cutting inside a code block: close the fence, and reopen it in front of the rest.\<close>

definition split_inside :: "split_state \<Rightarrow> string \<Rightarrow> int \<Rightarrow> split_state" where
  "split_inside st header msgEnd =
     (let runes = ss_runes st; start = ss_start st; totalLen = int (length runes);
          chunk = trim_right split_space (slice runes start msgEnd) @ closing_fence;
          remaining = trim_space (header @ CHR 0x0A # slice runes msgEnd totalLen)
      in \<lparr>ss_runes = remaining, ss_start = 0, ss_messages = ss_messages st @ [chunk]\<rparr>)"

text \<open>Emitting \<open>runes[start:msgEnd]\<close> and skipping the white space that follows.\<close>

definition emit_chunk :: "int \<Rightarrow> split_state \<Rightarrow> int \<Rightarrow> split_state" where
  "emit_chunk effectiveLimit st msgEnd =
     (let runes = ss_runes st; start = ss_start st;
          msgEnd = (if msgEnd \<le> start then start + effectiveLimit else msgEnd);
          skipped = length (takeWhile split_space (drop (nat msgEnd) runes))
      in \<lparr>ss_runes = runes, ss_start = msgEnd + int skipped,
          ss_messages = ss_messages st @ [slice runes start msgEnd]\<rparr>)"

definition natural_split :: "string \<Rightarrow> int \<Rightarrow> int \<Rightarrow> int" where
  "natural_split runes start end =
     (let msgEnd = find_last_newline_in_range runes start end 200;
          msgEnd = (if msgEnd \<le> start then find_last_space_in_range runes start end 100 else msgEnd)
      in if msgEnd \<le> start then end else msgEnd)"

definition split_header :: "string \<Rightarrow> int \<Rightarrow> string" where
  "split_header runes unclosedIdx =
     (let headerEnd = find_newline_from runes unclosedIdx in
      trim_space (if headerEnd = -1 then slice runes unclosedIdx (unclosedIdx + 3)
                  else slice runes unclosedIdx headerEnd))"

definition split_unclosed :: "int \<Rightarrow> split_state \<Rightarrow> int \<Rightarrow> int \<Rightarrow> split_state" where
  "split_unclosed maxLen st msgEnd unclosedIdx =
     (let runes = ss_runes st; start = ss_start st; totalLen = int (length runes);
          headerEnd = find_newline_from runes unclosedIdx;
          header = split_header runes unclosedIdx;
          headerEndIdx = (if headerEnd \<noteq> -1 then headerEnd else unclosedIdx + int (length header)) in
      if msgEnd > headerEndIdx + 20 then
        let innerLimit = min (start + maxLen - 5) totalLen;
            betterEnd = find_last_newline_in_range runes start innerLimit 200
        in split_inside st header (if betterEnd > headerEndIdx then betterEnd else innerLimit)
      else
        let newEnd = find_last_newline_in_range runes start unclosedIdx 200;
            newEnd = (if newEnd \<le> start then find_last_space_in_range runes start unclosedIdx 100 else newEnd)
        in if newEnd > start then emit_chunk (effective_limit maxLen) st newEnd
           else if unclosedIdx - start > 20 then emit_chunk (effective_limit maxLen) st unclosedIdx
           else split_inside st header (min (start + maxLen - 5) totalLen))"

definition split_round :: "int \<Rightarrow> split_state \<Rightarrow> split_state" where
  "split_round maxLen st =
     (let runes = ss_runes st; start = ss_start st; totalLen = int (length runes);
          effectiveLimit = effective_limit maxLen;
          end = start + effectiveLimit;
          msgEnd = natural_split runes start end;
          unclosedIdx = find_last_unclosed runes start msgEnd in
      if unclosedIdx \<ge> 0 \<and> totalLen > msgEnd then
        let closingIdx = find_next_closing runes msgEnd totalLen in
        if closingIdx > 0 \<and> closingIdx - start \<le> maxLen then emit_chunk effectiveLimit st closingIdx
        else split_unclosed maxLen st msgEnd unclosedIdx
      else emit_chunk effectiveLimit st msgEnd)"

fun split_loop :: "nat \<Rightarrow> int \<Rightarrow> split_state \<Rightarrow> string list option" where
  "split_loop 0 maxLen st = None"
| "split_loop (Suc fuel) maxLen st =
     (let totalLen = int (length (ss_runes st)) in
      if ss_start st < totalLen then
        if totalLen - ss_start st \<le> maxLen
        then Some (ss_messages st @ [slice (ss_runes st) (ss_start st) totalLen])
        else split_loop fuel maxLen (split_round maxLen st)
      else Some (ss_messages st))"

definition split_message :: "nat \<Rightarrow> string \<Rightarrow> int \<Rightarrow> string list option" where
  "split_message fuel content maxLen =
     (if maxLen \<le> 0 then Some (if content = [] then [] else [content])
      else split_loop fuel maxLen \<lparr>ss_runes = content, ss_start = 0, ss_messages = []\<rparr>)"

section \<open>Lemmas on the searches\<close>

lemma length_slice: "length (slice runes a b) \<le> nat (b - a)"
  by (simp add: slice_def)

lemma slice_all: "0 \<le> a \<Longrightarrow> slice runes a (int (length runes)) = drop (nat a) runes"
  by (simp add: slice_def)

lemma last_index_Some: "last_index p runes lo hi = Some i \<Longrightarrow> lo \<le> i \<and> i < hi \<and> p (runes ! i)"
  by (induction hi) (auto split: if_splits)

lemma last_index_None: "last_index p runes lo hi = None \<longleftrightarrow> (\<forall>i. lo \<le> i \<and> i < hi \<longrightarrow> \<not> p (runes ! i))"
proof (induction hi)
  case (Suc hi)
  then show ?case by (auto simp: less_Suc_eq intro!: exI [of _ hi])
qed simp

lemma find_last_bounds:
  assumes "0 \<le> start"
  shows "start - 1 \<le> find_last_in_range p runes start end w
    \<and> (find_last_in_range p runes start end w < end \<or> find_last_in_range p runes start end w = start - 1)"
proof (cases "last_index p runes (nat (max (end - w) start)) (nat end)")
  case (Some i)
  with last_index_Some [OF Some] assms show ?thesis by (auto simp: find_last_in_range_def Let_def)
qed (simp add: find_last_in_range_def Let_def)

lemma find_last_none:
  assumes "\<And>i. int i < end \<Longrightarrow> \<not> p (runes ! i)"
  shows "find_last_in_range p runes start end w = start - 1"
proof -
  have "last_index p runes lo (nat end) = None" for lo
    unfolding last_index_None using assms by auto
  then show ?thesis by (simp add: find_last_in_range_def Let_def)
qed

lemmas find_last_defs = find_last_newline_in_range_def find_last_space_in_range_def

lemma effective_limit_bounds:
  assumes "0 < maxLen"
  shows "0 < effective_limit maxLen" "effective_limit maxLen \<le> maxLen"
    "maxLen - maxLen div 2 \<le> effective_limit maxLen"
  using assms by (auto simp: effective_limit_def code_block_buffer_def Let_def)

lemma natural_split_bounds:
  assumes "0 \<le> start" and "start < end"
  shows "start < natural_split runes start end \<and> natural_split runes start end \<le> end"
  using find_last_bounds [OF assms(1)] assms(2)
  by (smt (verit) find_last_defs natural_split_def)

lemma unclosed_scan_bounds:
  "unclosed_scan i b l xs = u \<Longrightarrow> u = -1 \<or> b \<and> u = l \<or> i \<le> u \<and> u + 3 \<le> i + int (length xs)"
  by (induction i b l xs rule: unclosed_scan.induct) (fastforce split: if_splits)+

lemma find_last_unclosed_bounds:
  assumes "0 \<le> find_last_unclosed runes start msgEnd" and "start \<le> msgEnd"
  shows "start \<le> find_last_unclosed runes start msgEnd \<and> find_last_unclosed runes start msgEnd + 3 \<le> msgEnd"
  using unclosed_scan_bounds [of start False "-1" "slice runes start msgEnd", OF refl] assms
    length_slice [of runes start msgEnd]
  by (auto simp: find_last_unclosed_def)

section \<open>Every chunk fits\<close>

definition fitting :: "int \<Rightarrow> split_state \<Rightarrow> bool" where
  "fitting maxLen st \<longleftrightarrow> 0 \<le> ss_start st \<and> list_all (\<lambda>m. int (length m) \<le> maxLen) (ss_messages st)"

lemma emit_chunk_fitting:
  assumes "fitting maxLen st" and "0 < maxLen" and "msgEnd \<le> ss_start st + maxLen"
  shows "fitting maxLen (emit_chunk (effective_limit maxLen) st msgEnd)"
proof -
  have "int (length (slice (ss_runes st) (ss_start st) m)) \<le> maxLen" if "m \<le> ss_start st + maxLen" for m
    using that assms(2) length_slice [of "ss_runes st" "ss_start st" m] by linarith
  then show ?thesis
    using assms effective_limit_bounds [OF assms(2)] by (auto simp: fitting_def emit_chunk_def Let_def)
qed

lemma split_inside_fitting:
  assumes "fitting maxLen st" and "5 \<le> maxLen" and "msgEnd \<le> ss_start st + maxLen - 5"
  shows "fitting maxLen (split_inside st header msgEnd)"
proof -
  have "int (length (trim_right split_space (slice (ss_runes st) (ss_start st) msgEnd))) \<le> maxLen - 5"
    using assms(2,3) length_slice [of "ss_runes st" "ss_start st" msgEnd]
      length_trim_right [of split_space "slice (ss_runes st) (ss_start st) msgEnd"] by linarith
  with assms(1) show ?thesis by (simp add: fitting_def split_inside_def closing_fence_def Let_def)
qed

lemma split_unclosed_fitting:
  assumes fit: "fitting maxLen st" and m: "5 \<le> maxLen"
    and u: "ss_start st \<le> u" "u + 3 \<le> ss_start st + maxLen"
  shows "fitting maxLen (split_unclosed maxLen st msgEnd u)"
proof -
  have s: "0 \<le> ss_start st" using fit by (simp add: fitting_def)
  have "find_last_newline_in_range (ss_runes st) (ss_start st) e 200 \<le> max (e - 1) (ss_start st - 1)"
    "find_last_space_in_range (ss_runes st) (ss_start st) e 100 \<le> max (e - 1) (ss_start st - 1)" for e
    using find_last_bounds [OF s] unfolding find_last_defs by (smt (verit))+
  note fl = this
  let ?inner = "min (ss_start st + maxLen - 5) (int (length (ss_runes st)))"
  have "find_last_newline_in_range (ss_runes st) (ss_start st) ?inner 200 \<le> ss_start st + maxLen - 5"
    using fl(1) [of ?inner] m by linarith
  moreover have "find_last_newline_in_range (ss_runes st) (ss_start st) u 200 \<le> ss_start st + maxLen"
    "find_last_space_in_range (ss_runes st) (ss_start st) u 100 \<le> ss_start st + maxLen"
    using fl [of u] u m by linarith+
  ultimately show ?thesis
    using fit m u unfolding split_unclosed_def Let_def
    by (auto intro!: split_inside_fitting emit_chunk_fitting)
qed

lemma split_round_fitting:
  assumes "fitting maxLen st" and "0 < maxLen"
  shows "fitting maxLen (split_round maxLen st)"
proof -
  let ?m = "natural_split (ss_runes st) (ss_start st) (ss_start st + effective_limit maxLen)"
  let ?u = "find_last_unclosed (ss_runes st) (ss_start st) ?m"
  have m: "ss_start st < ?m" "?m \<le> ss_start st + maxLen"
    using natural_split_bounds [of "ss_start st" "ss_start st + effective_limit maxLen" "ss_runes st"]
      effective_limit_bounds [OF assms(2)] assms(1) by (auto simp: fitting_def)
  have "fitting maxLen (split_unclosed maxLen st ?m ?u)" if "0 \<le> ?u"
  proof (rule split_unclosed_fitting [OF assms(1)])
    show "ss_start st \<le> ?u" "?u + 3 \<le> ss_start st + maxLen"
      using find_last_unclosed_bounds [OF that] m by auto
    have "3 \<le> ?m - ss_start st" using find_last_unclosed_bounds [OF that] m by linarith
    then have "3 \<le> effective_limit maxLen"
      using natural_split_bounds [of "ss_start st" "ss_start st + effective_limit maxLen" "ss_runes st"]
        effective_limit_bounds [OF assms(2)] assms(1) by (auto simp: fitting_def)
    then show "5 \<le> maxLen"
      using assms(2) by (auto simp: effective_limit_def code_block_buffer_def Let_def split: if_splits)
  qed
  with m assms show ?thesis
    unfolding split_round_def Let_def by (auto intro: emit_chunk_fitting)
qed

lemma split_loop_fitting:
  assumes "split_loop fuel maxLen st = Some ms" and "fitting maxLen st" and "0 < maxLen"
  shows "list_all (\<lambda>m. int (length m) \<le> maxLen) ms"
  using assms
proof (induction fuel arbitrary: st)
  case (Suc fuel)
  have "int (length (slice (ss_runes st) (ss_start st) e)) \<le> maxLen" if "e - ss_start st \<le> maxLen" for e
    using that Suc.prems(3) length_slice [of "ss_runes st" "ss_start st" e] by linarith
  with Suc show ?case
    using split_round_fitting [OF Suc.prems(2,3)]
    by (auto simp: Let_def fitting_def [of maxLen st] split: if_splits)
qed simp

section \<open>Text without fences\<close>

definition has_fence :: "string \<Rightarrow> bool" where
  "has_fence s \<longleftrightarrow> contains s (replicate 3 fence_rune)"

lemma unclosed_scan_no_fence:
  "\<not> has_fence xs \<Longrightarrow> unclosed_scan i False l xs = -1"
proof (induction i False l xs rule: unclosed_scan.induct)
  case (1 i l a b c rest)
  have nf: "\<not> (a = fence_rune \<and> b = fence_rune \<and> c = fence_rune)"
    using 1(3) by (auto simp: has_fence_def eval_nat_numeral)
  moreover have "\<not> has_fence (b # c # rest)" using 1(3) by (simp add: has_fence_def)
  ultimately show ?case using 1(2) by auto
qed auto

lemma has_fence_slice: "has_fence (slice s a b) \<Longrightarrow> has_fence s"
  unfolding has_fence_def contains_iff slice_def
  by (metis append.assoc append_take_drop_id)

lemma split_round_plain:
  assumes "\<not> has_fence (ss_runes st)"
  shows "split_round maxLen st = emit_chunk (effective_limit maxLen) st
    (natural_split (ss_runes st) (ss_start st) (ss_start st + effective_limit maxLen))"
proof -
  have "find_last_unclosed (ss_runes st) a b = -1" for a b
    using assms has_fence_slice [of "ss_runes st" a b] unclosed_scan_no_fence
    unfolding find_last_unclosed_def by blast
  then show ?thesis by (simp add: split_round_def Let_def)
qed

text \<open>The chunks with the white space skipped after each of them.\<close>

definition rejoin :: "string list \<Rightarrow> string list \<Rightarrow> string" where
  "rejoin ms gaps = concat (map2 (@) ms gaps)"

lemma rejoin_snoc: "length gaps = length ms \<Longrightarrow> rejoin (ms @ [m]) (gaps @ [g]) = rejoin ms gaps @ m @ g"
  by (simp add: rejoin_def)

lemma split_loop_plain:
  assumes "0 < maxLen" and "\<not> has_fence (ss_runes st)" and "0 \<le> ss_start st"
    and "length (ss_runes st) - nat (ss_start st) < fuel"
    and "length gaps = length (ss_messages st)" and "list_all (list_all split_space) gaps"
    and "rejoin (ss_messages st) gaps = take (nat (ss_start st)) (ss_runes st)"
    and "list_all (\<lambda>m. m \<noteq> []) (ss_messages st)"
  shows "\<exists>ms gaps. split_loop fuel maxLen st = Some ms \<and> length gaps = length ms
    \<and> list_all (list_all split_space) gaps \<and> rejoin ms gaps = ss_runes st \<and> list_all (\<lambda>m. m \<noteq> []) ms"
  using assms(2-)
proof (induction fuel arbitrary: st gaps)
  case (Suc fuel)
  let ?r = "ss_runes st" and ?s = "nat (ss_start st)"
  consider (finished) "int (length ?r) \<le> ss_start st"
    | (final) "ss_start st < int (length ?r)" "int (length ?r) - ss_start st \<le> maxLen"
    | (more) "ss_start st < int (length ?r)" "maxLen < int (length ?r) - ss_start st" by linarith
  then show ?case
  proof cases
    case finished
    then show ?thesis using Suc.prems by (intro exI [of _ "ss_messages st"] exI [of _ gaps]) simp
  next
    case final
    have "rejoin (ss_messages st @ [drop ?s ?r]) (gaps @ [[]]) = ?r"
      using Suc.prems by (simp add: rejoin_snoc)
    then show ?thesis using final Suc.prems
      by (intro exI [of _ "ss_messages st @ [drop ?s ?r]"] exI [of _ "gaps @ [[]]"]) (simp add: slice_all)
  next
    case more
    define m where "m = natural_split ?r (ss_start st) (ss_start st + effective_limit maxLen)"
    define g where "g = takeWhile split_space (drop (nat m) ?r)"
    let ?st = "\<lparr>ss_runes = ?r, ss_start = m + int (length g), ss_messages = ss_messages st @ [slice ?r (ss_start st) m]\<rparr>"
    have m: "ss_start st < m" "m \<le> ss_start st + maxLen"
      using natural_split_bounds [of "ss_start st" "ss_start st + effective_limit maxLen" ?r]
        effective_limit_bounds [OF assms(1)] Suc.prems(2) unfolding m_def by linarith+
    have step: "split_round maxLen st = ?st"
      using split_round_plain [OF Suc.prems(1), of maxLen] m(1)
      unfolding m_def [symmetric] by (simp add: emit_chunk_def g_def Let_def)
    have pieces: "take (nat (m + int (length g))) ?r = take ?s ?r @ slice ?r (ss_start st) m @ g"
    proof -
      have "nat (m + int (length g)) = ?s + (nat (m - ss_start st) + length g)" "nat m = nat (m - ss_start st) + ?s"
        using m(1) Suc.prems(2) by auto
      moreover have "take (length g) (drop (nat m) ?r) = g"
        unfolding g_def by (metis append_eq_conv_conj takeWhile_dropWhile_id)
      ultimately show ?thesis by (simp only: slice_def take_add drop_drop)
    qed
    have "length (slice ?r (ss_start st) m) = nat (m - ss_start st)"
      using m more Suc.prems(2) by (simp add: slice_def)
    then have "slice ?r (ss_start st) m \<noteq> []" using m(1) by (metis length_0_conv nat_0_iff diff_le_0_iff_le not_less)
    moreover have "list_all split_space g" unfolding g_def by (auto simp: list_all_iff dest: set_takeWhileD)
    ultimately have "\<exists>ms gaps. split_loop fuel maxLen ?st = Some ms \<and> length gaps = length ms
      \<and> list_all (list_all split_space) gaps \<and> rejoin ms gaps = ss_runes ?st \<and> list_all (\<lambda>m. m \<noteq> []) ms"
      using Suc.prems m pieces more by (intro Suc.IH [of _ "gaps @ [g]"]) (auto simp: rejoin_snoc)
    then show ?thesis using more step by (simp add: Let_def)
  qed
qed simp

section \<open>A block whose first line does not fit\<close>

text \<open>A message that starts with a fence line \<open>```ccc...c\<close> and has more lines.\<close>

definition long_fence :: "nat \<Rightarrow> char \<Rightarrow> string \<Rightarrow> string" where
  "long_fence n c rest = replicate 3 fence_rune @ replicate n c @ CHR 0x0A # rest"

lemma unclosed_scan_replicate:
  "c \<noteq> fence_rune \<Longrightarrow> unclosed_scan i b l (replicate k c) = (if b then l else -1)"
proof (induction k arbitrary: i rule: induct_nat_012)
  case (ge2 k)
  then show ?case by (cases k) auto
qed auto

lemma closing_scan_bound: "closing_scan i xs = -1 \<or> i + 3 \<le> closing_scan i xs"
  by (induction i xs rule: closing_scan.induct) auto

lemma closing_scan_replicate:
  "c \<noteq> fence_rune \<Longrightarrow> closing_scan i (replicate k c @ xs) = -1 \<or> i + int k + 3 \<le> closing_scan i (replicate k c @ xs)"
proof (induction k arbitrary: i)
  case 0
  then show ?case using closing_scan_bound [of i xs] by simp
next
  case (Suc k)
  show ?case
  proof (cases "replicate k c @ xs")
    case (Cons b r)
    then show ?thesis using Suc.IH [of "i + 1"] Suc.prems by (cases r) auto
  qed simp
qed

lemma split_round_long_fence:
  assumes "5 \<le> maxLen" and "maxLen \<le> int n" and "c \<noteq> fence_rune" and "\<not> is_space c"
    and "rest \<noteq> []" and "\<not> is_space (last rest)"
    and st: "ss_runes st = long_fence n c rest" "ss_start st = 0"
  shows "\<exists>rest' ms. rest' \<noteq> [] \<and> \<not> is_space (last rest')
    \<and> split_round maxLen st = \<lparr>ss_runes = long_fence n c rest', ss_start = 0, ss_messages = ms\<rparr>"
proof -
  let ?r = "long_fence n c rest" and ?e = "effective_limit maxLen"
  let ?k = "nat ?e - 3"
  have e: "3 \<le> ?e" "?e \<le> maxLen" "?e \<le> int n"
    using effective_limit_bounds [of maxLen] assms(1,2) by linarith+
  have len: "int (length ?r) = int n + 4 + int (length rest)" by (simp add: long_fence_def)
  have nsp: "fence_rune \<noteq> CHR 0x0A" "fence_rune \<noteq> CHR '' ''" "fence_rune \<noteq> CHR 0x09" "\<not> is_space fence_rune"
    "c \<noteq> CHR 0x0A" "c \<noteq> CHR '' ''" "c \<noteq> CHR 0x09"
    using assms(4) by (auto simp: fence_rune_def is_space_def)
  have nth: "?r ! i = fence_rune \<or> ?r ! i = c" if "int i < int n + 3" for i
    using that by (auto simp: long_fence_def nth_append)
  have split: "natural_split ?r 0 ?e = ?e"
  proof -
    have none: "find_last_in_range p ?r 0 ?e w = -1" if p: "\<not> p fence_rune" "\<not> p c" for p w
    proof -
      have "\<not> p (?r ! i)" if "int i < ?e" for i using nth [of i] that e p by auto
      then have "find_last_in_range p ?r 0 ?e w = 0 - 1" by (rule find_last_none)
      then show ?thesis by simp
    qed
    have "find_last_newline_in_range ?r 0 ?e 200 = -1" "find_last_space_in_range ?r 0 ?e 100 = -1"
      unfolding find_last_defs using nsp by (auto intro: none)
    then show ?thesis by (simp add: natural_split_def)
  qed
  have "slice ?r 0 ?e = replicate 3 fence_rune @ replicate ?k c"
    using e by (simp add: slice_def long_fence_def take_append)
  then have unclosed: "find_last_unclosed ?r 0 ?e = 0"
    using assms(3) by (simp add: find_last_unclosed_def eval_nat_numeral unclosed_scan_replicate)
  have closing: "find_next_closing ?r ?e (int (length ?r)) \<le> 0 \<or> maxLen < find_next_closing ?r ?e (int (length ?r))"
  proof -
    have "drop (nat ?e) ?r = replicate (n + 3 - nat ?e) c @ CHR 0x0A # rest"
      using e by (simp add: long_fence_def)
    then show ?thesis
      using closing_scan_replicate [OF assms(3), of ?e "n + 3 - nat ?e" "CHR 0x0A # rest"] e assms(2)
      by (auto simp: find_next_closing_def slice_all)
  qed
  have nl: "find_newline_from ?r 0 = int n + 3"
  proof -
    have "CHR 0x0A \<notin> set (replicate 3 fence_rune @ replicate n c)" using nsp by auto
    from index_byte_append [OF this, of rest] show ?thesis
      by (simp add: find_newline_from_def long_fence_def)
  qed
  have header: "split_header ?r 0 = replicate 3 fence_rune @ replicate n c"
  proof -
    have "slice ?r 0 (int n + 3) = replicate 3 fence_rune @ replicate n c"
      by (simp add: slice_def long_fence_def nat_add_distrib)
    moreover have "trim_space (replicate 3 fence_rune @ replicate n c) = replicate 3 fence_rune @ replicate n c"
      using nsp assms(1,2,4) by (intro trim_space_id) (auto simp: last_append)
    ultimately show ?thesis by (simp add: split_header_def nl)
  qed
  define m where "m = nat (maxLen - 5)"
  define rest' where "rest' = drop m ?r"
  have rest': "rest' \<noteq> []" "last rest' = last rest"
    using assms(1,2,5) by (auto simp: rest'_def m_def last_drop long_fence_def)
  have trim: "trim_space (replicate 3 fence_rune @ replicate n c @ CHR 0x0A # rest') = long_fence n c rest'"
    unfolding long_fence_def using nsp(4) rest' assms(6) by (intro trim_space_id) auto
  have "split_round maxLen st = split_inside st (replicate 3 fence_rune @ replicate n c) (maxLen - 5)"
    using closing e len assms(1,2)
    by (auto simp: split_round_def split_unclosed_def st split unclosed nl header Let_def
        find_last_defs find_last_in_range_def min_def)
  also have "\<dots> = \<lparr>ss_runes = long_fence n c rest', ss_start = 0, ss_messages = ss_messages st @
      [trim_right split_space (slice ?r 0 (maxLen - 5)) @ closing_fence]\<rparr>"
    using assms(1) trim by (simp add: split_inside_def st slice_all rest'_def m_def Let_def)
  finally have round: "split_round maxLen st = \<lparr>ss_runes = long_fence n c rest', ss_start = 0,
    ss_messages = ss_messages st @ [trim_right split_space (slice ?r 0 (maxLen - 5)) @ closing_fence]\<rparr>" .
  have "\<not> is_space (last rest')" using rest'(2) assms(6) by simp
  with rest'(1) round show ?thesis by (intro exI conjI)
qed

lemma split_loop_long_fence:
  assumes "5 \<le> maxLen" and "maxLen \<le> int n" and "c \<noteq> fence_rune" and "\<not> is_space c"
    and "rest \<noteq> []" and "\<not> is_space (last rest)"
    and "ss_runes st = long_fence n c rest" "ss_start st = 0"
  shows "split_loop fuel maxLen st = None"
  using assms(5-)
proof (induction fuel arbitrary: st rest)
  case (Suc fuel)
  obtain rest' ms where r: "rest' \<noteq> []" "\<not> is_space (last rest')"
    "split_round maxLen st = \<lparr>ss_runes = long_fence n c rest', ss_start = 0, ss_messages = ms\<rparr>"
    using split_round_long_fence [OF assms(1-4) Suc.prems] by blast
  have "maxLen < int (length (ss_runes st))"
    using Suc.prems(3) assms(2) by (simp add: long_fence_def)
  then show ?case
    using Suc.IH [OF r(1,2)] r(3) Suc.prems(4) assms(1) by (auto simp: Let_def)
qed simp

section \<open>Blocks whose first lines fit\<close>

text \<open>Every line that holds a fence, from the fence to the end of the line and without blanks around, is at least
  seven characters shorter than the limit: the line that is put back in front of the rest, its line end and the
  closing fence take less than a chunk. A last line without an end does not count, for which the fence alone is put back.\<close>

fun short_fences :: "int \<Rightarrow> string \<Rightarrow> bool" where
  "short_fences n [] = True"
| "short_fences n (c # s) \<longleftrightarrow>
     (take 3 (c # s) = replicate 3 fence_rune \<and> CHR 0x0A \<in> set s
        \<longrightarrow> int (length (trim_space (takeWhile (\<lambda>c. c \<noteq> CHR 0x0A) (c # s)))) + 7 \<le> n)
     \<and> short_fences n s"

lemma short_fences_drop: "short_fences n s \<Longrightarrow> short_fences n (drop k s)"
proof (induction s arbitrary: k)
  case (Cons c s)
  then show ?case by (cases k) simp_all
qed simp

lemma short_fences_prefix: "short_fences n (s @ t) \<Longrightarrow> short_fences n s"
proof (induction s)
  case (Cons c s)
  have "take 3 (c # s @ t) = replicate 3 fence_rune" if "take 3 (c # s) = replicate 3 fence_rune"
  proof -
    have "length (take 3 (c # s)) = 3" using that by simp
    then have "3 \<le> length (c # s)" by simp
    then have "take 3 ((c # s) @ t) = take 3 (c # s)" by (simp only: take_append) auto
    then show ?thesis using that by (metis append_Cons)
  qed
  moreover have "takeWhile (\<lambda>c. c \<noteq> CHR 0x0A) (s @ t) = takeWhile (\<lambda>c. c \<noteq> CHR 0x0A) s" if "CHR 0x0A \<in> set s"
    using that by (simp add: takeWhile_append1)
  ultimately show ?case using Cons by auto
qed simp

lemma length_trim_space: "length (trim_space s) \<le> length s"
  unfolding trim_space_def by (metis length_dropWhile_le length_trim_right order_trans)

lemma short_fences_header:
  assumes "CHR 0x0A \<notin> set h" and "int (length h) + 7 \<le> n" and "short_fences n rest"
  shows "short_fences n (h @ CHR 0x0A # rest)"
  using assms
proof (induction h)
  case Nil
  have "take 3 (CHR 0x0A # rest) \<noteq> replicate 3 fence_rune" by (simp add: numeral_3_eq_3 fence_rune_def)
  then show ?case using Nil(3) by simp
next
  case (Cons c h)
  have "CHR 0x0A \<notin> set x \<Longrightarrow> takeWhile (\<lambda>c. c \<noteq> CHR 0x0A) (x @ CHR 0x0A # rest) = x" for x by (induction x) auto
  from this [OF Cons.prems(1)] have "takeWhile (\<lambda>c. c \<noteq> CHR 0x0A) (c # h @ CHR 0x0A # rest) = c # h" by simp
  moreover have "int (length (trim_space (c # h))) + 7 \<le> n" using length_trim_space [of "c # h"] Cons.prems(2) by linarith
  ultimately show ?case using Cons by simp
qed

lemma short_fences_trim:
  assumes "short_fences n s"
  shows "short_fences n (trim_space s)"
proof -
  have "short_fences n (dropWhile is_space s)"
    using short_fences_drop [OF assms, of "length (takeWhile is_space s)"] by (simp add: dropWhile_eq_drop)
  moreover obtain t where "dropWhile is_space s = trim_right is_space (dropWhile is_space s) @ t"
    using trim_right_split by blast
  ultimately show ?thesis unfolding trim_space_def using short_fences_prefix by metis
qed

lemma unclosed_scan_fence:
  "unclosed_scan i b l xs = u \<Longrightarrow> u = -1 \<or> b \<and> u = l \<or> (\<exists>k. u = i + int k \<and> take 3 (drop k xs) = replicate 3 fence_rune)"
proof (induction i b l xs rule: unclosed_scan.induct)
  case (1 i b l a b' c rest)
  show ?case
  proof (cases "a = fence_rune \<and> b' = fence_rune \<and> c = fence_rune")
    case True
    then have here: "take 3 (drop 0 (a # b' # c # rest)) = replicate 3 fence_rune" by (simp add: numeral_3_eq_3)
    from 1(1) [OF True] 1(3) True consider "u = -1" | "\<not> b \<and> u = i" | "b \<and> u = l"
      | k where "u = i + 3 + int k" "take 3 (drop k rest) = replicate 3 fence_rune" by auto
    then show ?thesis
    proof cases
      case 2
      then show ?thesis using here by (intro disjI2 exI [of _ 0]) simp
    next
      case (4 k)
      then show ?thesis by (intro disjI2 exI [of _ "Suc (Suc (Suc k))"]) simp
    qed auto
  next
    case False
    from 1(2) [OF False] 1(3) False consider "u = -1" | "b \<and> u = l"
      | k where "u = i + 1 + int k" "take 3 (drop k (b' # c # rest)) = replicate 3 fence_rune" by auto
    then show ?thesis
    proof cases
      case (3 k)
      then show ?thesis by (intro disjI2 exI [of _ "Suc k"]) simp
    qed auto
  qed
qed (auto split: if_splits)

lemma find_last_unclosed_fence:
  assumes "0 \<le> find_last_unclosed runes start msgEnd" and "0 \<le> start"
  shows "take 3 (drop (nat (find_last_unclosed runes start msgEnd)) runes) = replicate 3 fence_rune"
proof -
  let ?s = "slice runes start msgEnd"
  from unclosed_scan_fence [of start False "-1" ?s, OF refl] assms(1) obtain k where
    k: "find_last_unclosed runes start msgEnd = start + int k" "take 3 (drop k ?s) = replicate 3 fence_rune"
    by (auto simp: find_last_unclosed_def)
  let ?xs = "drop (nat start) runes" and ?m = "nat (msgEnd - start)"
  have t: "take 3 (drop k (take ?m ?xs)) = replicate 3 fence_rune" using k(2) by (simp only: slice_def)
  then have "length (take 3 (drop k (take ?m ?xs))) = 3" by (simp only: length_replicate)
  then have "3 \<le> ?m - k" by (simp add: drop_take min_def split: if_splits)
  then have "take 3 (drop k (take ?m ?xs)) = take 3 (drop k ?xs)" by (simp add: drop_take min_def)
  moreover have "drop (nat (start + int k)) runes = drop k ?xs" using assms(2) by (simp add: nat_add_distrib add.commute)
  ultimately show ?thesis unfolding k(1) using t by metis
qed

text \<open>The header that is put back, and where its line ends.\<close>

lemma header_bounds:
  assumes "short_fences maxLen runes" and "10 \<le> maxLen" and "0 \<le> u" and "take 3 (drop (nat u) runes) = replicate 3 fence_rune"
  shows "int (length (split_header runes u)) + 7 \<le> maxLen" and "CHR 0x0A \<notin> set (split_header runes u)"
    and "u + int (length (split_header runes u))
      \<le> (if find_newline_from runes u \<noteq> -1 then find_newline_from runes u else u + int (length (split_header runes u)))"
proof -
  let ?d = "drop (nat u) runes"
  have set_trim: "set (trim_space x) \<subseteq> set x" for x
    unfolding trim_space_def using set_trim_right [of is_space "dropWhile is_space x"] set_dropWhileD [of _ is_space x] by blast
  have line: "index_byte c xs = Some i \<Longrightarrow> take i xs = takeWhile (\<lambda>x. x \<noteq> c) xs \<and> c \<in> set xs" for c i and xs :: string
    by (induction xs arbitrary: i) (auto split: if_splits)
  have "int (length (split_header runes u)) + 7 \<le> maxLen \<and> CHR 0x0A \<notin> set (split_header runes u)
    \<and> u + int (length (split_header runes u))
      \<le> (if find_newline_from runes u \<noteq> -1 then find_newline_from runes u else u + int (length (split_header runes u)))"
  proof (cases "index_byte CHR 0x0A ?d")
    case None
    then have nl: "find_newline_from runes u = -1" by (simp add: find_newline_from_def)
    have "slice runes u (u + 3) = replicate 3 fence_rune" using assms(4) by (simp add: slice_def)
    then have h: "split_header runes u = trim_space (replicate 3 fence_rune)" by (simp add: split_header_def nl)
    have "length (trim_space (replicate 3 fence_rune)) \<le> 3" using length_trim_space [of "replicate 3 fence_rune"] by simp
    moreover have "CHR 0x0A \<notin> set (trim_space (replicate 3 fence_rune))"
      using set_trim [of "replicate 3 fence_rune"] by (auto simp: fence_rune_def)
    ultimately show ?thesis using assms(2) nl h by simp
  next
    case (Some i)
    then have nl: "find_newline_from runes u = u + int i" by (simp add: find_newline_from_def)
    have "slice runes u (u + int i) = take i ?d" by (simp add: slice_def)
    then have h: "split_header runes u = trim_space (take i ?d)" using assms(3) by (simp add: split_header_def nl)
    obtain c cs where d: "?d = c # cs" using assms(4) by (cases ?d) (simp_all add: numeral_3_eq_3)
    have c: "c = fence_rune" using assms(4) by (simp add: d numeral_3_eq_3)
    have "CHR 0x0A \<in> set cs" using line [OF Some] by (simp add: d c fence_rune_def)
    moreover have "short_fences maxLen (c # cs)" using short_fences_drop [OF assms(1), of "nat u"] by (simp only: d)
    ultimately have "int (length (trim_space (takeWhile (\<lambda>x. x \<noteq> CHR 0x0A) ?d))) + 7 \<le> maxLen"
      using assms(4) unfolding d by simp
    then have "int (length (split_header runes u)) + 7 \<le> maxLen" using line [OF Some] by (simp only: h)
    moreover have "CHR 0x0A \<notin> set (take i ?d)" using line [OF Some] by (auto dest: set_takeWhileD)
    moreover have "int (length (trim_space (take i ?d))) \<le> int i" using length_trim_space [of "take i ?d"] by simp
    ultimately show ?thesis using set_trim [of "take i ?d"] nl h assms(3) by auto
  qed
  then show "int (length (split_header runes u)) + 7 \<le> maxLen" "CHR 0x0A \<notin> set (split_header runes u)"
    "u + int (length (split_header runes u))
      \<le> (if find_newline_from runes u \<noteq> -1 then find_newline_from runes u else u + int (length (split_header runes u)))"
    by simp_all
qed

section \<open>The loop ends\<close>

definition rest_length :: "split_state \<Rightarrow> nat" where
  "rest_length st = nat (int (length (ss_runes st)) - ss_start st)"

definition tidy :: "int \<Rightarrow> split_state \<Rightarrow> bool" where
  "tidy maxLen st \<longleftrightarrow> 0 \<le> ss_start st \<and> short_fences maxLen (ss_runes st)"

lemma emit_chunk_progress:
  assumes "tidy maxLen st" and "0 < maxLen" and "ss_start st < int (length (ss_runes st))"
  shows "tidy maxLen (emit_chunk (effective_limit maxLen) st e) \<and> rest_length (emit_chunk (effective_limit maxLen) st e) < rest_length st"
  using assms effective_limit_bounds(1) [OF assms(2)] by (auto simp: tidy_def rest_length_def emit_chunk_def Let_def)

lemma split_inside_progress:
  assumes "tidy maxLen st" and "int (length h) + 7 \<le> maxLen" and "CHR 0x0A \<notin> set h"
    and "ss_start st + int (length h) + 2 \<le> e" and "e \<le> int (length (ss_runes st))"
  shows "tidy maxLen (split_inside st h e) \<and> rest_length (split_inside st h e) < rest_length st"
proof -
  let ?rest = "slice (ss_runes st) e (int (length (ss_runes st)))"
  have e: "0 \<le> e" using assms(1,4) by (simp add: tidy_def)
  have rest: "?rest = drop (nat e) (ss_runes st)" using slice_all [OF e] .
  then have "short_fences maxLen (trim_space (h @ CHR 0x0A # ?rest))"
    using short_fences_trim [OF short_fences_header [OF assms(3,2)]] short_fences_drop assms(1) by (simp add: tidy_def)
  moreover have "int (length (trim_space (h @ CHR 0x0A # ?rest))) \<le> int (length h) + 1 + (int (length (ss_runes st)) - e)"
    using length_trim_space [of "h @ CHR 0x0A # ?rest"] e assms(5) by (simp add: rest)
  ultimately show ?thesis using assms(4,5) by (simp add: tidy_def split_inside_def rest_length_def Let_def)
qed

lemma last_index_upper: "lo \<le> i \<Longrightarrow> i < hi \<Longrightarrow> p (runes ! i) \<Longrightarrow> \<exists>j. last_index p runes lo hi = Some j \<and> i \<le> j"
proof (induction hi)
  case (Suc hi)
  then show ?case by (cases "i = hi") auto
qed simp

lemma find_last_upper:
  assumes "0 \<le> start" and "start \<le> i" and "end - w \<le> i" and "i < end" and "p (runes ! nat i)"
  shows "i \<le> find_last_in_range p runes start end w"
proof -
  have "nat (max (end - w) start) \<le> nat i" "nat i < nat end" using assms(1-4) by auto
  from last_index_upper [where p = p and runes = runes, OF this assms(5)] obtain j where "last_index p runes (nat (max (end - w) start)) (nat end) = Some j" "nat i \<le> j" by blast
  then show ?thesis using assms(1,2) by (simp add: find_last_in_range_def Let_def)
qed

lemma find_last_found:
  assumes "0 \<le> start" and "find_last_in_range p runes start end w \<noteq> start - 1"
  shows "end - w \<le> find_last_in_range p runes start end w \<and> start \<le> find_last_in_range p runes start end w
    \<and> find_last_in_range p runes start end w < end \<and> p (runes ! nat (find_last_in_range p runes start end w))"
proof (cases "last_index p runes (nat (max (end - w) start)) (nat end)")
  case None
  then show ?thesis using assms by (simp add: find_last_in_range_def Let_def)
next
  case (Some j)
  then show ?thesis using last_index_Some [OF Some] assms(1) by (auto simp: find_last_in_range_def Let_def)
qed

text \<open>The better end inside a block is not before the natural one.\<close>

lemma better_end:
  assumes "0 \<le> start" and "start < end" and "end \<le> inner"
    and "start < find_last_newline_in_range runes start inner 200"
  shows "natural_split runes start end \<le> find_last_newline_in_range runes start inner 200"
proof -
  let ?b = "find_last_newline_in_range runes start inner 200" and ?m = "find_last_newline_in_range runes start end 200"
  have b: "inner - 200 \<le> ?b" "?b < inner" "runes ! nat ?b = CHR 0x0A"
    using find_last_found [OF assms(1), of "\<lambda>c. c = CHR 0x0A" runes inner 200] assms(4) by (auto simp: find_last_newline_in_range_def)
  show ?thesis
  proof (cases "start < ?m")
    case True
    then have nat: "natural_split runes start end = ?m" by (simp add: natural_split_def)
    have m: "runes ! nat ?m = CHR 0x0A" "?m < end"
      using find_last_found [OF assms(1), of "\<lambda>c. c = CHR 0x0A" runes "end" 200] True by (auto simp: find_last_newline_in_range_def)
    show ?thesis
    proof (cases "inner - 200 \<le> ?m")
      case True
      then show ?thesis unfolding nat
        using find_last_upper [OF assms(1) _ True, of "\<lambda>c. c = CHR 0x0A" runes] m \<open>start < ?m\<close> assms(3)
        by (simp add: find_last_newline_in_range_def)
    qed (use b nat in linarith)
  next
    case False
    have "end \<le> ?b"
    proof (rule ccontr)
      assume "\<not> end \<le> ?b"
      then have "?b \<le> ?m"
        using find_last_upper [OF assms(1), of ?b "end" 200 "\<lambda>c. c = CHR 0x0A" runes] b assms(3,4)
        by (simp add: find_last_newline_in_range_def)
      with False assms(4) show False by simp
    qed
    then show ?thesis using natural_split_bounds [OF assms(1,2), of runes] by linarith
  qed
qed

lemma effective_limit_room: "10 \<le> maxLen \<Longrightarrow> effective_limit maxLen \<le> maxLen - 5"
  by (auto simp: effective_limit_def code_block_buffer_def Let_def)

lemma split_unclosed_progress:
  fixes st maxLen
  defines "m \<equiv> natural_split (ss_runes st) (ss_start st) (ss_start st + effective_limit maxLen)"
  defines "u \<equiv> find_last_unclosed (ss_runes st) (ss_start st) m"
  assumes "tidy maxLen st" and "10 \<le> maxLen" and "maxLen < int (length (ss_runes st)) - ss_start st" and "0 \<le> u"
  shows "tidy maxLen (split_unclosed maxLen st m u) \<and> rest_length (split_unclosed maxLen st m u) < rest_length st"
proof -
  let ?r = "ss_runes st" and ?s = "ss_start st" and ?e = "ss_start st + effective_limit maxLen"
  let ?h = "split_header ?r u" and ?n = "find_newline_from ?r u"
  let ?i = "if ?n \<noteq> -1 then ?n else u + int (length ?h)"
  let ?inner = "min (?s + maxLen - 5) (int (length ?r))"
  let ?b = "find_last_newline_in_range ?r ?s ?inner 200"
  have s: "0 \<le> ?s" "?s < ?e" "?e \<le> ?s + maxLen - 5" "?s < int (length ?r)"
    using assms(3-5) effective_limit_room [OF assms(4)] effective_limit_bounds(1) [of maxLen] by (auto simp: tidy_def)
  have m: "?s < m" "m \<le> ?e" using natural_split_bounds [OF s(1,2)] by (auto simp: m_def)
  have u: "?s \<le> u" "u + 3 \<le> m" using find_last_unclosed_bounds [of ?r ?s m] assms(6) m(1) by (auto simp: u_def)
  have fence: "take 3 (drop (nat u) ?r) = replicate 3 fence_rune"
    using find_last_unclosed_fence [of ?r ?s m] assms(6) s(1) by (simp add: u_def)
  have h: "int (length ?h) + 7 \<le> maxLen" "CHR 0x0A \<notin> set ?h" "u + int (length ?h) \<le> ?i"
    using header_bounds [OF _ assms(4,6) fence] assms(3) by (simp_all add: tidy_def)
  have inner: "?inner = ?s + maxLen - 5" using assms(5) by simp
  note emit = emit_chunk_progress [OF assms(3) _ s(4)]
  have inside: "tidy maxLen (split_inside st ?h e) \<and> rest_length (split_inside st ?h e) < rest_length st"
    if "?s + int (length ?h) + 2 \<le> e" "e \<le> ?inner" for e
    by (rule split_inside_progress [OF assms(3) h(1,2) that(1)]) (use that(2) in simp)
  show ?thesis
  proof (cases "m > ?i + 20")
    case True
    have "?s + int (length ?h) + 2 \<le> (if ?b > ?i then ?b else ?inner) \<and> (if ?b > ?i then ?b else ?inner) \<le> ?inner"
    proof (cases "?b > ?i")
      case better: True
      then have "?s < ?b" using u(1) h(3) by linarith
      from better_end [OF s(1,2) _ this] s(3) inner have "m \<le> ?b" unfolding m_def by linarith
      moreover have "?b < ?inner" using find_last_found [OF s(1), of "\<lambda>c. c = CHR 0x0A" ?r ?inner 200] \<open>?s < ?b\<close>
        unfolding find_last_newline_in_range_def by linarith
      ultimately show ?thesis using better True u(1) h(3) by (simp only: if_True) linarith
    next
      case False
      moreover have "?s + int (length ?h) + 2 \<le> ?inner" using True u(1) h(3) m(2) s(3) inner by linarith
      ultimately show ?thesis by (simp only: if_False) simp
    qed
    then show ?thesis
      using inside True unfolding split_unclosed_def Let_def by (simp only: if_True)
  next
    case False
    have "?s + int (length ?h) + 2 \<le> ?inner" using h(1) inner by linarith
    then show ?thesis using False inside emit assms(4) unfolding split_unclosed_def Let_def by auto
  qed
qed

lemma split_round_progress:
  assumes "tidy maxLen st" and "10 \<le> maxLen" and "maxLen < int (length (ss_runes st)) - ss_start st"
  shows "tidy maxLen (split_round maxLen st) \<and> rest_length (split_round maxLen st) < rest_length st"
proof -
  have "ss_start st < int (length (ss_runes st))" "0 < maxLen" using assms(2,3) by linarith+
  then show ?thesis
    using emit_chunk_progress [OF assms(1)] split_unclosed_progress [OF assms]
    unfolding split_round_def Let_def by auto
qed

lemma split_loop_ends:
  assumes "tidy maxLen st" and "10 \<le> maxLen" and "rest_length st < fuel"
  shows "\<exists>ms. split_loop fuel maxLen st = Some ms"
  using assms(1,3)
proof (induction fuel arbitrary: st)
  case (Suc fuel)
  show ?case
  proof (cases "maxLen < int (length (ss_runes st)) - ss_start st")
    case True
    note round = split_round_progress [OF Suc.prems(1) assms(2) True]
    have "rest_length (split_round maxLen st) < fuel" using round Suc.prems(2) by linarith
    from Suc.IH [OF conjunct1 [OF round] this] show ?thesis using True assms(2) by (simp add: Let_def)
  qed (simp add: Let_def)
qed simp

lemma split_message_ends:
  assumes "10 \<le> maxLen" and "short_fences maxLen content" and "length content < fuel"
  shows "\<exists>ms. split_message fuel content maxLen = Some ms \<and> list_all (\<lambda>m. int (length m) \<le> maxLen) ms"
proof -
  let ?st = "\<lparr>ss_runes = content, ss_start = 0, ss_messages = []\<rparr>"
  obtain ms where "split_loop fuel maxLen ?st = Some ms"
    using split_loop_ends [of maxLen ?st fuel] assms by (auto simp: tidy_def rest_length_def)
  moreover from split_loop_fitting [OF this] assms(1) have "list_all (\<lambda>m. int (length m) \<le> maxLen) ms" by (simp add: fitting_def)
  ultimately show ?thesis using assms(1) by (simp add: split_message_def)
qed

section \<open>Properties\<close>

text \<open>Property C19: For a limit of at least ten and a text in which every line that holds a fence is, from the fence on,
  at least seven characters shorter than the limit, the splitter ends, within one more round than the text has
  characters, and no chunk is longer than the limit, the code fences it injected included. (Without the condition it may
  not end: \<open>split_message_long_fence_diverges\<close>.)\<close>

theorem split_message_fits:
  assumes "10 \<le> maxLen" and "short_fences maxLen content" and "length content < fuel"
  shows "\<exists>ms. split_message fuel content maxLen = Some ms \<and> list_all (\<lambda>m. int (length m) \<le> maxLen) ms"
  by (rule split_message_ends [OF assms])

definition fenced_sample :: string where
  "fenced_sample = replicate 3 fence_rune @ ''js'' @ CHR 0x0A # replicate 40 CHR ''a'' @ CHR 0x0A # replicate 3 fence_rune"

theorem split_message_fits_witness:
  "\<exists>ms. split_message 51 fenced_sample 44 = Some ms \<and> 1 < length ms \<and> list_all (\<lambda>m. int (length m) \<le> 44) ms"
proof -
  have "map_option length (split_message 51 fenced_sample 44) = Some 2" by code_simp
  moreover have "short_fences 44 fenced_sample" "length fenced_sample < 51" by code_simp+
  then have "\<exists>ms. split_message 51 fenced_sample 44 = Some ms \<and> list_all (\<lambda>m. int (length m) \<le> 44) ms"
    by (intro split_message_fits) simp_all
  ultimately show ?thesis by auto
qed

text \<open>Property C24: text without code fences is split in at most as many rounds as it has
  characters, into non-empty chunks that fit, and nothing but the white space between two
  chunks is lost: the text is the chunks with a run of white space after each.\<close>

theorem split_message_plain:
  assumes "0 < maxLen" and "\<not> has_fence content" and "length content < fuel"
  shows "\<exists>ms gaps. split_message fuel content maxLen = Some ms
    \<and> list_all (\<lambda>m. m \<noteq> [] \<and> int (length m) \<le> maxLen) ms
    \<and> length gaps = length ms \<and> list_all (list_all split_space) gaps \<and> rejoin ms gaps = content"
proof -
  let ?st = "\<lparr>ss_runes = content, ss_start = 0, ss_messages = []\<rparr>"
  obtain ms gaps where r: "split_loop fuel maxLen ?st = Some ms" "length gaps = length ms"
    "list_all (list_all split_space) gaps" "rejoin ms gaps = content" "list_all (\<lambda>m. m \<noteq> []) ms"
    using split_loop_plain [OF assms(1), of ?st fuel "[]"] assms(2,3) by (auto simp: rejoin_def)
  moreover have "list_all (\<lambda>m. int (length m) \<le> maxLen) ms"
    by (rule split_loop_fitting [OF r(1) _ assms(1)]) (simp add: fitting_def)
  ultimately have "split_message fuel content maxLen = Some ms \<and> list_all (\<lambda>m. m \<noteq> [] \<and> int (length m) \<le> maxLen) ms
    \<and> length gaps = length ms \<and> list_all (list_all split_space) gaps \<and> rejoin ms gaps = content"
    using assms(1) by (simp add: split_message_def list_all_iff)
  then show ?thesis by blast
qed

theorem split_message_plain_witness:
  "split_message 12 ''hello world'' 6 = Some [''hel'', ''lo'', ''world'']
   \<and> (\<exists>ms gaps. split_message 12 ''hello world'' 6 = Some ms
    \<and> list_all (\<lambda>m. m \<noteq> [] \<and> int (length m) \<le> 6) ms
    \<and> length gaps = length ms \<and> list_all (list_all split_space) gaps \<and> rejoin ms gaps = ''hello world'')"
proof -
  have "split_message 12 ''hello world'' 6 = Some [''hel'', ''lo'', ''world'']" by code_simp
  moreover have "\<not> has_fence ''hello world''" by code_simp
  ultimately show ?thesis using split_message_plain [of 6 "''hello world''" 12] by simp
qed

text \<open>a message that opens a code block with a line at least as long as the limit,
  and does not end there, is never split: every round emits a chunk and puts the whole line
  back in front of the rest, so no number of rounds is enough.\<close>

theorem split_message_long_fence_diverges:
  assumes "5 \<le> maxLen" and "maxLen \<le> int n" and "c \<noteq> fence_rune" and "\<not> is_space c"
    and "rest \<noteq> []" and "\<not> is_space (last rest)"
  shows "split_message fuel (long_fence n c rest) maxLen = None"
  using assms split_loop_long_fence [OF assms, of "\<lparr>ss_runes = long_fence n c rest, ss_start = 0, ss_messages = []\<rparr>" fuel]
  by (simp add: split_message_def)

theorem split_message_long_fence_diverges_witness:
  "\<forall>fuel. split_message fuel (long_fence 2500 CHR ''x'' (replicate 3 fence_rune)) 2000 = None"
  by (intro allI, rule split_message_long_fence_diverges) (simp_all add: fence_rune_def is_space_def)

end
