(* ===== verification/Rate_Limit.thy ===== *)
theory Rate_Limit
  imports Complex_Main Prelude
begin

text \<open>
  Package \<open>pkg/ratelimit\<close>: the token bucket of a user (\<open>ratelimit.go\<close>), the limiter with its
  plans and its optional persistence, the SQLite store (\<open>sqlite_store.go\<close>), and the decision of the HTTP middleware (\<open>middleware.go\<close>). A
  \<open>float64\<close> is a rational number: rounding of floating point is not modelled. The clock is
  an argument of each operation. A \<open>rate_limits\<close> table is the map from its primary key to
  the other columns.
\<close>

section \<open>Buckets\<close>

record tier_config =
  tc_requests_per_minute :: rat
  tc_burst_size :: int
  tc_daily_limit :: int

record bucket =
  bk_tokens :: rat
  bk_last_time :: time
  bk_rate :: rat
  bk_burst :: int
  bk_daily :: int
  bk_day_count :: int
  bk_day_start :: time

record bucket_state =
  bs_tokens :: rat
  bs_last_time :: time
  bs_day_count :: int
  bs_day_start :: time

definition seconds :: "duration \<Rightarrow> rat" where
  "seconds d = of_int d / 1000000000"

definition truncate_day :: "time \<Rightarrow> time" where
  "truncate_day t = t div day * day"

text \<open>The refill that \<open>allow\<close>, \<open>retryAfter\<close> and \<open>snapshot\<close> begin with.\<close>

definition refill :: "bucket \<Rightarrow> time \<Rightarrow> bucket" where
  "refill b now =
     (let elapsed = seconds (now - bk_last_time b) in
      if elapsed > 0 then
        let tokens = bk_tokens b + elapsed * bk_rate b in
        b\<lparr>bk_tokens := (if tokens > of_int (bk_burst b) then of_int (bk_burst b) else tokens),
          bk_last_time := now\<rparr>
      else b)"

definition daily_reset :: "bucket \<Rightarrow> time \<Rightarrow> bucket" where
  "daily_reset b now =
     (if bk_daily b > 0 \<and> now - bk_day_start b \<ge> day
      then b\<lparr>bk_day_count := 0, bk_day_start := truncate_day now\<rparr> else b)"

definition bucket_allow :: "bucket \<Rightarrow> time \<Rightarrow> bool \<times> bucket" where
  "bucket_allow b0 now =
     (let b = daily_reset (refill b0 now) now in
      if bk_daily b > 0 \<and> bk_day_count b \<ge> bk_daily b then (False, b)
      else if bk_tokens b < 1 then (False, b)
      else (True, b\<lparr>bk_tokens := bk_tokens b - 1, bk_day_count := bk_day_count b + 1\<rparr>))"

definition bucket_retry_after :: "bucket \<Rightarrow> time \<Rightarrow> duration" where
  "bucket_retry_after b now =
     (let tokens = bk_tokens (refill b now) in
      if tokens \<ge> 1 then
        if bk_daily b > 0 \<and> bk_day_count b \<ge> bk_daily b then
          let remaining = bk_day_start b + day - now in
          if remaining < 0 then 0 else remaining
        else 0
      else
        let deficit = 1 - tokens in \<lfloor>deficit / bk_rate b * 1000000000\<rfloor>)"

definition bucket_snapshot :: "bucket \<Rightarrow> time \<Rightarrow> bucket_state \<times> bucket" where
  "bucket_snapshot b now =
     (let b = refill b now in
      (\<lparr>bs_tokens = bk_tokens b, bs_last_time = bk_last_time b, bs_day_count = bk_day_count b,
        bs_day_start = bk_day_start b\<rparr>, b))"

section \<open>The limiter\<close>

datatype rl_error = ErrRateLimited | ErrInvalidPlan | ErrStore

datatype load_result = Loaded string bucket_state | LoadNotFound | LoadFailed

text \<open>What the limiter calls of \<open>RateLimitStore\<close>; \<open>None\<close> is a failed write. The time is the
  clock reading \<open>LoadBucket\<close> may fall back to.\<close>

record 's store_ops =
  so_save :: "'s \<Rightarrow> string \<Rightarrow> string \<Rightarrow> bucket_state \<Rightarrow> 's option"
  so_load :: "'s \<Rightarrow> string \<Rightarrow> time \<Rightarrow> load_result"
  so_delete :: "'s \<Rightarrow> string \<Rightarrow> 's option"

record 's limiter =
  lm_buckets :: "string \<Rightarrow> bucket option"
  lm_tiers :: "string \<Rightarrow> tier_config option"
  lm_plans :: "string \<Rightarrow> string option"
  lm_store :: "'s option"

definition default_tier_configs :: "string \<Rightarrow> tier_config option" where
  "default_tier_configs = map_of
     [(''free'', \<lparr>tc_requests_per_minute = 10, tc_burst_size = 15, tc_daily_limit = 500\<rparr>),
      (''starter'', \<lparr>tc_requests_per_minute = 30, tc_burst_size = 50, tc_daily_limit = 5000\<rparr>),
      (''pro'', \<lparr>tc_requests_per_minute = 60, tc_burst_size = 100, tc_daily_limit = 50000\<rparr>),
      (''enterprise'', \<lparr>tc_requests_per_minute = 120, tc_burst_size = 200, tc_daily_limit = 0\<rparr>)]"

definition new_limiter :: "(string \<Rightarrow> tier_config option) option \<Rightarrow> 's limiter" where
  "new_limiter tiers = \<lparr>lm_buckets = Map.empty,
     lm_tiers = (case tiers of None \<Rightarrow> default_tier_configs | Some t \<Rightarrow> t),
     lm_plans = Map.empty, lm_store = None\<rparr>"

definition new_limiter_with_store :: "(string \<Rightarrow> tier_config option) option \<Rightarrow> 's \<Rightarrow> 's limiter" where
  "new_limiter_with_store tiers store = (new_limiter tiers)\<lparr>lm_store := Some store\<rparr>"

definition fresh_bucket :: "tier_config \<Rightarrow> time \<Rightarrow> bucket" where
  "fresh_bucket cfg now =
     \<lparr>bk_tokens = of_int (tc_burst_size cfg), bk_last_time = now,
      bk_rate = tc_requests_per_minute cfg / 60, bk_burst = tc_burst_size cfg,
      bk_daily = tc_daily_limit cfg, bk_day_count = 0, bk_day_start = truncate_day now\<rparr>"

definition set_user_plan :: "'s limiter \<Rightarrow> string \<Rightarrow> string \<Rightarrow> time \<Rightarrow> rl_error option \<times> 's limiter" where
  "set_user_plan l userID tier now =
     (case lm_tiers l tier of
        None \<Rightarrow> (Some ErrInvalidPlan, l)
      | Some cfg \<Rightarrow>
          (None, l\<lparr>lm_plans := (lm_plans l)(userID \<mapsto> tier),
                   lm_buckets := (lm_buckets l)(userID \<mapsto> fresh_bucket cfg now)\<rparr>))"

definition restored_bucket :: "tier_config \<Rightarrow> bucket_state \<Rightarrow> bucket" where
  "restored_bucket cfg state =
     \<lparr>bk_tokens = bs_tokens state, bk_last_time = bs_last_time state,
      bk_rate = tc_requests_per_minute cfg / 60, bk_burst = tc_burst_size cfg,
      bk_daily = tc_daily_limit cfg, bk_day_count = bs_day_count state,
      bk_day_start = bs_day_start state\<rparr>"

definition restore_user :: "'s store_ops \<Rightarrow> 's limiter \<Rightarrow> string \<Rightarrow> time \<Rightarrow> rl_error option \<times> 's limiter" where
  "restore_user ops l userID now =
     (case lm_store l of
        None \<Rightarrow> (None, l)
      | Some s \<Rightarrow>
          (case so_load ops s userID now of
             LoadNotFound \<Rightarrow> (None, l)
           | LoadFailed \<Rightarrow> (Some ErrStore, l)
           | Loaded tier state \<Rightarrow>
               (case lm_tiers l tier of
                  None \<Rightarrow> (Some ErrInvalidPlan, l)
                | Some cfg \<Rightarrow>
                    (None, l\<lparr>lm_plans := (lm_plans l)(userID \<mapsto> tier),
                             lm_buckets := (lm_buckets l)(userID \<mapsto> restored_bucket cfg state)\<rparr>))))"

definition get_bucket :: "'s store_ops \<Rightarrow> 's limiter \<Rightarrow> string \<Rightarrow> time \<Rightarrow> (rl_error + bucket) \<times> 's limiter" where
  "get_bucket ops l userID now =
     (case lm_buckets l userID of
        Some b \<Rightarrow> (Inr b, l)
      | None \<Rightarrow>
          if lm_store l \<noteq> None then
            (case restore_user ops l userID now of
               (None, l) \<Rightarrow>
                 (case lm_buckets l userID of Some b \<Rightarrow> (Inr b, l) | None \<Rightarrow> (Inl ErrInvalidPlan, l))
             | (Some _, l) \<Rightarrow> (Inl ErrInvalidPlan, l))
          else (Inl ErrInvalidPlan, l))"

text \<open>\<open>AllowAt\<close>; \<open>Allow\<close> is the same at the current time.\<close>

definition allow_at :: "'s store_ops \<Rightarrow> 's limiter \<Rightarrow> string \<Rightarrow> time \<Rightarrow> rl_error option \<times> 's limiter" where
  "allow_at ops l userID now =
     (case get_bucket ops l userID now of
        (Inl err, l) \<Rightarrow> (Some err, l)
      | (Inr b, l) \<Rightarrow>
          (case bucket_allow b now of (ok, b') \<Rightarrow>
             (if ok then None else Some ErrRateLimited,
              l\<lparr>lm_buckets := (lm_buckets l)(userID \<mapsto> b')\<rparr>)))"

definition limiter_retry_after :: "'s store_ops \<Rightarrow> 's limiter \<Rightarrow> string \<Rightarrow> time \<Rightarrow> (rl_error + duration) \<times> 's limiter" where
  "limiter_retry_after ops l userID now =
     (case get_bucket ops l userID now of
        (Inl err, l) \<Rightarrow> (Inl err, l)
      | (Inr b, l) \<Rightarrow> (Inr (bucket_retry_after b now), l))"

record rl_status =
  rs_tier :: string
  rs_remaining :: int
  rs_limit :: int
  rs_daily_remaining :: int
  rs_daily_limit :: int
  rs_retry_after :: duration
  rs_reset_at :: time

definition tier_of :: "'s limiter \<Rightarrow> string \<Rightarrow> tier_config" where
  "tier_of l tier = (case lm_tiers l tier of Some cfg \<Rightarrow> cfg
     | None \<Rightarrow> \<lparr>tc_requests_per_minute = 0, tc_burst_size = 0, tc_daily_limit = 0\<rparr>)"

definition get_status :: "'s limiter \<Rightarrow> string \<Rightarrow> time \<Rightarrow> rl_error + rl_status" where
  "get_status l userID now =
     (case (lm_plans l userID, lm_buckets l userID) of
        (Some tier, Some b) \<Rightarrow>
          Inr \<lparr>rs_tier = tier, rs_remaining = \<lfloor>bk_tokens b\<rfloor>, rs_limit = tc_burst_size (tier_of l tier),
            rs_daily_remaining = (if bk_daily b > 0 then max 0 (bk_daily b - bk_day_count b) else 0),
            rs_daily_limit = tc_daily_limit (tier_of l tier),
            rs_retry_after = bucket_retry_after b now, rs_reset_at = bk_day_start b + day\<rparr>
      | _ \<Rightarrow> Inl ErrInvalidPlan)"

text \<open>The loop of \<open>Persist\<close> over the users in the order the map yields them.\<close>

fun persist_users :: "'s store_ops \<Rightarrow> string list \<Rightarrow> time \<Rightarrow> 's \<Rightarrow> 's limiter \<Rightarrow> rl_error option \<times> 's limiter" where
  "persist_users ops [] now s l = (None, l\<lparr>lm_store := Some s\<rparr>)"
| "persist_users ops (u # us) now s l =
     (case lm_buckets l u of
        None \<Rightarrow> persist_users ops us now s l
      | Some b \<Rightarrow>
          (case bucket_snapshot b now of (state, b') \<Rightarrow>
             let tier = (case lm_plans l u of None \<Rightarrow> [] | Some t \<Rightarrow> t);
                 l = l\<lparr>lm_buckets := (lm_buckets l)(u \<mapsto> b')\<rparr>
             in case so_save ops s u tier state of
                  None \<Rightarrow> (Some ErrStore, l\<lparr>lm_store := Some s\<rparr>)
                | Some s' \<Rightarrow> persist_users ops us now s' l))"

definition persist :: "'s store_ops \<Rightarrow> string list \<Rightarrow> 's limiter \<Rightarrow> time \<Rightarrow> rl_error option \<times> 's limiter" where
  "persist ops order l now =
     (case lm_store l of None \<Rightarrow> (None, l) | Some s \<Rightarrow> persist_users ops order now s l)"

definition remove_user :: "'s store_ops \<Rightarrow> 's limiter \<Rightarrow> string \<Rightarrow> rl_error option \<times> 's limiter" where
  "remove_user ops l userID =
     (let l = l\<lparr>lm_buckets := (lm_buckets l)(userID := None), lm_plans := (lm_plans l)(userID := None)\<rparr> in
      case lm_store l of
        None \<Rightarrow> (None, l)
      | Some s \<Rightarrow>
          (case so_delete ops s userID of None \<Rightarrow> (Some ErrStore, l) | Some s' \<Rightarrow> (None, l\<lparr>lm_store := Some s'\<rparr>)))"

definition user_count :: "'s limiter \<Rightarrow> nat" where
  "user_count l = card (dom (lm_buckets l))"

section \<open>The SQLite store\<close>

text \<open>A text column with a time: written in RFC 3339 by the code, or something that does not parse.\<close>

datatype time_text = Rfc3339 time | Unparsable

record sqlite_row =
  sr_tier :: string
  sr_tokens :: rat
  sr_last_time :: time_text
  sr_day_count :: int
  sr_day_start :: time_text

type_synonym sqlite_table = "string \<Rightarrow> sqlite_row option"

definition parse_time :: "time_text \<Rightarrow> time option" where
  "parse_time t = (case t of Rfc3339 u \<Rightarrow> Some u | Unparsable \<Rightarrow> None)"

definition sqlite_save_bucket :: "sqlite_table \<Rightarrow> string \<Rightarrow> string \<Rightarrow> bucket_state \<Rightarrow> sqlite_table option" where
  "sqlite_save_bucket tbl userID tier state =
     Some (tbl(userID \<mapsto> \<lparr>sr_tier = tier, sr_tokens = bs_tokens state,
       sr_last_time = Rfc3339 (bs_last_time state), sr_day_count = bs_day_count state,
       sr_day_start = Rfc3339 (bs_day_start state)\<rparr>))"

definition sqlite_load_bucket :: "sqlite_table \<Rightarrow> string \<Rightarrow> time \<Rightarrow> load_result" where
  "sqlite_load_bucket tbl userID now =
     (case tbl userID of
        None \<Rightarrow> LoadNotFound
      | Some r \<Rightarrow>
          let lt = (case parse_time (sr_last_time r) of None \<Rightarrow> now | Some t \<Rightarrow> t);
              ds = (case parse_time (sr_day_start r) of None \<Rightarrow> truncate_day now | Some t \<Rightarrow> t)
          in Loaded (sr_tier r) \<lparr>bs_tokens = sr_tokens r, bs_last_time = lt,
               bs_day_count = sr_day_count r, bs_day_start = ds\<rparr>)"

definition sqlite_delete_bucket :: "sqlite_table \<Rightarrow> string \<Rightarrow> sqlite_table option" where
  "sqlite_delete_bucket tbl userID = Some (tbl(userID := None))"

section \<open>The HTTP middleware\<close>

datatype verdict = Served | Rejected int

text \<open>\<open>Middleware\<close>: only \<open>ErrRateLimited\<close> keeps a request from the next handler; the
  number is the \<open>Retry-After\<close> header.\<close>

definition middleware :: "'s store_ops \<Rightarrow> 's limiter \<Rightarrow> string \<Rightarrow> time \<Rightarrow> verdict \<times> 's limiter" where
  "middleware ops l userID now =
     (if userID = [] then (Served, l)
      else
        case allow_at ops l userID now of
          (Some ErrRateLimited, l) \<Rightarrow>
            (case limiter_retry_after ops l userID now of
               (Inl _, l) \<Rightarrow> (Rejected 1, l)
             | (Inr retryAfter, l) \<Rightarrow>
                 let retrySeconds = \<lfloor>seconds retryAfter\<rfloor> + 1
                 in (Rejected (if retrySeconds < 1 then 1 else retrySeconds), l))
        | (_, l) \<Rightarrow> (Served, l))"

section \<open>Buckets: lemmas\<close>

text \<open>A bucket the limiter builds: counters in range.\<close>

definition valid_bucket :: "bucket \<Rightarrow> bool" where
  "valid_bucket b \<longleftrightarrow> 0 \<le> bk_tokens b \<and> bk_tokens b \<le> of_int (bk_burst b) \<and> 0 \<le> bk_rate b
     \<and> 0 \<le> bk_day_count b \<and> (0 < bk_daily b \<longrightarrow> bk_day_count b \<le> bk_daily b)
     \<and> bk_day_start b mod day = 0"

lemma seconds_pos [simp]: "0 < seconds d \<longleftrightarrow> 0 < d"
  by (simp add: seconds_def)

lemma truncate_day_bounds: "truncate_day t \<le> t" "t < truncate_day t + day" "truncate_day t mod day = 0"
  unfolding truncate_day_def minus_mod_eq_div_mult [symmetric]
  using pos_mod_sign [of day t] pos_mod_bound [of day t] by (simp_all add: mod_diff_left_eq)

lemma truncate_day_eq:
  assumes "d mod day = 0" and "d \<le> t" and "t < d + day"
  shows "truncate_day t = d"
proof -
  have "(t - d) mod day = (t mod day - d mod day) mod day" by (rule mod_diff_eq [symmetric])
  then have "t mod day = t - d" using assms by simp
  then show ?thesis by (simp add: truncate_day_def minus_mod_eq_div_mult [symmetric])
qed

lemma next_day:
  assumes "d mod day = 0" and "e mod day = 0" and "d < e"
  shows "d + day \<le> e"
proof -
  have "day dvd e - d" using assms(1,2) by (simp add: mod_eq_0_iff_dvd)
  then show ?thesis using assms(3) zdvd_imp_le [of day "e - d"] by simp
qed

lemma refill_fields [simp]:
  "bk_rate (refill b now) = bk_rate b" "bk_burst (refill b now) = bk_burst b"
  "bk_daily (refill b now) = bk_daily b" "bk_day_count (refill b now) = bk_day_count b"
  "bk_day_start (refill b now) = bk_day_start b"
  "bk_last_time (refill b now) = max (bk_last_time b) now"
  by (simp_all add: refill_def Let_def max_def)

lemma refill_tokens:
  "bk_tokens (refill b now) = (if bk_last_time b < now
     then min (of_int (bk_burst b)) (bk_tokens b + seconds (now - bk_last_time b) * bk_rate b) else bk_tokens b)"
  by (simp add: refill_def Let_def min_def)

lemma daily_reset_fields [simp]:
  "bk_tokens (daily_reset b now) = bk_tokens b" "bk_rate (daily_reset b now) = bk_rate b"
  "bk_burst (daily_reset b now) = bk_burst b" "bk_daily (daily_reset b now) = bk_daily b"
  "bk_last_time (daily_reset b now) = bk_last_time b"
  by (simp_all add: daily_reset_def)

lemma bucket_allow_fields [simp]:
  "bk_rate (snd (bucket_allow b now)) = bk_rate b" "bk_burst (snd (bucket_allow b now)) = bk_burst b"
  "bk_daily (snd (bucket_allow b now)) = bk_daily b"
  "bk_last_time (snd (bucket_allow b now)) = max (bk_last_time b) now"
  by (simp_all add: bucket_allow_def Let_def)

lemma valid_refill: "valid_bucket b \<Longrightarrow> valid_bucket (refill b now)"
  by (auto simp: valid_bucket_def refill_tokens seconds_def)

lemma valid_daily_reset: "valid_bucket b \<Longrightarrow> valid_bucket (daily_reset b now)"
  by (auto simp: valid_bucket_def daily_reset_def truncate_day_bounds)

lemma valid_bucket_allow: "valid_bucket b \<Longrightarrow> valid_bucket (snd (bucket_allow b now))"
proof -
  assume "valid_bucket b"
  then have "valid_bucket (daily_reset (refill b now) now)" by (intro valid_daily_reset valid_refill)
  then show ?thesis by (auto simp: bucket_allow_def Let_def valid_bucket_def)
qed

lemma valid_fresh_bucket:
  assumes "0 \<le> tc_requests_per_minute cfg" and "0 \<le> tc_burst_size cfg"
  shows "valid_bucket (fresh_bucket cfg now)"
  using assms by (simp add: valid_bucket_def fresh_bucket_def truncate_day_bounds)

text \<open>Tokens less what time has paid for: a request never raises it, and an admitted one lowers it by one.\<close>

definition token_credit :: "bucket \<Rightarrow> rat" where
  "token_credit b = bk_tokens b - bk_rate b * seconds (bk_last_time b)"

lemma token_credit_allow:
  "token_credit (snd (bucket_allow b now)) + (if fst (bucket_allow b now) then 1 else 0) \<le> token_credit b"
proof -
  have "token_credit (refill b now) \<le> token_credit b"
    by (auto simp: token_credit_def refill_tokens seconds_def max_def field_simps min_def)
  moreover have "token_credit (daily_reset c now) = token_credit c" for c
    by (simp add: token_credit_def)
  ultimately show ?thesis
    by (auto simp: bucket_allow_def Let_def token_credit_def)
qed

text \<open>A sequence of requests against one bucket, and how many of them are admitted.\<close>

fun bucket_run :: "bucket \<Rightarrow> time list \<Rightarrow> bool list \<times> bucket" where
  "bucket_run b [] = ([], b)"
| "bucket_run b (t # ts) =
     (case bucket_allow b t of (ok, b') \<Rightarrow> case bucket_run b' ts of (oks, b'') \<Rightarrow> (ok # oks, b''))"

definition admitted :: "bool list \<Rightarrow> nat" where
  "admitted oks = length (filter id oks)"

lemma admitted_simps [simp]: "admitted [] = 0" "admitted (ok # oks) = (if ok then 1 else 0) + admitted oks"
  by (simp_all add: admitted_def)

lemma bucket_run_simps:
  "fst (bucket_run b (t # ts)) = fst (bucket_allow b t) # fst (bucket_run (snd (bucket_allow b t)) ts)"
  "snd (bucket_run b (t # ts)) = snd (bucket_run (snd (bucket_allow b t)) ts)"
  by (simp_all split: prod.split)

lemma bucket_run_credit:
  "token_credit (snd (bucket_run b ts)) + rat_of_nat (admitted (fst (bucket_run b ts))) \<le> token_credit b
   \<and> bk_rate (snd (bucket_run b ts)) = bk_rate b
   \<and> (valid_bucket b \<longrightarrow> valid_bucket (snd (bucket_run b ts)))
   \<and> bk_last_time (snd (bucket_run b ts)) = fold max ts (bk_last_time b)"
proof (induction ts arbitrary: b)
  case (Cons t ts)
  have "fold max (t # ts) (bk_last_time b) = fold max ts (max (bk_last_time b) t)" by (simp add: max.commute)
  then show ?case
    using Cons.IH [of "snd (bucket_allow b t)"] token_credit_allow [of b t] valid_bucket_allow [of b t]
    unfolding bucket_run_simps by (auto split: if_splits)
qed simp

lemma fold_max_le: "x \<le> T \<Longrightarrow> list_all (\<lambda>t. t \<le> T) ts \<Longrightarrow> fold max ts x \<le> (T :: int)"
  by (induction ts arbitrary: x) auto

lemma bucket_run_bound:
  assumes "valid_bucket b" and "list_all (\<lambda>t. t \<le> T) ts" and "bk_last_time b \<le> T"
  shows "rat_of_nat (admitted (fst (bucket_run b ts))) \<le> bk_tokens b + bk_rate b * seconds (T - bk_last_time b)"
proof -
  let ?e = "snd (bucket_run b ts)"
  have "bk_last_time ?e \<le> T"
    using bucket_run_credit [of b ts] fold_max_le [OF assms(3,2)] by simp
  then have "bk_rate b * seconds (bk_last_time ?e) \<le> bk_rate b * seconds T"
    using assms(1) by (intro mult_left_mono) (auto simp: valid_bucket_def seconds_def)
  moreover have "0 \<le> bk_tokens ?e" using bucket_run_credit [of b ts] assms(1) by (simp add: valid_bucket_def)
  moreover have "seconds (T - bk_last_time b) = seconds T - seconds (bk_last_time b)"
    by (simp add: seconds_def diff_divide_distrib)
  moreover have r: "bk_rate ?e = bk_rate b" using bucket_run_credit [of b ts] by blast
  moreover have "token_credit ?e + rat_of_nat (admitted (fst (bucket_run b ts))) \<le> token_credit b"
    using bucket_run_credit [of b ts] by blast
  ultimately show ?thesis by (simp add: token_credit_def right_diff_distrib)
qed

text \<open>One UTC day: at most the daily limit.\<close>

definition day_allowance :: "bucket \<Rightarrow> time \<Rightarrow> int" where
  "day_allowance b d = (if bk_day_start b < d then bk_daily b else bk_daily b - bk_day_count b)"

lemma day_allowance_allow:
  assumes "valid_bucket b" and "0 < bk_daily b" and "d mod day = 0" and "d \<le> t" and "t < d + day"
  shows "day_allowance (snd (bucket_allow b t)) d + (if fst (bucket_allow b t) then 1 else 0) \<le> day_allowance b d"
proof -
  have d: "truncate_day t = d"
    using assms(3-5) by (rule truncate_day_eq)
  show ?thesis
  proof (cases "t - bk_day_start b \<ge> day")
    case True
    then have "bk_day_start b < d" using assms(5) by linarith
    with True d assms(2) show ?thesis
      by (auto simp: day_allowance_def bucket_allow_def Let_def daily_reset_def)
  next
    case False
    have "\<not> bk_day_start b < d"
      using next_day [of "bk_day_start b" d] assms(1,3,4) False by (auto simp: valid_bucket_def)
    with False show ?thesis by (auto simp: day_allowance_def bucket_allow_def Let_def daily_reset_def)
  qed
qed

lemma bucket_run_day_bound:
  assumes "valid_bucket b" and "0 < bk_daily b" and "d mod day = 0"
    and "list_all (\<lambda>t. d \<le> t \<and> t < d + day) ts"
  shows "int (admitted (fst (bucket_run b ts))) \<le> day_allowance b d"
  using assms
proof (induction ts arbitrary: b)
  case Nil
  then show ?case by (auto simp: day_allowance_def valid_bucket_def)
next
  case (Cons t ts)
  then have "int (admitted (fst (bucket_run (snd (bucket_allow b t)) ts))) \<le> day_allowance (snd (bucket_allow b t)) d"
    by (intro Cons.IH) (simp_all add: valid_bucket_allow)
  with day_allowance_allow [of b d t] Cons.prems show ?case
    unfolding bucket_run_simps by (auto split: if_splits)
qed

lemma day_allowance_le: "valid_bucket b \<Longrightarrow> day_allowance b d \<le> bk_daily b"
  by (auto simp: day_allowance_def valid_bucket_def)

lemma refill_refill:
  assumes "bk_last_time b \<le> now" and "now \<le> t" and "0 \<le> bk_rate b"
  shows "refill (refill b now) t = refill b t"
proof (cases "bk_last_time b = now \<or> now = t")
  case True
  then show ?thesis by (auto simp: refill_def Let_def)
next
  case False
  then have lt: "bk_last_time b < now" "now < t" using assms(1,2) by auto
  have "seconds (t - bk_last_time b) * bk_rate b = seconds (now - bk_last_time b) * bk_rate b + seconds (t - now) * bk_rate b"
    by (simp add: seconds_def flip: add_divide_distrib of_int_add distrib_right)
  moreover have "0 \<le> seconds (t - now) * bk_rate b" using assms(3) lt by (simp add: seconds_def)
  moreover have "min B (min B a + y) = min B (a + y)" if "0 \<le> y" for B a y :: rat
    using that by (simp add: min_def)
  ultimately have "bk_tokens (refill (refill b now) t) = bk_tokens (refill b t)"
    using lt by (simp add: refill_tokens max_def add.assoc [symmetric])
  then show ?thesis using lt by (intro bucket.equality) auto
qed

lemma bucket_allow_iff:
  assumes "bk_daily b \<le> 0 \<or> bk_day_count b < bk_daily b"
  shows "fst (bucket_allow b t) \<longleftrightarrow> 1 \<le> bk_tokens (refill b t)"
  using assms by (auto simp: bucket_allow_def Let_def daily_reset_def)

section \<open>Requests of many users\<close>

fun limiter_run :: "'s store_ops \<Rightarrow> 's limiter \<Rightarrow> (string \<times> time) list \<Rightarrow> (string \<times> bool) list \<times> 's limiter" where
  "limiter_run ops l [] = ([], l)"
| "limiter_run ops l ((u, t) # rs) =
     (case allow_at ops l u t of (err, l') \<Rightarrow>
        case limiter_run ops l' rs of (oks, l'') \<Rightarrow> ((u, err = None) # oks, l''))"

definition served_count :: "string \<Rightarrow> (string \<times> bool) list \<Rightarrow> nat" where
  "served_count u oks = length (filter (\<lambda>(v, ok). v = u \<and> ok) oks)"

lemma allow_at_own:
  "lm_buckets l u = Some b \<Longrightarrow> allow_at ops l u t =
     (if fst (bucket_allow b t) then None else Some ErrRateLimited,
      l\<lparr>lm_buckets := (lm_buckets l)(u \<mapsto> snd (bucket_allow b t))\<rparr>)"
  by (simp add: allow_at_def get_bucket_def split: prod.split)

lemma allow_at_bucket:
  "fst (get_bucket ops l u t) = Inr b \<Longrightarrow>
     fst (allow_at ops l u t) = (if fst (bucket_allow b t) then None else Some ErrRateLimited)"
  by (auto simp: allow_at_def split: prod.splits)

lemma restore_user_other [frame_simps]:
  "v \<noteq> u \<Longrightarrow> lm_buckets (snd (restore_user ops l v t)) u = lm_buckets l u"
  by (simp add: restore_user_def split: option.split load_result.split)

lemma get_bucket_other [frame_simps]:
  assumes "v \<noteq> u"
  shows "lm_buckets (snd (get_bucket ops l v t)) u = lm_buckets l u"
  using restore_user_other [OF assms, of ops l t] by (auto simp: get_bucket_def split: option.splits prod.splits)

lemma allow_at_other [frame_simps]:
  assumes "v \<noteq> u"
  shows "lm_buckets (snd (allow_at ops l v t)) u = lm_buckets l u"
  using get_bucket_other [OF assms, of ops l t] assms
  by (auto simp: allow_at_def split: prod.splits sum.splits)

lemma limiter_run_user:
  assumes "lm_buckets l u = Some b"
  shows "served_count u (fst (limiter_run ops l reqs))
    = admitted (fst (bucket_run b (map snd (filter (\<lambda>(v, t). v = u) reqs))))"
  using assms
proof (induction reqs arbitrary: l b)
  case (Cons r reqs)
  obtain v t where r: "r = (v, t)" by fastforce
  obtain err l' where a: "allow_at ops l v t = (err, l')" by fastforce
  have l': "lm_buckets l' u = Some (if v = u then snd (bucket_allow b t) else b)"
    using a Cons.prems allow_at_own [OF Cons.prems, of ops t] allow_at_other [of v u ops l t] by auto
  have "v = u \<Longrightarrow> (err = None) = fst (bucket_allow b t)"
    using a Cons.prems allow_at_own [OF Cons.prems, of ops t] by (auto split: if_splits)
  with Cons.IH [OF l'] a r show ?case
    by (auto simp: served_count_def admitted_def bucket_run_simps split: prod.split)
qed (simp add: served_count_def)

section \<open>The contract of a store\<close>

locale rate_limit_store =
  fixes save :: "'s \<Rightarrow> string \<Rightarrow> string \<Rightarrow> bucket_state \<Rightarrow> 's option"
    and load :: "'s \<Rightarrow> string \<Rightarrow> time \<Rightarrow> load_result"
    and remove :: "'s \<Rightarrow> string \<Rightarrow> 's option"
  assumes load_save: "save s u tier st = Some s' \<Longrightarrow> load s' u t = Loaded tier st"
    and load_save_other: "save s u tier st = Some s' \<Longrightarrow> v \<noteq> u \<Longrightarrow> load s' v t = load s v t"
    and load_remove: "remove s u = Some s' \<Longrightarrow> load s' u t = LoadNotFound"
    and load_remove_other: "remove s u = Some s' \<Longrightarrow> v \<noteq> u \<Longrightarrow> load s' v t = load s v t"
begin

abbreviation ops where
  "ops \<equiv> \<lparr>so_save = save, so_load = load, so_delete = remove\<rparr>"

lemma persist_users_other:
  assumes "persist_users ops us now s l = (None, l')" and "u \<notin> set us"
  shows "lm_tiers l' = lm_tiers l \<and> lm_plans l' = lm_plans l
    \<and> (\<exists>s'. lm_store l' = Some s' \<and> (\<forall>t. load s' u t = load s u t))"
  using assms
proof (induction us arbitrary: s l)
  case (Cons v us)
  then show ?case
    using load_save_other [of s v] by (fastforce simp: Let_def split: option.splits prod.splits)
qed auto

lemma persist_users_saves:
  assumes "persist_users ops us now s l = (None, l')" and "distinct us" and "u \<in> set us"
    and "lm_buckets l u = Some b" and "lm_plans l u = Some tier"
  shows "lm_tiers l' = lm_tiers l
    \<and> (\<exists>s'. lm_store l' = Some s' \<and> (\<forall>t. load s' u t = Loaded tier (fst (bucket_snapshot b now))))"
  using assms
proof (induction us arbitrary: s l)
  case (Cons v us)
  show ?case
  proof (cases "v = u")
    case True
    with Cons.prems obtain s' where s': "save s u tier (fst (bucket_snapshot b now)) = Some s'"
      and p: "persist_users ops us now s' (l\<lparr>lm_buckets := (lm_buckets l)(u \<mapsto> snd (bucket_snapshot b now))\<rparr>) = (None, l')"
      by (auto simp: Let_def split: option.splits prod.splits)
    from persist_users_other [OF p, of u] load_save [OF s'] True Cons.prems(2) show ?thesis by auto
  next
    case False
    with Cons.prems(1) obtain s2 l2 where p: "persist_users ops us now s2 l2 = (None, l')"
      and l2: "lm_buckets l2 u = lm_buckets l u" "lm_plans l2 = lm_plans l" "lm_tiers l2 = lm_tiers l"
      by (fastforce simp: Let_def split: option.splits prod.splits)
    from Cons.IH [OF p] Cons.prems l2 False show ?thesis by simp
  qed
qed simp

lemma restart_restores:
  assumes "persist ops order l now = (None, l')" and "lm_store l = Some s"
    and "distinct order" and "u \<in> set order"
    and "lm_buckets l u = Some b" and "lm_plans l u = Some tier" and "lm_tiers l tier = Some cfg"
    and "lm_store l' = Some s'"
    and cfg: "bk_rate b = tc_requests_per_minute cfg / 60" "bk_burst b = tc_burst_size cfg" "bk_daily b = tc_daily_limit cfg"
  shows "fst (get_bucket ops (new_limiter_with_store (Some (lm_tiers l)) s') u t) = Inr (refill b now)"
proof -
  have p: "persist_users ops order now s l = (None, l')" using assms(1,2) by (simp add: persist_def)
  have ld: "load s' u t = Loaded tier (fst (bucket_snapshot b now))"
    using persist_users_saves [OF p assms(3,4,5,6)] assms(8) by auto
  have "restored_bucket cfg (fst (bucket_snapshot b now)) = refill b now"
    using cfg by (intro bucket.equality) (simp_all add: restored_bucket_def bucket_snapshot_def Let_def)
  then show ?thesis
    using ld assms(7)
    by (simp add: get_bucket_def restore_user_def new_limiter_with_store_def new_limiter_def)
qed

lemma removed_user_forgotten:
  assumes "remove_user ops l u = (None, l')"
  shows "fst (get_bucket ops l' u t) = Inl ErrInvalidPlan"
  using assms load_remove [of _ u]
  by (auto simp: remove_user_def Let_def get_bucket_def restore_user_def split: option.splits)

end

lemma sqlite_load_save:
  "sqlite_save_bucket s u tier st = Some s' \<Longrightarrow> sqlite_load_bucket s' u t = Loaded tier st"
  by (auto simp: sqlite_save_bucket_def sqlite_load_bucket_def parse_time_def Let_def)

lemma sqlite_load_delete: "sqlite_delete_bucket s u = Some s' \<Longrightarrow> sqlite_load_bucket s' u t = LoadNotFound"
  by (auto simp: sqlite_delete_bucket_def sqlite_load_bucket_def)

lemma sqlite_frame [frame_simps]:
  "sqlite_save_bucket s u tier st = Some s' \<Longrightarrow> v \<noteq> u \<Longrightarrow> sqlite_load_bucket s' v t = sqlite_load_bucket s v t"
  "sqlite_delete_bucket s u = Some s' \<Longrightarrow> v \<noteq> u \<Longrightarrow> sqlite_load_bucket s' v t = sqlite_load_bucket s v t"
  by (auto simp: sqlite_save_bucket_def sqlite_load_bucket_def sqlite_delete_bucket_def)

interpretation sqlite: rate_limit_store sqlite_save_bucket sqlite_load_bucket sqlite_delete_bucket
  by unfold_locales (auto simp: sqlite_load_save sqlite_load_delete frame_simps)

definition sqlite_ops :: "sqlite_table store_ops" where
  "sqlite_ops = \<lparr>so_save = sqlite_save_bucket, so_load = sqlite_load_bucket, so_delete = sqlite_delete_bucket\<rparr>"

section \<open>Properties\<close>

text \<open>Property C27: the rate bound: however the requests of all users are interleaved, from the
  moment a plan is set until any later time \<open>T\<close> a user is admitted at most the burst plus the
  configured rate times the elapsed time.\<close>

theorem admitted_within_rate:
  assumes "set_user_plan l u tier t0 = (None, l')" and "lm_tiers l tier = Some cfg"
    and "0 \<le> tc_requests_per_minute cfg" and "0 \<le> tc_burst_size cfg"
    and "t0 \<le> T" and "list_all (\<lambda>(v, t). v = u \<longrightarrow> t \<le> T) reqs"
  shows "rat_of_nat (served_count u (fst (limiter_run ops l' reqs)))
    \<le> of_int (tc_burst_size cfg) + tc_requests_per_minute cfg / 60 * seconds (T - t0)"
proof -
  let ?b = "fresh_bucket cfg t0"
  have b: "lm_buckets l' u = Some ?b" using assms(1,2) by (auto simp: set_user_plan_def)
  have "list_all (\<lambda>t. t \<le> T) (map snd (filter (\<lambda>(v, t). v = u) reqs))"
    using assms(6) by (auto simp: list_all_iff)
  from bucket_run_bound [OF valid_fresh_bucket [OF assms(3,4)] this, of t0] assms(5)
  show ?thesis unfolding limiter_run_user [OF b] by (simp add: fresh_bucket_def)
qed

definition stored_limiter :: "sqlite_table limiter" where
  "stored_limiter = new_limiter_with_store None Map.empty"

lemma stored_limiter_free:
  "lm_tiers stored_limiter ''free'' = Some \<lparr>tc_requests_per_minute = 10, tc_burst_size = 15, tc_daily_limit = 500\<rparr>"
  by (simp add: stored_limiter_def new_limiter_with_store_def new_limiter_def default_tier_configs_def)

definition free_user_limiter :: "sqlite_table limiter" where
  "free_user_limiter = snd (set_user_plan stored_limiter ''u'' ''free'' 0)"

lemma free_user_plan: "set_user_plan stored_limiter ''u'' ''free'' 0 = (None, free_user_limiter)"
  by (simp add: free_user_limiter_def set_user_plan_def stored_limiter_free)

lemma free_user_fields:
  "lm_store free_user_limiter = Some Map.empty" "lm_plans free_user_limiter ''u'' = Some ''free''"
  "lm_tiers free_user_limiter = lm_tiers stored_limiter"
  "lm_buckets free_user_limiter ''u''
     = Some (fresh_bucket \<lparr>tc_requests_per_minute = 10, tc_burst_size = 15, tc_daily_limit = 500\<rparr> 0)"
  using stored_limiter_free
  by (simp_all add: free_user_limiter_def set_user_plan_def)
     (simp add: stored_limiter_def new_limiter_with_store_def)

theorem admitted_within_rate_witness:
  "rat_of_nat (served_count ''u'' (fst (limiter_run sqlite_ops free_user_limiter [(''u'', 0), (''v'', 7), (''u'', 5)])))
    \<le> of_int 15 + 10 / 60 * seconds (9 - 0)"
  using admitted_within_rate [OF free_user_plan stored_limiter_free, of 9 "[(''u'', 0), (''v'', 7), (''u'', 5)]" sqlite_ops]
  by simp

text \<open>the daily bound: among the requests a user makes within one UTC day, at most
  the daily limit of the plan are admitted, however many other users interleave.\<close>

theorem admitted_within_day:
  assumes "lm_buckets l u = Some b" and "valid_bucket b" and "0 < bk_daily b" and "d mod day = 0"
    and "list_all (\<lambda>(v, t). v = u \<longrightarrow> d \<le> t \<and> t < d + day) reqs"
  shows "int (served_count u (fst (limiter_run ops l reqs))) \<le> bk_daily b"
proof -
  have "list_all (\<lambda>t. d \<le> t \<and> t < d + day) (map snd (filter (\<lambda>(v, t). v = u) reqs))"
    using assms(5) by (auto simp: list_all_iff)
  from bucket_run_day_bound [OF assms(2-4) this] day_allowance_le [OF assms(2), of d]
  show ?thesis unfolding limiter_run_user [OF assms(1)] by simp
qed

definition tiny_tier :: tier_config where
  "tiny_tier = \<lparr>tc_requests_per_minute = 60, tc_burst_size = 5, tc_daily_limit = 1\<rparr>"

definition tiny_limiter :: "sqlite_table limiter" where
  "tiny_limiter = snd (set_user_plan (new_limiter (Some [''tiny'' \<mapsto> tiny_tier])) ''u'' ''tiny'' 0)"

lemma tiny_bucket: "lm_buckets tiny_limiter ''u'' = Some (fresh_bucket tiny_tier 0)"
  by (simp add: tiny_limiter_def set_user_plan_def new_limiter_def)

theorem admitted_within_day_witness:
  "int (served_count ''u'' (fst (limiter_run sqlite_ops tiny_limiter [(''u'', 0), (''u'', second), (''u'', hour)])))
     \<le> bk_daily (fresh_bucket tiny_tier 0)
   \<and> served_count ''u'' (fst (limiter_run sqlite_ops tiny_limiter [(''u'', 0), (''u'', second), (''u'', hour)])) = 1"
proof
  have "valid_bucket (fresh_bucket tiny_tier 0)" by (rule valid_fresh_bucket) (simp_all add: tiny_tier_def)
  then show "int (served_count ''u'' (fst (limiter_run sqlite_ops tiny_limiter [(''u'', 0), (''u'', second), (''u'', hour)])))
     \<le> bk_daily (fresh_bucket tiny_tier 0)"
    by (rule admitted_within_day [OF tiny_bucket _ _ _, of 0]) (simp_all add: fresh_bucket_def tiny_tier_def)
qed code_simp

text \<open>the daily limit is not a rolling 24-hour window: it is reset at UTC midnight,
  so a user can be admitted more often than the daily limit within a single second.\<close>

theorem daily_limit_not_rolling:
  "\<exists>l reqs. lm_buckets l ''u'' = Some (fresh_bucket tiny_tier 0)
     \<and> map snd reqs = [day - 1, day] \<and> map fst reqs = [''u'', ''u'']
     \<and> bk_daily (fresh_bucket tiny_tier 0) < int (served_count ''u'' (fst (limiter_run sqlite_ops l reqs)))"
proof (intro exI conjI)
  show "bk_daily (fresh_bucket tiny_tier 0)
      < int (served_count ''u'' (fst (limiter_run sqlite_ops tiny_limiter [(''u'', day - 1), (''u'', day)])))"
    by code_simp
qed (simp_all add: tiny_bucket)

text \<open>the announced waiting time is exact: for a bucket short of a token and within
  its daily limit, a request is refused at every instant before the announced time and
  admitted at every instant after it.\<close>

theorem retry_after_exact:
  assumes "bk_last_time b \<le> now" and "bk_tokens (refill b now) < 1" and "0 < bk_rate b" and "1 \<le> bk_burst b"
    and "bk_daily b \<le> 0 \<or> bk_day_count b < bk_daily b" and "now \<le> t"
  shows "(t < now + bucket_retry_after b now \<longrightarrow> \<not> fst (bucket_allow b t))
    \<and> (now + bucket_retry_after b now < t \<longrightarrow> fst (bucket_allow b t))"
proof -
  let ?r = "bk_rate b" and ?x = "bk_tokens (refill b now)"
  define q where "q = (1 - ?x) / ?r * 1000000000"
  have d: "bucket_retry_after b now = \<lfloor>q\<rfloor>" using assms(2) by (simp add: bucket_retry_after_def q_def Let_def)
  have tok: "1 \<le> bk_tokens (refill b t) \<longleftrightarrow> q \<le> of_int (t - now)"
  proof (cases "now < t")
    case True
    have "bk_tokens (refill b t) = min (of_int (bk_burst b)) (?x + seconds (t - now) * ?r)"
      using refill_refill [of b now t] assms(1,3) True refill_tokens [of "refill b now" t] by (simp add: max_def split: if_splits)
    then have "1 \<le> bk_tokens (refill b t) \<longleftrightarrow> 1 - ?x \<le> seconds (t - now) * ?r"
      using assms(4) by (auto simp: min_def)
    also have "\<dots> \<longleftrightarrow> (1 - ?x) / ?r \<le> seconds (t - now)" using assms(3) by (simp add: pos_divide_le_eq)
    also have "\<dots> \<longleftrightarrow> q \<le> of_int (t - now)" by (simp add: q_def seconds_def field_simps)
    finally show ?thesis .
  next
    case False
    then have "t = now" using assms(6) by simp
    moreover have "0 < q" using assms(2,3) by (simp add: q_def)
    ultimately show ?thesis using assms(2) by simp
  qed
  have "t - now < \<lfloor>q\<rfloor> \<Longrightarrow> of_int (t - now) < q" by (simp only: less_floor_iff)
  moreover have "\<lfloor>q\<rfloor> < t - now \<Longrightarrow> q \<le> of_int (t - now)" by (simp add: floor_less_iff)
  ultimately show ?thesis using tok d unfolding bucket_allow_iff [OF assms(5)] by auto
qed

definition drained_bucket :: bucket where
  "drained_bucket = \<lparr>bk_tokens = 0, bk_last_time = 0, bk_rate = 1 / 2, bk_burst = 3, bk_daily = 0,
     bk_day_count = 3, bk_day_start = 0\<rparr>"

theorem retry_after_exact_witness:
  "bucket_retry_after drained_bucket second = second
   \<and> \<not> fst (bucket_allow drained_bucket (2 * second - 1)) \<and> fst (bucket_allow drained_bucket (2 * second + 1))"
proof -
  have d: "bucket_retry_after drained_bucket second = second"
    by (simp add: bucket_retry_after_def refill_tokens drained_bucket_def seconds_def Let_def)
  have "bk_tokens (refill drained_bucket second) < 1"
    by (simp add: refill_tokens drained_bucket_def seconds_def)
  from retry_after_exact [OF _ this, of "2 * second - 1"] retry_after_exact [OF _ this, of "2 * second + 1"] d
  show ?thesis by (simp add: drained_bucket_def)
qed

text \<open>limits survive a restart: after the limiter has been persisted to SQLite, a
  new process with the same plans makes the decision on a user's next request that the old
  one would have made.\<close>

theorem persisted_limits_survive_restart:
  assumes "persist sqlite_ops order l now = (None, l')" and "lm_store l = Some s"
    and "distinct order" and "u \<in> set order"
    and "lm_buckets l u = Some b" and "lm_plans l u = Some tier" and "lm_tiers l tier = Some cfg"
    and "lm_store l' = Some s'"
    and "bk_rate b = tc_requests_per_minute cfg / 60" and "bk_burst b = tc_burst_size cfg"
    and "bk_daily b = tc_daily_limit cfg" and "valid_bucket b"
    and "bk_last_time b \<le> now" and "now \<le> t"
  shows "fst (allow_at sqlite_ops (new_limiter_with_store (Some (lm_tiers l)) s') u t) = fst (allow_at sqlite_ops l u t)"
proof -
  have "fst (get_bucket sqlite_ops (new_limiter_with_store (Some (lm_tiers l)) s') u t) = Inr (refill b now)"
    using sqlite.restart_restores [of order l now l' s u b tier cfg s' t] assms(1-11) by (simp add: sqlite_ops_def)
  moreover have "bucket_allow (refill b now) t = bucket_allow b t"
    using refill_refill [OF assms(13,14)] assms(12) by (simp add: bucket_allow_def valid_bucket_def)
  ultimately show ?thesis
    using allow_at_bucket [of sqlite_ops "new_limiter_with_store (Some (lm_tiers l)) s'" u t] assms(5)
    by (simp add: allow_at_own)
qed

definition free_table :: sqlite_table where
  "free_table = the (lm_store (snd (persist sqlite_ops [''u''] free_user_limiter second)))"

theorem persisted_limits_survive_restart_witness:
  "fst (allow_at sqlite_ops (new_limiter_with_store (Some (lm_tiers free_user_limiter)) free_table) ''u'' minute)
     = fst (allow_at sqlite_ops free_user_limiter ''u'' minute)"
proof -
  let ?cfg = "\<lparr>tc_requests_per_minute = 10, tc_burst_size = 15, tc_daily_limit = 500\<rparr>"
  note l = free_user_fields(1,2,4) stored_limiter_free [folded free_user_fields(3)]
  have p: "persist sqlite_ops [''u''] free_user_limiter second
      = (None, snd (persist sqlite_ops [''u''] free_user_limiter second))"
    "lm_store (snd (persist sqlite_ops [''u''] free_user_limiter second)) = Some free_table"
    using l by (simp_all add: free_table_def persist_def sqlite_ops_def sqlite_save_bucket_def Let_def split: prod.splits)
  have v: "valid_bucket (fresh_bucket ?cfg 0)" by (rule valid_fresh_bucket) simp_all
  show ?thesis
    by (rule persisted_limits_survive_restart [OF p(1) l(1) _ _ l(3,2,4) p(2) _ _ _ v])
       (simp_all add: fresh_bucket_def)
qed

end
