(* ===== verification/Auth_Rate_Limit.thy ===== *)
theory Auth_Rate_Limit
  imports Prelude
begin

text \<open>
  \<open>pkg/middleware/authratelimit.go\<close>: the fixed-window limit on attempts per client address in
  front of login, registration and password reset. The clock is an argument, one sweep of
  the background goroutine is an operation, and \<open>net.ParseIP\<close> and \<open>net.SplitHostPort\<close> are
  arguments of \<open>client_ip\<close>.
\<close>

record auth_limit_config =
  al_max_attempts :: int
  al_window :: duration
  al_cleanup_interval :: duration

record ip_entry =
  ie_count :: int
  ie_window_at :: time

type_synonym auth_limiter = "string \<Rightarrow> ip_entry option"

definition default_auth_limit_config :: auth_limit_config where
  "default_auth_limit_config =
     \<lparr>al_max_attempts = 10, al_window = 15 * minute, al_cleanup_interval = 5 * minute\<rparr>"

definition auth_allow :: "auth_limit_config \<Rightarrow> auth_limiter \<Rightarrow> string \<Rightarrow> time \<Rightarrow> bool \<times> auth_limiter" where
  "auth_allow cfg rl ip now =
     (case rl ip of
        None \<Rightarrow> (True, rl(ip \<mapsto> \<lparr>ie_count = 1, ie_window_at = now\<rparr>))
      | Some entry \<Rightarrow>
          if now - ie_window_at entry \<ge> al_window cfg
          then (True, rl(ip \<mapsto> entry\<lparr>ie_count := 1, ie_window_at := now\<rparr>))
          else
            let entry = entry\<lparr>ie_count := ie_count entry + 1\<rparr>
            in (ie_count entry \<le> al_max_attempts cfg, rl(ip \<mapsto> entry)))"

text \<open>One tick of \<open>cleanup\<close>.\<close>

definition auth_cleanup :: "auth_limit_config \<Rightarrow> auth_limiter \<Rightarrow> time \<Rightarrow> auth_limiter" where
  "auth_cleanup cfg rl now =
     (\<lambda>ip. case rl ip of
        None \<Rightarrow> None
      | Some entry \<Rightarrow> if now - ie_window_at entry \<ge> al_window cfg then None else Some entry)"

text \<open>\<open>clientIP\<close>: \<open>valid_ip\<close> is \<open>net.ParseIP(s) != nil\<close>, \<open>host_of\<close> the host of
  \<open>net.SplitHostPort\<close>.\<close>

definition client_ip :: "(string \<Rightarrow> bool) \<Rightarrow> (string \<Rightarrow> string option) \<Rightarrow> string \<Rightarrow> string \<Rightarrow> string" where
  "client_ip valid_ip host_of xff remoteAddr =
     (let remote = (case host_of remoteAddr of None \<Rightarrow> remoteAddr | Some host \<Rightarrow> host) in
      if xff \<noteq> [] then
        if valid_ip xff then xff
        else
          case index_byte CHR '','' xff of
            Some i \<Rightarrow> if valid_ip (take i xff) then take i xff else remote
          | None \<Rightarrow> remote
      else remote)"

text \<open>\<open>Middleware\<close>: whether the request reaches the next handler.\<close>

definition auth_middleware ::
  "(string \<Rightarrow> bool) \<Rightarrow> (string \<Rightarrow> string option) \<Rightarrow> auth_limit_config \<Rightarrow> auth_limiter
     \<Rightarrow> string \<Rightarrow> string \<Rightarrow> time \<Rightarrow> bool \<times> auth_limiter" where
  "auth_middleware valid_ip host_of cfg rl xff remoteAddr now =
     auth_allow cfg rl (client_ip valid_ip host_of xff remoteAddr) now"

section \<open>Runs\<close>

datatype auth_event = Attempt string time | Sweep time

fun auth_run :: "auth_limit_config \<Rightarrow> auth_limiter \<Rightarrow> auth_event list \<Rightarrow> (string \<times> bool) list \<times> auth_limiter" where
  "auth_run cfg rl [] = ([], rl)"
| "auth_run cfg rl (Attempt ip now # evs) =
     (case auth_allow cfg rl ip now of (ok, rl') \<Rightarrow>
        case auth_run cfg rl' evs of (oks, rl'') \<Rightarrow> ((ip, ok) # oks, rl''))"
| "auth_run cfg rl (Sweep now # evs) = auth_run cfg (auth_cleanup cfg rl now) evs"

definition passed :: "string \<Rightarrow> (string \<times> bool) list \<Rightarrow> nat" where
  "passed ip oks = length (filter (\<lambda>(i, ok). i = ip \<and> ok) oks)"

definition attempts_of :: "string \<Rightarrow> auth_event list \<Rightarrow> nat" where
  "attempts_of ip evs = length (filter (\<lambda>ev. \<exists>t. ev = Attempt ip t) evs)"

fun event_before :: "time \<Rightarrow> auth_event \<Rightarrow> bool" where
  "event_before T (Attempt ip t) = (t < T)"
| "event_before T (Sweep t) = (t < T)"

lemma passed_simps [simp]:
  "passed ip [] = 0" "passed ip ((i, ok) # oks) = (if i = ip \<and> ok then 1 else 0) + passed ip oks"
  by (simp_all add: passed_def)

lemma attempts_of_simps [simp]:
  "attempts_of ip [] = 0" "attempts_of ip (Attempt i t # evs) = (if i = ip then 1 else 0) + attempts_of ip evs"
  "attempts_of ip (Sweep t # evs) = attempts_of ip evs"
  by (auto simp: attempts_of_def)

lemma auth_allow_other [frame_simps]: "i \<noteq> ip \<Longrightarrow> snd (auth_allow cfg rl i t) ip = rl ip"
  by (auto simp: auth_allow_def Let_def split: option.split)

lemma auth_run_open_window:
  assumes "rl ip = Some \<lparr>ie_count = c, ie_window_at = w\<rparr>" and "list_all (event_before (w + al_window cfg)) evs"
  shows "int (passed ip (fst (auth_run cfg rl evs))) = max 0 (min (int (attempts_of ip evs)) (al_max_attempts cfg - c))"
  using assms
proof (induction evs arbitrary: rl c)
  case (Cons ev evs)
  show ?case
  proof (cases ev)
    case (Attempt i t)
    obtain ok rl' where a: "auth_allow cfg rl i t = (ok, rl')" by fastforce
    show ?thesis
    proof (cases "i = ip")
      case True
      with a Attempt Cons.prems have "rl' ip = Some \<lparr>ie_count = c + 1, ie_window_at = w\<rparr>"
        and ok: "ok \<longleftrightarrow> c + 1 \<le> al_max_attempts cfg"
        by (auto simp: auth_allow_def Let_def)
      from Cons.IH [of rl' "c + 1"] this(1) Cons.prems(2) a Attempt True ok show ?thesis
        by (auto split: prod.split)
    next
      case False
      with a auth_allow_other [of i ip cfg rl t] Cons.prems have "rl' ip = Some \<lparr>ie_count = c, ie_window_at = w\<rparr>" by simp
      from Cons.IH [of rl' c] this Cons.prems(2) a Attempt False show ?thesis by (auto split: prod.split)
    qed
  next
    case (Sweep t)
    with Cons.prems have "auth_cleanup cfg rl t ip = Some \<lparr>ie_count = c, ie_window_at = w\<rparr>"
      by (simp add: auth_cleanup_def)
    from Cons.IH [of "auth_cleanup cfg rl t" c] this Cons.prems(2) Sweep show ?thesis by simp
  qed
qed simp

section \<open>Properties\<close>

text \<open>within one window of an address exactly the first \<open>MaxAttempts\<close> attempts
  get through, whatever other addresses do and whenever the sweeper runs: if the address has
  no open window at \<open>t0\<close>, then of its attempts from \<open>t0\<close> until the window closes exactly
  the smaller of their number and \<open>MaxAttempts\<close> are admitted.\<close>

theorem auth_attempts_per_window:
  assumes "\<forall>e. rl ip = Some e \<longrightarrow> ie_window_at e + al_window cfg \<le> t0"
    and "list_all (event_before (t0 + al_window cfg)) evs" and "1 \<le> al_max_attempts cfg"
  shows "int (passed ip (fst (auth_run cfg rl (Attempt ip t0 # evs))))
    = min (int (attempts_of ip (Attempt ip t0 # evs))) (al_max_attempts cfg)"
proof -
  obtain rl' where a: "auth_allow cfg rl ip t0 = (True, rl')" "rl' ip = Some \<lparr>ie_count = 1, ie_window_at = t0\<rparr>"
    using assms(1) by (cases "rl ip") (auto simp: auth_allow_def)
  from auth_run_open_window [of rl' ip 1 t0 cfg evs] a(2) assms(2) a(1) assms(3) show ?thesis
    by (auto split: prod.split)
qed

theorem auth_attempts_per_window_witness:
  "int (passed ''1.2.3.4'' (fst (auth_run default_auth_limit_config Map.empty
     (Attempt ''1.2.3.4'' 0 # Sweep minute # replicate 12 (Attempt ''1.2.3.4'' (2 * minute))))))
    = min (int (attempts_of ''1.2.3.4'' (Attempt ''1.2.3.4'' 0 # Sweep minute # replicate 12 (Attempt ''1.2.3.4'' (2 * minute)))))
        (al_max_attempts default_auth_limit_config)"
  by (rule auth_attempts_per_window) (simp_all add: default_auth_limit_config_def list_all_iff)

text \<open>the limit can be stepped around from one connection: a client that sends a
  different valid address in \<open>X-Forwarded-For\<close> with every request is never refused, because
  the header is trusted whether or not a proxy set it.\<close>

theorem forwarded_for_evades_limit:
  assumes "valid_ip xff" and "xff \<noteq> []" and "rl xff = None"
  shows "fst (auth_middleware valid_ip host_of cfg rl xff remoteAddr now)
    \<and> (\<forall>other. other \<noteq> xff \<longrightarrow> snd (auth_middleware valid_ip host_of cfg rl xff remoteAddr now) other = rl other)"
  using assms by (simp add: auth_middleware_def client_ip_def auth_allow_def)

definition blocked_limiter :: auth_limiter where
  "blocked_limiter = [''10.0.0.1'' \<mapsto> \<lparr>ie_count = 10, ie_window_at = 0\<rparr>]"

theorem forwarded_for_evades_limit_witness:
  "\<not> fst (auth_middleware (\<lambda>s. s = ''9.9.9.9'') Some default_auth_limit_config blocked_limiter [] ''10.0.0.1'' second)
   \<and> fst (auth_middleware (\<lambda>s. s = ''9.9.9.9'') Some default_auth_limit_config blocked_limiter ''9.9.9.9'' ''10.0.0.1'' second)"
proof
  show "\<not> fst (auth_middleware (\<lambda>s. s = ''9.9.9.9'') Some default_auth_limit_config blocked_limiter [] ''10.0.0.1'' second)"
    by (simp add: auth_middleware_def client_ip_def auth_allow_def blocked_limiter_def default_auth_limit_config_def)
  show "fst (auth_middleware (\<lambda>s. s = ''9.9.9.9'') Some default_auth_limit_config blocked_limiter ''9.9.9.9'' ''10.0.0.1'' second)"
    using forwarded_for_evades_limit [of "\<lambda>s. s = ''9.9.9.9''" "''9.9.9.9''" blocked_limiter] by (simp add: blocked_limiter_def)
qed

end
