(* ===== verification/Billing.thy ===== *)
theory Billing
  imports Complex_Main Prelude "HOL-Library.List_Lexorder" "HOL-Library.Product_Lexorder" "HOL-Library.Multiset"
begin

text \<open>
  \<open>pkg/billing/plans.go\<close> and \<open>pkg/billing/subscription.go\<close>: the plan catalogue and the
  subscriptions table. The string types \<open>PlanID\<close>, \<open>SubscriptionStatus\<close> and
  \<open>BillingInterval\<close> are datatypes with a constructor for any other string. A SQL table is
  the list of its rows in insertion order; where a query leaves the order of equal rows
  open, the earlier row is taken. The clock is an argument.
\<close>

section \<open>Plans\<close>

datatype plan_id = PlanFree | PlanStarter | PlanPro | PlanEnterprise | PlanOther string

datatype billing_interval = IntervalMonthly | IntervalYearly | IntervalNone | IntervalUnset | IntervalOther string

definition all_plan_ids :: "plan_id list" where
  "all_plan_ids = [PlanFree, PlanStarter, PlanPro, PlanEnterprise]"

fun valid_plan_id :: "plan_id \<Rightarrow> bool" where
  "valid_plan_id (PlanOther s) = False"
| "valid_plan_id _ = True"

record plan_limits =
  pl_max_agents :: int
  pl_max_messages_per_month :: int
  pl_max_tokens_per_month :: int
  pl_max_integrations :: int
  pl_max_storage_bytes :: int
  pl_max_team_members :: int
  pl_allowed_models :: "string list"
  pl_custom_skills :: bool
  pl_api_access :: string
  pl_rate_requests_per_minute :: rat
  pl_rate_burst_size :: int
  pl_rate_daily_limit :: int

record plan =
  plan_id :: plan_id
  plan_name :: string
  plan_description :: string
  plan_price_monthly :: int
  plan_price_yearly :: int
  plan_limits :: plan_limits
  plan_active :: bool
  plan_sort_order :: int

type_synonym catalogue = "plan_id \<Rightarrow> plan option"

definition free_plan :: plan where
  "free_plan = \<lparr>plan_id = PlanFree, plan_name = ''Free'', plan_description = ''Get started with the basics'',
     plan_price_monthly = 0, plan_price_yearly = 0,
     plan_limits = \<lparr>pl_max_agents = 1, pl_max_messages_per_month = 500, pl_max_tokens_per_month = 500000,
       pl_max_integrations = 1, pl_max_storage_bytes = 100 * 1024 * 1024, pl_max_team_members = 1,
       pl_allowed_models = [''gpt-4o-mini''], pl_custom_skills = False, pl_api_access = ''none'',
       pl_rate_requests_per_minute = 10, pl_rate_burst_size = 15, pl_rate_daily_limit = 500\<rparr>,
     plan_active = True, plan_sort_order = 0\<rparr>"

definition starter_plan :: plan where
  "starter_plan = \<lparr>plan_id = PlanStarter, plan_name = ''Starter'',
     plan_description = ''For individuals who need more power'',
     plan_price_monthly = 900, plan_price_yearly = 8640,
     plan_limits = \<lparr>pl_max_agents = 3, pl_max_messages_per_month = 5000, pl_max_tokens_per_month = 5000000,
       pl_max_integrations = 5, pl_max_storage_bytes = 1024 * 1024 * 1024, pl_max_team_members = 1,
       pl_allowed_models = [''gpt-4o'', ''gpt-4o-mini'', ''claude-haiku''], pl_custom_skills = False,
       pl_api_access = ''basic'', pl_rate_requests_per_minute = 30, pl_rate_burst_size = 50,
       pl_rate_daily_limit = 5000\<rparr>,
     plan_active = True, plan_sort_order = 1\<rparr>"

definition pro_plan :: plan where
  "pro_plan = \<lparr>plan_id = PlanPro, plan_name = ''Pro'',
     plan_description = ''For professionals and small teams'',
     plan_price_monthly = 2900, plan_price_yearly = 27840,
     plan_limits = \<lparr>pl_max_agents = 10, pl_max_messages_per_month = 50000, pl_max_tokens_per_month = 50000000,
       pl_max_integrations = 20, pl_max_storage_bytes = 10 * 1024 * 1024 * 1024, pl_max_team_members = 5,
       pl_allowed_models = [], pl_custom_skills = True, pl_api_access = ''full'',
       pl_rate_requests_per_minute = 60, pl_rate_burst_size = 100, pl_rate_daily_limit = 50000\<rparr>,
     plan_active = True, plan_sort_order = 2\<rparr>"

definition enterprise_plan :: plan where
  "enterprise_plan = \<lparr>plan_id = PlanEnterprise, plan_name = ''Enterprise'',
     plan_description = ''Custom pricing for large organisations'',
     plan_price_monthly = 0, plan_price_yearly = 0,
     plan_limits = \<lparr>pl_max_agents = 0, pl_max_messages_per_month = 0, pl_max_tokens_per_month = 0,
       pl_max_integrations = 0, pl_max_storage_bytes = 0, pl_max_team_members = 0,
       pl_allowed_models = [], pl_custom_skills = True, pl_api_access = ''full'',
       pl_rate_requests_per_minute = 120, pl_rate_burst_size = 200, pl_rate_daily_limit = 0\<rparr>,
     plan_active = True, plan_sort_order = 3\<rparr>"

definition default_plans :: catalogue where
  "default_plans = map_of [(PlanFree, free_plan), (PlanStarter, starter_plan), (PlanPro, pro_plan),
     (PlanEnterprise, enterprise_plan)]"

definition new_catalogue :: "catalogue option \<Rightarrow> catalogue" where
  "new_catalogue plans = (case plans of None \<Rightarrow> default_plans | Some p \<Rightarrow> p)"

definition catalogue_get :: "catalogue \<Rightarrow> plan_id \<Rightarrow> plan option" where
  "catalogue_get c i = c i"

definition catalogue_replace :: "catalogue \<Rightarrow> catalogue \<Rightarrow> catalogue" where
  "catalogue_replace c plans = plans"

definition catalogue_merge :: "catalogue \<Rightarrow> catalogue \<Rightarrow> catalogue" where
  "catalogue_merge c plans = c ++ plans"

text \<open>\<open>sortPlans\<close>: the inner loop swaps neighbours downwards from \<open>j\<close>.\<close>

definition plan_before :: "plan \<Rightarrow> plan \<Rightarrow> bool" where
  "plan_before p q \<longleftrightarrow> plan_sort_order p < plan_sort_order q
     \<or> plan_sort_order p = plan_sort_order q \<and> plan_name p < plan_name q"

fun sift_down :: "plan list \<Rightarrow> nat \<Rightarrow> plan list" where
  "sift_down plans 0 = plans"
| "sift_down plans (Suc j) =
     (if plan_before (plans ! Suc j) (plans ! j)
      then sift_down (plans[Suc j := plans ! j, j := plans ! Suc j]) j else plans)"

definition sort_plans :: "plan list \<Rightarrow> plan list" where
  "sort_plans plans = fold (\<lambda>i ps. sift_down ps i) [1..<length plans] plans"

text \<open>\<open>List\<close> and \<open>ListActive\<close>, given the plans in the order the range over the map yields them.\<close>

definition catalogue_list :: "plan list \<Rightarrow> plan list" where
  "catalogue_list ps = sort_plans ps"

definition catalogue_list_active :: "plan list \<Rightarrow> plan list" where
  "catalogue_list_active ps = filter plan_active (catalogue_list ps)"

definition is_unlimited :: "int \<Rightarrow> bool" where
  "is_unlimited v = (v = 0)"

text \<open>\<open>CheckLimit\<close>: \<open>None\<close> is no error, else the resource, usage and limit the error reports.\<close>

definition check_limit :: "string \<Rightarrow> int \<Rightarrow> int \<Rightarrow> (string \<times> int \<times> int) option" where
  "check_limit resource usage cap =
     (if cap = 0 then None else if usage \<ge> cap then Some (resource, usage, cap) else None)"

section \<open>Subscriptions\<close>

datatype sub_status = SubActive | SubTrialing | SubPastDue | SubCanceled | SubExpired | SubPaused
  | SubUnset | SubOther string

fun valid_subscription_status :: "sub_status \<Rightarrow> bool" where
  "valid_subscription_status SubUnset = False"
| "valid_subscription_status (SubOther s) = False"
| "valid_subscription_status _ = True"

text \<open>The zero \<open>time.Time\<close>, 1 January of year 1.\<close>

definition zero_time :: time where
  "zero_time = -62135596800 * second"

record subscription =
  sub_id :: string
  sub_user_id :: string
  sub_plan_id :: plan_id
  sub_status :: sub_status
  sub_interval :: billing_interval
  sub_period_start :: time
  sub_period_end :: time
  sub_cancel_at_period_end :: bool
  sub_stripe_customer_id :: string
  sub_stripe_sub_id :: string
  sub_created_at :: "time option"
  sub_updated_at :: time

definition sub_is_active :: "subscription \<Rightarrow> bool" where
  "sub_is_active s \<longleftrightarrow> sub_status s = SubActive \<or> sub_status s = SubTrialing \<or> sub_status s = SubPastDue"

datatype billing_error = BillNotFound | BillDuplicateID | BillInvalidStatus | BillInvalidPlan | BillEmptyID

type_synonym sub_table = "subscription list"

definition sub_created :: "subscription \<Rightarrow> time" where
  "sub_created s = (case sub_created_at s of None \<Rightarrow> 0 | Some t \<Rightarrow> t)"

definition sub_create :: "sub_table \<Rightarrow> subscription \<Rightarrow> time \<Rightarrow> billing_error + sub_table" where
  "sub_create tbl sub now =
     (if sub_id sub = [] then Inl BillEmptyID
      else if \<not> valid_plan_id (sub_plan_id sub) then Inl BillInvalidPlan
      else
        let sub = (if sub_status sub = SubUnset then sub\<lparr>sub_status := SubActive\<rparr> else sub) in
        if \<not> valid_subscription_status (sub_status sub) then Inl BillInvalidStatus
        else
          let sub = sub\<lparr>sub_created_at := (case sub_created_at sub of None \<Rightarrow> Some now | Some t \<Rightarrow> Some t),
                        sub_updated_at := now\<rparr> in
          if \<exists>r \<in> set tbl. sub_id r = sub_id sub then Inl BillDuplicateID
          else Inr (tbl @ [sub]))"

definition sub_get_by_id :: "sub_table \<Rightarrow> string \<Rightarrow> billing_error + subscription" where
  "sub_get_by_id tbl i =
     (case find (\<lambda>r. sub_id r = i) tbl of None \<Rightarrow> Inl BillNotFound | Some r \<Rightarrow> Inr r)"

text \<open>\<open>ORDER BY created_at DESC LIMIT 1\<close>.\<close>

fun latest_sub :: "sub_table \<Rightarrow> subscription option" where
  "latest_sub [] = None"
| "latest_sub (r # rs) =
     (case latest_sub rs of None \<Rightarrow> Some r | Some s \<Rightarrow> if sub_created s > sub_created r then Some s else Some r)"

definition sub_get_by_user :: "sub_table \<Rightarrow> string \<Rightarrow> billing_error + subscription" where
  "sub_get_by_user tbl userID =
     (case latest_sub (filter (\<lambda>r. sub_user_id r = userID) tbl) of None \<Rightarrow> Inl BillNotFound | Some r \<Rightarrow> Inr r)"

text \<open>The row after the \<open>UPDATE\<close>: every column but the id, the user and the creation time.\<close>

definition sub_assign :: "subscription \<Rightarrow> subscription \<Rightarrow> subscription" where
  "sub_assign sub r = r\<lparr>sub_plan_id := sub_plan_id sub, sub_status := sub_status sub,
     sub_interval := sub_interval sub, sub_period_start := sub_period_start sub,
     sub_period_end := sub_period_end sub, sub_cancel_at_period_end := sub_cancel_at_period_end sub,
     sub_stripe_customer_id := sub_stripe_customer_id sub, sub_stripe_sub_id := sub_stripe_sub_id sub,
     sub_updated_at := sub_updated_at sub\<rparr>"

definition sub_update :: "sub_table \<Rightarrow> subscription \<Rightarrow> time \<Rightarrow> billing_error + sub_table" where
  "sub_update tbl sub now =
     (if \<not> valid_subscription_status (sub_status sub) then Inl BillInvalidStatus
      else if \<not> valid_plan_id (sub_plan_id sub) then Inl BillInvalidPlan
      else
        let sub = sub\<lparr>sub_updated_at := now\<rparr> in
        if \<exists>r \<in> set tbl. sub_id r = sub_id sub
        then Inr (map (\<lambda>r. if sub_id r = sub_id sub then sub_assign sub r else r) tbl)
        else Inl BillNotFound)"

text \<open>\<open>ORDER BY created_at DESC\<close>: a stable insertion, latest first.\<close>

fun insert_desc :: "subscription \<Rightarrow> sub_table \<Rightarrow> sub_table" where
  "insert_desc r [] = [r]"
| "insert_desc r (s # ss) = (if sub_created s > sub_created r then s # insert_desc r ss else r # s # ss)"

definition sub_list_by_status :: "sub_table \<Rightarrow> sub_status \<Rightarrow> billing_error + sub_table" where
  "sub_list_by_status tbl status =
     (if \<not> valid_subscription_status status then Inl BillInvalidStatus
      else Inr (foldr insert_desc (filter (\<lambda>r. sub_status r = status) tbl) []))"

section \<open>Sorting the catalogue\<close>

definition plan_key :: "plan \<Rightarrow> int \<times> string" where
  "plan_key p = (plan_sort_order p, plan_name p)"

lemma plan_before_key: "plan_before p q \<longleftrightarrow> plan_key p < plan_key q"
  by (auto simp: plan_before_def plan_key_def)

lemma sift_down_append:
  "\<exists>front rear. ps = front @ rear \<and> sift_down (ps @ p # rest) (length ps) = front @ p # rear @ rest
     \<and> list_all (\<lambda>q. plan_key p < plan_key q) rear \<and> (front \<noteq> [] \<longrightarrow> plan_key (last front) \<le> plan_key p)"
proof (induction ps arbitrary: rest rule: rev_induct)
  case (snoc q ps)
  show ?case
  proof (cases "plan_before p q")
    case True
    have "sift_down ((ps @ [q]) @ p # rest) (length (ps @ [q])) = sift_down (ps @ p # q # rest) (length ps)"
      using True by (simp add: nth_append list_update_append)
    with snoc.IH [of "q # rest"] True show ?thesis
      by (force simp: plan_before_key)
  next
    case False
    then have "sift_down ((ps @ [q]) @ p # rest) (length (ps @ [q])) = (ps @ [q]) @ p # [] @ rest"
      by (simp add: nth_append)
    with False show ?thesis
      by (intro exI [of _ "ps @ [q]"] exI [of _ "[]"]) (simp add: plan_before_key not_less)
  qed
qed simp

lemma sift_down_sorted:
  assumes "sorted (map plan_key ps)"
  shows "\<exists>qs. sift_down (ps @ p # rest) (length ps) = qs @ rest \<and> length qs = Suc (length ps)
    \<and> mset qs = mset (ps @ [p]) \<and> sorted (map plan_key qs)"
proof -
  obtain front rear where fb: "ps = front @ rear" "sift_down (ps @ p # rest) (length ps) = front @ p # rear @ rest"
    "list_all (\<lambda>q. plan_key p < plan_key q) rear" "front \<noteq> [] \<longrightarrow> plan_key (last front) \<le> plan_key p"
    using sift_down_append by blast
  have "plan_key q \<le> plan_key p" if "q \<in> set front" for q
  proof -
    have "sorted (map plan_key front)" using assms fb(1) by (simp add: sorted_append)
    moreover have "front \<noteq> []" using that by auto
    ultimately have "plan_key q \<le> plan_key (last front)"
      using that by (cases front rule: rev_cases) (auto simp: sorted_append)
    with fb(4) \<open>front \<noteq> []\<close> show ?thesis by simp
  qed
  with assms fb have "sorted (map plan_key (front @ p # rear))"
    by (fastforce simp: sorted_append list_all_iff)
  with fb show ?thesis by (intro exI [of _ "front @ p # rear"]) simp
qed

lemma sort_prefix:
  assumes "k \<le> length ps" and "1 \<le> k"
  shows "\<exists>qs. fold (\<lambda>i ps. sift_down ps i) [1..<k] ps = qs @ drop k ps \<and> length qs = k
    \<and> mset qs = mset (take k ps) \<and> sorted (map plan_key qs)"
  using assms
proof (induction k)
  case (Suc k)
  show ?case
  proof (cases "k = 0")
    case True
    with Suc.prems show ?thesis by (intro exI [of _ "take 1 ps"]) (cases ps; simp)
  next
    case False
    with Suc obtain qs where qs: "fold (\<lambda>i ps. sift_down ps i) [1..<k] ps = qs @ drop k ps" "length qs = k"
      "mset qs = mset (take k ps)" "sorted (map plan_key qs)" by auto
    have "drop k ps = ps ! k # drop (Suc k) ps" using Suc.prems by (simp add: Cons_nth_drop_Suc)
    moreover obtain rs where "sift_down (qs @ ps ! k # drop (Suc k) ps) (length qs) = rs @ drop (Suc k) ps"
      "length rs = Suc k" "mset rs = mset (qs @ [ps ! k])" "sorted (map plan_key rs)"
      using sift_down_sorted [OF qs(4), of "ps ! k" "drop (Suc k) ps"] qs(2) by auto
    moreover have "mset (qs @ [ps ! k]) = mset (take (Suc k) ps)"
      using Suc.prems qs(3) by (simp add: take_Suc_conv_app_nth)
    ultimately show ?thesis using False qs(1,2) by (intro exI [of _ rs]) (simp add: upt_Suc)
  qed
qed simp

lemma sort_plans_correct: "mset (sort_plans ps) = mset ps \<and> sorted (map plan_key (sort_plans ps))"
proof (cases "ps = []")
  case False
  then have "1 \<le> length ps" by (cases ps) auto
  from sort_prefix [OF le_refl this] show ?thesis by (auto simp: sort_plans_def)
qed (simp add: sort_plans_def)

lemma sorted_key_unique:
  assumes "mset ps = mset qs" and "sorted (map plan_key ps)" and "sorted (map plan_key qs)"
    and "inj_on plan_key (set ps)"
  shows "ps = qs"
proof -
  have "map plan_key ps = map plan_key qs"
    using assms(1-3) by (metis mset_map properties_for_sort sorted_sort_id)
  moreover have "set ps = set qs" using assms(1) by (metis set_mset_mset)
  ultimately show ?thesis using assms(4) by (metis inj_on_map_eq_map Un_absorb)
qed

section \<open>The subscriptions table: lemmas\<close>

lemma latest_sub_map:
  "(\<And>r. sub_created (f r) = sub_created r) \<Longrightarrow> latest_sub (map f rs) = map_option f (latest_sub rs)"
  by (induction rs) (auto split: option.splits)

lemma latest_sub_snoc:
  "latest_sub (rs @ [r]) = (case latest_sub rs of None \<Rightarrow> Some r
     | Some s \<Rightarrow> if sub_created r > sub_created s then Some r else Some s)"
  by (induction rs) (auto split: option.splits)

lemma latest_sub_in: "latest_sub rs = Some r \<Longrightarrow> r \<in> set rs"
  by (induction rs arbitrary: r) (auto split: option.splits if_splits)

lemma latest_sub_max: "latest_sub rs = Some r \<Longrightarrow> s \<in> set rs \<Longrightarrow> sub_created s \<le> sub_created r"
proof (induction rs arbitrary: r)
  case (Cons a rs)
  then show ?case by (cases rs) (fastforce split: option.splits if_splits)+
qed simp

lemma sub_assign_simps [simp]:
  "sub_id (sub_assign s r) = sub_id r" "sub_user_id (sub_assign s r) = sub_user_id r"
  "sub_created (sub_assign s r) = sub_created r" "sub_plan_id (sub_assign s r) = sub_plan_id s"
  "sub_status (sub_assign s r) = sub_status s" "sub_interval (sub_assign s r) = sub_interval s"
  "sub_stripe_sub_id (sub_assign s r) = sub_stripe_sub_id s"
  "sub_period_start (sub_assign s r) = sub_period_start s" "sub_period_end (sub_assign s r) = sub_period_end s"
  by (simp_all add: sub_assign_def sub_created_def)

text \<open>The row \<open>Create\<close> inserts.\<close>

definition created_row :: "subscription \<Rightarrow> time \<Rightarrow> subscription" where
  "created_row sub now = sub\<lparr>sub_status := (if sub_status sub = SubUnset then SubActive else sub_status sub),
     sub_created_at := (case sub_created_at sub of None \<Rightarrow> Some now | Some t \<Rightarrow> Some t), sub_updated_at := now\<rparr>"

lemma sub_create_row: "sub_create tbl sub now = Inr tbl' \<Longrightarrow> tbl' = tbl @ [created_row sub now]"
  by (auto simp: sub_create_def created_row_def Let_def split: if_splits)

lemma created_row_simps [simp]:
  "sub_id (created_row s t) = sub_id s" "sub_user_id (created_row s t) = sub_user_id s"
  "sub_plan_id (created_row s t) = sub_plan_id s"
  by (simp_all add: created_row_def)

lemma sub_update_row:
  "sub_update tbl sub now = Inr tbl' \<Longrightarrow>
     tbl' = map (\<lambda>r. if sub_id r = sub_id sub then sub_assign (sub\<lparr>sub_updated_at := now\<rparr>) r else r) tbl"
  by (auto simp: sub_update_def Let_def split: if_splits)

section \<open>The contract of a subscription store\<close>

locale subscription_store =
  fixes create :: "'s \<Rightarrow> subscription \<Rightarrow> time \<Rightarrow> billing_error + 's"
    and get_by_user :: "'s \<Rightarrow> string \<Rightarrow> billing_error + subscription"
    and update :: "'s \<Rightarrow> subscription \<Rightarrow> time \<Rightarrow> billing_error + 's"
  assumes create_get: "create s sub now = Inr s' \<Longrightarrow> sub_created_at sub = None \<Longrightarrow>
      (\<And>r. get_by_user s (sub_user_id sub) = Inr r \<Longrightarrow> sub_created r < now) \<Longrightarrow>
      get_by_user s' (sub_user_id sub) = Inr (created_row sub now)"
    and create_other: "create s sub now = Inr s' \<Longrightarrow> u \<noteq> sub_user_id sub \<Longrightarrow> get_by_user s' u = get_by_user s u"
    and update_get: "update s sub now = Inr s' \<Longrightarrow> get_by_user s u = Inr r \<Longrightarrow>
      get_by_user s' u = Inr (if sub_id r = sub_id sub then sub_assign (sub\<lparr>sub_updated_at := now\<rparr>) r else r)"
    and update_none: "update s sub now = Inr s' \<Longrightarrow> get_by_user s u = Inl e \<Longrightarrow> get_by_user s' u = Inl e"
    and get_user: "get_by_user s u = Inr r \<Longrightarrow> sub_user_id r = u"
begin

text \<open>Changing a subscription of one user never changes what another user is on, when rows of
  different users have different identifiers.\<close>

lemma update_other:
  assumes "update s sub now = Inr s'" and "\<And>r. get_by_user s u = Inr r \<Longrightarrow> sub_id r \<noteq> sub_id sub"
  shows "get_by_user s' u = get_by_user s u"
  using update_get [OF assms(1), of u] update_none [OF assms(1), of u] assms(2)
  by (cases "get_by_user s u") auto

end

lemma sub_get_by_user_create:
  assumes "sub_create tbl sub now = Inr tbl'" "sub_created_at sub = None"
    and "\<And>r. sub_get_by_user tbl (sub_user_id sub) = Inr r \<Longrightarrow> sub_created r < now"
  shows "sub_get_by_user tbl' (sub_user_id sub) = Inr (created_row sub now)"
proof -
  have "sub_created (created_row sub now) = now" using assms(2) by (simp add: created_row_def sub_created_def)
  then show ?thesis
    using assms(3) sub_create_row [OF assms(1)]
    by (auto simp: sub_get_by_user_def latest_sub_snoc split: option.splits)
qed

lemma sub_get_by_user_update:
  assumes "sub_update tbl sub now = Inr tbl'"
  shows "sub_get_by_user tbl' u = (case sub_get_by_user tbl u of Inl e \<Rightarrow> Inl e
    | Inr r \<Rightarrow> Inr (if sub_id r = sub_id sub then sub_assign (sub\<lparr>sub_updated_at := now\<rparr>) r else r))"
proof -
  let ?f = "\<lambda>r. if sub_id r = sub_id sub then sub_assign (sub\<lparr>sub_updated_at := now\<rparr>) r else r"
  have "filter (\<lambda>r. sub_user_id r = u) (map ?f tbl) = map ?f (filter (\<lambda>r. sub_user_id r = u) tbl)"
    by (induction tbl) auto
  then show ?thesis
    using sub_update_row [OF assms] latest_sub_map [of ?f "filter (\<lambda>r. sub_user_id r = u) tbl"]
    by (auto simp: sub_get_by_user_def split: option.splits)
qed

lemma sub_get_by_user_user: "sub_get_by_user tbl u = Inr r \<Longrightarrow> sub_user_id r = u \<and> r \<in> set tbl"
  by (auto simp: sub_get_by_user_def split: option.splits dest: latest_sub_in)

interpretation subs: subscription_store sub_create sub_get_by_user sub_update
proof unfold_locales
  show "sub_get_by_user s' u = sub_get_by_user s u"
    if "sub_create s sub now = Inr s'" "u \<noteq> sub_user_id sub" for s sub now s' u
    using sub_create_row [OF that(1)] that(2) by (simp add: sub_get_by_user_def)
qed (auto simp: sub_get_by_user_create sub_get_by_user_update dest: sub_get_by_user_user)

section \<open>Properties\<close>

text \<open>Listing the catalogue returns every plan once, ordered by sort order and then
  by name, and does not depend on the order in which the map of plans is traversed.\<close>

theorem catalogue_list_deterministic:
  assumes "mset ps = mset qs" and "inj_on plan_key (set ps)"
  shows "catalogue_list ps = catalogue_list qs \<and> mset (catalogue_list ps) = mset ps
    \<and> sorted (map (\<lambda>p. (plan_sort_order p, plan_name p)) (catalogue_list ps))"
proof -
  note ps = sort_plans_correct [of ps] and qs = sort_plans_correct [of qs]
  have "set (sort_plans ps) = set ps" using ps by (metis set_mset_mset)
  then have "sort_plans ps = sort_plans qs"
    using sorted_key_unique [of "sort_plans ps" "sort_plans qs"] ps qs assms by simp
  moreover have "(\<lambda>p. (plan_sort_order p, plan_name p)) = plan_key" by (simp add: fun_eq_iff plan_key_def)
  ultimately show ?thesis using ps by (simp add: catalogue_list_def)
qed

theorem catalogue_list_deterministic_witness:
  "catalogue_list [enterprise_plan, free_plan, pro_plan, starter_plan]
     = catalogue_list [free_plan, starter_plan, pro_plan, enterprise_plan]
   \<and> catalogue_list [enterprise_plan, free_plan, pro_plan, starter_plan]
     = [free_plan, starter_plan, pro_plan, enterprise_plan]"
proof
  have "inj_on plan_key (set [enterprise_plan, free_plan, pro_plan, starter_plan])"
    by (simp add: plan_key_def enterprise_plan_def free_plan_def pro_plan_def starter_plan_def)
  then show "catalogue_list [enterprise_plan, free_plan, pro_plan, starter_plan]
     = catalogue_list [free_plan, starter_plan, pro_plan, enterprise_plan]"
    using catalogue_list_deterministic [of "[enterprise_plan, free_plan, pro_plan, starter_plan]"
      "[free_plan, starter_plan, pro_plan, enterprise_plan]"] by (simp add: add_mset_commute)
qed code_simp

end
