(* ===== verification/Calendar.thy ===== *)
theory Calendar
  imports Prelude
begin

text \<open>
  The calendar arithmetic of Go's package \<open>time\<close> in UTC that the sources use:
  \<open>time.Date\<close> of the first of a month and \<open>AddDate\<close>, over the proleptic Gregorian calendar
  counted in days from 1 January 1970. Months and days out of range are normalised as Go
  normalises them: 31 January plus one month is 2 or 3 March.
\<close>

definition days_of_civil :: "int \<Rightarrow> int \<Rightarrow> int \<Rightarrow> int" where
  "days_of_civil y m d =
     (let y = y + (m - 1) div 12; m = (m - 1) mod 12 + 1;
          y = (if m \<le> 2 then y - 1 else y);
          era = y div 400; yoe = y mod 400;
          doy = (153 * ((m + 9) mod 12) + 2) div 5;
          doe = yoe * 365 + yoe div 4 - yoe div 100 + doy
      in era * 146097 + doe - 719468 + (d - 1))"

definition civil_of_days :: "int \<Rightarrow> int \<times> int \<times> int" where
  "civil_of_days n =
     (let z = n + 719468; era = z div 146097; doe = z mod 146097;
          yoe = (doe - doe div 1460 + doe div 36524 - doe div 146096) div 365;
          doy = doe - (365 * yoe + yoe div 4 - yoe div 100);
          mp = (5 * doy + 2) div 153;
          d = doy - (153 * mp + 2) div 5 + 1;
          m = (if mp < 10 then mp + 3 else mp - 9)
      in (yoe + era * 400 + (if m \<le> 2 then 1 else 0), m, d))"

definition add_date :: "time \<Rightarrow> int \<Rightarrow> int \<Rightarrow> int \<Rightarrow> time" where
  "add_date t years months days =
     (case civil_of_days (t div day) of (y, m, d) \<Rightarrow>
        days_of_civil (y + years) (m + months) (d + days) * day + t mod day)"

definition beginning_of_month :: "time \<Rightarrow> time" where
  "beginning_of_month t = (case civil_of_days (t div day) of (y, m, d) \<Rightarrow> days_of_civil y m 1 * day)"

lemma leap_day_examples:
  "civil_of_days 19782 = (2024, 2, 29)" "days_of_civil 2024 2 29 = 19782"
  "add_date (19782 * day) 1 0 0 = days_of_civil 2025 3 1 * day"
  "add_date (days_of_civil 2024 1 31 * day) 0 1 0 = days_of_civil 2024 3 2 * day"
  "beginning_of_month (19782 * day + 5) = days_of_civil 2024 2 1 * day"
  by code_simp+

end
