(* ===== verification/Overage.thy ===== *)
theory Overage
  imports Billing Calendar
begin

text \<open>
  \<open>pkg/billing/usage.go\<close> and \<open>pkg/billing/overage.go\<close>: the table of usage events, the totals the
  plan limits are checked against, and the enforcement levels. Percentages are rationals;
  the texts of the messages are left out of \<open>overage_status\<close>. A usage table is the list of its
  rows in insertion order.
\<close>

section \<open>Usage events\<close>

record usage_event =
  ue_id :: string
  ue_user_id :: string
  ue_model :: string
  ue_provider :: string
  ue_input_tokens :: int
  ue_output_tokens :: int
  ue_total_tokens :: int
  ue_session_key :: string
  ue_agent_id :: string
  ue_duration_ms :: int
  ue_estimated_cost :: rat
  ue_created_at :: "time option"

type_synonym usage_table = "usage_event list"

datatype usage_error = UsageEmptyID | UsageEmptyUser | UsageEmptyModel | UsageDuplicateID

definition ue_created :: "usage_event \<Rightarrow> time" where
  "ue_created e = (case ue_created_at e of None \<Rightarrow> 0 | Some t \<Rightarrow> t)"

definition usage_record :: "usage_table \<Rightarrow> usage_event \<Rightarrow> time \<Rightarrow> usage_error + usage_table" where
  "usage_record tbl event now =
     (if ue_id event = [] then Inl UsageEmptyID
      else if ue_user_id event = [] then Inl UsageEmptyUser
      else if ue_model event = [] then Inl UsageEmptyModel
      else
        let event = (if ue_total_tokens event = 0 \<and> (ue_input_tokens event > 0 \<or> ue_output_tokens event > 0)
                     then event\<lparr>ue_total_tokens := ue_input_tokens event + ue_output_tokens event\<rparr> else event);
            event = (case ue_created_at event of None \<Rightarrow> event\<lparr>ue_created_at := Some now\<rparr> | Some _ \<Rightarrow> event)
        in if \<exists>r \<in> set tbl. ue_id r = ue_id event then Inl UsageDuplicateID else Inr (tbl @ [event]))"

record usage_summary =
  us_user_id :: string
  us_total_input :: int
  us_total_output :: int
  us_total_tokens :: int
  us_total_requests :: int
  us_total_cost :: rat

definition in_range :: "string \<Rightarrow> time \<Rightarrow> time \<Rightarrow> usage_event \<Rightarrow> bool" where
  "in_range userID since until e \<longleftrightarrow> ue_user_id e = userID \<and> ue_created e \<ge> since \<and> ue_created e < until"

definition usage_get_summary :: "usage_table \<Rightarrow> string \<Rightarrow> time \<Rightarrow> time \<Rightarrow> usage_summary" where
  "usage_get_summary tbl userID since until =
     (let rows = filter (in_range userID since until) tbl in
      \<lparr>us_user_id = userID, us_total_input = sum_list (map ue_input_tokens rows),
       us_total_output = sum_list (map ue_output_tokens rows),
       us_total_tokens = sum_list (map ue_total_tokens rows),
       us_total_requests = int (length rows), us_total_cost = sum_list (map ue_estimated_cost rows)\<rparr>)"

definition get_current_period_usage :: "usage_table \<Rightarrow> string \<Rightarrow> time \<Rightarrow> int" where
  "get_current_period_usage tbl userID periodStart =
     sum_list (map ue_total_tokens (filter (\<lambda>e. ue_user_id e = userID \<and> ue_created e \<ge> periodStart) tbl))"

definition get_current_period_messages :: "usage_table \<Rightarrow> string \<Rightarrow> time \<Rightarrow> int" where
  "get_current_period_messages tbl userID periodStart =
     int (length (filter (\<lambda>e. ue_user_id e = userID \<and> ue_created e \<ge> periodStart) tbl))"

record usage_query =
  uq_user_id :: string
  uq_model :: string
  uq_since :: "time option"
  uq_until :: "time option"
  uq_limit :: int
  uq_offset :: int

fun insert_event_desc :: "usage_event \<Rightarrow> usage_table \<Rightarrow> usage_table" where
  "insert_event_desc r [] = [r]"
| "insert_event_desc r (s # ss) = (if ue_created s > ue_created r then s # insert_event_desc r ss else r # s # ss)"

text \<open>SQLite takes a negative offset as 0.\<close>

definition usage_list_events :: "usage_table \<Rightarrow> usage_query \<Rightarrow> usage_table" where
  "usage_list_events tbl q =
     (let rows = filter (\<lambda>e. (uq_user_id q = [] \<or> ue_user_id e = uq_user_id q)
                   \<and> (uq_model q = [] \<or> ue_model e = uq_model q)
                   \<and> (case uq_since q of None \<Rightarrow> True | Some t \<Rightarrow> ue_created e \<ge> t)
                   \<and> (case uq_until q of None \<Rightarrow> True | Some t \<Rightarrow> ue_created e < t)) tbl;
          limit = (if uq_limit q \<le> 0 then 100 else uq_limit q);
          limit = (if limit > 1000 then 1000 else limit)
      in take (nat limit) (drop (nat (uq_offset q)) (foldr insert_event_desc rows [])))"

definition usage_delete_before :: "usage_table \<Rightarrow> time \<Rightarrow> int \<times> usage_table" where
  "usage_delete_before tbl before =
     (int (length (filter (\<lambda>e. ue_created e < before) tbl)), filter (\<lambda>e. \<not> ue_created e < before) tbl)"

section \<open>Levels\<close>

datatype overage_level = LevelNone | LevelWarning | LevelSoftCap | LevelHardCap | LevelBlocked

datatype overage_action = ActionNone | ActionWarn | ActionDowngradeModel | ActionThrottle | ActionBlock

fun level_severity :: "overage_level \<Rightarrow> nat" where
  "level_severity LevelNone = 0"
| "level_severity LevelWarning = 1"
| "level_severity LevelSoftCap = 2"
| "level_severity LevelHardCap = 3"
| "level_severity LevelBlocked = 4"

instantiation overage_level :: linorder
begin

definition less_eq_overage_level :: "overage_level \<Rightarrow> overage_level \<Rightarrow> bool" where
  "less_eq_overage_level l m \<longleftrightarrow> level_severity l \<le> level_severity m"

definition less_overage_level :: "overage_level \<Rightarrow> overage_level \<Rightarrow> bool" where
  "less_overage_level l m \<longleftrightarrow> level_severity l < level_severity m"

instance
proof
  show "l \<le> m \<Longrightarrow> m \<le> l \<Longrightarrow> l = m" for l m :: overage_level
    by (cases l; cases m) (simp_all add: less_eq_overage_level_def)
qed (auto simp: less_eq_overage_level_def less_overage_level_def)

end

record overage_thresholds =
  ot_warning :: rat
  ot_soft_cap :: rat
  ot_hard_cap :: rat
  ot_block_at :: rat

definition default_overage_thresholds :: overage_thresholds where
  "default_overage_thresholds = \<lparr>ot_warning = 8 / 10, ot_soft_cap = 9 / 10, ot_hard_cap = 1, ot_block_at = 12 / 10\<rparr>"

definition thresholds_validate :: "overage_thresholds \<Rightarrow> bool" where
  "thresholds_validate t \<longleftrightarrow>
     \<not> (ot_warning t \<le> 0 \<or> ot_warning t \<ge> 1) \<and> \<not> ot_soft_cap t \<le> ot_warning t
     \<and> \<not> ot_hard_cap t \<le> ot_soft_cap t \<and> \<not> ot_block_at t \<le> ot_hard_cap t"

record throttle_config =
  th_fallback_model :: string
  th_delay_ms :: int
  th_reduced_rate_percent :: int

definition default_throttle_config :: throttle_config where
  "default_throttle_config = \<lparr>th_fallback_model = ''gpt-4o-mini'', th_delay_ms = 500, th_reduced_rate_percent = 50\<rparr>"

record overage_status =
  os_resource :: string
  os_usage :: int
  os_limit :: int
  os_percentage :: rat
  os_level :: overage_level
  os_action :: overage_action
  os_fallback_model :: string

record overage_enforcer =
  oe_catalogue :: catalogue
  oe_thresholds :: overage_thresholds
  oe_throttle :: throttle_config

definition new_overage_enforcer ::
  "catalogue \<Rightarrow> overage_thresholds option \<Rightarrow> throttle_config option \<Rightarrow> overage_enforcer option" where
  "new_overage_enforcer c thresholds throttle =
     (let t = (case thresholds of None \<Rightarrow> default_overage_thresholds | Some t \<Rightarrow> t) in
      if \<not> thresholds_validate t then None
      else Some \<lparr>oe_catalogue = c, oe_thresholds = t,
             oe_throttle = (case throttle of None \<Rightarrow> default_throttle_config | Some h \<Rightarrow> h)\<rparr>)"

definition evaluate :: "overage_enforcer \<Rightarrow> string \<Rightarrow> int \<Rightarrow> int \<Rightarrow> overage_status" where
  "evaluate e resource usage cap =
     (let pct = of_int usage / of_int cap; t = oe_thresholds e;
          status = (\<lambda>level action model. \<lparr>os_resource = resource, os_usage = usage, os_limit = cap,
            os_percentage = pct, os_level = level, os_action = action, os_fallback_model = model\<rparr>) in
      if pct \<ge> ot_block_at t then status LevelBlocked ActionBlock []
      else if pct \<ge> ot_hard_cap t then status LevelHardCap ActionThrottle (th_fallback_model (oe_throttle e))
      else if pct \<ge> ot_soft_cap t then status LevelSoftCap ActionDowngradeModel (th_fallback_model (oe_throttle e))
      else if pct \<ge> ot_warning t then status LevelWarning ActionWarn []
      else status LevelNone ActionNone [])"

definition unlimited_status :: "string \<Rightarrow> overage_status" where
  "unlimited_status resource = \<lparr>os_resource = resource, os_usage = 0, os_limit = 0, os_percentage = 0,
     os_level = LevelNone, os_action = ActionNone, os_fallback_model = []\<rparr>"

text \<open>The checks take the answer of the usage store: \<open>None\<close> is a failed query. A missing plan is
  an error too; errors are \<open>None\<close>.\<close>

definition check_tokens :: "overage_enforcer \<Rightarrow> int option \<Rightarrow> plan option \<Rightarrow> overage_status option" where
  "check_tokens e usage plan =
     (case plan of
        None \<Rightarrow> None
      | Some p \<Rightarrow>
          let cap = pl_max_tokens_per_month (plan_limits p) in
          if is_unlimited cap then Some (unlimited_status ''tokens'')
          else map_option (\<lambda>u. evaluate e ''tokens'' u cap) usage)"

definition check_messages :: "overage_enforcer \<Rightarrow> int option \<Rightarrow> plan option \<Rightarrow> overage_status option" where
  "check_messages e usage plan =
     (case plan of
        None \<Rightarrow> None
      | Some p \<Rightarrow>
          let cap = pl_max_messages_per_month (plan_limits p) in
          if is_unlimited cap then Some (unlimited_status ''messages'')
          else map_option (\<lambda>u. evaluate e ''messages'' u cap) usage)"

definition check_all :: "overage_enforcer \<Rightarrow> int option \<Rightarrow> int option \<Rightarrow> plan option \<Rightarrow> overage_status option" where
  "check_all e tokens messages plan =
     (case check_tokens e tokens plan of
        None \<Rightarrow> None
      | Some ts \<Rightarrow>
          (case check_messages e messages plan of
             None \<Rightarrow> None
           | Some ms \<Rightarrow>
               if level_severity (os_level ms) > level_severity (os_level ts) then Some ms else Some ts))"

definition resolve_plan :: "overage_enforcer \<Rightarrow> (billing_error + subscription) option \<Rightarrow> time \<Rightarrow> plan option \<times> time" where
  "resolve_plan e sub now =
     (let plan = catalogue_get (oe_catalogue e) PlanFree; periodStart = beginning_of_month now in
      case sub of
        Some (Inr s) \<Rightarrow>
          if sub_is_active s then
            (case catalogue_get (oe_catalogue e) (sub_plan_id s) of None \<Rightarrow> plan | Some p \<Rightarrow> Some p,
             if sub_period_start s \<noteq> zero_time then sub_period_start s else periodStart)
          else (plan, periodStart)
      | _ \<Rightarrow> (plan, periodStart))"

text \<open>\<open>CheckUser\<close> over the two tables.\<close>

definition check_user :: "overage_enforcer \<Rightarrow> sub_table \<Rightarrow> usage_table \<Rightarrow> string \<Rightarrow> time \<Rightarrow> overage_status option" where
  "check_user e subs usage userID now =
     (case resolve_plan e (Some (sub_get_by_user subs userID)) now of (plan, periodStart) \<Rightarrow>
        check_all e (Some (get_current_period_usage usage userID periodStart))
          (Some (get_current_period_messages usage userID periodStart)) plan)"

definition get_full_status :: "overage_enforcer \<Rightarrow> sub_table \<Rightarrow> usage_table \<Rightarrow> string \<Rightarrow> time \<Rightarrow> overage_status list option" where
  "get_full_status e subs usage userID now =
     (case resolve_plan e (Some (sub_get_by_user subs userID)) now of (plan, periodStart) \<Rightarrow>
      case check_tokens e (Some (get_current_period_usage usage userID periodStart)) plan of
        None \<Rightarrow> None
      | Some ts \<Rightarrow>
          (case check_messages e (Some (get_current_period_messages usage userID periodStart)) plan of
             None \<Rightarrow> None | Some ms \<Rightarrow> Some [ts, ms]))"

text \<open>\<open>handleGetOverageStatus\<close>: the overall level and action of the resources.\<close>

definition overall_status :: "overage_status list \<Rightarrow> overage_level \<times> overage_action" where
  "overall_status statuses =
     foldl (\<lambda>(level, action) s. if level_severity (os_level s) > level_severity level
                                then (os_level s, os_action s) else (level, action))
       (LevelNone, ActionNone) statuses"

text \<open>\<open>OverageMiddleware\<close>: what happens to the request, and the delay in milliseconds.\<close>

datatype overage_verdict = Passed int | Refused

definition overage_middleware :: "overage_enforcer \<Rightarrow> string \<Rightarrow> overage_status option \<Rightarrow> overage_verdict" where
  "overage_middleware e userID status =
     (if userID = [] then Passed 0
      else
        case status of
          None \<Rightarrow> Passed 0
        | Some s \<Rightarrow>
            (case os_action s of
               ActionBlock \<Rightarrow> Refused
             | ActionThrottle \<Rightarrow> Passed (if th_delay_ms (oe_throttle e) > 0 then th_delay_ms (oe_throttle e) else 0)
             | _ \<Rightarrow> Passed 0))"

section \<open>Lemmas\<close>

lemma evaluate_blocked:
  assumes "0 < cap"
  shows "os_level (evaluate e r u cap) = LevelBlocked \<longleftrightarrow> ot_block_at (oe_thresholds e) * of_int cap \<le> of_int u"
    and "os_action (evaluate e r u cap) = ActionBlock \<longleftrightarrow> os_level (evaluate e r u cap) = LevelBlocked"
  using assms by (simp_all add: evaluate_def Let_def pos_le_divide_eq)

lemma evaluate_action: "os_action (evaluate e r u cap) =
  (case os_level (evaluate e r u cap) of LevelNone \<Rightarrow> ActionNone | LevelWarning \<Rightarrow> ActionWarn
   | LevelSoftCap \<Rightarrow> ActionDowngradeModel | LevelHardCap \<Rightarrow> ActionThrottle | LevelBlocked \<Rightarrow> ActionBlock)"
  by (simp add: evaluate_def Let_def)

lemma validated_order:
  "thresholds_validate t \<Longrightarrow> 0 < ot_warning t \<and> ot_warning t < ot_soft_cap t \<and> ot_soft_cap t < ot_hard_cap t
     \<and> ot_hard_cap t < ot_block_at t"
  by (auto simp: thresholds_validate_def)

text \<open>More usage never means a lower level.\<close>

lemma evaluate_mono:
  assumes "0 < cap" and "u \<le> v" and "thresholds_validate (oe_thresholds e)"
  shows "os_level (evaluate e r u cap) \<le> os_level (evaluate e r v cap)"
proof -
  have "(of_int u :: rat) / of_int cap \<le> of_int v / of_int cap" using assms(1,2) by (simp add: divide_right_mono)
  then show ?thesis using validated_order [OF assms(3)]
    by (auto simp: evaluate_def Let_def less_eq_overage_level_def)
qed

lemma check_all_max:
  assumes "check_tokens e tokens plan = Some ts" and "check_messages e messages plan = Some ms"
  shows "\<exists>s. check_all e tokens messages plan = Some s \<and> s \<in> {ts, ms} \<and> os_level s = max (os_level ts) (os_level ms)"
proof -
  have "l = m" if "level_severity l = level_severity m" for l m
    using that by (cases l; cases m) simp_all
  with assms show ?thesis by (auto simp: check_all_def less_eq_overage_level_def max_def)
qed

lemma limit_check_blocked:
  "check_tokens e (Some u) (Some p) = Some s \<Longrightarrow> 0 \<le> pl_max_tokens_per_month (plan_limits p) \<Longrightarrow>
    os_level s = LevelBlocked \<longleftrightarrow> pl_max_tokens_per_month (plan_limits p) \<noteq> 0
      \<and> ot_block_at (oe_thresholds e) * of_int (pl_max_tokens_per_month (plan_limits p)) \<le> of_int u"
  "check_messages e (Some u) (Some p) = Some s \<Longrightarrow> 0 \<le> pl_max_messages_per_month (plan_limits p) \<Longrightarrow>
    os_level s = LevelBlocked \<longleftrightarrow> pl_max_messages_per_month (plan_limits p) \<noteq> 0
      \<and> ot_block_at (oe_thresholds e) * of_int (pl_max_messages_per_month (plan_limits p)) \<le> of_int u"
  by (auto simp: check_tokens_def check_messages_def Let_def is_unlimited_def unlimited_status_def evaluate_blocked
      split: if_splits)

lemma check_action:
  "check_tokens e (Some u) (Some p) = Some s \<Longrightarrow> os_action s = ActionBlock \<longleftrightarrow> os_level s = LevelBlocked"
  "check_messages e (Some u) (Some p) = Some s \<Longrightarrow> os_action s = ActionBlock \<longleftrightarrow> os_level s = LevelBlocked"
  by (auto simp: check_tokens_def check_messages_def Let_def unlimited_status_def evaluate_action
      split: if_splits overage_level.splits)

lemma check_total: "\<exists>s. check_tokens e (Some u) (Some p) = Some s" "\<exists>s. check_messages e (Some u) (Some p) = Some s"
  by (simp_all add: check_tokens_def check_messages_def Let_def)

lemma middleware_refuses:
  "overage_middleware e u (Some s) = Refused \<longleftrightarrow> u \<noteq> [] \<and> os_action s = ActionBlock"
  by (simp add: overage_middleware_def split: overage_action.split)

text \<open>What \<open>Record\<close> stores.\<close>

definition recorded_event :: "usage_event \<Rightarrow> time \<Rightarrow> usage_event" where
  "recorded_event ev now = ev\<lparr>ue_total_tokens := (if ue_total_tokens ev = 0 \<and> (ue_input_tokens ev > 0 \<or> ue_output_tokens ev > 0)
       then ue_input_tokens ev + ue_output_tokens ev else ue_total_tokens ev),
     ue_created_at := Some (case ue_created_at ev of None \<Rightarrow> now | Some t \<Rightarrow> t)\<rparr>"

lemma usage_record_row: "usage_record tbl ev now = Inr tbl' \<Longrightarrow>
    tbl' = tbl @ [recorded_event ev now] \<and> (\<forall>r \<in> set tbl. ue_id r \<noteq> ue_id ev)"
  by (auto simp: usage_record_def recorded_event_def Let_def split: if_splits option.splits)

section \<open>Properties\<close>

text \<open>usage is counted once and for the right user: recording an event adds its
  tokens and one message to the current period of its user when it lies in that period, adds
  nothing for any other user or period, is refused for an identifier already recorded, and
  deleting events older than a period start changes nothing in that period.\<close>

theorem usage_accounting:
  assumes "usage_record tbl ev now = Inr tbl'" and "cutoff \<le> period"
  shows "get_current_period_usage (snd (usage_delete_before tbl' cutoff)) u period
      = get_current_period_usage tbl u period
        + (if ue_user_id ev = u \<and> period \<le> ue_created (recorded_event ev now)
           then ue_total_tokens (recorded_event ev now) else 0)
    \<and> get_current_period_messages (snd (usage_delete_before tbl' cutoff)) u period
      = get_current_period_messages tbl u period
        + (if ue_user_id ev = u \<and> period \<le> ue_created (recorded_event ev now) then 1 else 0)
    \<and> usage_record tbl' ev now = Inl UsageDuplicateID"
proof -
  note row = usage_record_row [OF assms(1)]
  have f: "filter (\<lambda>e. ue_user_id e = u \<and> ue_created e \<ge> period) (snd (usage_delete_before tbl' cutoff))
    = filter (\<lambda>e. ue_user_id e = u \<and> ue_created e \<ge> period) tbl'"
    using assms(2) by (simp add: usage_delete_before_def) (intro filter_cong, auto)
  have "usage_record tbl' ev now = Inl UsageDuplicateID"
    using assms(1) row by (auto simp: usage_record_def recorded_event_def Let_def split: if_splits option.splits)
  then show ?thesis
    using row unfolding get_current_period_usage_def get_current_period_messages_def f
    by (auto simp: recorded_event_def)
qed

definition sample_event :: usage_event where
  "sample_event = \<lparr>ue_id = ''e1'', ue_user_id = ''u'', ue_model = ''gpt-4o-mini'', ue_provider = ''openai'',
     ue_input_tokens = 400000, ue_output_tokens = 200000, ue_total_tokens = 0, ue_session_key = [], ue_agent_id = [],
     ue_duration_ms = 0, ue_estimated_cost = 0, ue_created_at = None\<rparr>"

theorem usage_accounting_witness:
  "\<exists>tbl. usage_record [] sample_event 7 = Inr tbl
     \<and> get_current_period_usage (snd (usage_delete_before tbl 3)) ''u'' 5 = 600000
     \<and> usage_record tbl sample_event 7 = Inl UsageDuplicateID"
proof -
  have r: "usage_record [] sample_event 7 = Inr [recorded_event sample_event 7]"
    by (simp add: usage_record_def recorded_event_def sample_event_def)
  from usage_accounting [OF r, of 3 5 "''u''"] r show ?thesis
    by (simp add: recorded_event_def sample_event_def ue_created_def get_current_period_usage_def)
qed

text \<open>Property C30: enforcement is exact: the middleware refuses a request of a subscriber exactly
  when the tokens or the messages of the current period have reached the blocking threshold
  of the plan; a dimension with limit 0 never refuses, and the thresholds are ordered.\<close>

theorem overage_refusal_exact:
  assumes "new_overage_enforcer c thresholds throttle = Some e" and "u \<noteq> []"
    and "sub_get_by_user subs u = Inr s" and "sub_is_active s" and "catalogue_get c (sub_plan_id s) = Some p"
    and "sub_period_start s \<noteq> zero_time"
    and "0 \<le> pl_max_tokens_per_month (plan_limits p)" and "0 \<le> pl_max_messages_per_month (plan_limits p)"
  shows "overage_middleware e u (check_user e subs usage u now) = Refused \<longleftrightarrow>
      pl_max_tokens_per_month (plan_limits p) \<noteq> 0
        \<and> ot_block_at (oe_thresholds e) * of_int (pl_max_tokens_per_month (plan_limits p))
            \<le> of_int (get_current_period_usage usage u (sub_period_start s))
      \<or> pl_max_messages_per_month (plan_limits p) \<noteq> 0
        \<and> ot_block_at (oe_thresholds e) * of_int (pl_max_messages_per_month (plan_limits p))
            \<le> of_int (get_current_period_messages usage u (sub_period_start s))"
proof -
  let ?t = "get_current_period_usage usage u (sub_period_start s)"
  let ?m = "get_current_period_messages usage u (sub_period_start s)"
  have "oe_catalogue e = c" using assms(1) by (auto simp: new_overage_enforcer_def Let_def split: if_splits)
  then have cu: "check_user e subs usage u now = check_all e (Some ?t) (Some ?m) (Some p)"
    using assms(3-6) by (simp add: check_user_def resolve_plan_def Let_def)
  obtain ts ms where tm: "check_tokens e (Some ?t) (Some p) = Some ts" "check_messages e (Some ?m) (Some p) = Some ms"
    using check_total by blast
  obtain st where st: "check_all e (Some ?t) (Some ?m) (Some p) = Some st" "st \<in> {ts, ms}"
    "os_level st = max (os_level ts) (os_level ms)"
    using check_all_max [OF tm] by blast
  have top: "max k l = LevelBlocked \<longleftrightarrow> k = LevelBlocked \<or> l = LevelBlocked" for k l
    by (cases k; cases l) (simp_all add: max_def less_eq_overage_level_def)
  have "os_action st = ActionBlock \<longleftrightarrow> os_level st = LevelBlocked"
    using st(2) check_action(1) [OF tm(1)] check_action(2) [OF tm(2)] by auto
  then show ?thesis
    using cu st(1,3) assms(2) limit_check_blocked(1) [OF tm(1) assms(7)] limit_check_blocked(2) [OF tm(2) assms(8)]
    by (simp add: middleware_refuses top)
qed

definition free_sub :: subscription where
  "free_sub = \<lparr>sub_id = ''s1'', sub_user_id = ''u'', sub_plan_id = PlanFree, sub_status = SubActive,
     sub_interval = IntervalNone, sub_period_start = 5, sub_period_end = 5 + 30 * day,
     sub_cancel_at_period_end = False, sub_stripe_customer_id = [], sub_stripe_sub_id = [],
     sub_created_at = Some 5, sub_updated_at = 5\<rparr>"

definition default_enforcer :: overage_enforcer where
  "default_enforcer = the (new_overage_enforcer default_plans None None)"

theorem overage_refusal_exact_witness:
  "overage_middleware default_enforcer ''u''
     (check_user default_enforcer [free_sub] [recorded_event sample_event 7] ''u'' 9) = Refused"
proof -
  have e: "new_overage_enforcer default_plans None None = Some default_enforcer"
    by (simp add: default_enforcer_def new_overage_enforcer_def thresholds_validate_def default_overage_thresholds_def)
  have g: "sub_get_by_user [free_sub] ''u'' = Inr free_sub" by (simp add: sub_get_by_user_def free_sub_def)
  have p: "catalogue_get default_plans (sub_plan_id free_sub) = Some free_plan"
    by (simp add: catalogue_get_def default_plans_def free_sub_def)
  have block: "ot_block_at (oe_thresholds default_enforcer) = 12 / 10"
    by (simp add: default_enforcer_def new_overage_enforcer_def thresholds_validate_def default_overage_thresholds_def)
  show ?thesis
    using overage_refusal_exact [OF e _ g _ p, of "[recorded_event sample_event 7]" 9] block
    by (simp add: free_sub_def sub_is_active_def zero_time_def free_plan_def get_current_period_usage_def
        recorded_event_def sample_event_def ue_created_def)
qed

end
