(* ===== verification/Plan_Change.thy ===== *)
theory Plan_Change
  imports Billing Calendar
begin

text \<open>
  \<open>pkg/billing/plan_change.go\<close>: upgrades, downgrades and their preview. The subscription store
  is reached through the operations of its contract; Stripe is a record of calls with a hidden
  state, each of which may fail; \<open>None\<close> for the record is a service without Stripe. The
  random identifier of a new subscription and the clock are arguments. The callback
  \<open>OnPlanChanged\<close> is called exactly on success, with the result that is returned.
\<close>

section \<open>Requests and results\<close>

datatype direction = DirectionUpgrade | DirectionDowngrade | DirectionSame

datatype change_mode = ModeImmediate | ModeAtPeriodEnd | ModeUnset | ModeOther string

record plan_change_request =
  pcr_new_plan_id :: plan_id
  pcr_interval :: billing_interval
  pcr_mode :: change_mode

record plan_change_result =
  res_direction :: direction
  res_mode :: change_mode
  res_previous_plan :: plan_id
  res_new_plan :: plan_id
  res_effective_at :: time
  res_subscription :: "subscription option"
  res_proration :: int

datatype change_error = UserRequired | InvalidPlan plan_id | PlanNotFound plan_id | PlanNotAvailable plan_id
  | AlreadyOnPlan plan_id | InvalidMode change_mode | NoSubscription | StripeFailed | StoreFailed billing_error

record price_map =
  pm_monthly :: "plan_id \<Rightarrow> string option"
  pm_yearly :: "plan_id \<Rightarrow> string option"

text \<open>The Stripe client: cancelling at once, cancelling at the period end, fetching the item of a
  subscription (\<open>None\<close>: no items), and posting an update of the item's price.\<close>

record 'w stripe_client =
  sc_cancel_now :: "string \<Rightarrow> 'w \<Rightarrow> bool \<times> 'w"
  sc_cancel_at_end :: "string \<Rightarrow> 'w \<Rightarrow> bool \<times> 'w"
  sc_get_item :: "string \<Rightarrow> 'w \<Rightarrow> string option option \<times> 'w"
  sc_update :: "string \<Rightarrow> string \<Rightarrow> string \<Rightarrow> bool \<Rightarrow> 'w \<Rightarrow> bool \<times> 'w"

record 's sub_store_ops =
  ss_create :: "'s \<Rightarrow> subscription \<Rightarrow> time \<Rightarrow> billing_error + 's"
  ss_get_by_user :: "'s \<Rightarrow> string \<Rightarrow> billing_error + subscription"
  ss_update :: "'s \<Rightarrow> subscription \<Rightarrow> time \<Rightarrow> billing_error + 's"

record ('s, 'w) plan_service =
  ps_ops :: "'s sub_store_ops"
  ps_catalogue :: catalogue
  ps_price_map :: "price_map option"
  ps_stripe :: "'w stripe_client option"

definition plan_tier_order :: "plan_id \<Rightarrow> int" where
  "plan_tier_order i = (case i of PlanFree \<Rightarrow> 0 | PlanStarter \<Rightarrow> 1 | PlanPro \<Rightarrow> 2 | PlanEnterprise \<Rightarrow> 3
     | PlanOther _ \<Rightarrow> -1)"

definition compare_plans :: "plan_id \<Rightarrow> plan_id \<Rightarrow> direction" where
  "compare_plans oldPlan newPlan =
     (let oldTier = plan_tier_order oldPlan; newTier = plan_tier_order newPlan in
      if newTier > oldTier then DirectionUpgrade
      else if newTier < oldTier then DirectionDowngrade
      else DirectionSame)"

definition default_change_mode :: "direction \<Rightarrow> change_mode" where
  "default_change_mode dir = (case dir of DirectionUpgrade \<Rightarrow> ModeImmediate | DirectionDowngrade \<Rightarrow> ModeAtPeriodEnd
     | DirectionSame \<Rightarrow> ModeImmediate)"

definition get_price :: "price_map \<Rightarrow> plan_id \<Rightarrow> billing_interval \<Rightarrow> string" where
  "get_price m plan interval =
     (case interval of
        IntervalMonthly \<Rightarrow> (case pm_monthly m plan of None \<Rightarrow> [] | Some p \<Rightarrow> p)
      | IntervalYearly \<Rightarrow> (case pm_yearly m plan of None \<Rightarrow> [] | Some p \<Rightarrow> p)
      | _ \<Rightarrow> [])"

text \<open>Go's conversion of a \<open>float64\<close> to \<open>int64\<close> truncates; its integer division too.\<close>

definition trunc_rat :: "rat \<Rightarrow> int" where
  "trunc_rat x = (if x < 0 then - \<lfloor>- x\<rfloor> else \<lfloor>x\<rfloor>)"

definition trunc_div :: "int \<Rightarrow> int \<Rightarrow> int" where
  "trunc_div a b = (if a < 0 then - (- a div b) else a div b)"

definition estimate_proration :: "catalogue \<Rightarrow> subscription \<Rightarrow> plan_id \<Rightarrow> billing_interval \<Rightarrow> time \<Rightarrow> int" where
  "estimate_proration c sub newPlanID newInterval now =
     (case (catalogue_get c (sub_plan_id sub), catalogue_get c newPlanID) of
        (Some oldPlan, Some newPlan) \<Rightarrow>
          let oldPrice = (if sub_interval sub = IntervalYearly then trunc_div (plan_price_yearly oldPlan) 12
                          else plan_price_monthly oldPlan);
              newPrice = (if newInterval = IntervalYearly then trunc_div (plan_price_yearly newPlan) 12
                          else plan_price_monthly newPlan);
              totalDuration = sub_period_end sub - sub_period_start sub in
          if totalDuration \<le> 0 then newPrice - oldPrice
          else
            let remainingDuration = sub_period_end sub - now in
            if remainingDuration \<le> 0 then 0
            else
              let fraction = of_int remainingDuration / of_int totalDuration
              in trunc_rat (of_int (newPrice - oldPrice) * fraction)
      | _ \<Rightarrow> 0)"

section \<open>Stripe\<close>

text \<open>Whether the update succeeded.\<close>

definition stripe_update_subscription ::
  "('s, 'w) plan_service \<Rightarrow> 'w stripe_client \<Rightarrow> string \<Rightarrow> plan_id \<Rightarrow> billing_interval \<Rightarrow> bool \<Rightarrow> 'w \<Rightarrow> bool \<times> 'w" where
  "stripe_update_subscription svc stripe stripeSubID newPlanID interval prorate w =
     (case ps_price_map svc of
        None \<Rightarrow> (False, w)
      | Some m \<Rightarrow>
          let priceID = get_price m newPlanID interval in
          if priceID = [] then (False, w)
          else
            (case sc_get_item stripe stripeSubID w of
               (None, w) \<Rightarrow> (False, w)
             | (Some None, w) \<Rightarrow> (False, w)
             | (Some (Some itemID), w) \<Rightarrow> sc_update stripe stripeSubID itemID priceID prorate w))"

text \<open>\<open>s.stripe != nil && sub.StripeSubID != ""\<close>.\<close>

definition stripe_managed :: "('s, 'w) plan_service \<Rightarrow> subscription \<Rightarrow> 'w stripe_client option" where
  "stripe_managed svc sub = (if sub_stripe_sub_id sub \<noteq> [] then ps_stripe svc else None)"

section \<open>Changing plans\<close>

type_synonym ('s, 'w) change_outcome = "(change_error + plan_change_result) \<times> 's \<times> 'w"

definition finish_update ::
  "('s, 'w) plan_service \<Rightarrow> subscription \<Rightarrow> plan_change_result \<Rightarrow> time \<Rightarrow> 's \<Rightarrow> 'w \<Rightarrow> ('s, 'w) change_outcome" where
  "finish_update svc sub result now s w =
     (case ss_update (ps_ops svc) s sub now of
        Inl e \<Rightarrow> (Inl (StoreFailed e), s, w)
      | Inr s' \<Rightarrow> (Inr (result\<lparr>res_subscription := Some (sub\<lparr>sub_updated_at := now\<rparr>)\<rparr>), s', w))"

definition handle_downgrade_to_free ::
  "('s, 'w) plan_service \<Rightarrow> subscription option \<Rightarrow> change_mode \<Rightarrow> time \<Rightarrow> plan_change_result \<Rightarrow> 's \<Rightarrow> 'w
     \<Rightarrow> ('s, 'w) change_outcome" where
  "handle_downgrade_to_free svc osub mode now result s w =
     (case osub of
        None \<Rightarrow> (Inl NoSubscription, s, w)
      | Some sub \<Rightarrow>
          if mode = ModeImmediate then
            (case (case stripe_managed svc sub of None \<Rightarrow> (True, w)
                   | Some stripe \<Rightarrow> sc_cancel_now stripe (sub_stripe_sub_id sub) w) of
               (False, w) \<Rightarrow> (Inl StripeFailed, s, w)
             | (True, w) \<Rightarrow>
                 finish_update svc
                   (sub\<lparr>sub_status := SubCanceled, sub_plan_id := PlanFree, sub_cancel_at_period_end := False\<rparr>)
                   (result\<lparr>res_effective_at := now\<rparr>) now s w)
          else
            (case (case stripe_managed svc sub of None \<Rightarrow> (True, w)
                   | Some stripe \<Rightarrow> sc_cancel_at_end stripe (sub_stripe_sub_id sub) w) of
               (False, w) \<Rightarrow> (Inl StripeFailed, s, w)
             | (True, w) \<Rightarrow>
                 finish_update svc (sub\<lparr>sub_cancel_at_period_end := True\<rparr>)
                   (result\<lparr>res_effective_at := sub_period_end sub\<rparr>) now s w))"

definition handle_upgrade_from_free ::
  "('s, 'w) plan_service \<Rightarrow> string \<Rightarrow> string \<Rightarrow> plan_id \<Rightarrow> billing_interval \<Rightarrow> time \<Rightarrow> plan_change_result \<Rightarrow> 's \<Rightarrow> 'w
     \<Rightarrow> ('s, 'w) change_outcome" where
  "handle_upgrade_from_free svc newID userID newPlanID interval now result s w =
     (let periodEnd = (if interval = IntervalYearly then add_date now 1 0 0 else add_date now 0 1 0);
          sub = \<lparr>sub_id = newID, sub_user_id = userID, sub_plan_id = newPlanID, sub_status = SubActive,
                 sub_interval = interval, sub_period_start = now, sub_period_end = periodEnd,
                 sub_cancel_at_period_end = False, sub_stripe_customer_id = [], sub_stripe_sub_id = [],
                 sub_created_at = None, sub_updated_at = zero_time\<rparr>
      in case ss_create (ps_ops svc) s sub now of
           Inl e \<Rightarrow> (Inl (StoreFailed e), s, w)
         | Inr s' \<Rightarrow> (Inr (result\<lparr>res_effective_at := now, res_mode := ModeImmediate,
                                   res_subscription := Some (created_row sub now)\<rparr>), s', w))"

definition handle_paid_plan_change ::
  "('s, 'w) plan_service \<Rightarrow> subscription \<Rightarrow> plan_id \<Rightarrow> billing_interval \<Rightarrow> change_mode \<Rightarrow> time \<Rightarrow> plan_change_result
     \<Rightarrow> 's \<Rightarrow> 'w \<Rightarrow> ('s, 'w) change_outcome" where
  "handle_paid_plan_change svc sub newPlanID interval mode now result0 s w =
     (let result = result0\<lparr>res_proration := estimate_proration (ps_catalogue svc) sub newPlanID interval now\<rparr>;
          changed = sub\<lparr>sub_plan_id := newPlanID, sub_interval := interval\<rparr> in
      if mode = ModeImmediate then
        (case (case stripe_managed svc sub of None \<Rightarrow> (True, w)
               | Some stripe \<Rightarrow> stripe_update_subscription svc stripe (sub_stripe_sub_id sub) newPlanID interval True w) of
           (False, w) \<Rightarrow> (Inl StripeFailed, s, w)
         | (True, w) \<Rightarrow>
             finish_update svc (changed\<lparr>sub_cancel_at_period_end := False\<rparr>) (result\<lparr>res_effective_at := now\<rparr>) now s w)
      else
        let result = result\<lparr>res_effective_at := sub_period_end sub\<rparr> in
        case stripe_managed svc sub of
          Some stripe \<Rightarrow>
            (case stripe_update_subscription svc stripe (sub_stripe_sub_id sub) newPlanID interval False w of
               (ok, w) \<Rightarrow> finish_update svc (if ok then sub else changed) result now s w)
        | None \<Rightarrow>
            finish_update svc changed (result\<lparr>res_effective_at := now, res_mode := ModeImmediate\<rparr>) now s w)"

definition current_sub :: "('s, 'w) plan_service \<Rightarrow> 's \<Rightarrow> string \<Rightarrow> subscription option" where
  "current_sub svc s userID = (case ss_get_by_user (ps_ops svc) s userID of Inl _ \<Rightarrow> None | Inr sub \<Rightarrow> Some sub)"

definition current_plan :: "subscription option \<Rightarrow> plan_id" where
  "current_plan sub = (case sub of None \<Rightarrow> PlanFree | Some s \<Rightarrow> sub_plan_id s)"

definition effective_interval :: "billing_interval \<Rightarrow> subscription option \<Rightarrow> billing_interval" where
  "effective_interval requested sub =
     (let interval = (case sub of Some s \<Rightarrow> if requested = IntervalUnset then sub_interval s else requested
                      | None \<Rightarrow> requested)
      in if interval = IntervalUnset \<or> interval = IntervalNone then IntervalMonthly else interval)"

text \<open>The checks \<open>ChangePlan\<close> begins with, and the direction, mode and interval they settle.\<close>

definition validate_change ::
  "('s, 'w) plan_service \<Rightarrow> string \<Rightarrow> plan_change_request \<Rightarrow> 's
     \<Rightarrow> change_error + direction \<times> change_mode \<times> billing_interval" where
  "validate_change svc userID req s =
     (let newPlanID = pcr_new_plan_id req in
      if userID = [] then Inl UserRequired
      else if \<not> valid_plan_id newPlanID then Inl (InvalidPlan newPlanID)
      else
      case catalogue_get (ps_catalogue svc) newPlanID of
        None \<Rightarrow> Inl (PlanNotFound newPlanID)
      | Some newPlan \<Rightarrow>
          if \<not> plan_active newPlan then Inl (PlanNotAvailable newPlanID)
          else
          let sub = current_sub svc s userID;
              direction = compare_plans (current_plan sub) newPlanID in
          if direction = DirectionSame then Inl (AlreadyOnPlan newPlanID)
          else
          let mode = (if pcr_mode req = ModeUnset then default_change_mode direction else pcr_mode req) in
          if mode \<noteq> ModeImmediate \<and> mode \<noteq> ModeAtPeriodEnd then Inl (InvalidMode mode)
          else Inr (direction, mode, effective_interval (pcr_interval req) sub))"

definition change_plan ::
  "('s, 'w) plan_service \<Rightarrow> string \<Rightarrow> plan_change_request \<Rightarrow> time \<Rightarrow> string \<Rightarrow> 's \<Rightarrow> 'w \<Rightarrow> ('s, 'w) change_outcome" where
  "change_plan svc userID req now newID s w =
     (case validate_change svc userID req s of
        Inl err \<Rightarrow> (Inl err, s, w)
      | Inr (direction, mode, interval) \<Rightarrow>
          let newPlanID = pcr_new_plan_id req;
              sub = current_sub svc s userID;
              currentPlanID = current_plan sub;
              result = \<lparr>res_direction = direction, res_mode = mode, res_previous_plan = currentPlanID,
                res_new_plan = newPlanID, res_effective_at = zero_time, res_subscription = None, res_proration = 0\<rparr> in
          if newPlanID = PlanFree then handle_downgrade_to_free svc sub mode now result s w
          else
          case sub of
            None \<Rightarrow> handle_upgrade_from_free svc newID userID newPlanID interval now result s w
          | Some sb \<Rightarrow>
              if currentPlanID = PlanFree
              then handle_upgrade_from_free svc newID userID newPlanID interval now result s w
              else handle_paid_plan_change svc sb newPlanID interval mode now result s w)"

definition preview_change ::
  "('s, 'w) plan_service \<Rightarrow> string \<Rightarrow> plan_change_request \<Rightarrow> time \<Rightarrow> 's \<Rightarrow> change_error + plan_change_result" where
  "preview_change svc userID req now s =
     (let newPlanID = pcr_new_plan_id req in
      if userID = [] then Inl UserRequired
      else if \<not> valid_plan_id newPlanID then Inl (InvalidPlan newPlanID)
      else
      case catalogue_get (ps_catalogue svc) newPlanID of
        None \<Rightarrow> Inl (PlanNotFound newPlanID)
      | Some newPlan \<Rightarrow>
          let sub = current_sub svc s userID;
              currentPlanID = current_plan sub;
              direction = compare_plans currentPlanID newPlanID;
              mode = (if pcr_mode req = ModeUnset then default_change_mode direction else pcr_mode req);
              interval = effective_interval (pcr_interval req) sub in
          Inr \<lparr>res_direction = direction, res_mode = mode, res_previous_plan = currentPlanID, res_new_plan = newPlanID,
            res_effective_at = (if mode = ModeImmediate then now
                                else case sub of Some sb \<Rightarrow> sub_period_end sb | None \<Rightarrow> now),
            res_subscription = None,
            res_proration = (case sub of Some sb \<Rightarrow>
                if direction \<noteq> DirectionSame then estimate_proration (ps_catalogue svc) sb newPlanID interval now else 0
              | None \<Rightarrow> 0)\<rparr>)"

definition sqlite_sub_ops :: "sub_table sub_store_ops" where
  "sqlite_sub_ops = \<lparr>ss_create = sub_create, ss_get_by_user = sub_get_by_user, ss_update = sub_update\<rparr>"

section \<open>Lemmas\<close>

lemmas change_defs = change_plan_def handle_downgrade_to_free_def handle_upgrade_from_free_def
  handle_paid_plan_change_def finish_update_def

text \<open>The three ways a change can succeed, whatever the store.\<close>

lemma finish_update_result:
  "finish_update svc sub result now s w = (Inr res, s', w') \<longleftrightarrow>
     ss_update (ps_ops svc) s sub now = Inr s' \<and> res = result\<lparr>res_subscription := Some (sub\<lparr>sub_updated_at := now\<rparr>)\<rparr> \<and> w' = w"
  by (auto simp: finish_update_def split: sum.split)

text \<open>The row a successful change writes over the current subscription.\<close>

definition rewritten :: "plan_id \<Rightarrow> subscription \<Rightarrow> change_mode \<Rightarrow> subscription \<Rightarrow> bool" where
  "rewritten new sub mode sub' \<longleftrightarrow> sub_id sub' = sub_id sub \<and> (mode = ModeImmediate \<longrightarrow> sub_plan_id sub' = new)
     \<and> (sub_plan_id sub' = new \<or> sub_plan_id sub' = sub_plan_id sub)"

lemma downgrade_result:
  assumes "handle_downgrade_to_free svc osub mode now result s w = (Inr res, s', w')"
    and "res_mode result = mode"
  shows "\<exists>sub sub'. osub = Some sub \<and> ss_update (ps_ops svc) s sub' now = Inr s' \<and> rewritten PlanFree sub (res_mode res) sub'"
  using assms
  by (auto simp: handle_downgrade_to_free_def finish_update_result rewritten_def
      split: option.splits if_splits prod.splits bool.splits intro: exI)

lemma paid_change_result:
  assumes "handle_paid_plan_change svc sub new interval mode now result s w = (Inr res, s', w')"
    and "res_mode result = mode"
  shows "\<exists>sub'. ss_update (ps_ops svc) s sub' now = Inr s' \<and> rewritten new sub (res_mode res) sub'"
  using assms
  by (auto simp: handle_paid_plan_change_def Let_def finish_update_result rewritten_def
      split: option.splits if_splits prod.splits bool.splits intro: exI)

lemma upgrade_result:
  assumes "handle_upgrade_from_free svc newID u new interval now result s w = (Inr res, s', w')"
  shows "\<exists>sub. ss_create (ps_ops svc) s sub now = Inr s' \<and> sub_user_id sub = u \<and> sub_created_at sub = None
    \<and> sub_plan_id sub = new \<and> sub_status sub = SubActive \<and> w' = w"
  using assms by (auto simp: handle_upgrade_from_free_def Let_def split: sum.splits)

lemma change_plan_success:
  assumes "change_plan svc u req now newID s w = (Inr res, s', w')"
  obtains (created) sub where "ss_create (ps_ops svc) s sub now = Inr s'" "sub_user_id sub = u"
      "sub_created_at sub = None" "sub_plan_id sub = pcr_new_plan_id req"
  | (updated) sub sub' where "current_sub svc s u = Some sub" "ss_update (ps_ops svc) s sub' now = Inr s'"
      "rewritten (pcr_new_plan_id req) sub (res_mode res) sub'"
proof (cases "validate_change svc u req s")
  case (Inr v)
  obtain d m i where v: "v = (d, m, i)" by (cases v)
  let ?r = "\<lparr>res_direction = d, res_mode = m, res_previous_plan = current_plan (current_sub svc s u),
    res_new_plan = pcr_new_plan_id req, res_effective_at = zero_time, res_subscription = None, res_proration = 0\<rparr>"
  note run = assms [unfolded change_plan_def Inr v sum.case prod.case Let_def]
  show thesis
  proof (cases "pcr_new_plan_id req = PlanFree")
    case True
    with run downgrade_result [of svc "current_sub svc s u" m now ?r s w res s' w'] updated show thesis by auto
  next
    case new: False
    show thesis
    proof (cases "current_sub svc s u")
      case None
      with run new upgrade_result [of svc newID u "pcr_new_plan_id req" i now ?r s w res s' w'] created
      show thesis by auto
    next
      case (Some sub)
      show thesis
      proof (cases "current_plan (current_sub svc s u) = PlanFree")
        case True
        with run new Some upgrade_result [of svc newID u "pcr_new_plan_id req" i now ?r s w res s' w'] created
        show thesis by auto
      next
        case False
        with run new Some paid_change_result [of svc sub "pcr_new_plan_id req" i m now ?r s w res s' w'] updated
        show thesis by auto
      qed
    qed
  qed
qed (use assms in \<open>simp add: change_plan_def\<close>)

context subscription_store
begin

abbreviation ops where
  "ops \<equiv> \<lparr>ss_create = create, ss_get_by_user = get_by_user, ss_update = update\<rparr>"

lemma change_plan_applies:
  assumes "ps_ops svc = ops" and "change_plan svc u req now newID s w = (Inr res, s', w')"
    and "\<And>r. get_by_user s u = Inr r \<Longrightarrow> sub_created r < now"
  shows "\<exists>sub'. get_by_user s' u = Inr sub'
    \<and> (res_mode res = ModeImmediate \<longrightarrow> sub_plan_id sub' = pcr_new_plan_id req)
    \<and> (sub_plan_id sub' = pcr_new_plan_id req \<or> sub_plan_id sub' = current_plan (current_sub svc s u))"
  using assms(2)
proof (cases rule: change_plan_success)
  case (created sub)
  then have "get_by_user s' u = Inr (created_row sub now)"
    using create_get [of s sub now s'] assms(1,3) by simp
  with created show ?thesis by simp
next
  case (updated sub sub')
  then have g: "get_by_user s u = Inr sub" using assms(1) by (simp add: current_sub_def split: sum.splits)
  then have "get_by_user s' u = Inr (sub_assign (sub'\<lparr>sub_updated_at := now\<rparr>) sub)"
    using update_get [of s sub' now s' u sub] updated assms(1) by (simp add: rewritten_def)
  with updated show ?thesis by (auto simp: current_plan_def rewritten_def)
qed

lemma change_plan_others:
  assumes "ps_ops svc = ops" and "change_plan svc u req now newID s w = (Inr res, s', w')" and "v \<noteq> u"
    and "\<And>q r. get_by_user s u = Inr q \<Longrightarrow> get_by_user s v = Inr r \<Longrightarrow> sub_id r \<noteq> sub_id q"
  shows "get_by_user s' v = get_by_user s v"
  using assms(2)
proof (cases rule: change_plan_success)
  case (created sub)
  then show ?thesis using create_other [of s sub now s' v] assms(1,3) by simp
next
  case (updated sub sub')
  then have g: "get_by_user s u = Inr sub" using assms(1) by (simp add: current_sub_def split: sum.splits)
  show ?thesis
    by (rule update_other [of s sub' now s' v]) (use updated assms(1,4) g in \<open>auto simp: rewritten_def\<close>)
qed

end

lemma sqlite_sub_ops_eq: "sqlite_sub_ops = subs.ops"
  by (simp add: sqlite_sub_ops_def)

section \<open>Properties\<close>

text \<open>a change that is refused or fails leaves the subscription store as it was,
  whatever Stripe answered; and no answer but a Stripe or store failure follows a call to
  Stripe.\<close>

theorem failed_change_keeps_store:
  assumes "change_plan svc u req now newID s w = (Inl err, s', w')"
  shows "s' = s \<and> (err \<noteq> StripeFailed \<and> (\<nexists>e. err = StoreFailed e) \<longrightarrow> w' = w)"
proof (cases "validate_change svc u req s")
  case (Inl e)
  with assms have "s' = s \<and> w' = w" by (simp add: change_plan_def)
  then show ?thesis by simp
next
  case (Inr v)
  with assms show ?thesis
    by (cases v) (auto simp: change_plan_def Let_def handle_downgrade_to_free_def handle_upgrade_from_free_def
        handle_paid_plan_change_def finish_update_def split: if_splits option.splits sum.splits prod.splits bool.splits)
qed

text \<open>Users, services and a Stripe client for the examples: every call to this client fails.\<close>

definition dead_stripe :: "nat stripe_client" where
  "dead_stripe = \<lparr>sc_cancel_now = (\<lambda>i w. (False, Suc w)), sc_cancel_at_end = (\<lambda>i w. (False, Suc w)),
     sc_get_item = (\<lambda>i w. (None, Suc w)), sc_update = (\<lambda>i it p b w. (False, Suc w))\<rparr>"

definition no_prices :: price_map where
  "no_prices = \<lparr>pm_monthly = Map.empty, pm_yearly = Map.empty\<rparr>"

definition sample_service :: "nat stripe_client option \<Rightarrow> (sub_table, nat) plan_service" where
  "sample_service stripe = \<lparr>ps_ops = sqlite_sub_ops, ps_catalogue = default_plans,
     ps_price_map = Some no_prices, ps_stripe = stripe\<rparr>"

definition starter_sub :: "sub_status \<Rightarrow> string \<Rightarrow> subscription" where
  "starter_sub status stripeID = \<lparr>sub_id = ''s1'', sub_user_id = ''u'', sub_plan_id = PlanStarter, sub_status = status,
     sub_interval = IntervalMonthly, sub_period_start = 0, sub_period_end = 30 * day,
     sub_cancel_at_period_end = False, sub_stripe_customer_id = [], sub_stripe_sub_id = stripeID,
     sub_created_at = Some 0, sub_updated_at = 0\<rparr>"

definition request :: "plan_id \<Rightarrow> change_mode \<Rightarrow> plan_change_request" where
  "request p m = \<lparr>pcr_new_plan_id = p, pcr_interval = IntervalUnset, pcr_mode = m\<rparr>"

theorem failed_change_keeps_store_witness:
  "change_plan (sample_service (Some dead_stripe)) ''u'' (request PlanFree ModeImmediate) 5 ''n''
       [starter_sub SubActive ''sub_1''] 0 = (Inl StripeFailed, [starter_sub SubActive ''sub_1''], 1)
   \<and> [starter_sub SubActive ''sub_1''] = [starter_sub SubActive ''sub_1'']"
proof -
  have r: "change_plan (sample_service (Some dead_stripe)) ''u'' (request PlanFree ModeImmediate) 5 ''n''
       [starter_sub SubActive ''sub_1''] 0 = (Inl StripeFailed, [starter_sub SubActive ''sub_1''], 1)"
    by (simp add: change_plan_def validate_change_def sample_service_def request_def starter_sub_def sqlite_sub_ops_def
        current_sub_def current_plan_def sub_get_by_user_def catalogue_get_def default_plans_def free_plan_def
        compare_plans_def plan_tier_order_def handle_downgrade_to_free_def stripe_managed_def dead_stripe_def Let_def)
  with failed_change_keeps_store [OF r] show ?thesis by blast
qed

text \<open>a successful change over the SQLite store leaves the user with a current
  subscription, on the new plan whenever the result says the change is immediate, and leaves
  every other user's subscription alone.\<close>

theorem change_plan_takes_effect:
  assumes "ps_ops svc = sqlite_sub_ops" and "change_plan svc u req now newID tbl w = (Inr res, tbl', w')"
    and "\<And>r. sub_get_by_user tbl u = Inr r \<Longrightarrow> sub_created r < now"
    and "distinct (map sub_id tbl)"
  shows "(\<exists>sub'. sub_get_by_user tbl' u = Inr sub' \<and> (res_mode res = ModeImmediate \<longrightarrow> sub_plan_id sub' = pcr_new_plan_id req))
    \<and> (\<forall>v. v \<noteq> u \<longrightarrow> sub_get_by_user tbl' v = sub_get_by_user tbl v)"
proof -
  have ops: "ps_ops svc = subs.ops" using assms(1) by (simp add: sqlite_sub_ops_eq)
  have "sub_get_by_user tbl' v = sub_get_by_user tbl v" if "v \<noteq> u" for v
  proof (rule subs.change_plan_others [OF ops assms(2) that])
    show "sub_id r \<noteq> sub_id q" if "sub_get_by_user tbl u = Inr q" "sub_get_by_user tbl v = Inr r" for q r
      using sub_get_by_user_user [OF that(1)] sub_get_by_user_user [OF that(2)] \<open>v \<noteq> u\<close> assms(4)
      by (metis distinct_map inj_onD)
  qed
  with subs.change_plan_applies [OF ops assms(2,3)] show ?thesis by blast
qed

theorem change_plan_takes_effect_witness:
  "\<exists>res tbl' w'. change_plan (sample_service None) ''u'' (request PlanPro ModeUnset) 5 ''n'' [starter_sub SubActive []] 0
      = (Inr res, tbl', w') \<and> (\<exists>sub'. sub_get_by_user tbl' ''u'' = Inr sub' \<and> sub_plan_id sub' = PlanPro)
      \<and> sub_get_by_user tbl' ''v'' = sub_get_by_user [starter_sub SubActive []] ''v''"
proof -
  let ?run = "change_plan (sample_service None) ''u'' (request PlanPro ModeUnset) 5 ''n'' [starter_sub SubActive []] 0"
  have ok: "\<exists>res. fst ?run = Inr res \<and> res_mode res = ModeImmediate"
    by (simp add: change_plan_def validate_change_def sample_service_def request_def starter_sub_def sqlite_sub_ops_def
        current_sub_def current_plan_def sub_get_by_user_def catalogue_get_def default_plans_def pro_plan_def
        compare_plans_def plan_tier_order_def default_change_mode_def handle_paid_plan_change_def stripe_managed_def
        finish_update_def sub_update_def Let_def)
  then obtain res where r: "?run = (Inr res, fst (snd ?run), snd (snd ?run))" "res_mode res = ModeImmediate"
    by (metis prod.collapse)
  have "ps_ops (sample_service None) = sqlite_sub_ops" by (simp add: sample_service_def)
  from change_plan_takes_effect [OF this r(1)] r show ?thesis
    by (intro exI [of _ res] exI [of _ "fst (snd ?run)"] exI [of _ "snd (snd ?run)"])
       (auto simp: sub_get_by_user_def starter_sub_def sub_created_def request_def)
qed

text \<open>a change scheduled for the period end is applied at once when Stripe has no
  price for the new plan: the subscription is on the new plan immediately, Stripe was not
  called, and the result still announces the end of the period. So a subscriber can move to
  a plan without a Stripe price, such as Enterprise, without paying.\<close>

theorem unpriced_scheduled_change_applies_now:
  assumes "ps_ops svc = sqlite_sub_ops" and "ps_stripe svc = Some stripe" and "ps_price_map svc = Some prices"
    and "sub_get_by_user tbl u = Inr sub" and "sub_stripe_sub_id sub \<noteq> []" and "valid_subscription_status (sub_status sub)"
    and "validate_change svc u req tbl = Inr (d, ModeAtPeriodEnd, i)"
    and "pcr_new_plan_id req \<noteq> PlanFree" and "sub_plan_id sub \<noteq> PlanFree"
    and "get_price prices (pcr_new_plan_id req) i = []"
  shows "\<exists>res tbl' sub'. change_plan svc u req now newID tbl w = (Inr res, tbl', w)
    \<and> res_mode res = ModeAtPeriodEnd \<and> res_effective_at res = sub_period_end sub
    \<and> sub_get_by_user tbl' u = Inr sub' \<and> sub_plan_id sub' = pcr_new_plan_id req"
proof -
  let ?sub = "sub\<lparr>sub_plan_id := pcr_new_plan_id req, sub_interval := i\<rparr>"
  have v: "valid_plan_id (pcr_new_plan_id req)"
    using assms(7) by (auto simp: validate_change_def Let_def split: if_splits)
  have "\<exists>r \<in> set tbl. sub_id r = sub_id sub" using sub_get_by_user_user [OF assms(4)] by blast
  then obtain tbl' where up: "sub_update tbl ?sub now = Inr tbl'"
    using v assms(6) by (auto simp: sub_update_def Let_def)
  have cur: "current_sub svc tbl u = Some sub" using assms(1,4) by (simp add: current_sub_def sqlite_sub_ops_def)
  have st: "stripe_update_subscription svc stripe (sub_stripe_sub_id sub) (pcr_new_plan_id req) i False w = (False, w)"
    using assms(3,10) by (simp add: stripe_update_subscription_def)
  have "\<exists>res. change_plan svc u req now newID tbl w = (Inr res, tbl', w)
      \<and> res_mode res = ModeAtPeriodEnd \<and> res_effective_at res = sub_period_end sub"
    using assms(1,2,5,7,8,9) cur st up
    by (simp add: change_plan_def handle_paid_plan_change_def finish_update_def stripe_managed_def current_plan_def
        sqlite_sub_ops_def Let_def)
  moreover have "\<exists>sub'. sub_get_by_user tbl' u = Inr sub' \<and> sub_plan_id sub' = pcr_new_plan_id req"
    using sub_get_by_user_update [OF up, of u] assms(4) by simp
  ultimately show ?thesis by blast
qed

lemma no_prices_price: "get_price no_prices p i = []"
  by (cases i) (simp_all add: get_price_def no_prices_def)

theorem unpriced_scheduled_change_applies_now_witness:
  "\<exists>res tbl' sub'. change_plan (sample_service (Some dead_stripe)) ''u'' (request PlanEnterprise ModeAtPeriodEnd) 5 ''n''
      [starter_sub SubActive ''sub_1''] 0 = (Inr res, tbl', 0)
    \<and> res_mode res = ModeAtPeriodEnd \<and> res_effective_at res = sub_period_end (starter_sub SubActive ''sub_1'')
    \<and> sub_get_by_user tbl' ''u'' = Inr sub' \<and> sub_plan_id sub' = PlanEnterprise"
proof -
  have g: "sub_get_by_user [starter_sub SubActive ''sub_1''] ''u'' = Inr (starter_sub SubActive ''sub_1'')"
    by (simp add: sub_get_by_user_def starter_sub_def)
  have v: "validate_change (sample_service (Some dead_stripe)) ''u'' (request PlanEnterprise ModeAtPeriodEnd)
      [starter_sub SubActive ''sub_1''] = Inr (DirectionUpgrade, ModeAtPeriodEnd, IntervalMonthly)"
    using g by (simp add: validate_change_def request_def sample_service_def sqlite_sub_ops_def current_sub_def
        current_plan_def catalogue_get_def default_plans_def enterprise_plan_def compare_plans_def plan_tier_order_def
        effective_interval_def starter_sub_def Let_def)
  have "\<exists>res tbl' sub'. change_plan (sample_service (Some dead_stripe)) ''u'' (request PlanEnterprise ModeAtPeriodEnd) 5 ''n''
      [starter_sub SubActive ''sub_1''] 0 = (Inr res, tbl', 0)
    \<and> res_mode res = ModeAtPeriodEnd \<and> res_effective_at res = sub_period_end (starter_sub SubActive ''sub_1'')
    \<and> sub_get_by_user tbl' ''u'' = Inr sub'
    \<and> sub_plan_id sub' = pcr_new_plan_id (request PlanEnterprise ModeAtPeriodEnd)"
    by (rule unpriced_scheduled_change_applies_now [where prices = no_prices, OF _ _ _ g _ _ v])
       (simp_all add: sample_service_def starter_sub_def request_def no_prices_price)
  then show ?thesis by (simp add: request_def)
qed

text \<open>a subscription that no longer grants access blocks its owner: with a canceled,
  expired or paused paid subscription, asking for the same plan is refused as already on
  it, and without Stripe a change to another paid plan succeeds but leaves the user without
  access.\<close>

theorem lapsed_subscription_locks_out:
  assumes "ps_ops svc = sqlite_sub_ops" and "ps_stripe svc = None" and "sub_get_by_user tbl u = Inr sub"
    and "\<not> sub_is_active sub" and "sub_plan_id sub \<noteq> PlanFree" and "pcr_new_plan_id req \<noteq> PlanFree"
  shows "case change_plan svc u req now newID tbl w of
      (Inr res, tbl', _) \<Rightarrow> pcr_new_plan_id req \<noteq> sub_plan_id sub
         \<and> (\<exists>sub'. sub_get_by_user tbl' u = Inr sub' \<and> \<not> sub_is_active sub')
    | (Inl err, tbl', _) \<Rightarrow> tbl' = tbl"
proof -
  have cur: "current_sub svc tbl u = Some sub" "current_plan (current_sub svc tbl u) = sub_plan_id sub"
    using assms(1,3) by (simp_all add: current_sub_def current_plan_def sqlite_sub_ops_def)
  have nm: "stripe_managed svc s = None" for s using assms(2) by (simp add: stripe_managed_def)
  show ?thesis
  proof (cases "validate_change svc u req tbl")
    case (Inl e)
    then show ?thesis by (simp add: change_plan_def)
  next
    case (Inr v)
    then have "compare_plans (sub_plan_id sub) (pcr_new_plan_id req) \<noteq> DirectionSame"
      using cur by (auto simp: validate_change_def Let_def split: if_splits option.splits)
    then have ne: "pcr_new_plan_id req \<noteq> sub_plan_id sub" by (auto simp: compare_plans_def Let_def)
    obtain d m i where v: "v = (d, m, i)" by (cases v)
    have keep: "\<exists>sub''. sub_get_by_user tbl' u = Inr sub'' \<and> \<not> sub_is_active sub''"
      if "sub_update tbl sub' now = Inr tbl'" "sub_id sub' = sub_id sub" "sub_status sub' = sub_status sub" for sub' tbl'
      using sub_get_by_user_update [OF that(1), of u] assms(3,4) that(2,3) by (simp add: sub_is_active_def)
    show ?thesis
      using Inr v cur assms(1,5,6) ne nm keep
      by (auto simp: change_plan_def handle_paid_plan_change_def finish_update_def sqlite_sub_ops_def Let_def
          split: sum.split)
  qed
qed

theorem lapsed_subscription_locks_out_witness:
  "case change_plan (sample_service None) ''u'' (request PlanPro ModeUnset) 5 ''n'' [starter_sub SubCanceled []] 0 of
      (Inr res, tbl', _) \<Rightarrow> PlanPro \<noteq> PlanStarter
         \<and> (\<exists>sub'. sub_get_by_user tbl' ''u'' = Inr sub' \<and> \<not> sub_is_active sub')
    | (Inl err, tbl', _) \<Rightarrow> tbl' = [starter_sub SubCanceled []]"
proof -
  have g: "sub_get_by_user [starter_sub SubCanceled []] ''u'' = Inr (starter_sub SubCanceled [])"
    by (simp add: sub_get_by_user_def starter_sub_def)
  have p: "pcr_new_plan_id (request PlanPro ModeUnset) = PlanPro" "sub_plan_id (starter_sub SubCanceled []) = PlanStarter"
    by (simp_all add: request_def starter_sub_def)
  show ?thesis
    using lapsed_subscription_locks_out [of "sample_service None", OF _ _ g, of "request PlanPro ModeUnset" 5 "''n''" 0]
    unfolding p by (simp add: sample_service_def starter_sub_def sub_is_active_def)
qed

end
