(* ===== verification/Json.thy ===== *)
theory Json
  imports Prelude "HOL-Library.Word"
begin

text \<open>
  What the sources use of Go's packages \<open>encoding/json\<close> and \<open>strconv\<close>: a JSON value as the
  syntax tree of its text, \<open>json.Unmarshal\<close> of such a value into a struct (a missing or null
  field keeps its value, a field is found by its exact name or else in any case, the last of
  equal names wins, a value of the wrong type makes the call fail), and \<open>strconv.ParseInt\<close>.
  How a text is read into a tree is an argument of the definitions that need it.
\<close>

section \<open>Integers\<close>

definition int64 :: "int \<Rightarrow> int" where
  "int64 n = sint (word_of_int n :: 64 word)"

definition is_digit :: "char \<Rightarrow> bool" where
  "is_digit c \<longleftrightarrow> 48 \<le> (of_char c :: nat) \<and> (of_char c :: nat) \<le> 57"

definition digits_value :: "string \<Rightarrow> nat" where
  "digits_value s = foldl (\<lambda>n c. 10 * n + (of_char c - 48)) 0 s"

text \<open>\<open>ParseInt(s, 10, 64)\<close>: an optional sign, at least one digit, and the value in range.\<close>

definition parse_int :: "string \<Rightarrow> int option" where
  "parse_int s =
     (let (neg, ds) = (case s of c # cs \<Rightarrow> if c = CHR ''-'' then (True, cs) else if c = CHR ''+'' then (False, cs)
                         else (False, s) | [] \<Rightarrow> (False, s));
          n = (if neg then - int (digits_value ds) else int (digits_value ds))
      in if ds \<noteq> [] \<and> list_all is_digit ds \<and> - (2 ^ 63) \<le> n \<and> n < 2 ^ 63 then Some n else None)"

section \<open>Values and their decoding\<close>

datatype json = JNull | JBool bool | JNumber string | JString string | JArray "json list"
  | JObject "(string \<times> json) list"

text \<open>A decoder takes a JSON value and the current value of its target, and says whether the
  types fit.\<close>

type_synonym 'a decoder = "json \<Rightarrow> 'a \<Rightarrow> 'a \<times> bool"

fun decode_string :: "string decoder" where
  "decode_string (JString s) _ = (s, True)"
| "decode_string JNull old = (old, True)"
| "decode_string _ old = (old, False)"

fun decode_bool :: "bool decoder" where
  "decode_bool (JBool b) _ = (b, True)"
| "decode_bool JNull old = (old, True)"
| "decode_bool _ old = (old, False)"

fun decode_int :: "int decoder" where
  "decode_int (JNumber l) old = (case parse_int l of None \<Rightarrow> (old, False) | Some n \<Rightarrow> (n, True))"
| "decode_int JNull old = (old, True)"
| "decode_int _ old = (old, False)"

text \<open>A target of type \<open>json.RawMessage\<close>; \<open>None\<close> is the empty message.\<close>

fun decode_raw :: "json option decoder" where
  "decode_raw j _ = (Some j, True)"

fun decode_pointer :: "'a decoder \<Rightarrow> 'a \<Rightarrow> 'a option decoder" where
  "decode_pointer d zero JNull old = (None, True)"
| "decode_pointer d zero j old =
     (case d j (case old of None \<Rightarrow> zero | Some v \<Rightarrow> v) of (v, ok) \<Rightarrow> (Some v, ok))"

fun decode_slice :: "'a decoder \<Rightarrow> 'a \<Rightarrow> 'a list decoder" where
  "decode_slice d zero JNull old = ([], True)"
| "decode_slice d zero (JArray js) old = (map (\<lambda>j. fst (d j zero)) js, list_all (\<lambda>j. snd (d j zero)) js)"
| "decode_slice d zero _ old = (old, False)"

definition find_field :: "(string \<times> 'r decoder) list \<Rightarrow> string \<Rightarrow> 'r decoder option" where
  "find_field fields key =
     (case map_of fields key of
        Some d \<Rightarrow> Some d
      | None \<Rightarrow> map_option snd (find (\<lambda>f. equal_fold (fst f) key) fields))"

fun decode_fields :: "(string \<times> 'r decoder) list \<Rightarrow> (string \<times> json) list \<Rightarrow> 'r \<Rightarrow> 'r \<times> bool" where
  "decode_fields fields [] r = (r, True)"
| "decode_fields fields ((key, j) # kvs) r =
     (case find_field fields key of
        None \<Rightarrow> decode_fields fields kvs r
      | Some d \<Rightarrow>
          (case d j r of (r', ok) \<Rightarrow>
             case decode_fields fields kvs r' of (r'', ok') \<Rightarrow> (r'', ok \<and> ok')))"

fun decode_struct :: "(string \<times> 'r decoder) list \<Rightarrow> 'r decoder" where
  "decode_struct fields (JObject kvs) r = decode_fields fields kvs r"
| "decode_struct fields JNull r = (r, True)"
| "decode_struct fields _ r = (r, False)"

text \<open>The decoder of one field, from the decoder of its type and its selector and update.\<close>

definition json_field ::
  "string \<Rightarrow> 'a decoder \<Rightarrow> ('r \<Rightarrow> 'a) \<Rightarrow> (('a \<Rightarrow> 'a) \<Rightarrow> 'r \<Rightarrow> 'r) \<Rightarrow> string \<times> 'r decoder" where
  "json_field key d get upd = (key, \<lambda>j r. case d j (get r) of (v, ok) \<Rightarrow> (upd (\<lambda>_. v) r, ok))"

definition unmarshal_value :: "'a decoder \<Rightarrow> 'a \<Rightarrow> json option \<Rightarrow> 'a option" where
  "unmarshal_value d zero v =
     (case v of None \<Rightarrow> None | Some j \<Rightarrow> (case d j zero of (r, ok) \<Rightarrow> if ok then Some r else None))"

section \<open>Lemmas\<close>

lemma int64_mod: "int64 n = (n + 2 ^ 63) mod 2 ^ 64 - 2 ^ 63"
  by (simp add: int64_def int_word_sint)

lemma int64_id: "- (2 ^ 63) \<le> n \<Longrightarrow> n < 2 ^ 63 \<Longrightarrow> int64 n = n"
  by (simp add: int64_mod)

lemma int64_wraps:
  assumes "2 ^ 63 \<le> n" and "n < 2 ^ 64"
  shows "int64 n = n - 2 ^ 64"
proof -
  have "(n + 2 ^ 63) mod 2 ^ 64 = (n + 2 ^ 63 - 2 ^ 64) mod (2 ^ 64 :: int)" by (simp only: minus_mod_self2)
  also have "\<dots> = n + 2 ^ 63 - 2 ^ 64" using assms by (intro mod_pos_pos_trivial) auto
  finally show ?thesis by (simp add: int64_mod)
qed

lemma parse_int_range: "parse_int s = Some n \<Longrightarrow> - (2 ^ 63) \<le> n \<and> n < 2 ^ 63"
  by (auto simp: parse_int_def Let_def split: prod.splits if_splits)

lemma parse_int_examples:
  "parse_int ''1700000000'' = Some 1700000000" "parse_int ''-12'' = Some (- 12)" "parse_int ''+7'' = Some 7"
  "parse_int ''9223372036854775808'' = None" "parse_int '''' = None" "parse_int ''1e3'' = None"
  by (simp_all add: parse_int_def digits_value_def is_digit_def)

end
