(* ===== verification/Stripe_Client.thy ===== *)
theory Stripe_Client
  imports Plan_Change Json
begin

text \<open>
  \<open>pkg/billing/stripe.go\<close>: the objects of the Stripe API and how they are decoded, the client
  with its requests, the verification of a webhook's signature and the look-up of a plan by
  its price. The HTTP exchange is an argument with a hidden state, reading a text as JSON and
  the keyed hash (\<open>HMAC-SHA256\<close> in hexadecimal) are arguments. \<open>stripe_http_client\<close> is the
  client the plan changes of theory \<open>Plan_Change\<close> call.
\<close>

section \<open>Objects\<close>

record stripe_price =
  spr_id :: string
  spr_product :: string
  spr_interval :: string

record stripe_item =
  sit_id :: string
  sit_price :: stripe_price

record stripe_items =
  sis_data :: "stripe_item list"

record stripe_subscription =
  ssu_id :: string
  ssu_customer :: string
  ssu_status :: string
  ssu_period_start :: int
  ssu_period_end :: int
  ssu_cancel_at_period_end :: bool
  ssu_items :: "stripe_items option"

record checkout_session =
  cs_id :: string
  cs_url :: string
  cs_customer :: string
  cs_subscription :: string
  cs_payment_status :: string
  cs_mode :: string
  cs_client_reference :: string

record stripe_invoice =
  inv_subscription :: string

record stripe_event =
  ev_id :: string
  ev_type :: string
  ev_created :: int
  ev_object :: "json option"

definition decode_price :: "stripe_price decoder" where
  "decode_price = decode_struct [json_field ''id'' decode_string spr_id spr_id_update,
     json_field ''product'' decode_string spr_product spr_product_update,
     json_field ''interval'' decode_string spr_interval spr_interval_update]"

definition zero_price :: stripe_price where
  "zero_price = \<lparr>spr_id = [], spr_product = [], spr_interval = []\<rparr>"

definition decode_item :: "stripe_item decoder" where
  "decode_item = decode_struct [json_field ''id'' decode_string sit_id sit_id_update,
     json_field ''price'' decode_price sit_price sit_price_update]"

definition decode_items :: "stripe_items decoder" where
  "decode_items = decode_struct
     [json_field ''data'' (decode_slice decode_item \<lparr>sit_id = [], sit_price = zero_price\<rparr>) sis_data sis_data_update]"

definition zero_stripe_subscription :: stripe_subscription where
  "zero_stripe_subscription = \<lparr>ssu_id = [], ssu_customer = [], ssu_status = [], ssu_period_start = 0,
     ssu_period_end = 0, ssu_cancel_at_period_end = False, ssu_items = None\<rparr>"

definition decode_stripe_subscription :: "stripe_subscription decoder" where
  "decode_stripe_subscription = decode_struct
     [json_field ''id'' decode_string ssu_id ssu_id_update,
      json_field ''customer'' decode_string ssu_customer ssu_customer_update,
      json_field ''status'' decode_string ssu_status ssu_status_update,
      json_field ''current_period_start'' decode_int ssu_period_start ssu_period_start_update,
      json_field ''current_period_end'' decode_int ssu_period_end ssu_period_end_update,
      json_field ''cancel_at_period_end'' decode_bool ssu_cancel_at_period_end ssu_cancel_at_period_end_update,
      json_field ''items'' (decode_pointer decode_items \<lparr>sis_data = []\<rparr>) ssu_items ssu_items_update]"

definition zero_session :: checkout_session where
  "zero_session = \<lparr>cs_id = [], cs_url = [], cs_customer = [], cs_subscription = [], cs_payment_status = [],
     cs_mode = [], cs_client_reference = []\<rparr>"

definition decode_session :: "checkout_session decoder" where
  "decode_session = decode_struct
     [json_field ''id'' decode_string cs_id cs_id_update,
      json_field ''url'' decode_string cs_url cs_url_update,
      json_field ''customer'' decode_string cs_customer cs_customer_update,
      json_field ''subscription'' decode_string cs_subscription cs_subscription_update,
      json_field ''payment_status'' decode_string cs_payment_status cs_payment_status_update,
      json_field ''mode'' decode_string cs_mode cs_mode_update,
      json_field ''client_reference_id'' decode_string cs_client_reference cs_client_reference_update]"

definition decode_invoice :: "stripe_invoice decoder" where
  "decode_invoice = decode_struct
     [json_field ''subscription'' decode_string inv_subscription inv_subscription_update]"

definition decode_event :: "stripe_event decoder" where
  "decode_event = decode_struct
     [json_field ''id'' decode_string ev_id ev_id_update,
      json_field ''type'' decode_string ev_type ev_type_update,
      json_field ''created'' decode_int ev_created ev_created_update,
      json_field ''data'' (decode_struct [json_field ''object'' decode_raw id (\<lambda>f. f)])
        ev_object ev_object_update]"

section \<open>The client\<close>

record http_request =
  hr_method :: string
  hr_url :: string
  hr_form :: "(string \<times> string) list"
  hr_user :: string
  hr_version :: string

datatype http_reply = RequestFailed | ReadFailed | HttpReply int string

record stripe_error =
  ste_type :: string
  ste_code :: string
  ste_message :: string

datatype stripe_failure = StripeTransport | StripeRead | StripeApi stripe_error | StripeHttp int string | StripeDecode

record 'w stripe_config =
  stc_secret_key :: string
  stc_base_url :: string
  stc_http :: "http_request \<Rightarrow> 'w \<Rightarrow> http_reply \<times> 'w"
  stc_json :: "string \<Rightarrow> json option"

text \<open>\<open>NewStripeClient\<close>: the key is required, and the address loses its trailing slashes.\<close>

definition new_stripe_client :: "'w stripe_config \<Rightarrow> 'w stripe_config option" where
  "new_stripe_client cfg =
     (if stc_secret_key cfg = [] then None
      else
        let base = (if stc_base_url cfg = [] then ''https://api.stripe.com'' else stc_base_url cfg)
        in Some (cfg\<lparr>stc_base_url := trim_right (\<lambda>c. c = CHR ''/'') base\<rparr>))"

definition decode_api_error :: "stripe_error decoder" where
  "decode_api_error = decode_struct
     [json_field ''error''
        (decode_struct
           [json_field ''type'' decode_string ste_type ste_type_update,
            json_field ''code'' decode_string ste_code ste_code_update,
            json_field ''message'' decode_string ste_message ste_message_update])
        id (\<lambda>f. f)]"

text \<open>\<open>do\<close>: \<open>out\<close> decodes the body of a successful reply.\<close>

definition stripe_do ::
  "'w stripe_config \<Rightarrow> (string \<Rightarrow> 'a option) \<Rightarrow> http_request \<Rightarrow> 'w \<Rightarrow> (stripe_failure + 'a) \<times> 'w" where
  "stripe_do c out req w =
     (case stc_http c (req\<lparr>hr_user := stc_secret_key c, hr_version := ''2024-12-18.acacia''\<rparr>) w of
        (RequestFailed, w) \<Rightarrow> (Inl StripeTransport, w)
      | (ReadFailed, w) \<Rightarrow> (Inl StripeRead, w)
      | (HttpReply status body, w) \<Rightarrow>
          if status \<ge> 400 then
            (case unmarshal_value decode_api_error \<lparr>ste_type = [], ste_code = [], ste_message = []\<rparr> (stc_json c body) of
               Some e \<Rightarrow> if ste_message e \<noteq> [] then (Inl (StripeApi e), w) else (Inl (StripeHttp status body), w)
             | None \<Rightarrow> (Inl (StripeHttp status body), w))
          else
            (case out body of
               None \<Rightarrow> (Inl StripeDecode, w)
             | Some r \<Rightarrow> (Inr r, w)))"

definition stripe_request ::
  "'w stripe_config \<Rightarrow> string \<Rightarrow> string \<Rightarrow> (string \<times> string) list \<Rightarrow> http_request" where
  "stripe_request c method path form =
     \<lparr>hr_method = method, hr_url = stc_base_url c @ path, hr_form = form, hr_user = [], hr_version = []\<rparr>"

definition stripe_get :: "'w stripe_config \<Rightarrow> 'a decoder \<Rightarrow> 'a \<Rightarrow> string \<Rightarrow> 'w \<Rightarrow> (stripe_failure + 'a) \<times> 'w" where
  "stripe_get c d zero path w = stripe_do c (\<lambda>body. unmarshal_value d zero (stc_json c body)) (stripe_request c ''GET'' path []) w"

definition stripe_post ::
  "'w stripe_config \<Rightarrow> 'a decoder \<Rightarrow> 'a \<Rightarrow> string \<Rightarrow> (string \<times> string) list \<Rightarrow> 'w \<Rightarrow> (stripe_failure + 'a) \<times> 'w" where
  "stripe_post c d zero path form w =
     stripe_do c (\<lambda>body. unmarshal_value d zero (stc_json c body)) (stripe_request c ''POST'' path form) w"

text \<open>A deletion has no result to decode.\<close>

definition stripe_del :: "'w stripe_config \<Rightarrow> string \<Rightarrow> 'w \<Rightarrow> (stripe_failure + unit) \<times> 'w" where
  "stripe_del c path w = stripe_do c (\<lambda>body. Some ()) (stripe_request c ''DELETE'' path []) w"

definition get_subscription :: "'w stripe_config \<Rightarrow> string \<Rightarrow> 'w \<Rightarrow> (stripe_failure + stripe_subscription) \<times> 'w" where
  "get_subscription c subID w =
     stripe_get c decode_stripe_subscription zero_stripe_subscription (''/v1/subscriptions/'' @ subID) w"

definition cancel_subscription :: "'w stripe_config \<Rightarrow> string \<Rightarrow> 'w \<Rightarrow> (stripe_failure + stripe_subscription) \<times> 'w" where
  "cancel_subscription c subID w =
     stripe_post c decode_stripe_subscription zero_stripe_subscription (''/v1/subscriptions/'' @ subID)
       [(''cancel_at_period_end'', ''true'')] w"

definition cancel_immediately :: "'w stripe_config \<Rightarrow> string \<Rightarrow> 'w \<Rightarrow> (stripe_failure + unit) \<times> 'w" where
  "cancel_immediately c subID w = stripe_del c (''/v1/subscriptions/'' @ subID) w"

record checkout_params =
  cp_customer :: string
  cp_price :: string
  cp_success_url :: string
  cp_cancel_url :: string
  cp_client_ref :: string
  cp_trial_days :: nat

definition checkout_form :: "checkout_params \<Rightarrow> (string \<times> string) list" where
  "checkout_form p =
     [(''mode'', ''subscription''), (''success_url'', cp_success_url p), (''cancel_url'', cp_cancel_url p),
      (''line_items[0][price]'', cp_price p), (''line_items[0][quantity]'', ''1'')]
     @ (if cp_customer p \<noteq> [] then [(''customer'', cp_customer p)] else [])
     @ (if cp_client_ref p \<noteq> [] then [(''client_reference_id'', cp_client_ref p)] else [])
     @ (if cp_trial_days p > 0 then [(''subscription_data[trial_period_days]'', decimal (cp_trial_days p))] else [])"

definition create_checkout_session ::
  "'w stripe_config \<Rightarrow> checkout_params \<Rightarrow> 'w \<Rightarrow> (stripe_failure + checkout_session) \<times> 'w" where
  "create_checkout_session c p w = stripe_post c decode_session zero_session ''/v1/checkout/sessions'' (checkout_form p) w"

record portal_session =
  po_id :: string
  po_url :: string

definition create_portal_session ::
  "'w stripe_config \<Rightarrow> string \<Rightarrow> string \<Rightarrow> 'w \<Rightarrow> (stripe_failure + portal_session) \<times> 'w" where
  "create_portal_session c customerID returnURL w =
     stripe_post c
       (decode_struct [json_field ''id'' decode_string po_id po_id_update,
                       json_field ''url'' decode_string po_url po_url_update])
       \<lparr>po_id = [], po_url = []\<rparr> ''/v1/billing_portal/sessions''
       [(''customer'', customerID), (''return_url'', returnURL)] w"

record stripe_customer =
  sc_id :: string
  sc_email :: string

definition decode_customer :: "stripe_customer decoder" where
  "decode_customer = decode_struct [json_field ''id'' decode_string sc_id sc_id_update,
     json_field ''email'' decode_string sc_email sc_email_update]"

definition create_customer ::
  "'w stripe_config \<Rightarrow> string \<Rightarrow> string \<Rightarrow> 'w \<Rightarrow> (stripe_failure + stripe_customer) \<times> 'w" where
  "create_customer c email userID w =
     stripe_post c decode_customer \<lparr>sc_id = [], sc_email = []\<rparr> ''/v1/customers''
       [(''email'', email), (''metadata[user_id]'', userID)] w"

definition get_customer :: "'w stripe_config \<Rightarrow> string \<Rightarrow> 'w \<Rightarrow> (stripe_failure + stripe_customer) \<times> 'w" where
  "get_customer c customerID w =
     stripe_get c decode_customer \<lparr>sc_id = [], sc_email = []\<rparr> (''/v1/customers/'' @ customerID) w"

text \<open>The calls a change of plans makes.\<close>

definition update_form :: "string \<Rightarrow> string \<Rightarrow> bool \<Rightarrow> (string \<times> string) list" where
  "update_form itemID priceID prorate = [(''items[0][id]'', itemID), (''items[0][price]'', priceID),
     (''proration_behavior'', if prorate then ''create_prorations'' else ''none'')]"

definition stripe_http_client :: "'w stripe_config \<Rightarrow> 'w stripe_client" where
  "stripe_http_client c = \<lparr>
     sc_cancel_now = (\<lambda>subID w. case cancel_immediately c subID w of (r, w) \<Rightarrow> (\<not> isl r, w)),
     sc_cancel_at_end = (\<lambda>subID w. case cancel_subscription c subID w of (r, w) \<Rightarrow> (\<not> isl r, w)),
     sc_get_item = (\<lambda>subID w.
       case get_subscription c subID w of
         (Inl _, w) \<Rightarrow> (None, w)
       | (Inr sub, w) \<Rightarrow>
           (case ssu_items sub of
              None \<Rightarrow> (Some None, w)
            | Some items \<Rightarrow> (case sis_data items of [] \<Rightarrow> (Some None, w) | it # _ \<Rightarrow> (Some (Some (sit_id it)), w)))),
     sc_update = (\<lambda>subID itemID priceID prorate w.
       case stripe_post c decode_stripe_subscription zero_stripe_subscription (''/v1/subscriptions/'' @ subID)
              (update_form itemID priceID prorate) w of (r, w) \<Rightarrow> (\<not> isl r, w))\<rparr>"

section \<open>Signatures of webhooks\<close>

datatype signature_error = MissingSignature | BadSignatureFormat | BadTimestamp | TimestampTooOld int
  | SignatureMismatch | BadEvent

text \<open>One part of the header: the timestamp, the last one given, and the signatures so far.\<close>

definition signature_part :: "string \<Rightarrow> string \<times> string list \<Rightarrow> string \<times> string list" where
  "signature_part part st =
     (case split_n (CHR ''='') 2 part of
        [k, v] \<Rightarrow> if k = ''t'' then (v, snd st) else if k = ''v1'' then (fst st, snd st @ [v]) else st
      | _ \<Rightarrow> st)"

definition signature_header :: "string \<Rightarrow> string \<times> string list" where
  "signature_header h = fold signature_part (split_n (CHR '','') (Suc (length h)) h) ([], [])"

text \<open>The age of a timestamp in seconds, in the 64-bit arithmetic of the code, where the difference
  and the negation can wrap around.\<close>

definition signature_age :: "int \<Rightarrow> int \<Rightarrow> int" where
  "signature_age nowUnix ts = (let age = int64 (nowUnix - ts) in if age < 0 then int64 (- age) else age)"

definition verify_signature ::
  "(string \<Rightarrow> string \<Rightarrow> string) \<Rightarrow> (string \<Rightarrow> json option) \<Rightarrow> string \<Rightarrow> string \<Rightarrow> string \<Rightarrow> int \<Rightarrow> time
     \<Rightarrow> signature_error + stripe_event" where
  "verify_signature mac parse payload sigHeader secret tolerance now =
     (if sigHeader = [] then Inl MissingSignature
      else
        case signature_header sigHeader of
          (timestamp, signatures) \<Rightarrow>
            if timestamp = [] \<or> signatures = [] then Inl BadSignatureFormat
            else
              case parse_int timestamp of
                None \<Rightarrow> Inl BadTimestamp
              | Some ts \<Rightarrow>
                  let age = signature_age (now div second) ts in
                  if tolerance > 0 \<and> age > tolerance then Inl (TimestampTooOld age)
                  else if \<not> list_ex (\<lambda>sig. sig = mac secret (timestamp @ ''.'' @ payload)) signatures
                  then Inl SignatureMismatch
                  else
                    case unmarshal_value decode_event \<lparr>ev_id = [], ev_type = [], ev_created = 0, ev_object = None\<rparr>
                           (parse payload) of
                      None \<Rightarrow> Inl BadEvent
                    | Some event \<Rightarrow> Inr event)"

section \<open>Prices\<close>

definition set_price :: "price_map \<Rightarrow> plan_id \<Rightarrow> billing_interval \<Rightarrow> string \<Rightarrow> price_map" where
  "set_price m plan interval priceID =
     (case interval of
        IntervalMonthly \<Rightarrow> m\<lparr>pm_monthly := (pm_monthly m)(plan \<mapsto> priceID)\<rparr>
      | IntervalYearly \<Rightarrow> m\<lparr>pm_yearly := (pm_yearly m)(plan \<mapsto> priceID)\<rparr>
      | _ \<Rightarrow> m)"

text \<open>The two lists are the orders in which the traversals of the maps yield the plans.\<close>

definition plan_for_price ::
  "plan_id list \<Rightarrow> plan_id list \<Rightarrow> price_map \<Rightarrow> string \<Rightarrow> (plan_id \<times> billing_interval) option" where
  "plan_for_price monthly yearly m priceID =
     (case find (\<lambda>p. pm_monthly m p = Some priceID) monthly of
        Some p \<Rightarrow> Some (p, IntervalMonthly)
      | None \<Rightarrow> map_option (\<lambda>p. (p, IntervalYearly)) (find (\<lambda>p. pm_yearly m p = Some priceID) yearly))"

section \<open>Lemmas\<close>

text \<open>The age is the distance of the times, except that at the distance of \<open>2^63\<close> the negation
  wraps around and the age is negative.\<close>

lemma signature_age_bound:
  assumes "0 \<le> n" and "n < 2 ^ 62" and "- (2 ^ 63) \<le> ts" and "ts < 2 ^ 63" and "0 \<le> d" and "d < 2 ^ 62"
  shows "signature_age n ts \<le> d \<longleftrightarrow> \<bar>n - ts\<bar> \<le> d \<or> ts = n - 2 ^ 63"
proof (cases "n - ts < 2 ^ 63")
  case True
  with assms show ?thesis by (auto simp: signature_age_def Let_def int64_id)
next
  case far: False
  then have age: "int64 (n - ts) = n - ts - 2 ^ 64" using assms by (intro int64_wraps) auto
  show ?thesis
  proof (cases "n - ts = 2 ^ 63")
    case True
    then have "int64 (n - ts) = - (2 ^ 63)" using age by simp
    moreover have "int64 (2 ^ 63) = - (2 ^ 63)" by (simp add: int64_mod)
    ultimately show ?thesis using assms True by (simp add: signature_age_def)
  next
    case False
    then have "int64 (2 ^ 64 - (n - ts)) = 2 ^ 64 - (n - ts)" using far assms by (intro int64_id) auto
    then show ?thesis using age far assms False by (simp add: signature_age_def Let_def)
  qed
qed

lemma verify_signature_accepts:
  assumes "verify_signature mac parse payload h secret tolerance now = Inr event"
  shows "\<exists>timestamp signatures ts. signature_header h = (timestamp, signatures) \<and> parse_int timestamp = Some ts
    \<and> mac secret (timestamp @ ''.'' @ payload) \<in> set signatures
    \<and> (tolerance > 0 \<longrightarrow> signature_age (now div second) ts \<le> tolerance)"
  using assms
  by (auto simp: verify_signature_def Let_def list_ex_iff not_le split: if_splits prod.splits option.splits)

end
