(* ===== verification/Webhook.thy ===== *)
theory Webhook
  imports Stripe_Client
begin

text \<open>
  \<open>pkg/billing/webhook.go\<close>: the events Stripe sends and what they make of the subscriptions,
  and the endpoints for checkout, the billing portal and the current subscription. The store
  is the record of its operations, as in theory \<open>Plan_Change\<close>, with the listing by status; the
  clock and the random identifier of a new row are arguments. The callback \<open>OnEvent\<close> shows as
  the event type and error an event ends with.
\<close>

section \<open>Events\<close>

record 's webhook_store = "'s sub_store_ops" +
  ws_list_by_status :: "'s \<Rightarrow> sub_status \<Rightarrow> billing_error + subscription list"

record 's webhook_handler =
  wh_secret :: string
  wh_store :: "'s webhook_store"
  wh_prices :: price_map
  wh_monthly_order :: "plan_id list"
  wh_yearly_order :: "plan_id list"

datatype webhook_error = UnmarshalFailed string | MissingClientReference | UnknownSubscription string
  | WebhookStoreFailed billing_error

type_synonym 's event_outcome = "webhook_error option \<times> 's"

definition webhook_update :: "'s webhook_handler \<Rightarrow> subscription \<Rightarrow> time \<Rightarrow> 's \<Rightarrow> 's event_outcome" where
  "webhook_update h sub now s =
     (case ss_update (wh_store h) s sub now of
        Inl e \<Rightarrow> (Some (WebhookStoreFailed e), s)
      | Inr s' \<Rightarrow> (None, s'))"

definition webhook_create :: "'s webhook_handler \<Rightarrow> subscription \<Rightarrow> time \<Rightarrow> 's \<Rightarrow> 's event_outcome" where
  "webhook_create h sub now s =
     (case ss_create (wh_store h) s sub now of
        Inl e \<Rightarrow> (Some (WebhookStoreFailed e), s)
      | Inr s' \<Rightarrow> (None, s'))"

definition lookup_order :: "sub_status list" where
  "lookup_order = [SubActive, SubTrialing, SubPastDue, SubPaused, SubCanceled, SubExpired]"

fun find_in_statuses :: "'s webhook_handler \<Rightarrow> string \<Rightarrow> sub_status list \<Rightarrow> 's \<Rightarrow> subscription option" where
  "find_in_statuses h sid [] s = None"
| "find_in_statuses h sid (status # rest) s =
     (case ws_list_by_status (wh_store h) s status of
        Inl _ \<Rightarrow> find_in_statuses h sid rest s
      | Inr subs \<Rightarrow>
          (case find (\<lambda>r. sub_stripe_sub_id r = sid) subs of
             Some r \<Rightarrow> Some r
           | None \<Rightarrow> find_in_statuses h sid rest s))"

definition find_by_stripe_sub_id :: "'s webhook_handler \<Rightarrow> string \<Rightarrow> 's \<Rightarrow> subscription option" where
  "find_by_stripe_sub_id h sid s = find_in_statuses h sid lookup_order s"

text \<open>The code has no Stripe client here, and the look-up fails always.\<close>

definition resolve_plan_from_subscription_id :: "string \<Rightarrow> (plan_id \<times> billing_interval) option" where
  "resolve_plan_from_subscription_id sid = None"

definition map_stripe_status :: "string \<Rightarrow> sub_status option" where
  "map_stripe_status st =
     (if st = ''active'' then Some SubActive
      else if st = ''trialing'' then Some SubTrialing
      else if st = ''past_due'' then Some SubPastDue
      else if st = ''canceled'' \<or> st = ''unpaid'' then Some SubCanceled
      else if st = ''paused'' then Some SubPaused
      else if st = ''incomplete_expired'' then Some SubExpired
      else None)"

definition handle_checkout_completed ::
  "'s webhook_handler \<Rightarrow> stripe_event \<Rightarrow> time \<Rightarrow> string \<Rightarrow> 's \<Rightarrow> 's event_outcome" where
  "handle_checkout_completed h event now newID s =
     (case unmarshal_value decode_session zero_session (ev_object event) of
        None \<Rightarrow> (Some (UnmarshalFailed ''checkout session''), s)
      | Some session \<Rightarrow>
          if cs_mode session \<noteq> ''subscription'' \<or> cs_subscription session = [] then (None, s)
          else if cs_client_reference session = [] then (Some MissingClientReference, s)
          else
            let userID = cs_client_reference session;
                (planID, interval) = (case resolve_plan_from_subscription_id (cs_subscription session) of
                  None \<Rightarrow> (PlanStarter, IntervalMonthly) | Some p \<Rightarrow> p);
                sub = \<lparr>sub_id = newID, sub_user_id = userID, sub_plan_id = planID, sub_status = SubActive,
                  sub_interval = interval, sub_period_start = now, sub_period_end = add_date now 0 1 0,
                  sub_cancel_at_period_end = False, sub_stripe_customer_id = cs_customer session,
                  sub_stripe_sub_id = cs_subscription session, sub_created_at = None, sub_updated_at = zero_time\<rparr>
            in case ss_get_by_user (wh_store h) s userID of
                 Inr existing \<Rightarrow>
                   webhook_update h
                     (existing\<lparr>sub_plan_id := planID, sub_status := SubActive, sub_interval := interval,
                        sub_stripe_customer_id := cs_customer session, sub_stripe_sub_id := cs_subscription session,
                        sub_cancel_at_period_end := False\<rparr>) now s
               | Inl _ \<Rightarrow> webhook_create h sub now s)"

definition first_price :: "stripe_subscription \<Rightarrow> string option" where
  "first_price st =
     (case ssu_items st of None \<Rightarrow> None
      | Some items \<Rightarrow> (case sis_data items of [] \<Rightarrow> None | it # _ \<Rightarrow> Some (spr_id (sit_price it))))"

text \<open>What \<open>handleSubscriptionUpdated\<close> writes over the row it found.\<close>

definition synchronised :: "'s webhook_handler \<Rightarrow> stripe_subscription \<Rightarrow> subscription \<Rightarrow> subscription" where
  "synchronised h st sub =
     (let sub = (case map_stripe_status (ssu_status st) of None \<Rightarrow> sub | Some status \<Rightarrow> sub\<lparr>sub_status := status\<rparr>);
          sub = (case first_price st of
                   None \<Rightarrow> sub
                 | Some priceID \<Rightarrow>
                     (case plan_for_price (wh_monthly_order h) (wh_yearly_order h) (wh_prices h) priceID of
                        None \<Rightarrow> sub
                      | Some (planID, interval) \<Rightarrow> sub\<lparr>sub_plan_id := planID, sub_interval := interval\<rparr>));
          sub = (if ssu_period_start st > 0 then sub\<lparr>sub_period_start := ssu_period_start st * second\<rparr> else sub);
          sub = (if ssu_period_end st > 0 then sub\<lparr>sub_period_end := ssu_period_end st * second\<rparr> else sub)
      in sub\<lparr>sub_cancel_at_period_end := ssu_cancel_at_period_end st\<rparr>)"

definition handle_subscription_updated ::
  "'s webhook_handler \<Rightarrow> stripe_event \<Rightarrow> time \<Rightarrow> 's \<Rightarrow> 's event_outcome" where
  "handle_subscription_updated h event now s =
     (case unmarshal_value decode_stripe_subscription zero_stripe_subscription (ev_object event) of
        None \<Rightarrow> (Some (UnmarshalFailed ''subscription''), s)
      | Some st \<Rightarrow>
          (case find_by_stripe_sub_id h (ssu_id st) s of
             None \<Rightarrow> (Some (UnknownSubscription (ssu_id st)), s)
           | Some sub \<Rightarrow> webhook_update h (synchronised h st sub) now s))"

definition handle_subscription_deleted ::
  "'s webhook_handler \<Rightarrow> stripe_event \<Rightarrow> time \<Rightarrow> 's \<Rightarrow> 's event_outcome" where
  "handle_subscription_deleted h event now s =
     (case unmarshal_value decode_stripe_subscription zero_stripe_subscription (ev_object event) of
        None \<Rightarrow> (Some (UnmarshalFailed ''subscription''), s)
      | Some st \<Rightarrow>
          (case find_by_stripe_sub_id h (ssu_id st) s of
             None \<Rightarrow> (Some (UnknownSubscription (ssu_id st)), s)
           | Some sub \<Rightarrow> webhook_update h (sub\<lparr>sub_status := SubCanceled, sub_cancel_at_period_end := False\<rparr>) now s))"

definition handle_payment_failed :: "'s webhook_handler \<Rightarrow> stripe_event \<Rightarrow> time \<Rightarrow> 's \<Rightarrow> 's event_outcome" where
  "handle_payment_failed h event now s =
     (case unmarshal_value decode_invoice \<lparr>inv_subscription = []\<rparr> (ev_object event) of
        None \<Rightarrow> (Some (UnmarshalFailed ''invoice''), s)
      | Some invoice \<Rightarrow>
          if inv_subscription invoice = [] then (None, s)
          else
            (case find_by_stripe_sub_id h (inv_subscription invoice) s of
               None \<Rightarrow> (Some (UnknownSubscription (inv_subscription invoice)), s)
             | Some sub \<Rightarrow> webhook_update h (sub\<lparr>sub_status := SubPastDue\<rparr>) now s))"

definition handle_payment_succeeded :: "'s webhook_handler \<Rightarrow> stripe_event \<Rightarrow> time \<Rightarrow> 's \<Rightarrow> 's event_outcome" where
  "handle_payment_succeeded h event now s =
     (case unmarshal_value decode_invoice \<lparr>inv_subscription = []\<rparr> (ev_object event) of
        None \<Rightarrow> (Some (UnmarshalFailed ''invoice''), s)
      | Some invoice \<Rightarrow>
          if inv_subscription invoice = [] then (None, s)
          else
            (case find_by_stripe_sub_id h (inv_subscription invoice) s of
               None \<Rightarrow> (Some (UnknownSubscription (inv_subscription invoice)), s)
             | Some sub \<Rightarrow>
                 if sub_status sub = SubPastDue then webhook_update h (sub\<lparr>sub_status := SubActive\<rparr>) now s
                 else (None, s)))"

definition process_event ::
  "'s webhook_handler \<Rightarrow> stripe_event \<Rightarrow> time \<Rightarrow> string \<Rightarrow> 's \<Rightarrow> 's event_outcome" where
  "process_event h event now newID s =
     (if ev_type event = ''checkout.session.completed'' then handle_checkout_completed h event now newID s
      else if ev_type event = ''customer.subscription.updated'' then handle_subscription_updated h event now s
      else if ev_type event = ''customer.subscription.deleted'' then handle_subscription_deleted h event now s
      else if ev_type event = ''invoice.payment_failed'' then handle_payment_failed h event now s
      else if ev_type event = ''invoice.payment_succeeded'' then handle_payment_succeeded h event now s
      else (None, s))"

text \<open>\<open>ServeHTTP\<close>: the status of the response, the callback, and the store. The body is what
  could be read of it, of which the first megabyte is used.\<close>

definition serve_webhook ::
  "(string \<Rightarrow> string \<Rightarrow> string) \<Rightarrow> (string \<Rightarrow> json option) \<Rightarrow> 's webhook_handler \<Rightarrow> string \<Rightarrow> string option \<Rightarrow> string
     \<Rightarrow> time \<Rightarrow> string \<Rightarrow> 's \<Rightarrow> int \<times> (string \<times> webhook_error option) option \<times> 's" where
  "serve_webhook mac parse h verb body sigHeader now newID s =
     (if verb \<noteq> ''POST'' then (405, None, s)
      else
        case body of
          None \<Rightarrow> (400, None, s)
        | Some content \<Rightarrow>
            (case verify_signature mac parse (take (2 ^ 20) content) sigHeader (wh_secret h) 300 now of
               Inl _ \<Rightarrow> (400, None, s)
             | Inr event \<Rightarrow>
                 (case process_event h event now newID s of
                    (err, s') \<Rightarrow> (200, Some (ev_type event, err), s'))))"

section \<open>Endpoints\<close>

record ('s, 'w) stripe_api =
  sa_stripe :: "'w stripe_config"
  sa_store :: "'s webhook_store"
  sa_catalogue :: catalogue
  sa_prices :: price_map

datatype api_answer =
    ApiError int string
  | CheckoutCreated string string
  | PortalCreated string
  | NoSubscriptionYet "plan option"
  | CurrentSubscription subscription "plan option"

record checkout_request =
  cr_plan_id :: plan_id
  cr_interval :: billing_interval
  cr_success_url :: string
  cr_cancel_url :: string

text \<open>The body of a request is \<open>None\<close> where it does not decode.\<close>

definition handle_create_checkout ::
  "('s, 'w) stripe_api \<Rightarrow> string \<Rightarrow> checkout_request option \<Rightarrow> 's \<Rightarrow> 'w \<Rightarrow> api_answer \<times> 'w" where
  "handle_create_checkout api userID body s w =
     (if userID = [] then (ApiError 401 ''unauthorized'', w)
      else
        case body of
          None \<Rightarrow> (ApiError 400 ''invalid_request'', w)
        | Some req \<Rightarrow>
            if \<not> valid_plan_id (cr_plan_id req) \<or> cr_plan_id req = PlanFree then (ApiError 400 ''invalid_plan'', w)
            else
              let interval = (if cr_interval req \<noteq> IntervalMonthly \<and> cr_interval req \<noteq> IntervalYearly
                              then IntervalMonthly else cr_interval req);
                  priceID = get_price (sa_prices api) (cr_plan_id req) interval
              in if priceID = [] then (ApiError 400 ''price_not_configured'', w)
                 else if cr_success_url req = [] \<or> cr_cancel_url req = [] then (ApiError 400 ''missing_urls'', w)
                 else
                   let customerID = (case ss_get_by_user (sa_store api) s userID of
                         Inr sub \<Rightarrow> sub_stripe_customer_id sub | Inl _ \<Rightarrow> []) in
                   case create_checkout_session (sa_stripe api)
                          \<lparr>cp_customer = customerID, cp_price = priceID, cp_success_url = cr_success_url req,
                           cp_cancel_url = cr_cancel_url req, cp_client_ref = userID, cp_trial_days = 0\<rparr> w of
                     (Inl _, w) \<Rightarrow> (ApiError 502 ''stripe_error'', w)
                   | (Inr sess, w) \<Rightarrow> (CheckoutCreated (cs_url sess) (cs_id sess), w))"

definition handle_create_portal ::
  "('s, 'w) stripe_api \<Rightarrow> string \<Rightarrow> string option \<Rightarrow> 's \<Rightarrow> 'w \<Rightarrow> api_answer \<times> 'w" where
  "handle_create_portal api userID body s w =
     (if userID = [] then (ApiError 401 ''unauthorized'', w)
      else
        case body of
          None \<Rightarrow> (ApiError 400 ''invalid_request'', w)
        | Some returnURL \<Rightarrow>
            if returnURL = [] then (ApiError 400 ''missing_return_url'', w)
            else
              case ss_get_by_user (sa_store api) s userID of
                Inl _ \<Rightarrow> (ApiError 404 ''no_subscription'', w)
              | Inr sub \<Rightarrow>
                  if sub_stripe_customer_id sub = [] then (ApiError 404 ''no_subscription'', w)
                  else
                    (case create_portal_session (sa_stripe api) (sub_stripe_customer_id sub) returnURL w of
                       (Inl _, w) \<Rightarrow> (ApiError 502 ''stripe_error'', w)
                     | (Inr sess, w) \<Rightarrow> (PortalCreated (po_url sess), w)))"

definition handle_get_subscription :: "('s, 'w) stripe_api \<Rightarrow> string \<Rightarrow> 's \<Rightarrow> api_answer" where
  "handle_get_subscription api userID s =
     (if userID = [] then ApiError 401 ''unauthorized''
      else
        case ss_get_by_user (sa_store api) s userID of
          Inl _ \<Rightarrow> NoSubscriptionYet (catalogue_get (sa_catalogue api) PlanFree)
        | Inr sub \<Rightarrow> CurrentSubscription sub (catalogue_get (sa_catalogue api) (sub_plan_id sub)))"

section \<open>The SQLite store\<close>

definition sqlite_webhook_store :: "sub_table webhook_store" where
  "sqlite_webhook_store = \<lparr>ss_create = sub_create, ss_get_by_user = sub_get_by_user, ss_update = sub_update,
     ws_list_by_status = sub_list_by_status\<rparr>"
section \<open>Rows of the table\<close>

lemmas webhook_store_simps [simp] = sqlite_webhook_store_def

definition table_ok :: "sub_table \<Rightarrow> bool" where
  "table_ok tbl \<longleftrightarrow> distinct (map sub_id tbl)
     \<and> list_all (\<lambda>r. valid_subscription_status (sub_status r) \<and> valid_plan_id (sub_plan_id r)) tbl"

definition at_most_one :: "string \<Rightarrow> sub_table \<Rightarrow> bool" where
  "at_most_one sid tbl \<longleftrightarrow> length (filter (\<lambda>x. x = sid) (map sub_stripe_sub_id tbl)) \<le> 1"

text \<open>Writing \<open>f\<close> of a row over the row with its identifier.\<close>

definition rewrite_row :: "string \<Rightarrow> (subscription \<Rightarrow> subscription) \<Rightarrow> time \<Rightarrow> sub_table \<Rightarrow> sub_table" where
  "rewrite_row i f now tbl = map (\<lambda>q. if sub_id q = i then (f q)\<lparr>sub_updated_at := now\<rparr> else q) tbl"

text \<open>The changes handlers make keep what identifies a row, and do nothing the second time.\<close>

definition row_change :: "(subscription \<Rightarrow> subscription) \<Rightarrow> bool" where
  "row_change f \<longleftrightarrow> (\<forall>r. sub_id (f r) = sub_id r \<and> sub_user_id (f r) = sub_user_id r
     \<and> sub_created_at (f r) = sub_created_at r
     \<and> (\<forall>t. f ((f r)\<lparr>sub_updated_at := t\<rparr>) = (f r)\<lparr>sub_updated_at := t\<rparr>))"

lemma row_changeD:
  assumes "row_change f"
  shows "sub_id (f r) = sub_id r" "sub_user_id (f r) = sub_user_id r" "sub_created_at (f r) = sub_created_at r"
    "f ((f r)\<lparr>sub_updated_at := t\<rparr>) = (f r)\<lparr>sub_updated_at := t\<rparr>"
  using assms by (simp_all add: row_change_def)

lemma row_changes:
  "row_change (\<lambda>r. r\<lparr>sub_status := st\<rparr>)"
  "row_change (\<lambda>r. r\<lparr>sub_status := st, sub_cancel_at_period_end := c\<rparr>)"
  "row_change (\<lambda>r. r\<lparr>sub_plan_id := p, sub_status := st, sub_interval := i, sub_stripe_customer_id := cu,
     sub_stripe_sub_id := sid, sub_cancel_at_period_end := c\<rparr>)"
  "row_change (synchronised h ss)"
  by (auto simp: row_change_def synchronised_def Let_def split: option.splits)

lemma same_row: "distinct (map sub_id tbl) \<Longrightarrow> q \<in> set tbl \<Longrightarrow> r \<in> set tbl \<Longrightarrow> sub_id q = sub_id r \<Longrightarrow> q = r"
  by (induction tbl) (auto simp: image_iff)

lemma sub_assign_self:
  assumes "sub_id s = sub_id r" "sub_user_id s = sub_user_id r" "sub_created_at s = sub_created_at r"
  shows "sub_assign s r = s"
  using assms by (cases s, cases r) (simp add: sub_assign_def)

lemma webhook_update_row:
  assumes store: "wh_store h = sqlite_webhook_store" and ok: "table_ok tbl" and r: "r \<in> set tbl" and f: "row_change f"
  shows "webhook_update h (f r) now tbl =
    (if \<not> valid_subscription_status (sub_status (f r)) then (Some (WebhookStoreFailed BillInvalidStatus), tbl)
     else if \<not> valid_plan_id (sub_plan_id (f r)) then (Some (WebhookStoreFailed BillInvalidPlan), tbl)
     else (None, rewrite_row (sub_id r) f now tbl))"
proof -
  have "sub_assign ((f r)\<lparr>sub_updated_at := now\<rparr>) q = (f q)\<lparr>sub_updated_at := now\<rparr>"
    if "q \<in> set tbl" "sub_id q = sub_id r" for q
    using same_row [OF _ that(1) r that(2)] ok row_changeD(1-3) [OF f] by (simp add: table_ok_def sub_assign_self)
  moreover have "\<exists>q \<in> set tbl. sub_id q = sub_id (f r)" using r row_changeD(1) [OF f] by metis
  ultimately show ?thesis
    using store row_changeD(1) [OF f]
    by (auto simp: webhook_update_def sub_update_def rewrite_row_def Let_def)
qed

lemma rewrite_row_ids [simp]:
  assumes "row_change f"
  shows "map sub_id (rewrite_row i f now tbl) = map sub_id tbl"
  using row_changeD(1) [OF assms] by (simp add: rewrite_row_def)

lemma rewrite_row_mem: "r \<in> set tbl \<Longrightarrow> (f r)\<lparr>sub_updated_at := now\<rparr> \<in> set (rewrite_row (sub_id r) f now tbl)"
  by (auto simp: rewrite_row_def image_iff)

lemma rewrite_row_ok:
  assumes "table_ok tbl" "r \<in> set tbl" "row_change f" "valid_subscription_status (sub_status (f r))"
    "valid_plan_id (sub_plan_id (f r))"
  shows "table_ok (rewrite_row (sub_id r) f now tbl)"
  unfolding table_ok_def
proof
  show "distinct (map sub_id (rewrite_row (sub_id r) f now tbl))"
    using assms(1) rewrite_row_ids [OF assms(3)] by (simp add: table_ok_def)
  have "valid_subscription_status (sub_status (f q)) \<and> valid_plan_id (sub_plan_id (f q))"
    if "q \<in> set tbl" "sub_id q = sub_id r" for q
    using same_row [OF _ that(1) assms(2) that(2)] assms(1,4,5) by (simp add: table_ok_def)
  then show "list_all (\<lambda>r. valid_subscription_status (sub_status r) \<and> valid_plan_id (sub_plan_id r))
      (rewrite_row (sub_id r) f now tbl)"
    using assms(1) by (auto simp: table_ok_def list_all_iff rewrite_row_def)
qed

definition forget_update :: "subscription \<Rightarrow> subscription" where
  "forget_update r = r\<lparr>sub_updated_at := 0\<rparr>"

lemma rewrite_row_twice:
  assumes "row_change f"
  shows "map forget_update (rewrite_row i f now' (rewrite_row i f now tbl)) = map forget_update (rewrite_row i f now tbl)"
  using row_changeD [OF assms] by (simp add: rewrite_row_def forget_update_def)

section \<open>Finding a subscription\<close>

lemma set_insert_desc [simp]: "set (insert_desc r ss) = insert r (set ss)"
  by (induction ss) auto

lemma set_foldr_insert: "set (foldr insert_desc rs []) = set rs"
  by (induction rs) simp_all

lemma find_in_statuses_sound:
  "wh_store h = sqlite_webhook_store \<Longrightarrow> find_in_statuses h sid sts tbl = Some r
     \<Longrightarrow> r \<in> set tbl \<and> sub_stripe_sub_id r = sid"
  by (induction sts) (auto simp: sub_list_by_status_def set_foldr_insert split: sum.splits option.splits if_splits
      dest!: find_Some_set)

lemma find_in_statuses_complete:
  assumes "wh_store h = sqlite_webhook_store" "r \<in> set tbl" "sub_stripe_sub_id r = sid" "sub_status r \<in> set sts"
    "valid_subscription_status (sub_status r)"
  shows "find_in_statuses h sid sts tbl \<noteq> None"
  using assms(4)
proof (induction sts)
  case (Cons st sts)
  show ?case
  proof (cases "sub_status r = st")
    case True
    with assms(1,2,3,5) show ?thesis
      by (auto simp: sub_list_by_status_def find_None_iff set_foldr_insert split: option.splits)
  next
    case False
    with Cons assms(1) show ?thesis by (auto split: sum.splits option.splits)
  qed
qed simp

lemma valid_status_in_order: "valid_subscription_status st \<Longrightarrow> st \<in> set lookup_order"
  by (cases st) (simp_all add: lookup_order_def)

lemma at_most_one_unique:
  assumes "at_most_one sid tbl" "q \<in> set tbl" "r \<in> set tbl" "sub_stripe_sub_id q = sid" "sub_stripe_sub_id r = sid"
  shows "q = r"
  using assms
proof (induction tbl)
  case (Cons a tbl)
  have none: "sub_stripe_sub_id x \<noteq> sid" if "x \<in> set tbl" "sub_stripe_sub_id a = sid" for x
    using Cons.prems(1) that by (auto simp: at_most_one_def filter_empty_conv)
  have "at_most_one sid tbl" using Cons.prems(1) by (auto simp: at_most_one_def split: if_splits)
  with Cons none show ?case by auto
qed simp

lemma find_by_stripe_sub_id_iff:
  assumes "wh_store h = sqlite_webhook_store" "table_ok tbl" "at_most_one sid tbl"
  shows "find_by_stripe_sub_id h sid tbl = Some r \<longleftrightarrow> r \<in> set tbl \<and> sub_stripe_sub_id r = sid"
proof
  show "r \<in> set tbl \<and> sub_stripe_sub_id r = sid" if "find_by_stripe_sub_id h sid tbl = Some r"
    using that find_in_statuses_sound [OF assms(1)] by (simp add: find_by_stripe_sub_id_def)
next
  assume r: "r \<in> set tbl \<and> sub_stripe_sub_id r = sid"
  then have "valid_subscription_status (sub_status r)" using assms(2) by (auto simp: table_ok_def list_all_iff)
  then obtain q where q: "find_by_stripe_sub_id h sid tbl = Some q"
    using find_in_statuses_complete [OF assms(1)] r valid_status_in_order
    unfolding find_by_stripe_sub_id_def by fastforce
  then have "q \<in> set tbl \<and> sub_stripe_sub_id q = sid"
    using find_in_statuses_sound [OF assms(1)] by (simp add: find_by_stripe_sub_id_def)
  with r q at_most_one_unique [OF assms(3)] show "find_by_stripe_sub_id h sid tbl = Some r" by metis
qed

section \<open>Events on the table\<close>

text \<open>Every event but a checkout is refused, or names a Stripe subscription, with the test its row has
  to pass and the change it makes to the row.\<close>

definition event_change ::
  "'s webhook_handler \<Rightarrow> stripe_event
     \<Rightarrow> webhook_error option + string \<times> (subscription \<Rightarrow> bool) \<times> (subscription \<Rightarrow> subscription)" where
  "event_change h event =
     (let on_subscription = (\<lambda>change.
            case unmarshal_value decode_stripe_subscription zero_stripe_subscription (ev_object event) of
              None \<Rightarrow> Inl (Some (UnmarshalFailed ''subscription''))
            | Some st \<Rightarrow> Inr (ssu_id st, \<lambda>_. True, change st));
          on_invoice = (\<lambda>test status.
            case unmarshal_value decode_invoice \<lparr>inv_subscription = []\<rparr> (ev_object event) of
              None \<Rightarrow> Inl (Some (UnmarshalFailed ''invoice''))
            | Some i \<Rightarrow> if inv_subscription i = [] then Inl None
                        else Inr (inv_subscription i, test, sub_status_update (\<lambda>_. status))) in
      if ev_type event = ''customer.subscription.updated'' then on_subscription (synchronised h)
      else if ev_type event = ''customer.subscription.deleted''
      then on_subscription (\<lambda>_ r. r\<lparr>sub_status := SubCanceled, sub_cancel_at_period_end := False\<rparr>)
      else if ev_type event = ''invoice.payment_failed'' then on_invoice (\<lambda>_. True) SubPastDue
      else if ev_type event = ''invoice.payment_succeeded''
      then on_invoice (\<lambda>r. sub_status r = SubPastDue) SubActive
      else Inl None)"

lemma process_event_change:
  assumes "ev_type event \<noteq> ''checkout.session.completed''"
  shows "process_event h event now newID s =
    (case event_change h event of
       Inl err \<Rightarrow> (err, s)
     | Inr (sid, test, f) \<Rightarrow>
         (case find_by_stripe_sub_id h sid s of
            None \<Rightarrow> (Some (UnknownSubscription sid), s)
          | Some r \<Rightarrow> if test r then webhook_update h (f r) now s else (None, s)))"
  using assms
  by (simp add: process_event_def event_change_def handle_subscription_updated_def handle_subscription_deleted_def
      handle_payment_failed_def handle_payment_succeeded_def Let_def split: option.split)

lemma event_change_row:
  assumes "event_change h event = Inr (sid, test, f)"
  shows "row_change f \<and> (\<forall>r. sub_stripe_sub_id (f r) = sub_stripe_sub_id r)"
  using assms row_changes(1,2,4)
  by (auto simp: event_change_def Let_def synchronised_def split: option.splits if_splits)

text \<open>A row that has had its change is left as it is by the same event.\<close>

lemma changed_row_again:
  assumes "wh_store h = sqlite_webhook_store" "table_ok tbl" "r \<in> set tbl" "row_change f"
    and "webhook_update h (f r) now tbl = (None, tbl')"
  shows "tbl' = rewrite_row (sub_id r) f now tbl" "table_ok tbl'"
    "webhook_update h (f ((f r)\<lparr>sub_updated_at := now\<rparr>)) later tbl' = (None, rewrite_row (sub_id r) f later tbl')"
    "map forget_update (rewrite_row (sub_id r) f later tbl') = map forget_update tbl'"
proof -
  let ?r = "(f r)\<lparr>sub_updated_at := now\<rparr>"
  have valid: "valid_subscription_status (sub_status (f r))" "valid_plan_id (sub_plan_id (f r))"
    and tbl': "tbl' = rewrite_row (sub_id r) f now tbl"
    using assms(5) webhook_update_row [OF assms(1-4), of now] by (auto split: if_splits)
  show "tbl' = rewrite_row (sub_id r) f now tbl" by (rule tbl')
  show ok: "table_ok tbl'" using rewrite_row_ok [OF assms(2-4) valid] tbl' by simp
  have "?r \<in> set tbl'" using rewrite_row_mem [OF assms(3)] tbl' by simp
  then show "webhook_update h (f ?r) later tbl' = (None, rewrite_row (sub_id r) f later tbl')"
    using webhook_update_row [OF assms(1) ok _ assms(4), of ?r later] valid row_changeD [OF assms(4)] by simp
  show "map forget_update (rewrite_row (sub_id r) f later tbl') = map forget_update tbl'"
    using rewrite_row_twice [OF assms(4)] tbl' by simp
qed

lemma event_twice:
  assumes store: "wh_store h = sqlite_webhook_store" and ok: "table_ok tbl" and sids: "\<forall>sid \<noteq> []. at_most_one sid tbl"
    and other: "ev_type event \<noteq> ''checkout.session.completed''"
    and named: "\<And>sid test f. event_change h event = Inr (sid, test, f) \<Longrightarrow> sid \<noteq> []"
    and once: "process_event h event now i tbl = (None, tbl')"
  shows "table_ok tbl' \<and> (\<exists>tbl''. process_event h event later i' tbl' = (None, tbl'') \<and> table_ok tbl''
    \<and> map forget_update tbl'' = map forget_update tbl')"
proof (cases "event_change h event")
  case (Inl e)
  then show ?thesis using once ok by (simp add: process_event_change [OF other])
next
  case (Inr v)
  obtain sid test f where v: "v = (sid, test, f)" by (cases v)
  then have ec: "event_change h event = Inr (sid, test, f)" using Inr by simp
  note change = event_change_row [OF ec]
  have one: "at_most_one sid tbl" using sids named [OF ec] by blast
  obtain r where found: "find_by_stripe_sub_id h sid tbl = Some r"
    using once ec by (auto simp: process_event_change [OF other] split: option.splits)
  then have r: "r \<in> set tbl" "sub_stripe_sub_id r = sid" using find_by_stripe_sub_id_iff [OF store ok one] by auto
  show ?thesis
  proof (cases "test r")
    case False
    then show ?thesis using once ec found ok by (simp add: process_event_change [OF other])
  next
    case True
    then have "webhook_update h (f r) now tbl = (None, tbl')"
      using once ec found by (simp add: process_event_change [OF other])
    note again = changed_row_again [OF store ok r(1) conjunct1 [OF change] this]
    let ?r = "(f r)\<lparr>sub_updated_at := now\<rparr>"
    have "map sub_stripe_sub_id tbl' = map sub_stripe_sub_id tbl" using change by (simp add: again(1) rewrite_row_def)
    then have one': "at_most_one sid tbl'" using one by (simp add: at_most_one_def)
    have "?r \<in> set tbl'" "sub_stripe_sub_id ?r = sid" using rewrite_row_mem [OF r(1)] again(1) r(2) change by auto
    then have "find_by_stripe_sub_id h sid tbl' = Some ?r"
      using find_by_stripe_sub_id_iff [OF store again(2) one'] by blast
    then show ?thesis
      using again ec changed_row_again(2) [OF store again(2) \<open>?r \<in> set tbl'\<close> conjunct1 [OF change] again(3)]
      by (cases "test ?r") (simp_all add: process_event_change [OF other])
  qed
qed

lemma checkout_twice:
  assumes store: "wh_store h = sqlite_webhook_store" and ok: "table_ok tbl"
    and once: "handle_checkout_completed h event now i tbl = (None, tbl')"
  shows "table_ok tbl' \<and> (\<exists>tbl''. handle_checkout_completed h event later i' tbl' = (None, tbl'') \<and> table_ok tbl''
    \<and> map forget_update tbl'' = map forget_update tbl')"
proof (cases "\<exists>cs. unmarshal_value decode_session zero_session (ev_object event) = Some cs
    \<and> cs_mode cs = ''subscription'' \<and> cs_subscription cs \<noteq> []")
  case False
  with once ok show ?thesis by (auto simp: handle_checkout_completed_def split: option.splits if_splits)
next
  case True
  then obtain cs where cs: "unmarshal_value decode_session zero_session (ev_object event) = Some cs"
    "cs_mode cs = ''subscription''" "cs_subscription cs \<noteq> []" "cs_client_reference cs \<noteq> []"
    using once by (auto simp: handle_checkout_completed_def split: if_splits)
  let ?u = "cs_client_reference cs"
  let ?f = "\<lambda>r. r\<lparr>sub_plan_id := PlanStarter, sub_status := SubActive, sub_interval := IntervalMonthly,
     sub_stripe_customer_id := cs_customer cs, sub_stripe_sub_id := cs_subscription cs, sub_cancel_at_period_end := False\<rparr>"
  let ?new = "\<lambda>i now. \<lparr>sub_id = i, sub_user_id = ?u, sub_plan_id = PlanStarter, sub_status = SubActive,
     sub_interval = IntervalMonthly, sub_period_start = now, sub_period_end = add_date now 0 1 0,
     sub_cancel_at_period_end = False, sub_stripe_customer_id = cs_customer cs,
     sub_stripe_sub_id = cs_subscription cs, sub_created_at = None, sub_updated_at = zero_time\<rparr>"
  have run: "handle_checkout_completed h event now i tbl =
      (case sub_get_by_user tbl ?u of Inr e \<Rightarrow> webhook_update h (?f e) now tbl | Inl _ \<Rightarrow> webhook_create h (?new i now) now tbl)"
    for tbl now i
    using cs store by (simp add: handle_checkout_completed_def resolve_plan_from_subscription_id_def Let_def)
  show ?thesis
  proof (cases "sub_get_by_user tbl ?u")
    case (Inr e)
    then have e: "e \<in> set tbl" using sub_get_by_user_user by blast
    have upd: "webhook_update h (?f e) now tbl = (None, tbl')" using once run Inr by simp
    note again = changed_row_again [OF store ok e row_changes(3) upd]
    let ?e = "(?f e)\<lparr>sub_updated_at := now\<rparr>"
    have "?e \<in> set tbl'" using rewrite_row_mem [OF e, where f = ?f] again(1) by simp
    have "sub_update tbl (?f e) now = Inr tbl'" using upd store by (auto simp: webhook_update_def split: sum.splits)
    then have "sub_get_by_user tbl' ?u = Inr (sub_assign ?e e)" using sub_get_by_user_update Inr by fastforce
    also have "sub_assign ?e e = ?e" by (intro sub_assign_self) auto
    finally show ?thesis
      using again run changed_row_again(2) [OF store again(2) \<open>?e \<in> set tbl'\<close> row_changes(3) again(3)] by simp
  next
    case (Inl err)
    then have create: "sub_create tbl (?new i now) now = Inr tbl'"
      using once run store by (auto simp: webhook_create_def split: sum.splits)
    let ?e = "created_row (?new i now) now"
    have tbl': "tbl' = tbl @ [?e]" by (rule sub_create_row [OF create])
    have ok': "table_ok tbl'"
      using ok create tbl' by (auto simp: table_ok_def sub_create_def created_row_def Let_def split: if_splits)
    have "sub_get_by_user tbl' ?u = Inr ?e" using sub_get_by_user_create [OF create] Inl by simp
    moreover have "?f ?e = ?e" by (simp add: created_row_def)
    moreover have "webhook_update h (?f ?e) later tbl' = (None, rewrite_row (sub_id ?e) ?f later tbl')"
      using webhook_update_row [OF store ok' _ row_changes(3), of ?e] tbl' by simp
    moreover from this have "table_ok (rewrite_row (sub_id ?e) ?f later tbl')"
      using changed_row_again(2) [OF store ok' _ row_changes(3), of ?e] tbl' by simp
    moreover have "map forget_update (rewrite_row (sub_id ?e) ?f later tbl') = map forget_update tbl'"
    proof -
      have "i \<notin> sub_id ` set tbl" using ok' tbl' by (auto simp: table_ok_def)
      then show ?thesis by (auto simp: tbl' rewrite_row_def forget_update_def created_row_def)
    qed
    ultimately show ?thesis using run ok' by simp
  qed
qed

section \<open>Properties\<close>

text \<open>Property C12: Stripe delivers events more than once. An event that was processed without error leaves a
  sound table of subscriptions, and processing it again succeeds and leaves the same table, up to the
  time of the last update. Row identifiers are distinct, no two rows have the same Stripe subscription,
  and an event on a subscription names one.\<close>

theorem webhook_replay:
  assumes "wh_store h = sqlite_webhook_store" and "table_ok tbl" and "\<forall>sid \<noteq> []. at_most_one sid tbl"
    and "\<And>sid test f. event_change h event = Inr (sid, test, f) \<Longrightarrow> sid \<noteq> []"
    and "process_event h event now i tbl = (None, tbl')"
  shows "table_ok tbl' \<and> (\<exists>tbl''. process_event h event later i' tbl' = (None, tbl'') \<and> table_ok tbl''
    \<and> map (\<lambda>r. r\<lparr>sub_updated_at := 0\<rparr>) tbl'' = map (\<lambda>r. r\<lparr>sub_updated_at := 0\<rparr>) tbl')"
proof -
  have [simp]: "(\<lambda>r. r\<lparr>sub_updated_at := 0\<rparr>) = forget_update" by (simp add: fun_eq_iff forget_update_def)
  show ?thesis
  proof (cases "ev_type event = ''checkout.session.completed''")
    case True
    then show ?thesis using checkout_twice [OF assms(1,2)] assms(5) by (simp add: process_event_def)
  next
    case False
    from event_twice [OF assms(1-3) this assms(4,5)] show ?thesis by simp
  qed
qed

lemma at_most_one_absent: "sid \<notin> sub_stripe_sub_id ` set tbl \<Longrightarrow> filter (\<lambda>x. x = sid) (map sub_stripe_sub_id tbl) = []"
  by (auto simp: filter_empty_conv)

text \<open>The answer to an event that names the subscription of a user's current row.\<close>

lemma event_on_current_row:
  assumes store: "wh_store h = sqlite_webhook_store" and ok: "table_ok tbl" and one: "at_most_one (sub_stripe_sub_id r) tbl"
    and other: "ev_type event \<noteq> ''checkout.session.completed''"
    and ec: "event_change h event = Inr (sub_stripe_sub_id r, test, f)" and "test r"
    and cur: "sub_get_by_user tbl u = Inr r"
    and valid: "valid_subscription_status (sub_status (f r))" "valid_plan_id (sub_plan_id (f r))"
  shows "\<exists>tbl'. process_event h event now i tbl = (None, tbl') \<and> table_ok tbl'
    \<and> at_most_one (sub_stripe_sub_id r) tbl' \<and> sub_get_by_user tbl' u = Inr ((f r)\<lparr>sub_updated_at := now\<rparr>)"
proof -
  have r: "r \<in> set tbl" using sub_get_by_user_user [OF cur] by simp
  note change = event_change_row [OF ec]
  have upd: "webhook_update h (f r) now tbl = (None, rewrite_row (sub_id r) f now tbl)"
    using webhook_update_row [OF store ok r conjunct1 [OF change]] valid by simp
  note finished = changed_row_again [OF store ok r conjunct1 [OF change] upd]
  have "sub_update tbl (f r) now = Inr (rewrite_row (sub_id r) f now tbl)"
    using upd store by (auto simp: webhook_update_def split: sum.splits)
  then have "sub_get_by_user (rewrite_row (sub_id r) f now tbl) u = Inr (sub_assign ((f r)\<lparr>sub_updated_at := now\<rparr>) r)"
    using sub_get_by_user_update cur row_changeD(1) [OF conjunct1 [OF change]] by fastforce
  also have "sub_assign ((f r)\<lparr>sub_updated_at := now\<rparr>) r = (f r)\<lparr>sub_updated_at := now\<rparr>"
    using row_changeD [OF conjunct1 [OF change]] by (intro sub_assign_self) auto
  finally have got: "sub_get_by_user (rewrite_row (sub_id r) f now tbl) u = Inr ((f r)\<lparr>sub_updated_at := now\<rparr>)" .
  have "map sub_stripe_sub_id (rewrite_row (sub_id r) f now tbl) = map sub_stripe_sub_id tbl"
    using change by (simp add: rewrite_row_def)
  then have "at_most_one (sub_stripe_sub_id r) (rewrite_row (sub_id r) f now tbl)" using one by (simp add: at_most_one_def)
  moreover have "process_event h event now i tbl = (None, rewrite_row (sub_id r) f now tbl)"
    using upd ec \<open>test r\<close> r one find_by_stripe_sub_id_iff [OF store ok one, of r]
    by (simp add: process_event_change [OF other])
  ultimately show ?thesis using got finished(2) by blast
qed

definition names_invoice :: "stripe_event \<Rightarrow> string \<Rightarrow> bool" where
  "names_invoice event sid \<longleftrightarrow> sid \<noteq> []
     \<and> unmarshal_value decode_invoice \<lparr>inv_subscription = []\<rparr> (ev_object event) = Some \<lparr>inv_subscription = sid\<rparr>"

text \<open>Cancellation is not final. After the event that deletes a subscription its user has no
  access; a failed payment that is reported later makes the row past due, and a row that is past due
  grants the plan it had.\<close>

theorem late_failure_restores_access:
  assumes "wh_store h = sqlite_webhook_store" and "table_ok tbl"
    and "sub_get_by_user tbl u = Inr r" and "at_most_one (sub_stripe_sub_id r) tbl"
    and "ev_type gone = ''customer.subscription.deleted''"
    and "unmarshal_value decode_stripe_subscription zero_stripe_subscription (ev_object gone) = Some st"
    and "ssu_id st = sub_stripe_sub_id r"
    and "ev_type failed = ''invoice.payment_failed''" and "names_invoice failed (sub_stripe_sub_id r)"
  shows "\<exists>tbl1 tbl2 r1 r2. process_event h gone t1 i1 tbl = (None, tbl1) \<and> process_event h failed t2 i2 tbl1 = (None, tbl2)
    \<and> sub_get_by_user tbl1 u = Inr r1 \<and> \<not> sub_is_active r1
    \<and> sub_get_by_user tbl2 u = Inr r2 \<and> sub_is_active r2 \<and> sub_plan_id r2 = sub_plan_id r"
proof -
  let ?f = "\<lambda>r. r\<lparr>sub_status := SubCanceled, sub_cancel_at_period_end := False\<rparr>"
  let ?g = "sub_status_update (\<lambda>_. SubPastDue)"
  let ?r1 = "(?f r)\<lparr>sub_updated_at := t1\<rparr>"
  have gone: "event_change h gone = Inr (sub_stripe_sub_id r, \<lambda>_. True, ?f)"
    using assms(5,6,7) by (simp add: event_change_def Let_def)
  have failed: "event_change h failed = Inr (sub_stripe_sub_id r, \<lambda>_. True, ?g)"
    using assms(8,9) by (simp add: event_change_def Let_def names_invoice_def)
  have plan: "valid_plan_id (sub_plan_id r)"
    using assms(2) sub_get_by_user_user [OF assms(3)] by (auto simp: table_ok_def list_all_iff)
  obtain tbl1 where tbl1: "process_event h gone t1 i1 tbl = (None, tbl1)" "table_ok tbl1"
    "at_most_one (sub_stripe_sub_id r) tbl1" "sub_get_by_user tbl1 u = Inr ?r1"
    using event_on_current_row [OF assms(1,2,4) _ gone _ assms(3)] assms(5) plan by auto
  obtain tbl2 where "process_event h failed t2 i2 tbl1 = (None, tbl2)"
    "sub_get_by_user tbl2 u = Inr ((?g ?r1)\<lparr>sub_updated_at := t2\<rparr>)"
    using event_on_current_row [OF assms(1) tbl1(2), of ?r1 failed "\<lambda>_. True" ?g u] tbl1(3,4) assms(8) failed plan by auto
  with tbl1 show ?thesis by (auto simp: sub_is_active_def)
qed

text \<open>The plan a new subscriber gets depends on the order in which Stripe's events arrive. When the
  event with the plan comes after the checkout, the user is on that plan; when it comes first, it is
  refused, nothing keeps it, and the checkout puts the user on the monthly Starter plan.\<close>

theorem event_order_decides_plan:
  assumes "wh_store h = sqlite_webhook_store" and "table_ok tbl"
    and "sub_get_by_user tbl u = Inl e" and "sid \<notin> sub_stripe_sub_id ` set tbl" and "newID \<notin> sub_id ` set tbl" and "newID \<noteq> []"
    and "ev_type checkout = ''checkout.session.completed''"
    and "unmarshal_value decode_session zero_session (ev_object checkout) = Some cs"
    and "cs_mode cs = ''subscription''" and "cs_subscription cs = sid" and "sid \<noteq> []"
    and "cs_client_reference cs = u" and "u \<noteq> []"
    and "ev_type updated = ''customer.subscription.updated''"
    and "unmarshal_value decode_stripe_subscription zero_stripe_subscription (ev_object updated) = Some st"
    and "ssu_id st = sid" and "ssu_status st = ''active''" and "first_price st = Some priceID"
    and "plan_for_price (wh_monthly_order h) (wh_yearly_order h) (wh_prices h) priceID = Some (plan, interval)"
    and "valid_plan_id plan"
  shows "\<exists>tbl1 tbl2 tbl3 r r'. process_event h checkout t1 newID tbl = (None, tbl1) \<and> process_event h updated t2 i tbl1 = (None, tbl2)
    \<and> sub_get_by_user tbl2 u = Inr r \<and> sub_plan_id r = plan \<and> sub_interval r = interval
    \<and> process_event h updated t1 i tbl = (Some (UnknownSubscription sid), tbl) \<and> process_event h checkout t2 newID tbl = (None, tbl3)
    \<and> sub_get_by_user tbl3 u = Inr r' \<and> sub_plan_id r' = PlanStarter \<and> sub_interval r' = IntervalMonthly"
proof -
  let ?new = "\<lambda>now. \<lparr>sub_id = newID, sub_user_id = u, sub_plan_id = PlanStarter, sub_status = SubActive,
     sub_interval = IntervalMonthly, sub_period_start = now, sub_period_end = add_date now 0 1 0,
     sub_cancel_at_period_end = False, sub_stripe_customer_id = cs_customer cs,
     sub_stripe_sub_id = sid, sub_created_at = None, sub_updated_at = zero_time\<rparr>"
  let ?row = "\<lambda>now. created_row (?new now) now"
  have create: "sub_create tbl (?new now) now = Inr (tbl @ [?row now])" for now
    using assms(5,6) by (auto simp: sub_create_def created_row_def Let_def)
  have checkout: "process_event h checkout now newID tbl = (None, tbl @ [?row now])" for now
    using assms(1,3,7-13) create
    by (simp add: process_event_def handle_checkout_completed_def resolve_plan_from_subscription_id_def
        webhook_create_def Let_def)
  have got: "sub_get_by_user (tbl @ [?row now]) u = Inr (?row now)" for now
    using sub_get_by_user_create [OF create, of now] assms(3) by simp
  have none: "at_most_one sid tbl" "at_most_one sid (tbl @ [?row t1])"
    using at_most_one_absent [OF assms(4)] by (simp_all add: at_most_one_def created_row_def)
  have ok: "table_ok (tbl @ [?row t1])" using assms(2,5) by (auto simp: table_ok_def created_row_def)
  have change: "event_change h updated = Inr (sid, \<lambda>_. True, synchronised h st)"
    using assms(14-16) by (simp add: event_change_def Let_def)
  have sync: "sub_status (synchronised h st r) = SubActive \<and> sub_plan_id (synchronised h st r) = plan
      \<and> sub_interval (synchronised h st r) = interval" for r
    using assms(17-19) by (simp add: synchronised_def map_stripe_status_def Let_def)
  have row: "sub_stripe_sub_id (?row t1) = sid" by (simp add: created_row_def)
  have "\<exists>tbl2. process_event h updated t2 i (tbl @ [?row t1]) = (None, tbl2) \<and> table_ok tbl2
      \<and> at_most_one (sub_stripe_sub_id (?row t1)) tbl2
      \<and> sub_get_by_user tbl2 u = Inr ((synchronised h st (?row t1))\<lparr>sub_updated_at := t2\<rparr>)"
    by (rule event_on_current_row [OF assms(1) ok, where test = "\<lambda>_. True" and f = "synchronised h st"])
       (use none(2) assms(14,20) change got sync row in simp_all)
  then obtain tbl2 where "process_event h updated t2 i (tbl @ [?row t1]) = (None, tbl2)"
    "sub_get_by_user tbl2 u = Inr ((synchronised h st (?row t1))\<lparr>sub_updated_at := t2\<rparr>)" by blast
  moreover have "find_by_stripe_sub_id h sid tbl = None"
    using find_by_stripe_sub_id_iff [OF assms(1,2) none(1)] assms(4) by (metis image_eqI option.exhaust)
  then have "process_event h updated t1 i tbl = (Some (UnknownSubscription sid), tbl)"
    using change assms(14) by (simp add: process_event_change)
  ultimately show ?thesis
    using checkout got sync by (intro exI [of _ "tbl @ [?row t1]"] exI [of _ tbl2] exI [of _ "tbl @ [?row t2]"]) (auto simp: created_row_def)
qed

text \<open>Property C17: A request to the webhook changes the subscriptions, or reaches the callback, only when it is
  a POST with a signature: one of the header's signatures is the keyed hash of the header's timestamp and
  the body, and the timestamp is within 300 seconds of the clock, or earlier by exactly \<open>2^63\<close> seconds,
  where the 64-bit arithmetic wraps around.\<close>

theorem webhook_signed_only:
  assumes "serve_webhook mac parse h verb body sigHeader now newID s = (code, callback, s')"
    and "s' \<noteq> s \<or> callback \<noteq> None \<or> code = 200"
    and "0 \<le> now div second" and "now div second < 2 ^ 62"
  shows "verb = ''POST'' \<and> code = 200 \<and> (\<exists>content timestamp signatures ts. body = Some content
    \<and> signature_header sigHeader = (timestamp, signatures) \<and> parse_int timestamp = Some ts
    \<and> mac (wh_secret h) (timestamp @ ''.'' @ take (2 ^ 20) content) \<in> set signatures
    \<and> (\<bar>now div second - ts\<bar> \<le> 300 \<or> ts = now div second - 2 ^ 63))"
proof -
  obtain content event where c: "verb = ''POST''" "code = 200" "body = Some content"
    "verify_signature mac parse (take (2 ^ 20) content) sigHeader (wh_secret h) 300 now = Inr event"
    using assms(1,2) by (auto simp: serve_webhook_def split: if_splits option.splits sum.splits prod.splits)
  obtain timestamp signatures ts where ts: "signature_header sigHeader = (timestamp, signatures)" "parse_int timestamp = Some ts"
    "mac (wh_secret h) (timestamp @ ''.'' @ take (2 ^ 20) content) \<in> set signatures"
    "signature_age (now div second) ts \<le> 300"
    using verify_signature_accepts [OF c(4)] by auto
  then have "\<bar>now div second - ts\<bar> \<le> 300 \<or> ts = now div second - 2 ^ 63"
    using signature_age_bound [of "now div second" ts 300] assms(3,4) parse_int_range [OF ts(2)] by auto
  with c ts show ?thesis by blast
qed

section \<open>Witnesses\<close>

definition sample_handler :: "sub_table webhook_handler" where
  "sample_handler = \<lparr>wh_secret = ''whsec'', wh_store = sqlite_webhook_store,
     wh_prices = \<lparr>pm_monthly = [PlanPro \<mapsto> ''price_pro''], pm_yearly = Map.empty\<rparr>,
     wh_monthly_order = [PlanPro], wh_yearly_order = []\<rparr>"

definition sample_row :: subscription where
  "sample_row = \<lparr>sub_id = ''s1'', sub_user_id = ''u1'', sub_plan_id = PlanPro, sub_status = SubActive,
     sub_interval = IntervalMonthly, sub_period_start = 0, sub_period_end = 30 * day, sub_cancel_at_period_end = False,
     sub_stripe_customer_id = ''cus_1'', sub_stripe_sub_id = ''sub_1'', sub_created_at = Some 0, sub_updated_at = 0\<rparr>"

definition sample_event :: "string \<Rightarrow> (string \<times> json) list \<Rightarrow> stripe_event" where
  "sample_event type object = \<lparr>ev_id = ''evt'', ev_type = type, ev_created = 0, ev_object = Some (JObject object)\<rparr>"

definition sample_failed :: stripe_event where
  "sample_failed = sample_event ''invoice.payment_failed'' [(''subscription'', JString ''sub_1'')]"

definition sample_deleted :: stripe_event where
  "sample_deleted = sample_event ''customer.subscription.deleted'' [(''id'', JString ''sub_1'')]"

definition sample_checkout :: stripe_event where
  "sample_checkout = sample_event ''checkout.session.completed''
     [(''mode'', JString ''subscription''), (''subscription'', JString ''sub_1''), (''client_reference_id'', JString ''u1'')]"

definition sample_updated :: stripe_event where
  "sample_updated = sample_event ''customer.subscription.updated''
     [(''id'', JString ''sub_1''), (''status'', JString ''active''),
      (''items'', JObject [(''data'', JArray [JObject [(''id'', JString ''si_1''),
         (''price'', JObject [(''id'', JString ''price_pro'')])]])])]"

lemmas decode_defs = unmarshal_value_def decode_session_def decode_stripe_subscription_def decode_invoice_def
  decode_items_def decode_item_def decode_price_def find_field_def json_field_def zero_session_def
  zero_stripe_subscription_def zero_price_def

lemmas sample_defs = sample_event_def sample_failed_def sample_deleted_def sample_checkout_def sample_updated_def
  sample_row_def sample_handler_def

lemma sample_decodes:
  "unmarshal_value decode_invoice \<lparr>inv_subscription = []\<rparr> (ev_object sample_failed) = Some \<lparr>inv_subscription = ''sub_1''\<rparr>"
  "unmarshal_value decode_stripe_subscription zero_stripe_subscription (ev_object sample_deleted)
     = Some (zero_stripe_subscription\<lparr>ssu_id := ''sub_1''\<rparr>)"
  "unmarshal_value decode_session zero_session (ev_object sample_checkout)
     = Some (zero_session\<lparr>cs_mode := ''subscription'', cs_subscription := ''sub_1'', cs_client_reference := ''u1''\<rparr>)"
  "unmarshal_value decode_stripe_subscription zero_stripe_subscription (ev_object sample_updated)
     = Some (zero_stripe_subscription\<lparr>ssu_id := ''sub_1'', ssu_status := ''active'',
         ssu_items := Some \<lparr>sis_data = [\<lparr>sit_id = ''si_1'', sit_price = zero_price\<lparr>spr_id := ''price_pro''\<rparr>\<rparr>]\<rparr>\<rparr>)"
  by (simp_all add: sample_failed_def sample_deleted_def sample_checkout_def sample_updated_def sample_event_def decode_defs)

lemma sample_table: "wh_store sample_handler = sqlite_webhook_store" "table_ok [sample_row]"
  "sub_get_by_user [sample_row] ''u1'' = Inr sample_row" "at_most_one sid [sample_row]"
  by (simp_all add: sample_handler_def sample_row_def table_ok_def sub_get_by_user_def at_most_one_def)

theorem webhook_replay_witness:
  "\<exists>tbl' tbl''. process_event sample_handler sample_failed 5 ''n'' [sample_row] = (None, tbl')
    \<and> process_event sample_handler sample_failed 9 ''n'' tbl' = (None, tbl'')
    \<and> map (\<lambda>r. r\<lparr>sub_updated_at := 0\<rparr>) tbl'' = map (\<lambda>r. r\<lparr>sub_updated_at := 0\<rparr>) tbl'"
proof -
  have change: "event_change sample_handler sample_failed = Inr (''sub_1'', \<lambda>_. True, sub_status_update (\<lambda>_. SubPastDue))"
    using sample_decodes(1) by (simp add: event_change_def Let_def) (simp add: sample_failed_def sample_event_def)
  have "process_event sample_handler sample_failed 5 ''n'' [sample_row]
      = (None, [sample_row\<lparr>sub_status := SubPastDue, sub_updated_at := 5\<rparr>])"
    using sample_decodes(1)
    by (simp add: process_event_def handle_payment_failed_def find_by_stripe_sub_id_def lookup_order_def)
       (simp add: sample_defs sub_list_by_status_def webhook_update_def sub_update_def sub_assign_def)
  moreover have "sid \<noteq> []" if "event_change sample_handler sample_failed = Inr (sid, test, f)" for sid test f
    using that change by auto
  ultimately show ?thesis
    using webhook_replay [of sample_handler "[sample_row]" sample_failed 5 "''n''" _ 9 "''n''"] sample_table by blast
qed

theorem late_failure_restores_access_witness:
  "\<exists>tbl1 tbl2 r1 r2. process_event sample_handler sample_deleted 5 ''n'' [sample_row] = (None, tbl1)
    \<and> process_event sample_handler sample_failed 9 ''n'' tbl1 = (None, tbl2)
    \<and> sub_get_by_user tbl1 ''u1'' = Inr r1 \<and> \<not> sub_is_active r1
    \<and> sub_get_by_user tbl2 ''u1'' = Inr r2 \<and> sub_is_active r2 \<and> sub_plan_id r2 = sub_plan_id sample_row"
proof (rule late_failure_restores_access [OF sample_table(1-3) sample_table(4) _ sample_decodes(2)])
  show "names_invoice sample_failed (sub_stripe_sub_id sample_row)"
    using sample_decodes(1) by (simp add: names_invoice_def sample_row_def)
qed (simp_all add: sample_defs)

theorem event_order_decides_plan_witness:
  "\<exists>tbl1 tbl2 tbl3 r r'. process_event sample_handler sample_checkout 1 ''n'' [] = (None, tbl1)
    \<and> process_event sample_handler sample_updated 2 ''n'' tbl1 = (None, tbl2)
    \<and> sub_get_by_user tbl2 ''u1'' = Inr r \<and> sub_plan_id r = PlanPro \<and> sub_interval r = IntervalMonthly
    \<and> process_event sample_handler sample_updated 1 ''n'' [] = (Some (UnknownSubscription ''sub_1''), [])
    \<and> process_event sample_handler sample_checkout 2 ''n'' [] = (None, tbl3)
    \<and> sub_get_by_user tbl3 ''u1'' = Inr r' \<and> sub_plan_id r' = PlanStarter \<and> sub_interval r' = IntervalMonthly"
proof (rule event_order_decides_plan [OF sample_table(1) _ _ _ _ _ _ sample_decodes(3) _ _ _ _ _ _ sample_decodes(4)])
  show "plan_for_price (wh_monthly_order sample_handler) (wh_yearly_order sample_handler) (wh_prices sample_handler)
      ''price_pro'' = Some (PlanPro, IntervalMonthly)"
    by (simp add: plan_for_price_def sample_handler_def)
qed (simp_all add: table_ok_def sub_get_by_user_def sample_checkout_def sample_updated_def sample_event_def first_price_def
    zero_session_def zero_price_def)

theorem webhook_signed_only_witness:
  "\<exists>content timestamp signatures ts. Some ''{}'' = Some content
    \<and> signature_header ''t=100,v1=k100.{}'' = (timestamp, signatures) \<and> parse_int timestamp = Some ts
    \<and> ''k'' @ timestamp @ ''.'' @ take (2 ^ 20) content \<in> set signatures"
proof -
  let ?mac = "\<lambda>secret text. ''k'' @ text" and ?parse = "\<lambda>text. Some (JObject [])"
  have "signature_header ''t=100,v1=k100.{}'' = (''100'', [''k100.{}''])"
    by (simp add: signature_header_def signature_part_def numeral_2_eq_2)
  then have "serve_webhook ?mac ?parse sample_handler ''POST'' (Some ''{}'') ''t=100,v1=k100.{}'' (100 * second) ''n'' []
      = (200, Some ([], None), [])"
    by (simp add: serve_webhook_def verify_signature_def parse_int_def digits_value_def is_digit_def signature_age_def
        int64_def unmarshal_value_def decode_event_def process_event_def)
  from webhook_signed_only [OF this] show ?thesis by auto
qed


end
