(* ===== verification/Messages.thy ===== *)
theory Messages
  imports Json
begin

text \<open>
  The conversation messages of \<open>pkg/providers/protocoltypes/types.go\<close>, the normalisation of
  tool calls (\<open>pkg/providers/toolcall_utils.go\<close>), and what the JSON form of a message
  keeps. A slice is a list: \<open>nil\<close> and an empty slice are not told apart, since the code only
  asks for lengths and stores both as \<open>[]\<close>. A pointer is an option, and so is the map of
  arguments, whose \<open>nil\<close> the code does test. A \<open>map[string]any\<close> lists its entries by key.
  The encoder and the decoder of package \<open>json\<close> are arguments.
\<close>

section \<open>Data\<close>

type_synonym arguments = "(string \<times> json) list"

record function_call =
  fc_name :: string
  fc_arguments :: string
  fc_thought_signature :: string

record google_extra =
  gx_thought_signature :: string

record extra_content =
  ec_google :: "google_extra option"

record tool_call =
  tc_id :: string
  tc_type :: string
  tc_function :: "function_call option"
  tc_name :: string
  tc_arguments :: "arguments option"
  tc_thought_signature :: string
  tc_extra_content :: "extra_content option"

record cache_control =
  cc_type :: string

record content_block =
  cb_type :: string
  cb_text :: string
  cb_cache_control :: "cache_control option"

record message =
  msg_role :: string
  msg_content :: string
  msg_media :: "string list"
  msg_reasoning_content :: string
  msg_system_parts :: "content_block list"
  msg_tool_calls :: "tool_call list"
  msg_tool_call_id :: string

text \<open>The composite literals \<open>providers.Message{Role: ..., Content: ...}\<close>.\<close>

definition plain_message :: "string \<Rightarrow> string \<Rightarrow> message" where
  "plain_message role content =
     \<lparr>msg_role = role, msg_content = content, msg_media = [], msg_reasoning_content = [],
      msg_system_parts = [], msg_tool_calls = [], msg_tool_call_id = []\<rparr>"

record llm_response =
  lr_content :: string
  lr_reasoning_content :: string
  lr_tool_calls :: "tool_call list"

section \<open>Normalised tool calls\<close>

definition normalize_tool_call ::
  "(arguments \<Rightarrow> string) \<Rightarrow> (string \<Rightarrow> arguments option) \<Rightarrow> tool_call \<Rightarrow> tool_call" where
  "normalize_tool_call marshal unmarshal tc =
     (let name = (case tc_function tc of
                    Some f \<Rightarrow> if tc_name tc = [] then fc_name f else tc_name tc
                  | None \<Rightarrow> tc_name tc);
          args0 = (case tc_arguments tc of None \<Rightarrow> [] | Some a \<Rightarrow> a);
          args = (case tc_function tc of
                    Some f \<Rightarrow>
                      if args0 = [] \<and> fc_arguments f \<noteq> []
                      then (case unmarshal (fc_arguments f) of Some a \<Rightarrow> a | None \<Rightarrow> args0)
                      else args0
                  | None \<Rightarrow> args0);
          argsJSON = marshal args in
      case tc_function tc of
        None \<Rightarrow>
          tc\<lparr>tc_name := name, tc_arguments := Some args,
             tc_function := Some \<lparr>fc_name = name, fc_arguments = argsJSON, fc_thought_signature = []\<rparr>\<rparr>
      | Some f \<Rightarrow>
          let f1 = (if fc_name f = [] then f\<lparr>fc_name := name\<rparr> else f);
              name1 = (if name = [] then fc_name f1 else name);
              f2 = (if fc_arguments f1 = [] then f1\<lparr>fc_arguments := argsJSON\<rparr> else f1)
          in tc\<lparr>tc_name := name1, tc_arguments := Some args, tc_function := Some f2\<rparr>)"

section \<open>The stored form of a message\<close>

text \<open>The fields tagged \<open>json:"-"\<close> are not written, so a decoded tool call has their zero values.\<close>

definition json_tool_call :: "tool_call \<Rightarrow> tool_call" where
  "json_tool_call tc = tc\<lparr>tc_name := [], tc_arguments := None, tc_thought_signature := []\<rparr>"

text \<open>A message written to a JSON file and read back.\<close>

definition json_message :: "message \<Rightarrow> message" where
  "json_message m = m\<lparr>msg_tool_calls := map json_tool_call (msg_tool_calls m)\<rparr>"

section \<open>Lemmas\<close>

lemma plain_message_sel [simp]:
  "msg_role (plain_message r c) = r" "msg_content (plain_message r c) = c"
  "msg_media (plain_message r c) = []" "msg_tool_calls (plain_message r c) = []"
  "msg_tool_call_id (plain_message r c) = []" "msg_system_parts (plain_message r c) = []"
  "msg_reasoning_content (plain_message r c) = []"
  by (simp_all add: plain_message_def)

lemma json_tool_call_idem [simp]: "json_tool_call (json_tool_call tc) = json_tool_call tc"
  by (simp add: json_tool_call_def)

lemma json_tool_call_id [simp]: "tc_id (json_tool_call tc) = tc_id tc"
  by (simp add: json_tool_call_def)

lemma json_message_sel [simp]:
  "msg_role (json_message m) = msg_role m" "msg_content (json_message m) = msg_content m"
  "msg_tool_call_id (json_message m) = msg_tool_call_id m"
  "msg_tool_calls (json_message m) = map json_tool_call (msg_tool_calls m)"
  by (simp_all add: json_message_def)

lemma json_message_idem [simp]: "json_message (json_message m) = json_message m"
  by (simp add: json_message_def)

text \<open>What normalisation promises: a function is there, and the two names agree whenever the
  two given ones do not contradict each other.\<close>

lemma normalize_tool_call_function:
  "\<exists>f. tc_function (normalize_tool_call marshal unmarshal tc) = Some f"
  by (cases "tc_function tc") (simp_all add: normalize_tool_call_def Let_def)

lemma normalize_tool_call_id [simp]: "tc_id (normalize_tool_call marshal unmarshal tc) = tc_id tc"
  by (cases "tc_function tc") (simp_all add: normalize_tool_call_def Let_def)

lemma normalize_tool_call_name:
  assumes "tc_function (normalize_tool_call marshal unmarshal tc) = Some f"
    and "\<And>g. tc_function tc = Some g \<Longrightarrow> fc_name g = [] \<or> tc_name tc = [] \<or> fc_name g = tc_name tc"
  shows "tc_name (normalize_tool_call marshal unmarshal tc) = fc_name f"
  using assms by (cases "tc_function tc") (auto simp: normalize_tool_call_def Let_def split: if_splits)

lemma normalize_tool_call_arguments:
  "tc_arguments (normalize_tool_call marshal unmarshal tc) \<noteq> None"
  by (cases "tc_function tc") (simp_all add: normalize_tool_call_def Let_def)

end
