(* ===== verification/Session_Interface.thy ===== *)
theory Session_Interface
  imports Messages
begin

text \<open>
  The interface \<open>SessionStore\<close> of \<open>pkg/session/store.go\<close>: its operations as a record of
  functions on the state of a store, what they mean on an abstract state that maps a session
  key to its messages and its summary, and the contract of a store as a locale.
  \<open>Save\<close> and \<open>Close\<close> do nothing in the stores the code has.
\<close>

record session =
  se_key :: string
  se_messages :: "message list"
  se_summary :: string
  se_created :: time
  se_updated :: time

datatype store_error = ErrSessionNotFound | ErrForeignKey

record 's session_ops =
  ss_get_or_create :: "'s \<Rightarrow> string \<Rightarrow> time \<Rightarrow> (store_error + session) \<times> 's"
  ss_add_message :: "'s \<Rightarrow> string \<Rightarrow> message \<Rightarrow> time \<Rightarrow> store_error option \<times> 's"
  ss_get_history :: "'s \<Rightarrow> string \<Rightarrow> store_error + message list"
  ss_get_summary :: "'s \<Rightarrow> string \<Rightarrow> store_error + string"
  ss_set_summary :: "'s \<Rightarrow> string \<Rightarrow> string \<Rightarrow> time \<Rightarrow> store_error option \<times> 's"
  ss_set_history :: "'s \<Rightarrow> string \<Rightarrow> message list \<Rightarrow> time \<Rightarrow> store_error option \<times> 's"
  ss_truncate_history :: "'s \<Rightarrow> string \<Rightarrow> int \<Rightarrow> time \<Rightarrow> store_error option \<times> 's"

section \<open>Abstract conversations\<close>

type_synonym conversations = "string \<Rightarrow> (message list \<times> string) option"

definition keep_last :: "int \<Rightarrow> 'a list \<Rightarrow> 'a list" where
  "keep_last n xs = (if n \<le> 0 then [] else drop (length xs - nat n) xs)"

definition spec_history :: "conversations \<Rightarrow> string \<Rightarrow> message list" where
  "spec_history c key = (case c key of None \<Rightarrow> [] | Some (ms, s) \<Rightarrow> ms)"

definition spec_summary :: "conversations \<Rightarrow> string \<Rightarrow> string" where
  "spec_summary c key = (case c key of None \<Rightarrow> [] | Some (ms, s) \<Rightarrow> s)"

definition spec_get_or_create :: "string \<Rightarrow> conversations \<Rightarrow> conversations" where
  "spec_get_or_create key c = (case c key of None \<Rightarrow> c(key \<mapsto> ([], [])) | Some x \<Rightarrow> c)"

definition spec_add :: "string \<Rightarrow> message \<Rightarrow> conversations \<Rightarrow> conversations" where
  "spec_add key m c = c(key \<mapsto> (spec_history c key @ [m], spec_summary c key))"

definition spec_set_summary :: "string \<Rightarrow> string \<Rightarrow> conversations \<Rightarrow> conversations" where
  "spec_set_summary key s c = (case c key of None \<Rightarrow> c | Some (ms, _) \<Rightarrow> c(key \<mapsto> (ms, s)))"

definition spec_set_history :: "string \<Rightarrow> message list \<Rightarrow> conversations \<Rightarrow> conversations" where
  "spec_set_history key ms c = (case c key of None \<Rightarrow> c | Some (_, s) \<Rightarrow> c(key \<mapsto> (ms, s)))"

definition spec_truncate :: "string \<Rightarrow> int \<Rightarrow> conversations \<Rightarrow> conversations" where
  "spec_truncate key n c = (case c key of None \<Rightarrow> c | Some (ms, s) \<Rightarrow> c(key \<mapsto> (keep_last n ms, s)))"

lemmas spec_defs = spec_history_def spec_summary_def spec_get_or_create_def spec_add_def
  spec_set_summary_def spec_set_history_def spec_truncate_def

lemma length_keep_last: "length (keep_last n xs) = min (length xs) (nat n)"
  by (auto simp: keep_last_def)

lemma keep_last_map: "keep_last n (map f xs) = map f (keep_last n xs)"
  by (simp add: keep_last_def drop_map)

lemma keep_last_all [simp]: "length xs \<le> nat n \<Longrightarrow> keep_last n xs = xs"
  by (auto simp: keep_last_def)

section \<open>The contract\<close>

text \<open>\<open>view\<close> is the abstract state, \<open>inv\<close> what every operation keeps, and \<open>stored\<close> what a
  message becomes by being stored.\<close>

locale session_store =
  fixes ops :: "'s session_ops" and inv :: "'s \<Rightarrow> bool" and view :: "'s \<Rightarrow> conversations"
    and stored :: "message \<Rightarrow> message"
  assumes get_or_create: "inv s \<Longrightarrow> inv (snd (ss_get_or_create ops s key now))
        \<and> view (snd (ss_get_or_create ops s key now)) = spec_get_or_create key (view s)"
    and get_or_create_result: "inv s \<Longrightarrow> \<exists>se. fst (ss_get_or_create ops s key now) = Inr se \<and> se_key se = key
        \<and> spec_get_or_create key (view s) key = Some (se_messages se, se_summary se)"
    and add_message: "inv s \<Longrightarrow> inv (snd (ss_add_message ops s key m now))
        \<and> view (snd (ss_add_message ops s key m now)) = spec_add key (stored m) (view s)"
    and get_history: "inv s \<Longrightarrow> ss_get_history ops s key = Inr (spec_history (view s) key)"
    and get_summary: "inv s \<Longrightarrow> ss_get_summary ops s key = Inr (spec_summary (view s) key)"
    and set_summary: "inv s \<Longrightarrow> inv (snd (ss_set_summary ops s key x now))
        \<and> view (snd (ss_set_summary ops s key x now)) = spec_set_summary key x (view s)"
    and set_history: "inv s \<Longrightarrow> inv (snd (ss_set_history ops s key ms now))
        \<and> view (snd (ss_set_history ops s key ms now)) = spec_set_history key (map stored ms) (view s)"
    and truncate_history: "inv s \<Longrightarrow> inv (snd (ss_truncate_history ops s key n now))
        \<and> view (snd (ss_truncate_history ops s key n now)) = spec_truncate key n (view s)"

end
