(* ===== verification/Time_Text.thy ===== *)
theory Time_Text
  imports Prelude "HOL-Library.List_Lexorder" "HOL-Library.Product_Lexorder"
begin

text \<open>
  Times in SQLite columns. Several stores write a time as text in Go's layout \<open>RFC3339Nano\<close> and
  compare the texts. The layout drops trailing zeros of the fraction, so the order of two texts
  within one second is not the order of the times. A stamp is a time in the form that text has,
  on a host whose time zone is UTC: the date and time up to the second, of fixed width, and the
  text of the fraction.
\<close>

section \<open>Times as text\<close>

definition digit_char :: "int \<Rightarrow> char" where
  "digit_char d = char_of (48 + nat d)"

text \<open>The \<open>n\<close> low decimal digits.\<close>

fun digits :: "nat \<Rightarrow> int \<Rightarrow> string" where
  "digits 0 i = []"
| "digits (Suc n) i = digits n (i div 10) @ [digit_char (i mod 10)]"

definition fraction_text :: "int \<Rightarrow> string" where
  "fraction_text ns =
     (if ns = 0 then ''Z'' else ''.'' @ trim_right (\<lambda>c. c = CHR ''0'') (digits 9 ns) @ ''Z'')"

definition stamp :: "time \<Rightarrow> int \<times> string" where
  "stamp t = (t div second, fraction_text (t mod second))"

text \<open>\<open>ORDER BY ... DESC\<close>: the greatest first, rows with equal keys in the order of the table.\<close>

definition newest_first :: "('a \<Rightarrow> 'b::linorder) \<Rightarrow> 'a list \<Rightarrow> 'a list" where
  "newest_first key rows = rev (sort_key key (rev rows))"

lemma set_newest_first [simp]: "set (newest_first key rows) = set rows"
  by (simp add: newest_first_def)

lemma length_newest_first [simp]: "length (newest_first key rows) = length rows"
  by (simp add: newest_first_def)

lemma newest_first_sorted: "sorted_wrt (\<lambda>r q. key q \<le> key r) (newest_first key rows)"
  using sorted_sort_key [of key "rev rows"] by (simp add: newest_first_def sorted_wrt_rev sorted_map)

lemma stamp_less_later: "t div second < u div second \<Longrightarrow> stamp t < stamp u"
  by (simp add: stamp_def)

lemma stamp_le_bound: "stamp t \<le> stamp u \<Longrightarrow> t < u + second"
proof -
  assume "stamp t \<le> stamp u"
  then have "t div second \<le> u div second" by (auto simp: stamp_def)
  then have "t div second * second \<le> u div second * second" by simp
  moreover have "t = t div second * second + t mod second" "u = u div second * second + u mod second"
    by (simp_all only: div_mult_mod_eq)
  moreover have "t mod second < second" "0 \<le> u mod second" by simp_all
  ultimately show ?thesis by linarith
qed

lemma second_before: "t + second \<le> u \<Longrightarrow> t div second < u div second"
  using zdiv_mono1 [of "t + second" u second] by simp

end
