(* ===== verification/Session_Store.thy ===== *)
theory Session_Store
  imports Session_Interface Time_Text
begin

text \<open>
  The session database of \<open>pkg/session\<close>: the tables \<open>sessions\<close> and \<open>messages\<close>, the store on
  them (\<open>sqlite_store.go\<close>) and the stores of the tenants that share them (\<open>tenant.go\<close>). A table is the list of its rows by row id; a statement
  is a function on the tables. The clock is an argument, and the database is reachable: the
  errors modelled are the ones the statements and the code themselves give.

  The columns hold times as text in the layout \<open>RFC3339Nano\<close>, which drops trailing zeros of
  the fraction; the model keeps the time and compares it as that text would be compared, on a
  host whose time zone is UTC. The date and time up to the second have a fixed width, so they
  compare as numbers. Rows whose \<open>updated_at\<close> ties are taken in the order of their row ids.
\<close>

section \<open>Tables\<close>

record session_row =
  sr_key :: string
  sr_tenant_id :: string
  sr_summary :: string
  sr_created_at :: time
  sr_updated_at :: time

record message_row =
  mr_id :: int
  mr_session_key :: string
  mr_role :: string
  mr_content :: string
  mr_tool_calls :: "tool_call list"
  mr_tool_call_id :: string
  mr_reasoning :: string
  mr_media :: "string list"

text \<open>\<open>db_next_id\<close> is the identifier \<open>AUTOINCREMENT\<close> gives next.\<close>

record db =
  db_sessions :: "session_row list"
  db_messages :: "message_row list"
  db_next_id :: int

text \<open>The columns of a message are its role, content, tool calls as JSON, tool call id,
  reasoning and media; \<open>SystemParts\<close> has none.\<close>

definition row_of_message :: "int \<Rightarrow> string \<Rightarrow> message \<Rightarrow> message_row" where
  "row_of_message i key m =
     \<lparr>mr_id = i, mr_session_key = key, mr_role = msg_role m, mr_content = msg_content m,
      mr_tool_calls = map json_tool_call (msg_tool_calls m), mr_tool_call_id = msg_tool_call_id m,
      mr_reasoning = msg_reasoning_content m, mr_media = msg_media m\<rparr>"

definition message_of_row :: "message_row \<Rightarrow> message" where
  "message_of_row r =
     \<lparr>msg_role = mr_role r, msg_content = mr_content r, msg_media = mr_media r,
      msg_reasoning_content = mr_reasoning r, msg_system_parts = [],
      msg_tool_calls = mr_tool_calls r, msg_tool_call_id = mr_tool_call_id r\<rparr>"

section \<open>Statements\<close>

definition find_session :: "(session_row \<Rightarrow> bool) \<Rightarrow> db \<Rightarrow> session_row option" where
  "find_session p d = find p (db_sessions d)"

text \<open>\<open>INSERT INTO sessions ... ON CONFLICT(key) DO NOTHING\<close>\<close>

definition insert_session :: "string \<Rightarrow> string \<Rightarrow> time \<Rightarrow> db \<Rightarrow> db" where
  "insert_session key tenant now d =
     (if find_session (\<lambda>r. sr_key r = key) d = None
      then d\<lparr>db_sessions := db_sessions d @
             [\<lparr>sr_key = key, sr_tenant_id = tenant, sr_summary = [], sr_created_at = now, sr_updated_at = now\<rparr>]\<rparr>
      else d)"

text \<open>\<open>UPDATE sessions SET updated_at = ? WHERE key = ?\<close>\<close>

definition touch_session :: "string \<Rightarrow> time \<Rightarrow> db \<Rightarrow> db" where
  "touch_session key now d =
     d\<lparr>db_sessions := map (\<lambda>r. if sr_key r = key then r\<lparr>sr_updated_at := now\<rparr> else r) (db_sessions d)\<rparr>"

text \<open>\<open>INSERT INTO sessions ... ON CONFLICT(key) DO UPDATE SET updated_at = ?\<close>\<close>

definition upsert_session :: "string \<Rightarrow> string \<Rightarrow> time \<Rightarrow> db \<Rightarrow> db" where
  "upsert_session key tenant now d =
     (if find_session (\<lambda>r. sr_key r = key) d = None
      then insert_session key tenant now d else touch_session key now d)"

text \<open>\<open>INSERT INTO messages\<close>, with the foreign key on \<open>sessions\<close>\<close>

definition insert_message :: "string \<Rightarrow> message \<Rightarrow> db \<Rightarrow> store_error + db" where
  "insert_message key m d =
     (if find_session (\<lambda>r. sr_key r = key) d = None then Inl ErrForeignKey
      else Inr (d\<lparr>db_messages := db_messages d @ [row_of_message (db_next_id d) key m],
                  db_next_id := db_next_id d + 1\<rparr>))"

fun insert_messages :: "string \<Rightarrow> message list \<Rightarrow> db \<Rightarrow> store_error + db" where
  "insert_messages key [] d = Inr d"
| "insert_messages key (m # ms) d =
     (case insert_message key m d of Inl e \<Rightarrow> Inl e | Inr d' \<Rightarrow> insert_messages key ms d')"

text \<open>\<open>DELETE FROM messages WHERE session_key = ?\<close>, and with \<open>AND id NOT IN (SELECT id ... ORDER
  BY id DESC LIMIT ?)\<close>\<close>

definition delete_messages :: "string \<Rightarrow> db \<Rightarrow> db" where
  "delete_messages key d = d\<lparr>db_messages := filter (\<lambda>r. mr_session_key r \<noteq> key) (db_messages d)\<rparr>"

definition newest_ids :: "string \<Rightarrow> nat \<Rightarrow> db \<Rightarrow> int list" where
  "newest_ids key n d =
     take n (rev (sort (map mr_id (filter (\<lambda>r. mr_session_key r = key) (db_messages d)))))"

definition delete_older_messages :: "string \<Rightarrow> nat \<Rightarrow> db \<Rightarrow> db" where
  "delete_older_messages key n d =
     d\<lparr>db_messages := filter (\<lambda>r. \<not> (mr_session_key r = key \<and> mr_id r \<notin> set (newest_ids key n d)))
                       (db_messages d)\<rparr>"

text \<open>\<open>DELETE FROM sessions WHERE ...\<close>: the messages follow, \<open>ON DELETE CASCADE\<close>.\<close>

definition delete_sessions :: "(session_row \<Rightarrow> bool) \<Rightarrow> db \<Rightarrow> nat \<times> db" where
  "delete_sessions p d =
     (let gone = filter p (db_sessions d) in
      (length gone,
       d\<lparr>db_sessions := filter (\<lambda>r. \<not> p r) (db_sessions d),
         db_messages := filter (\<lambda>m. mr_session_key m \<notin> sr_key ` set gone) (db_messages d)\<rparr>))"

text \<open>\<open>SELECT key FROM sessions WHERE ... ORDER BY updated_at ASC LIMIT ?\<close>\<close>

definition oldest_keys :: "(session_row \<Rightarrow> bool) \<Rightarrow> nat \<Rightarrow> db \<Rightarrow> string list" where
  "oldest_keys p n d =
     map sr_key (take n (sort_key (\<lambda>r. stamp (sr_updated_at r)) (filter p (db_sessions d))))"
section \<open>The store over the whole database\<close>

text \<open>\<open>ORDER BY id ASC\<close>\<close>

definition load_messages :: "string \<Rightarrow> db \<Rightarrow> message list" where
  "load_messages key d =
     map message_of_row (sort_key mr_id (filter (\<lambda>r. mr_session_key r = key) (db_messages d)))"

definition load_session :: "string \<Rightarrow> db \<Rightarrow> store_error + session" where
  "load_session key d =
     (case find_session (\<lambda>r. sr_key r = key) d of
        None \<Rightarrow> Inl ErrSessionNotFound
      | Some r \<Rightarrow> Inr \<lparr>se_key = key, se_messages = load_messages key d, se_summary = sr_summary r,
                      se_created = sr_created_at r, se_updated = sr_updated_at r\<rparr>)"

definition sqlite_get_or_create :: "db \<Rightarrow> string \<Rightarrow> time \<Rightarrow> (store_error + session) \<times> db" where
  "sqlite_get_or_create d key now =
     (let d' = insert_session key [] now d in (load_session key d', d'))"

text \<open>The session row is written before the message, in a statement of its own.\<close>

definition sqlite_add_message :: "db \<Rightarrow> string \<Rightarrow> message \<Rightarrow> time \<Rightarrow> store_error option \<times> db" where
  "sqlite_add_message d key m now =
     (let d' = upsert_session key [] now d in
      case insert_message key m d' of Inl e \<Rightarrow> (Some e, d') | Inr d'' \<Rightarrow> (None, d''))"

definition sqlite_get_history :: "db \<Rightarrow> string \<Rightarrow> store_error + message list" where
  "sqlite_get_history d key = Inr (load_messages key d)"

definition sqlite_get_summary :: "db \<Rightarrow> string \<Rightarrow> store_error + string" where
  "sqlite_get_summary d key =
     (case find_session (\<lambda>r. sr_key r = key) d of None \<Rightarrow> Inr [] | Some r \<Rightarrow> Inr (sr_summary r))"

definition update_summary :: "(session_row \<Rightarrow> bool) \<Rightarrow> string \<Rightarrow> time \<Rightarrow> db \<Rightarrow> db" where
  "update_summary p summary now d =
     d\<lparr>db_sessions := map (\<lambda>r. if p r then r\<lparr>sr_summary := summary, sr_updated_at := now\<rparr> else r)
                       (db_sessions d)\<rparr>"

definition sqlite_set_summary :: "db \<Rightarrow> string \<Rightarrow> string \<Rightarrow> time \<Rightarrow> store_error option \<times> db" where
  "sqlite_set_summary d key summary now =
     (let p = (\<lambda>r. sr_key r = key) in
      (if find_session p d = None then Some ErrSessionNotFound else None, update_summary p summary now d))"

text \<open>A transaction: an error rolls the deletions back.\<close>

definition replace_messages :: "string \<Rightarrow> message list \<Rightarrow> time \<Rightarrow> db \<Rightarrow> store_error option \<times> db" where
  "replace_messages key ms now d =
     (case insert_messages key ms (delete_messages key d) of
        Inl e \<Rightarrow> (Some e, d)
      | Inr d' \<Rightarrow> (None, touch_session key now d'))"

definition sqlite_set_history :: "db \<Rightarrow> string \<Rightarrow> message list \<Rightarrow> time \<Rightarrow> store_error option \<times> db" where
  "sqlite_set_history d key ms now = replace_messages key ms now d"

definition truncate_messages :: "string \<Rightarrow> int \<Rightarrow> db \<Rightarrow> db" where
  "truncate_messages key keepLast d =
     (if keepLast \<le> 0 then delete_messages key d else delete_older_messages key (nat keepLast) d)"

definition sqlite_truncate_history :: "db \<Rightarrow> string \<Rightarrow> int \<Rightarrow> time \<Rightarrow> store_error option \<times> db" where
  "sqlite_truncate_history d key keepLast now = (None, truncate_messages key keepLast d)"

definition sqlite_session_count :: "db \<Rightarrow> nat" where
  "sqlite_session_count d = length (db_sessions d)"

definition sqlite_delete_session :: "db \<Rightarrow> string \<Rightarrow> store_error option \<times> db" where
  "sqlite_delete_session d key =
     (let (n, d') = delete_sessions (\<lambda>r. sr_key r = key) d in
      (if n = 0 then Some ErrSessionNotFound else None, d'))"

definition sqlite_evict_expired :: "db \<Rightarrow> duration \<Rightarrow> time \<Rightarrow> nat \<times> db" where
  "sqlite_evict_expired d ttl now =
     (let cutoff = now - ttl in delete_sessions (\<lambda>r. stamp (sr_updated_at r) < stamp cutoff) d)"

definition sqlite_evict_lru :: "db \<Rightarrow> int \<Rightarrow> nat \<times> db" where
  "sqlite_evict_lru d maxSessions =
     (if maxSessions \<le> 0 then (0, d)
      else let count = int (sqlite_session_count d) in
        if count \<le> maxSessions then (0, d)
        else let excess = count - maxSessions;
                 keys = oldest_keys (\<lambda>_. True) (nat excess) d
             in delete_sessions (\<lambda>r. sr_key r \<in> set keys) d)"

section \<open>The store of a tenant\<close>

text \<open>\<open>NewTenantStore\<close> refuses the empty identifier. The same tables serve every tenant.\<close>

definition new_tenant_store :: "string \<Rightarrow> string option" where
  "new_tenant_store tenant = (if tenant = [] then None else Some tenant)"

definition scoped_key :: "string \<Rightarrow> string \<Rightarrow> string" where
  "scoped_key tenant key = ''tenant:'' @ tenant @ '':'' @ key"

abbreviation owned :: "string \<Rightarrow> string \<Rightarrow> session_row \<Rightarrow> bool" where
  "owned tenant sk \<equiv> \<lambda>r. sr_key r = sk \<and> sr_tenant_id r = tenant"

definition tenant_load_session :: "string \<Rightarrow> string \<Rightarrow> db \<Rightarrow> store_error + session" where
  "tenant_load_session tenant key d =
     (let sk = scoped_key tenant key in
      case find_session (owned tenant sk) d of
        None \<Rightarrow> Inl ErrSessionNotFound
      | Some r \<Rightarrow> Inr \<lparr>se_key = key, se_messages = load_messages sk d, se_summary = sr_summary r,
                      se_created = sr_created_at r, se_updated = sr_updated_at r\<rparr>)"

definition tenant_get_or_create :: "string \<Rightarrow> db \<Rightarrow> string \<Rightarrow> time \<Rightarrow> (store_error + session) \<times> db" where
  "tenant_get_or_create tenant d key now =
     (let d' = insert_session (scoped_key tenant key) tenant now d in (tenant_load_session tenant key d', d'))"

definition tenant_add_message :: "string \<Rightarrow> db \<Rightarrow> string \<Rightarrow> message \<Rightarrow> time \<Rightarrow> store_error option \<times> db" where
  "tenant_add_message tenant d key m now =
     (let sk = scoped_key tenant key;
          d' = upsert_session sk tenant now d in
      case insert_message sk m d' of Inl e \<Rightarrow> (Some e, d') | Inr d'' \<Rightarrow> (None, d''))"

definition tenant_get_history :: "string \<Rightarrow> db \<Rightarrow> string \<Rightarrow> store_error + message list" where
  "tenant_get_history tenant d key = Inr (load_messages (scoped_key tenant key) d)"

definition tenant_get_summary :: "string \<Rightarrow> db \<Rightarrow> string \<Rightarrow> store_error + string" where
  "tenant_get_summary tenant d key =
     (case find_session (owned tenant (scoped_key tenant key)) d of
        None \<Rightarrow> Inr [] | Some r \<Rightarrow> Inr (sr_summary r))"

definition tenant_set_summary :: "string \<Rightarrow> db \<Rightarrow> string \<Rightarrow> string \<Rightarrow> time \<Rightarrow> store_error option \<times> db" where
  "tenant_set_summary tenant d key summary now =
     (let p = owned tenant (scoped_key tenant key) in
      (if find_session p d = None then Some ErrSessionNotFound else None, update_summary p summary now d))"

definition tenant_set_history :: "string \<Rightarrow> db \<Rightarrow> string \<Rightarrow> message list \<Rightarrow> time \<Rightarrow> store_error option \<times> db" where
  "tenant_set_history tenant d key ms now =
     (let sk = scoped_key tenant key in
      if find_session (owned tenant sk) d = None then (Some ErrSessionNotFound, d)
      else replace_messages sk ms now d)"

definition tenant_truncate_history :: "string \<Rightarrow> db \<Rightarrow> string \<Rightarrow> int \<Rightarrow> time \<Rightarrow> store_error option \<times> db" where
  "tenant_truncate_history tenant d key keepLast now =
     (let sk = scoped_key tenant key in
      if find_session (owned tenant sk) d = None then (Some ErrSessionNotFound, d)
      else (None, truncate_messages sk keepLast d))"

definition tenant_session_count :: "string \<Rightarrow> db \<Rightarrow> nat" where
  "tenant_session_count tenant d = length (filter (\<lambda>r. sr_tenant_id r = tenant) (db_sessions d))"

definition tenant_delete_session :: "string \<Rightarrow> db \<Rightarrow> string \<Rightarrow> store_error option \<times> db" where
  "tenant_delete_session tenant d key =
     (let (n, d') = delete_sessions (owned tenant (scoped_key tenant key)) d in
      (if n = 0 then Some ErrSessionNotFound else None, d'))"

definition tenant_evict_expired :: "string \<Rightarrow> db \<Rightarrow> duration \<Rightarrow> time \<Rightarrow> nat \<times> db" where
  "tenant_evict_expired tenant d ttl now =
     (let cutoff = now - ttl in
      delete_sessions (\<lambda>r. sr_tenant_id r = tenant \<and> stamp (sr_updated_at r) < stamp cutoff) d)"

definition tenant_evict_lru :: "string \<Rightarrow> db \<Rightarrow> int \<Rightarrow> nat \<times> db" where
  "tenant_evict_lru tenant d maxSessions =
     (if maxSessions \<le> 0 then (0, d)
      else let count = int (tenant_session_count tenant d) in
        if count \<le> maxSessions then (0, d)
        else let excess = count - maxSessions;
                 keys = oldest_keys (\<lambda>r. sr_tenant_id r = tenant) (nat excess) d
             in delete_sessions (\<lambda>r. sr_key r \<in> set keys) d)"

text \<open>\<open>ORDER BY updated_at DESC\<close>; a row shorter than the prefix keeps its key.\<close>

definition strip_scope :: "string \<Rightarrow> string \<Rightarrow> string" where
  "strip_scope tenant key =
     (let prefix = ''tenant:'' @ tenant @ '':'' in
      if length prefix < length key then drop (length prefix) key else key)"

definition tenant_list_sessions :: "string \<Rightarrow> db \<Rightarrow> string list" where
  "tenant_list_sessions tenant d =
     map (\<lambda>r. strip_scope tenant (sr_key r))
       (rev (sort_key (\<lambda>r. stamp (sr_updated_at r))
          (rev (filter (\<lambda>r. sr_tenant_id r = tenant) (db_sessions d)))))"

section \<open>The tables stay well formed\<close>

text \<open>Keys are primary, every message belongs to a session, and message ids grow.\<close>

definition wf_db :: "db \<Rightarrow> bool" where
  "wf_db d \<longleftrightarrow> distinct (map sr_key (db_sessions d))
     \<and> (\<forall>m \<in> set (db_messages d). mr_session_key m \<in> sr_key ` set (db_sessions d))
     \<and> sorted_wrt (<) (map mr_id (db_messages d))
     \<and> (\<forall>m \<in> set (db_messages d). mr_id m < db_next_id d)"

definition empty_db :: db where
  "empty_db = \<lparr>db_sessions = [], db_messages = [], db_next_id = 1\<rparr>"

abbreviation row :: "string \<Rightarrow> db \<Rightarrow> session_row option" where
  "row key \<equiv> find_session (\<lambda>r. sr_key r = key)"

abbreviation messages_of :: "string \<Rightarrow> db \<Rightarrow> message_row list" where
  "messages_of key d \<equiv> filter (\<lambda>r. mr_session_key r = key) (db_messages d)"

lemma wf_empty_db [simp]: "wf_db empty_db"
  by (simp add: wf_db_def empty_db_def)

lemma row_None: "row key d = None \<longleftrightarrow> key \<notin> sr_key ` set (db_sessions d)"
  by (auto simp: find_session_def find_None_iff)

lemma row_Some: "row key d = Some r \<Longrightarrow> r \<in> set (db_sessions d) \<and> sr_key r = key"
  by (auto simp: find_session_def dest: find_Some_set)

lemma row_unique:
  assumes "distinct (map sr_key (db_sessions d))" and "r \<in> set (db_sessions d)"
  shows "row (sr_key r) d = Some r"
proof -
  have "row (sr_key r) d \<noteq> None" using assms(2) by (auto simp: row_None)
  then obtain r' where r': "row (sr_key r) d = Some r'" by auto
  with row_Some [OF r'] assms show ?thesis by (auto simp: distinct_map dest: inj_onD)
qed

text \<open>With primary keys, a condition on the tenant only filters the one row of the key.\<close>

lemma find_owned:
  assumes "distinct (map sr_key (db_sessions d))"
  shows "find_session (owned t key) d
    = (case row key d of None \<Rightarrow> None | Some r \<Rightarrow> if sr_tenant_id r = t then Some r else None)"
proof (cases "find_session (owned t key) d")
  case None
  then have "\<forall>r \<in> set (db_sessions d). sr_key r = key \<longrightarrow> sr_tenant_id r \<noteq> t"
    by (auto simp: find_session_def find_None_iff)
  with None show ?thesis by (auto split: option.splits dest!: row_Some)
next
  case (Some r)
  then have "r \<in> set (db_sessions d)" "sr_key r = key" "sr_tenant_id r = t"
    by (auto simp: find_session_def dest: find_Some_set)
  with row_unique [OF assms] Some show ?thesis by auto
qed

lemma row_insert:
  "row k (insert_session key t now d)
     = (if row k d = None \<and> k = key
        then Some \<lparr>sr_key = key, sr_tenant_id = t, sr_summary = [], sr_created_at = now, sr_updated_at = now\<rparr>
        else row k d)"
  by (auto simp: insert_session_def find_session_def find_append split: option.splits)

lemma find_map_key:
  "(\<And>r. sr_key (f r) = sr_key r) \<Longrightarrow>
    find (\<lambda>r. sr_key r = k) (map f xs) = map_option f (find (\<lambda>r. sr_key r = k) xs)"
  by (induction xs) auto

lemma row_touch:
  "row k (touch_session key now d)
     = map_option (\<lambda>r. if sr_key r = key then r\<lparr>sr_updated_at := now\<rparr> else r) (row k d)"
  by (simp add: touch_session_def find_session_def find_map_key)

lemma row_update_summary:
  "row k (update_summary p x now d)
     = map_option (\<lambda>r. if p r then r\<lparr>sr_summary := x, sr_updated_at := now\<rparr> else r) (row k d)"
  by (simp add: update_summary_def find_session_def find_map_key)

lemma messages_statements [simp]:
  "db_messages (insert_session key t now d) = db_messages d"
  "db_messages (touch_session key now d) = db_messages d"
  "db_messages (upsert_session key t now d) = db_messages d"
  "db_messages (update_summary p x now d) = db_messages d"
  "db_sessions (delete_messages key d) = db_sessions d"
  "db_sessions (delete_older_messages key n d) = db_sessions d"
  "db_sessions (truncate_messages key i d) = db_sessions d"
  "db_next_id (delete_messages key d) = db_next_id d"
  by (simp_all add: insert_session_def touch_session_def upsert_session_def update_summary_def
      delete_messages_def delete_older_messages_def truncate_messages_def)

lemma row_upsert:
  "row k (upsert_session key t now d)
     = (if k = key then Some (case row k d of
            None \<Rightarrow> \<lparr>sr_key = key, sr_tenant_id = t, sr_summary = [], sr_created_at = now, sr_updated_at = now\<rparr>
          | Some r \<Rightarrow> r\<lparr>sr_updated_at := now\<rparr>)
        else row k d)"
  by (cases "row k d") (auto simp: upsert_session_def row_insert row_touch dest: row_Some)

lemma wf_insert: "wf_db d \<Longrightarrow> wf_db (insert_session key t now d)"
  by (auto simp: wf_db_def insert_session_def row_None)

lemma wf_map_sessions:
  assumes "wf_db d" and "\<And>r. sr_key (f r) = sr_key r"
  shows "wf_db (d\<lparr>db_sessions := map f (db_sessions d)\<rparr>)"
proof -
  have "map sr_key (map f (db_sessions d)) = map sr_key (db_sessions d)" by (simp add: assms(2))
  then have "sr_key ` set (map f (db_sessions d)) = sr_key ` set (db_sessions d)" by (metis set_map)
  then show ?thesis using assms by (simp add: wf_db_def comp_def)
qed

lemma wf_touch: "wf_db d \<Longrightarrow> wf_db (touch_session key now d)"
  unfolding touch_session_def by (rule wf_map_sessions) auto

lemma wf_update_summary: "wf_db d \<Longrightarrow> wf_db (update_summary p x now d)"
  unfolding update_summary_def by (rule wf_map_sessions) auto

lemma wf_upsert: "wf_db d \<Longrightarrow> wf_db (upsert_session key t now d)"
  by (simp add: upsert_session_def wf_insert wf_touch)

lemma wf_filter_messages:
  "wf_db d \<Longrightarrow> wf_db (d\<lparr>db_messages := filter p (db_messages d)\<rparr>)"
  by (auto simp: wf_db_def sorted_wrt_map intro: sorted_wrt_filter)

lemma wf_truncate: "wf_db d \<Longrightarrow> wf_db (truncate_messages key n d)"
  by (simp add: truncate_messages_def delete_messages_def delete_older_messages_def wf_filter_messages)

lemma wf_delete_messages: "wf_db d \<Longrightarrow> wf_db (delete_messages key d)"
  by (simp add: delete_messages_def wf_filter_messages)

lemma wf_delete_sessions: "wf_db d \<Longrightarrow> wf_db (snd (delete_sessions p d))"
  by (force simp: wf_db_def delete_sessions_def Let_def sorted_wrt_map
      intro: sorted_wrt_filter distinct_map_filter)

text \<open>The rows of a key come back in the order they were written.\<close>

lemma load_messages_wf: "wf_db d \<Longrightarrow> load_messages key d = map message_of_row (messages_of key d)"
  unfolding load_messages_def
  by (subst sort_key_id_if_sorted)
     (auto simp: wf_db_def sorted_wrt_map dest: sorted_wrt_filter [where P = "\<lambda>r. mr_session_key r = key"]
       elim!: sorted_wrt_mono_rel [rotated])

lemma insert_message_wf:
  assumes "wf_db d" and "row key d \<noteq> None"
  shows "\<exists>d'. insert_message key m d = Inr d' \<and> wf_db d' \<and> db_sessions d' = db_sessions d
    \<and> db_messages d' = db_messages d @ [row_of_message (db_next_id d) key m]"
  using assms by (auto simp: insert_message_def wf_db_def row_None row_of_message_def sorted_wrt_append
      less_le_not_le)

lemma insert_messages_wf:
  assumes "wf_db d" and "row key d \<noteq> None"
  shows "\<exists>d' is. insert_messages key ms d = Inr d' \<and> wf_db d' \<and> db_sessions d' = db_sessions d
    \<and> length is = length ms
    \<and> db_messages d' = db_messages d @ map (\<lambda>(i, m). row_of_message i key m) (zip is ms)"
  using assms
proof (induction ms arbitrary: d)
  case (Cons m ms)
  obtain d1 where d1: "insert_message key m d = Inr d1" "wf_db d1" "db_sessions d1 = db_sessions d"
    "db_messages d1 = db_messages d @ [row_of_message (db_next_id d) key m]"
    using insert_message_wf [OF Cons.prems] by auto
  then have "row key d1 \<noteq> None" using Cons.prems(2) by (simp add: find_session_def)
  from Cons.IH [OF d1(2) this] obtain d' "is" where
    "insert_messages key ms d1 = Inr d'" "wf_db d'" "db_sessions d' = db_sessions d1" "length is = length ms"
    "db_messages d' = db_messages d1 @ map (\<lambda>(i, m). row_of_message i key m) (zip is ms)" by auto
  with d1 show ?case by (intro exI [of _ d'] exI [of _ "db_next_id d # is"]) simp
qed auto

section \<open>The stores keep conversations\<close>

text \<open>What storing a message keeps of it.\<close>

definition stored_message :: "message \<Rightarrow> message" where
  "stored_message m = m\<lparr>msg_system_parts := [], msg_tool_calls := map json_tool_call (msg_tool_calls m)\<rparr>"

definition sqlite_view :: "db \<Rightarrow> conversations" where
  "sqlite_view d key = map_option (\<lambda>r. (load_messages key d, sr_summary r)) (row key d)"

definition tenant_view :: "string \<Rightarrow> db \<Rightarrow> conversations" where
  "tenant_view t d key =
     map_option (\<lambda>r. (load_messages (scoped_key t key) d, sr_summary r))
       (find_session (owned t (scoped_key t key)) d)"

text \<open>The rows of a tenant are the ones under its keys.\<close>

definition tenant_inv :: "string \<Rightarrow> db \<Rightarrow> bool" where
  "tenant_inv t d \<longleftrightarrow> wf_db d
     \<and> (\<forall>r \<in> set (db_sessions d). sr_tenant_id r = t \<longleftrightarrow> has_prefix (sr_key r) (scoped_key t []))"

lemma message_of_row_of_message [simp]: "message_of_row (row_of_message i k m) = stored_message m"
  by (simp add: message_of_row_def row_of_message_def stored_message_def)

lemma stored_message_sel [simp]:
  "msg_role (stored_message m) = msg_role m" "msg_content (stored_message m) = msg_content m"
  "msg_tool_call_id (stored_message m) = msg_tool_call_id m"
  "msg_tool_calls (stored_message m) = map json_tool_call (msg_tool_calls m)"
  by (simp_all add: stored_message_def)

lemma map_snd_zip_rows:
  "length is = length ms \<Longrightarrow>
    map message_of_row (map (\<lambda>(i, m). row_of_message i key m) (zip is ms)) = map stored_message ms"
  by (induction "is" ms rule: list_induct2) auto

lemma session_key_row_of_message [simp]: "mr_session_key (row_of_message i k m) = k"
  by (simp add: row_of_message_def)

lemma filter_zip_rows:
  "filter (\<lambda>r. mr_session_key r = k) (map (\<lambda>(i, m). row_of_message i key m) xs)
     = (if k = key then map (\<lambda>(i, m). row_of_message i key m) xs else [])"
  by (induction xs) auto

lemma load_messages_none: "wf_db d \<Longrightarrow> row key d = None \<Longrightarrow> load_messages key d = []"
  by (auto simp: load_messages_wf wf_db_def row_None filter_empty_conv)

lemma load_messages_cong:
  "db_messages d = db_messages d' \<Longrightarrow> load_messages key d = load_messages key d'"
  by (simp add: load_messages_def)

lemma spec_history_sqlite: "wf_db d \<Longrightarrow> spec_history (sqlite_view d) key = load_messages key d"
  by (cases "row key d") (simp_all add: spec_history_def sqlite_view_def load_messages_none)

lemma spec_summary_sqlite:
  "spec_summary (sqlite_view d) key = (case row key d of None \<Rightarrow> [] | Some r \<Rightarrow> sr_summary r)"
  by (cases "row key d") (simp_all add: spec_summary_def sqlite_view_def)

lemma view_insert_session:
  assumes "wf_db d"
  shows "sqlite_view (insert_session key t now d) = spec_get_or_create key (sqlite_view d)"
proof
  fix k
  have "load_messages k (insert_session key t now d) = load_messages k d" by (simp add: load_messages_def)
  then show "sqlite_view (insert_session key t now d) k = spec_get_or_create key (sqlite_view d) k"
    using load_messages_none [OF assms]
    by (cases "row key d") (auto simp: sqlite_view_def spec_get_or_create_def row_insert)
qed

lemma add_message_ok:
  assumes "wf_db d"
  shows "\<exists>d'. insert_message key m (upsert_session key t now d) = Inr d' \<and> wf_db d'
    \<and> db_sessions d' = db_sessions (upsert_session key t now d)
    \<and> sqlite_view d' = spec_add key (stored_message m) (sqlite_view d)"
proof -
  have wf: "wf_db (upsert_session key t now d)" and r: "row key (upsert_session key t now d) \<noteq> None"
    by (simp_all add: assms wf_upsert row_upsert)
  obtain d' where d': "insert_message key m (upsert_session key t now d) = Inr d'" "wf_db d'"
    "db_sessions d' = db_sessions (upsert_session key t now d)"
    "db_messages d' = db_messages d @ [row_of_message (db_next_id (upsert_session key t now d)) key m]"
    using insert_message_wf [OF wf r] by auto
  have row: "row k d' = row k (upsert_session key t now d)" for k by (simp add: find_session_def d'(3))
  have load: "load_messages k d' = load_messages k d @ (if k = key then [stored_message m] else [])" for k
    by (simp add: load_messages_wf assms d'(2,4))
  have "sqlite_view d' k = spec_add key (stored_message m) (sqlite_view d) k" for k
    by (cases "row k d")
       (auto simp: sqlite_view_def row row_upsert load spec_add_def spec_history_def
          spec_summary_def load_messages_none assms)
  with d' show ?thesis by blast
qed

lemma view_update_summary:
  assumes "distinct (map sr_key (db_sessions d))"
    and "\<And>r. row key d = Some r \<Longrightarrow> p r" and "\<And>r. p r \<Longrightarrow> sr_key r = key"
  shows "sqlite_view (update_summary p x now d) = spec_set_summary key x (sqlite_view d)"
proof
  fix k
  have load: "load_messages k (update_summary p x now d) = load_messages k d" by (simp add: load_messages_def)
  have p: "p r \<longleftrightarrow> k = key" if "row k d = Some r" for r
    using row_Some [OF that] assms(2) [of r] assms(3) [of r] that by auto
  show "sqlite_view (update_summary p x now d) k = spec_set_summary key x (sqlite_view d) k"
  proof (cases "row k d")
    case None
    then show ?thesis
      by (auto simp: sqlite_view_def row_update_summary spec_set_summary_def split: option.splits)
  next
    case (Some r)
    with p [OF Some] show ?thesis
      by (auto simp: sqlite_view_def row_update_summary spec_set_summary_def load split: option.splits)
  qed
qed

lemma messages_of_delete:
  "messages_of k (delete_messages key d) = (if k = key then [] else messages_of k d)"
  by (auto simp: delete_messages_def filter_empty_conv intro: filter_cong)

lemma view_delete_messages:
  assumes "wf_db d"
  shows "sqlite_view (delete_messages key d) = spec_set_history key [] (sqlite_view d)"
proof
  fix k
  have row: "row k (delete_messages key d) = row k d" by (simp add: find_session_def)
  have "load_messages k (delete_messages key d) = (if k = key then [] else load_messages k d)"
    by (simp add: load_messages_wf assms wf_delete_messages messages_of_delete)
  then show "sqlite_view (delete_messages key d) k = spec_set_history key [] (sqlite_view d) k"
    by (auto simp: sqlite_view_def row spec_set_history_def split: option.splits)
qed

lemma view_replace_messages:
  assumes "wf_db d"
  shows "wf_db (snd (replace_messages key ms now d))
    \<and> sqlite_view (snd (replace_messages key ms now d))
        = spec_set_history key (map stored_message ms) (sqlite_view d)"
proof (cases "row key d")
  case None
  then have gone: "row key (delete_messages key d) = None" by (simp add: find_session_def)
  have del: "delete_messages key d = d"
    using load_messages_none [OF assms None] assms
    by (auto simp: delete_messages_def load_messages_wf filter_id_conv filter_empty_conv)
  have touch: "touch_session key now d = d"
    using None by (auto simp: touch_session_def row_None intro!: db.equality map_idI)
  from None have "sqlite_view d key = None" by (simp add: sqlite_view_def)
  then show ?thesis using assms None gone
    by (cases ms) (simp_all add: replace_messages_def insert_message_def del touch spec_set_history_def)
next
  case (Some r)
  let ?d = "delete_messages key d"
  have wf: "wf_db ?d" and r: "row key ?d \<noteq> None"
    using assms Some by (simp_all add: wf_delete_messages find_session_def)
  obtain d' "is" where d': "insert_messages key ms ?d = Inr d'" "wf_db d'" "db_sessions d' = db_sessions d"
    "length is = length ms"
    "db_messages d' = db_messages ?d @ map (\<lambda>(i, m). row_of_message i key m) (zip is ms)"
    using insert_messages_wf [OF wf r, of ms] by auto
  let ?e = "touch_session key now d'"
  have "wf_db ?e" using d'(2) by (rule wf_touch)
  have load: "load_messages k ?e = (if k = key then map stored_message ms else load_messages k d)" for k
    by (simp add: load_messages_wf \<open>wf_db ?e\<close> assms d'(5) filter_zip_rows messages_of_delete
        map_snd_zip_rows [OF d'(4)] del: map_map)
  have row: "row k ?e = map_option (\<lambda>r. if sr_key r = key then r\<lparr>sr_updated_at := now\<rparr> else r) (row k d)" for k
    by (simp add: row_touch) (simp add: find_session_def d'(3))
  have "sqlite_view ?e k = spec_set_history key (map stored_message ms) (sqlite_view d) k" for k
    using Some by (cases "row k d") (auto simp: sqlite_view_def row load spec_set_history_def)
  with \<open>wf_db ?e\<close> d'(1) show ?thesis by (auto simp: replace_messages_def)
qed

text \<open>The identifiers a truncation keeps are those of the last messages of the session.\<close>

lemma filter_last_ids:
  assumes "distinct (map f xs)"
  shows "filter (\<lambda>x. f x \<in> f ` set (drop n xs)) xs = drop n xs"
proof -
  have "distinct (map f (take n xs @ drop n xs))" using assms by simp
  then have "f ` set (take n xs) \<inter> f ` set (drop n xs) = {}"
    unfolding map_append distinct_append by simp
  then have "filter (\<lambda>x. f x \<in> f ` set (drop n xs)) (take n xs) = []"
    by (auto simp: filter_empty_conv)
  moreover have "filter (\<lambda>x. f x \<in> f ` set (drop n xs)) (drop n xs) = drop n xs"
    by (simp add: filter_id_conv)
  ultimately show ?thesis by (metis append_Nil append_take_drop_id filter_append)
qed

lemma view_truncate_messages:
  assumes "wf_db d"
  shows "sqlite_view (truncate_messages key n d) = spec_truncate key n (sqlite_view d)"
proof (cases "n \<le> 0")
  case True
  have "spec_set_history key [] c = spec_truncate key n c" for c
    using True by (auto simp: spec_set_history_def spec_truncate_def keep_last_def split: option.splits)
  with True view_delete_messages [OF assms] show ?thesis by (simp add: truncate_messages_def)
next
  case False
  let ?ms = "messages_of key d" and ?e = "truncate_messages key n d"
  have e: "?e = delete_older_messages key (nat n) d" using False by (simp add: truncate_messages_def)
  have sorted: "sorted_wrt (<) (map mr_id ?ms)"
    using assms by (auto simp: wf_db_def sorted_wrt_map intro: sorted_wrt_filter)
  then have "sort (map mr_id ?ms) = map mr_id ?ms"
    by (intro sort_key_id_if_sorted) (auto elim: sorted_wrt_mono_rel [rotated] simp: strict_sorted_iff)
  then have ids: "set (newest_ids key (nat n) d) = mr_id ` set (drop (length ?ms - nat n) ?ms)"
    by (simp add: newest_ids_def take_rev drop_map)
  have "messages_of key ?e = filter (\<lambda>r. mr_id r \<in> mr_id ` set (drop (length ?ms - nat n) ?ms)) ?ms"
    by (auto simp: e delete_older_messages_def ids intro!: filter_cong)
  also have "\<dots> = keep_last n ?ms"
    using sorted False by (simp add: filter_last_ids strict_sorted_iff keep_last_def del: filter_filter)
  finally have key: "messages_of key ?e = keep_last n ?ms" .
  have other: "messages_of k ?e = messages_of k d" if "k \<noteq> key" for k
    using that by (auto simp: e delete_older_messages_def intro!: filter_cong)
  have row: "row k ?e = row k d" for k by (simp add: find_session_def)
  have "load_messages k ?e = (if k = key then keep_last n (load_messages k d) else load_messages k d)" for k
    using key other by (simp add: load_messages_wf assms wf_truncate keep_last_map)
  then have "sqlite_view ?e k = spec_truncate key n (sqlite_view d) k" for k
    by (auto simp: sqlite_view_def row spec_truncate_def split: option.splits)
  then show ?thesis by blast
qed

section \<open>The stores meet the contract\<close>

definition sqlite_ops :: "db session_ops" where
  "sqlite_ops =
     \<lparr>ss_get_or_create = sqlite_get_or_create, ss_add_message = sqlite_add_message,
      ss_get_history = sqlite_get_history, ss_get_summary = sqlite_get_summary,
      ss_set_summary = sqlite_set_summary, ss_set_history = sqlite_set_history,
      ss_truncate_history = sqlite_truncate_history\<rparr>"

definition tenant_ops :: "string \<Rightarrow> db session_ops" where
  "tenant_ops t =
     \<lparr>ss_get_or_create = tenant_get_or_create t, ss_add_message = tenant_add_message t,
      ss_get_history = tenant_get_history t, ss_get_summary = tenant_get_summary t,
      ss_set_summary = tenant_set_summary t, ss_set_history = tenant_set_history t,
      ss_truncate_history = tenant_truncate_history t\<rparr>"

lemma sqlite_ops_sel [simp]:
  "ss_get_or_create sqlite_ops = sqlite_get_or_create" "ss_add_message sqlite_ops = sqlite_add_message"
  "ss_get_history sqlite_ops = sqlite_get_history" "ss_get_summary sqlite_ops = sqlite_get_summary"
  "ss_set_summary sqlite_ops = sqlite_set_summary" "ss_set_history sqlite_ops = sqlite_set_history"
  "ss_truncate_history sqlite_ops = sqlite_truncate_history"
  by (simp_all add: sqlite_ops_def)

lemma tenant_ops_sel [simp]:
  "ss_get_or_create (tenant_ops t) = tenant_get_or_create t" "ss_add_message (tenant_ops t) = tenant_add_message t"
  "ss_get_history (tenant_ops t) = tenant_get_history t" "ss_get_summary (tenant_ops t) = tenant_get_summary t"
  "ss_set_summary (tenant_ops t) = tenant_set_summary t" "ss_set_history (tenant_ops t) = tenant_set_history t"
  "ss_truncate_history (tenant_ops t) = tenant_truncate_history t"
  by (simp_all add: tenant_ops_def)

lemma wf_distinct: "wf_db d \<Longrightarrow> distinct (map sr_key (db_sessions d))"
  by (simp add: wf_db_def)

lemma load_session_view:
  "row key d = Some r \<Longrightarrow> \<exists>se. load_session key d = Inr se \<and> se_key se = key
     \<and> sqlite_view d key = Some (se_messages se, se_summary se)"
  by (simp add: load_session_def sqlite_view_def)

interpretation sqlite_sessions: session_store sqlite_ops wf_db sqlite_view stored_message
proof unfold_locales
  fix d :: db and key x :: string and m :: message and ms :: "message list" and n :: int and now :: time
  assume wf: "wf_db d"
  note view = view_insert_session [OF wf, of key "[]" now]
  show "wf_db (snd (ss_get_or_create sqlite_ops d key now))
      \<and> sqlite_view (snd (ss_get_or_create sqlite_ops d key now)) = spec_get_or_create key (sqlite_view d)"
    by (simp add: sqlite_get_or_create_def Let_def wf_insert wf view)
  have "row key (insert_session key [] now d) \<noteq> None" by (simp add: row_insert)
  then obtain r where "row key (insert_session key [] now d) = Some r" by blast
  from load_session_view [OF this]
  show "\<exists>se. fst (ss_get_or_create sqlite_ops d key now) = Inr se \<and> se_key se = key
      \<and> spec_get_or_create key (sqlite_view d) key = Some (se_messages se, se_summary se)"
    by (simp add: sqlite_get_or_create_def Let_def view)
  show "wf_db (snd (ss_add_message sqlite_ops d key m now))
      \<and> sqlite_view (snd (ss_add_message sqlite_ops d key m now)) = spec_add key (stored_message m) (sqlite_view d)"
    using add_message_ok [OF wf, of key m "[]" now] by (auto simp: sqlite_add_message_def)
  show "ss_get_history sqlite_ops d key = Inr (spec_history (sqlite_view d) key)"
    by (simp add: sqlite_get_history_def spec_history_sqlite wf)
  show "ss_get_summary sqlite_ops d key = Inr (spec_summary (sqlite_view d) key)"
    by (simp add: sqlite_get_summary_def spec_summary_sqlite split: option.splits)
  show "wf_db (snd (ss_set_summary sqlite_ops d key x now))
      \<and> sqlite_view (snd (ss_set_summary sqlite_ops d key x now)) = spec_set_summary key x (sqlite_view d)"
    using view_update_summary [OF wf_distinct [OF wf], of key "\<lambda>r. sr_key r = key" x now]
    by (auto simp: sqlite_set_summary_def Let_def wf_update_summary wf dest: row_Some)
  show "wf_db (snd (ss_set_history sqlite_ops d key ms now))
      \<and> sqlite_view (snd (ss_set_history sqlite_ops d key ms now))
        = spec_set_history key (map stored_message ms) (sqlite_view d)"
    using view_replace_messages [OF wf] by (simp add: sqlite_set_history_def)
  show "wf_db (snd (ss_truncate_history sqlite_ops d key n now))
      \<and> sqlite_view (snd (ss_truncate_history sqlite_ops d key n now)) = spec_truncate key n (sqlite_view d)"
    by (simp add: sqlite_truncate_history_def view_truncate_messages wf_truncate wf)
qed

text \<open>A tenant sees the conversations under its keys.\<close>

lemma scoped_key_inject [simp]: "scoped_key t k = scoped_key t k' \<longleftrightarrow> k = k'"
  by (simp add: scoped_key_def)

lemma scoped_key_prefix [simp]: "has_prefix (scoped_key t k) (scoped_key t [])"
  by (simp add: has_prefix_iff scoped_key_def)

lemma scoped_key_prefix_iff: "has_prefix s (scoped_key t []) \<longleftrightarrow> (\<exists>k. s = scoped_key t k)"
  by (simp add: has_prefix_iff scoped_key_def)

lemma tenant_inv_wf: "tenant_inv t d \<Longrightarrow> wf_db d"
  by (simp add: tenant_inv_def)

lemma tenant_row:
  "tenant_inv t d \<Longrightarrow> find_session (owned t (scoped_key t k)) d = row (scoped_key t k) d"
  by (auto simp: find_owned tenant_inv_wf wf_distinct tenant_inv_def dest: row_Some split: option.splits)

lemma tenant_view_sqlite: "tenant_inv t d \<Longrightarrow> tenant_view t d = sqlite_view d \<circ> scoped_key t"
  by (rule ext) (simp add: tenant_view_def sqlite_view_def tenant_row)

lemma spec_scoped [simp]:
  "spec_history (c \<circ> scoped_key t) k = spec_history c (scoped_key t k)"
  "spec_summary (c \<circ> scoped_key t) k = spec_summary c (scoped_key t k)"
  "spec_get_or_create (scoped_key t k) c \<circ> scoped_key t = spec_get_or_create k (c \<circ> scoped_key t)"
  "spec_add (scoped_key t k) m c \<circ> scoped_key t = spec_add k m (c \<circ> scoped_key t)"
  "spec_set_summary (scoped_key t k) x c \<circ> scoped_key t = spec_set_summary k x (c \<circ> scoped_key t)"
  "spec_set_history (scoped_key t k) ms c \<circ> scoped_key t = spec_set_history k ms (c \<circ> scoped_key t)"
  "spec_truncate (scoped_key t k) n c \<circ> scoped_key t = spec_truncate k n (c \<circ> scoped_key t)"
  by (auto simp: spec_defs fun_eq_iff split: option.splits)

text \<open>The keys and tenants of the rows decide the invariant.\<close>

definition tags :: "db \<Rightarrow> (string \<times> string) set" where
  "tags d = (\<lambda>r. (sr_key r, sr_tenant_id r)) ` set (db_sessions d)"

lemma tenant_inv_tags:
  "tenant_inv t d \<longleftrightarrow> wf_db d \<and> (\<forall>(k, u) \<in> tags d. u = t \<longleftrightarrow> has_prefix k (scoped_key t []))"
  by (auto simp: tenant_inv_def tags_def)

lemma tags_insert: "tags (insert_session k u now d) \<subseteq> insert (k, u) (tags d)"
  by (auto simp: tags_def insert_session_def)

lemma tags_map:
  "(\<And>r. sr_key (f r) = sr_key r \<and> sr_tenant_id (f r) = sr_tenant_id r) \<Longrightarrow>
    tags (d\<lparr>db_sessions := map f (db_sessions d)\<rparr>) = tags d"
  by (simp add: tags_def image_image)

lemma tags_touch [simp]: "tags (touch_session k now d) = tags d"
  unfolding touch_session_def by (rule tags_map) simp

lemma tags_upsert: "tags (upsert_session k u now d) \<subseteq> insert (k, u) (tags d)"
  using tags_insert [of k u now d] by (auto simp: upsert_session_def)

lemma tags_update_summary [simp]: "tags (update_summary p x now d) = tags d"
  unfolding update_summary_def by (rule tags_map) simp

lemma tags_sessions: "db_sessions d = db_sessions d' \<Longrightarrow> tags d = tags d'"
  by (simp add: tags_def)

lemma sessions_insert_messages:
  "insert_messages key ms d = Inr d' \<Longrightarrow> db_sessions d' = db_sessions d"
  by (induction ms arbitrary: d) (auto simp: insert_message_def split: if_splits sum.splits)

lemma tags_replace [simp]: "tags (snd (replace_messages key ms now d)) = tags d"
proof (cases "insert_messages key ms (delete_messages key d)")
  case (Inr d')
  from sessions_insert_messages [OF this] have "tags d' = tags d" by (intro tags_sessions) simp
  with Inr show ?thesis by (simp add: replace_messages_def)
qed (simp add: replace_messages_def)

lemma tenant_inv_mono:
  "tenant_inv t d \<Longrightarrow> wf_db d' \<Longrightarrow> tags d' \<subseteq> insert (scoped_key t k, t) (tags d) \<Longrightarrow> tenant_inv t d'"
  by (force simp: tenant_inv_tags)

interpretation tenant_sessions: session_store "tenant_ops t" "tenant_inv t" "tenant_view t" stored_message for t
proof unfold_locales
  fix d :: db and key x :: string and m :: message and ms :: "message list" and n :: int and now :: time
  assume inv: "tenant_inv t d"
  note wf = tenant_inv_wf [OF inv] and keep = tenant_inv_mono [OF inv]
  let ?sk = "scoped_key t key"
  let ?i = "insert_session ?sk t now d"
  have i: "tenant_inv t ?i" by (rule keep [of _ key]) (simp_all add: wf_insert wf tags_insert)
  have goc: "tenant_view t ?i = spec_get_or_create key (tenant_view t d)"
    by (simp add: tenant_view_sqlite i inv view_insert_session wf)
  show "tenant_inv t (snd (ss_get_or_create (tenant_ops t) d key now))
      \<and> tenant_view t (snd (ss_get_or_create (tenant_ops t) d key now)) = spec_get_or_create key (tenant_view t d)"
    by (simp add: tenant_get_or_create_def Let_def i goc)
  have "row ?sk ?i \<noteq> None" by (simp add: row_insert)
  then obtain r where r: "row ?sk ?i = Some r" by blast
  then show "\<exists>se. fst (ss_get_or_create (tenant_ops t) d key now) = Inr se \<and> se_key se = key
      \<and> spec_get_or_create key (tenant_view t d) key = Some (se_messages se, se_summary se)"
    using goc [symmetric]
    by (simp add: tenant_get_or_create_def tenant_load_session_def Let_def tenant_row i tenant_view_def)
  obtain d' where d': "insert_message ?sk m (upsert_session ?sk t now d) = Inr d'" "wf_db d'"
    "db_sessions d' = db_sessions (upsert_session ?sk t now d)"
    "sqlite_view d' = spec_add ?sk (stored_message m) (sqlite_view d)"
    using add_message_ok [OF wf, of ?sk m t now] by auto
  have "tenant_inv t d'" using d'(2) tags_upsert by (intro keep [of _ key]) (auto simp: tags_sessions [OF d'(3)])
  then show "tenant_inv t (snd (ss_add_message (tenant_ops t) d key m now))
      \<and> tenant_view t (snd (ss_add_message (tenant_ops t) d key m now)) = spec_add key (stored_message m) (tenant_view t d)"
    by (simp add: tenant_add_message_def Let_def d' tenant_view_sqlite inv)
  show "ss_get_history (tenant_ops t) d key = Inr (spec_history (tenant_view t d) key)"
    by (simp add: tenant_get_history_def tenant_view_sqlite inv spec_history_sqlite wf)
  show "ss_get_summary (tenant_ops t) d key = Inr (spec_summary (tenant_view t d) key)"
    by (simp add: tenant_get_summary_def tenant_view_sqlite inv spec_summary_sqlite tenant_row split: option.splits)
  let ?u = "update_summary (owned t ?sk) x now d"
  have u: "tenant_inv t ?u" by (rule keep [of _ key]) (auto simp: wf_update_summary wf)
  have "sqlite_view ?u = spec_set_summary ?sk x (sqlite_view d)"
  proof (rule view_update_summary [OF wf_distinct [OF wf]])
    show "owned t ?sk r" if "row ?sk d = Some r" for r
      using row_Some [OF that] inv by (simp add: tenant_inv_def)
  qed simp
  then show "tenant_inv t (snd (ss_set_summary (tenant_ops t) d key x now))
      \<and> tenant_view t (snd (ss_set_summary (tenant_ops t) d key x now)) = spec_set_summary key x (tenant_view t d)"
    by (simp add: tenant_set_summary_def Let_def u tenant_view_sqlite inv)
  have none: "tenant_view t d key = None" if "row ?sk d = None"
    using that by (simp add: tenant_view_def tenant_row inv)
  have h: "tenant_inv t (snd (replace_messages ?sk ms now d))"
    by (rule keep [of _ key]) (auto simp: view_replace_messages wf)
  show "tenant_inv t (snd (ss_set_history (tenant_ops t) d key ms now))
      \<and> tenant_view t (snd (ss_set_history (tenant_ops t) d key ms now))
        = spec_set_history key (map stored_message ms) (tenant_view t d)"
    using h none
    by (cases "row ?sk d") (simp_all add: tenant_set_history_def Let_def tenant_row inv tenant_view_sqlite
        view_replace_messages wf, simp add: spec_set_history_def)
  have tr: "tenant_inv t (truncate_messages ?sk n d)"
    by (rule keep [of _ key]) (auto simp: wf_truncate wf tags_def)
  show "tenant_inv t (snd (ss_truncate_history (tenant_ops t) d key n now))
      \<and> tenant_view t (snd (ss_truncate_history (tenant_ops t) d key n now)) = spec_truncate key n (tenant_view t d)"
    using tr none
    by (cases "row ?sk d") (simp_all add: tenant_truncate_history_def Let_def tenant_row inv tenant_view_sqlite
        view_truncate_messages wf, simp add: spec_truncate_def)
qed

end
