(* ===== verification/Session_Eviction.thy ===== *)
theory Session_Eviction
  imports Session_Store
begin

text \<open>
  The eviction sweep of \<open>pkg/session/eviction.go\<close> over a store that can evict, and what a sweep of
  the whole database leaves. The ticker that runs it is not modelled.
\<close>

section \<open>The eviction sweep\<close>

record evictor_config =
  ev_ttl :: duration
  ev_max_sessions :: int
  ev_interval :: duration

definition new_evictor :: "evictor_config \<Rightarrow> evictor_config" where
  "new_evictor cfg = (if ev_interval cfg \<le> 0 then cfg\<lparr>ev_interval := 5 * minute\<rparr> else cfg)"

text \<open>\<open>RunOnce\<close> over a store's \<open>EvictExpired\<close> and \<open>EvictLRU\<close>, which read the clock at \<open>now\<close>.\<close>

definition run_once ::
  "('d \<Rightarrow> duration \<Rightarrow> time \<Rightarrow> nat \<times> 'd) \<Rightarrow> ('d \<Rightarrow> int \<Rightarrow> nat \<times> 'd) \<Rightarrow> evictor_config \<Rightarrow> 'd \<Rightarrow> time \<Rightarrow> nat \<times> 'd"
  where
  "run_once evict_expired evict_lru cfg d now =
     (let (n1, d1) = (if ev_ttl cfg > 0 then evict_expired d (ev_ttl cfg) now else (0, d));
          (n2, d2) = (if ev_max_sessions cfg > 0 then evict_lru d1 (ev_max_sessions cfg) else (0, d1))
      in (n1 + n2, d2))"

definition default_evictor_config :: evictor_config where
  "default_evictor_config = \<lparr>ev_ttl = 24 * hour, ev_max_sessions = 10000, ev_interval = 5 * minute\<rparr>"
section \<open>What a deletion leaves\<close>

lemma distinct_keys_eq:
  "wf_db d \<Longrightarrow> r \<in> set (db_sessions d) \<Longrightarrow> s \<in> set (db_sessions d) \<Longrightarrow> sr_key r = sr_key s \<Longrightarrow> r = s"
  by (auto simp: wf_db_def distinct_map dest: inj_onD)

lemma delete_sessions_count:
  "fst (delete_sessions p d) + sqlite_session_count (snd (delete_sessions p d)) = sqlite_session_count d"
  using sum_length_filter_compl [of p "db_sessions d"]
  by (simp add: delete_sessions_def Let_def sqlite_session_count_def)

lemma delete_sessions_set:
  "set (db_sessions (snd (delete_sessions p d))) = {r \<in> set (db_sessions d). \<not> p r}"
  by (auto simp: delete_sessions_def Let_def)

lemma delete_sessions_load:
  assumes "wf_db d"
  shows "load_messages k (snd (delete_sessions p d))
    = (if row k (snd (delete_sessions p d)) = None then [] else load_messages k d)"
proof (cases "row k (snd (delete_sessions p d))")
  case None
  then show ?thesis using load_messages_none [OF wf_delete_sessions [OF assms]] by simp
next
  case (Some r)
  from row_Some [OF Some] have r: "r \<in> set (db_sessions d)" "\<not> p r" "sr_key r = k"
    by (auto simp: delete_sessions_set)
  then have "k \<notin> sr_key ` set (filter p (db_sessions d))"
    using distinct_keys_eq [OF assms] by fastforce
  then have "(\<lambda>m. mr_session_key m = k \<and> mr_session_key m \<notin> sr_key ` set (filter p (db_sessions d)))
      = (\<lambda>m. mr_session_key m = k)" by metis
  from arg_cong [OF this, of "\<lambda>p. filter p (db_messages d)"]
  have "messages_of k (snd (delete_sessions p d)) = messages_of k d"
    by (simp add: delete_sessions_def Let_def conj_commute del: set_filter)
  with Some show ?thesis by (simp add: load_messages_wf assms wf_delete_sessions)
qed

text \<open>The oldest rows: as many as asked for, each no younger than any other.\<close>

lemma oldest_rows:
  assumes wf: "wf_db d" and n: "n \<le> length (db_sessions d)"
  shows "fst (delete_sessions (\<lambda>r. sr_key r \<in> set (oldest_keys (\<lambda>_. True) n d)) d) = n"
    and "r \<in> set (db_sessions d) \<Longrightarrow> sr_key r \<in> set (oldest_keys (\<lambda>_. True) n d) \<Longrightarrow>
      s \<in> set (db_sessions d) \<Longrightarrow> sr_key s \<notin> set (oldest_keys (\<lambda>_. True) n d) \<Longrightarrow>
      stamp (sr_updated_at r) \<le> stamp (sr_updated_at s)"
proof -
  let ?f = "\<lambda>r. stamp (sr_updated_at r)" and ?rs = "db_sessions d"
  let ?xs = "sort_key ?f ?rs"
  have keys: "oldest_keys (\<lambda>_. True) n d = map sr_key (take n ?xs)" by (simp add: oldest_keys_def)
  have dist: "distinct ?rs" using wf by (simp add: wf_db_def distinct_map)
  have in_iff: "sr_key r \<in> set (oldest_keys (\<lambda>_. True) n d) \<longleftrightarrow> r \<in> set (take n ?xs)" if "r \<in> set ?rs" for r
  proof -
    have "inj_on sr_key (set ?rs)" using wf by (simp add: wf_db_def distinct_map)
    moreover have "set (take n ?xs) \<subseteq> set ?rs" by (auto dest: in_set_takeD)
    ultimately show ?thesis using inj_on_image_mem_iff [of sr_key "set ?rs" r "set (take n ?xs)"] that
      by (simp add: keys)
  qed
  have "set (filter (\<lambda>r. sr_key r \<in> set (oldest_keys (\<lambda>_. True) n d)) ?rs) = set (take n ?xs)"
  proof (rule set_eqI)
    fix x
    have "x \<notin> set (take n ?xs)" if "x \<notin> set ?rs" using that by (auto dest: in_set_takeD)
    then show "x \<in> set (filter (\<lambda>r. sr_key r \<in> set (oldest_keys (\<lambda>_. True) n d)) ?rs) \<longleftrightarrow> x \<in> set (take n ?xs)"
      using in_iff [of x] by (cases "x \<in> set ?rs") auto
  qed
  moreover have "distinct (take n ?xs)" using dist by simp
  ultimately have "length (filter (\<lambda>r. sr_key r \<in> set (oldest_keys (\<lambda>_. True) n d)) ?rs) = length (take n ?xs)"
    using dist by (metis distinct_card distinct_filter)
  then show "fst (delete_sessions (\<lambda>r. sr_key r \<in> set (oldest_keys (\<lambda>_. True) n d)) d) = n"
    using n by (simp add: delete_sessions_def Let_def)
  assume r: "r \<in> set ?rs" "sr_key r \<in> set (oldest_keys (\<lambda>_. True) n d)"
    and s: "s \<in> set ?rs" "sr_key s \<notin> set (oldest_keys (\<lambda>_. True) n d)"
  have "sorted (map ?f (take n ?xs @ drop n ?xs))" by simp
  then have "\<forall>x \<in> set (take n ?xs). \<forall>y \<in> set (drop n ?xs). ?f x \<le> ?f y"
    unfolding map_append sorted_append by auto
  moreover have "s \<in> set (drop n ?xs)"
    using s in_iff [OF s(1)] by (metis Un_iff append_take_drop_id set_append set_sort)
  ultimately show "?f r \<le> ?f s" using r in_iff [OF r(1)] by blast
qed

section \<open>Properties\<close>

text \<open>a sweep of the whole database leaves at most the maximum number of sessions; it
  deletes no session but those idle for the time to live and, for the maximum, those at
  least as old as all it keeps, up to a second, the granularity of the text order; it keeps none
  idle a second longer than the time to live, counts what it deletes, and leaves the messages of
  the sessions it keeps and no others.\<close>

theorem sweep_evicts:
  assumes wf: "wf_db d" and cfg: "ev_ttl cfg > 0" "ev_max_sessions cfg > 0"
  shows "case run_once sqlite_evict_expired sqlite_evict_lru cfg d now of (n, d') \<Rightarrow>
      int (sqlite_session_count d') \<le> ev_max_sessions cfg
    \<and> n + sqlite_session_count d' = sqlite_session_count d
    \<and> set (db_sessions d') \<subseteq> set (db_sessions d)
    \<and> (\<forall>r \<in> set (db_sessions d'). now - ev_ttl cfg < sr_updated_at r + second)
    \<and> (\<forall>r \<in> set (db_sessions d) - set (db_sessions d').
          sr_updated_at r < now - ev_ttl cfg + second
        \<or> (\<forall>s \<in> set (db_sessions d'). sr_updated_at r < sr_updated_at s + second))
    \<and> (\<forall>k. load_messages k d' = (if row k d' = None then [] else load_messages k d))"
proof -
  let ?exp = "\<lambda>r. stamp (sr_updated_at r) < stamp (now - ev_ttl cfg)"
  obtain n1 d1 where 1: "delete_sessions ?exp d = (n1, d1)" by (cases "delete_sessions ?exp d")
  have wf1: "wf_db d1" using wf_delete_sessions [OF wf, of ?exp] 1 by simp
  have set1: "set (db_sessions d1) = {r \<in> set (db_sessions d). \<not> ?exp r}"
    using delete_sessions_set [of ?exp d] 1 by simp
  have count1: "n1 + sqlite_session_count d1 = sqlite_session_count d"
    using delete_sessions_count [of ?exp d] 1 by simp
  have load1: "load_messages k d1 = (if row k d1 = None then [] else load_messages k d)" for k
    using delete_sessions_load [OF wf, of k ?exp] 1 by simp
  obtain n2 d2 where 2: "sqlite_evict_lru d1 (ev_max_sessions cfg) = (n2, d2)"
    by (cases "sqlite_evict_lru d1 (ev_max_sessions cfg)")
  have run: "run_once sqlite_evict_expired sqlite_evict_lru cfg d now = (n1 + n2, d2)"
    using cfg by (simp add: run_once_def sqlite_evict_expired_def 1 2)
  have lru: "int (sqlite_session_count d2) \<le> ev_max_sessions cfg
    \<and> n2 + sqlite_session_count d2 = sqlite_session_count d1 \<and> set (db_sessions d2) \<subseteq> set (db_sessions d1)
    \<and> (\<forall>r \<in> set (db_sessions d1) - set (db_sessions d2).
          \<forall>s \<in> set (db_sessions d2). stamp (sr_updated_at r) \<le> stamp (sr_updated_at s))
    \<and> (\<forall>k. load_messages k d2 = (if row k d2 = None then [] else load_messages k d1))"
  proof (cases "int (sqlite_session_count d1) \<le> ev_max_sessions cfg")
    case True
    then have "d2 = d1 \<and> n2 = 0" using 2 cfg by (simp add: sqlite_evict_lru_def)
    with True show ?thesis using load_messages_none [OF wf1] by simp
  next
    case False
    let ?n = "nat (int (sqlite_session_count d1) - ev_max_sessions cfg)"
    let ?p = "\<lambda>r. sr_key r \<in> set (oldest_keys (\<lambda>_. True) ?n d1)"
    have n: "?n \<le> length (db_sessions d1)" using cfg by (simp add: sqlite_session_count_def)
    have del: "delete_sessions ?p d1 = (n2, d2)"
      using 2 cfg False by (simp add: sqlite_evict_lru_def Let_def)
    have n2: "n2 = ?n" using oldest_rows(1) [OF wf1 n] del by simp
    have c: "n2 + sqlite_session_count d2 = sqlite_session_count d1"
      using delete_sessions_count [of ?p d1] del by simp
    have set2: "set (db_sessions d2) = {r \<in> set (db_sessions d1). \<not> ?p r}"
      using delete_sessions_set [of ?p d1] del by simp
    have old: "\<forall>r \<in> set (db_sessions d1) - set (db_sessions d2).
        \<forall>s \<in> set (db_sessions d2). stamp (sr_updated_at r) \<le> stamp (sr_updated_at s)"
      using oldest_rows(2) [OF wf1 n] by (simp add: set2)
    have "int (sqlite_session_count d2) \<le> ev_max_sessions cfg" using c n2 False cfg by linarith
    moreover have "load_messages k d2 = (if row k d2 = None then [] else load_messages k d1)" for k
      using delete_sessions_load [OF wf1, of k ?p] del by simp
    ultimately show ?thesis using c set2 old by auto
  qed
  have sub: "set (db_sessions d2) \<subseteq> set (db_sessions d)" using lru set1 by auto
  have kept: "now - ev_ttl cfg < sr_updated_at r + second" if "r \<in> set (db_sessions d2)" for r
    using that lru set1 stamp_le_bound [of "now - ev_ttl cfg" "sr_updated_at r"] by (auto simp: not_less)
  have gone: "sr_updated_at r < now - ev_ttl cfg + second
      \<or> (\<forall>s \<in> set (db_sessions d2). sr_updated_at r < sr_updated_at s + second)"
    if r: "r \<in> set (db_sessions d) - set (db_sessions d2)" for r
  proof (cases "?exp r")
    case True
    then show ?thesis using stamp_le_bound [of "sr_updated_at r"] by simp
  next
    case False
    then have "r \<in> set (db_sessions d1) - set (db_sessions d2)" using r set1 by simp
    with lru have "\<forall>s \<in> set (db_sessions d2). stamp (sr_updated_at r) \<le> stamp (sr_updated_at s)" by blast
    then show ?thesis using stamp_le_bound by blast
  qed
  have row: "row k d1 \<noteq> None" if "row k d2 \<noteq> None" for k
    using that lru by (auto simp: row_None)
  have load: "load_messages k d2 = (if row k d2 = None then [] else load_messages k d)" for k
    using lru load1 [of k] row [of k] by auto
  show ?thesis using lru count1 sub kept gone load by (simp add: run)
qed

text \<open>Two sessions of an hour ago and one of now, a day to live and room for two.\<close>

theorem sweep_evicts_witness:
  "\<exists>d cfg. wf_db d \<and> sqlite_session_count d = 3 \<and> ev_max_sessions cfg = 2
    \<and> (case run_once sqlite_evict_expired sqlite_evict_lru cfg d (hour + second) of (n, d') \<Rightarrow>
        int (sqlite_session_count d') \<le> 2 \<and> n + sqlite_session_count d' = 3)"
proof -
  let ?m = "plain_message ''user'' ''hello''"
  let ?d = "snd (sqlite_add_message (snd (sqlite_add_message
      (snd (sqlite_add_message empty_db ''a'' ?m 0)) ''b'' ?m 1)) ''c'' ?m hour)"
  let ?cfg = "\<lparr>ev_ttl = 24 * hour, ev_max_sessions = 2, ev_interval = minute\<rparr>"
  have wf: "wf_db ?d" by code_simp
  have c: "sqlite_session_count ?d = 3" by code_simp
  from sweep_evicts [OF wf, of ?cfg "hour + second"] c wf show ?thesis
    by (intro exI [of _ ?d] exI [of _ ?cfg]) (auto split: prod.splits)
qed

text \<open>Within one second the text order is not the order of time: with the cutoff on the second, a
  session updated half a second after it is already evicted.\<close>

lemma evicted_before_time:
  "stamp (second div 2) < stamp 0" "fraction_text (second div 2) = ''.5Z''"
  by code_simp+

end
