(* ===== verification/Tenant_Isolation.thy ===== *)
theory Tenant_Isolation
  imports Session_Store
begin

text \<open>
  Tenants that share the session database (\<open>pkg/session/tenant.go\<close>): every operation that a
  tenant's store offers, as one step on the tables, and what such steps do to the sessions of
  another tenant.
\<close>

section \<open>The operations of a tenant\<close>

datatype session_op = GetOrCreate string | AddMessage string message | SetSummary string string
  | SetHistory string "message list" | TruncateHistory string int | DeleteSession string
  | EvictExpired duration | EvictLRU int

fun tenant_step :: "string \<Rightarrow> session_op \<Rightarrow> time \<Rightarrow> db \<Rightarrow> db" where
  "tenant_step t (GetOrCreate key) now d = snd (tenant_get_or_create t d key now)"
| "tenant_step t (AddMessage key m) now d = snd (tenant_add_message t d key m now)"
| "tenant_step t (SetSummary key x) now d = snd (tenant_set_summary t d key x now)"
| "tenant_step t (SetHistory key ms) now d = snd (tenant_set_history t d key ms now)"
| "tenant_step t (TruncateHistory key n) now d = snd (tenant_truncate_history t d key n now)"
| "tenant_step t (DeleteSession key) now d = snd (tenant_delete_session t d key)"
| "tenant_step t (EvictExpired ttl) now d = snd (tenant_evict_expired t d ttl now)"
| "tenant_step t (EvictLRU n) now d = snd (tenant_evict_lru t d n)"

text \<open>Steps of several tenants, in the order the database executes them.\<close>

fun tenant_steps :: "(string \<times> session_op \<times> time) list \<Rightarrow> db \<Rightarrow> db" where
  "tenant_steps [] d = d"
| "tenant_steps ((t, op, now) # xs) d = tenant_steps xs (tenant_step t op now d)"

section \<open>What another tenant's step leaves alone\<close>

definition rows_of :: "string \<Rightarrow> db \<Rightarrow> session_row list" where
  "rows_of t d = filter (\<lambda>r. sr_tenant_id r = t) (db_sessions d)"

text \<open>The rows and the messages of tenant \<open>t\<close> are the same.\<close>

definition undisturbed :: "string \<Rightarrow> db \<Rightarrow> db \<Rightarrow> bool" where
  "undisturbed t d d' \<longleftrightarrow> rows_of t d' = rows_of t d
     \<and> (\<forall>k. messages_of (scoped_key t k) d' = messages_of (scoped_key t k) d)"

lemma undisturbed_refl [simp]: "undisturbed t d d"
  by (simp add: undisturbed_def)

lemma undisturbed_trans: "undisturbed t d d' \<Longrightarrow> undisturbed t d' d'' \<Longrightarrow> undisturbed t d d''"
  by (simp add: undisturbed_def)

lemma scoped_key_disjoint:
  assumes "CHR '':'' \<notin> set t" and "CHR '':'' \<notin> set u" and "t \<noteq> u"
  shows "scoped_key u k \<noteq> scoped_key t k'"
  using split_at_byte [OF assms(2,1), of k k'] assms(3) by (auto simp: scoped_key_def)

text \<open>What a step needs for a tenant not to be disturbed: each row changed, added or deleted
  belongs to another one, and so does each message.\<close>

lemma filter_map_outside:
  "(\<And>x. x \<in> set xs \<Longrightarrow> p (f x) = p x \<and> (p x \<longrightarrow> f x = x)) \<Longrightarrow> filter p (map f xs) = filter p xs"
  by (induction xs) auto

lemma undisturbed_map:
  assumes "\<And>r. r \<in> set (db_sessions d) \<Longrightarrow> sr_tenant_id (f r) = sr_tenant_id r \<and> (sr_tenant_id r = t \<longrightarrow> f r = r)"
  shows "undisturbed t d (d\<lparr>db_sessions := map f (db_sessions d)\<rparr>)"
  using assms by (auto simp: undisturbed_def rows_of_def intro!: filter_map_outside)

lemma undisturbed_insert: "u \<noteq> t \<Longrightarrow> undisturbed t d (insert_session k u now d)"
  by (simp add: undisturbed_def rows_of_def insert_session_def)

lemma undisturbed_touch:
  assumes "tenant_inv t d" and "\<And>k'. sk \<noteq> scoped_key t k'"
  shows "undisturbed t d (touch_session sk now d)"
  unfolding touch_session_def
  using assms by (intro undisturbed_map) (auto simp: tenant_inv_def scoped_key_prefix_iff)

lemma undisturbed_upsert:
  assumes "tenant_inv t d" and "\<And>k'. sk \<noteq> scoped_key t k'" and "u \<noteq> t"
  shows "undisturbed t d (upsert_session sk u now d)"
  using assms by (simp add: upsert_session_def undisturbed_insert undisturbed_touch)

lemma undisturbed_update_summary:
  "u \<noteq> t \<Longrightarrow> undisturbed t d (update_summary (owned u sk) x now d)"
  unfolding update_summary_def by (intro undisturbed_map) auto

lemma undisturbed_insert_message:
  assumes "insert_message sk m d = Inr d'" and "\<And>k'. sk \<noteq> scoped_key t k'"
  shows "undisturbed t d d'"
  using assms by (auto simp: insert_message_def undisturbed_def rows_of_def split: if_splits)

lemma undisturbed_insert_messages:
  assumes "insert_messages sk ms d = Inr d'" and "\<And>k'. sk \<noteq> scoped_key t k'"
  shows "undisturbed t d d'"
  using assms
proof (induction ms arbitrary: d)
  case (Cons m ms)
  then obtain d1 where d1: "insert_message sk m d = Inr d1" "insert_messages sk ms d1 = Inr d'"
    by (auto split: sum.splits)
  show ?case
    by (rule undisturbed_trans [OF undisturbed_insert_message [OF d1(1) Cons.prems(2)]])
       (rule Cons.IH [OF d1(2) Cons.prems(2)])
qed simp

lemma undisturbed_truncate:
  assumes "\<And>k'. sk \<noteq> scoped_key t k'"
  shows "undisturbed t d (truncate_messages sk n d)"
  using assms
  by (auto simp: undisturbed_def rows_of_def truncate_messages_def delete_messages_def
      delete_older_messages_def intro!: filter_cong)

lemma undisturbed_replace:
  assumes inv: "tenant_inv t d" and sk: "\<And>k'. sk \<noteq> scoped_key t k'"
  shows "undisturbed t d (snd (replace_messages sk ms now d))"
proof (cases "insert_messages sk ms (delete_messages sk d)")
  case (Inr d')
  have del: "undisturbed t d (delete_messages sk d)"
    using undisturbed_truncate [where n = 0, OF sk] by (simp add: truncate_messages_def)
  note ins = undisturbed_insert_messages [OF Inr sk]
  have s: "db_sessions d' = db_sessions d" using sessions_insert_messages [OF Inr] by simp
  have "undisturbed t d' (touch_session sk now d')"
    unfolding touch_session_def using inv sk
    by (intro undisturbed_map) (auto simp: s tenant_inv_def scoped_key_prefix_iff)
  with del ins show ?thesis by (auto simp: replace_messages_def Inr intro: undisturbed_trans)
qed (simp add: replace_messages_def)

lemma undisturbed_delete:
  assumes "tenant_inv t d" and "\<And>r. r \<in> set (db_sessions d) \<Longrightarrow> p r \<Longrightarrow> sr_tenant_id r \<noteq> t"
  shows "undisturbed t d (snd (delete_sessions p d))"
proof -
  have gone: "scoped_key t k \<notin> sr_key ` set (filter p (db_sessions d))" for k
  proof
    assume "scoped_key t k \<in> sr_key ` set (filter p (db_sessions d))"
    then obtain r where r: "r \<in> set (db_sessions d)" "p r" "sr_key r = scoped_key t k" by auto
    with assms(1) have "sr_tenant_id r = t" by (simp add: tenant_inv_def)
    with assms(2) [OF r(1,2)] show False ..
  qed
  have "messages_of (scoped_key t k) (snd (delete_sessions p d)) = messages_of (scoped_key t k) d" for k
  proof -
    have "(\<lambda>m. mr_session_key m = scoped_key t k \<and> mr_session_key m \<notin> sr_key ` set (filter p (db_sessions d)))
        = (\<lambda>m. mr_session_key m = scoped_key t k)"
      using gone [of k] by metis
    from arg_cong [OF this, of "\<lambda>p. filter p (db_messages d)"] show ?thesis
      by (simp add: delete_sessions_def Let_def conj_commute del: set_filter)
  qed
  moreover have "rows_of t (snd (delete_sessions p d)) = rows_of t d"
    using assms(2) by (auto simp: rows_of_def delete_sessions_def Let_def intro!: filter_cong)
  ultimately show ?thesis by (simp add: undisturbed_def)
qed

lemma tags_delete: "tags (snd (delete_sessions p d)) \<subseteq> tags d"
  by (auto simp: tags_def delete_sessions_def Let_def)

lemma oldest_keys_row:
  assumes "wf_db d" and "r \<in> set (db_sessions d)" and "sr_key r \<in> set (oldest_keys p n d)"
  shows "p r"
proof -
  obtain r' where "r' \<in> set (db_sessions d)" "p r'" "sr_key r' = sr_key r"
    using assms(3) by (auto simp: oldest_keys_def dest!: in_set_takeD)
  with assms show ?thesis by (auto simp: wf_db_def distinct_map dest: inj_onD)
qed

text \<open>The invariant of a tenant survives the steps of the others.\<close>

lemma tenant_inv_other:
  assumes "tenant_inv t d" and "wf_db d'" and "tags d' \<subseteq> insert (sk, u) (tags d)"
    and "u \<noteq> t" and "\<And>k'. sk \<noteq> scoped_key t k'"
  shows "tenant_inv t d'"
proof -
  have "\<not> has_prefix sk (scoped_key t [])" using assms(5) by (simp add: scoped_key_prefix_iff)
  with assms show ?thesis by (auto simp: tenant_inv_tags)
qed

lemma tags_step: "\<exists>k. tags (tenant_step u op now d) \<subseteq> insert (scoped_key u k, u) (tags d)"
proof (cases op)
  case (GetOrCreate k)
  then show ?thesis using tags_insert [of "scoped_key u k" u now d]
    by (intro exI [of _ k]) (simp add: tenant_get_or_create_def Let_def)
next
  case (AddMessage k m)
  let ?d = "upsert_session (scoped_key u k) u now d"
  have "tags (tenant_step u op now d) = tags ?d"
    using AddMessage by (auto simp: tenant_add_message_def Let_def insert_message_def tags_def)
  then show ?thesis using tags_upsert [of "scoped_key u k" u now d] by blast
next
  case (SetHistory k ms)
  then show ?thesis by (auto simp: tenant_set_history_def Let_def)
next
  case (TruncateHistory k n)
  then show ?thesis by (auto simp: tenant_truncate_history_def Let_def tags_def)
next
  case (DeleteSession k)
  then show ?thesis using tags_delete by (fastforce simp: tenant_delete_session_def Let_def split_beta)
next
  case (EvictExpired ttl)
  then show ?thesis using tags_delete by (fastforce simp: tenant_evict_expired_def Let_def)
next
  case (EvictLRU n)
  then show ?thesis using tags_delete by (fastforce simp: tenant_evict_lru_def Let_def)
qed (auto simp: tenant_set_summary_def Let_def)

lemma wf_step: "wf_db d \<Longrightarrow> wf_db (tenant_step u op now d)"
proof (cases op)
  case (AddMessage k m)
  assume "wf_db d"
  from add_message_ok [OF this, of "scoped_key u k" m u now] AddMessage show ?thesis
    by (auto simp: tenant_add_message_def Let_def)
qed (auto simp: tenant_get_or_create_def tenant_set_summary_def tenant_set_history_def
    tenant_truncate_history_def tenant_delete_session_def tenant_evict_expired_def tenant_evict_lru_def
    Let_def split_beta wf_insert wf_update_summary view_replace_messages wf_truncate wf_delete_sessions)

lemma undisturbed_step:
  assumes inv: "tenant_inv t d" and t: "CHR '':'' \<notin> set t" and u: "CHR '':'' \<notin> set u" and tu: "u \<noteq> t"
  shows "undisturbed t d (tenant_step u op now d) \<and> tenant_inv t (tenant_step u op now d)"
proof
  note sk = scoped_key_disjoint [OF t u tu [symmetric]]
  note wf = tenant_inv_wf [OF inv]
  obtain k where k: "tags (tenant_step u op now d) \<subseteq> insert (scoped_key u k, u) (tags d)"
    using tags_step by blast
  show "tenant_inv t (tenant_step u op now d)"
    by (rule tenant_inv_other [OF inv wf_step [OF wf] k tu sk])
  show "undisturbed t d (tenant_step u op now d)"
  proof (cases op)
    case (GetOrCreate k)
    then show ?thesis by (simp add: tenant_get_or_create_def Let_def undisturbed_insert tu)
  next
    case (AddMessage k m)
    let ?d = "upsert_session (scoped_key u k) u now d"
    note up = undisturbed_upsert [OF inv sk tu]
    show ?thesis
    proof (cases "insert_message (scoped_key u k) m ?d")
      case (Inr d')
      with up undisturbed_insert_message [OF Inr sk] AddMessage show ?thesis
        by (auto simp: tenant_add_message_def Let_def intro: undisturbed_trans)
    qed (use AddMessage up in \<open>simp add: tenant_add_message_def Let_def\<close>)
  next
    case (SetSummary k x)
    then show ?thesis by (simp add: tenant_set_summary_def Let_def undisturbed_update_summary tu)
  next
    case (SetHistory k ms)
    then show ?thesis using undisturbed_replace [OF inv sk] by (simp add: tenant_set_history_def Let_def)
  next
    case (TruncateHistory k n)
    then show ?thesis using undisturbed_truncate [OF sk] by (simp add: tenant_truncate_history_def Let_def)
  next
    case (DeleteSession k)
    then show ?thesis
      using tu by (simp add: tenant_delete_session_def split_beta) (rule undisturbed_delete [OF inv]; auto)
  next
    case (EvictExpired ttl)
    then show ?thesis
      using tu by (simp add: tenant_evict_expired_def Let_def) (rule undisturbed_delete [OF inv]; auto)
  next
    case (EvictLRU n)
    have "undisturbed t d (snd (delete_sessions
        (\<lambda>r. sr_key r \<in> set (oldest_keys (\<lambda>r. sr_tenant_id r = u) i d)) d))" for i
      using tu by (intro undisturbed_delete [OF inv]) (auto dest: oldest_keys_row [OF wf])
    with EvictLRU show ?thesis by (simp add: tenant_evict_lru_def Let_def)
  qed
qed

lemma undisturbed_steps:
  assumes "tenant_inv t d" and "CHR '':'' \<notin> set t"
    and "\<forall>(u, op, now) \<in> set xs. u \<noteq> t \<and> CHR '':'' \<notin> set u"
  shows "undisturbed t d (tenant_steps xs d) \<and> tenant_inv t (tenant_steps xs d)"
  using assms
proof (induction xs arbitrary: d)
  case (Cons x xs)
  obtain u op now where x: "x = (u, op, now)" by (cases x)
  with Cons.prems undisturbed_step [of t d u op now]
  have step: "undisturbed t d (tenant_step u op now d)" "tenant_inv t (tenant_step u op now d)" by auto
  with Cons.IH [OF step(2)] Cons.prems x show ?case by (auto intro: undisturbed_trans)
qed simp

lemma undisturbed_load:
  assumes "undisturbed t d d'" and "tenant_inv t d" and "tenant_inv t d'"
  shows "tenant_load_session t key d' = tenant_load_session t key d
    \<and> tenant_get_history t d' key = tenant_get_history t d key
    \<and> tenant_get_summary t d' key = tenant_get_summary t d key"
proof -
  have "find_session (owned t sk) e = find (\<lambda>r. sr_key r = sk) (rows_of t e)" for e sk
    by (simp add: find_session_def rows_of_def find_filter conj_commute)
  moreover have "load_messages (scoped_key t key) d' = load_messages (scoped_key t key) d"
    using assms by (simp add: load_messages_def undisturbed_def)
  ultimately show ?thesis
    using assms(1) by (simp add: undisturbed_def tenant_load_session_def tenant_get_history_def
        tenant_get_summary_def Let_def split: option.split)
qed

text \<open>Two tenants whose keys meet: the one who comes second is refused.\<close>

lemma second_tenant_refused:
  assumes inv: "tenant_inv t d" and key: "scoped_key u k = scoped_key t k'" and "u \<noteq> t"
  shows "fst (tenant_get_or_create u (snd (tenant_get_or_create t d k' now)) k now') = Inl ErrSessionNotFound"
proof -
  let ?sk = "scoped_key t k'" and ?d = "snd (tenant_get_or_create t d k' now)"
  have inv': "tenant_inv t ?d" using tenant_sessions.get_or_create [OF inv] by simp
  have d: "?d = insert_session ?sk t now d" by (simp add: tenant_get_or_create_def Let_def)
  have "row ?sk ?d \<noteq> None" unfolding d by (simp add: row_insert)
  then obtain r where r: "row ?sk ?d = Some r" by blast
  with row_Some [OF r] inv' have "sr_tenant_id r = t" by (simp add: tenant_inv_def)
  moreover have "insert_session ?sk u now' ?d = ?d" using r by (simp add: insert_session_def)
  ultimately show ?thesis
    using r \<open>u \<noteq> t\<close> find_owned [OF wf_distinct [OF tenant_inv_wf [OF inv']], of ?sk u]
    by (simp add: tenant_get_or_create_def [of u] Let_def tenant_load_session_def key)
qed

section \<open>Properties\<close>

text \<open>Property C15: whatever other tenants do, in any order and any number of times, a tenant reads
  the same sessions, histories and summaries, has as many sessions and lists the same keys; as
  long as no tenant identifier contains a colon.\<close>

theorem tenants_isolated:
  assumes "tenant_inv t d" and "CHR '':'' \<notin> set t"
    and "\<forall>(u, op, now) \<in> set xs. u \<noteq> t \<and> CHR '':'' \<notin> set u"
  shows "tenant_load_session t key (tenant_steps xs d) = tenant_load_session t key d
    \<and> tenant_get_history t (tenant_steps xs d) key = tenant_get_history t d key
    \<and> tenant_get_summary t (tenant_steps xs d) key = tenant_get_summary t d key
    \<and> tenant_session_count t (tenant_steps xs d) = tenant_session_count t d
    \<and> tenant_list_sessions t (tenant_steps xs d) = tenant_list_sessions t d"
proof -
  from undisturbed_steps [OF assms]
  have u: "undisturbed t d (tenant_steps xs d)" and i: "tenant_inv t (tenant_steps xs d)" by simp_all
  have "rows_of t (tenant_steps xs d) = rows_of t d" using u by (simp add: undisturbed_def)
  with undisturbed_load [OF u assms(1) i] show ?thesis
    by (simp add: tenant_session_count_def tenant_list_sessions_def rows_of_def)
qed

theorem tenants_isolated_witness:
  "\<exists>d. tenant_get_history ''bob'' (tenant_steps
        [(''alice'', AddMessage ''main'' (plain_message ''user'' ''hi''), 7), (''alice'', EvictLRU 1, 8)] d) ''main''
      = Inr [plain_message ''user'' ''hello'']
    \<and> tenant_session_count ''bob'' (tenant_steps
        [(''alice'', AddMessage ''main'' (plain_message ''user'' ''hi''), 7), (''alice'', EvictLRU 1, 8)] d) = 1"
proof -
  let ?d = "snd (tenant_add_message ''bob'' empty_db ''main'' (plain_message ''user'' ''hello'') 0)"
  let ?xs = "[(''alice'', AddMessage ''main'' (plain_message ''user'' ''hi''), 7), (''alice'', EvictLRU 1, 8)]"
  have "tenant_inv ''bob'' ?d" by code_simp
  moreover have "tenant_get_history ''bob'' ?d ''main'' = Inr [plain_message ''user'' ''hello'']"
    "tenant_session_count ''bob'' ?d = 1" by code_simp+
  ultimately show ?thesis
    using tenants_isolated [of "''bob''" ?d ?xs "''main''"] by (intro exI [of _ ?d]) simp
qed

text \<open>tenant identifiers with a colon break the isolation: what tenant \<open>t\<close> writes under
  the key \<open>u:k\<close> is the history that tenant \<open>t:u\<close> reads under \<open>k\<close>, and once \<open>t\<close> has that
  session, \<open>t:u\<close> cannot open its own.\<close>

theorem tenant_keys_collide:
  assumes inv: "tenant_inv t d"
  shows "tenant_get_history (t @ '':'' @ u) d k = tenant_get_history t d (u @ '':'' @ k)
    \<and> fst (tenant_get_or_create (t @ '':'' @ u) (snd (tenant_get_or_create t d (u @ '':'' @ k) now)) k now')
        = Inl ErrSessionNotFound"
proof
  have key: "scoped_key (t @ '':'' @ u) k = scoped_key t (u @ '':'' @ k)" by (simp add: scoped_key_def)
  show "tenant_get_history (t @ '':'' @ u) d k = tenant_get_history t d (u @ '':'' @ k)"
    unfolding tenant_get_history_def key ..
  show "fst (tenant_get_or_create (t @ '':'' @ u) (snd (tenant_get_or_create t d (u @ '':'' @ k) now)) k now')
      = Inl ErrSessionNotFound"
    by (rule second_tenant_refused [OF inv key]) simp
qed

theorem tenant_keys_collide_witness:
  "tenant_get_history ''a:b'' (snd (tenant_add_message ''a'' empty_db ''b:c'' (plain_message ''user'' ''secret'') 0)) ''c''
     = Inr [plain_message ''user'' ''secret'']"
proof -
  let ?d = "snd (tenant_add_message ''a'' empty_db ''b:c'' (plain_message ''user'' ''secret'') 0)"
  have inv: "tenant_inv ''a'' ?d" by code_simp
  have "tenant_get_history ''a'' ?d ''b:c'' = Inr [plain_message ''user'' ''secret'']" by code_simp
  with tenant_keys_collide [OF inv, of "''b''" "''c''"] show ?thesis by simp
qed

end
