(* ===== verification/Channel_Manager.thy ===== *)
theory Channel_Manager
  imports Complex_Main Split_Message Identity
begin

text \<open>
  \<open>pkg/channels\<close>: the base of every channel (\<open>base.go\<close>: allow lists, group triggers, the
  handling of an inbound message) and the manager of the channels (\<open>manager.go\<close>: placeholders,
  typing indicators and reactions, splitting, sending with retries, dispatching, start and stop).

  A channel is a record of what it can do, over a world with a hidden state; an optional
  capability is an interface of \<open>interfaces.go\<close> the channel may lack. The functions a channel
  hands out to stop typing or undo a reaction are handles the world runs. Waiting for the rate
  limiter, which is a library, and sleeping answer whether the context is still alive. Texts are
  lists of runes, as in theory Split_Message.
\<close>

section \<open>Channels\<close>

datatype send_error = ErrNotRunning | ErrRateLimit | ErrTemporary | ErrSendFailed | ErrOther

record media_message =
  mm_channel :: string
  mm_chat :: string
  mm_parts :: "(string \<times> string \<times> string \<times> string \<times> string) list"

record 'w channel =
  ch_start :: "'w \<Rightarrow> bool \<times> 'w"
  ch_stop :: "'w \<Rightarrow> bool \<times> 'w"
  ch_send :: "string \<Rightarrow> string \<Rightarrow> 'w \<Rightarrow> send_error option \<times> 'w"
  ch_max_length :: "int option"
  ch_edit :: "(string \<Rightarrow> string \<Rightarrow> string \<Rightarrow> 'w \<Rightarrow> bool \<times> 'w) option"
  ch_send_media :: "(media_message \<Rightarrow> 'w \<Rightarrow> send_error option \<times> 'w) option"
  ch_typing :: "(string \<Rightarrow> 'w \<Rightarrow> nat option \<times> 'w) option"
  ch_react :: "(string \<Rightarrow> string \<Rightarrow> 'w \<Rightarrow> nat option \<times> 'w) option"
  ch_placeholder :: "(string \<Rightarrow> 'w \<Rightarrow> string option \<times> 'w) option"

record 'w runtime =
  rt_now :: "'w \<Rightarrow> time \<times> 'w"
  rt_run :: "nat \<Rightarrow> 'w \<Rightarrow> 'w"
  rt_limit :: "string \<Rightarrow> 'w \<Rightarrow> bool \<times> 'w"
  rt_sleep :: "duration \<Rightarrow> 'w \<Rightarrow> bool \<times> 'w"

text \<open>\<open>ClassifySendError\<close>: \<open>None\<close> leaves the error as it is.\<close>

definition classify_send_error :: "int \<Rightarrow> send_error option" where
  "classify_send_error status =
     (if status = 429 then Some ErrRateLimit
      else if status \<ge> 500 then Some ErrTemporary
      else if status \<ge> 400 then Some ErrSendFailed
      else None)"

section \<open>The manager\<close>

text \<open>The queues of a worker; sending on a closed queue and closing it again panic.\<close>

record worker =
  wk_queue :: "(string \<times> string) list"
  wk_media :: "media_message list"
  wk_closed :: bool

record 'w manager =
  mg_channels :: "string \<Rightarrow> 'w channel option"
  mg_workers :: "string \<Rightarrow> worker option"
  mg_placeholders :: "string \<Rightarrow> (string \<times> time) option"
  mg_typing :: "string \<Rightarrow> (nat \<times> time) option"
  mg_reactions :: "string \<Rightarrow> (nat \<times> time) option"

definition chat_key :: "string \<Rightarrow> string \<Rightarrow> string" where
  "chat_key name chat = name @ '':'' @ chat"

definition record_placeholder :: "string \<Rightarrow> string \<Rightarrow> string \<Rightarrow> time \<Rightarrow> 'w manager \<Rightarrow> 'w manager" where
  "record_placeholder name chat i now m = m\<lparr>mg_placeholders := (mg_placeholders m)(chat_key name chat \<mapsto> (i, now))\<rparr>"

definition record_typing_stop :: "string \<Rightarrow> string \<Rightarrow> nat \<Rightarrow> time \<Rightarrow> 'w manager \<Rightarrow> 'w manager" where
  "record_typing_stop name chat stop now m = m\<lparr>mg_typing := (mg_typing m)(chat_key name chat \<mapsto> (stop, now))\<rparr>"

definition record_reaction_undo :: "string \<Rightarrow> string \<Rightarrow> nat \<Rightarrow> time \<Rightarrow> 'w manager \<Rightarrow> 'w manager" where
  "record_reaction_undo name chat undo now m = m\<lparr>mg_reactions := (mg_reactions m)(chat_key name chat \<mapsto> (undo, now))\<rparr>"

definition run_entry :: "'w runtime \<Rightarrow> (nat \<times> time) option \<Rightarrow> 'w \<Rightarrow> 'w" where
  "run_entry rt entry w = (case entry of None \<Rightarrow> w | Some (h, _) \<Rightarrow> rt_run rt h w)"

definition take_entries :: "string \<Rightarrow> 'w manager \<Rightarrow> 'w manager" where
  "take_entries key m = m\<lparr>mg_typing := (mg_typing m)(key := None), mg_reactions := (mg_reactions m)(key := None),
     mg_placeholders := (mg_placeholders m)(key := None)\<rparr>"

text \<open>\<open>preSend\<close>: whether the text went into a placeholder.\<close>

definition pre_send ::
  "'w runtime \<Rightarrow> string \<Rightarrow> 'w channel \<Rightarrow> string \<Rightarrow> string \<Rightarrow> 'w manager \<Rightarrow> 'w \<Rightarrow> bool \<times> 'w manager \<times> 'w" where
  "pre_send rt name ch chat content m w =
     (let key = chat_key name chat;
          w = run_entry rt (mg_typing m key) w;
          w = run_entry rt (mg_reactions m key) w
      in case mg_placeholders m key of
           None \<Rightarrow> (False, take_entries key m, w)
         | Some (i, _) \<Rightarrow>
             (case ch_edit ch of
                None \<Rightarrow> (False, take_entries key m, w)
              | Some edit \<Rightarrow>
                  if i = [] then (False, take_entries key m, w)
                  else (case edit chat i content w of (ok, w) \<Rightarrow> (ok, take_entries key m, w))))"

section \<open>Sending\<close>

definition max_send_retries :: nat where
  "max_send_retries = 3"

definition rate_limit_delay :: duration where
  "rate_limit_delay = second"

definition send_backoff :: "nat \<Rightarrow> duration" where
  "send_backoff attempt = min (500 * millisecond * 2 ^ attempt) (8 * second)"

definition permanent_error :: "send_error \<Rightarrow> bool" where
  "permanent_error e \<longleftrightarrow> e = ErrNotRunning \<or> e = ErrSendFailed"

datatype send_outcome = SendDone | SendGaveUp send_error | SendCanceled

text \<open>The loop of \<open>sendWithRetry\<close> and \<open>sendMediaWithRetry\<close>, with the number of attempts left after
  this one.\<close>

fun send_attempts ::
  "'w runtime \<Rightarrow> ('w \<Rightarrow> send_error option \<times> 'w) \<Rightarrow> nat \<Rightarrow> 'w \<Rightarrow> send_outcome \<times> 'w" where
  "send_attempts rt send left w =
     (case send w of
        (None, w) \<Rightarrow> (SendDone, w)
      | (Some e, w) \<Rightarrow>
          if permanent_error e then (SendGaveUp e, w)
          else
            (case left of
               0 \<Rightarrow> (SendGaveUp e, w)
             | Suc rest \<Rightarrow>
                 (case rt_sleep rt (if e = ErrRateLimit then rate_limit_delay
                                    else send_backoff (max_send_retries - left)) w of
                    (False, w) \<Rightarrow> (SendCanceled, w)
                  | (True, w) \<Rightarrow> send_attempts rt send rest w)))"

declare send_attempts.simps [simp del]

definition send_with_retry ::
  "'w runtime \<Rightarrow> string \<Rightarrow> 'w channel \<Rightarrow> string \<Rightarrow> string \<Rightarrow> 'w manager \<Rightarrow> 'w \<Rightarrow> 'w manager \<times> 'w" where
  "send_with_retry rt name ch chat content m w =
     (case rt_limit rt name w of
        (False, w) \<Rightarrow> (m, w)
      | (True, w) \<Rightarrow>
          (case pre_send rt name ch chat content m w of
             (True, m, w) \<Rightarrow> (m, w)
           | (False, m, w) \<Rightarrow> (m, snd (send_attempts rt (ch_send ch chat content) max_send_retries w))))"

definition send_media_with_retry :: "'w runtime \<Rightarrow> string \<Rightarrow> 'w channel \<Rightarrow> media_message \<Rightarrow> 'w \<Rightarrow> 'w" where
  "send_media_with_retry rt name ch msg w =
     (case ch_send_media ch of
        None \<Rightarrow> w
      | Some send \<Rightarrow>
          (case rt_limit rt name w of
             (False, w) \<Rightarrow> w
           | (True, w) \<Rightarrow> snd (send_attempts rt (send msg) max_send_retries w)))"

fun send_chunks ::
  "'w runtime \<Rightarrow> string \<Rightarrow> 'w channel \<Rightarrow> string \<Rightarrow> string list \<Rightarrow> 'w manager \<Rightarrow> 'w \<Rightarrow> 'w manager \<times> 'w" where
  "send_chunks rt name ch chat [] m w = (m, w)"
| "send_chunks rt name ch chat (c # cs) m w =
     (case send_with_retry rt name ch chat c m w of (m, w) \<Rightarrow> send_chunks rt name ch chat cs m w)"

text \<open>The chunks of a message; \<open>None\<close> where splitting does not end.\<close>

definition message_chunks :: "nat \<Rightarrow> 'w channel \<Rightarrow> string \<Rightarrow> string list option" where
  "message_chunks fuel ch content =
     (let maxLen = (case ch_max_length ch of None \<Rightarrow> 0 | Some n \<Rightarrow> n) in
      if maxLen > 0 \<and> int (length content) > maxLen then split_message fuel content maxLen
      else Some [content])"

text \<open>One message of \<open>runWorker\<close>.\<close>

definition work_message ::
  "nat \<Rightarrow> 'w runtime \<Rightarrow> string \<Rightarrow> 'w channel \<Rightarrow> string \<Rightarrow> string \<Rightarrow> 'w manager \<Rightarrow> 'w \<Rightarrow> ('w manager \<times> 'w) option" where
  "work_message fuel rt name ch chat content m w =
     map_option (\<lambda>chunks. send_chunks rt name ch chat chunks m w) (message_chunks fuel ch content)"

definition channel_rate :: "string \<Rightarrow> rat" where
  "channel_rate name =
     (case map_of [(''telegram'', 20), (''discord'', 1), (''slack'', 1), (''line'', 10)] name of
        None \<Rightarrow> 10 | Some r \<Rightarrow> r)"

definition channel_burst :: "string \<Rightarrow> int" where
  "channel_burst name = max 1 \<lceil>channel_rate name / 2\<rceil>"

definition new_channel_worker :: worker where
  "new_channel_worker = \<lparr>wk_queue = [], wk_media = [], wk_closed = False\<rparr>"

text \<open>A tick of \<open>runTTLJanitor\<close>; the lists are traversals of the keys of the three maps.\<close>

definition typing_stop_ttl :: duration where
  "typing_stop_ttl = 5 * minute"

definition placeholder_ttl :: duration where
  "placeholder_ttl = 10 * minute"

fun expire_typing :: "'w runtime \<Rightarrow> time \<Rightarrow> string list \<Rightarrow> 'w manager \<Rightarrow> 'w \<Rightarrow> 'w manager \<times> 'w" where
  "expire_typing rt now [] m w = (m, w)"
| "expire_typing rt now (k # ks) m w =
     (case mg_typing m k of
        None \<Rightarrow> expire_typing rt now ks m w
      | Some (h, created) \<Rightarrow>
          if now - created > typing_stop_ttl
          then expire_typing rt now ks (m\<lparr>mg_typing := (mg_typing m)(k := None)\<rparr>) (rt_run rt h w)
          else expire_typing rt now ks m w)"

fun expire_reactions :: "'w runtime \<Rightarrow> time \<Rightarrow> string list \<Rightarrow> 'w manager \<Rightarrow> 'w \<Rightarrow> 'w manager \<times> 'w" where
  "expire_reactions rt now [] m w = (m, w)"
| "expire_reactions rt now (k # ks) m w =
     (case mg_reactions m k of
        None \<Rightarrow> expire_reactions rt now ks m w
      | Some (h, created) \<Rightarrow>
          if now - created > typing_stop_ttl
          then expire_reactions rt now ks (m\<lparr>mg_reactions := (mg_reactions m)(k := None)\<rparr>) (rt_run rt h w)
          else expire_reactions rt now ks m w)"

fun expire_placeholders :: "time \<Rightarrow> string list \<Rightarrow> 'w manager \<Rightarrow> 'w manager" where
  "expire_placeholders now [] m = m"
| "expire_placeholders now (k # ks) m =
     (case mg_placeholders m k of
        None \<Rightarrow> expire_placeholders now ks m
      | Some (_, created) \<Rightarrow>
          if now - created > placeholder_ttl
          then expire_placeholders now ks (m\<lparr>mg_placeholders := (mg_placeholders m)(k := None)\<rparr>)
          else expire_placeholders now ks m)"

definition janitor_tick ::
  "'w runtime \<Rightarrow> string list \<Rightarrow> string list \<Rightarrow> string list \<Rightarrow> time \<Rightarrow> 'w manager \<Rightarrow> 'w \<Rightarrow> 'w manager \<times> 'w" where
  "janitor_tick rt typing reactions placeholders now m w =
     (case expire_typing rt now typing m w of
        (m, w) \<Rightarrow> (case expire_reactions rt now reactions m w of
          (m, w) \<Rightarrow> (expire_placeholders now placeholders m, w)))"
section \<open>Queues, dispatching, start and stop\<close>

definition channel_queue_size :: nat where
  "channel_queue_size = 16"

datatype 'a enqueued = Enqueued 'a | QueueBlocks | QueuePanics

definition enqueue :: "worker \<Rightarrow> string \<Rightarrow> string \<Rightarrow> worker enqueued" where
  "enqueue wk chat content =
     (if wk_closed wk then QueuePanics
      else if length (wk_queue wk) < channel_queue_size
      then Enqueued (wk\<lparr>wk_queue := wk_queue wk @ [(chat, content)]\<rparr>)
      else QueueBlocks)"

definition enqueue_media :: "worker \<Rightarrow> media_message \<Rightarrow> worker enqueued" where
  "enqueue_media wk msg =
     (if wk_closed wk then QueuePanics
      else if length (wk_media wk) < channel_queue_size
      then Enqueued (wk\<lparr>wk_media := wk_media wk @ [msg]\<rparr>)
      else QueueBlocks)"

text \<open>One round of \<open>dispatchLoop\<close> for the channel \<open>name\<close>: a message for an internal or unknown
  channel, or one without a worker, is skipped.\<close>

definition dispatch :: "string \<Rightarrow> (worker \<Rightarrow> worker enqueued) \<Rightarrow> 'w manager \<Rightarrow> 'w manager enqueued" where
  "dispatch name enq m =
     (if is_internal_channel name then Enqueued m
      else
        case mg_channels m name of
          None \<Rightarrow> Enqueued m
        | Some _ \<Rightarrow>
            (case mg_workers m name of
               None \<Rightarrow> Enqueued m
             | Some wk \<Rightarrow>
                 (case enq wk of
                    Enqueued wk' \<Rightarrow> Enqueued (m\<lparr>mg_workers := (mg_workers m)(name \<mapsto> wk')\<rparr>)
                  | QueueBlocks \<Rightarrow> QueueBlocks
                  | QueuePanics \<Rightarrow> QueuePanics)))"

definition dispatch_outbound :: "string \<times> string \<times> string \<Rightarrow> 'w manager \<Rightarrow> 'w manager enqueued" where
  "dispatch_outbound msg m = (case msg of (name, chat, content) \<Rightarrow> dispatch name (\<lambda>wk. enqueue wk chat content) m)"

definition dispatch_outbound_media :: "media_message \<Rightarrow> 'w manager \<Rightarrow> 'w manager enqueued" where
  "dispatch_outbound_media msg m = dispatch (mm_channel msg) (\<lambda>wk. enqueue_media wk msg) m"

definition empty_manager :: "'w manager" where
  "empty_manager = \<lparr>mg_channels = \<lambda>_. None, mg_workers = \<lambda>_. None, mg_placeholders = \<lambda>_. None,
     mg_typing = \<lambda>_. None, mg_reactions = \<lambda>_. None\<rparr>"

text \<open>\<open>StartAll\<close>, with the order in which the traversal yields the channels; \<open>None\<close> is the error
  that no channel is enabled.\<close>

fun start_channels :: "string list \<Rightarrow> 'w manager \<Rightarrow> 'w \<Rightarrow> 'w manager \<times> 'w" where
  "start_channels [] m w = (m, w)"
| "start_channels (name # names) m w =
     (case mg_channels m name of
        None \<Rightarrow> start_channels names m w
      | Some ch \<Rightarrow>
          (case ch_start ch w of
             (False, w) \<Rightarrow> start_channels names m w
           | (True, w) \<Rightarrow> start_channels names (m\<lparr>mg_workers := (mg_workers m)(name \<mapsto> new_channel_worker)\<rparr>) w))"

definition start_all :: "string list \<Rightarrow> 'w manager \<Rightarrow> 'w \<Rightarrow> ('w manager \<times> 'w) option" where
  "start_all names m w = (if names = [] then None else Some (start_channels names m w))"

text \<open>\<open>StopAll\<close>: the context the workers send under is canceled first, so what is in the queues is
  dropped; a queue that is closed already panics (\<open>None\<close>). The workers stay in the map.\<close>

fun close_workers :: "string list \<Rightarrow> 'w manager \<Rightarrow> 'w manager option" where
  "close_workers [] m = Some m"
| "close_workers (name # names) m =
     (case mg_workers m name of
        None \<Rightarrow> close_workers names m
      | Some wk \<Rightarrow>
          if wk_closed wk then None
          else close_workers names
                 (m\<lparr>mg_workers := (mg_workers m)(name \<mapsto> \<lparr>wk_queue = [], wk_media = [], wk_closed = True\<rparr>)\<rparr>))"

fun stop_channels :: "string list \<Rightarrow> 'w manager \<Rightarrow> 'w \<Rightarrow> 'w" where
  "stop_channels [] m w = w"
| "stop_channels (name # names) m w =
     (case mg_channels m name of
        None \<Rightarrow> stop_channels names m w
      | Some ch \<Rightarrow> stop_channels names m (snd (ch_stop ch w)))"

definition stop_all :: "string list \<Rightarrow> string list \<Rightarrow> 'w manager \<Rightarrow> 'w \<Rightarrow> ('w manager \<times> 'w) option" where
  "stop_all workers channels m w = map_option (\<lambda>m. (m, stop_channels channels m w)) (close_workers workers m)"

definition register_channel :: "string \<Rightarrow> 'w channel \<Rightarrow> 'w manager \<Rightarrow> 'w manager" where
  "register_channel name ch m = m\<lparr>mg_channels := (mg_channels m)(name \<mapsto> ch)\<rparr>"

text \<open>\<open>UnregisterChannel\<close> closes the queues and waits until the worker has sent what is in them.\<close>

fun drain_queue ::
  "nat \<Rightarrow> 'w runtime \<Rightarrow> string \<Rightarrow> 'w channel \<Rightarrow> (string \<times> string) list \<Rightarrow> 'w manager \<Rightarrow> 'w \<Rightarrow> ('w manager \<times> 'w) option" where
  "drain_queue fuel rt name ch [] m w = Some (m, w)"
| "drain_queue fuel rt name ch ((chat, content) # msgs) m w =
     (case work_message fuel rt name ch chat content m w of
        None \<Rightarrow> None
      | Some (m, w) \<Rightarrow> drain_queue fuel rt name ch msgs m w)"

fun drain_media :: "'w runtime \<Rightarrow> string \<Rightarrow> 'w channel \<Rightarrow> media_message list \<Rightarrow> 'w \<Rightarrow> 'w" where
  "drain_media rt name ch [] w = w"
| "drain_media rt name ch (msg # msgs) w = drain_media rt name ch msgs (send_media_with_retry rt name ch msg w)"

datatype 'a stopped = Stopped 'a | StopPanics | StopHangs

definition unregister_channel ::
  "nat \<Rightarrow> 'w runtime \<Rightarrow> string \<Rightarrow> 'w channel \<Rightarrow> 'w manager \<Rightarrow> 'w \<Rightarrow> ('w manager \<times> 'w) stopped" where
  "unregister_channel fuel rt name ch m w =
     (let remove = (\<lambda>m. m\<lparr>mg_workers := (mg_workers m)(name := None), mg_channels := (mg_channels m)(name := None)\<rparr>) in
      case mg_workers m name of
        None \<Rightarrow> Stopped (remove m, w)
      | Some wk \<Rightarrow>
          if wk_closed wk then StopPanics
          else
            (case drain_queue fuel rt name ch (wk_queue wk) m w of
               None \<Rightarrow> StopHangs
             | Some (m, w) \<Rightarrow> Stopped (remove m, drain_media rt name ch (wk_media wk) w)))"

datatype 'w direct_send = ChannelNotFound | SendQueued "'w manager" | SendBlocks | SendPanics | SendDirect "send_error option" 'w

definition send_to_channel :: "string \<Rightarrow> string \<Rightarrow> string \<Rightarrow> 'w manager \<Rightarrow> 'w \<Rightarrow> 'w direct_send" where
  "send_to_channel name chat content m w =
     (case mg_channels m name of
        None \<Rightarrow> ChannelNotFound
      | Some ch \<Rightarrow>
          (case mg_workers m name of
             None \<Rightarrow> (case ch_send ch chat content w of (e, w) \<Rightarrow> SendDirect e w)
           | Some wk \<Rightarrow>
               (case enqueue wk chat content of
                  Enqueued wk' \<Rightarrow> SendQueued (m\<lparr>mg_workers := (mg_workers m)(name \<mapsto> wk')\<rparr>)
                | QueueBlocks \<Rightarrow> SendBlocks
                | QueuePanics \<Rightarrow> SendPanics)))"

section \<open>Which channels are created\<close>

text \<open>What \<open>initChannels\<close> looks at: whether a channel is enabled and the setting it cannot do without.\<close>

record channel_settings =
  cs_enabled :: "string \<Rightarrow> bool"
  cs_required :: "string \<Rightarrow> string"
  cs_native_whatsapp :: bool

definition wanted_channels :: "channel_settings \<Rightarrow> string list" where
  "wanted_channels cfg =
     (let needed = (\<lambda>name. if cs_enabled cfg name \<and> cs_required cfg name \<noteq> [] then [name] else []);
          plain = (\<lambda>name. if cs_enabled cfg name then [name] else []) in
      needed ''telegram''
      @ (if cs_enabled cfg ''whatsapp'' then
           (if cs_native_whatsapp cfg then [''whatsapp_native'']
            else if cs_required cfg ''whatsapp'' \<noteq> [] then [''whatsapp''] else [])
         else [])
      @ plain ''feishu'' @ needed ''discord'' @ plain ''maixcam'' @ plain ''qq'' @ needed ''dingtalk'' @ needed ''slack''
      @ needed ''line'' @ needed ''onebot'' @ needed ''wecom'' @ needed ''wecom_aibot'' @ needed ''wecom_app''
      @ needed ''operator'')"

text \<open>\<open>initChannel\<close>: a factory that is missing or fails leaves the channel out.\<close>

definition init_channel :: "(string \<Rightarrow> 'w channel option) \<Rightarrow> string \<Rightarrow> 'w manager \<Rightarrow> 'w manager" where
  "init_channel factory name m =
     (case factory name of None \<Rightarrow> m | Some ch \<Rightarrow> m\<lparr>mg_channels := (mg_channels m)(name \<mapsto> ch)\<rparr>)"

definition init_channels :: "(string \<Rightarrow> 'w channel option) \<Rightarrow> channel_settings \<Rightarrow> 'w manager" where
  "init_channels factory cfg = fold (init_channel factory) (wanted_channels cfg) empty_manager"

section \<open>The base of a channel\<close>

record group_trigger =
  gt_mention_only :: bool
  gt_prefixes :: "string list"

record base_channel =
  bc_name :: string
  bc_allow_list :: "string list"
  bc_trigger :: group_trigger

definition should_respond_in_group :: "base_channel \<Rightarrow> bool \<Rightarrow> string \<Rightarrow> bool \<times> string" where
  "should_respond_in_group c mentioned content =
     (let gt = bc_trigger c in
      if mentioned then (True, trim_space content)
      else if gt_mention_only gt then (False, content)
      else if gt_prefixes gt \<noteq> [] then
        (case find (\<lambda>p. p \<noteq> [] \<and> has_prefix content p) (gt_prefixes gt) of
           Some p \<Rightarrow> (True, trim_space (drop (length p) content))
         | None \<Rightarrow> (False, content))
      else (True, trim_space content))"

text \<open>The two parts of an identifier around a bar that is not its first character.\<close>

definition bar_parts :: "string \<Rightarrow> string \<times> string" where
  "bar_parts s =
     (case index_byte CHR ''|'' s of
        None \<Rightarrow> (s, [])
      | Some i \<Rightarrow> if i > 0 then (take i s, drop (Suc i) s) else (s, []))"

definition entry_allows :: "string \<Rightarrow> string \<Rightarrow> bool" where
  "entry_allows senderID allowed =
     (let (idPart, userPart) = bar_parts senderID;
          trimmed = trim_prefix_at allowed;
          (allowedID, allowedUser) = bar_parts trimmed in
      senderID = allowed \<or> idPart = allowed \<or> senderID = trimmed \<or> idPart = trimmed \<or> idPart = allowedID
      \<or> (allowedUser \<noteq> [] \<and> senderID = allowedUser)
      \<or> (userPart \<noteq> [] \<and> (userPart = allowed \<or> userPart = trimmed \<or> userPart = allowedUser)))"

definition is_allowed :: "base_channel \<Rightarrow> string \<Rightarrow> bool" where
  "is_allowed c senderID \<longleftrightarrow> bc_allow_list c = [] \<or> list_ex (entry_allows senderID) (bc_allow_list c)"

definition is_allowed_sender :: "base_channel \<Rightarrow> sender_info \<Rightarrow> bool" where
  "is_allowed_sender c sender \<longleftrightarrow> bc_allow_list c = [] \<or> list_ex (match_allowed sender) (bc_allow_list c)"

record inbound_event =
  ie_sender_id :: string
  ie_sender :: sender_info
  ie_chat :: string
  ie_message_id :: string
  ie_content :: string
  ie_media :: "string list"

record channel_message =
  cm_channel :: string
  cm_sender_id :: string
  cm_sender :: sender_info
  cm_chat :: string
  cm_content :: string
  cm_media :: "string list"
  cm_message_id :: string
  cm_media_scope :: string

text \<open>The media scope of a message; \<open>fresh\<close> is the next unique identifier of the process.\<close>

definition build_media_scope :: "string \<Rightarrow> string \<Rightarrow> string \<Rightarrow> string \<Rightarrow> string" where
  "build_media_scope fresh name chat messageID =
     name @ '':'' @ chat @ '':'' @ (if messageID = [] then fresh else messageID)"

definition sender_admitted :: "base_channel \<Rightarrow> inbound_event \<Rightarrow> bool" where
  "sender_admitted c e \<longleftrightarrow>
     (if si_canonical_id (ie_sender e) \<noteq> [] \<or> si_platform_id (ie_sender e) \<noteq> []
      then is_allowed_sender c (ie_sender e) else is_allowed c (ie_sender_id e))"

text \<open>The indicators an inbound message starts, on the channel that embeds the base.\<close>

definition start_typing :: "'w runtime \<Rightarrow> string \<Rightarrow> 'w channel \<Rightarrow> string \<Rightarrow> 'w manager \<Rightarrow> 'w \<Rightarrow> 'w manager \<times> 'w" where
  "start_typing rt name owner chat m w =
     (case ch_typing owner of
        None \<Rightarrow> (m, w)
      | Some start \<Rightarrow>
          (case start chat w of
             (None, w) \<Rightarrow> (m, w)
           | (Some stop, w) \<Rightarrow> (case rt_now rt w of (now, w) \<Rightarrow> (record_typing_stop name chat stop now m, w))))"

definition start_reaction ::
  "'w runtime \<Rightarrow> string \<Rightarrow> 'w channel \<Rightarrow> string \<Rightarrow> string \<Rightarrow> 'w manager \<Rightarrow> 'w \<Rightarrow> 'w manager \<times> 'w" where
  "start_reaction rt name owner chat messageID m w =
     (case ch_react owner of
        None \<Rightarrow> (m, w)
      | Some react \<Rightarrow>
          if messageID = [] then (m, w)
          else
            (case react chat messageID w of
               (None, w) \<Rightarrow> (m, w)
             | (Some undo, w) \<Rightarrow> (case rt_now rt w of (now, w) \<Rightarrow> (record_reaction_undo name chat undo now m, w))))"

definition send_placeholder :: "'w runtime \<Rightarrow> string \<Rightarrow> 'w channel \<Rightarrow> string \<Rightarrow> 'w manager \<Rightarrow> 'w \<Rightarrow> 'w manager \<times> 'w" where
  "send_placeholder rt name owner chat m w =
     (case ch_placeholder owner of
        None \<Rightarrow> (m, w)
      | Some send \<Rightarrow>
          (case send chat w of
             (None, w) \<Rightarrow> (m, w)
           | (Some i, w) \<Rightarrow>
               if i = [] then (m, w)
               else (case rt_now rt w of (now, w) \<Rightarrow> (record_placeholder name chat i now m, w))))"

text \<open>\<open>HandleMessage\<close>: the message to publish, if the sender is admitted.\<close>

definition handle_message ::
  "'w runtime \<Rightarrow> base_channel \<Rightarrow> 'w channel \<Rightarrow> string \<Rightarrow> inbound_event \<Rightarrow> 'w manager \<Rightarrow> 'w
     \<Rightarrow> channel_message option \<times> 'w manager \<times> 'w" where
  "handle_message rt c owner fresh e m w =
     (if \<not> sender_admitted c e then (None, m, w)
      else
        let name = bc_name c; chat = ie_chat e;
            msg = \<lparr>cm_channel = name,
              cm_sender_id = (if si_canonical_id (ie_sender e) \<noteq> [] then si_canonical_id (ie_sender e) else ie_sender_id e),
              cm_sender = ie_sender e, cm_chat = chat, cm_content = ie_content e, cm_media = ie_media e,
              cm_message_id = ie_message_id e,
              cm_media_scope = build_media_scope fresh name chat (ie_message_id e)\<rparr>
        in case start_typing rt name owner chat m w of
             (m, w) \<Rightarrow> (case start_reaction rt name owner chat (ie_message_id e) m w of
               (m, w) \<Rightarrow> (case send_placeholder rt name owner chat m w of
                 (m, w) \<Rightarrow> (Some msg, m, w))))"


end
