(* ===== verification/Channel_Delivery.thy ===== *)
theory Channel_Delivery
  imports Channel_Manager "HOL-Library.Sublist"
begin

text \<open>
  What the manager of theory Channel_Manager does with an outbound message, on a channel and a
  runtime that log their calls: which texts are sent or edited, how often, and what the delays
  are; and the indicators of a chat. The log does not influence the run.
\<close>

section \<open>A log of the calls\<close>

datatype chan_event =
    EvSend string string "send_error option"
  | EvEdit string string string bool
  | EvSleep duration bool
  | EvLimit bool
  | EvRun nat

definition logged :: "('w \<Rightarrow> 'a \<times> 'w) \<Rightarrow> ('a \<Rightarrow> chan_event) \<Rightarrow> 'w \<times> chan_event list \<Rightarrow> 'a \<times> 'w \<times> chan_event list" where
  "logged f ev = (\<lambda>(w, evs). case f w of (r, w) \<Rightarrow> (r, w, evs @ [ev r]))"

definition unlogged :: "('w \<Rightarrow> 'a \<times> 'w) \<Rightarrow> 'w \<times> chan_event list \<Rightarrow> 'a \<times> 'w \<times> chan_event list" where
  "unlogged f = (\<lambda>(w, evs). case f w of (r, w) \<Rightarrow> (r, w, evs))"

definition log_channel :: "'w channel \<Rightarrow> ('w \<times> chan_event list) channel" where
  "log_channel ch = \<lparr>ch_start = unlogged (ch_start ch), ch_stop = unlogged (ch_stop ch),
     ch_send = (\<lambda>chat c. logged (ch_send ch chat c) (EvSend chat c)), ch_max_length = ch_max_length ch,
     ch_edit = map_option (\<lambda>f chat i c. logged (f chat i c) (EvEdit chat i c)) (ch_edit ch),
     ch_send_media = map_option (\<lambda>f msg. unlogged (f msg)) (ch_send_media ch),
     ch_typing = map_option (\<lambda>f chat. unlogged (f chat)) (ch_typing ch),
     ch_react = map_option (\<lambda>f chat i. unlogged (f chat i)) (ch_react ch),
     ch_placeholder = map_option (\<lambda>f chat. unlogged (f chat)) (ch_placeholder ch)\<rparr>"

definition log_runtime :: "'w runtime \<Rightarrow> ('w \<times> chan_event list) runtime" where
  "log_runtime rt = \<lparr>rt_now = unlogged (rt_now rt), rt_run = (\<lambda>h (w, evs). (rt_run rt h w, evs @ [EvRun h])),
     rt_limit = (\<lambda>name. logged (rt_limit rt name) EvLimit), rt_sleep = (\<lambda>d. logged (rt_sleep rt d) (EvSleep d))\<rparr>"

section \<open>What a log may hold\<close>

text \<open>The attempts for one text: each but the last fails for a reason that is not permanent and is
  followed by the delay for its error; the last one succeeds, fails for good, or is the fourth; a
  sleep that the end of the context cuts short ends them.\<close>

fun attempts_log :: "string \<Rightarrow> string \<Rightarrow> nat \<Rightarrow> chan_event list \<Rightarrow> bool" where
  "attempts_log chat c left [EvSend chat' c' r] \<longleftrightarrow>
     chat' = chat \<and> c' = c \<and> (case r of None \<Rightarrow> True | Some e \<Rightarrow> permanent_error e \<or> left = 0)"
| "attempts_log chat c (Suc left) (EvSend chat' c' (Some e) # EvSleep d ok # evs) \<longleftrightarrow>
     chat' = chat \<and> c' = c \<and> \<not> permanent_error e
     \<and> d = (if e = ErrRateLimit then rate_limit_delay else send_backoff (max_send_retries - Suc left))
     \<and> (if ok then attempts_log chat c left evs else evs = [])"
| "attempts_log chat c left evs \<longleftrightarrow> False"

definition is_run :: "chan_event \<Rightarrow> bool" where
  "is_run e \<longleftrightarrow> (case e of EvRun _ \<Rightarrow> True | _ \<Rightarrow> False)"

text \<open>One text: nothing after the end of the context; else indicators are stopped, and the text is edited
  into a placeholder or sent.\<close>

definition text_log :: "string \<Rightarrow> string \<Rightarrow> chan_event list \<Rightarrow> bool" where
  "text_log chat c evs \<longleftrightarrow> evs = [EvLimit False] \<or>
     (\<exists>runs edits sends. evs = EvLimit True # runs @ edits @ sends
        \<and> list_all is_run runs
        \<and> ((\<exists>i. edits = [EvEdit chat i c True]) \<and> sends = []
           \<or> (edits = [] \<or> (\<exists>i. edits = [EvEdit chat i c False])) \<and> attempts_log chat c max_send_retries sends))"

lemma text_log_edited: "list_all is_run runs \<Longrightarrow> text_log chat c (EvLimit True # runs @ [EvEdit chat i c True])"
  unfolding text_log_def
  by (intro disjI2 exI [of _ runs] exI [of _ "[EvEdit chat i c True]"] exI [of _ "[]"]) simp

lemma text_log_sent:
  "list_all is_run runs \<Longrightarrow> edits = [] \<or> (\<exists>i. edits = [EvEdit chat i c False]) \<Longrightarrow> attempts_log chat c max_send_retries sends
     \<Longrightarrow> text_log chat c (EvLimit True # runs @ edits @ sends)"
  unfolding text_log_def by blast

lemma attempts_logged:
  assumes "send_attempts (log_runtime rt) (ch_send (log_channel ch) chat c) left (w, evs) = (out, w', evs')"
  shows "\<exists>new. evs' = evs @ new \<and> attempts_log chat c left new"
  using assms
proof (induction left arbitrary: w evs)
  case 0
  then show ?case
    by (subst (asm) send_attempts.simps)
       (auto simp: log_channel_def logged_def split: prod.splits option.splits if_splits)
next
  case (Suc left)
  obtain r w1 where send: "ch_send ch chat c w = (r, w1)" by fastforce
  show ?case
  proof (cases r)
    case None
    with Suc.prems send show ?thesis
      by (subst (asm) send_attempts.simps) (auto simp: log_channel_def logged_def)
  next
    case (Some e)
    show ?thesis
    proof (cases "permanent_error e")
      case True
      with Suc.prems send Some show ?thesis
        by (subst (asm) send_attempts.simps) (auto simp: log_channel_def logged_def)
    next
      case False
      let ?d = "if e = ErrRateLimit then rate_limit_delay else send_backoff (max_send_retries - Suc left)"
      obtain ok w2 where sleep: "rt_sleep rt ?d w1 = (ok, w2)" by fastforce
      let ?evs = "evs @ [EvSend chat c (Some e), EvSleep ?d ok]"
      have step: "send_attempts (log_runtime rt) (ch_send (log_channel ch) chat c) (Suc left) (w, evs)
          = (if ok then send_attempts (log_runtime rt) (ch_send (log_channel ch) chat c) left (w2, ?evs)
             else (SendCanceled, w2, ?evs))"
        using send Some False sleep
        by (subst send_attempts.simps) (simp add: log_channel_def log_runtime_def logged_def)
      show ?thesis
      proof (cases ok)
        case True
        with Suc.prems step obtain new where "evs' = ?evs @ new" "attempts_log chat c left new"
          using Suc.IH by fastforce
        with True False show ?thesis by (intro exI [of _ "[EvSend chat c (Some e), EvSleep ?d ok] @ new"]) simp
      next
        case ended: False
        with Suc.prems step False show ?thesis by auto
      qed
    qed
  qed
qed

lemma pre_send_logged:
  assumes "pre_send (log_runtime rt) name (log_channel ch) chat c m (w, evs) = (sent, m', w', evs')"
  shows "\<exists>runs edits. evs' = evs @ runs @ edits \<and> list_all is_run runs
    \<and> (if sent then \<exists>i. edits = [EvEdit chat i c True] else edits = [] \<or> (\<exists>i. edits = [EvEdit chat i c False]))
    \<and> m' = take_entries (chat_key name chat) m \<and> (edits \<noteq> [] \<longrightarrow> mg_placeholders m (chat_key name chat) \<noteq> None)"
proof -
  have run: "\<exists>runs. run_entry (log_runtime rt) e (w, evs) = (run_entry rt e w, evs @ runs)
      \<and> list_all is_run runs" for e w evs
    by (auto simp: run_entry_def log_runtime_def is_run_def split: option.split intro: exI [of _ "[]"])
  let ?key = "chat_key name chat"
  obtain r1 where r1: "run_entry (log_runtime rt) (mg_typing m ?key) (w, evs) = (run_entry rt (mg_typing m ?key) w, evs @ r1)"
    "list_all is_run r1" using run by blast
  let ?w1 = "run_entry rt (mg_typing m ?key) w"
  obtain r2 where r2: "run_entry (log_runtime rt) (mg_reactions m ?key) (?w1, evs @ r1)
      = (run_entry rt (mg_reactions m ?key) ?w1, (evs @ r1) @ r2)"
    "list_all is_run r2" using run by blast
  have runs: "list_all is_run (r1 @ r2)" using r1(2) r2(2) by simp
  let ?w2 = "run_entry rt (mg_reactions m ?key) ?w1"
  note start = assms r1(1) r2(1)
  show ?thesis
  proof (cases "\<exists>i t edit. mg_placeholders m ?key = Some (i, t) \<and> ch_edit ch = Some edit \<and> i \<noteq> []")
    case True
    then obtain i t edit where e: "mg_placeholders m ?key = Some (i, t)" "ch_edit ch = Some edit" "i \<noteq> []" by blast
    obtain ok w3 where "edit chat i c ?w2 = (ok, w3)" by fastforce
    with start e have "sent = ok" "m' = take_entries ?key m" "evs' = evs @ (r1 @ r2) @ [EvEdit chat i c ok]"
      by (auto simp: pre_send_def Let_def log_channel_def logged_def)
    with runs e show ?thesis by (intro exI [of _ "r1 @ r2"] exI [of _ "[EvEdit chat i c ok]"]) simp
  next
    case False
    with start have "\<not> sent" "m' = take_entries ?key m" "evs' = evs @ (r1 @ r2) @ []"
      by (auto simp: pre_send_def Let_def log_channel_def split: option.splits if_splits)
    with runs show ?thesis by (intro exI [of _ "r1 @ r2"] exI [of _ "[]"]) simp
  qed
qed

lemma send_logged:
  assumes "send_with_retry (log_runtime rt) name (log_channel ch) chat c m (w, evs) = (m', w', evs')"
  shows "\<exists>new. evs' = evs @ new \<and> text_log chat c new
    \<and> (new = [EvLimit False] \<and> m' = m \<or> m' = take_entries (chat_key name chat) m)"
proof -
  obtain ok w1 where limit: "rt_limit rt name w = (ok, w1)" by fastforce
  show ?thesis
  proof (cases ok)
    case False
    with assms limit show ?thesis by (auto simp: send_with_retry_def log_runtime_def logged_def text_log_def)
  next
    case True
    then have l: "rt_limit (log_runtime rt) name (w, evs) = (True, w1, evs @ [EvLimit True])"
      using limit by (simp add: log_runtime_def logged_def)
    obtain sent m1 w2 log2 where pre:
      "pre_send (log_runtime rt) name (log_channel ch) chat c m (w1, evs @ [EvLimit True]) = (sent, m1, w2, log2)"
      by (metis prod_cases4)
    from pre_send_logged [OF pre] obtain runs edits where re: "log2 = evs @ EvLimit True # runs @ edits"
      "list_all is_run runs" "m1 = take_entries (chat_key name chat) m"
      "if sent then \<exists>i. edits = [EvEdit chat i c True] else edits = [] \<or> (\<exists>i. edits = [EvEdit chat i c False])" by auto
    show ?thesis
    proof (cases sent)
      case True
      with assms l pre have "evs' = log2" "m' = m1" by (simp_all add: send_with_retry_def)
      moreover obtain i where "edits = [EvEdit chat i c True]" using re(4) True by auto
      ultimately show ?thesis
        using re(1,3) text_log_edited [OF re(2)] by (intro exI [of _ "EvLimit True # runs @ edits"]) simp
    next
      case False
      obtain out w3 log3 where att:
        "send_attempts (log_runtime rt) (ch_send (log_channel ch) chat c) max_send_retries (w2, log2) = (out, w3, log3)"
        by (metis prod_cases3)
      with assms l pre False have "evs' = log3" "m' = m1" by (simp_all add: send_with_retry_def)
      moreover obtain new where "log3 = log2 @ new" "attempts_log chat c max_send_retries new"
        using attempts_logged [OF att] by blast
      ultimately show ?thesis
        using re(1,3,4) False text_log_sent [OF re(2), of edits chat c new]
        by (intro exI [of _ "EvLimit True # runs @ edits @ new"]) simp
    qed
  qed
qed

lemma chunks_logged:
  assumes "send_chunks (log_runtime rt) name (log_channel ch) chat cs m (w, evs) = (m', w', evs')"
  shows "\<exists>blocks. evs' = evs @ concat blocks \<and> list_all2 (text_log chat) cs blocks"
  using assms
proof (induction cs arbitrary: m w evs)
  case (Cons c cs)
  obtain m1 w1 log1 where one: "send_with_retry (log_runtime rt) name (log_channel ch) chat c m (w, evs) = (m1, w1, log1)"
    by (metis prod_cases3)
  obtain new where new: "log1 = evs @ new" "text_log chat c new" using send_logged [OF one] by blast
  from Cons.prems one have "send_chunks (log_runtime rt) name (log_channel ch) chat cs m1 (w1, log1) = (m', w', evs')" by simp
  from Cons.IH [OF this] obtain blocks where "evs' = log1 @ concat blocks" "list_all2 (text_log chat) cs blocks" by blast
  with new show ?case by (intro exI [of _ "new # blocks"]) simp
qed simp
section \<open>What a log amounts to\<close>

text \<open>The texts that arrived, the texts that were sent, the time slept, and that nothing failed.\<close>

primrec delivered :: "chan_event list \<Rightarrow> string list" where
  "delivered [] = []"
| "delivered (e # evs) =
     (case e of EvSend _ c None \<Rightarrow> [c] | EvEdit _ _ c True \<Rightarrow> [c] | _ \<Rightarrow> []) @ delivered evs"

primrec sent_texts :: "chan_event list \<Rightarrow> string list" where
  "sent_texts [] = []"
| "sent_texts (e # evs) = (case e of EvSend _ c _ \<Rightarrow> [c] | _ \<Rightarrow> []) @ sent_texts evs"

primrec slept :: "chan_event list \<Rightarrow> duration" where
  "slept [] = 0"
| "slept (e # evs) = (case e of EvSleep d _ \<Rightarrow> d | _ \<Rightarrow> 0) + slept evs"

definition flawless :: "chan_event list \<Rightarrow> bool" where
  "flawless evs = list_all (\<lambda>e. case e of EvSend _ _ (Some _) \<Rightarrow> False | EvLimit False \<Rightarrow> False | _ \<Rightarrow> True) evs"

lemma log_measures [simp]:
  "delivered (evs @ evs') = delivered evs @ delivered evs'" "sent_texts (evs @ evs') = sent_texts evs @ sent_texts evs'"
  "slept (evs @ evs') = slept evs + slept evs'" "flawless (evs @ evs') \<longleftrightarrow> flawless evs \<and> flawless evs'"
  by (induction evs) (simp_all add: flawless_def)

lemma runs_measures:
  "list_all is_run runs \<Longrightarrow> delivered runs = [] \<and> sent_texts runs = [] \<and> slept runs = 0"
  by (induction runs) (auto simp: is_run_def split: chan_event.splits)

lemma send_delays:
  "left \<le> 3 \<Longrightarrow> 0 < left \<Longrightarrow> (if e = ErrRateLimit then rate_limit_delay else send_backoff (max_send_retries - left))
     \<le> (if left = 1 then 2 * second else second)"
proof -
  assume "left \<le> 3" "0 < left"
  then consider "left = 1" | "left = 2" | "left = 3" by linarith
  then show ?thesis by cases (simp_all add: rate_limit_delay_def send_backoff_def max_send_retries_def)
qed

lemma attempts_measures:
  assumes "attempts_log chat c left evs" and "left \<le> 3"
  shows "(delivered evs = [] \<or> delivered evs = [c]) \<and> set (sent_texts evs) \<subseteq> {c} \<and> length (sent_texts evs) \<le> Suc left
    \<and> slept evs \<le> (if left = 0 then 0 else (int left + 1) * second) \<and> (flawless evs \<longrightarrow> delivered evs = [c])"
  using assms
proof (induction chat c left evs rule: attempts_log.induct)
  case (1 chat c left chat' c' r)
  then show ?case by (cases r) (auto simp: flawless_def)
next
  case (2 chat c left chat' c' e d ok evs)
  let ?d = "if e = ErrRateLimit then rate_limit_delay else send_backoff (max_send_retries - Suc left)"
  have d: "d = ?d" and c: "c' = c" using 2(2) by simp_all
  have bound: "d \<le> (if Suc left = 1 then 2 * second else second)"
    using send_delays [of "Suc left" e] 2(3) by (simp only: d)
  have "\<not> flawless (EvSend chat' c' (Some e) # EvSleep d ok # evs)" by (simp add: flawless_def)
  then show ?case
  proof (cases ok)
    case True
    with 2(2) have "attempts_log chat c left evs" by simp
    with 2(1,3) True have "delivered evs = [] \<or> delivered evs = [c]" "set (sent_texts evs) \<subseteq> {c}"
      "length (sent_texts evs) \<le> Suc left" "slept evs \<le> (if left = 0 then 0 else (int left + 1) * second)" by simp_all
    with bound c \<open>\<not> flawless _\<close> show ?thesis by (auto split: if_splits)
  next
    case False
    with 2(2) have "evs = []" by simp
    with bound c \<open>\<not> flawless _\<close> show ?thesis by (auto split: if_splits)
  qed
qed simp_all

lemma text_measures:
  assumes "text_log chat c evs"
  shows "(delivered evs = [] \<or> delivered evs = [c]) \<and> set (sent_texts evs) \<subseteq> {c} \<and> length (sent_texts evs) \<le> 4
    \<and> slept evs \<le> 4 * second \<and> (flawless evs \<longrightarrow> delivered evs = [c])"
proof -
  from assms consider (off) "evs = [EvLimit False]"
    | (edited) runs edits sends i where "evs = EvLimit True # runs @ edits @ sends" "list_all is_run runs"
        "edits = [EvEdit chat i c True]" "sends = []"
    | (sent) runs edits sends where "evs = EvLimit True # runs @ edits @ sends" "list_all is_run runs"
        "edits = [] \<or> (\<exists>i. edits = [EvEdit chat i c False])" "attempts_log chat c max_send_retries sends"
    unfolding text_log_def by blast
  then show ?thesis
  proof cases
    case sent
    then have "delivered edits = []" "sent_texts edits = []" "slept edits = 0" by auto
    moreover note attempts_measures [OF sent(4)]
    ultimately show ?thesis using runs_measures [OF sent(2)] by (simp add: sent(1) max_send_retries_def flawless_def)
  next
    case edited
    then show ?thesis using runs_measures [OF edited(2)] by simp
  qed (simp add: flawless_def)
qed

lemma blocks_measures:
  assumes "list_all2 (text_log chat) cs blocks"
  shows "subseq (delivered (concat blocks)) cs \<and> set (sent_texts (concat blocks)) \<subseteq> set cs
    \<and> length (sent_texts (concat blocks)) \<le> 4 * length cs \<and> slept (concat blocks) \<le> 4 * second * int (length cs)
    \<and> (flawless (concat blocks) \<longrightarrow> delivered (concat blocks) = cs)"
  using assms
proof (induction rule: list_all2_induct)
  case (Cons c cs evs blocks)
  from text_measures [OF Cons(1)] Cons(3) show ?case by (auto simp: list_emb_append2 intro: subseq_Cons')
qed (simp add: flawless_def)

section \<open>Properties\<close>

text \<open>Property C20: A worker handles one message in a bounded effort, if the channel has no length limit, the message is
  within it, or the limit is at least ten and the message's fence lines are short for it: there is a result, the texts
  that reach the chat are chunks of the message in their order, each at most once; a chunk is sent at most four times,
  with at most four seconds of waiting between its attempts; on a channel with a length limit no text that is sent is
  longer; and if no send fails, all chunks arrive.\<close>

theorem message_delivery:
  assumes "case ch_max_length ch of None \<Rightarrow> True
      | Some n \<Rightarrow> n \<le> 0 \<or> int (length content) \<le> n \<or> 10 \<le> n \<and> short_fences n content"
    and "length content < fuel"
  shows "\<exists>m' w' evs chunks. work_message fuel (log_runtime rt) name (log_channel ch) chat content m (w, []) = Some (m', w', evs)
    \<and> message_chunks fuel ch content = Some chunks \<and> subseq (delivered evs) chunks
    \<and> set (sent_texts evs) \<subseteq> set chunks \<and> length (sent_texts evs) \<le> 4 * length chunks
    \<and> slept evs \<le> 4 * second * int (length chunks)
    \<and> (\<forall>n. ch_max_length ch = Some n \<and> n > 0 \<longrightarrow> list_all (\<lambda>c. int (length c) \<le> n) (sent_texts evs))
    \<and> (flawless evs \<longrightarrow> delivered evs = chunks)"
proof -
  obtain chunks where chunks: "message_chunks fuel ch content = Some chunks"
    and fits: "\<And>n. ch_max_length ch = Some n \<Longrightarrow> n > 0 \<Longrightarrow> list_all (\<lambda>c. int (length c) \<le> n) chunks"
  proof (cases "case ch_max_length ch of None \<Rightarrow> False | Some n \<Rightarrow> n > 0 \<and> int (length content) > n")
    case True
    then obtain n where n: "ch_max_length ch = Some n" "n > 0" "int (length content) > n" by (auto split: option.splits)
    then have "10 \<le> n" "short_fences n content" using assms(1) by auto
    from split_message_ends [OF this assms(2)] obtain ms where
      "split_message fuel content n = Some ms" "list_all (\<lambda>m. int (length m) \<le> n) ms" by blast
    then show thesis using n by (intro that [of ms]) (simp_all add: message_chunks_def)
  next
    case False
    then have "message_chunks fuel ch content = Some [content]" by (auto simp: message_chunks_def split: option.splits)
    then show thesis using False by (intro that [of "[content]"]) (auto split: option.splits)
  qed
  obtain m' w' evs where sent: "send_chunks (log_runtime rt) name (log_channel ch) chat chunks m (w, []) = (m', w', evs)"
    by (metis prod_cases3)
  have "message_chunks fuel (log_channel ch) content = Some chunks"
    using chunks by (simp add: message_chunks_def log_channel_def)
  with sent have run: "work_message fuel (log_runtime rt) name (log_channel ch) chat content m (w, []) = Some (m', w', evs)"
    by (simp add: work_message_def)
  obtain blocks where "evs = [] @ concat blocks" "list_all2 (text_log chat) chunks blocks"
    using chunks_logged [OF sent] by blast
  note measures = blocks_measures [OF this(2), folded this(1) [simplified]]
  then show ?thesis using run chunks fits
    by (intro exI [of _ m'] exI [of _ w'] exI [of _ evs] exI [of _ chunks]) (fastforce simp: list_all_iff)
qed

text \<open>A message without code fences is always handled to its end, and on a channel that
  does not fail it arrives whole: the texts that reach the chat are the message with nothing but white
  space between them left out.\<close>

theorem plain_message_delivered:
  assumes "\<not> has_fence content" and "length content < fuel"
  shows "\<exists>m' w' evs. work_message fuel (log_runtime rt) name (log_channel ch) chat content m (w, []) = Some (m', w', evs)
    \<and> (flawless evs \<longrightarrow> (\<exists>gaps. length gaps = length (delivered evs) \<and> list_all (list_all split_space) gaps
        \<and> rejoin (delivered evs) gaps = content))"
proof -
  have "\<exists>chunks gaps. message_chunks fuel ch content = Some chunks \<and> length gaps = length chunks
      \<and> list_all (list_all split_space) gaps \<and> rejoin chunks gaps = content"
  proof (cases "case ch_max_length ch of None \<Rightarrow> False | Some n \<Rightarrow> n > 0 \<and> int (length content) > n")
    case True
    then obtain n where "ch_max_length ch = Some n" "n > 0" "int (length content) > n"
      by (auto split: option.splits)
    then show ?thesis using split_message_plain [OF _ assms, of n] by (fastforce simp: message_chunks_def)
  next
    case False
    then have "message_chunks fuel ch content = Some [content]" by (auto simp: message_chunks_def split: option.splits)
    then show ?thesis by (intro exI [of _ "[content]"] exI [of _ "[[]]"]) (simp add: rejoin_def)
  qed
  then obtain chunks gaps where c: "message_chunks fuel ch content = Some chunks" "length gaps = length chunks"
    "list_all (list_all split_space) gaps" "rejoin chunks gaps = content" by blast
  obtain m' w' evs where s: "send_chunks (log_runtime rt) name (log_channel ch) chat chunks m (w, []) = (m', w', evs)"
    by (metis prod_cases3)
  have "message_chunks fuel (log_channel ch) content = Some chunks"
    using c(1) by (simp add: message_chunks_def log_channel_def)
  with s have run: "work_message fuel (log_runtime rt) name (log_channel ch) chat content m (w, []) = Some (m', w', evs)"
    by (simp add: work_message_def)
  obtain blocks where "evs = [] @ concat blocks" "list_all2 (text_log chat) chunks blocks"
    using chunks_logged [OF s] by blast
  note measures = blocks_measures [OF this(2), folded this(1) [simplified]]
  with run c show ?thesis by blast
qed

section \<open>The order of messages\<close>

text \<open>The messages of the bus, the manager and its workers as they interleave: publishing, dispatching
  the oldest message, a worker taking the oldest message of its queue, an inbound message, a tick of the
  janitor. Two histories are kept: what was published, and what each worker has taken.\<close>

record 'w chan_system =
  sy_bus :: "(string \<times> string \<times> string) list"
  sy_manager :: "'w manager"
  sy_world :: 'w
  sy_published :: "(string \<times> string \<times> string) list"
  sy_taken :: "string \<Rightarrow> (string \<times> string) list"

inductive chan_step :: "nat \<Rightarrow> 'w runtime \<Rightarrow> 'w chan_system \<Rightarrow> 'w chan_system \<Rightarrow> bool" for fuel rt where
  publish: "length (sy_bus s) < 64 \<Longrightarrow>
    chan_step fuel rt s (s\<lparr>sy_bus := sy_bus s @ [msg], sy_published := sy_published s @ [msg]\<rparr>)"
| dispatch: "sy_bus s = msg # rest \<Longrightarrow> dispatch_outbound msg (sy_manager s) = Enqueued m \<Longrightarrow>
    chan_step fuel rt s (s\<lparr>sy_bus := rest, sy_manager := m\<rparr>)"
| work: "mg_workers (sy_manager s) name = Some wk \<Longrightarrow> wk_queue wk = (chat, content) # q \<Longrightarrow>
    mg_channels (sy_manager s) name = Some ch \<Longrightarrow>
    work_message fuel rt name ch chat content
      ((sy_manager s)\<lparr>mg_workers := (mg_workers (sy_manager s))(name \<mapsto> wk\<lparr>wk_queue := q\<rparr>)\<rparr>) (sy_world s) = Some (m, w) \<Longrightarrow>
    chan_step fuel rt s (s\<lparr>sy_manager := m, sy_world := w,
      sy_taken := (sy_taken s)(name := sy_taken s name @ [(chat, content)])\<rparr>)"
| inbound: "handle_message rt c owner fresh e (sy_manager s) (sy_world s) = (out, m, w) \<Longrightarrow>
    chan_step fuel rt s (s\<lparr>sy_manager := m, sy_world := w\<rparr>)"
| tick: "janitor_tick rt ts rs ps now (sy_manager s) (sy_world s) = (m, w) \<Longrightarrow>
    chan_step fuel rt s (s\<lparr>sy_manager := m, sy_world := w\<rparr>)"

inductive chan_reachable :: "nat \<Rightarrow> 'w runtime \<Rightarrow> 'w chan_system \<Rightarrow> bool" for fuel rt where
  start: "start_all names (init_channels factory cfg) w0 = Some (m, w) \<Longrightarrow>
    chan_reachable fuel rt \<lparr>sy_bus = [], sy_manager = m, sy_world = w, sy_published = [], sy_taken = \<lambda>_. []\<rparr>"
| step: "chan_reachable fuel rt s \<Longrightarrow> chan_step fuel rt s s' \<Longrightarrow> chan_reachable fuel rt s'"

text \<open>The workers and channels of the manager change only where they are meant to.\<close>

definition same_workers :: "'w manager \<Rightarrow> 'w manager \<Rightarrow> bool" where
  "same_workers m m' \<longleftrightarrow> mg_workers m' = mg_workers m \<and> mg_channels m' = mg_channels m"

lemma same_workers_refl [simp]: "same_workers m m"
  by (simp add: same_workers_def)

lemma same_workers_trans: "same_workers a b \<Longrightarrow> same_workers b c \<Longrightarrow> same_workers a c"
  by (simp add: same_workers_def)

lemma send_with_retry_workers: "send_with_retry rt name ch chat c m w = (m', w') \<Longrightarrow> same_workers m m'"
  by (auto simp: send_with_retry_def pre_send_def take_entries_def same_workers_def Let_def
      split: prod.splits bool.splits option.splits if_splits)

lemma send_chunks_workers: "send_chunks rt name ch chat cs m w = (m', w') \<Longrightarrow> same_workers m m'"
proof (induction cs arbitrary: m w)
  case (Cons c cs)
  then show ?case using send_with_retry_workers same_workers_trans by (fastforce split: prod.splits)
qed simp

lemma work_message_workers: "work_message fuel rt name ch chat c m w = Some (m', w') \<Longrightarrow> same_workers m m'"
  using send_chunks_workers by (fastforce simp: work_message_def)

lemma handle_message_workers: "handle_message rt c owner fresh e m w = (out, m', w') \<Longrightarrow> same_workers m m'"
  by (auto simp: handle_message_def start_typing_def start_reaction_def send_placeholder_def record_typing_stop_def
      record_reaction_undo_def record_placeholder_def same_workers_def Let_def
      split: prod.splits option.splits if_splits)

lemma expire_workers:
  "same_workers m (fst (expire_typing rt now ks m w))" "same_workers m (fst (expire_reactions rt now ks m w))"
  "same_workers m (expire_placeholders now ks m)"
proof -
  show "same_workers m (fst (expire_typing rt now ks m w))"
    by (induction ks arbitrary: m w) (simp_all add: same_workers_def split: option.split)
  show "same_workers m (fst (expire_reactions rt now ks m w))"
    by (induction ks arbitrary: m w) (simp_all add: same_workers_def split: option.split)
  show "same_workers m (expire_placeholders now ks m)"
    by (induction ks arbitrary: m) (simp_all add: same_workers_def split: option.split)
qed

lemma janitor_workers:
  assumes "janitor_tick rt ts rs ps now m w = (m', w')"
  shows "same_workers m m'"
proof -
  obtain m1 w1 where t: "expire_typing rt now ts m w = (m1, w1)" by fastforce
  obtain m2 w2 where r: "expire_reactions rt now rs m1 w1 = (m2, w2)" by fastforce
  have "same_workers m m1" "same_workers m1 m2" "same_workers m2 (expire_placeholders now ps m2)"
    using expire_workers(1) [of m rt now ts w] expire_workers(2) [of m1 rt now rs w1] expire_workers(3) [of m2 now ps] t r
    by simp_all
  with assms t r show ?thesis by (auto simp: janitor_tick_def intro: same_workers_trans)
qed

definition for_channel :: "string \<Rightarrow> (string \<times> string \<times> string) list \<Rightarrow> (string \<times> string) list" where
  "for_channel name msgs = map snd (filter (\<lambda>msg. fst msg = name) msgs)"

definition worker_in_order :: "'w chan_system \<Rightarrow> string \<Rightarrow> worker \<Rightarrow> bool" where
  "worker_in_order s name wk \<longleftrightarrow> \<not> wk_closed wk \<and> length (wk_queue wk) \<le> channel_queue_size
     \<and> sy_taken s name @ wk_queue wk @ for_channel name (sy_bus s) = for_channel name (sy_published s)"

definition channels_in_order :: "'w chan_system \<Rightarrow> bool" where
  "channels_in_order s \<longleftrightarrow> (\<forall>name wk. mg_workers (sy_manager s) name = Some wk \<and> \<not> is_internal_channel name \<longrightarrow>
     mg_channels (sy_manager s) name \<noteq> None \<and> worker_in_order s name wk)"

lemma for_channel_simps [simp]:
  "for_channel name [] = []" "for_channel name (a @ b) = for_channel name a @ for_channel name b"
  "for_channel name ((n, chat, c) # msgs) = (if n = name then (chat, c) # for_channel name msgs else for_channel name msgs)"
  by (simp_all add: for_channel_def)

definition fresh_workers :: "'w manager \<Rightarrow> bool" where
  "fresh_workers m \<longleftrightarrow> (\<forall>name wk. mg_workers m name = Some wk \<longrightarrow> mg_channels m name \<noteq> None \<and> wk = new_channel_worker)"

lemma start_channels_workers:
  "start_channels names m w = (m', w') \<Longrightarrow> fresh_workers m \<Longrightarrow> fresh_workers m'"
proof (induction names arbitrary: m w)
  case (Cons n names)
  have "fresh_workers (m\<lparr>mg_workers := (mg_workers m)(n \<mapsto> new_channel_worker)\<rparr>)" if "mg_channels m n = Some ch" for ch
    using Cons.prems(2) that by (simp add: fresh_workers_def)
  with Cons show ?case by (auto split: option.splits prod.splits bool.splits)
qed simp

lemma init_channels_workers: "mg_workers (init_channels factory cfg) = (\<lambda>_. None)"
proof -
  have "mg_workers (fold (init_channel factory) names m) = mg_workers m" for names m
    by (induction names arbitrary: m) (auto simp: init_channel_def split: option.splits)
  then show ?thesis by (simp add: init_channels_def empty_manager_def)
qed

lemma start_in_order:
  assumes "start_all names (init_channels factory cfg) w0 = Some (m, w)"
  shows "channels_in_order \<lparr>sy_bus = [], sy_manager = m, sy_world = w, sy_published = [], sy_taken = \<lambda>_. []\<rparr>"
proof -
  have "start_channels names (init_channels factory cfg) w0 = (m, w)"
    using assms by (auto simp: start_all_def split: if_splits)
  from start_channels_workers [OF this] have "fresh_workers m"
    by (simp add: fresh_workers_def init_channels_workers)
  then show ?thesis
    by (fastforce simp: fresh_workers_def channels_in_order_def worker_in_order_def new_channel_worker_def)
qed

lemma dispatch_cases:
  assumes "dispatch_outbound (n, chat, c) m = Enqueued m'"
  shows "m' = m \<and> (is_internal_channel n \<or> mg_channels m' n = None \<or> mg_workers m' n = None)
    \<or> (\<exists>wk. mg_workers m n = Some wk \<and> length (wk_queue wk) < channel_queue_size
        \<and> m' = m\<lparr>mg_workers := (mg_workers m)(n \<mapsto> wk\<lparr>wk_queue := wk_queue wk @ [(chat, c)]\<rparr>)\<rparr>)"
  using assms by (auto simp: dispatch_outbound_def dispatch_def enqueue_def split: if_splits option.splits enqueued.splits)

lemma dispatch_in_order:
  assumes "channels_in_order s" "sy_bus s = msg # rest" "dispatch_outbound msg (sy_manager s) = Enqueued m"
  shows "channels_in_order (s\<lparr>sy_bus := rest, sy_manager := m\<rparr>)"
proof -
  obtain n chat c where msg: "msg = (n, chat, c)" by (metis prod_cases3)
  show ?thesis
  proof (rule disjE [OF dispatch_cases [OF assms(3) [unfolded msg]]])
    assume skipped: "m = sy_manager s \<and> (is_internal_channel n \<or> mg_channels m n = None \<or> mg_workers m n = None)"
    show ?thesis
      unfolding channels_in_order_def
    proof (intro allI impI)
      fix name wk
      assume w: "mg_workers (sy_manager (s\<lparr>sy_bus := rest, sy_manager := m\<rparr>)) name = Some wk \<and> \<not> is_internal_channel name"
      then have ok: "mg_channels (sy_manager s) name \<noteq> None" "worker_in_order s name wk"
        using assms(1) skipped by (auto simp: channels_in_order_def)
      then have "name \<noteq> n" using w skipped by auto
      with ok skipped assms(2) msg show "mg_channels (sy_manager (s\<lparr>sy_bus := rest, sy_manager := m\<rparr>)) name \<noteq> None
          \<and> worker_in_order (s\<lparr>sy_bus := rest, sy_manager := m\<rparr>) name wk"
        by (simp add: worker_in_order_def)
    qed
  next
    assume "\<exists>wk. mg_workers (sy_manager s) n = Some wk \<and> length (wk_queue wk) < channel_queue_size
        \<and> m = (sy_manager s)\<lparr>mg_workers := (mg_workers (sy_manager s))(n \<mapsto> wk\<lparr>wk_queue := wk_queue wk @ [(chat, c)]\<rparr>)\<rparr>"
    then obtain wk where queued: "mg_workers (sy_manager s) n = Some wk" "length (wk_queue wk) < channel_queue_size"
      "m = (sy_manager s)\<lparr>mg_workers := (mg_workers (sy_manager s))(n \<mapsto> wk\<lparr>wk_queue := wk_queue wk @ [(chat, c)]\<rparr>)\<rparr>"
      by (elim exE conjE)
    show ?thesis
      unfolding channels_in_order_def
    proof (intro allI impI)
      fix name wk'
      assume w: "mg_workers (sy_manager (s\<lparr>sy_bus := rest, sy_manager := m\<rparr>)) name = Some wk' \<and> \<not> is_internal_channel name"
      show "mg_channels (sy_manager (s\<lparr>sy_bus := rest, sy_manager := m\<rparr>)) name \<noteq> None
          \<and> worker_in_order (s\<lparr>sy_bus := rest, sy_manager := m\<rparr>) name wk'"
      proof (cases "name = n")
        case True
        with w queued(3) have "wk' = wk\<lparr>wk_queue := wk_queue wk @ [(chat, c)]\<rparr>" by simp
        moreover have "mg_channels (sy_manager s) n \<noteq> None" "worker_in_order s n wk"
          using assms(1) queued(1) w True by (auto simp: channels_in_order_def)
        ultimately show ?thesis
          using True queued(2,3) assms(2) msg by (simp add: worker_in_order_def)
      next
        case False
        with w queued(3) have "mg_workers (sy_manager s) name = Some wk'" by simp
        then have "mg_channels (sy_manager s) name \<noteq> None" "worker_in_order s name wk'"
          using assms(1) w by (auto simp: channels_in_order_def)
        with False queued(3) assms(2) msg show ?thesis by (simp add: worker_in_order_def)
      qed
    qed
  qed
qed

lemma step_in_order: "chan_step fuel rt s s' \<Longrightarrow> channels_in_order s \<Longrightarrow> channels_in_order s'"
proof (induction rule: chan_step.induct)
  case (publish s msg)
  then show ?case by (cases msg) (auto simp: channels_in_order_def worker_in_order_def)
next
  case (dispatch s msg rest m)
  then show ?case using dispatch_in_order by blast
next
  case (work s name wk chat content q ch m w)
  then show ?case using work_message_workers [OF work(4)]
    by (fastforce simp: channels_in_order_def worker_in_order_def same_workers_def split: if_splits)
next
  case (inbound c owner fresh e s out m w)
  then show ?case using handle_message_workers [OF inbound(1)]
    by (auto simp: channels_in_order_def worker_in_order_def same_workers_def)
next
  case (tick ts rs ps now s m w)
  then show ?case using janitor_workers [OF tick(1)]
    by (auto simp: channels_in_order_def worker_in_order_def same_workers_def)
qed

text \<open>Property C8: However publishing, dispatching, sending and inbound messages interleave, a worker takes
  the messages of its channel in the order in which they were published, none twice and none left out:
  what it has taken, then its queue, then what is on the bus for it, is what was published for it. A
  queue holds at most 16 messages.\<close>

theorem channel_order:
  assumes "chan_reachable fuel rt s" and "mg_workers (sy_manager s) name = Some wk" and "\<not> is_internal_channel name"
  shows "sy_taken s name @ wk_queue wk @ map snd (filter (\<lambda>msg. fst msg = name) (sy_bus s))
      = map snd (filter (\<lambda>msg. fst msg = name) (sy_published s)) \<and> length (wk_queue wk) \<le> 16"
proof -
  have "channels_in_order s" using assms(1) by induction (auto intro: start_in_order step_in_order)
  then show ?thesis
    using assms(2,3) by (auto simp: channels_in_order_def worker_in_order_def for_channel_def channel_queue_size_def)
qed

section \<open>Indicators\<close>

text \<open>The stop and undo functions the manager still holds.\<close>

definition held :: "nat \<Rightarrow> 'w manager \<Rightarrow> bool" where
  "held h m \<longleftrightarrow> (\<exists>k t. mg_typing m k = Some (h, t) \<or> mg_reactions m k = Some (h, t))"

lemma held_take: "held h (take_entries k m) \<Longrightarrow> held h m"
  by (auto simp: held_def take_entries_def split: if_splits)

lemma attempts_no_run: "attempts_log chat c left evs \<Longrightarrow> EvRun h \<notin> set evs"
  by (induction chat c left evs rule: attempts_log.induct) (auto split: if_splits)

lemma run_entry_runs:
  assumes "run_entry (log_runtime rt) e (w, evs) = (w', evs')" and "EvRun h \<in> set evs'"
  shows "EvRun h \<in> set evs \<or> (\<exists>t. e = Some (h, t))"
  using assms by (auto simp: run_entry_def log_runtime_def split: option.splits)

lemma pre_send_runs:
  assumes "pre_send (log_runtime rt) name (log_channel ch) chat c m (w, evs) = (ok, m', w', evs')" and "EvRun h \<in> set evs'"
  shows "EvRun h \<in> set evs \<or> held h m"
proof -
  let ?key = "chat_key name chat"
  obtain w1 e1 where r1: "run_entry (log_runtime rt) (mg_typing m ?key) (w, evs) = (w1, e1)" by fastforce
  obtain w2 e2 where r2: "run_entry (log_runtime rt) (mg_reactions m ?key) (w1, e1) = (w2, e2)" by fastforce
  have "EvRun h \<in> set e2"
    using assms r1 r2
    by (auto simp: pre_send_def Let_def log_channel_def logged_def split: option.splits if_splits prod.splits)
  then show ?thesis using run_entry_runs [OF r2] run_entry_runs [OF r1] by (auto simp: held_def)
qed

lemma send_runs:
  assumes "send_with_retry (log_runtime rt) name (log_channel ch) chat c m (w, evs) = (m', w', evs')"
  shows "(EvRun h \<in> set evs' \<longrightarrow> EvRun h \<in> set evs \<or> held h m) \<and> (held h m' \<longrightarrow> held h m)"
proof -
  obtain ok w1 e1 where limit: "rt_limit (log_runtime rt) name (w, evs) = (ok, w1, e1)" by (metis prod_cases3)
  then have e1: "EvRun h \<in> set e1 \<Longrightarrow> EvRun h \<in> set evs"
    by (auto simp: log_runtime_def logged_def split: prod.splits)
  obtain sent m1 w2 e2 where pre: "pre_send (log_runtime rt) name (log_channel ch) chat c m (w1, e1) = (sent, m1, w2, e2)"
    by (metis prod_cases4)
  have "m1 = take_entries (chat_key name chat) m" using pre_send_logged [OF pre] by auto
  then have m1: "held h m1 \<Longrightarrow> held h m" using held_take by blast
  obtain out w3 e3 where att: "send_attempts (log_runtime rt) (ch_send (log_channel ch) chat c) max_send_retries (w2, e2) = (out, w3, e3)"
    by (metis prod_cases3)
  obtain new where "e3 = e2 @ new" "EvRun h \<notin> set new" using attempts_logged [OF att] attempts_no_run by blast
  moreover have "EvRun h \<in> set e2 \<Longrightarrow> EvRun h \<in> set evs \<or> held h m" using e1 pre_send_runs [OF pre, of h] by blast
  ultimately show ?thesis
    using assms limit pre att e1 m1
    by (cases ok; cases sent) (auto simp: send_with_retry_def)
qed

lemma chunks_runs:
  assumes "send_chunks (log_runtime rt) name (log_channel ch) chat cs m (w, evs) = (m', w', evs')"
  shows "(EvRun h \<in> set evs' \<longrightarrow> EvRun h \<in> set evs \<or> held h m) \<and> (held h m' \<longrightarrow> held h m)"
  using assms
proof (induction cs arbitrary: m w evs)
  case (Cons c cs)
  obtain m1 w1 e1 where one: "send_with_retry (log_runtime rt) name (log_channel ch) chat c m (w, evs) = (m1, w1, e1)"
    by (metis prod_cases3)
  from Cons.prems one have "send_chunks (log_runtime rt) name (log_channel ch) chat cs m1 (w1, e1) = (m', w', evs')" by simp
  from Cons.IH [OF this] send_runs [OF one] show ?case by blast
qed simp

text \<open>What starting the indicators of a message changes.\<close>

lemma handle_message_entries:
  assumes "handle_message rt c owner fresh e m w = (out, m', w')"
  shows "k \<noteq> chat_key (bc_name c) (ie_chat e) \<Longrightarrow> mg_typing m' k = mg_typing m k \<and> mg_reactions m' k = mg_reactions m k"
  using assms
  by (auto simp: handle_message_def start_typing_def start_reaction_def send_placeholder_def record_typing_stop_def
      record_reaction_undo_def record_placeholder_def Let_def split: prod.splits option.splits if_splits)

lemma handle_message_silent:
  assumes "handle_message (log_runtime rt) c (log_channel owner) fresh e m (w, evs) = (out, m', w', evs')"
  shows "evs' = evs"
proof -
  have un: "unlogged f (w, evs) = (r, w', evs') \<Longrightarrow> evs' = evs" for f :: "'a \<Rightarrow> 'b \<times> 'a" and w evs r w' evs'
    by (auto simp: unlogged_def split: prod.splits)
  have t: "start_typing (log_runtime rt) name (log_channel owner) chat m (w, evs) = (m', w', evs') \<Longrightarrow> evs' = evs"
    for name chat m w m' w' evs evs'
    by (auto simp: start_typing_def log_channel_def log_runtime_def split: option.splits prod.splits dest!: un)
  have r: "start_reaction (log_runtime rt) name (log_channel owner) chat i m (w, evs) = (m', w', evs') \<Longrightarrow> evs' = evs"
    for name chat i m w m' w' evs evs'
    by (auto simp: start_reaction_def log_channel_def log_runtime_def split: option.splits prod.splits if_splits dest!: un)
  have p: "send_placeholder (log_runtime rt) name (log_channel owner) chat m (w, evs) = (m', w', evs') \<Longrightarrow> evs' = evs"
    for name chat m w m' w' evs evs'
    by (auto simp: send_placeholder_def log_channel_def log_runtime_def split: option.splits prod.splits if_splits dest!: un)
  show ?thesis
    using assms by (auto simp: handle_message_def Let_def split: if_splits prod.splits dest!: t r p)
qed

text \<open>The indicator of a message is lost when the next message of the same chat comes before the
  answer. Its stop function is replaced without being called; from then on the manager does not hold it,
  and no answer, to this or another chat, calls it.\<close>

theorem overwritten_typing_never_stopped:
  assumes "mg_typing m1 (chat_key (bc_name c) (ie_chat e)) = Some (h1, t1)"
    and "\<And>k t. mg_typing m1 k = Some (h1, t) \<Longrightarrow> k = chat_key (bc_name c) (ie_chat e)"
    and "handle_message (log_runtime rt) c (log_channel owner) fresh e m1 (w1, []) = (out, m2, w2, evs2)"
    and "mg_typing m2 (chat_key (bc_name c) (ie_chat e)) = Some (h2, t2)" and "h1 \<noteq> h2"
    and "\<And>k t. mg_reactions m2 k \<noteq> Some (h1, t)"
    and "work_message fuel (log_runtime rt) name (log_channel ch) chat content m2 (w2, evs2) = Some (m3, w3, evs3)"
  shows "EvRun h1 \<notin> set evs2 \<and> EvRun h1 \<notin> set evs3
    \<and> (\<nexists>k t. mg_typing m3 k = Some (h1, t) \<or> mg_reactions m3 k = Some (h1, t))"
proof -
  let ?key = "chat_key (bc_name c) (ie_chat e)"
  have "mg_typing m2 k \<noteq> Some (h1, t)" for k t
  proof (cases "k = ?key")
    case False
    then show ?thesis using handle_message_entries [OF assms(3)] assms(2) by auto
  qed (use assms(4,5) in simp)
  then have none: "\<not> held h1 m2" using assms(6) by (simp add: held_def)
  have evs2: "evs2 = []" using handle_message_silent [OF assms(3)] by simp
  obtain chunks where "send_chunks (log_runtime rt) name (log_channel ch) chat chunks m2 (w2, evs2) = (m3, w3, evs3)"
    using assms(7) by (auto simp: work_message_def)
  from chunks_runs [OF this, of h1] none evs2 show ?thesis by (auto simp: held_def)
qed

section \<open>After the stop\<close>

text \<open>Stopping leaves the closed workers in the map: what their queues held is lost, and the next message
  for the channel, a second stop and an unregistration panic.\<close>

lemma close_workers_closed:
  assumes "close_workers names m = Some m'"
  shows "mg_channels m' = mg_channels m \<and> (\<forall>name wk. mg_workers m name = Some wk \<longrightarrow>
    mg_workers m' name = Some (if name \<in> set names then \<lparr>wk_queue = [], wk_media = [], wk_closed = True\<rparr> else wk))"
  using assms
proof (induction names arbitrary: m)
  case (Cons n names)
  show ?case
  proof (cases "mg_workers m n")
    case None
    then show ?thesis using Cons by auto
  next
    case (Some wk)
    let ?closed = "\<lparr>wk_queue = [], wk_media = [], wk_closed = True\<rparr>"
    have "close_workers names (m\<lparr>mg_workers := (mg_workers m)(n \<mapsto> ?closed)\<rparr>) = Some m'"
      using Cons.prems Some by (auto split: if_splits)
    from Cons.IH [OF this] Some show ?thesis by (auto split: if_splits)
  qed
qed simp

lemma close_workers_again:
  "name \<in> set names \<Longrightarrow> mg_workers m name = Some wk \<Longrightarrow> wk_closed wk \<Longrightarrow> close_workers names m = None"
proof (induction names arbitrary: m)
  case (Cons n names)
  show ?case
  proof (cases "n = name")
    case False
    have "mg_workers (m\<lparr>mg_workers := (mg_workers m)(n \<mapsto> x)\<rparr>) name = Some wk" for x
      using False Cons.prems by simp
    then show ?thesis using False Cons by (auto split: option.split)
  qed (use Cons.prems in simp)
qed simp

lemma stopped_manager:
  assumes "stop_all workers channels m w = Some (m', w')" and "name \<in> set workers"
    and "mg_workers m name = Some wk" and "mg_channels m name = Some ch"
  shows "send_to_channel name chat content m' w'' = SendPanics" "stop_all workers channels m' w'' = None"
    "unregister_channel fuel rt name ch m' w'' = StopPanics"
proof -
  have m': "mg_workers m' name = Some \<lparr>wk_queue = [], wk_media = [], wk_closed = True\<rparr>" "mg_channels m' name = Some ch"
    using assms close_workers_closed by (fastforce simp: stop_all_def)+
  then show "send_to_channel name chat content m' w'' = SendPanics" "unregister_channel fuel rt name ch m' w'' = StopPanics"
    by (simp_all add: send_to_channel_def enqueue_def unregister_channel_def)
  have "close_workers workers m' = None" using close_workers_again [OF assms(2) m'(1)] by simp
  then show "stop_all workers channels m' w'' = None" by (simp add: stop_all_def)
qed

section \<open>Witnesses\<close>

text \<open>A channel that fails once in a while: the world counts the sends, and every third one is refused.\<close>

definition sample_channel :: "nat channel" where
  "sample_channel = \<lparr>ch_start = \<lambda>w. (True, w), ch_stop = \<lambda>w. (True, w),
     ch_send = \<lambda>chat c w. (if w mod 3 = 0 then Some ErrTemporary else None, Suc w), ch_max_length = Some 6,
     ch_edit = None, ch_send_media = None, ch_typing = Some (\<lambda>chat w. (Some w, Suc w)), ch_react = None, ch_placeholder = None\<rparr>"

definition sample_runtime :: "nat runtime" where
  "sample_runtime = \<lparr>rt_now = \<lambda>w. (0, w), rt_run = \<lambda>_ w. w, rt_limit = \<lambda>_ w. (True, w), rt_sleep = \<lambda>_ w. (True, w)\<rparr>"


definition limited_channel :: "nat channel" where
  "limited_channel = sample_channel\<lparr>ch_max_length := Some 12\<rparr>"

theorem message_delivery_witness:
  "\<exists>m' w' evs chunks. work_message 14 (log_runtime sample_runtime) ''telegram'' (log_channel limited_channel) ''7''
      ''hello worlds!'' empty_manager (3, []) = Some (m', w', evs)
    \<and> message_chunks 14 limited_channel ''hello worlds!'' = Some chunks \<and> subseq (delivered evs) chunks
    \<and> list_all (\<lambda>c. int (length c) \<le> 12) (sent_texts evs)"
proof -
  have "ch_max_length limited_channel = Some 12" by (simp add: limited_channel_def)
  moreover have "short_fences 12 ''hello worlds!''" by code_simp
  ultimately show ?thesis
    using message_delivery [where ch = limited_channel and content = "''hello worlds!''" and fuel = 14 and rt = sample_runtime
        and name = "''telegram''" and chat = "''7''" and m = empty_manager and w = 3] by auto
qed

theorem plain_message_delivered_witness:
  "\<exists>m' w' evs. work_message 12 (log_runtime sample_runtime) ''telegram'' (log_channel sample_channel) ''7'' ''hello world''
      empty_manager (1, []) = Some (m', w', evs)
    \<and> (flawless evs \<longrightarrow> (\<exists>gaps. length gaps = length (delivered evs) \<and> list_all (list_all split_space) gaps
        \<and> rejoin (delivered evs) gaps = ''hello world''))"
proof (rule plain_message_delivered)
  show "\<not> has_fence ''hello world''" by code_simp
qed simp

theorem channel_order_witness:
  "\<exists>s :: nat chan_system. chan_reachable 9 sample_runtime s \<and> mg_workers (sy_manager s) ''telegram'' \<noteq> None
    \<and> sy_published s = [(''telegram'', ''7'', ''hi'')]
    \<and> (\<forall>wk. mg_workers (sy_manager s) ''telegram'' = Some wk \<longrightarrow>
        sy_taken s ''telegram'' @ wk_queue wk @ map snd (filter (\<lambda>msg. fst msg = ''telegram'') (sy_bus s)) = [(''7'', ''hi'')])"
proof -
  let ?cfg = "\<lparr>cs_enabled = \<lambda>n. n = ''telegram'', cs_required = \<lambda>_. ''token'', cs_native_whatsapp = False\<rparr>"
  let ?m = "(init_channels (\<lambda>_. Some sample_channel) ?cfg)\<lparr>mg_workers := [''telegram'' \<mapsto> new_channel_worker]\<rparr>"
  let ?s0 = "\<lparr>sy_bus = [], sy_manager = ?m, sy_world = 1, sy_published = [], sy_taken = \<lambda>_. []\<rparr> :: nat chan_system"
  let ?s1 = "?s0\<lparr>sy_bus := [(''telegram'', ''7'', ''hi'')], sy_published := [(''telegram'', ''7'', ''hi'')]\<rparr>"
  have "start_all [''telegram''] (init_channels (\<lambda>_. Some sample_channel) ?cfg) 1 = Some (?m, 1)"
    by (simp add: start_all_def init_channels_def init_channel_def wanted_channels_def empty_manager_def sample_channel_def)
  then have "chan_reachable 9 sample_runtime ?s0" by (rule chan_reachable.start)
  moreover have "chan_step 9 sample_runtime ?s0 ?s1"
    using chan_step.publish [of ?s0 9 sample_runtime "(''telegram'', ''7'', ''hi'')"] by simp
  ultimately have r: "chan_reachable 9 sample_runtime ?s1" by (rule chan_reachable.step)
  have "mg_workers (sy_manager ?s1) ''telegram'' = Some new_channel_worker" by simp
  from channel_order [OF r this] r show ?thesis
    by (intro exI [of _ ?s1]) (simp add: is_internal_channel_def)
qed

theorem overwritten_typing_never_stopped_witness:
  "\<exists>c e msg m2 w2 evs2 m3 w3 evs3. handle_message (log_runtime sample_runtime) c (log_channel sample_channel) ''id'' e
        (record_typing_stop ''telegram'' ''7'' 2 0 empty_manager) (5, []) = (Some msg, m2, w2, evs2)
    \<and> work_message 12 (log_runtime sample_runtime) ''telegram'' (log_channel sample_channel) ''7'' ''hi'' m2 (w2, evs2)
        = Some (m3, w3, evs3) \<and> EvRun 2 \<notin> set evs3 \<and> EvRun 5 \<in> set evs3"
proof -
  let ?sender = "\<lparr>si_platform = [], si_platform_id = [], si_canonical_id = [], si_username = [], si_display_name = []\<rparr>"
  let ?e = "\<lparr>ie_sender_id = ''u'', ie_sender = ?sender, ie_chat = ''7'', ie_message_id = ''m'', ie_content = ''x'', ie_media = []\<rparr>"
  let ?c = "\<lparr>bc_name = ''telegram'', bc_allow_list = [], bc_trigger = \<lparr>gt_mention_only = False, gt_prefixes = []\<rparr>\<rparr>"
  let ?m1 = "record_typing_stop ''telegram'' ''7'' 2 0 empty_manager :: (nat \<times> chan_event list) manager"
  let ?m2 = "record_typing_stop ''telegram'' ''7'' 5 0 ?m1"
  obtain msg where h: "handle_message (log_runtime sample_runtime) ?c (log_channel sample_channel) ''id'' ?e ?m1 (5, [])
      = (Some msg, ?m2, 6, [])"
    by (simp add: handle_message_def sender_admitted_def is_allowed_def start_typing_def start_reaction_def
        send_placeholder_def log_channel_def log_runtime_def unlogged_def sample_channel_def sample_runtime_def Let_def)
  have "map_option (\<lambda>(m, w, evs). (w, evs)) (work_message 12 (log_runtime sample_runtime) ''telegram'' (log_channel sample_channel)
      ''7'' ''hi'' ?m2 (6, [])) = Some (8, [EvLimit True, EvRun 5, EvSend ''7'' ''hi'' (Some ErrTemporary),
        EvSleep 500000000 True, EvSend ''7'' ''hi'' None])"
    by code_simp
  then obtain m3 evs3 where w: "work_message 12 (log_runtime sample_runtime) ''telegram'' (log_channel sample_channel) ''7'' ''hi'' ?m2
      (6, []) = Some (m3, 8, evs3)" and "EvRun 5 \<in> set evs3"
    by (auto simp: map_option_case split: option.splits)
  moreover have "EvRun 2 \<notin> set evs3"
  proof (rule conjunct1 [OF conjunct2 [OF overwritten_typing_never_stopped [OF _ _ h _ _ _ w, of 2 0 5 0]]])
    show "k = chat_key (bc_name ?c) (ie_chat ?e)" if "mg_typing ?m1 k = Some (2, t)" for k t
      using that by (simp add: record_typing_stop_def empty_manager_def split: if_splits)
  qed (simp_all add: record_typing_stop_def empty_manager_def)
  ultimately show ?thesis using h by blast
qed


end
