(* ===== verification/Session_Manager.thy ===== *)
theory Session_Manager
  imports Session_Store
begin

text \<open>
  The session manager of \<open>pkg/session/manager.go\<close>: sessions in memory with one JSON file each,
  or everything delegated to a store. The store's state is part of the manager's; the clock is
  an argument, read once per call. A directory is the list of its plain files in the order
  \<open>os.ReadDir\<close> gives, each with the session its content decodes to, if any. The session
  \<open>GetOrCreate\<close> returns is a copy here: the code returns a pointer into the map, through
  which no caller writes.
\<close>

section \<open>State\<close>

record 's session_manager =
  sm_sessions :: "string \<Rightarrow> session option"
  sm_storage :: string
  sm_store :: "'s option"

type_synonym disk = "(string \<times> session option) list"

datatype save_error = ErrInvalid | ErrIO

section \<open>Files\<close>

definition sanitize_filename :: "string \<Rightarrow> string" where
  "sanitize_filename key = map (\<lambda>c. if c = CHR '':'' then CHR ''_'' else c) key"

text \<open>On a Unix host \<open>filepath.IsLocal\<close> of a name without separators rejects the empty
  name and \<open>..\<close>.\<close>

definition valid_filename :: "string \<Rightarrow> bool" where
  "valid_filename f \<longleftrightarrow> f \<noteq> ''.'' \<and> f \<noteq> [] \<and> f \<noteq> ''..'' \<and> CHR ''/'' \<notin> set f \<and> CHR 0x5C \<notin> set f"

text \<open>The file is renamed into place: an entry of that name is replaced, a new one takes its
  place in the order of names.\<close>

fun write_file :: "string \<Rightarrow> session \<Rightarrow> disk \<Rightarrow> disk" where
  "write_file f s [] = [(f, Some s)]"
| "write_file f s ((g, x) # d) =
     (if g = f then (f, Some s) # d
      else if f < g then (f, Some s) # (g, x) # d
      else (g, x) # write_file f s d)"

definition json_session :: "session \<Rightarrow> session" where
  "json_session s = s\<lparr>se_messages := map json_message (se_messages s)\<rparr>"

fun load_sessions :: "disk \<Rightarrow> (string \<Rightarrow> session option) \<Rightarrow> (string \<Rightarrow> session option)" where
  "load_sessions [] m = m"
| "load_sessions ((f, content) # d) m =
     load_sessions d
       (if has_suffix f ''.json''
        then (case content of None \<Rightarrow> m | Some s \<Rightarrow> m(se_key s \<mapsto> s)) else m)"

definition new_session_manager :: "string \<Rightarrow> disk \<Rightarrow> 's session_manager" where
  "new_session_manager storage d =
     \<lparr>sm_sessions = (if storage \<noteq> [] then load_sessions d Map.empty else Map.empty),
      sm_storage = storage, sm_store = None\<rparr>"

definition new_session_manager_with_store :: "'s \<Rightarrow> 's session_manager" where
  "new_session_manager_with_store s = \<lparr>sm_sessions = Map.empty, sm_storage = [], sm_store = Some s\<rparr>"

section \<open>Operations\<close>

definition empty_session :: "string \<Rightarrow> time \<Rightarrow> session" where
  "empty_session key now =
     \<lparr>se_key = key, se_messages = [], se_summary = [], se_created = now, se_updated = now\<rparr>"

definition mgr_get_or_create ::
  "'s session_ops \<Rightarrow> 's session_manager \<Rightarrow> string \<Rightarrow> time \<Rightarrow> session \<times> 's session_manager" where
  "mgr_get_or_create ops sm key now =
     (case sm_store sm of
        Some s \<Rightarrow>
          (case ss_get_or_create ops s key now of
             (Inr se, s') \<Rightarrow> (se, sm\<lparr>sm_store := Some s'\<rparr>)
           | (Inl e, s') \<Rightarrow> (empty_session key now, sm\<lparr>sm_store := Some s'\<rparr>))
      | None \<Rightarrow>
          (case sm_sessions sm key of
             Some se \<Rightarrow> (se, sm)
           | None \<Rightarrow>
               let se = empty_session key now
               in (se, sm\<lparr>sm_sessions := (sm_sessions sm)(key \<mapsto> se)\<rparr>)))"

definition mgr_add_full_message ::
  "'s session_ops \<Rightarrow> 's session_manager \<Rightarrow> string \<Rightarrow> message \<Rightarrow> time \<Rightarrow> 's session_manager" where
  "mgr_add_full_message ops sm key m now =
     (case sm_store sm of
        Some s \<Rightarrow> sm\<lparr>sm_store := Some (snd (ss_add_message ops s key m now))\<rparr>
      | None \<Rightarrow>
          let se = (case sm_sessions sm key of Some se \<Rightarrow> se | None \<Rightarrow> empty_session key now)
          in sm\<lparr>sm_sessions := (sm_sessions sm)(key \<mapsto>
               se\<lparr>se_messages := se_messages se @ [m], se_updated := now\<rparr>)\<rparr>)"

definition mgr_add_message ::
  "'s session_ops \<Rightarrow> 's session_manager \<Rightarrow> string \<Rightarrow> string \<Rightarrow> string \<Rightarrow> time \<Rightarrow> 's session_manager" where
  "mgr_add_message ops sm key role content now = mgr_add_full_message ops sm key (plain_message role content) now"

definition mgr_get_history :: "'s session_ops \<Rightarrow> 's session_manager \<Rightarrow> string \<Rightarrow> message list" where
  "mgr_get_history ops sm key =
     (case sm_store sm of
        Some s \<Rightarrow> (case ss_get_history ops s key of Inl e \<Rightarrow> [] | Inr ms \<Rightarrow> ms)
      | None \<Rightarrow> (case sm_sessions sm key of None \<Rightarrow> [] | Some se \<Rightarrow> se_messages se))"

definition mgr_get_summary :: "'s session_ops \<Rightarrow> 's session_manager \<Rightarrow> string \<Rightarrow> string" where
  "mgr_get_summary ops sm key =
     (case sm_store sm of
        Some s \<Rightarrow> (case ss_get_summary ops s key of Inl e \<Rightarrow> [] | Inr x \<Rightarrow> x)
      | None \<Rightarrow> (case sm_sessions sm key of None \<Rightarrow> [] | Some se \<Rightarrow> se_summary se))"

definition mgr_set_summary ::
  "'s session_ops \<Rightarrow> 's session_manager \<Rightarrow> string \<Rightarrow> string \<Rightarrow> time \<Rightarrow> 's session_manager" where
  "mgr_set_summary ops sm key summary now =
     (case sm_store sm of
        Some s \<Rightarrow> sm\<lparr>sm_store := Some (snd (ss_set_summary ops s key summary now))\<rparr>
      | None \<Rightarrow>
          (case sm_sessions sm key of
             None \<Rightarrow> sm
           | Some se \<Rightarrow> sm\<lparr>sm_sessions := (sm_sessions sm)(key \<mapsto>
                             se\<lparr>se_summary := summary, se_updated := now\<rparr>)\<rparr>))"

definition mgr_truncate_history ::
  "'s session_ops \<Rightarrow> 's session_manager \<Rightarrow> string \<Rightarrow> int \<Rightarrow> time \<Rightarrow> 's session_manager" where
  "mgr_truncate_history ops sm key keepLast now =
     (case sm_store sm of
        Some s \<Rightarrow> sm\<lparr>sm_store := Some (snd (ss_truncate_history ops s key keepLast now))\<rparr>
      | None \<Rightarrow>
          (case sm_sessions sm key of
             None \<Rightarrow> sm
           | Some se \<Rightarrow>
               if keepLast \<le> 0
               then sm\<lparr>sm_sessions := (sm_sessions sm)(key \<mapsto> se\<lparr>se_messages := [], se_updated := now\<rparr>)\<rparr>
               else if int (length (se_messages se)) \<le> keepLast then sm
               else sm\<lparr>sm_sessions := (sm_sessions sm)(key \<mapsto>
                      se\<lparr>se_messages := drop (length (se_messages se) - nat keepLast) (se_messages se),
                         se_updated := now\<rparr>)\<rparr>))"

definition mgr_set_history ::
  "'s session_ops \<Rightarrow> 's session_manager \<Rightarrow> string \<Rightarrow> message list \<Rightarrow> time \<Rightarrow> 's session_manager" where
  "mgr_set_history ops sm key history now =
     (case sm_store sm of
        Some s \<Rightarrow> sm\<lparr>sm_store := Some (snd (ss_set_history ops s key history now))\<rparr>
      | None \<Rightarrow>
          (case sm_sessions sm key of
             None \<Rightarrow> sm
           | Some se \<Rightarrow> sm\<lparr>sm_sessions := (sm_sessions sm)(key \<mapsto>
                             se\<lparr>se_messages := history, se_updated := now\<rparr>)\<rparr>))"

text \<open>\<open>io_ok\<close>: every file operation succeeds; if one fails the temporary file is removed.\<close>

definition mgr_save :: "'s session_manager \<Rightarrow> string \<Rightarrow> bool \<Rightarrow> disk \<Rightarrow> save_error option \<times> disk" where
  "mgr_save sm key io_ok d =
     (if sm_store sm \<noteq> None then (None, d)
      else if sm_storage sm = [] then (None, d)
      else
        let filename = sanitize_filename key in
        if \<not> valid_filename filename then (Some ErrInvalid, d)
        else (case sm_sessions sm key of
                None \<Rightarrow> (None, d)
              | Some stored \<Rightarrow>
                  if io_ok then (None, write_file (filename @ ''.json'') (json_session stored) d)
                  else (Some ErrIO, d)))"

section \<open>The manager keeps conversations\<close>

definition mgr_view :: "('s \<Rightarrow> conversations) \<Rightarrow> 's session_manager \<Rightarrow> conversations" where
  "mgr_view view sm =
     (case sm_store sm of
        Some s \<Rightarrow> view s
      | None \<Rightarrow> (\<lambda>key. map_option (\<lambda>se. (se_messages se, se_summary se)) (sm_sessions sm key)))"

datatype mgr_op = MGetOrCreate string | MAdd string message | MSetSummary string string
  | MSetHistory string "message list" | MTruncate string int

fun mgr_step :: "'s session_ops \<Rightarrow> mgr_op \<Rightarrow> time \<Rightarrow> 's session_manager \<Rightarrow> 's session_manager" where
  "mgr_step ops (MGetOrCreate key) now sm = snd (mgr_get_or_create ops sm key now)"
| "mgr_step ops (MAdd key m) now sm = mgr_add_full_message ops sm key m now"
| "mgr_step ops (MSetSummary key x) now sm = mgr_set_summary ops sm key x now"
| "mgr_step ops (MSetHistory key ms) now sm = mgr_set_history ops sm key ms now"
| "mgr_step ops (MTruncate key n) now sm = mgr_truncate_history ops sm key n now"

fun mgr_run :: "'s session_ops \<Rightarrow> (mgr_op \<times> time) list \<Rightarrow> 's session_manager \<Rightarrow> 's session_manager" where
  "mgr_run ops [] sm = sm"
| "mgr_run ops ((op, now) # xs) sm = mgr_run ops xs (mgr_step ops op now sm)"

text \<open>The same operation on the abstract state, \<open>f\<close> being what storing does to a message.\<close>

fun spec_step :: "(message \<Rightarrow> message) \<Rightarrow> mgr_op \<Rightarrow> conversations \<Rightarrow> conversations" where
  "spec_step f (MGetOrCreate key) c = spec_get_or_create key c"
| "spec_step f (MAdd key m) c = spec_add key (f m) c"
| "spec_step f (MSetSummary key x) c = spec_set_summary key x c"
| "spec_step f (MSetHistory key ms) c = spec_set_history key (map f ms) c"
| "spec_step f (MTruncate key n) c = spec_truncate key n c"

lemma mgr_step_memory:
  assumes "sm_store sm = None"
  shows "sm_store (mgr_step ops op now sm) = None
    \<and> mgr_view view (mgr_step ops op now sm) = spec_step (\<lambda>m. m) op (mgr_view view sm)"
proof (cases op)
  case (MTruncate key n)
  then show ?thesis using assms
    by (auto simp: mgr_truncate_history_def mgr_view_def spec_truncate_def keep_last_def fun_eq_iff
        split: option.splits)
qed (use assms in \<open>auto simp: mgr_get_or_create_def mgr_add_full_message_def mgr_set_summary_def mgr_set_history_def
      mgr_view_def spec_defs empty_session_def Let_def fun_eq_iff split: option.splits\<close>)

lemma mgr_run_memory:
  "sm_store sm = None \<Longrightarrow> sm_store (mgr_run ops xs sm) = None
    \<and> mgr_view view (mgr_run ops xs sm) = fold (\<lambda>(op, _). spec_step (\<lambda>m. m) op) xs (mgr_view view sm)"
proof (induction xs arbitrary: sm)
  case (Cons x xs)
  then show ?case using mgr_step_memory [OF Cons.prems] by (cases x) simp
qed simp

context session_store
begin

lemma mgr_step_store:
  assumes "sm_store sm = Some s" and "inv s"
  shows "\<exists>s'. sm_store (mgr_step ops op now sm) = Some s' \<and> inv s'
    \<and> view s' = spec_step stored op (view s)"
proof (cases op)
  case (MGetOrCreate key)
  then show ?thesis using assms get_or_create [OF assms(2), of key now]
    by (auto simp: mgr_get_or_create_def split: prod.splits sum.splits)
next
  case (MAdd key m)
  then show ?thesis using assms add_message [OF assms(2)] by (auto simp: mgr_add_full_message_def)
next
  case (MSetSummary key x)
  then show ?thesis using assms set_summary [OF assms(2)] by (auto simp: mgr_set_summary_def)
next
  case (MSetHistory key ms)
  then show ?thesis using assms set_history [OF assms(2)] by (auto simp: mgr_set_history_def)
next
  case (MTruncate key n)
  then show ?thesis using assms truncate_history [OF assms(2)] by (auto simp: mgr_truncate_history_def)
qed

lemma mgr_run_store:
  assumes "sm_store sm = Some s" and "inv s"
  shows "\<exists>s'. sm_store (mgr_run ops xs sm) = Some s' \<and> inv s'
    \<and> view s' = fold (\<lambda>(op, _). spec_step stored op) xs (view s)"
  using assms
proof (induction xs arbitrary: sm s)
  case (Cons x xs)
  obtain op now where x: "x = (op, now)" by (cases x)
  obtain s1 where s1: "sm_store (mgr_step ops op now sm) = Some s1" "inv s1"
    "view s1 = spec_step stored op (view s)"
    using mgr_step_store [OF Cons.prems] by auto
  with Cons.IH [OF s1(1,2)] x show ?case by auto
qed auto

lemma mgr_reads_store:
  assumes "sm_store sm = Some s" and "inv s"
  shows "mgr_get_history ops sm key = spec_history (view s) key"
    and "mgr_get_summary ops sm key = spec_summary (view s) key"
  using assms by (simp_all add: mgr_get_history_def mgr_get_summary_def get_history get_summary)

end

lemma mgr_reads_memory:
  assumes "sm_store sm = None"
  shows "mgr_get_history ops sm key = spec_history (mgr_view view sm) key"
    and "mgr_get_summary ops sm key = spec_summary (mgr_view view sm) key"
  using assms by (auto simp: mgr_get_history_def mgr_get_summary_def mgr_view_def spec_defs split: option.splits)

text \<open>A manager of either kind, in one law: what it holds changes as the abstract state does, up to what a store
  makes of a message.\<close>

definition mgr_ok :: "('s \<Rightarrow> bool) \<Rightarrow> 's session_manager \<Rightarrow> bool" where
  "mgr_ok good sm \<longleftrightarrow> (case sm_store sm of None \<Rightarrow> True | Some s \<Rightarrow> good s)"

definition mgr_stored :: "(message \<Rightarrow> message) \<Rightarrow> 's session_manager \<Rightarrow> message \<Rightarrow> message" where
  "mgr_stored stored sm = (case sm_store sm of None \<Rightarrow> (\<lambda>m. m) | Some _ \<Rightarrow> stored)"

context session_store
begin

lemma mgr_step_ok:
  assumes "mgr_ok inv sm"
  shows "mgr_ok inv (mgr_step ops op now sm)"
    and "mgr_stored stored (mgr_step ops op now sm) = mgr_stored stored sm"
    and "mgr_view view (mgr_step ops op now sm) = spec_step (mgr_stored stored sm) op (mgr_view view sm)"
proof -
  have "mgr_ok inv (mgr_step ops op now sm) \<and> mgr_stored stored (mgr_step ops op now sm) = mgr_stored stored sm
    \<and> mgr_view view (mgr_step ops op now sm) = spec_step (mgr_stored stored sm) op (mgr_view view sm)"
  proof (cases "sm_store sm")
    case None
    with mgr_step_memory [OF None, of ops op now view] show ?thesis by (simp add: mgr_ok_def mgr_stored_def)
  next
    case (Some s)
    with assms have "inv s" by (simp add: mgr_ok_def)
    from mgr_step_store [OF Some this, of op now] Some show ?thesis
      by (auto simp: mgr_ok_def mgr_stored_def mgr_view_def)
  qed
  then show "mgr_ok inv (mgr_step ops op now sm)"
    "mgr_stored stored (mgr_step ops op now sm) = mgr_stored stored sm"
    "mgr_view view (mgr_step ops op now sm) = spec_step (mgr_stored stored sm) op (mgr_view view sm)" by simp_all
qed

lemma mgr_history_ok: "mgr_ok inv sm \<Longrightarrow> mgr_get_history ops sm key = spec_history (mgr_view view sm) key"
  using mgr_reads_memory(1) [of sm ops key view] mgr_reads_store(1) [of sm _ key]
  by (cases "sm_store sm") (simp_all add: mgr_ok_def mgr_view_def)

lemma mgr_history_step:
  assumes "mgr_ok inv sm"
  shows "mgr_get_history ops (mgr_step ops op now sm) key
    = spec_history (spec_step (mgr_stored stored sm) op (mgr_view view sm)) key"
  by (simp add: mgr_history_ok mgr_step_ok [OF assms])

end

text \<open>What storing does to the messages of a conversation commutes with every operation.\<close>

definition map_messages :: "(message \<Rightarrow> message) \<Rightarrow> conversations \<Rightarrow> conversations" where
  "map_messages f c key = map_option (\<lambda>(ms, s). (map f ms, s)) (c key)"

lemma spec_step_map:
  "spec_step f op (map_messages f c) = map_messages f (spec_step (\<lambda>m. m) op c)"
  by (cases op) (auto simp: map_messages_def spec_defs fun_eq_iff keep_last_map split: option.splits)

lemma spec_run_map:
  "fold (\<lambda>(op, _). spec_step f op) xs (map_messages f c)
     = map_messages f (fold (\<lambda>(op, _). spec_step (\<lambda>m. m) op) xs c)"
proof (induction xs arbitrary: c)
  case (Cons x xs)
  then show ?case by (cases x) (simp add: spec_step_map)
qed simp

lemma spec_history_map: "spec_history (map_messages f c) key = map f (spec_history c key)"
  by (auto simp: spec_history_def map_messages_def split: option.splits)

lemma spec_summary_map: "spec_summary (map_messages f c) key = spec_summary c key"
  by (auto simp: spec_summary_def map_messages_def split: option.splits)

lemma map_messages_empty: "map_messages f Map.empty = Map.empty"
  by (simp add: map_messages_def fun_eq_iff)

section \<open>Properties\<close>

text \<open>Property C33: a manager on a SQLite store and one in memory, given the same operations from
  the start, show the same summaries and the same histories, but for the fields of a message
  that the database has no column for.\<close>

theorem manager_backends_agree:
  "mgr_get_history sqlite_ops (mgr_run sqlite_ops xs (new_session_manager_with_store empty_db)) key
      = map stored_message (mgr_get_history sqlite_ops (mgr_run sqlite_ops xs (new_session_manager [] [])) key)
    \<and> mgr_get_summary sqlite_ops (mgr_run sqlite_ops xs (new_session_manager_with_store empty_db)) key
      = mgr_get_summary sqlite_ops (mgr_run sqlite_ops xs (new_session_manager [] [])) key"
proof -
  let ?db = "new_session_manager_with_store empty_db" and ?mem = "new_session_manager [] [] :: db session_manager"
  have v0: "sqlite_view empty_db = map_messages stored_message Map.empty"
    by (simp add: fun_eq_iff sqlite_view_def map_messages_def find_session_def empty_db_def)
  have m0: "mgr_view sqlite_view ?mem = Map.empty" by (simp add: mgr_view_def new_session_manager_def)
  have "sm_store ?db = Some empty_db" by (simp add: new_session_manager_with_store_def)
  from sqlite_sessions.mgr_run_store [OF this wf_empty_db] obtain s' where
    s': "sm_store (mgr_run sqlite_ops xs ?db) = Some s'" "wf_db s'"
    "sqlite_view s' = fold (\<lambda>(op, _). spec_step stored_message op) xs (sqlite_view empty_db)" by auto
  have "sm_store ?mem = None" by (simp add: new_session_manager_def)
  from mgr_run_memory [OF this, of sqlite_ops xs sqlite_view]
  have mem: "sm_store (mgr_run sqlite_ops xs ?mem) = None"
    "mgr_view sqlite_view (mgr_run sqlite_ops xs ?mem) = fold (\<lambda>(op, _). spec_step (\<lambda>m. m) op) xs Map.empty"
    using m0 by simp_all
  have "sqlite_view s' = map_messages stored_message (mgr_view sqlite_view (mgr_run sqlite_ops xs ?mem))"
    by (simp add: s'(3) v0 spec_run_map mem(2))
  then show ?thesis
    by (simp add: sqlite_sessions.mgr_reads_store [OF s'(1,2)] mgr_reads_memory [OF mem(1), of _ _ sqlite_view]
        spec_history_map spec_summary_map)
qed

section \<open>Files survive a restart\<close>

text \<open>Names are listed in order, and a file is named after the key it holds.\<close>

definition disk_ok :: "disk \<Rightarrow> bool" where
  "disk_ok d \<longleftrightarrow> sorted_wrt (<) (map fst d)
     \<and> (\<forall>(f, x) \<in> set d. \<forall>s. x = Some s \<longrightarrow> f = sanitize_filename (se_key s) @ ''.json'')"

definition session_file :: "string \<Rightarrow> string" where
  "session_file key = sanitize_filename key @ ''.json''"

lemma has_suffix_json [simp]: "has_suffix (s @ ''.json'') ''.json''"
  by (simp add: has_suffix_def has_prefix_iff)

lemma set_write_file: "set (write_file f s d) \<subseteq> insert (f, Some s) (set d)"
  by (induction f s d rule: write_file.induct) auto

lemma names_write_file: "fst ` set (write_file f s d) = insert f (fst ` set d)"
  by (induction f s d rule: write_file.induct) auto

lemma sorted_write_file: "sorted_wrt (<) (map fst d) \<Longrightarrow> sorted_wrt (<) (map fst (write_file f s d))"
proof (induction f s d rule: write_file.induct)
  case (2 f s g x d)
  then show ?case
    using names_write_file [of f s d] by (auto simp: less_le_not_le)
qed simp

lemma map_of_write_file:
  "sorted_wrt (<) (map fst d) \<Longrightarrow> map_of (write_file f s d) = (map_of d)(f \<mapsto> Some s)"
  by (induction f s d rule: write_file.induct) (auto simp: fun_eq_iff)

lemma disk_ok_write_file:
  "disk_ok d \<Longrightarrow> disk_ok (write_file (session_file (se_key s)) s d)"
proof -
  assume "disk_ok d"
  moreover have "(f, x) = (session_file (se_key s), Some s) \<or> (f, x) \<in> set d"
    if "(f, x) \<in> set (write_file (session_file (se_key s)) s d)" for f x
    using that set_write_file by fast
  ultimately show ?thesis
    unfolding disk_ok_def by (fastforce simp: sorted_write_file session_file_def)
qed

lemma load_sessions_map:
  "disk_ok d \<Longrightarrow> load_sessions d m k
     = (case map_of d (session_file k) of
          Some (Some s) \<Rightarrow> if se_key s = k then Some s else m k
        | _ \<Rightarrow> m k)"
proof (induction d m rule: load_sessions.induct)
  case (2 f content d m)
  then have d: "disk_ok d" by (auto simp: disk_ok_def)
  have new: "session_file k \<notin> fst ` set d" if "f = session_file k"
    using 2(2) that by (auto simp: disk_ok_def)
  show ?case
  proof (cases content)
    case None
    with new have "map_of d (session_file k) = None" if "f = session_file k"
      using that by (simp add: map_of_eq_None_iff)
    with 2(1) [OF d] None show ?thesis by (cases "f = session_file k") (auto split: option.splits)
  next
    case (Some s)
    with 2(2) have f: "f = session_file (se_key s)" by (auto simp: disk_ok_def session_file_def)
    then have sf: "has_suffix f ''.json''" by (simp add: session_file_def)
    show ?thesis
    proof (cases "f = session_file k")
      case True
      from new [OF this] have "map_of d (session_file k) = None" by (simp add: map_of_eq_None_iff)
      with 2(1) [OF d] True Some sf show ?thesis by (simp add: fun_upd_def)
    next
      case False
      with f have "se_key s \<noteq> k" by auto
      with 2(1) [OF d] False Some sf show ?thesis by (auto simp: fun_upd_def split: option.splits)
    qed
  qed
qed simp

lemma restart_after_write:
  assumes "disk_ok d" and "storage \<noteq> []"
  shows "sm_sessions (new_session_manager storage (write_file (session_file (se_key s)) s d) :: 's session_manager) k
    = (if k = se_key s then Some s
       else if session_file k = session_file (se_key s) then None
       else sm_sessions (new_session_manager storage d :: 's session_manager) k)"
  using assms disk_ok_write_file [OF assms(1), of s]
  by (auto simp: new_session_manager_def load_sessions_map map_of_write_file disk_ok_def)

lemma mgr_save_writes:
  assumes "sm_store sm = None" and "sm_storage sm \<noteq> []" and "valid_filename (sanitize_filename key)"
    and "sm_sessions sm key = Some se"
  shows "mgr_save sm key True d = (None, write_file (session_file key) (json_session se) d)"
  using assms by (simp add: mgr_save_def Let_def session_file_def)

text \<open>a session that was saved is there after a restart, with everything but the
  unexported fields of its tool calls, and saving it changes no session of another file.\<close>

theorem saved_session_survives_restart:
  fixes sm :: "'s session_manager"
  assumes "sm_store sm = None" and "sm_storage sm \<noteq> []" and "valid_filename (sanitize_filename key)"
    and "sm_sessions sm key = Some se" and "se_key se = key" and "disk_ok d"
  shows "case mgr_save sm key True d of (err, d') \<Rightarrow> err = None \<and> disk_ok d'
    \<and> sm_sessions (new_session_manager (sm_storage sm) d') key = Some (json_session se)
    \<and> (\<forall>k. sanitize_filename k \<noteq> sanitize_filename key \<longrightarrow>
        sm_sessions (new_session_manager (sm_storage sm) d' :: 's session_manager) k
          = sm_sessions (new_session_manager (sm_storage sm) d :: 's session_manager) k)"
proof -
  have key: "se_key (json_session se) = key" using assms(5) by (simp add: json_session_def)
  show ?thesis
    using disk_ok_write_file [OF assms(6), of "json_session se"]
    by (auto simp: mgr_save_writes [OF assms(1-4)] restart_after_write [OF assms(6,2), of "json_session se", unfolded key session_file_def]
        key session_file_def)
qed

theorem saved_session_survives_restart_witness:
  "\<exists>sm :: db session_manager. map_option se_messages
     (sm_sessions (new_session_manager ''/d'' (snd (mgr_save sm ''telegram:1'' True []))) ''telegram:1'')
   = Some [plain_message ''user'' ''hi'']"
proof -
  let ?se = "\<lparr>se_key = ''telegram:1'', se_messages = [plain_message ''user'' ''hi''], se_summary = [],
     se_created = 0, se_updated = 0\<rparr>"
  let ?sm = "\<lparr>sm_sessions = [''telegram:1'' \<mapsto> ?se], sm_storage = ''/d'', sm_store = None\<rparr> :: db session_manager"
  have "valid_filename (sanitize_filename ''telegram:1'')" by code_simp
  with saved_session_survives_restart [of ?sm "''telegram:1''" ?se "[]"]
  show ?thesis by (intro exI [of _ ?sm]) (auto simp: disk_ok_def json_session_def json_message_def)
qed

text \<open>two sessions whose keys differ only in a colon against an underscore share one
  file: after both are saved, a restart has the one saved last and lost the other.\<close>

theorem sessions_share_a_file:
  assumes "sm_store sm = None" and "sm_storage sm \<noteq> []" and "valid_filename (sanitize_filename key)"
    and "sm_sessions sm key = Some se" and "se_key se = key" and "disk_ok d"
    and "sm_sessions sm key' = Some se'" and "se_key se' = key'"
    and "key' \<noteq> key" and "sanitize_filename key' = sanitize_filename key"
  shows "sm_sessions (new_session_manager (sm_storage sm)
      (snd (mgr_save sm key' True (snd (mgr_save sm key True d))))) key = None"
proof -
  have keys: "se_key (json_session se) = key" "se_key (json_session se') = key'"
    using assms(5,8) by (simp_all add: json_session_def)
  let ?d = "write_file (session_file key) (json_session se) d"
  have "disk_ok ?d" using disk_ok_write_file [OF assms(6), of "json_session se"] by (simp add: keys)
  from restart_after_write [OF this assms(2), of "json_session se'" key] assms(9,10)
  show ?thesis
    using assms by (simp add: mgr_save_writes [of sm key se] mgr_save_writes [of sm key' se'] keys session_file_def)
qed

theorem sessions_share_a_file_witness:
  "\<exists>sm :: db session_manager. sm_sessions sm ''discord:a_1'' \<noteq> None \<and> sm_sessions sm ''discord:a:1'' \<noteq> None
    \<and> sm_sessions (new_session_manager ''/d''
        (snd (mgr_save sm ''discord:a:1'' True (snd (mgr_save sm ''discord:a_1'' True []))))) ''discord:a_1'' = None"
proof -
  let ?a = "empty_session ''discord:a_1'' 0" and ?b = "empty_session ''discord:a:1'' 0"
  let ?sm = "\<lparr>sm_sessions = [''discord:a_1'' \<mapsto> ?a, ''discord:a:1'' \<mapsto> ?b], sm_storage = ''/d'',
     sm_store = None\<rparr> :: db session_manager"
  have "valid_filename (sanitize_filename ''discord:a_1'')"
    "sanitize_filename ''discord:a:1'' = sanitize_filename ''discord:a_1''" by code_simp+
  with sessions_share_a_file [of ?sm "''discord:a_1''" ?a "[]" "''discord:a:1''" ?b]
  show ?thesis by (intro exI [of _ ?sm]) (auto simp: disk_ok_def empty_session_def)
qed

end
