(* ===== verification/OAuth_Flow.thy ===== *)
theory OAuth_Flow
  imports Json Time_Text
begin

text \<open>
  OAuth 2.0 flows (\<open>pkg/oauth\<close>): the providers (\<open>provider.go\<close>), the table of flows in
  progress (\<open>state_store.go\<close>), starting a flow, its callback and the refreshing of a token
  (\<open>service.go\<close>, \<open>api.go\<close>, \<open>pkg/auth/pkce.go\<close>).

  The provider's token endpoint is a world with a hidden state; random identifiers, tokens and
  verifiers, the clock, the hash of a verifier and the reading of a text as JSON are
  arguments. The scopes of a flow come from a traversal of a map, so their order is an argument.
\<close>

section \<open>Providers\<close>

record provider =
  pv_id :: string
  pv_name :: string
  pv_auth_url :: string
  pv_token_url :: string
  pv_client_id :: string
  pv_client_secret :: string
  pv_scopes :: "string list"
  pv_redirect_url :: string
  pv_use_pkce :: bool
  pv_extra_params :: "(string \<times> string) list"

definition validate_provider :: "provider \<Rightarrow> string option" where
  "validate_provider p =
     (if pv_id p = [] then Some ''provider ID is required''
      else if pv_name p = [] then Some ''provider name is required''
      else if pv_auth_url p = [] then Some ''auth URL is required''
      else if pv_token_url p = [] then Some ''token URL is required''
      else if pv_client_id p = [] then Some ''client ID is required''
      else if pv_redirect_url p = [] then Some ''redirect URL is required''
      else None)"

type_synonym provider_registry = "string \<Rightarrow> provider option"

definition register_provider :: "provider_registry \<Rightarrow> provider \<Rightarrow> string + provider_registry" where
  "register_provider reg p =
     (case validate_provider p of
        Some e \<Rightarrow> Inl e
      | None \<Rightarrow> if reg (pv_id p) \<noteq> None then Inl ''already registered'' else Inr (reg(pv_id p \<mapsto> p)))"

definition remove_provider :: "provider_registry \<Rightarrow> string \<Rightarrow> provider_registry" where
  "remove_provider reg i = reg(i := None)"

section \<open>Flows in progress\<close>

record oauth_state =
  os_id :: string
  os_user :: string
  os_provider :: string
  os_state :: string
  os_verifier :: string
  os_redirect :: string
  os_scopes :: string
  os_created :: time
  os_expires :: time
  os_used :: bool

datatype oauth_error =
    RandomFailed | MissingField string | ProviderNotFound string | InsertFailed | UnknownState | StateExpired
  | StateUsed | MarkFailed | ExchangeFailed string

definition state_ttl :: duration where
  "state_ttl = 10 * minute"

text \<open>\<open>Create\<close>: the identifier and the token are unique columns.\<close>

definition state_create :: "oauth_state list \<Rightarrow> oauth_state \<Rightarrow> oauth_error + oauth_state list" where
  "state_create tbl st =
     (if os_state st = [] then Inl (MissingField ''state'')
      else if os_user st = [] then Inl (MissingField ''user'')
      else if os_provider st = [] then Inl (MissingField ''provider'')
      else if list_ex (\<lambda>r. os_id r = os_id st \<or> os_state r = os_state st) tbl then Inl InsertFailed
      else Inr (tbl @ [st]))"

definition state_get :: "oauth_state list \<Rightarrow> string \<Rightarrow> oauth_error + oauth_state option" where
  "state_get tbl token =
     (if token = [] then Inl (MissingField ''state'') else Inr (find (\<lambda>r. os_state r = token) tbl))"

definition state_mark_used :: "oauth_state list \<Rightarrow> string \<Rightarrow> oauth_error + oauth_state list" where
  "state_mark_used tbl i =
     (if i = [] then Inl (MissingField ''id'')
      else if \<not> list_ex (\<lambda>r. os_id r = i) tbl then Inl MarkFailed
      else Inr (map (\<lambda>r. if os_id r = i then r\<lparr>os_used := True\<rparr> else r) tbl))"

text \<open>\<open>DeleteExpired\<close>, which compares the times as text.\<close>

definition state_delete_expired :: "oauth_state list \<Rightarrow> time \<Rightarrow> oauth_state list" where
  "state_delete_expired tbl now = filter (\<lambda>r. \<not> stamp (os_expires r) < stamp now) tbl"

section \<open>Token responses\<close>

record token_response =
  tk_access :: string
  tk_refresh :: string
  tk_type :: string
  tk_expires_in :: int
  tk_expires_at :: "time option"
  tk_scope :: string
  tk_id_token :: string
  tk_provider :: string
  tk_user :: string

record raw_token =
  rw_access :: string
  rw_refresh :: string
  rw_type :: string
  rw_expires_in :: int
  rw_scope :: string
  rw_id_token :: string
  rw_error :: string
  rw_error_desc :: string

definition zero_raw_token :: raw_token where
  "zero_raw_token = \<lparr>rw_access = [], rw_refresh = [], rw_type = [], rw_expires_in = 0, rw_scope = [], rw_id_token = [],
     rw_error = [], rw_error_desc = []\<rparr>"

definition decode_raw_token :: "raw_token decoder" where
  "decode_raw_token = decode_struct
     [json_field ''access_token'' decode_string rw_access rw_access_update,
      json_field ''refresh_token'' decode_string rw_refresh rw_refresh_update,
      json_field ''token_type'' decode_string rw_type rw_type_update,
      json_field ''expires_in'' decode_int rw_expires_in rw_expires_in_update,
      json_field ''scope'' decode_string rw_scope rw_scope_update,
      json_field ''id_token'' decode_string rw_id_token rw_id_token_update,
      json_field ''error'' decode_string rw_error rw_error_update,
      json_field ''error_description'' decode_string rw_error_desc rw_error_desc_update]"

text \<open>The product of a number of seconds and a second wraps around like any \<open>time.Duration\<close>.\<close>

definition parse_token_response :: "json option \<Rightarrow> time \<Rightarrow> string + token_response" where
  "parse_token_response body now =
     (case unmarshal_value decode_raw_token zero_raw_token body of
        None \<Rightarrow> Inl ''parsing token response''
      | Some raw \<Rightarrow>
          if rw_error raw \<noteq> [] then Inl (''oauth error: '' @ (if rw_error_desc raw = [] then rw_error raw else rw_error_desc raw))
          else if rw_access raw = [] then Inl ''no access token in response''
          else Inr \<lparr>tk_access = rw_access raw, tk_refresh = rw_refresh raw, tk_type = rw_type raw,
                 tk_expires_in = rw_expires_in raw,
                 tk_expires_at = (if rw_expires_in raw > 0 then Some (now + int64 (rw_expires_in raw * second)) else None),
                 tk_scope = rw_scope raw, tk_id_token = rw_id_token raw, tk_provider = [], tk_user = []\<rparr>)"

section \<open>The service\<close>

datatype post_reply = PostFailed string | PostReply int string

record 'w oauth_service =
  sv_registry :: provider_registry
  sv_post :: "string \<Rightarrow> (string \<times> string) list \<Rightarrow> 'w \<Rightarrow> post_reply \<times> 'w"
  sv_json :: "string \<Rightarrow> json option"
  sv_challenge :: "string \<Rightarrow> string"
  sv_order :: "string list \<Rightarrow> string list"

definition join_scopes :: "string list \<Rightarrow> string" where
  "join_scopes scopes = concat (map2 (@) (map (\<lambda>i. if i = 0 then [] else '' '') [0..<length scopes]) scopes)"

text \<open>Setting a parameter replaces the value it had.\<close>

definition set_param :: "string \<times> string \<Rightarrow> (string \<times> string) list \<Rightarrow> (string \<times> string) list" where
  "set_param kv params = filter (\<lambda>p. fst p \<noteq> fst kv) params @ [kv]"

text \<open>The parameters of the authorization URL, whose encoding is a library function.\<close>

definition auth_url_params :: "provider \<Rightarrow> string \<Rightarrow> string \<Rightarrow> string \<Rightarrow> (string \<times> string) list" where
  "auth_url_params p state scopes challenge =
     (let params = [(''response_type'', ''code''), (''client_id'', pv_client_id p), (''redirect_uri'', pv_redirect_url p),
                    (''scope'', scopes), (''state'', state)];
          params = (if pv_use_pkce p \<and> challenge \<noteq> []
                    then set_param (''code_challenge_method'', ''S256'') (set_param (''code_challenge'', challenge) params)
                    else params)
      in fold set_param (pv_extra_params p) params)"

record start_flow_result =
  sf_params :: "(string \<times> string) list"
  sf_state :: string
  sf_provider :: string

text \<open>\<open>StartFlow\<close>; the token, the verifier and the identifier are \<open>None\<close> where the random source
  fails.\<close>

definition start_flow ::
  "'w oauth_service \<Rightarrow> string \<Rightarrow> string \<Rightarrow> string list \<Rightarrow> string \<Rightarrow> string option \<Rightarrow> string option \<Rightarrow> string option
     \<Rightarrow> time \<Rightarrow> oauth_state list \<Rightarrow> (oauth_error + start_flow_result) \<times> oauth_state list" where
  "start_flow sv userID providerID scopes redirectAfter token verifier newID now tbl =
     (if userID = [] then (Inl (MissingField ''user''), tbl)
      else if providerID = [] then (Inl (MissingField ''provider''), tbl)
      else
        case sv_registry sv providerID of
          None \<Rightarrow> (Inl (ProviderNotFound providerID), tbl)
        | Some p \<Rightarrow>
            (case token of
               None \<Rightarrow> (Inl RandomFailed, tbl)
             | Some tok \<Rightarrow>
                 let scopeStr = join_scopes (sv_order sv (remdups (pv_scopes p @ scopes))) in
                 case (if pv_use_pkce p then verifier else Some []) of
                   None \<Rightarrow> (Inl RandomFailed, tbl)
                 | Some v \<Rightarrow>
                     (case newID of
                        None \<Rightarrow> (Inl RandomFailed, tbl)
                      | Some i \<Rightarrow>
                          (case state_create tbl
                                  \<lparr>os_id = i, os_user = userID, os_provider = providerID, os_state = tok, os_verifier = v,
                                   os_redirect = redirectAfter, os_scopes = scopeStr, os_created = now,
                                   os_expires = now + state_ttl, os_used = False\<rparr> of
                             Inl e \<Rightarrow> (Inl e, tbl)
                           | Inr tbl' \<Rightarrow>
                               (Inr \<lparr>sf_params = auth_url_params p tok scopeStr (if pv_use_pkce p then sv_challenge sv v else []),
                                     sf_state = tok, sf_provider = providerID\<rparr>, tbl')))))"

definition token_request ::
  "'w oauth_service \<Rightarrow> string \<Rightarrow> provider \<Rightarrow> (string \<times> string) list \<Rightarrow> time \<Rightarrow> 'w \<Rightarrow> (string + token_response) \<times> 'w" where
  "token_request sv what p form now w =
     (case sv_post sv (pv_token_url p) form w of
        (PostFailed text, w) \<Rightarrow> (Inl text, w)
      | (PostReply status body, w) \<Rightarrow>
          if status \<noteq> 200 then (Inl (what @ '' failed (HTTP '' @ decimal (nat status) @ ''): '' @ body), w) else (parse_token_response (sv_json sv body) now, w))"

definition exchange_form :: "provider \<Rightarrow> string \<Rightarrow> string \<Rightarrow> (string \<times> string) list" where
  "exchange_form p code verifier =
     [(''grant_type'', ''authorization_code''), (''code'', code), (''redirect_uri'', pv_redirect_url p),
      (''client_id'', pv_client_id p)]
     @ (if pv_client_secret p \<noteq> [] then [(''client_secret'', pv_client_secret p)] else [])
     @ (if verifier \<noteq> [] then [(''code_verifier'', verifier)] else [])"

text \<open>\<open>HandleCallback\<close> in the two parts between which another callback may run: looking the flow up
  and checking it, and then marking it and exchanging the code.\<close>

definition callback_check :: "oauth_state list \<Rightarrow> string \<Rightarrow> string \<Rightarrow> time \<Rightarrow> oauth_error + oauth_state" where
  "callback_check tbl token code now =
     (if token = [] then Inl (MissingField ''state'')
      else if code = [] then Inl (MissingField ''code'')
      else
        case state_get tbl token of
          Inl e \<Rightarrow> Inl e
        | Inr None \<Rightarrow> Inl UnknownState
        | Inr (Some st) \<Rightarrow>
            if now > os_expires st then Inl StateExpired
            else if os_used st then Inl StateUsed
            else Inr st)"

definition callback_finish ::
  "'w oauth_service \<Rightarrow> oauth_state \<Rightarrow> string \<Rightarrow> time \<Rightarrow> oauth_state list \<Rightarrow> 'w
     \<Rightarrow> (oauth_error + token_response) \<times> oauth_state list \<times> 'w" where
  "callback_finish sv st code now tbl w =
     (case state_mark_used tbl (os_id st) of
        Inl e \<Rightarrow> (Inl e, tbl, w)
      | Inr tbl \<Rightarrow>
          (case sv_registry sv (os_provider st) of
             None \<Rightarrow> (Inl (ProviderNotFound (os_provider st)), tbl, w)
           | Some p \<Rightarrow>
               (case token_request sv ''token exchange'' p (exchange_form p code (os_verifier st)) now w of
                  (Inl e, w) \<Rightarrow> (Inl (ExchangeFailed e), tbl, w)
                | (Inr resp, w) \<Rightarrow> (Inr (resp\<lparr>tk_provider := os_provider st, tk_user := os_user st\<rparr>), tbl, w))))"

definition handle_callback ::
  "'w oauth_service \<Rightarrow> string \<Rightarrow> string \<Rightarrow> time \<Rightarrow> oauth_state list \<Rightarrow> 'w
     \<Rightarrow> (oauth_error + token_response) \<times> oauth_state list \<times> 'w" where
  "handle_callback sv token code now tbl w =
     (case callback_check tbl token code now of
        Inl e \<Rightarrow> (Inl e, tbl, w)
      | Inr st \<Rightarrow> callback_finish sv st code now tbl w)"

definition refresh_token :: "'w oauth_service \<Rightarrow> string \<Rightarrow> string \<Rightarrow> time \<Rightarrow> 'w \<Rightarrow> (oauth_error + token_response) \<times> 'w" where
  "refresh_token sv providerID refresh now w =
     (if providerID = [] then (Inl (MissingField ''provider''), w)
      else if refresh = [] then (Inl (MissingField ''refresh token''), w)
      else
        case sv_registry sv providerID of
          None \<Rightarrow> (Inl (ProviderNotFound providerID), w)
        | Some p \<Rightarrow>
            (case token_request sv ''token refresh'' p
                    ([(''grant_type'', ''refresh_token''), (''refresh_token'', refresh), (''client_id'', pv_client_id p)]
                     @ (if pv_client_secret p \<noteq> [] then [(''client_secret'', pv_client_secret p)] else [])) now w of
               (Inl e, w) \<Rightarrow> (Inl (ExchangeFailed e), w)
             | (Inr resp, w) \<Rightarrow>
                 (Inr (resp\<lparr>tk_refresh := (if tk_refresh resp = [] then refresh else tk_refresh resp),
                            tk_provider := providerID\<rparr>), w)))"

section \<open>The endpoints\<close>

datatype 'a http_answer = HttpError int string | HttpOk 'a

definition handle_authorize ::
  "'w oauth_service \<Rightarrow> string \<Rightarrow> (string \<times> string list \<times> string) option \<Rightarrow> string option \<Rightarrow> string option \<Rightarrow> string option
     \<Rightarrow> time \<Rightarrow> oauth_state list \<Rightarrow> start_flow_result http_answer \<times> oauth_state list" where
  "handle_authorize sv userID body token verifier newID now tbl =
     (if userID = [] then (HttpError 401 ''unauthorized'', tbl)
      else
        case body of
          None \<Rightarrow> (HttpError 400 ''invalid_json'', tbl)
        | Some (providerID, scopes, redirect) \<Rightarrow>
            if providerID = [] then (HttpError 400 ''missing_provider'', tbl)
            else
              (case start_flow sv userID providerID scopes redirect token verifier newID now tbl of
                 (Inl (ProviderNotFound _), tbl) \<Rightarrow> (HttpError 404 ''provider_not_found'', tbl)
               | (Inl _, tbl) \<Rightarrow> (HttpError 500 ''flow_start_failed'', tbl)
               | (Inr r, tbl) \<Rightarrow> (HttpOk r, tbl)))"

text \<open>The three query parameters of a callback are empty where they are absent.\<close>

definition blames_state :: "string \<Rightarrow> bool" where
  "blames_state text \<longleftrightarrow> contains text ''invalid or unknown'' \<or> contains text ''expired'' \<or> contains text ''already used''"

definition callback_status :: "oauth_error \<Rightarrow> int \<times> string" where
  "callback_status e =
     (if (case e of UnknownState \<Rightarrow> True | StateExpired \<Rightarrow> True | StateUsed \<Rightarrow> True
          | ExchangeFailed text \<Rightarrow> blames_state text | ProviderNotFound i \<Rightarrow> blames_state i | _ \<Rightarrow> False)
      then (400, ''invalid_state'') else (500, ''callback_failed''))"

definition handle_oauth_callback ::
  "'w oauth_service \<Rightarrow> string \<Rightarrow> string \<Rightarrow> string \<Rightarrow> time \<Rightarrow> oauth_state list \<Rightarrow> 'w
     \<Rightarrow> token_response http_answer \<times> oauth_state list \<times> 'w" where
  "handle_oauth_callback sv state code errParam now tbl w =
     (if errParam \<noteq> [] then (HttpError 400 ''provider_error'', tbl, w)
      else if state = [] then (HttpError 400 ''missing_state'', tbl, w)
      else if code = [] then (HttpError 400 ''missing_code'', tbl, w)
      else
        case handle_callback sv state code now tbl w of
          (Inl e, tbl, w) \<Rightarrow> (case callback_status e of (status, text) \<Rightarrow> (HttpError status text, tbl, w))
        | (Inr resp, tbl, w) \<Rightarrow> (HttpOk resp, tbl, w))"

definition handle_refresh ::
  "'w oauth_service \<Rightarrow> string \<Rightarrow> (string \<times> string) option \<Rightarrow> time \<Rightarrow> 'w \<Rightarrow> token_response http_answer \<times> 'w" where
  "handle_refresh sv userID body now w =
     (if userID = [] then (HttpError 401 ''unauthorized'', w)
      else
        case body of
          None \<Rightarrow> (HttpError 400 ''invalid_json'', w)
        | Some (providerID, refresh) \<Rightarrow>
            if providerID = [] then (HttpError 400 ''missing_provider'', w)
            else if refresh = [] then (HttpError 400 ''missing_refresh_token'', w)
            else
              (case refresh_token sv providerID refresh now w of
                 (Inl (ProviderNotFound _), w) \<Rightarrow> (HttpError 404 ''provider_not_found'', w)
               | (Inl (ExchangeFailed text), w) \<Rightarrow>
                   (HttpError (if contains text ''not found'' then 404 else 502)
                      (if contains text ''not found'' then ''provider_not_found'' else ''refresh_failed''), w)
               | (Inl _, w) \<Rightarrow> (HttpError 502 ''refresh_failed'', w)
               | (Inr resp, w) \<Rightarrow> (HttpOk (resp\<lparr>tk_user := userID\<rparr>), w)))"
section \<open>Runs of the flow\<close>

text \<open>Flows that are started, callbacks and sweeps of the table, in any order, with their times. A callback is checked and
  finished in two operations, between which others may come, callbacks as well. A run keeps the callbacks that are
  checked and not finished (token, code, flow, time of the check), what was issued (token, user, provider, time), and
  the callbacks that sent their code to the provider (token, result, time of the check).\<close>

datatype oauth_op =
    StartOp string string "string list" string "string option" "string option" "string option"
  | CheckOp string string
  | FinishOp nat
  | SweepOp

definition exchanged :: "oauth_error + token_response \<Rightarrow> bool" where
  "exchanged r \<longleftrightarrow> (case r of Inr _ \<Rightarrow> True | Inl (ExchangeFailed _) \<Rightarrow> True | _ \<Rightarrow> False)"

type_synonym 'w oauth_run =
  "oauth_state list \<times> 'w \<times> (string \<times> string \<times> oauth_state \<times> time) list
     \<times> (string \<times> string \<times> string \<times> time) list \<times> (string \<times> (oauth_error + token_response) \<times> time) list"

fun oauth_step :: "'w oauth_service \<Rightarrow> oauth_op \<times> time \<Rightarrow> 'w oauth_run \<Rightarrow> 'w oauth_run" where
  "oauth_step sv (StartOp user prov scopes redirect token verifier i, now) (tbl, w, pend, issued, exch) =
     (case start_flow sv user prov scopes redirect token verifier i now tbl of
        (Inl _, tbl') \<Rightarrow> (tbl', w, pend, issued, exch)
      | (Inr r, tbl') \<Rightarrow> (tbl', w, pend, issued @ [(sf_state r, user, prov, now)], exch))"
| "oauth_step sv (CheckOp token code, now) (tbl, w, pend, issued, exch) =
     (case callback_check tbl token code now of
        Inl _ \<Rightarrow> (tbl, w, pend, issued, exch)
      | Inr st \<Rightarrow> (tbl, w, pend @ [(token, code, st, now)], issued, exch))"
| "oauth_step sv (FinishOp n, now) (tbl, w, pend, issued, exch) =
     (if length pend \<le> n then (tbl, w, pend, issued, exch)
      else
        case pend ! n of
          (token, code, st, t) \<Rightarrow>
            (case callback_finish sv st code now tbl w of
               (r, tbl', w') \<Rightarrow> (tbl', w', take n pend @ drop (Suc n) pend, issued,
                 if exchanged r then exch @ [(token, r, t)] else exch)))"
| "oauth_step sv (SweepOp, now) (tbl, w, pend, issued, exch) = (state_delete_expired tbl now, w, pend, issued, exch)"

definition oauth_run :: "'w oauth_service \<Rightarrow> (oauth_op \<times> time) list \<Rightarrow> 'w \<Rightarrow> 'w oauth_run" where
  "oauth_run sv ops w = fold (oauth_step sv) ops ([], w, [], [], [])"

text \<open>No callback is checked while another one with the same token is between its check and its end.\<close>

fun serial_callbacks :: "'w oauth_service \<Rightarrow> (oauth_op \<times> time) list \<Rightarrow> 'w oauth_run \<Rightarrow> bool" where
  "serial_callbacks sv [] run \<longleftrightarrow> True"
| "serial_callbacks sv (op # ops) run \<longleftrightarrow>
     (case (fst op, run) of (CheckOp token code, (tbl, w, pend, issued, exch)) \<Rightarrow> token \<notin> fst ` set pend | _ \<Rightarrow> True)
     \<and> serial_callbacks sv ops (oauth_step sv op run)"

definition op_tokens :: "(oauth_op \<times> time) list \<Rightarrow> string list" where
  "op_tokens ops = concat (map (\<lambda>(op, _). case op of StartOp _ _ _ _ (Some token) _ _ \<Rightarrow> [token] | _ \<Rightarrow> []) ops)"

section \<open>Lemmas\<close>

lemma start_flow_result:
  assumes "start_flow sv user prov scopes redirect token verifier i now tbl = (r, tbl')"
  shows "tbl' = tbl \<and> isl r \<or> (\<exists>st res. token = Some (os_state st) \<and> r = Inr res \<and> sf_state res = os_state st \<and> tbl' = tbl @ [st]
    \<and> os_user st = user \<and> os_provider st = prov \<and> os_created st = now \<and> os_expires st = now + state_ttl \<and> \<not> os_used st
    \<and> os_id st \<notin> os_id ` set tbl \<and> os_state st \<notin> os_state ` set tbl)"
  using assms
  by (auto simp: start_flow_def state_create_def Let_def list_ex_iff split: if_splits option.splits sum.splits)

lemma mark_used_rows:
  assumes "state_mark_used tbl i = Inr tbl'"
  shows "tbl' = map (\<lambda>r. if os_id r = i then r\<lparr>os_used := True\<rparr> else r) tbl"
  using assms by (auto simp: state_mark_used_def split: if_splits)

lemma callback_check_row:
  assumes "callback_check tbl token code now = Inr st"
  shows "st \<in> set tbl \<and> os_state st = token \<and> \<not> os_used st \<and> now \<le> os_expires st"
  using assms
  by (auto simp: callback_check_def state_get_def split: if_splits sum.splits option.splits dest: find_Some_set)

lemma callback_finish_result:
  assumes "callback_finish sv st code now tbl w = (r, tbl', w')"
  shows "(tbl' = tbl \<and> \<not> exchanged r \<or> tbl' = map (\<lambda>q. if os_id q = os_id st then q\<lparr>os_used := True\<rparr> else q) tbl)
    \<and> (\<forall>resp. r = Inr resp \<longrightarrow> tk_user resp = os_user st \<and> tk_provider resp = os_provider st)"
  using assms mark_used_rows
  by (auto simp: callback_finish_def exchanged_def state_mark_used_def split: sum.splits option.splits prod.splits if_splits)

definition exchange_ok ::
  "(string \<times> string \<times> string \<times> time) list \<Rightarrow> string \<times> (oauth_error + token_response) \<times> time \<Rightarrow> bool" where
  "exchange_ok issued e \<longleftrightarrow> (case e of (token, r, t) \<Rightarrow> \<exists>user prov t0. (token, user, prov, t0) \<in> set issued
     \<and> t \<le> t0 + state_ttl \<and> (case r of Inl _ \<Rightarrow> True | Inr resp \<Rightarrow> tk_user resp = user \<and> tk_provider resp = prov))"

lemma exchange_ok_mono: "list_all (exchange_ok issued) exch \<Longrightarrow> list_all (exchange_ok (issued @ later)) exch"
  by (fastforce simp: exchange_ok_def list_all_iff)

text \<open>What a run keeps; \<open>ser\<close>: when no two callbacks of one token have overlapped.\<close>

definition row_ok :: "(string \<times> string \<times> string \<times> time) list \<Rightarrow> oauth_state \<Rightarrow> bool" where
  "row_ok issued r \<longleftrightarrow> (os_state r, os_user r, os_provider r, os_expires r - state_ttl) \<in> set issued"

definition pending_ok :: "oauth_state list \<Rightarrow> (string \<times> string \<times> string \<times> time) list \<Rightarrow> string \<times> string \<times> oauth_state \<times> time \<Rightarrow> bool" where
  "pending_ok tbl issued p \<longleftrightarrow> (case p of (token, code, st, t) \<Rightarrow>
     (\<exists>t0. (token, os_user st, os_provider st, t0) \<in> set issued \<and> t \<le> t0 + state_ttl)
     \<and> (\<forall>q \<in> set tbl. os_state q = token \<longrightarrow> os_id q = os_id st))"

definition flow_ok :: "bool \<Rightarrow> string list \<Rightarrow> 'w oauth_run \<Rightarrow> bool" where
  "flow_ok ser used run \<longleftrightarrow> (case run of (tbl, w, pend, issued, exch) \<Rightarrow>
     distinct (map os_id tbl) \<and> distinct (map os_state tbl)
     \<and> fst ` set issued \<subseteq> set used \<and> fst ` set exch \<subseteq> fst ` set issued
     \<and> list_all (row_ok issued) tbl \<and> list_all (exchange_ok issued) exch \<and> list_all (pending_ok tbl issued) pend
     \<and> (ser \<longrightarrow> distinct (map fst exch) \<and> distinct (map fst pend) \<and> fst ` set pend \<inter> fst ` set exch = {}
          \<and> (\<forall>r \<in> set tbl. os_state r \<in> fst ` set exch \<longrightarrow> os_used r)))"

lemma flow_ok_world: "flow_ok ser used (tbl, w, pend, issued, exch) = flow_ok ser used (tbl, w', pend, issued, exch)"
  by (simp only: flow_ok_def prod.case)

lemma pending_ok_rows:
  assumes "pending_ok tbl issued p" and "\<And>q. q \<in> set tbl' \<Longrightarrow> \<exists>q0 \<in> set tbl. os_state q0 = os_state q \<and> os_id q0 = os_id q"
  shows "pending_ok tbl' issued p"
proof -
  obtain token code st t where p: "p = (token, code, st, t)" by (metis prod_cases4)
  have "os_id q = os_id st" if "q \<in> set tbl'" "os_state q = token" for q
    using assms(2) [OF that(1)] that(2) assms(1) by (auto simp: pending_ok_def p)
  then show ?thesis using assms(1) by (auto simp: pending_ok_def p)
qed

lemma flow_ok_mark:
  assumes "flow_ok ser used (tbl, w, pend, issued, exch)"
  shows "flow_ok ser used (map (\<lambda>q. if os_id q = i then q\<lparr>os_used := True\<rparr> else q) tbl, w', pend, issued, exch)"
proof -
  let ?mark = "\<lambda>q. if os_id q = i then q\<lparr>os_used := True\<rparr> else q"
  have same: "map os_id (map ?mark tbl) = map os_id tbl" "map os_state (map ?mark tbl) = map os_state tbl" by auto
  have rows: "\<exists>q0 \<in> set tbl. os_state q0 = os_state q \<and> os_id q0 = os_id q" if "q \<in> set (map ?mark tbl)" for q
    using that by (auto split: if_splits)
  have "list_all (pending_ok tbl issued) pend" using assms by (simp add: flow_ok_def)
  then have p: "list_all (pending_ok (map ?mark tbl) issued) pend"
    by (rule list.pred_mono_strong) (rule pending_ok_rows [OF _ rows])
  have q: "list_all (row_ok issued) (map ?mark tbl)"
    using assms by (auto simp: flow_ok_def list_all_iff row_ok_def)
  have u: "ser \<Longrightarrow> \<forall>r \<in> set (map ?mark tbl). os_state r \<in> fst ` set exch \<longrightarrow> os_used r"
    using assms by (auto simp: flow_ok_def)
  show ?thesis
    unfolding flow_ok_def prod.case same
    by (intro conjI impI p q u) (use assms in \<open>simp_all add: flow_ok_def\<close>)
qed

lemma flow_ok_drop:
  assumes "flow_ok ser used (tbl, w, pend, issued, exch)"
  shows "flow_ok ser used (tbl, w, take n pend @ drop (Suc n) pend, issued, exch)"
proof -
  let ?pend = "take n pend @ drop (Suc n) pend"
  have sub: "set ?pend \<subseteq> set pend" by (auto dest: in_set_takeD in_set_dropD)
  then have rest: "list_all P pend \<Longrightarrow> list_all P ?pend" "fst ` set ?pend \<subseteq> fst ` set pend" for P
    unfolding list_all_iff by blast+
  have "distinct (map fst (take n pend @ drop (Suc n) pend))" if "distinct (map fst pend)"
  proof (cases "n < length pend")
    case True
    then have "map fst pend = map fst (take n pend) @ fst (pend ! n) # map fst (drop (Suc n) pend)"
      by (metis id_take_nth_drop list.simps(9) map_append)
    with that show ?thesis by simp
  qed (use that in simp)
  then show ?thesis using assms rest unfolding flow_ok_def prod.case by fast
qed

lemma flow_ok_exchange:
  assumes "flow_ok ser used (tbl, w, pend, issued, exch)" and "exchange_ok issued (token, r, t)"
    and "ser \<Longrightarrow> token \<notin> fst ` set exch" and "ser \<Longrightarrow> token \<notin> fst ` set pend"
    and "token \<in> fst ` set issued" and "\<And>q. q \<in> set tbl \<Longrightarrow> os_state q = token \<Longrightarrow> os_used q"
  shows "flow_ok ser used (tbl, w, pend, issued, exch @ [(token, r, t)])"
  using assms by (auto simp: flow_ok_def)

lemma step_start:
  assumes "flow_ok ser used (tbl, w, pend, issued, exch)" and "\<And>t. token = Some t \<Longrightarrow> t \<notin> set used"
  shows "flow_ok ser (used @ (case token of Some t \<Rightarrow> [t] | None \<Rightarrow> []))
    (oauth_step sv (StartOp user prov scopes redirect token verifier i, now) (tbl, w, pend, issued, exch))"
proof -
  obtain r tbl' where sf: "start_flow sv user prov scopes redirect token verifier i now tbl = (r, tbl')" by fastforce
  from start_flow_result [OF sf] show ?thesis
  proof (elim disjE exE conjE)
    assume "tbl' = tbl" "isl r"
    then show ?thesis using assms(1) sf by (cases r) (auto simp: flow_ok_def split: option.splits)
  next
    fix st res
    assume st: "token = Some (os_state st)" "r = Inr res" "sf_state res = os_state st" "tbl' = tbl @ [st]"
      "os_user st = user" "os_provider st = prov" "os_created st = now" "os_expires st = now + state_ttl" "\<not> os_used st"
      "os_id st \<notin> os_id ` set tbl" "os_state st \<notin> os_state ` set tbl"
    let ?issued = "issued @ [(os_state st, user, prov, now)]"
    have fresh: "os_state st \<notin> set used" using assms(2) [OF st(1)] .
    have "fst ` set issued \<subseteq> set used" "fst ` set exch \<subseteq> fst ` set issued" using assms(1) unfolding flow_ok_def prod.case by blast+
    with fresh have new: "os_state st \<notin> fst ` set issued" "os_state st \<notin> fst ` set exch" by blast+
    have "pending_ok (tbl @ [st]) ?issued p" if "pending_ok tbl issued p" for p
      using that new(1) by (auto simp: pending_ok_def split: prod.splits) (force+)?
    then have "list_all (pending_ok (tbl @ [st]) ?issued) pend"
      using assms(1) by (simp add: flow_ok_def list_all_iff)
    moreover have "list_all (exchange_ok ?issued) exch" using assms(1) exchange_ok_mono by (auto simp: flow_ok_def)
    moreover have "list_all (row_ok ?issued) (tbl @ [st])" using assms(1) st by (auto simp: flow_ok_def row_ok_def list_all_iff)
    ultimately show ?thesis
      using assms(1) sf st new unfolding flow_ok_def by auto
  qed
qed

lemma step_check:
  assumes "flow_ok ser used (tbl, w, pend, issued, exch)" and "ser \<Longrightarrow> token \<notin> fst ` set pend"
  shows "flow_ok ser used (oauth_step sv (CheckOp token code, now) (tbl, w, pend, issued, exch))"
proof (cases "callback_check tbl token code now")
  case (Inl e)
  then show ?thesis using assms(1) by simp
next
  case (Inr st)
  note st = callback_check_row [OF Inr]
  have "(token, os_user st, os_provider st, os_expires st - state_ttl) \<in> set issued"
    using assms(1) st by (auto simp: flow_ok_def list_all_iff row_ok_def)
  moreover have "q = st" if "q \<in> set tbl" "os_state q = token" for q
    using assms(1) st that by (auto simp: flow_ok_def distinct_map dest: inj_onD)
  ultimately have "pending_ok tbl issued (token, code, st, now)"
    using st by (auto simp: pending_ok_def intro!: exI [of _ "os_expires st - state_ttl"])
  moreover have "ser \<Longrightarrow> token \<notin> fst ` set exch" using assms(1) st by (auto simp: flow_ok_def)
  ultimately show ?thesis using assms Inr by (auto simp: flow_ok_def)
qed

lemma step_finish:
  assumes "flow_ok ser used (tbl, w, pend, issued, exch)"
  shows "flow_ok ser used (oauth_step sv (FinishOp n, now) (tbl, w, pend, issued, exch))"
proof (cases "length pend \<le> n")
  case True
  then show ?thesis using assms by simp
next
  case False
  obtain token code st t where p: "pend ! n = (token, code, st, t)" by (metis prod_cases4)
  let ?pend = "take n pend @ drop (Suc n) pend"
  obtain r tbl' w' where f: "callback_finish sv st code now tbl w = (r, tbl', w')" by (metis prod_cases3)
  then have step: "oauth_step sv (FinishOp n, now) (tbl, w, pend, issued, exch)
      = (tbl', w', ?pend, issued, if exchanged r then exch @ [(token, r, t)] else exch)"
    using False p by simp
  let ?mark = "\<lambda>q. if os_id q = os_id st then q\<lparr>os_used := True\<rparr> else q"
  have dropped: "flow_ok ser used (tbl, w', ?pend, issued, exch)"
    by (rule iffD1 [OF flow_ok_world flow_ok_drop [OF assms]])
  have marked: "flow_ok ser used (map ?mark tbl, w', ?pend, issued, exch)" by (rule flow_ok_mark [OF dropped])
  show ?thesis
  proof (cases "exchanged r")
    case no: False
    then have "tbl' = tbl \<or> tbl' = map ?mark tbl" using callback_finish_result [OF f] by auto
    with dropped marked no show ?thesis unfolding step by (elim disjE) simp_all
  next
    case True
    then have tbl': "tbl' = map ?mark tbl" and resp: "\<And>resp. r = Inr resp \<Longrightarrow> tk_user resp = os_user st \<and> tk_provider resp = os_provider st"
      using callback_finish_result [OF f] by auto
    have member: "(token, code, st, t) \<in> set pend" using False p by (metis not_le nth_mem)
    then have pending: "pending_ok tbl issued (token, code, st, t)" using assms by (auto simp: flow_ok_def list_all_iff)
    then have "exchange_ok issued (token, r, t)"
      using resp by (force simp: exchange_ok_def pending_ok_def split: sum.split)
    moreover have "ser \<Longrightarrow> token \<notin> fst ` set exch"
    proof -
      assume ser
      then have "fst ` set pend \<inter> fst ` set exch = {}" using assms by (simp add: flow_ok_def)
      moreover have "token \<in> fst ` set pend" using imageI [OF member, of fst] by simp
      ultimately show "token \<notin> fst ` set exch" by blast
    qed
    moreover have "ser \<Longrightarrow> token \<notin> fst ` set ?pend"
    proof -
      assume ser
      then have "distinct (map fst pend)" using assms by (simp add: flow_ok_def)
      moreover have "map fst pend = map fst (take n pend) @ token # map fst (drop (Suc n) pend)"
        using False p by (metis fst_conv id_take_nth_drop list.simps(9) map_append not_le)
      ultimately have "token \<notin> set (map fst ?pend)" by simp
      then show "token \<notin> fst ` set ?pend" unfolding set_map .
    qed
    moreover have "token \<in> fst ` set issued" using pending by (force simp: pending_ok_def)
    moreover have "os_used q" if "q \<in> set tbl'" "os_state q = token" for q
      using that pending by (auto simp: tbl' pending_ok_def split: if_splits)
    ultimately have "flow_ok ser used (tbl', w', ?pend, issued, exch @ [(token, r, t)])"
      using flow_ok_exchange [OF marked [folded tbl']] by blast
    then show ?thesis unfolding step by (simp add: True)
  qed
qed

lemma step_sweep:
  assumes "flow_ok ser used (tbl, w, pend, issued, exch)"
  shows "flow_ok ser used (oauth_step sv (SweepOp, now) (tbl, w, pend, issued, exch))"
proof -
  have sub: "set (state_delete_expired tbl now) \<subseteq> set tbl" by (auto simp: state_delete_expired_def)
  have "pending_ok (state_delete_expired tbl now) issued p" if "pending_ok tbl issued p" for p
    by (rule pending_ok_rows [OF that]) (use sub in blast)
  then show ?thesis using assms sub
    by (auto simp: flow_ok_def list_all_iff) (auto simp: state_delete_expired_def distinct_map_filter)
qed

lemma run_ok:
  assumes "distinct (used @ op_tokens ops)" and "flow_ok ser used run" and "ser \<Longrightarrow> serial_callbacks sv ops run"
  shows "flow_ok ser (used @ op_tokens ops) (fold (oauth_step sv) ops run)"
  using assms
proof (induction ops arbitrary: used run)
  case Nil
  then show ?case by (simp add: op_tokens_def)
next
  case (Cons op ops)
  obtain o' now where op: "op = (o', now)" by fastforce
  obtain tbl w pend issued exch where run: "run = (tbl, w, pend, issued, exch)" by (metis prod_cases5)
  let ?new = "op_tokens [op]"
  have tokens: "op_tokens (op # ops) = ?new @ op_tokens ops" by (simp add: op_tokens_def)
  have "flow_ok ser (used @ ?new) (oauth_step sv op run)"
  proof (cases o')
    case (StartOp user prov scopes redirect token verifier i)
    have "t \<notin> set used" if "token = Some t" for t using Cons.prems(1) that StartOp op by (auto simp: op_tokens_def)
    then show ?thesis using step_start [OF Cons.prems(2) [unfolded run]] StartOp op run
      by (auto simp: op_tokens_def split: option.splits)
  next
    case (CheckOp token code)
    have "token \<notin> fst ` set pend" if ser using Cons.prems(3) [OF that] by (simp add: op run CheckOp)
    from step_check [OF Cons.prems(2) [unfolded run] this] show ?thesis
      by (simp add: op_tokens_def op run CheckOp del: oauth_step.simps)
  qed (use step_finish step_sweep Cons.prems(2) op run in \<open>simp_all add: op_tokens_def del: oauth_step.simps\<close>)
  from Cons.IH [OF _ this] Cons.prems(1,3) show ?case by (simp add: tokens)
qed

text \<open>A callback whose two parts follow one another is \<open>HandleCallback\<close>.\<close>

lemma uninterrupted_callback:
  "oauth_step sv (FinishOp (length pend), now) (oauth_step sv (CheckOp token code, now) (tbl, w, pend, issued, exch))
   = (case handle_callback sv token code now tbl w of
        (r, tbl', w') \<Rightarrow> (tbl', w', pend, issued, if exchanged r then exch @ [(token, r, now)] else exch))"
proof (cases "callback_check tbl token code now")
  case (Inl e)
  then have "\<not> exchanged (Inl e :: oauth_error + token_response)"
    by (auto simp: exchanged_def callback_check_def state_get_def split: if_splits sum.splits option.splits oauth_error.splits)
  with Inl show ?thesis by (simp add: handle_callback_def)
next
  case (Inr st)
  then show ?thesis by (simp add: handle_callback_def split: prod.split)
qed

lemma callback_finish_exchanges:
  "state_mark_used tbl (os_id st) = Inr tbl' \<Longrightarrow> sv_registry sv (os_provider st) = Some p
     \<Longrightarrow> callback_finish sv st code now tbl w = (r, tbl2, w2) \<Longrightarrow> exchanged r \<and> tbl2 = tbl'"
  by (auto simp: callback_finish_def exchanged_def split: prod.splits sum.splits)

section \<open>Properties\<close>

text \<open>Property C9: In any run of flows, callbacks and sweeps in which no two flows draw the same token, whatever comes between
  the check of a callback and its end, a callback that sends its code to the provider has passed its check at most ten
  minutes after a flow was started with its token, and what it gets is for the user and the provider of that flow. If no
  two callbacks of one token overlap, at most one callback per token sends its code.\<close>

theorem oauth_state_single_use:
  assumes "distinct (op_tokens ops)" and "oauth_run sv ops w0 = (tbl, w, pend, issued, exch)"
  shows "list_all (\<lambda>(token, r, t). \<exists>user prov t0. (token, user, prov, t0) \<in> set issued
      \<and> t \<le> t0 + 10 * minute \<and> (case r of Inl _ \<Rightarrow> True | Inr resp \<Rightarrow> tk_user resp = user \<and> tk_provider resp = prov)) exch
    \<and> (serial_callbacks sv ops ([], w0, [], [], []) \<longrightarrow> distinct (map fst exch))"
proof -
  have init: "flow_ok ser [] ([], w0, [], [], [])" for ser by (simp add: flow_ok_def)
  have run: "flow_ok ser (op_tokens ops) (tbl, w, pend, issued, exch)"
    if "ser \<Longrightarrow> serial_callbacks sv ops ([], w0, [], [], [])" for ser
    using run_ok [OF _ init that] assms by (simp add: oauth_run_def)
  have "list_all (exchange_ok issued) exch" using run [of False] by (simp add: flow_ok_def)
  moreover have "exchange_ok issued = (\<lambda>(token, r, t). \<exists>user prov t0. (token, user, prov, t0) \<in> set issued
      \<and> t \<le> t0 + 10 * minute \<and> (case r of Inl _ \<Rightarrow> True | Inr resp \<Rightarrow> tk_user resp = user \<and> tk_provider resp = prov))"
    by (simp add: fun_eq_iff exchange_ok_def state_ttl_def)
  moreover have "distinct (map fst exch)" if "serial_callbacks sv ops ([], w0, [], [], [])"
    using run [of True] that by (simp add: flow_ok_def)
  ultimately show ?thesis by simp
qed

text \<open>Marking a flow as used does not look at whether it is used already, so a token works twice
  when a second callback is checked before the first one has marked it: both send a code to the provider.\<close>

theorem concurrent_callbacks_both_exchange:
  assumes "callback_check tbl token code1 t1 = Inr st" and "callback_check tbl token code2 t2 = Inr st"
    and "os_id st \<noteq> []" and "sv_registry sv (os_provider st) = Some p"
    and "callback_finish sv st code1 t1 tbl w = (r1, tbl1, w1)"
    and "callback_finish sv st code2 t2 tbl1 w1 = (r2, tbl2, w2)"
  shows "exchanged r1 \<and> exchanged r2 \<and> fst (handle_callback sv token code2 t2 tbl1 w1) \<noteq> r2"
proof -
  have st: "st \<in> set tbl" using callback_check_row [OF assms(1)] by simp
  let ?mark = "\<lambda>q. if os_id q = os_id st then q\<lparr>os_used := True\<rparr> else q"
  have m1: "state_mark_used tbl (os_id st) = Inr (map ?mark tbl)"
    using assms(3) st by (auto simp: state_mark_used_def list_ex_iff)
  have "?mark st \<in> set (map ?mark tbl)" unfolding set_map by (rule imageI [OF st])
  then have "list_ex (\<lambda>r. os_id r = os_id st) (map ?mark tbl)" unfolding list_ex_iff by (rule bexI [rotated]) simp
  then have m2: "state_mark_used (map ?mark tbl) (os_id st) = Inr (map ?mark (map ?mark tbl))"
    using assms(3) unfolding state_mark_used_def by argo
  have r1: "exchanged r1" "tbl1 = map ?mark tbl" using callback_finish_exchanges [OF m1 assms(4,5)] by simp_all
  have r2: "exchanged r2" using callback_finish_exchanges [OF m2 assms(4) assms(6) [unfolded r1(2)]] by simp
  have found: "token \<noteq> []" "code2 \<noteq> []" "find (\<lambda>r. os_state r = token) tbl = Some st" "t2 \<le> os_expires st"
    using assms(2) by (auto simp: callback_check_def state_get_def split: if_splits option.splits)
  have "find (\<lambda>r. os_state r = token) (map ?mark tbl) = map_option ?mark (find (\<lambda>r. os_state r = token) tbl)"
    by (induction tbl) auto
  then have "callback_check tbl1 token code2 t2 = Inl StateUsed"
    using found r1(2) by (simp add: callback_check_def state_get_def)
  then have "\<not> exchanged (fst (handle_callback sv token code2 t2 tbl1 w1))"
    by (simp add: handle_callback_def exchanged_def)
  with r1 r2 show ?thesis by auto
qed


definition sample_provider :: provider where
  "sample_provider = \<lparr>pv_id = ''g'', pv_name = ''G'', pv_auth_url = ''a'', pv_token_url = ''t'', pv_client_id = ''c'',
     pv_client_secret = [], pv_scopes = [''s''], pv_redirect_url = ''r'', pv_use_pkce = True, pv_extra_params = []\<rparr>"

definition sample_oauth :: "unit oauth_service" where
  "sample_oauth = \<lparr>sv_registry = [''g'' \<mapsto> sample_provider], sv_post = (\<lambda>url form w. (PostReply 200 ''x'', w)),
     sv_json = (\<lambda>body. Some (JObject [(''access_token'', JString ''A''), (''expires_in'', JNumber ''60'')])),
     sv_challenge = (\<lambda>v. v), sv_order = (\<lambda>scopes. scopes)\<rparr>"

definition sample_ops :: "(oauth_op \<times> time) list" where
  "sample_ops = [(StartOp ''u'' ''g'' [] [] (Some ''k'') (Some ''v'') (Some ''1''), 0), (CheckOp ''k'' ''c'', 5),
     (StartOp ''u2'' ''g'' [] [] (Some ''k2'') (Some ''v2'') (Some ''2''), 5), (CheckOp ''k2'' ''c2'', 6), (FinishOp 0, 6),
     (CheckOp ''k'' ''c'', 7), (FinishOp 0, 8)]"

theorem oauth_state_single_use_witness:
  "case oauth_run sample_oauth sample_ops () of (tbl, w, pend, issued, exch) \<Rightarrow>
     length exch = 2 \<and> distinct (map fst exch) \<and> list_all (\<lambda>(token, r, t). \<exists>user prov t0. (token, user, prov, t0) \<in> set issued
       \<and> t \<le> t0 + 10 * minute \<and> (case r of Inl _ \<Rightarrow> True | Inr resp \<Rightarrow> tk_user resp = user \<and> tk_provider resp = prov)) exch"
proof -
  obtain tbl w pend issued exch where run: "oauth_run sample_oauth sample_ops () = (tbl, w, pend, issued, exch)" by (metis prod_cases5)
  have "distinct (op_tokens sample_ops)" by code_simp
  note use = oauth_state_single_use [OF this run]
  have serial: "serial_callbacks sample_oauth sample_ops ([], (), [], [], [])" by code_simp
  have "case oauth_run sample_oauth sample_ops () of (tbl, w, pend, issued, exch) \<Rightarrow> length exch = 2" by code_simp
  with use serial show ?thesis unfolding run prod.case by blast
qed

definition sample_flow :: oauth_state where
  "sample_flow = \<lparr>os_id = ''1'', os_user = ''u'', os_provider = ''g'', os_state = ''k'', os_verifier = [], os_redirect = [],
     os_scopes = [], os_created = 0, os_expires = state_ttl, os_used = False\<rparr>"

theorem concurrent_callbacks_both_exchange_witness:
  "case callback_finish sample_oauth sample_flow ''c1'' 5 [sample_flow] () of (r1, tbl1, w1) \<Rightarrow>
   case callback_finish sample_oauth sample_flow ''c2'' 6 tbl1 w1 of (r2, tbl2, w2) \<Rightarrow>
     exchanged r1 \<and> exchanged r2 \<and> fst (handle_callback sample_oauth ''k'' ''c2'' 6 tbl1 w1) \<noteq> r2"
proof -
  obtain r1 tbl1 w1 where f1: "callback_finish sample_oauth sample_flow ''c1'' 5 [sample_flow] () = (r1, tbl1, w1)"
    by (metis prod_cases3)
  obtain r2 tbl2 w2 where f2: "callback_finish sample_oauth sample_flow ''c2'' 6 tbl1 w1 = (r2, tbl2, w2)"
    by (metis prod_cases3)
  have "callback_check [sample_flow] ''k'' ''c1'' 5 = Inr sample_flow" "callback_check [sample_flow] ''k'' ''c2'' 6 = Inr sample_flow"
    by code_simp+
  moreover have "os_id sample_flow \<noteq> []" "sv_registry sample_oauth (os_provider sample_flow) = Some sample_provider"
    by (simp_all add: sample_flow_def sample_oauth_def)
  ultimately show ?thesis unfolding f1 f2 prod.case using f1 f2 by (intro concurrent_callbacks_both_exchange) auto
qed

end
