(* ===== verification/Base64.thy ===== *)
theory Base64
  imports Prelude
begin

text \<open>
  Go's \<open>encoding/base64.StdEncoding\<close>: three bytes as four characters, with padding. Decoding
  ignores line ends, wants the padding and does not look at the bits that padding leaves over.
\<close>

section \<open>The alphabet\<close>

definition b64_char :: "nat \<Rightarrow> char" where
  "b64_char n = char_of (if n < 26 then n + 65 else if n < 52 then n + 71 else if n < 62 then n - 4
     else if n = 62 then 43 else 47)"

definition b64_value :: "char \<Rightarrow> nat option" where
  "b64_value c =
     (let n = of_char c in
      if 65 \<le> n \<and> n \<le> 90 then Some (n - 65)
      else if 97 \<le> n \<and> n \<le> 122 then Some (n - 71)
      else if 48 \<le> n \<and> n \<le> 57 then Some (n + 4)
      else if n = 43 then Some 62
      else if n = 47 then Some 63
      else None)"

section \<open>Encoding and decoding\<close>

fun encode_bytes :: "nat list \<Rightarrow> string" where
  "encode_bytes [] = []"
| "encode_bytes [a] = [b64_char (a div 4), b64_char (a mod 4 * 16), CHR ''='', CHR ''='']"
| "encode_bytes [a, b] =
     [b64_char (a div 4), b64_char (a mod 4 * 16 + b div 16), b64_char (b mod 16 * 4), CHR ''='']"
| "encode_bytes (a # b # c # bs) =
     b64_char (a div 4) # b64_char (a mod 4 * 16 + b div 16) # b64_char (b mod 16 * 4 + c div 64)
       # b64_char (c mod 64) # encode_bytes bs"

fun decode_quads :: "string \<Rightarrow> nat list option" where
  "decode_quads [] = Some []"
| "decode_quads (w # x # y # z # s) =
     (case (b64_value w, b64_value x) of
        (Some i, Some j) \<Rightarrow>
          let a = i * 4 + j div 16 in
          if y = CHR ''='' then (if z = CHR ''='' \<and> s = [] then Some [a] else None)
          else
            (case b64_value y of
               None \<Rightarrow> None
             | Some k \<Rightarrow>
                 let b = j mod 16 * 16 + k div 4 in
                 if z = CHR ''='' then (if s = [] then Some [a, b] else None)
                 else
                   (case (b64_value z, decode_quads s) of
                      (Some l, Some bs) \<Rightarrow> Some (a # b # (k mod 4 * 64 + l) # bs)
                    | _ \<Rightarrow> None))
      | _ \<Rightarrow> None)"
| "decode_quads _ = None"

definition base64_encode :: "string \<Rightarrow> string" where
  "base64_encode s = encode_bytes (map of_char s)"

definition base64_decode :: "string \<Rightarrow> string option" where
  "base64_decode s =
     map_option (map char_of) (decode_quads (filter (\<lambda>c. of_char c \<noteq> (10 :: nat) \<and> of_char c \<noteq> (13 :: nat)) s))"

section \<open>Lemmas\<close>

lemma b64_char_facts:
  assumes "n < 64"
  shows "b64_value (b64_char n) = Some n" and "b64_char n \<noteq> CHR ''=''"
    and "of_char (b64_char n) \<noteq> (10 :: nat)" and "of_char (b64_char n) \<noteq> (13 :: nat)"
proof -
  have nat: "of_char (b64_char n) = (if n < 26 then n + 65 else if n < 52 then n + 71 else if n < 62 then n - 4
      else if n = 62 then 43 else 47)" using assms by (simp add: b64_char_def)
  show "b64_value (b64_char n) = Some n" using assms by (simp add: b64_value_def nat Let_def split del: if_split) auto
  show "b64_char n \<noteq> CHR ''=''" using assms by (auto simp: char_eq_iff_nat nat split: if_splits)
  show "of_char (b64_char n) \<noteq> (10 :: nat)" "of_char (b64_char n) \<noteq> (13 :: nat)" using assms by (auto simp: nat)
qed

lemma encoded_no_line_end:
  "list_all (\<lambda>b. b < 256) bs \<Longrightarrow> list_all (\<lambda>c. of_char c \<noteq> (10 :: nat) \<and> of_char c \<noteq> (13 :: nat)) (encode_bytes bs)"
  by (induction bs rule: encode_bytes.induct) (auto simp: b64_char_facts)

lemma decode_encode_bytes: "list_all (\<lambda>b. b < 256) bs \<Longrightarrow> decode_quads (encode_bytes bs) = Some bs"
proof (induction bs rule: encode_bytes.induct)
  case (4 a b c bs)
  then have "a div 4 < 64" "a mod 4 * 16 + b div 16 < 64" "b mod 16 * 4 + c div 64 < 64" "c mod 64 < 64" by auto
  moreover have "a div 4 * 4 + (a mod 4 * 16 + b div 16) div 16 = a"
    "(a mod 4 * 16 + b div 16) mod 16 * 16 + (b mod 16 * 4 + c div 64) div 4 = b"
    "(b mod 16 * 4 + c div 64) mod 4 * 64 + c mod 64 = c" using 4 by auto
  ultimately show ?case using 4 by (simp add: b64_char_facts Let_def)
qed (auto simp: b64_char_facts Let_def)

lemma base64_decode_encode [simp]: "base64_decode (base64_encode s) = Some s"
proof -
  have small: "list_all (\<lambda>b. b < 256) (map (of_char :: char \<Rightarrow> nat) s)" by (simp add: list_all_iff)
  have "filter (\<lambda>c. of_char c \<noteq> (10 :: nat) \<and> of_char c \<noteq> (13 :: nat)) (encode_bytes (map of_char s))
      = encode_bytes (map of_char s)"
    using encoded_no_line_end [OF small] by (simp add: filter_id_conv list_all_iff)
  then show ?thesis
    using decode_encode_bytes [OF small] by (simp add: base64_decode_def base64_encode_def comp_def)
qed

end
