(* ===== verification/Credential_Vault.thy ===== *)
theory Credential_Vault
  imports OAuth_Flow Base64
begin

text \<open>
  Stored OAuth credentials (\<open>pkg/oauth/vault.go\<close>) and their refreshing
  (\<open>pkg/oauth/refresh_manager.go\<close>). The table is a list of rows with a unique identifier and a
  unique pair of user and provider; the tokens of a row are a JSON object, sealed with AES-GCM
  under a key derived from a passphrase, or in base64 where there is no passphrase.

  Key derivation, the cipher, random bytes and the clock are arguments, and so are writing and
  reading JSON as text. \<open>doRefresh\<close> holds a lock per credential, so it is one step here.
\<close>

section \<open>Credentials\<close>

record vault_credential =
  vc_id :: string
  vc_user :: string
  vc_provider :: string
  vc_access :: string
  vc_refresh :: string
  vc_type :: string
  vc_id_token :: string
  vc_scopes :: string
  vc_label :: string
  vc_status :: string
  vc_expires :: "time option"
  vc_created :: "time option"
  vc_updated :: "time option"

definition valid_credential_status :: "string \<Rightarrow> bool" where
  "valid_credential_status s \<longleftrightarrow> s = ''active'' \<or> s = ''revoked'' \<or> s = ''expired''"

definition cred_expired :: "vault_credential \<Rightarrow> time \<Rightarrow> bool" where
  "cred_expired c now = (case vc_expires c of None \<Rightarrow> False | Some e \<Rightarrow> now > e)"

definition needs_refresh :: "vault_credential \<Rightarrow> time \<Rightarrow> bool" where
  "needs_refresh c now = (case vc_expires c of None \<Rightarrow> False | Some e \<Rightarrow> now + 5 * minute > e)"

record token_data =
  td_access :: string
  td_refresh :: string
  td_type :: string
  td_id_token :: string

definition zero_token_data :: token_data where
  "zero_token_data = \<lparr>td_access = [], td_refresh = [], td_type = [], td_id_token = []\<rparr>"

definition encode_token_data :: "token_data \<Rightarrow> json" where
  "encode_token_data d = JObject
     ((''access_token'', JString (td_access d))
      # filter (\<lambda>(_, v). v \<noteq> JString [])
          [(''refresh_token'', JString (td_refresh d)), (''token_type'', JString (td_type d)),
           (''id_token'', JString (td_id_token d))])"

definition decode_token_data :: "token_data decoder" where
  "decode_token_data = decode_struct
     [json_field ''access_token'' decode_string td_access td_access_update,
      json_field ''refresh_token'' decode_string td_refresh td_refresh_update,
      json_field ''token_type'' decode_string td_type td_type_update,
      json_field ''id_token'' decode_string td_id_token td_id_token_update]"

section \<open>Encryption\<close>

record vault_keys =
  vk_passphrase :: string
  vk_derive :: "string \<Rightarrow> string \<Rightarrow> string"
  vk_seal :: "string \<Rightarrow> string \<Rightarrow> string \<Rightarrow> string"
  vk_open :: "string \<Rightarrow> string \<Rightarrow> string \<Rightarrow> string option"
  vk_write :: "json \<Rightarrow> string"
  vk_read :: "string \<Rightarrow> json option"

datatype vault_error =
    FieldRequired string | NoRandom | InvalidStatus string | NoCipher | UpsertFailed | CipherTooShort | OpenFailed
  | BadBase64 | NoKey | BadTokenData | NoSuchCredential

text \<open>The AES constructor accepts keys of 16, 24 or 32 bytes. The salt and the nonce are the bytes the
  random source gives.\<close>

definition vault_encrypt_aesgcm ::
  "vault_keys \<Rightarrow> string \<Rightarrow> string option \<Rightarrow> string option \<Rightarrow> vault_error + string" where
  "vault_encrypt_aesgcm k plaintext salt nonce =
     (case salt of
        None \<Rightarrow> Inl NoRandom
      | Some salt \<Rightarrow>
          let key = vk_derive k (vk_passphrase k) salt in
          if length key \<notin> {16, 24, 32} then Inl NoCipher
          else
            (case nonce of
               None \<Rightarrow> Inl NoRandom
             | Some nonce \<Rightarrow> Inr (salt @ nonce @ vk_seal k key nonce plaintext)))"

definition vault_decrypt_aesgcm :: "vault_keys \<Rightarrow> string \<Rightarrow> vault_error + string" where
  "vault_decrypt_aesgcm k data =
     (if length data < 28 then Inl CipherTooShort
      else
        let key = vk_derive k (vk_passphrase k) (take 16 data) in
        if length key \<notin> {16, 24, 32} then Inl NoCipher
        else
          (case vk_open k key (take 12 (drop 16 data)) (drop 28 data) of
             None \<Rightarrow> Inl OpenFailed
           | Some plaintext \<Rightarrow> Inr plaintext))"

definition vault_encrypt ::
  "vault_keys \<Rightarrow> string \<Rightarrow> string option \<Rightarrow> string option \<Rightarrow> vault_error + string \<times> bool" where
  "vault_encrypt k plaintext salt nonce =
     (if vk_passphrase k = [] then Inr (base64_encode plaintext, False)
      else
        case vault_encrypt_aesgcm k plaintext salt nonce of
          Inl e \<Rightarrow> Inl e
        | Inr data \<Rightarrow> Inr (data, True))"

definition vault_decrypt :: "vault_keys \<Rightarrow> string \<Rightarrow> bool \<Rightarrow> vault_error + string" where
  "vault_decrypt k data encrypted =
     (if \<not> encrypted then (case base64_decode data of None \<Rightarrow> Inl BadBase64 | Some s \<Rightarrow> Inr s)
      else if vk_passphrase k = [] then Inl NoKey
      else vault_decrypt_aesgcm k data)"

section \<open>The table\<close>

text \<open>Columns of times hold texts; a row holds the time, and comparisons are those of the texts.\<close>

record vault_row =
  vr_id :: string
  vr_user :: string
  vr_provider :: string
  vr_data :: string
  vr_encrypted :: bool
  vr_label :: string
  vr_status :: string
  vr_scopes :: string
  vr_expires :: "time option"
  vr_created :: time
  vr_updated :: time

definition row_of_pair :: "string \<Rightarrow> string \<Rightarrow> vault_row \<Rightarrow> bool" where
  "row_of_pair user prov r \<longleftrightarrow> vr_user r = user \<and> vr_provider r = prov"

text \<open>\<open>INSERT \<dots> ON CONFLICT(user_id, provider_id) DO UPDATE\<close>: the row of the pair keeps its identifier and
  its time of creation; a new row needs an identifier of its own.\<close>

definition vault_upsert :: "vault_row list \<Rightarrow> vault_row \<Rightarrow> vault_error + vault_row list" where
  "vault_upsert rows row =
     (if list_ex (row_of_pair (vr_user row) (vr_provider row)) rows
      then Inr (map (\<lambda>r. if row_of_pair (vr_user row) (vr_provider row) r
                         then row\<lparr>vr_id := vr_id r, vr_created := vr_created r\<rparr> else r) rows)
      else if list_ex (\<lambda>r. vr_id r = vr_id row) rows then Inl UpsertFailed
      else Inr (rows @ [row]))"

text \<open>\<open>Store\<close> also fills in the credential it is given, and leaves that so where it fails later.\<close>

definition vault_store ::
  "vault_keys \<Rightarrow> string option \<Rightarrow> string option \<Rightarrow> string option \<Rightarrow> time \<Rightarrow> vault_credential \<Rightarrow> vault_row list
     \<Rightarrow> vault_error option \<times> vault_credential \<times> vault_row list" where
  "vault_store k newID salt nonce now cred rows =
     (if vc_user cred = [] then (Some (FieldRequired ''user ID''), cred, rows)
      else if vc_provider cred = [] then (Some (FieldRequired ''provider ID''), cred, rows)
      else if vc_access cred = [] then (Some (FieldRequired ''access token''), cred, rows)
      else
        case (if vc_id cred = [] then newID else Some (vc_id cred)) of
          None \<Rightarrow> (Some NoRandom, cred, rows)
        | Some i \<Rightarrow>
            let cred = cred\<lparr>vc_id := i\<rparr>;
                cred = (if vc_status cred = [] then cred\<lparr>vc_status := ''active''\<rparr> else cred)
            in if \<not> valid_credential_status (vc_status cred) then (Some (InvalidStatus (vc_status cred)), cred, rows)
               else
                 case vault_encrypt k
                        (vk_write k (encode_token_data
                           \<lparr>td_access = vc_access cred, td_refresh = vc_refresh cred, td_type = vc_type cred,
                            td_id_token = vc_id_token cred\<rparr>)) salt nonce of
                   Inl e \<Rightarrow> (Some e, cred, rows)
                 | Inr (data, encrypted) \<Rightarrow>
                     (case vault_upsert rows
                             \<lparr>vr_id = vc_id cred, vr_user = vc_user cred, vr_provider = vc_provider cred, vr_data = data,
                              vr_encrypted = encrypted, vr_label = vc_label cred, vr_status = vc_status cred,
                              vr_scopes = vc_scopes cred, vr_expires = vc_expires cred, vr_created = now, vr_updated = now\<rparr> of
                        Inl e \<Rightarrow> (Some e, cred, rows)
                      | Inr rows \<Rightarrow>
                          (None, cred\<lparr>vc_updated := Some now,
                                      vc_created := (case vc_created cred of None \<Rightarrow> Some now | Some t \<Rightarrow> Some t)\<rparr>, rows)))"

definition scan_row :: "vault_keys \<Rightarrow> vault_row \<Rightarrow> vault_error + vault_credential" where
  "scan_row k r =
     (case vault_decrypt k (vr_data r) (vr_encrypted r) of
        Inl e \<Rightarrow> Inl e
      | Inr plaintext \<Rightarrow>
          (case unmarshal_value decode_token_data zero_token_data (vk_read k plaintext) of
             None \<Rightarrow> Inl BadTokenData
           | Some d \<Rightarrow>
               Inr \<lparr>vc_id = vr_id r, vc_user = vr_user r, vc_provider = vr_provider r, vc_access = td_access d,
                    vc_refresh = td_refresh d, vc_type = td_type d, vc_id_token = td_id_token d, vc_scopes = vr_scopes r,
                    vc_label = vr_label r, vc_status = vr_status r, vc_expires = vr_expires r,
                    vc_created = Some (vr_created r), vc_updated = Some (vr_updated r)\<rparr>))"

definition scan_credential :: "vault_keys \<Rightarrow> vault_row option \<Rightarrow> vault_error + vault_credential option" where
  "scan_credential k row =
     (case row of None \<Rightarrow> Inr None | Some r \<Rightarrow> (case scan_row k r of Inl e \<Rightarrow> Inl e | Inr c \<Rightarrow> Inr (Some c)))"

text \<open>Reading several rows stops at the first one that cannot be read.\<close>

fun scan_rows :: "vault_keys \<Rightarrow> vault_row list \<Rightarrow> vault_error + vault_credential list" where
  "scan_rows k [] = Inr []"
| "scan_rows k (r # rows) =
     (case scan_row k r of
        Inl e \<Rightarrow> Inl e
      | Inr c \<Rightarrow> (case scan_rows k rows of Inl e \<Rightarrow> Inl e | Inr cs \<Rightarrow> Inr (c # cs)))"

definition vault_get :: "vault_keys \<Rightarrow> string \<Rightarrow> string \<Rightarrow> vault_row list \<Rightarrow> vault_error + vault_credential option" where
  "vault_get k user prov rows =
     (if user = [] then Inl (FieldRequired ''user ID'')
      else if prov = [] then Inl (FieldRequired ''provider ID'')
      else scan_credential k (find (row_of_pair user prov) rows))"

definition vault_get_by_id :: "vault_keys \<Rightarrow> string \<Rightarrow> vault_row list \<Rightarrow> vault_error + vault_credential option" where
  "vault_get_by_id k i rows =
     (if i = [] then Inl (FieldRequired ''id'') else scan_credential k (find (\<lambda>r. vr_id r = i) rows))"

definition vault_list_by_user :: "vault_keys \<Rightarrow> string \<Rightarrow> string \<Rightarrow> vault_row list \<Rightarrow> vault_error + vault_credential list" where
  "vault_list_by_user k user status rows =
     (if user = [] then Inl (FieldRequired ''user ID'')
      else if status \<noteq> [] \<and> \<not> valid_credential_status status then Inl (InvalidStatus status)
      else scan_rows k (sort_key (\<lambda>r. stamp (vr_created r))
             (filter (\<lambda>r. vr_user r = user \<and> (status = [] \<or> vr_status r = status)) rows)))"

definition vault_delete :: "string \<Rightarrow> string \<Rightarrow> vault_row list \<Rightarrow> vault_error option \<times> vault_row list" where
  "vault_delete user prov rows =
     (if user = [] then (Some (FieldRequired ''user ID''), rows)
      else if prov = [] then (Some (FieldRequired ''provider ID''), rows)
      else if \<not> list_ex (row_of_pair user prov) rows then (Some NoSuchCredential, rows)
      else (None, filter (\<lambda>r. \<not> row_of_pair user prov r) rows))"

definition vault_delete_by_id :: "string \<Rightarrow> vault_row list \<Rightarrow> vault_error option \<times> vault_row list" where
  "vault_delete_by_id i rows =
     (if i = [] then (Some (FieldRequired ''id''), rows)
      else if \<not> list_ex (\<lambda>r. vr_id r = i) rows then (Some NoSuchCredential, rows)
      else (None, filter (\<lambda>r. vr_id r \<noteq> i) rows))"

definition vault_revoke :: "string \<Rightarrow> string \<Rightarrow> time \<Rightarrow> vault_row list \<Rightarrow> vault_error option \<times> vault_row list" where
  "vault_revoke user prov now rows =
     (if user = [] then (Some (FieldRequired ''user ID''), rows)
      else if prov = [] then (Some (FieldRequired ''provider ID''), rows)
      else if \<not> list_ex (row_of_pair user prov) rows then (Some NoSuchCredential, rows)
      else (None, map (\<lambda>r. if row_of_pair user prov r then r\<lparr>vr_status := ''revoked'', vr_updated := now\<rparr> else r) rows))"

definition expires_before :: "time \<Rightarrow> vault_row \<Rightarrow> bool" where
  "expires_before t r = (case vr_expires r of None \<Rightarrow> False | Some e \<Rightarrow> stamp e < stamp t)"

definition vault_delete_expired :: "time \<Rightarrow> vault_row list \<Rightarrow> nat \<times> vault_row list" where
  "vault_delete_expired now rows =
     (length (filter (expires_before now) rows), filter (\<lambda>r. \<not> expires_before now r) rows)"

definition vault_list_expiring :: "vault_keys \<Rightarrow> time \<Rightarrow> vault_row list \<Rightarrow> vault_error + vault_credential list" where
  "vault_list_expiring k before rows =
     scan_rows k (sort_key (\<lambda>r. case vr_expires r of Some e \<Rightarrow> stamp e | None \<Rightarrow> (0, []))
       (filter (\<lambda>r. vr_status r = ''active'' \<and> expires_before before r) rows))"

definition store_from_token_response ::
  "vault_keys \<Rightarrow> string option \<Rightarrow> string option \<Rightarrow> string option \<Rightarrow> time \<Rightarrow> token_response \<Rightarrow> string \<Rightarrow> vault_row list
     \<Rightarrow> vault_error option \<times> vault_row list" where
  "store_from_token_response k newID salt nonce now resp label rows =
     (if tk_user resp = [] then (Some (FieldRequired ''user ID''), rows)
      else if tk_provider resp = [] then (Some (FieldRequired ''provider ID''), rows)
      else
        case vault_store k newID salt nonce now
               \<lparr>vc_id = [], vc_user = tk_user resp, vc_provider = tk_provider resp, vc_access = tk_access resp,
                vc_refresh = tk_refresh resp, vc_type = tk_type resp, vc_id_token = tk_id_token resp,
                vc_scopes = tk_scope resp, vc_label = label, vc_status = ''active'', vc_expires = tk_expires_at resp,
                vc_created = None, vc_updated = None\<rparr> rows of
          (e, _, rows) \<Rightarrow> (e, rows))"

section \<open>Lemmas\<close>

text \<open>What the library functions promise: sealed data opens with the key and nonce it was sealed with, the
  written text of a value reads as that value, and keys have 32 bytes.\<close>

definition keys_ok :: "vault_keys \<Rightarrow> bool" where
  "keys_ok k \<longleftrightarrow> (\<forall>key nonce s. vk_open k key nonce (vk_seal k key nonce s) = Some s)
     \<and> (\<forall>s. length (vk_derive k (vk_passphrase k) s) = 32)"

lemma vault_decrypt_encrypt:
  assumes "keys_ok k" and "\<And>s. salt = Some s \<Longrightarrow> length s = 16" and "\<And>s. nonce = Some s \<Longrightarrow> length s = 12"
    and "vault_encrypt k plaintext salt nonce = Inr (data, encrypted)"
  shows "vault_decrypt k data encrypted = Inr plaintext"
  using assms
  by (auto simp: vault_encrypt_def vault_decrypt_def vault_encrypt_aesgcm_def vault_decrypt_aesgcm_def keys_ok_def Let_def
      split: if_splits option.splits sum.splits)

lemma decode_encode_token_data:
  "unmarshal_value decode_token_data zero_token_data (Some (encode_token_data d)) = Some d"
  by (cases d)
    (auto simp: unmarshal_value_def decode_token_data_def encode_token_data_def zero_token_data_def json_field_def
      find_field_def split: prod.splits)

definition row_of_credential :: "vault_credential \<Rightarrow> string \<Rightarrow> bool \<Rightarrow> time \<Rightarrow> vault_row" where
  "row_of_credential cred data encrypted now =
     \<lparr>vr_id = vc_id cred, vr_user = vc_user cred, vr_provider = vc_provider cred, vr_data = data,
      vr_encrypted = encrypted, vr_label = vc_label cred, vr_status = vc_status cred,
      vr_scopes = vc_scopes cred, vr_expires = vc_expires cred, vr_created = now, vr_updated = now\<rparr>"

definition token_data_of :: "vault_credential \<Rightarrow> token_data" where
  "token_data_of cred = \<lparr>td_access = vc_access cred, td_refresh = vc_refresh cred, td_type = vc_type cred,
     td_id_token = vc_id_token cred\<rparr>"

text \<open>The credential that a successful \<open>Store\<close> leaves, and the row it wrote.\<close>

lemma vault_store_ok:
  assumes "vault_store k newID salt nonce now cred rows = (None, cred', rows')"
  shows "\<exists>data encrypted. vault_encrypt k (vk_write k (encode_token_data (token_data_of cred))) salt nonce = Inr (data, encrypted)
    \<and> vault_upsert rows (row_of_credential cred' data encrypted now) = Inr rows' \<and> vc_updated cred' = Some now
    \<and> token_data_of cred = token_data_of cred' \<and> valid_credential_status (vc_status cred')
    \<and> vc_user cred = vc_user cred' \<and> vc_provider cred = vc_provider cred' \<and> vc_scopes cred = vc_scopes cred'
    \<and> vc_label cred = vc_label cred' \<and> vc_expires cred = vc_expires cred'
    \<and> vc_status cred' = (if vc_status cred = [] then ''active'' else vc_status cred)
    \<and> vc_user cred \<noteq> [] \<and> vc_provider cred \<noteq> []"
  using assms
  by (auto simp: vault_store_def Let_def row_of_credential_def token_data_of_def split: if_splits option.splits sum.splits)

lemma find_map_pair:
  "(\<And>r. row_of_pair u p (f r) = row_of_pair u p r)
     \<Longrightarrow> find (row_of_pair u p) (map f rows) = map_option f (find (row_of_pair u p) rows)"
  by (induction rows) auto

lemma vault_upsert_find:
  assumes "vault_upsert rows row = Inr rows'"
  shows "\<exists>i t. find (row_of_pair (vr_user row) (vr_provider row)) rows' = Some (row\<lparr>vr_id := i, vr_created := t\<rparr>)"
proof (cases "find (row_of_pair (vr_user row) (vr_provider row)) rows")
  case None
  then have "\<not> list_ex (row_of_pair (vr_user row) (vr_provider row)) rows" by (auto simp: find_None_iff list_ex_iff)
  with assms have "rows' = rows @ [row]" by (auto simp: vault_upsert_def split: if_splits)
  moreover have "find (row_of_pair (vr_user row) (vr_provider row)) (rows @ [row]) = Some row"
    using None by (induction rows) (auto simp: row_of_pair_def split: if_splits)
  ultimately show ?thesis by (intro exI [of _ "vr_id row"] exI [of _ "vr_created row"]) simp
next
  case (Some q)
  then have "list_ex (row_of_pair (vr_user row) (vr_provider row)) rows" and q: "row_of_pair (vr_user row) (vr_provider row) q"
    using find_Some_set [OF Some] by (auto simp: list_ex_iff)
  with assms have rows': "rows' = map (\<lambda>r. if row_of_pair (vr_user row) (vr_provider row) r
      then row\<lparr>vr_id := vr_id r, vr_created := vr_created r\<rparr> else r) rows" by (simp add: vault_upsert_def)
  show ?thesis
    unfolding rows' by (subst find_map_pair) (use Some q in \<open>auto simp: row_of_pair_def\<close>)
qed

lemma vault_upsert_other:
  assumes "vault_upsert rows row = Inr rows'" and "(u, p) \<noteq> (vr_user row, vr_provider row)"
  shows "find (row_of_pair u p) rows' = find (row_of_pair u p) rows"
proof -
  have "find (row_of_pair u p) (map (\<lambda>r. if row_of_pair (vr_user row) (vr_provider row) r
      then row\<lparr>vr_id := vr_id r, vr_created := vr_created r\<rparr> else r) rows) = find (row_of_pair u p) rows"
    using assms(2) by (induction rows) (auto simp: row_of_pair_def)
  moreover have "find (row_of_pair u p) (rows @ [row]) = find (row_of_pair u p) rows"
    using assms(2) by (induction rows) (auto simp: row_of_pair_def)
  ultimately show ?thesis using assms(1) by (auto simp: vault_upsert_def split: if_splits)
qed

lemma scan_written_row:
  assumes "keys_ok k" and "vk_read k (vk_write k (encode_token_data (token_data_of cred))) = Some (encode_token_data (token_data_of cred))"
    and "\<And>s. salt = Some s \<Longrightarrow> length s = 16" and "\<And>s. nonce = Some s \<Longrightarrow> length s = 12"
    and "vault_encrypt k (vk_write k (encode_token_data (token_data_of cred))) salt nonce = Inr (data, encrypted)"
  shows "scan_row k ((row_of_credential cred data encrypted now)\<lparr>vr_id := i, vr_created := t\<rparr>)
    = Inr (cred\<lparr>vc_id := i, vc_created := Some t, vc_updated := Some now\<rparr>)"
proof -
  have "vault_decrypt k data encrypted = Inr (vk_write k (encode_token_data (token_data_of cred)))"
    using vault_decrypt_encrypt [OF assms(1,3,4,5)] .
  then show ?thesis
    by (simp add: scan_row_def row_of_credential_def assms(2) decode_encode_token_data) (simp add: token_data_of_def)
qed

lemma vault_store_get:
  assumes "keys_ok k" and "\<And>s. salt = Some s \<Longrightarrow> length s = 16" and "\<And>s. nonce = Some s \<Longrightarrow> length s = 12"
    and "vk_read k (vk_write k (encode_token_data (token_data_of cred))) = Some (encode_token_data (token_data_of cred))"
    and "vault_store k newID salt nonce now cred rows = (None, cred', rows')"
  shows "\<exists>i t. vault_get k (vc_user cred) (vc_provider cred) rows' = Inr (Some (cred'\<lparr>vc_id := i, vc_created := Some t\<rparr>))"
proof -
  obtain data encrypted where st:
    "vault_encrypt k (vk_write k (encode_token_data (token_data_of cred))) salt nonce = Inr (data, encrypted)"
    "vault_upsert rows (row_of_credential cred' data encrypted now) = Inr rows'" "vc_updated cred' = Some now"
    and eq: "token_data_of cred = token_data_of cred'" "vc_user cred = vc_user cred'" "vc_provider cred = vc_provider cred'"
    and ne: "vc_user cred \<noteq> []" "vc_provider cred \<noteq> []"
    using vault_store_ok [OF assms(5)] by blast
  have row: "vr_user (row_of_credential cred' data encrypted now) = vc_user cred'"
    "vr_provider (row_of_credential cred' data encrypted now) = vc_provider cred'" by (simp_all add: row_of_credential_def)
  obtain i t where f: "find (row_of_pair (vc_user cred') (vc_provider cred')) rows'
      = Some ((row_of_credential cred' data encrypted now)\<lparr>vr_id := i, vr_created := t\<rparr>)"
    using vault_upsert_find [OF st(2)] unfolding row by auto
  have "scan_row k ((row_of_credential cred' data encrypted now)\<lparr>vr_id := i, vr_created := t\<rparr>)
      = Inr (cred'\<lparr>vc_id := i, vc_created := Some t, vc_updated := Some now\<rparr>)"
    using scan_written_row [OF assms(1) assms(4) [unfolded eq(1)] assms(2,3) st(1) [unfolded eq(1)]] .
  moreover have "cred'\<lparr>vc_id := i, vc_created := Some t, vc_updated := Some now\<rparr> = cred'\<lparr>vc_id := i, vc_created := Some t\<rparr>"
    using st(3) by (cases cred') simp
  ultimately have "vault_get k (vc_user cred) (vc_provider cred) rows' = Inr (Some (cred'\<lparr>vc_id := i, vc_created := Some t\<rparr>))"
    using ne f by (simp add: vault_get_def scan_credential_def eq)
  then show ?thesis by blast
qed

lemma vault_store_get_other:
  assumes "vault_store k newID salt nonce now cred rows = (None, cred', rows')" and "(u, p) \<noteq> (vc_user cred, vc_provider cred)"
  shows "vault_get k u p rows' = vault_get k u p rows"
proof -
  obtain data encrypted where st: "vault_upsert rows (row_of_credential cred' data encrypted now) = Inr rows'"
    and eq: "vc_user cred = vc_user cred'" "vc_provider cred = vc_provider cred'"
    using vault_store_ok [OF assms(1)] by blast
  have row: "vr_user (row_of_credential cred' data encrypted now) = vc_user cred'"
    "vr_provider (row_of_credential cred' data encrypted now) = vc_provider cred'" by (simp_all add: row_of_credential_def)
  show ?thesis using vault_upsert_other [OF st, unfolded row, OF assms(2) [unfolded eq]] by (simp add: vault_get_def)
qed

section \<open>Properties\<close>

text \<open>Property C28: A stored credential is read back for its user and provider with the tokens, scopes, label,
  status and expiry it was stored with, encrypted or not; what is read for any other pair of user and provider
  does not change.\<close>

theorem vault_round_trip:
  assumes "keys_ok k" and "\<And>s. salt = Some s \<Longrightarrow> length s = 16" and "\<And>s. nonce = Some s \<Longrightarrow> length s = 12"
    and "vk_read k (vk_write k (encode_token_data (token_data_of cred))) = Some (encode_token_data (token_data_of cred))"
    and "vault_store k newID salt nonce now cred rows = (None, cred', rows')"
  shows "(\<exists>i t. vault_get k (vc_user cred) (vc_provider cred) rows' = Inr (Some (cred'\<lparr>vc_id := i, vc_created := Some t\<rparr>)))
    \<and> (\<forall>u p. (u, p) \<noteq> (vc_user cred, vc_provider cred) \<longrightarrow> vault_get k u p rows' = vault_get k u p rows)"
  using vault_store_get [OF assms] vault_store_get_other [OF assms(5)] by blast

text \<open>Storing over the credential of a pair keeps the identifier of its row, but the caller is left with the
  new one, under which nothing is found.\<close>

lemma new_identifier_not_stored:
  assumes "vault_store k newID salt nonce now cred rows = (None, cred', rows')"
    and "list_ex (row_of_pair (vc_user cred) (vc_provider cred)) rows" and "vc_id cred' \<notin> vr_id ` set rows"
    and "vc_id cred' \<noteq> []"
  shows "vault_get_by_id k (vc_id cred') rows' = Inr None"
proof -
  obtain data encrypted where st: "vault_upsert rows (row_of_credential cred' data encrypted now) = Inr rows'"
    and eq: "vc_user cred = vc_user cred'" "vc_provider cred = vc_provider cred'"
    using vault_store_ok [OF assms(1)] by blast
  then have "map vr_id rows' = map vr_id rows"
    using assms(2) by (auto simp: vault_upsert_def row_of_credential_def)
  then have "vr_id ` set rows' = vr_id ` set rows" by (metis set_map)
  then have "vc_id cred' \<notin> vr_id ` set rows'" using assms(3) by simp
  then have "find (\<lambda>r. vr_id r = vc_id cred') rows' = None" unfolding find_None_iff by (metis imageI)
  then show ?thesis using assms(4) by (simp add: vault_get_by_id_def scan_credential_def)
qed

end
