(* ===== verification/Token_Refresh.thy ===== *)
theory Token_Refresh
  imports Credential_Vault
begin

text \<open>
  The refreshing of stored credentials (\<open>pkg/oauth/refresh_manager.go\<close>): the sweep that looks for
  credentials about to expire, the retries with their backoff, and the calls that refresh one
  credential on demand. \<open>doRefresh\<close> runs under a lock per credential and is one step; the sweep
  starts its refreshes as goroutines, so \<open>check_all\<close> gives the list of those it starts and each
  of them is a step of its own, at a time of its own.
\<close>

section \<open>Configuration and state\<close>

record refresh_config =
  rc_check_interval :: duration
  rc_refresh_before :: duration
  rc_max_retries :: int
  rc_retry_delay :: duration

definition default_refresh_config :: refresh_config where
  "default_refresh_config = \<lparr>rc_check_interval = 5 * minute, rc_refresh_before = 5 * minute, rc_max_retries = 3,
     rc_retry_delay = 30 * second\<rparr>"

definition new_refresh_config :: "refresh_config \<Rightarrow> refresh_config" where
  "new_refresh_config c =
     \<lparr>rc_check_interval = (if rc_check_interval c \<le> 0 then rc_check_interval default_refresh_config else rc_check_interval c),
      rc_refresh_before = (if rc_refresh_before c \<le> 0 then rc_refresh_before default_refresh_config else rc_refresh_before c),
      rc_max_retries = (if rc_max_retries c \<le> 0 then rc_max_retries default_refresh_config else rc_max_retries c),
      rc_retry_delay = (if rc_retry_delay c \<le> 0 then rc_retry_delay default_refresh_config else rc_retry_delay c)\<rparr>"

datatype refresh_error =
    RefreshField string | RefreshVault vault_error | CredentialMissing | NoRefreshToken | RefreshRefused oauth_error

record retry_state =
  rt_retries :: int
  rt_error :: refresh_error
  rt_next :: time

datatype refresh_call = OnRefresh string string | OnError string string refresh_error

record 'w refresh_manager =
  rm_config :: refresh_config
  rm_keys :: vault_keys
  rm_service :: "'w oauth_service"

record 'w refresh_state =
  rs_rows :: "vault_row list"
  rs_retries :: "string \<Rightarrow> retry_state option"
  rs_world :: 'w
  rs_calls :: "refresh_call list"

definition cred_key :: "string \<Rightarrow> string \<Rightarrow> string" where
  "cred_key user prov = user @ '':'' @ prov"

definition clear_retries :: "string \<Rightarrow> 'w refresh_state \<Rightarrow> 'w refresh_state" where
  "clear_retries key st = st\<lparr>rs_retries := (rs_retries st)(key := None)\<rparr>"

section \<open>Refreshing\<close>

definition refreshed_credential :: "vault_credential \<Rightarrow> token_response \<Rightarrow> vault_credential" where
  "refreshed_credential c resp =
     c\<lparr>vc_access := tk_access resp,
       vc_refresh := (if tk_refresh resp \<noteq> [] then tk_refresh resp else vc_refresh c),
       vc_type := (if tk_type resp \<noteq> [] then tk_type resp else vc_type c),
       vc_id_token := (if tk_id_token resp \<noteq> [] then tk_id_token resp else vc_id_token c),
       vc_scopes := (if tk_scope resp \<noteq> [] then tk_scope resp else vc_scopes c),
       vc_expires := (if tk_expires_at resp \<noteq> None then tk_expires_at resp else vc_expires c),
       vc_status := ''active''\<rparr>"

text \<open>The random bytes that a new salt and a new nonce need.\<close>

type_synonym random_bytes = "string option \<times> string option"

definition do_refresh ::
  "'w refresh_manager \<Rightarrow> random_bytes \<Rightarrow> time \<Rightarrow> string \<Rightarrow> string \<Rightarrow> 'w refresh_state
     \<Rightarrow> (refresh_error + vault_credential) \<times> 'w refresh_state" where
  "do_refresh m rnd now user prov st =
     (case vault_get (rm_keys m) user prov (rs_rows st) of
        Inl e \<Rightarrow> (Inl (RefreshVault e), st)
      | Inr None \<Rightarrow> (Inl CredentialMissing, st)
      | Inr (Some current) \<Rightarrow>
          if \<not> needs_refresh current now then (Inr current, clear_retries (cred_key user prov) st)
          else if vc_refresh current = [] then (Inl NoRefreshToken, st)
          else
            case refresh_token (rm_service m) prov (vc_refresh current) now (rs_world st) of
              (Inl e, w) \<Rightarrow> (Inl (RefreshRefused e), st\<lparr>rs_world := w\<rparr>)
            | (Inr resp, w) \<Rightarrow>
                (case vault_store (rm_keys m) None (fst rnd) (snd rnd) now (refreshed_credential current resp) (rs_rows st) of
                   (Some e, _, rows) \<Rightarrow> (Inl (RefreshVault e), st\<lparr>rs_world := w, rs_rows := rows\<rparr>)
                 | (None, cred, rows) \<Rightarrow>
                     (Inr cred, (clear_retries (cred_key user prov)
                        (st\<lparr>rs_world := w, rs_rows := rows, rs_calls := rs_calls st @ [OnRefresh user prov]\<rparr>)))))"

definition refresh_credential ::
  "'w refresh_manager \<Rightarrow> random_bytes \<Rightarrow> time \<Rightarrow> string \<Rightarrow> string \<Rightarrow> 'w refresh_state
     \<Rightarrow> (refresh_error + vault_credential) \<times> 'w refresh_state" where
  "refresh_credential m rnd now user prov st =
     (if user = [] then (Inl (RefreshField ''user ID''), st)
      else if prov = [] then (Inl (RefreshField ''provider ID''), st)
      else
        case vault_get (rm_keys m) user prov (rs_rows st) of
          Inl e \<Rightarrow> (Inl (RefreshVault e), st)
        | Inr None \<Rightarrow> (Inl CredentialMissing, st)
        | Inr (Some cred) \<Rightarrow>
            if vc_refresh cred = [] then (Inl NoRefreshToken, st)
            else do_refresh m rnd now (vc_user cred) (vc_provider cred) st)"

definition ensure_fresh ::
  "'w refresh_manager \<Rightarrow> random_bytes \<Rightarrow> time \<Rightarrow> string \<Rightarrow> string \<Rightarrow> 'w refresh_state
     \<Rightarrow> (refresh_error + vault_credential) \<times> 'w refresh_state" where
  "ensure_fresh m rnd now user prov st =
     (if user = [] then (Inl (RefreshField ''user ID''), st)
      else if prov = [] then (Inl (RefreshField ''provider ID''), st)
      else
        case vault_get (rm_keys m) user prov (rs_rows st) of
          Inl e \<Rightarrow> (Inl (RefreshVault e), st)
        | Inr None \<Rightarrow> (Inl CredentialMissing, st)
        | Inr (Some cred) \<Rightarrow>
            if \<not> needs_refresh cred now then (Inr cred, st)
            else if vc_refresh cred = [] then (Inl NoRefreshToken, st)
            else do_refresh m rnd now (vc_user cred) (vc_provider cred) st)"

section \<open>The background sweep\<close>

definition may_refresh :: "'w refresh_manager \<Rightarrow> time \<Rightarrow> 'w refresh_state \<Rightarrow> vault_credential \<Rightarrow> bool" where
  "may_refresh m now st cred =
     (case rs_retries st (cred_key (vc_user cred) (vc_provider cred)) of
        None \<Rightarrow> True
      | Some r \<Rightarrow> \<not> rt_retries r \<ge> rc_max_retries (rm_config m) \<and> \<not> now < rt_next r)"

definition check_all :: "'w refresh_manager \<Rightarrow> time \<Rightarrow> 'w refresh_state \<Rightarrow> vault_credential list" where
  "check_all m now st =
     (case vault_list_expiring (rm_keys m) (now + rc_refresh_before (rm_config m)) (rs_rows st) of
        Inl _ \<Rightarrow> []
      | Inr creds \<Rightarrow> filter (may_refresh m now st) creds)"

text \<open>The shift and the product are 64-bit, and wrap around.\<close>

definition backoff :: "duration \<Rightarrow> int \<Rightarrow> duration" where
  "backoff delay retries = int64 (delay * int64 (2 ^ nat (retries - 1)))"

definition refresh_failed :: "'w refresh_manager \<Rightarrow> time \<Rightarrow> string \<Rightarrow> string \<Rightarrow> refresh_error \<Rightarrow> 'w refresh_state \<Rightarrow> 'w refresh_state" where
  "refresh_failed m now user prov e st =
     (let key = cred_key user prov;
          n = (case rs_retries st key of None \<Rightarrow> 0 | Some r \<Rightarrow> rt_retries r) + 1
      in st\<lparr>rs_retries := (rs_retries st)(key \<mapsto>
              \<lparr>rt_retries = n, rt_error = e, rt_next = now + backoff (rc_retry_delay (rm_config m)) n\<rparr>),
            rs_calls := rs_calls st @ [OnError user prov e]\<rparr>)"

definition refresh_task :: "'w refresh_manager \<Rightarrow> random_bytes \<Rightarrow> time \<Rightarrow> vault_credential \<Rightarrow> 'w refresh_state \<Rightarrow> 'w refresh_state" where
  "refresh_task m rnd now cred st =
     (case do_refresh m rnd now (vc_user cred) (vc_provider cred) st of
        (Inr _, st) \<Rightarrow> st
      | (Inl e, st) \<Rightarrow> refresh_failed m now (vc_user cred) (vc_provider cred) e st)"

record refresh_status =
  rfs_user :: string
  rfs_provider :: string
  rfs_retries :: int
  rfs_max :: int
  rfs_error :: refresh_error
  rfs_next :: time
  rfs_exhausted :: bool

definition get_refresh_status :: "'w refresh_manager \<Rightarrow> string \<Rightarrow> string \<Rightarrow> 'w refresh_state \<Rightarrow> refresh_status option" where
  "get_refresh_status m user prov st =
     map_option (\<lambda>r. \<lparr>rfs_user = user, rfs_provider = prov, rfs_retries = rt_retries r, rfs_max = rc_max_retries (rm_config m),
         rfs_error = rt_error r, rfs_next = rt_next r, rfs_exhausted = (rt_retries r \<ge> rc_max_retries (rm_config m))\<rparr>)
       (rs_retries st (cred_key user prov))"

definition reset_retries :: "string \<Rightarrow> string \<Rightarrow> 'w refresh_state \<Rightarrow> 'w refresh_state" where
  "reset_retries user prov st = clear_retries (cred_key user prov) st"

section \<open>Lemmas\<close>

lemma vault_get_row:
  assumes "vault_get k user prov rows = Inr (Some c)"
  shows "\<exists>r. find (row_of_pair user prov) rows = Some r \<and> scan_row k r = Inr c \<and> vc_user c = user \<and> vc_provider c = prov
    \<and> vc_status c = vr_status r \<and> vc_expires c = vr_expires r \<and> vc_id c = vr_id r \<and> user \<noteq> [] \<and> prov \<noteq> []"
  using assms
  by (auto simp: vault_get_def scan_credential_def scan_row_def row_of_pair_def dest: find_Some_set
      split: if_splits option.splits sum.splits)

text \<open>The cases of a refresh that gives a credential: the stored one is fresh enough, or a new one is stored.\<close>

lemma do_refresh_ok:
  assumes "do_refresh m rnd now user prov st = (Inr c, st')"
  obtains (Fresh) "vault_get (rm_keys m) user prov (rs_rows st) = Inr (Some c)" "\<not> needs_refresh c now"
      "st' = clear_retries (cred_key user prov) st"
  | (Stored) current resp w rows where "vault_get (rm_keys m) user prov (rs_rows st) = Inr (Some current)"
      "needs_refresh current now" "refresh_token (rm_service m) prov (vc_refresh current) now (rs_world st) = (Inr resp, w)"
      "vault_store (rm_keys m) None (fst rnd) (snd rnd) now (refreshed_credential current resp) (rs_rows st) = (None, c, rows)"
      "st' = clear_retries (cred_key user prov) (st\<lparr>rs_world := w, rs_rows := rows, rs_calls := rs_calls st @ [OnRefresh user prov]\<rparr>)"
  using assms by (auto simp: do_refresh_def split: sum.splits option.splits if_splits prod.splits)

lemma clear_retries_simps [simp]:
  "rs_rows (clear_retries key st) = rs_rows st" "rs_world (clear_retries key st) = rs_world st"
  "rs_calls (clear_retries key st) = rs_calls st"
  by (simp_all add: clear_retries_def)

text \<open>A credential that does not need a refresh is given back as it is stored.\<close>

lemma fresh_not_requested:
  assumes "vault_get (rm_keys m) user prov (rs_rows st) = Inr (Some c)" and "\<not> needs_refresh c now"
  shows "do_refresh m rnd now user prov st = (Inr c, clear_retries (cred_key user prov) st)"
    and "ensure_fresh m rnd now user prov st = (Inr c, st)"
  using assms vault_get_row [OF assms(1)] by (auto simp: do_refresh_def ensure_fresh_def)

text \<open>The threshold of the sweep does not move the one of \<open>NeedsRefresh\<close>: a credential listed earlier than
  five minutes before its expiry is only looked at.\<close>

lemma early_task_without_effect:
  assumes "vault_get (rm_keys m) (vc_user cred) (vc_provider cred) (rs_rows st) = Inr (Some c)" and "vc_expires c = Some e"
    and "now + 5 * minute \<le> e"
  shows "refresh_task m rnd now cred st = clear_retries (cred_key (vc_user cred) (vc_provider cred)) st"
  using fresh_not_requested(1) [OF assms(1)] assms(2,3) by (simp add: refresh_task_def needs_refresh_def)

text \<open>One row about to expire that cannot be read stops the sweep for every user.\<close>

lemma scan_rows_error: "r \<in> set rows \<Longrightarrow> isl (scan_row k r) \<Longrightarrow> isl (scan_rows k rows)"
  by (induction rows) (auto split: sum.splits)

lemma unreadable_row_stops_sweep:
  assumes "r \<in> set (rs_rows st)" and "vr_status r = ''active''" and "expires_before (now + rc_refresh_before (rm_config m)) r"
    and "isl (scan_row (rm_keys m) r)"
  shows "check_all m now st = []"
proof -
  have "isl (vault_list_expiring (rm_keys m) (now + rc_refresh_before (rm_config m)) (rs_rows st))"
    unfolding vault_list_expiring_def by (rule scan_rows_error [of r]) (use assms in auto)
  then show ?thesis by (auto simp: check_all_def isl_def)
qed

text \<open>What the JSON library promises for the tokens of a credential, and the random source for its bytes.\<close>

definition json_ok :: "vault_keys \<Rightarrow> vault_credential \<Rightarrow> bool" where
  "json_ok k c \<longleftrightarrow> vk_read k (vk_write k (encode_token_data (token_data_of c))) = Some (encode_token_data (token_data_of c))"

definition random_ok :: "random_bytes \<Rightarrow> bool" where
  "random_ok rnd \<longleftrightarrow> (case rnd of (salt, nonce) \<Rightarrow>
     (case salt of None \<Rightarrow> True | Some s \<Rightarrow> length s = 16) \<and> (case nonce of None \<Rightarrow> True | Some s \<Rightarrow> length s = 12))"

lemma refreshed_stays:
  assumes "keys_ok (rm_keys m)" and "json_ok (rm_keys m) c" and "random_ok rnd"
    and "do_refresh m rnd t0 user prov st = (Inr c, st1)"
  shows "\<exists>c'. vault_get (rm_keys m) user prov (rs_rows st1) = Inr (Some c') \<and> token_data_of c' = token_data_of c
    \<and> vc_expires c' = vc_expires c"
  using assms(4)
proof (cases rule: do_refresh_ok)
  case Fresh
  then show ?thesis by auto
next
  case (Stored current resp w rows)
  have cur: "vc_user current = user" "vc_provider current = prov" using vault_get_row [OF Stored(1)] by auto
  then have "vc_user (refreshed_credential current resp) = user" "vc_provider (refreshed_credential current resp) = prov"
    by (simp_all add: refreshed_credential_def)
  moreover have eq: "token_data_of (refreshed_credential current resp) = token_data_of c"
    using vault_store_ok [OF Stored(4)] by blast
  moreover have "\<And>s. fst rnd = Some s \<Longrightarrow> length s = 16" "\<And>s. snd rnd = Some s \<Longrightarrow> length s = 12"
    using assms(3) by (auto simp: random_ok_def split: prod.splits)
  ultimately obtain i t where "vault_get (rm_keys m) user prov rows = Inr (Some (c\<lparr>vc_id := i, vc_created := Some t\<rparr>))"
    using vault_store_get [OF assms(1) _ _ _ Stored(4)] assms(2) eq unfolding json_ok_def by metis
  then show ?thesis unfolding Stored(5) by (simp add: token_data_of_def)
qed

section \<open>Properties\<close>

text \<open>Property C21: Once a refresh has given a credential, refreshing it again at any time before its last five
  minutes sends nothing to the provider and stores nothing: it gives the same tokens. So of several refreshes of
  one credential that wait for each other only the first one uses the refresh token.\<close>

theorem one_refresh_in_flight:
  assumes "keys_ok (rm_keys m)" and "json_ok (rm_keys m) c" and "random_ok rnd"
    and "do_refresh m rnd t0 user prov st = (Inr c, st1)" and "\<not> needs_refresh c t1"
  shows "case do_refresh m rnd1 t1 user prov st1 of (r, st2) \<Rightarrow>
    (case r of Inl _ \<Rightarrow> False | Inr c' \<Rightarrow> token_data_of c' = token_data_of c)
    \<and> ensure_fresh m rnd1 t1 user prov st1 = (r, st1)
    \<and> rs_world st2 = rs_world st1 \<and> rs_rows st2 = rs_rows st1 \<and> rs_calls st2 = rs_calls st1"
proof -
  obtain c' where c': "vault_get (rm_keys m) user prov (rs_rows st1) = Inr (Some c')" "token_data_of c' = token_data_of c"
    "vc_expires c' = vc_expires c" using refreshed_stays [OF assms(1-4)] by blast
  then have "\<not> needs_refresh c' t1" using assms(5) by (simp add: needs_refresh_def)
  note fresh = fresh_not_requested [OF c'(1) this]
  show ?thesis unfolding fresh using c'(2) by simp
qed

text \<open>Neither \<open>EnsureFresh\<close> nor \<open>RefreshCredential\<close> looks at the status of a credential, and a refresh
  makes it active: a revoked credential that is about to expire is in use again after the next call.\<close>

theorem refresh_revives_revoked:
  assumes "vault_revoke user prov t0 rows = (None, rows1)" and "rs_rows st = rows1"
    and "vault_get (rm_keys m) user prov rows1 = Inr (Some cred)" and "needs_refresh cred now"
    and "ensure_fresh m rnd now user prov st = (Inr c, st')"
  shows "vc_status cred = ''revoked'' \<and> vc_status c = ''active''
    \<and> list_ex (\<lambda>r. row_of_pair user prov r \<and> vr_status r = ''active'') (rs_rows st')
    \<and> refresh_credential m rnd now user prov st = ensure_fresh m rnd now user prov st"
proof -
  note row = vault_get_row [OF assms(3)]
  have "rows1 = map (\<lambda>r. if row_of_pair user prov r then r\<lparr>vr_status := ''revoked'', vr_updated := t0\<rparr> else r) rows"
    using assms(1) by (auto simp: vault_revoke_def split: if_splits)
  moreover have "list_all (\<lambda>r. row_of_pair user prov r \<longrightarrow> vr_status r = ''revoked'')
      (map (\<lambda>r. if row_of_pair user prov r then r\<lparr>vr_status := ''revoked'', vr_updated := t0\<rparr> else r) rows)"
    by (induction rows) simp_all
  ultimately have "list_all (\<lambda>r. row_of_pair user prov r \<longrightarrow> vr_status r = ''revoked'') rows1" by simp
  moreover obtain r where "find (row_of_pair user prov) rows1 = Some r" "vc_status cred = vr_status r" using row by blast
  ultimately have revoked: "vc_status cred = ''revoked''" by (auto simp: list_all_iff dest: find_Some_set)
  have refresh: "vc_refresh cred \<noteq> []" "do_refresh m rnd now user prov st = (Inr c, st')"
    using assms(2-5) row by (auto simp: ensure_fresh_def split: if_splits)
  then have manual: "refresh_credential m rnd now user prov st = ensure_fresh m rnd now user prov st"
    using assms(2-5) row by (auto simp: refresh_credential_def)
  from refresh(2) show ?thesis
  proof (cases rule: do_refresh_ok)
    case Fresh
    with assms(2-4) show ?thesis by simp
  next
    case (Stored current resp w rows2)
    have user: "vc_user current = user" "vc_provider current = prov" using vault_get_row [OF Stored(1)] by auto
    obtain data encrypted where up: "vault_upsert (rs_rows st) (row_of_credential c data encrypted now) = Inr rows2"
      and c: "vc_status c = ''active''" "vc_user c = user" "vc_provider c = prov"
    proof -
      obtain data encrypted where *: "vault_upsert (rs_rows st) (row_of_credential c data encrypted now) = Inr rows2"
        and eq: "vc_user (refreshed_credential current resp) = vc_user c" "vc_provider (refreshed_credential current resp) = vc_provider c"
        and status: "vc_status c = (if vc_status (refreshed_credential current resp) = [] then ''active''
          else vc_status (refreshed_credential current resp))"
        using vault_store_ok [OF Stored(4)] by blast
      have "vc_status c = ''active''" using status by (simp add: refreshed_credential_def)
      moreover have "vc_user c = user" "vc_provider c = prov"
        using eq [symmetric] user by (simp_all add: refreshed_credential_def)
      ultimately show thesis using that * by blast
    qed
    obtain i t where f: "find (row_of_pair user prov) rows2
        = Some ((row_of_credential c data encrypted now)\<lparr>vr_id := i, vr_created := t\<rparr>)" (is "_ = Some ?r")
      using vault_upsert_find [OF up] c(2,3) by (auto simp: row_of_credential_def)
    then have "?r \<in> set rows2" "row_of_pair user prov ?r" by (simp_all only: find_Some_set)
    moreover have "vr_status ?r = ''active''" using c(1) by (simp add: row_of_credential_def)
    ultimately have "list_ex (\<lambda>r. row_of_pair user prov r \<and> vr_status r = ''active'') rows2"
      unfolding list_ex_iff by blast
    then show ?thesis unfolding Stored(5) using revoked c manual by simp
  qed
qed

section \<open>Witnesses\<close>

text \<open>A vault whose cipher leaves the data as it is, with two texts for two token objects, and a provider
  that grants every refresh for an hour.\<close>

definition sample_old :: token_data where
  "sample_old = \<lparr>td_access = ''A'', td_refresh = ''R'', td_type = [], td_id_token = []\<rparr>"

definition sample_new :: token_data where
  "sample_new = \<lparr>td_access = ''B'', td_refresh = ''R'', td_type = [], td_id_token = []\<rparr>"

definition sample_keys :: vault_keys where
  "sample_keys = \<lparr>vk_passphrase = ''p'', vk_derive = (\<lambda>_ _. replicate 32 CHR ''k''), vk_seal = (\<lambda>_ _ s. s),
     vk_open = (\<lambda>_ _ s. Some s), vk_write = (\<lambda>j. if j = encode_token_data sample_old then ''old'' else ''new''),
     vk_read = (\<lambda>s. Some (encode_token_data (if s = ''old'' then sample_old else sample_new)))\<rparr>"

definition sample_granting :: "unit oauth_service" where
  "sample_granting = sample_oauth\<lparr>sv_json :=
     (\<lambda>body. Some (JObject [(''access_token'', JString ''B''), (''expires_in'', JNumber ''3600'')]))\<rparr>"

definition sample_refresher :: "unit refresh_manager" where
  "sample_refresher = \<lparr>rm_config = default_refresh_config, rm_keys = sample_keys, rm_service = sample_granting\<rparr>"

definition sample_random :: random_bytes where
  "sample_random = (Some (replicate 16 CHR ''s''), Some (replicate 12 CHR ''n''))"

definition sample_credential :: vault_credential where
  "sample_credential = \<lparr>vc_id = ''1'', vc_user = ''u'', vc_provider = ''g'', vc_access = ''A'', vc_refresh = ''R'', vc_type = [],
     vc_id_token = [], vc_scopes = [], vc_label = [], vc_status = [], vc_expires = Some (2 * minute), vc_created = None,
     vc_updated = None\<rparr>"

definition sample_rows :: "vault_row list" where
  "sample_rows = snd (snd (vault_store sample_keys None (fst sample_random) (snd sample_random) 0 sample_credential []))"

definition sample_refresh_state :: "vault_row list \<Rightarrow> unit refresh_state" where
  "sample_refresh_state rows = \<lparr>rs_rows = rows, rs_retries = (\<lambda>_. None), rs_world = (), rs_calls = []\<rparr>"

definition sample_result :: "vault_row list \<Rightarrow> vault_credential" where
  "sample_result rows = projr (fst (do_refresh sample_refresher sample_random second ''u'' ''g'' (sample_refresh_state rows)))"

lemma sample_keys_ok: "keys_ok sample_keys"
  by (simp add: keys_ok_def sample_keys_def)

lemma sample_random_ok: "random_ok sample_random"
  by (simp add: random_ok_def sample_random_def)

theorem one_refresh_in_flight_witness:
  "case do_refresh sample_refresher sample_random second ''u'' ''g'' (sample_refresh_state sample_rows) of (r1, st1) \<Rightarrow>
   case do_refresh sample_refresher sample_random minute ''u'' ''g'' st1 of (r, st2) \<Rightarrow>
     (case r of Inl _ \<Rightarrow> False | Inr c' \<Rightarrow> token_data_of c' = token_data_of (sample_result sample_rows))
     \<and> rs_rows st2 = rs_rows st1 \<and> rs_calls st1 = [OnRefresh ''u'' ''g''] \<and> rs_calls st2 = rs_calls st1"
proof -
  obtain r1 st1 where r1: "do_refresh sample_refresher sample_random second ''u'' ''g'' (sample_refresh_state sample_rows) = (r1, st1)"
    by fastforce
  obtain r st2 where r2: "do_refresh sample_refresher sample_random minute ''u'' ''g'' st1 = (r, st2)" by fastforce
  have "\<not> isl r1" "rs_calls st1 = [OnRefresh ''u'' ''g'']"
  proof -
    have "case do_refresh sample_refresher sample_random second ''u'' ''g'' (sample_refresh_state sample_rows) of (r1, st1) \<Rightarrow>
        \<not> isl r1 \<and> rs_calls st1 = [OnRefresh ''u'' ''g'']" by code_simp
    then show "\<not> isl r1" "rs_calls st1 = [OnRefresh ''u'' ''g'']" unfolding r1 by simp_all
  qed
  moreover have "sample_result sample_rows = projr r1" unfolding sample_result_def r1 by simp
  then have r1c: "r1 = Inr (sample_result sample_rows)" using \<open>\<not> isl r1\<close> by (cases r1) simp_all
  moreover have "\<not> needs_refresh (sample_result sample_rows) minute" "json_ok sample_keys (sample_result sample_rows)" by code_simp+
  moreover have "rm_keys sample_refresher = sample_keys" by (simp add: sample_refresher_def)
  ultimately show ?thesis
    using one_refresh_in_flight [of sample_refresher "sample_result sample_rows" sample_random second "''u''" "''g''"
        "sample_refresh_state sample_rows" st1 minute sample_random] sample_keys_ok sample_random_ok r1 r2
    unfolding r1c by simp
qed

theorem refresh_revives_revoked_witness:
  "case vault_revoke ''u'' ''g'' 0 sample_rows of (_, rows1) \<Rightarrow>
   case ensure_fresh sample_refresher sample_random second ''u'' ''g'' (sample_refresh_state rows1) of (r, st') \<Rightarrow>
     vc_status (projr r) = ''active'' \<and> list_ex (\<lambda>r. row_of_pair ''u'' ''g'' r \<and> vr_status r = ''active'') (rs_rows st')"
proof -
  obtain e rows1 where v: "vault_revoke ''u'' ''g'' 0 sample_rows = (e, rows1)" by fastforce
  have rows1: "rows1 = snd (vault_revoke ''u'' ''g'' 0 sample_rows)" using v by simp
  have e: "e = None" using v by (auto simp: vault_revoke_def split: if_splits) (code_simp)
  obtain r st' where f: "ensure_fresh sample_refresher sample_random second ''u'' ''g'' (sample_refresh_state rows1) = (r, st')"
    by fastforce
  have "case vault_get sample_keys ''u'' ''g'' (snd (vault_revoke ''u'' ''g'' 0 sample_rows)) of
      Inr (Some c) \<Rightarrow> needs_refresh c second | _ \<Rightarrow> False" by code_simp
  then obtain cred where g: "vault_get sample_keys ''u'' ''g'' rows1 = Inr (Some cred)" "needs_refresh cred second"
    unfolding rows1 by (auto split: sum.splits option.splits)
  have "\<not> isl (fst (ensure_fresh sample_refresher sample_random second ''u'' ''g''
      (sample_refresh_state (snd (vault_revoke ''u'' ''g'' 0 sample_rows)))))" by code_simp
  then obtain c where r: "r = Inr c" using f unfolding rows1 by (cases r) auto
  have "rs_rows (sample_refresh_state rows1) = rows1" "rm_keys sample_refresher = sample_keys"
    by (simp_all add: sample_refresh_state_def sample_refresher_def)
  then show ?thesis
    using refresh_revives_revoked [OF v [unfolded e] _ _ g(2) f [unfolded r]] g(1) unfolding v prod.case f r by simp
qed

theorem vault_round_trip_witness:
  "case vault_store sample_keys None (fst sample_random) (snd sample_random) 0 sample_credential [] of (e, cred', rows') \<Rightarrow>
     e = None \<and> (\<exists>i t. vault_get sample_keys ''u'' ''g'' rows' = Inr (Some (cred'\<lparr>vc_id := i, vc_created := Some t\<rparr>)))"
proof -
  obtain e cred' rows' where v:
    "vault_store sample_keys None (fst sample_random) (snd sample_random) 0 sample_credential [] = (e, cred', rows')"
    by (metis prod_cases3)
  have "fst (vault_store sample_keys None (fst sample_random) (snd sample_random) 0 sample_credential []) = None" by code_simp
  then have e: "e = None" using v by simp
  have json: "vk_read sample_keys (vk_write sample_keys (encode_token_data (token_data_of sample_credential)))
      = Some (encode_token_data (token_data_of sample_credential))" by code_simp
  have "length s = 16" if "fst sample_random = Some s" for s using that by (auto simp: sample_random_def)
  moreover have "length s = 12" if "snd sample_random = Some s" for s using that by (auto simp: sample_random_def)
  ultimately show ?thesis
    using vault_round_trip [OF sample_keys_ok _ _ json v [unfolded e]] unfolding v e by (simp add: sample_credential_def)
qed

end
