(* ===== verification/Media_Store.thy ===== *)
theory Media_Store
  imports Prelude "HOL-Library.AList"
begin

text \<open>
  Media files and the scopes they belong to (\<open>pkg/media/store.go\<close>). The three maps are association
  lists with distinct keys, and a set of references is a list; the order in which Go walks a map
  is the order of the list, and nothing here depends on it. The disk is the set of the files that
  exist, \<open>os.Remove\<close> succeeds where an argument says so, and the identifier of a reference is the
  one that the UUID library gave.
\<close>

section \<open>State\<close>

record media_meta =
  mm_filename :: string
  mm_content_type :: string
  mm_source :: string

record media_entry =
  me_path :: string
  me_meta :: media_meta
  me_stored :: time

record media_state =
  ms_refs :: "(string \<times> media_entry) list"
  ms_scope_refs :: "(string \<times> string list) list"
  ms_ref_scope :: "(string \<times> string) list"
  ms_disk :: "string set"

definition new_media_state :: "string set \<Rightarrow> media_state" where
  "new_media_state disk = \<lparr>ms_refs = [], ms_scope_refs = [], ms_ref_scope = [], ms_disk = disk\<rparr>"

section \<open>Operations\<close>

definition media_ref :: "string \<Rightarrow> string" where
  "media_ref uuid = ''media://'' @ uuid"

definition media_store ::
  "string \<Rightarrow> media_meta \<Rightarrow> string \<Rightarrow> string \<Rightarrow> time \<Rightarrow> media_state \<Rightarrow> (string + string) \<times> media_state" where
  "media_store path meta scope uuid now st =
     (if path \<notin> ms_disk st then (Inl path, st)
      else
        let ref = media_ref uuid;
            old = (case map_of (ms_scope_refs st) scope of None \<Rightarrow> [] | Some rs \<Rightarrow> rs)
        in (Inr ref,
            st\<lparr>ms_refs := AList.update ref \<lparr>me_path = path, me_meta = meta, me_stored = now\<rparr> (ms_refs st),
               ms_scope_refs := AList.update scope (List.insert ref old) (ms_scope_refs st),
               ms_ref_scope := AList.update ref scope (ms_ref_scope st)\<rparr>))"

definition media_resolve :: "string \<Rightarrow> media_state \<Rightarrow> string option" where
  "media_resolve ref st = map_option me_path (map_of (ms_refs st) ref)"

definition media_resolve_meta :: "string \<Rightarrow> media_state \<Rightarrow> (string \<times> media_meta) option" where
  "media_resolve_meta ref st = map_option (\<lambda>e. (me_path e, me_meta e)) (map_of (ms_refs st) ref)"

text \<open>Deleting files from disk; one that cannot be removed is left and a warning is logged.\<close>

definition remove_files :: "(string \<Rightarrow> bool) \<Rightarrow> string list \<Rightarrow> media_state \<Rightarrow> media_state" where
  "remove_files removable paths st = st\<lparr>ms_disk := ms_disk st - set (filter removable paths)\<rparr>"

text \<open>\<open>ReleaseAll\<close> in its two phases.\<close>

definition forget_ref :: "string \<Rightarrow> string list \<times> media_state \<Rightarrow> string list \<times> media_state" where
  "forget_ref ref run =
     (case run of (paths, st) \<Rightarrow>
        (case map_of (ms_refs st) ref of None \<Rightarrow> paths | Some e \<Rightarrow> paths @ [me_path e],
         st\<lparr>ms_refs := AList.delete ref (ms_refs st), ms_ref_scope := AList.delete ref (ms_ref_scope st)\<rparr>))"

definition release_scope :: "string \<Rightarrow> media_state \<Rightarrow> string list \<times> media_state" where
  "release_scope scope st =
     (case map_of (ms_scope_refs st) scope of
        None \<Rightarrow> ([], st)
      | Some refs \<Rightarrow>
          (case fold forget_ref refs ([], st) of
             (paths, st) \<Rightarrow> (paths, st\<lparr>ms_scope_refs := AList.delete scope (ms_scope_refs st)\<rparr>)))"

definition release_all :: "(string \<Rightarrow> bool) \<Rightarrow> string \<Rightarrow> media_state \<Rightarrow> media_state" where
  "release_all removable scope st =
     (case release_scope scope st of (paths, st) \<Rightarrow> remove_files removable paths st)"

text \<open>\<open>CleanExpired\<close>: an expired reference is taken out of its scope, and a scope that is left empty is
  deleted.\<close>

definition drop_from_scope :: "string \<Rightarrow> media_state \<Rightarrow> media_state" where
  "drop_from_scope ref st =
     (case map_of (ms_ref_scope st) ref of
        None \<Rightarrow> st
      | Some scope \<Rightarrow>
          (case map_of (ms_scope_refs st) scope of
             None \<Rightarrow> st
           | Some refs \<Rightarrow>
               let left = removeAll ref refs in
               if left = [] then st\<lparr>ms_scope_refs := AList.delete scope (ms_scope_refs st)\<rparr>
               else st\<lparr>ms_scope_refs := AList.update scope left (ms_scope_refs st)\<rparr>))"

definition expire_ref :: "time \<Rightarrow> string \<times> media_entry \<Rightarrow> string list \<times> media_state \<Rightarrow> string list \<times> media_state" where
  "expire_ref cutoff re run =
     (case (re, run) of ((ref, e), (paths, st)) \<Rightarrow>
        if me_stored e < cutoff
        then
          let st = drop_from_scope ref st in
          (paths @ [me_path e],
           st\<lparr>ms_refs := AList.delete ref (ms_refs st), ms_ref_scope := AList.delete ref (ms_ref_scope st)\<rparr>)
        else (paths, st))"

definition clean_expired :: "(string \<Rightarrow> bool) \<Rightarrow> duration \<Rightarrow> time \<Rightarrow> media_state \<Rightarrow> nat \<times> media_state" where
  "clean_expired removable maxAge now st =
     (if maxAge \<le> 0 then (0, st)
      else
        case fold (expire_ref (now - maxAge)) (ms_refs st) ([], st) of
          (paths, st) \<Rightarrow> (length paths, remove_files removable paths st))"

section \<open>Lemmas\<close>

text \<open>The three maps agree: a reference has an entry where it has a scope, the references of a scope are those
  that belong to it, and no scope is empty.\<close>

definition refs_of_scope :: "media_state \<Rightarrow> string \<Rightarrow> string list" where
  "refs_of_scope st scope = (case map_of (ms_scope_refs st) scope of None \<Rightarrow> [] | Some refs \<Rightarrow> refs)"

definition media_ok :: "media_state \<Rightarrow> bool" where
  "media_ok st \<longleftrightarrow> (\<forall>ref. map_of (ms_refs st) ref = None \<longleftrightarrow> map_of (ms_ref_scope st) ref = None)
     \<and> (\<forall>ref scope. map_of (ms_ref_scope st) ref = Some scope \<longleftrightarrow> ref \<in> set (refs_of_scope st scope))
     \<and> (\<forall>scope. map_of (ms_scope_refs st) scope \<noteq> Some []) \<and> distinct (map fst (ms_refs st))"

lemma media_ok_new [simp]: "media_ok (new_media_state disk)"
  by (simp add: media_ok_def new_media_state_def refs_of_scope_def)

lemma refs_of_scope_simps:
  "refs_of_scope (st\<lparr>ms_scope_refs := AList.update scope refs (ms_scope_refs st)\<rparr>) scope'
     = (if scope' = scope then refs else refs_of_scope st scope')"
  "refs_of_scope (st\<lparr>ms_scope_refs := AList.delete scope (ms_scope_refs st)\<rparr>) scope'
     = (if scope' = scope then [] else refs_of_scope st scope')"
  "refs_of_scope (st\<lparr>ms_refs := refs'\<rparr>) scope' = refs_of_scope st scope'"
  "refs_of_scope (st\<lparr>ms_ref_scope := m\<rparr>) scope' = refs_of_scope st scope'"
  "refs_of_scope (st\<lparr>ms_disk := d\<rparr>) scope' = refs_of_scope st scope'"
  by (simp_all add: refs_of_scope_def update_conv' delete_conv')

lemma media_ok_disk [simp]: "media_ok (st\<lparr>ms_disk := d\<rparr>) = media_ok st"
  by (simp add: media_ok_def refs_of_scope_simps)

lemma media_ok_store:
  assumes "media_ok st" and "map_of (ms_refs st) (media_ref uuid) = None"
  shows "media_ok (snd (media_store path meta scope uuid now st))"
proof (cases "path \<in> ms_disk st")
  case True
  let ?ref = "media_ref uuid"
  have "?ref \<notin> set (refs_of_scope st scope')" for scope' using assms by (metis media_ok_def option.distinct(1))
  then show ?thesis
    using assms True
    by (auto simp: media_ok_def media_store_def Let_def refs_of_scope_def update_conv' distinct_update split: option.splits)
qed (use assms in \<open>simp add: media_store_def\<close>)

lemma fold_forget_ref:
  "fold forget_ref refs (paths, st) = (paths', st') \<Longrightarrow>
     set paths' = set paths \<union> {p. \<exists>ref e. ref \<in> set refs \<and> map_of (ms_refs st) ref = Some e \<and> me_path e = p}
     \<and> map_of (ms_refs st') = (\<lambda>ref. if ref \<in> set refs then None else map_of (ms_refs st) ref)
     \<and> map_of (ms_ref_scope st') = (\<lambda>ref. if ref \<in> set refs then None else map_of (ms_ref_scope st) ref)
     \<and> ms_scope_refs st' = ms_scope_refs st \<and> ms_disk st' = ms_disk st
     \<and> (distinct (map fst (ms_refs st)) \<longrightarrow> distinct (map fst (ms_refs st')))"
proof (induction refs arbitrary: paths st)
  case (Cons ref refs)
  obtain paths1 st1 where one: "forget_ref ref (paths, st) = (paths1, st1)" by fastforce
  then have st1: "set paths1 = set paths \<union> {p. \<exists>e. map_of (ms_refs st) ref = Some e \<and> me_path e = p}"
    "map_of (ms_refs st1) = (map_of (ms_refs st))(ref := None)" "map_of (ms_ref_scope st1) = (map_of (ms_ref_scope st))(ref := None)"
    "ms_scope_refs st1 = ms_scope_refs st" "ms_disk st1 = ms_disk st"
    "distinct (map fst (ms_refs st)) \<longrightarrow> distinct (map fst (ms_refs st1))"
    by (auto simp: forget_ref_def delete_conv' distinct_delete split: option.splits)
  have "fold forget_ref refs (paths1, st1) = (paths', st')" using Cons.prems one by simp
  note ih = Cons.IH [OF this]
  show ?case unfolding ih [THEN conjunct2, THEN conjunct1] using ih st1 by (auto split: if_splits)
qed auto

lemma release_scope_result:
  assumes "media_ok st" and "release_scope scope st = (paths, st')"
  shows "media_ok st' \<and> ms_disk st' = ms_disk st
    \<and> set paths = {p. \<exists>ref e. map_of (ms_ref_scope st) ref = Some scope \<and> map_of (ms_refs st) ref = Some e \<and> me_path e = p}
    \<and> map_of (ms_refs st') = (\<lambda>ref. if map_of (ms_ref_scope st) ref = Some scope then None else map_of (ms_refs st) ref)
    \<and> refs_of_scope st' = (\<lambda>x. if x = scope then [] else refs_of_scope st x)"
proof (cases "map_of (ms_scope_refs st) scope")
  case None
  then have "map_of (ms_ref_scope st) ref \<noteq> Some scope" for ref using assms(1) by (auto simp: media_ok_def refs_of_scope_def)
  moreover have "refs_of_scope st scope = []" using None by (simp add: refs_of_scope_def)
  ultimately show ?thesis using assms None by (auto simp: release_scope_def)
next
  case (Some refs)
  then have mem: "map_of (ms_ref_scope st) ref = Some scope \<longleftrightarrow> ref \<in> set refs" for ref
    using assms(1) by (auto simp: media_ok_def refs_of_scope_def)
  obtain paths1 st1 where f: "fold forget_ref refs ([], st) = (paths1, st1)" by fastforce
  then have r: "paths = paths1" "st' = st1\<lparr>ms_scope_refs := AList.delete scope (ms_scope_refs st1)\<rparr>"
    using assms(2) Some by (simp_all add: release_scope_def)
  note one = fold_forget_ref [OF f]
  have refs: "refs = refs_of_scope st scope" using Some by (simp add: refs_of_scope_def)
  have scopes: "refs_of_scope st' x = (if x = scope then [] else refs_of_scope st x)" for x
    using one unfolding r(2) by (simp add: refs_of_scope_simps refs_of_scope_def delete_conv')
  have belongs: "map_of (ms_ref_scope st) ref = Some x \<longleftrightarrow> ref \<in> set (refs_of_scope st x)" for ref x
    using assms(1) by (simp add: media_ok_def)
  have maps: "map_of (ms_ref_scope st') = (\<lambda>ref. if ref \<in> set refs then None else map_of (ms_ref_scope st) ref)"
    "map_of (ms_refs st') = (\<lambda>ref. if ref \<in> set refs then None else map_of (ms_refs st) ref)"
    using one by (simp_all add: r(2))
  have "map_of (ms_ref_scope st') ref = Some x \<longleftrightarrow> ref \<in> set (refs_of_scope st' x)" for ref x
    unfolding scopes maps using belongs refs by (cases "ref \<in> set refs"; cases "x = scope") (auto, metis option.inject)
  moreover have "map_of (ms_scope_refs st') x \<noteq> Some []" for x
    using assms(1) one by (simp add: r(2) delete_conv' media_ok_def)
  ultimately have "media_ok st'"
    using assms(1) one unfolding media_ok_def maps by (simp add: r(2))
  then show ?thesis using one r scopes by (auto simp: mem fun_eq_iff)
qed

text \<open>One step of \<open>CleanExpired\<close>, and the walk over the entries.\<close>

lemma drop_from_scope_maps:
  assumes "media_ok st" and "map_of (ms_ref_scope st) ref = Some scope"
  shows "ms_refs (drop_from_scope ref st) = ms_refs st \<and> ms_ref_scope (drop_from_scope ref st) = ms_ref_scope st
    \<and> ms_disk (drop_from_scope ref st) = ms_disk st
    \<and> (\<forall>x. refs_of_scope (drop_from_scope ref st) x = removeAll ref (refs_of_scope st x))
    \<and> (\<forall>x. map_of (ms_scope_refs (drop_from_scope ref st)) x \<noteq> Some [])"
proof -
  have belongs: "map_of (ms_ref_scope st) ref = Some x \<longleftrightarrow> ref \<in> set (refs_of_scope st x)" for x
    using assms(1) by (simp add: media_ok_def)
  have filled: "map_of (ms_scope_refs st) x \<noteq> Some []" for x using assms(1) by (simp add: media_ok_def)
  have "ref \<in> set (refs_of_scope st scope)" using assms(2) belongs by simp
  then obtain refs where refs: "map_of (ms_scope_refs st) scope = Some refs" "refs_of_scope st scope = refs"
    by (cases "map_of (ms_scope_refs st) scope") (simp_all add: refs_of_scope_def)
  have "ref \<notin> set (refs_of_scope st x)" if "x \<noteq> scope" for x using belongs assms(2) that by (metis option.inject)
  then have "removeAll ref (refs_of_scope st x) = (if x = scope then removeAll ref refs else refs_of_scope st x)" for x
    using refs by (simp add: removeAll_id)
  then show ?thesis
    using refs filled assms(2)
    by (auto simp: drop_from_scope_def Let_def refs_of_scope_simps update_conv' delete_conv' split: if_splits)
qed

lemma expire_ref_ok:
  assumes "media_ok st" and "map_of (ms_refs st) ref = Some e" and "expire_ref cutoff (ref, e) (paths, st) = (paths', st')"
  shows "media_ok st' \<and> ms_disk st' = ms_disk st
    \<and> map_of (ms_refs st') = (if me_stored e < cutoff then (map_of (ms_refs st))(ref := None) else map_of (ms_refs st))
    \<and> paths' = (if me_stored e < cutoff then paths @ [me_path e] else paths)"
proof (cases "me_stored e < cutoff")
  case True
  have "map_of (ms_refs st) ref = None \<longleftrightarrow> map_of (ms_ref_scope st) ref = None" using assms(1) by (simp only: media_ok_def)
  then obtain scope where scope: "map_of (ms_ref_scope st) ref = Some scope" using assms(2) by (cases "map_of (ms_ref_scope st) ref") simp_all
  note dropped = drop_from_scope_maps [OF assms(1) scope]
  have st': "st' = (drop_from_scope ref st)\<lparr>ms_refs := AList.delete ref (ms_refs st), ms_ref_scope := AList.delete ref (ms_ref_scope st)\<rparr>"
    and paths': "paths' = paths @ [me_path e]" using assms(3) True dropped by (auto simp: expire_ref_def Let_def)
  have maps: "map_of (ms_refs st') = (map_of (ms_refs st))(ref := None)"
    "map_of (ms_ref_scope st') = (map_of (ms_ref_scope st))(ref := None)"
    unfolding st' by (simp_all add: delete_conv')
  have scopes: "refs_of_scope st' x = refs_of_scope (drop_from_scope ref st) x" "ms_scope_refs st' = ms_scope_refs (drop_from_scope ref st)" for x
    unfolding st' by (simp_all add: refs_of_scope_def)
  have more_maps: "set (refs_of_scope st' x) = set (refs_of_scope st x) - {ref}" "map_of (ms_scope_refs st') x \<noteq> Some []" for x
    using dropped unfolding scopes by simp_all
  have "distinct (map fst (ms_refs st))" using assms(1) unfolding media_ok_def by blast
  then have dist: "distinct (map fst (ms_refs st'))" unfolding st' by (simp add: distinct_delete)
  have "media_ok st'"
    using assms(1) more_maps dist unfolding media_ok_def maps by simp
  then show ?thesis using True dropped paths' by (simp add: st' delete_conv')
qed (use assms in \<open>auto simp: expire_ref_def\<close>)

lemma fold_expire_ref:
  assumes "media_ok st" and "distinct (map fst xs)" and "\<And>ref e. (ref, e) \<in> set xs \<Longrightarrow> map_of (ms_refs st) ref = Some e"
    and "fold (expire_ref cutoff) xs (paths, st) = (paths', st')"
  shows "media_ok st' \<and> ms_disk st' = ms_disk st
    \<and> (\<forall>ref. map_of (ms_refs st') ref = (if \<exists>e. (ref, e) \<in> set xs \<and> me_stored e < cutoff then None else map_of (ms_refs st) ref))
    \<and> set paths' = set paths \<union> {p. \<exists>ref e. (ref, e) \<in> set xs \<and> me_stored e < cutoff \<and> me_path e = p}"
  using assms
proof (induction xs arbitrary: paths st)
  case (Cons x xs)
  obtain ref e where x: "x = (ref, e)" by fastforce
  obtain paths1 st1 where one: "expire_ref cutoff (ref, e) (paths, st) = (paths1, st1)" by fastforce
  note o = expire_ref_ok [OF Cons.prems(1) Cons.prems(3) [of ref e] one]
  have rest: "fold (expire_ref cutoff) xs (paths1, st1) = (paths', st')" using Cons.prems(4) x one by simp
  have "map_of (ms_refs st1) r = Some f" if "(r, f) \<in> set xs" for r f
    using o Cons.prems(2) Cons.prems(3) [of r f] that x by (force split: if_splits)
  note ih = Cons.IH [OF _ _ this rest]
  show ?case using ih o Cons.prems(2) x by (auto split: if_splits)
qed auto

lemma media_ok_remove [simp]: "media_ok (remove_files removable paths st) = media_ok st"
  by (simp add: remove_files_def)

lemma remove_files_simps [simp]:
  "ms_refs (remove_files removable paths st) = ms_refs st" "ms_ref_scope (remove_files removable paths st) = ms_ref_scope st"
  "ms_disk (remove_files removable paths st) = ms_disk st - {p \<in> set paths. removable p}"
  by (simp_all add: remove_files_def)

lemma release_all_result:
  assumes "media_ok st" and "st' = release_all removable scope st"
  shows "media_ok st' \<and> map_of (ms_refs st') = (\<lambda>ref. if map_of (ms_ref_scope st) ref = Some scope then None else map_of (ms_refs st) ref)
    \<and> ms_disk st' = ms_disk st - {p. removable p \<and> (\<exists>ref e. map_of (ms_ref_scope st) ref = Some scope
        \<and> map_of (ms_refs st) ref = Some e \<and> me_path e = p)}
    \<and> refs_of_scope st' = (\<lambda>x. if x = scope then [] else refs_of_scope st x)"
proof -
  obtain paths st1 where r: "release_scope scope st = (paths, st1)" by fastforce
  note one = release_scope_result [OF assms(1) r]
  have st': "st' = remove_files removable paths st1" using assms(2) r by (simp add: release_all_def)
  have "{p \<in> set paths. removable p} = {p. removable p \<and> (\<exists>ref e. map_of (ms_ref_scope st) ref = Some scope
      \<and> map_of (ms_refs st) ref = Some e \<and> me_path e = p)}" using one by blast
  moreover have "refs_of_scope (remove_files removable paths st1) x = refs_of_scope st1 x" for x
    by (simp add: remove_files_def refs_of_scope_simps)
  ultimately show ?thesis using one unfolding st' by (simp add: fun_eq_iff)
qed

lemma clean_expired_result:
  assumes "media_ok st" and "clean_expired removable maxAge now st = (n, st')"
  shows "media_ok st' \<and> (map_of (ms_refs st') ref = None \<or> map_of (ms_refs st') ref = map_of (ms_refs st) ref)
    \<and> (0 < maxAge \<longrightarrow> map_of (ms_refs st') ref
        = (case map_of (ms_refs st) ref of Some e \<Rightarrow> if me_stored e < now - maxAge then None else Some e | None \<Rightarrow> None))"
proof (cases "maxAge \<le> 0")
  case False
  obtain paths st1 where f: "fold (expire_ref (now - maxAge)) (ms_refs st) ([], st) = (paths, st1)" by fastforce
  have dist: "distinct (map fst (ms_refs st))" using assms(1) by (simp only: media_ok_def)
  then have mem: "(r, e) \<in> set (ms_refs st) \<longleftrightarrow> map_of (ms_refs st) r = Some e" for r e by simp
  note one = fold_expire_ref [OF assms(1) dist _ f, unfolded mem]
  have st': "st' = remove_files removable paths st1" using assms(2) False f by (simp add: clean_expired_def)
  show ?thesis using one False unfolding st' by (auto split: option.split)
qed (use assms in \<open>simp add: clean_expired_def\<close>)

section \<open>Runs\<close>

datatype media_op = MediaPut string media_meta string string | MediaRelease string | MediaClean

definition media_step ::
  "(string \<Rightarrow> bool) \<Rightarrow> duration \<Rightarrow> media_op \<times> time \<Rightarrow> media_state \<Rightarrow> media_state" where
  "media_step removable maxAge op st =
     (case op of
        (MediaPut path meta scope uuid, now) \<Rightarrow> snd (media_store path meta scope uuid now st)
      | (MediaRelease scope, now) \<Rightarrow> release_all removable scope st
      | (MediaClean, now) \<Rightarrow> snd (clean_expired removable maxAge now st))"

definition op_uuids :: "(media_op \<times> time) list \<Rightarrow> string list" where
  "op_uuids ops = concat (map (\<lambda>op. case op of (MediaPut _ _ _ uuid, _) \<Rightarrow> [uuid] | _ \<Rightarrow> []) ops)"

lemma media_step_refs:
  assumes "media_ok st" and "map_of (ms_refs (media_step removable maxAge op st)) ref = Some e"
  shows "map_of (ms_refs st) ref = Some e \<or> (\<exists>uuid. op_uuids [op] = [uuid] \<and> ref = media_ref uuid)"
proof (cases op)
  case (Pair o' now)
  show ?thesis
  proof (cases o')
    case (MediaPut path meta scope uuid)
    then show ?thesis using assms(2) Pair
      by (auto simp: media_step_def media_store_def op_uuids_def Let_def update_conv' split: if_splits)
  next
    case (MediaRelease scope)
    then show ?thesis using assms Pair release_all_result [OF assms(1) refl, of removable scope]
      by (simp add: media_step_def split: if_splits)
  next
    case MediaClean
    obtain n st' where "clean_expired removable maxAge now st = (n, st')" by fastforce
    then show ?thesis using assms Pair MediaClean clean_expired_result [OF assms(1), of removable maxAge now n st' ref]
      by (auto simp: media_step_def)
  qed
qed

lemma media_step_ok:
  assumes "media_ok st" and "\<And>uuid. uuid \<in> set (op_uuids [op]) \<Longrightarrow> map_of (ms_refs st) (media_ref uuid) = None"
  shows "media_ok (media_step removable maxAge op st)"
proof (cases op)
  case (Pair o' now)
  show ?thesis
  proof (cases o')
    case (MediaPut path meta scope uuid)
    then show ?thesis using media_ok_store assms Pair by (simp add: media_step_def op_uuids_def)
  next
    case (MediaRelease scope)
    then show ?thesis using release_all_result [OF assms(1) refl] Pair by (simp add: media_step_def)
  next
    case MediaClean
    then show ?thesis using clean_expired_result [OF assms(1)] Pair
      by (cases "clean_expired removable maxAge now st") (auto simp: media_step_def)
  qed
qed

lemma media_run_ok:
  assumes "media_ok st" and "distinct (op_uuids ops)" and "\<And>uuid. uuid \<in> set (op_uuids ops) \<Longrightarrow> map_of (ms_refs st) (media_ref uuid) = None"
  shows "media_ok (fold (media_step removable maxAge) ops st)"
  using assms
proof (induction ops arbitrary: st)
  case (Cons op ops)
  have uuids: "op_uuids (op # ops) = op_uuids [op] @ op_uuids ops" by (simp add: op_uuids_def)
  have ok: "media_ok (media_step removable maxAge op st)"
    by (rule media_step_ok [OF Cons.prems(1)]) (use Cons.prems(3) uuids in simp)
  have "map_of (ms_refs (media_step removable maxAge op st)) (media_ref uuid) = None" if "uuid \<in> set (op_uuids ops)" for uuid
  proof (rule ccontr)
    assume "map_of (ms_refs (media_step removable maxAge op st)) (media_ref uuid) \<noteq> None"
    then obtain e where "map_of (ms_refs (media_step removable maxAge op st)) (media_ref uuid) = Some e" by blast
    from media_step_refs [OF Cons.prems(1) this] show False
      using Cons.prems(2,3) that uuids by (auto simp: media_ref_def)
  qed
  with ok Cons.IH Cons.prems(2) uuids show ?case by simp
qed simp

section \<open>Properties\<close>

text \<open>After any run of stores, releases and cleanings with distinct identifiers, releasing a scope
  makes every reference that belongs to it unknown and leaves every other reference as it was; the files removed
  from disk are those the references of the scope point to (where they can be removed), and no others.\<close>

theorem released_scope_is_gone:
  assumes "distinct (op_uuids ops)" and "st = fold (media_step removable maxAge) ops (new_media_state disk)"
    and "st' = release_all removable scope st"
  shows "media_resolve ref st' = (if ref \<in> set (refs_of_scope st scope) then None else media_resolve ref st)
    \<and> ms_disk st' = ms_disk st - {p. removable p \<and> list_ex (\<lambda>ref. media_resolve ref st = Some p) (refs_of_scope st scope)}
    \<and> refs_of_scope st' x = (if x = scope then [] else refs_of_scope st x)"
proof -
  have ok: "media_ok st" unfolding assms(2)
    by (rule media_run_ok [OF media_ok_new assms(1)]) (simp add: new_media_state_def)
  then have belongs: "map_of (ms_ref_scope st) r = Some x \<longleftrightarrow> r \<in> set (refs_of_scope st x)" for r x by (simp add: media_ok_def)
  note rel = release_all_result [OF ok assms(3), unfolded belongs]
  have "{p. removable p \<and> (\<exists>ref e. ref \<in> set (refs_of_scope st scope) \<and> map_of (ms_refs st) ref = Some e \<and> me_path e = p)}
      = {p. removable p \<and> list_ex (\<lambda>ref. media_resolve ref st = Some p) (refs_of_scope st scope)}"
    by (auto simp: list_ex_iff media_resolve_def)
  then show ?thesis using rel by (simp add: media_resolve_def)
qed

text \<open>Files are not counted: two references to one file, in two scopes, and the release of the first scope
  deletes the file that the second reference still resolves to.\<close>

lemma shared_file_dangles:
  assumes "media_ok st" and "map_of (ms_ref_scope st) ref1 = Some scope1" and "map_of (ms_ref_scope st) ref2 = Some scope2"
    and "scope1 \<noteq> scope2" and "media_resolve ref1 st = Some p" and "media_resolve ref2 st = Some p" and "removable p"
  shows "media_resolve ref2 (release_all removable scope1 st) = Some p \<and> p \<notin> ms_disk (release_all removable scope1 st)"
  using release_all_result [OF assms(1) refl, of removable scope1] assms(2-) by (auto simp: media_resolve_def)

definition sample_meta :: media_meta where
  "sample_meta = \<lparr>mm_filename = ''f'', mm_content_type = [], mm_source = []\<rparr>"

definition sample_media_ops :: "(media_op \<times> time) list" where
  "sample_media_ops = [(MediaPut ''/a'' sample_meta ''s1'' ''1'', 0), (MediaPut ''/b'' sample_meta ''s2'' ''2'', 5), (MediaClean, 11)]"

theorem released_scope_is_gone_witness:
  "case fold (media_step (\<lambda>_. True) 10) sample_media_ops (new_media_state {''/a'', ''/b''}) of st \<Rightarrow>
     media_resolve ''media://1'' st = None \<and> media_resolve ''media://2'' st = Some ''/b''
     \<and> media_resolve ''media://2'' (release_all (\<lambda>_. True) ''s2'' st) = None"
proof -
  have "distinct (op_uuids sample_media_ops)" by code_simp
  note use = released_scope_is_gone [OF this refl refl, where removable = "\<lambda>_. True" and maxAge = 10 and disk = "{''/a'', ''/b''}"
      and scope = "''s2''" and ref = "''media://2''"]
  have "''media://2'' \<in> set (refs_of_scope (fold (media_step (\<lambda>_. True) 10) sample_media_ops (new_media_state {''/a'', ''/b''})) ''s2'')"
    by code_simp
  moreover have "media_resolve ''media://1'' (fold (media_step (\<lambda>_. True) 10) sample_media_ops (new_media_state {''/a'', ''/b''})) = None"
    "media_resolve ''media://2'' (fold (media_step (\<lambda>_. True) 10) sample_media_ops (new_media_state {''/a'', ''/b''})) = Some ''/b''"
    by code_simp+
  ultimately show ?thesis using use by simp
qed

end
