(* ===== verification/Cron_Service.thy ===== *)
theory Cron_Service
  imports Json
begin

text \<open>
  Scheduled jobs (\<open>pkg/cron/service.go\<close>). Times are milliseconds; the arithmetic on them is
  64-bit. The jobs that ticks found due and the runs that have begun are kept apart from the jobs, so that
  the other operations can come between a tick, the start of a run and its end, as they do in the code, which gives
  up the lock there. A loop runs the jobs it found due one after the other before it ticks again, but the loop of an
  earlier start goes on with them after a stop, beside the loop of the next start: so a tick may come while runs are
  going on, and any job that is due may be the next to begin. The file holds the jobs that were last written; a file
  that cannot be read or parsed is \<open>CronBroken\<close>. Whether a write succeeds and the next tick of a
  cron expression (a library) are arguments.
\<close>

section \<open>Jobs\<close>

record cron_schedule =
  cs_kind :: string
  cs_at :: "int option"
  cs_every :: "int option"
  cs_expr :: string
  cs_tz :: string

record cron_payload =
  cp_kind :: string
  cp_message :: string
  cp_command :: string
  cp_deliver :: bool
  cp_channel :: string
  cp_to :: string

record cron_job_state =
  cj_next :: "int option"
  cj_last :: "int option"
  cj_status :: string
  cj_error :: string

record cron_job =
  cr_id :: string
  cr_name :: string
  cr_enabled :: bool
  cr_schedule :: cron_schedule
  cr_payload :: cron_payload
  cr_state :: cron_job_state
  cr_created :: int
  cr_updated :: int
  cr_delete :: bool

datatype cron_file = CronNoFile | CronBroken | CronSaved "cron_job list"

record cron_env =
  ce_can_save :: "cron_job list \<Rightarrow> bool"
  ce_next_tick :: "string \<Rightarrow> int \<Rightarrow> int option"

record cron_service =
  cv_jobs :: "cron_job list"
  cv_file :: cron_file
  cv_running :: bool
  cv_due :: "string list"
  cv_current :: "(string \<times> int) list"
  cv_ran :: "(string \<times> int) list"

definition set_next :: "int option \<Rightarrow> cron_job \<Rightarrow> cron_job" where
  "set_next n j = j\<lparr>cr_state := (cr_state j)\<lparr>cj_next := n\<rparr>\<rparr>"

text \<open>The first job with an identifier, changed.\<close>

fun update_first :: "string \<Rightarrow> (cron_job \<Rightarrow> cron_job) \<Rightarrow> cron_job list \<Rightarrow> cron_job list" where
  "update_first i f [] = []"
| "update_first i f (j # js) = (if cr_id j = i then f j # js else j # update_first i f js)"

section \<open>Next runs\<close>

definition compute_next_run :: "cron_env \<Rightarrow> cron_schedule \<Rightarrow> int \<Rightarrow> int option" where
  "compute_next_run env s now =
     (if cs_kind s = ''at''
      then (case cs_at s of None \<Rightarrow> None | Some t \<Rightarrow> if t > now then Some t else None)
      else if cs_kind s = ''every''
      then (case cs_every s of None \<Rightarrow> None | Some d \<Rightarrow> if d \<le> 0 then None else Some (int64 (now + d)))
      else if cs_kind s = ''cron''
      then (if cs_expr s = [] then None else ce_next_tick env (cs_expr s) now)
      else None)"

definition recompute_next_runs :: "cron_env \<Rightarrow> int \<Rightarrow> cron_job list \<Rightarrow> cron_job list" where
  "recompute_next_runs env now jobs =
     map (\<lambda>j. if cr_enabled j then set_next (compute_next_run env (cr_schedule j) now) j else j) jobs"

fun next_wake :: "cron_job list \<Rightarrow> int option \<Rightarrow> int option" where
  "next_wake [] best = best"
| "next_wake (j # js) best =
     next_wake js
       (case cj_next (cr_state j) of
          None \<Rightarrow> best
        | Some t \<Rightarrow> if cr_enabled j \<and> (case best of None \<Rightarrow> True | Some b \<Rightarrow> t < b) then Some t else best)"

section \<open>The file\<close>

definition cron_load :: "cron_service \<Rightarrow> bool \<times> cron_service" where
  "cron_load cv =
     (case cv_file cv of
        CronNoFile \<Rightarrow> (True, cv\<lparr>cv_jobs := []\<rparr>)
      | CronBroken \<Rightarrow> (False, cv\<lparr>cv_jobs := []\<rparr>)
      | CronSaved jobs \<Rightarrow> (True, cv\<lparr>cv_jobs := jobs\<rparr>))"

definition cron_reload :: "cron_service \<Rightarrow> bool \<times> cron_service" where
  [simp]: "cron_reload cv = cron_load cv"

definition cron_save :: "cron_env \<Rightarrow> cron_service \<Rightarrow> bool \<times> cron_service" where
  "cron_save env cv =
     (if ce_can_save env (cv_jobs cv) then (True, cv\<lparr>cv_file := CronSaved (cv_jobs cv)\<rparr>) else (False, cv))"

definition new_cron_service :: "cron_file \<Rightarrow> cron_service" where
  "new_cron_service file =
     snd (cron_load \<lparr>cv_jobs = [], cv_file = file, cv_running = False, cv_due = [], cv_current = [], cv_ran = []\<rparr>)"

definition cron_start :: "cron_env \<Rightarrow> int \<Rightarrow> cron_service \<Rightarrow> bool \<times> cron_service" where
  "cron_start env now cv =
     (if cv_running cv then (True, cv)
      else
        case cron_load cv of
          (False, cv) \<Rightarrow> (False, cv)
        | (True, cv) \<Rightarrow>
            (case cron_save env (cv\<lparr>cv_jobs := recompute_next_runs env now (cv_jobs cv)\<rparr>) of
               (False, cv) \<Rightarrow> (False, cv)
             | (True, cv) \<Rightarrow> (True, cv\<lparr>cv_running := True\<rparr>)))"

definition cron_stop :: "cron_service \<Rightarrow> cron_service" where
  "cron_stop cv = cv\<lparr>cv_running := False\<rparr>"

section \<open>The run loop\<close>

definition is_due :: "int \<Rightarrow> cron_job \<Rightarrow> bool" where
  "is_due now j \<longleftrightarrow> cr_enabled j \<and> (case cj_next (cr_state j) of None \<Rightarrow> False | Some t \<Rightarrow> t \<le> now)"

text \<open>\<open>checkJobs\<close> up to the point where it gives up the lock.\<close>

definition cron_tick :: "cron_env \<Rightarrow> int \<Rightarrow> cron_service \<Rightarrow> cron_service" where
  "cron_tick env now cv =
     (if \<not> cv_running cv then cv
      else
        let due = map cr_id (filter (is_due now) (cv_jobs cv));
            jobs = map (\<lambda>j. if cr_id j \<in> set due then set_next None j else j) (cv_jobs cv)
        in snd (cron_save env (cv\<lparr>cv_jobs := jobs, cv_due := cv_due cv @ due\<rparr>)))"

text \<open>\<open>executeJobByID\<close>: a job that is due is looked up and handed to the callback.\<close>

definition cron_begin :: "string \<Rightarrow> int \<Rightarrow> cron_service \<Rightarrow> cron_service" where
  "cron_begin i now cv =
     (if i \<notin> set (cv_due cv) then cv
      else
        let cv = cv\<lparr>cv_due := remove1 i (cv_due cv)\<rparr> in
        case find (\<lambda>j. cr_id j = i) (cv_jobs cv) of
          None \<Rightarrow> cv
        | Some j \<Rightarrow> cv\<lparr>cv_current := cv_current cv @ [(i, now)], cv_ran := cv_ran cv @ [(i, now)]\<rparr>)"

definition remove_job :: "cron_env \<Rightarrow> string \<Rightarrow> cron_service \<Rightarrow> bool \<times> cron_service" where
  "remove_job env i cv =
     (let jobs = filter (\<lambda>j. cr_id j \<noteq> i) (cv_jobs cv);
          removed = length jobs < length (cv_jobs cv);
          cv = cv\<lparr>cv_jobs := jobs\<rparr>
      in (removed, if removed then snd (cron_save env cv) else cv))"

text \<open>What the end of a run writes to its job.\<close>

definition finished_job :: "int \<Rightarrow> int \<Rightarrow> string option \<Rightarrow> cron_job \<Rightarrow> cron_job" where
  "finished_job start now err j =
     j\<lparr>cr_state := (cr_state j)\<lparr>cj_last := Some start,
          cj_status := (case err of None \<Rightarrow> ''ok'' | Some _ \<Rightarrow> ''error''), cj_error := (case err of None \<Rightarrow> [] | Some e \<Rightarrow> e)\<rparr>,
       cr_updated := now\<rparr>"

definition cron_finish :: "cron_env \<Rightarrow> string \<Rightarrow> int \<Rightarrow> string option \<Rightarrow> int \<Rightarrow> cron_service \<Rightarrow> cron_service" where
  "cron_finish env i start err now cv =
     (if (i, start) \<notin> set (cv_current cv) then cv
      else
          let cv = cv\<lparr>cv_current := remove1 (i, start) (cv_current cv)\<rparr> in
          case find (\<lambda>j. cr_id j = i) (cv_jobs cv) of
             None \<Rightarrow> cv
           | Some j \<Rightarrow>
               let cv = cv\<lparr>cv_jobs := update_first i (finished_job start now err) (cv_jobs cv)\<rparr> in
               if cs_kind (cr_schedule j) = ''at'' \<and> cr_delete j
               then snd (cron_save env (snd (remove_job env i cv)))
               else if cs_kind (cr_schedule j) = ''at''
               then snd (cron_save env (cv\<lparr>cv_jobs :=
                      update_first i (\<lambda>j. set_next None (j\<lparr>cr_enabled := False\<rparr>)) (cv_jobs cv)\<rparr>))
               else snd (cron_save env (cv\<lparr>cv_jobs :=
                      update_first i (set_next (compute_next_run env (cr_schedule j) now)) (cv_jobs cv)\<rparr>)))"

section \<open>Operations of the clients\<close>

text \<open>A job whose write fails is reported as an error and stays in memory.\<close>

definition add_job ::
  "cron_env \<Rightarrow> string \<Rightarrow> int \<Rightarrow> string \<Rightarrow> cron_schedule \<Rightarrow> string \<Rightarrow> bool \<Rightarrow> string \<Rightarrow> string \<Rightarrow> cron_service
     \<Rightarrow> cron_job option \<times> cron_service" where
  "add_job env i now name schedule message deliver channel to cv =
     (let job = \<lparr>cr_id = i, cr_name = name, cr_enabled = True, cr_schedule = schedule,
            cr_payload = \<lparr>cp_kind = ''agent_turn'', cp_message = message, cp_command = [], cp_deliver = deliver,
              cp_channel = channel, cp_to = to\<rparr>,
            cr_state = \<lparr>cj_next = compute_next_run env schedule now, cj_last = None, cj_status = [], cj_error = []\<rparr>,
            cr_created = now, cr_updated = now, cr_delete = (cs_kind schedule = ''at'')\<rparr>
      in case cron_save env (cv\<lparr>cv_jobs := cv_jobs cv @ [job]\<rparr>) of
           (ok, cv) \<Rightarrow> (if ok then Some job else None, cv))"

definition update_job :: "cron_env \<Rightarrow> int \<Rightarrow> cron_job \<Rightarrow> cron_service \<Rightarrow> bool \<times> cron_service" where
  "update_job env now job cv =
     (if list_ex (\<lambda>j. cr_id j = cr_id job) (cv_jobs cv)
      then cron_save env (cv\<lparr>cv_jobs := update_first (cr_id job) (\<lambda>_. job\<lparr>cr_updated := now\<rparr>) (cv_jobs cv)\<rparr>)
      else (False, cv))"

definition enable_job :: "cron_env \<Rightarrow> int \<Rightarrow> string \<Rightarrow> bool \<Rightarrow> cron_service \<Rightarrow> bool \<times> cron_service" where
  "enable_job env now i enabled cv =
     (if list_ex (\<lambda>j. cr_id j = i) (cv_jobs cv)
      then (True, snd (cron_save env (cv\<lparr>cv_jobs := update_first i (\<lambda>j.
              set_next (if enabled then compute_next_run env (cr_schedule j) now else None)
                (j\<lparr>cr_enabled := enabled, cr_updated := now\<rparr>)) (cv_jobs cv)\<rparr>)))
      else (False, cv))"

definition list_jobs :: "bool \<Rightarrow> cron_service \<Rightarrow> cron_job list" where
  "list_jobs includeDisabled cv = (if includeDisabled then cv_jobs cv else filter cr_enabled (cv_jobs cv))"

definition cron_status :: "cron_service \<Rightarrow> bool \<times> nat \<times> int option" where
  "cron_status cv = (cv_running cv, length (cv_jobs cv), next_wake (cv_jobs cv) None)"

section \<open>Runs\<close>

text \<open>The operations with the times at which they happen. The start of a job that is not due and the end of a run
  that is not going on have no effect.\<close>

datatype cron_op =
    OpStart | OpStop | OpLoad | OpTick | OpBegin string | OpFinish string int "string option"
  | OpAdd string string cron_schedule string bool string string | OpUpdate cron_job | OpRemove string | OpEnable string bool

fun cron_step :: "cron_env \<Rightarrow> cron_op \<times> int \<Rightarrow> cron_service \<Rightarrow> cron_service" where
  "cron_step env (OpStart, now) cv = snd (cron_start env now cv)"
| "cron_step env (OpStop, now) cv = cron_stop cv"
| "cron_step env (OpTick, now) cv = cron_tick env now cv"
| "cron_step env (OpLoad, now) cv = snd (cron_reload cv)"
| "cron_step env (OpBegin i, now) cv = cron_begin i now cv"
| "cron_step env (OpFinish i start err, now) cv = cron_finish env i start err now cv"
| "cron_step env (OpAdd i name schedule message deliver channel to, now) cv =
     snd (add_job env i now name schedule message deliver channel to cv)"
| "cron_step env (OpUpdate job, now) cv = snd (update_job env now job cv)"
| "cron_step env (OpRemove i, now) cv = snd (remove_job env i cv)"
| "cron_step env (OpEnable i enabled, now) cv = snd (enable_job env now i enabled cv)"

definition cron_run :: "cron_env \<Rightarrow> (cron_op \<times> int) list \<Rightarrow> cron_service \<Rightarrow> cron_service" where
  "cron_run env ops cv = fold (cron_step env) ops cv"

section \<open>Lemmas\<close>

definition file_jobs :: "cron_service \<Rightarrow> cron_job list" where
  "file_jobs cv = (case cv_file cv of CronSaved jobs \<Rightarrow> jobs | _ \<Rightarrow> [])"

lemma set_next_simps [simp]:
  "cr_id (set_next n j) = cr_id j" "cr_enabled (set_next n j) = cr_enabled j" "cr_schedule (set_next n j) = cr_schedule j"
  "cj_next (cr_state (set_next n j)) = n" "cr_delete (set_next n j) = cr_delete j"
  by (simp_all add: set_next_def)

lemma finished_job_simps [simp]:
  "cr_id (finished_job s now e j) = cr_id j" "cr_enabled (finished_job s now e j) = cr_enabled j"
  "cr_schedule (finished_job s now e j) = cr_schedule j" "cj_next (cr_state (finished_job s now e j)) = cj_next (cr_state j)"
  by (simp_all add: finished_job_def)

lemma cron_save_simps [simp]:
  "cv_jobs (snd (cron_save env cv)) = cv_jobs cv" "cv_due (snd (cron_save env cv)) = cv_due cv"
  "cv_current (snd (cron_save env cv)) = cv_current cv" "cv_ran (snd (cron_save env cv)) = cv_ran cv"
  "cv_running (snd (cron_save env cv)) = cv_running cv"
  by (simp_all add: cron_save_def)

lemma file_jobs_save: "file_jobs (snd (cron_save env cv)) = cv_jobs cv \<or> file_jobs (snd (cron_save env cv)) = file_jobs cv"
  by (simp add: cron_save_def file_jobs_def)

lemma file_jobs_simps [simp]:
  "file_jobs (cv\<lparr>cv_jobs := js\<rparr>) = file_jobs cv" "file_jobs (cv\<lparr>cv_due := d\<rparr>) = file_jobs cv"
  "file_jobs (cv\<lparr>cv_current := c\<rparr>) = file_jobs cv" "file_jobs (cv\<lparr>cv_ran := r\<rparr>) = file_jobs cv"
  "file_jobs (cv\<lparr>cv_running := b\<rparr>) = file_jobs cv"
  by (simp_all add: file_jobs_def)

text \<open>A one-time job: its schedule, and a next run that is its time or none, and none when it is disabled.\<close>

definition one_time :: "string \<Rightarrow> int \<Rightarrow> cron_job \<Rightarrow> bool" where
  "one_time i a j \<longleftrightarrow> (cr_id j = i \<longrightarrow> cs_kind (cr_schedule j) = ''at'' \<and> cs_at (cr_schedule j) = Some a
     \<and> (cj_next (cr_state j) = None \<or> cr_enabled j \<and> cj_next (cr_state j) = Some a))"

text \<open>What may happen at time \<open>t\<close> to the job: it may be updated as a one-time job of the same time before that time, and
  until then the file may be loaded again, or at any time if every write has succeeded.\<close>

definition leaves_job :: "bool \<Rightarrow> string \<Rightarrow> int \<Rightarrow> cron_op \<times> int \<Rightarrow> bool" where
  "leaves_job saved i a x = (case x of
     (OpAdd i' _ _ _ _ _ _, t) \<Rightarrow> i' \<noteq> i
   | (OpUpdate job, t) \<Rightarrow> cr_id job \<noteq> i \<or> one_time i a job \<and> t < a
   | (OpLoad, t) \<Rightarrow> saved \<or> t < a
   | _ \<Rightarrow> True)"

definition jobs_once :: "string \<Rightarrow> int \<Rightarrow> cron_job list \<Rightarrow> bool" where
  "jobs_once i a jobs \<longleftrightarrow> list_all (one_time i a) jobs \<and> count_list (map cr_id jobs) i \<le> 1"

definition no_next :: "string \<Rightarrow> cron_job list \<Rightarrow> bool" where
  "no_next i jobs \<longleftrightarrow> list_all (\<lambda>j. cr_id j = i \<longrightarrow> cj_next (cr_state j) = None) jobs"

definition runs_of :: "string \<Rightarrow> cron_service \<Rightarrow> nat" where
  "runs_of i cv = count_list (map fst (cv_ran cv)) i"

lemma update_first_ids: "(\<And>j. cr_id (f j) = cr_id j) \<Longrightarrow> map cr_id (update_first i f jobs) = map cr_id jobs"
  by (induction jobs) auto

lemma list_all_update_first: "list_all P jobs \<Longrightarrow> (\<And>j. P j \<Longrightarrow> P (f j)) \<Longrightarrow> list_all P (update_first i f jobs)"
  by (induction jobs) auto

lemma list_all_update_first_id:
  "list_all P jobs \<Longrightarrow> (\<And>j. cr_id j = i \<Longrightarrow> P j \<Longrightarrow> P (f j)) \<Longrightarrow> list_all P (update_first i f jobs)"
  by (induction jobs) auto

lemma jobs_once_update_first:
  assumes "jobs_once i a jobs" and "\<And>j. cr_id (f j) = cr_id j" and "\<And>j. cr_id j = i' \<Longrightarrow> one_time i a j \<Longrightarrow> one_time i a (f j)"
  shows "jobs_once i a (update_first i' f jobs)"
  using assms unfolding jobs_once_def by (simp add: update_first_ids list_all_update_first_id)

lemma jobs_once_map:
  assumes "jobs_once i a jobs" and "\<And>j. cr_id (f j) = cr_id j" and "\<And>j. one_time i a j \<Longrightarrow> one_time i a (f j)"
  shows "jobs_once i a (map f jobs)"
proof -
  have ids: "map cr_id (map f jobs) = map cr_id jobs" using assms(2) by simp
  show ?thesis unfolding jobs_once_def ids using assms(1,3) by (simp add: jobs_once_def list_all_iff)
qed

lemma jobs_once_filter:
  assumes "jobs_once i a jobs"
  shows "jobs_once i a (filter (\<lambda>j. cr_id j \<noteq> i') jobs)"
proof -
  have "count_list (map cr_id (filter P jobs)) i \<le> count_list (map cr_id jobs) i" for P by (induction jobs) auto
  then show ?thesis using assms unfolding jobs_once_def by (auto simp: list_all_iff intro: le_trans)
qed

lemma one_time_next:
  "one_time i a j \<Longrightarrow> one_time i a (set_next (compute_next_run env (cr_schedule j) now) (j\<lparr>cr_enabled := True, cr_updated := u\<rparr>))"
  "one_time i a j \<Longrightarrow> cr_enabled j \<Longrightarrow> one_time i a (set_next (compute_next_run env (cr_schedule j) now) j)"
  by (auto simp: one_time_def compute_next_run_def)

lemma one_time_past:
  "one_time i a j \<Longrightarrow> cr_id j = i \<Longrightarrow> a \<le> now \<Longrightarrow> compute_next_run env (cr_schedule j) now = None"
  by (auto simp: one_time_def compute_next_run_def)

text \<open>What is kept: the job is a one-time job in memory and in the file, and it is among the due jobs or has been
  run at most \<open>k\<close> times in all. It is spent when its time has passed and it has no next run, and only then it has
  been found due.\<close>

definition cron_kept :: "string \<Rightarrow> int \<Rightarrow> int \<Rightarrow> bool \<Rightarrow> nat \<Rightarrow> cron_service \<Rightarrow> bool" where
  "cron_kept i a t spent k cv \<longleftrightarrow> jobs_once i a (cv_jobs cv) \<and> jobs_once i a (file_jobs cv)
     \<and> count_list (cv_due cv) i + runs_of i cv \<le> k \<and> k \<le> 1 \<and> (spent \<longrightarrow> a \<le> t \<and> no_next i (cv_jobs cv)) \<and> (\<not> spent \<longrightarrow> k = 0)
     \<and> list_all (\<lambda>r. fst r = i \<longrightarrow> a \<le> snd r) (cv_ran cv)"

lemma cron_kept_save:
  assumes "jobs_once i a (cv_jobs cv)" and "jobs_once i a (file_jobs cv)"
  shows "jobs_once i a (file_jobs (snd (cron_save env cv)))"
  using assms file_jobs_save [of env cv] by metis

lemma runs_of_simps [simp]:
  "runs_of i (cv\<lparr>cv_jobs := js\<rparr>) = runs_of i cv" "runs_of i (cv\<lparr>cv_due := d\<rparr>) = runs_of i cv"
  "runs_of i (cv\<lparr>cv_current := c\<rparr>) = runs_of i cv" "runs_of i (cv\<lparr>cv_running := b\<rparr>) = runs_of i cv"
  "runs_of i (snd (cron_save env cv)) = runs_of i cv"
  by (simp_all add: runs_of_def)

lemma kept_by_change:
  assumes "cron_kept i a t s k cv" and "t \<le> t'" and "jobs_once i a jobs"
    and "no_next i (cv_jobs cv) \<Longrightarrow> a \<le> t' \<Longrightarrow> no_next i jobs"
  shows "cron_kept i a t' s k (cv\<lparr>cv_jobs := jobs\<rparr>)"
  using assms unfolding cron_kept_def by auto

lemma kept_by_save: "cron_kept i a t s k cv \<Longrightarrow> cron_kept i a t s k (snd (cron_save env cv))"
  using cron_kept_save [of i a cv env] unfolding cron_kept_def by simp

lemma kept_later: "cron_kept i a t s k cv \<Longrightarrow> t \<le> t' \<Longrightarrow> cron_kept i a t' s k cv"
  unfolding cron_kept_def by auto

lemma no_next_update_first:
  "no_next i jobs \<Longrightarrow> (\<And>j. cr_id (f j) = cr_id j) \<Longrightarrow> (\<And>j. cr_id j = i' \<Longrightarrow> i' = i \<Longrightarrow> cj_next (cr_state j) = None \<Longrightarrow> cj_next (cr_state (f j)) = None)
     \<Longrightarrow> no_next i (update_first i' f jobs)"
  unfolding no_next_def by (induction jobs) auto

lemma kept_jobs: "cron_kept i a t s k cv \<Longrightarrow> jobs_once i a (cv_jobs cv)"
  by (simp add: cron_kept_def)

lemma kept_start:
  assumes "cron_kept i a t s k cv" and "t \<le> t'"
  shows "cron_kept i a t' s k (snd (cron_start env t' cv))"
proof -
  have stored: "jobs_once i a (file_jobs cv)" using assms(1) by (simp add: cron_kept_def)
  obtain ok cv1 where load: "cron_load cv = (ok, cv1)" by fastforce
  then have cv1: "cv1 = cv\<lparr>cv_jobs := file_jobs cv\<rparr> \<and> (ok \<or> file_jobs cv = [])"
    by (auto simp: cron_load_def file_jobs_def split: cron_file.splits)
  have re: "jobs_once i a (recompute_next_runs env t' (file_jobs cv))"
    unfolding recompute_next_runs_def by (rule jobs_once_map [OF stored]) (auto simp: one_time_next)
  have past: "no_next i (recompute_next_runs env t' (file_jobs cv))" if "a \<le> t'"
    using stored that unfolding no_next_def recompute_next_runs_def jobs_once_def list_all_iff
    by (auto simp: one_time_past) (auto simp: one_time_def)
  have "cron_kept i a t' s k (cv\<lparr>cv_jobs := []\<rparr>)" by (rule kept_by_change [OF assms]) (simp_all add: jobs_once_def no_next_def)
  moreover have "cron_kept i a t' s k (cv\<lparr>cv_jobs := recompute_next_runs env t' (file_jobs cv)\<rparr>)"
    by (rule kept_by_change [OF assms re past])
  from kept_by_save [OF this, of env]
  have "cron_kept i a t' s k (snd (cron_save env (cv\<lparr>cv_jobs := recompute_next_runs env t' (file_jobs cv)\<rparr>)))" .
  then have "cron_kept i a t' s k ((snd (cron_save env (cv\<lparr>cv_jobs := recompute_next_runs env t' (file_jobs cv)\<rparr>)))\<lparr>cv_running := True\<rparr>)"
    by (simp add: cron_kept_def)
  ultimately show ?thesis
    using kept_later [OF assms] cv1 \<open>cron_kept i a t' s k (snd (cron_save env _))\<close>
    by (auto simp: cron_start_def load split: prod.split bool.split)
qed


lemma count_due: "count_list (map cr_id (filter P jobs)) i \<le> count_list (map cr_id jobs) i"
  by (induction jobs) auto

lemma kept_tick:
  assumes kept: "cron_kept i a t s k cv" and later: "t \<le> t'"
  shows "\<exists>s' k'. cron_kept i a t' s' k' (cron_tick env t' cv) \<and> (s \<longrightarrow> s' \<and> k' = k)"
proof (cases "\<not> cv_running cv")
  case True
  then show ?thesis using kept_later [OF kept later] by (auto simp: cron_tick_def)
next
  case False
  let ?due = "map cr_id (filter (is_due t') (cv_jobs cv))"
  let ?f = "\<lambda>j. if cr_id j \<in> set ?due then set_next None j else j"
  have jobs: "jobs_once i a (cv_jobs cv)" using kept by (rule kept_jobs)
  have once: "jobs_once i a (map ?f (cv_jobs cv))" by (rule jobs_once_map [OF jobs]) (auto simp: one_time_def)
  have tick: "cron_tick env t' cv = snd (cron_save env ((cv\<lparr>cv_jobs := map ?f (cv_jobs cv)\<rparr>)\<lparr>cv_due := cv_due cv @ ?due\<rparr>))"
    using False by (simp add: cron_tick_def Let_def)
  have change: "cron_kept i a t' s k (cv\<lparr>cv_jobs := map ?f (cv_jobs cv)\<rparr>)"
    by (rule kept_by_change [OF kept later once]) (auto simp: no_next_def list_all_iff)
  show ?thesis
  proof (cases "i \<in> set ?due")
    case notdue: False
    then have "count_list ?due i = 0" by (simp add: count_list_0_iff)
    then have "cron_kept i a t' s k ((cv\<lparr>cv_jobs := map ?f (cv_jobs cv)\<rparr>)\<lparr>cv_due := cv_due cv @ ?due\<rparr>)"
      using change unfolding cron_kept_def by simp
    then show ?thesis unfolding tick using kept_by_save by blast
  next
    case True
    then obtain j where j: "j \<in> set (cv_jobs cv)" "cr_id j = i" "is_due t' j" by auto
    then have next_run: "cj_next (cr_state j) = Some a" "a \<le> t'"
      using jobs by (auto simp: jobs_once_def list_all_iff one_time_def is_due_def split: option.splits)
    then have "\<not> no_next i (cv_jobs cv)" using j by (auto simp: no_next_def list_all_iff)
    then have zero: "\<not> s" "k = 0" "runs_of i cv = 0" "count_list (cv_due cv) i = 0" using kept by (auto simp: cron_kept_def)
    have "count_list ?due i \<le> 1" using count_due [of "is_due t'" "cv_jobs cv" i] jobs unfolding jobs_once_def by linarith
    moreover have "no_next i (map ?f (cv_jobs cv))" using True by (auto simp: no_next_def list_all_iff)
    ultimately have "cron_kept i a t' True 1 ((cv\<lparr>cv_jobs := map ?f (cv_jobs cv)\<rparr>)\<lparr>cv_due := cv_due cv @ ?due\<rparr>)"
      using change zero next_run(2) unfolding cron_kept_def by simp
    then show ?thesis unfolding tick using kept_by_save zero(1) by blast
  qed
qed

lemma count_remove1: "count_list (remove1 x xs) y = count_list xs y - (if x = y \<and> x \<in> set xs then 1 else 0)"
  by (induction xs) (auto simp: count_list_0_iff)

lemma kept_begin:
  assumes kept: "cron_kept i a t s k cv" and later: "t \<le> t'"
  shows "cron_kept i a t' s k (cron_begin i' t' cv)"
proof (cases "i' \<in> set (cv_due cv)")
  case False
  then show ?thesis using kept_later [OF kept later] by (simp add: cron_begin_def)
next
  case True
  have "count_list (cv_due cv) i' \<noteq> 0" using True by (simp add: count_list_0_iff)
  then have start: "i' = i \<Longrightarrow> a \<le> t' \<and> count_list (cv_due cv) i \<noteq> 0" using kept later by (auto simp: cron_kept_def)
  show ?thesis
    using kept_later [OF kept later] True start
    by (cases "find (\<lambda>j. cr_id j = i') (cv_jobs cv)")
      (auto simp: cron_begin_def Let_def cron_kept_def runs_of_def count_remove1)
qed

lemma kept_remove:
  assumes kept: "cron_kept i a t s k cv"
  shows "cron_kept i a t s k (snd (remove_job env i' cv))"
proof -
  have "cron_kept i a t s k (cv\<lparr>cv_jobs := filter (\<lambda>j. cr_id j \<noteq> i') (cv_jobs cv)\<rparr>)"
    by (rule kept_by_change [OF kept order_refl jobs_once_filter [OF kept_jobs [OF kept]]]) (auto simp: no_next_def list_all_iff)
  then show ?thesis using kept_by_save by (simp add: remove_job_def Let_def)
qed

lemma kept_update_first:
  assumes kept: "cron_kept i a t s k cv" and later: "t \<le> t'" and "\<And>j. cr_id (f j) = cr_id j"
    and "\<And>j. cr_id j = i' \<Longrightarrow> one_time i a j \<Longrightarrow> one_time i a (f j)"
    and "\<And>j. cr_id j = i \<Longrightarrow> i' = i \<Longrightarrow> one_time i a j \<Longrightarrow> a \<le> t' \<Longrightarrow> cj_next (cr_state j) = None \<Longrightarrow> cj_next (cr_state (f j)) = None"
  shows "cron_kept i a t' s k (cv\<lparr>cv_jobs := update_first i' f (cv_jobs cv)\<rparr>)"
proof (rule kept_by_change [OF kept later jobs_once_update_first [OF kept_jobs [OF kept] assms(3,4)]])
  assume none: "no_next i (cv_jobs cv)" and a: "a \<le> t'"
  have "list_all (one_time i a) (cv_jobs cv)" using kept_jobs [OF kept] by (simp add: jobs_once_def)
  with none have "list_all (\<lambda>j. one_time i a j \<and> (cr_id j = i \<longrightarrow> cj_next (cr_state j) = None)) (cv_jobs cv)"
    by (simp add: no_next_def list_all_iff)
  then have "list_all (\<lambda>j. one_time i a j \<and> (cr_id j = i \<longrightarrow> cj_next (cr_state j) = None)) (update_first i' f (cv_jobs cv))"
    by (rule list_all_update_first_id) (use assms(3,4,5) a in \<open>auto\<close>)
  then show "no_next i (update_first i' f (cv_jobs cv))" by (simp add: no_next_def list_all_iff)
qed

lemma kept_finish:
  assumes kept: "cron_kept i a t s k cv" and later: "t \<le> t'"
  shows "cron_kept i a t' s k (cron_finish env i' start err t' cv)"
proof (cases "(i', start) \<in> set (cv_current cv)")
  case False
  then show ?thesis using kept_later [OF kept later] by (simp add: cron_finish_def)
next
  case True
  let ?cv = "cv\<lparr>cv_current := remove1 (i', start) (cv_current cv)\<rparr>"
  have kept1: "cron_kept i a t' s k ?cv" using kept_later [OF kept later] by (simp add: cron_kept_def)
  show ?thesis
  proof (cases "find (\<lambda>j. cr_id j = i') (cv_jobs cv)")
    case None
    then show ?thesis using kept1 True by (simp add: cron_finish_def)
  next
    case found: (Some j)
    have j: "j \<in> set (cv_jobs cv)" "cr_id j = i'" using find_Some_set [OF found] by auto
    let ?cv1 = "?cv\<lparr>cv_jobs := update_first i' (finished_job start t' err) (cv_jobs ?cv)\<rparr>"
    have kept2: "cron_kept i a t' s k ?cv1"
      by (rule kept_update_first [OF kept1 order_refl]) (auto simp: one_time_def)
    have at: "cs_kind (cr_schedule j) = ''at''" if "i' = i"
      using kept_jobs [OF kept] j that by (auto simp: jobs_once_def list_all_iff one_time_def)
    have kept3: "cron_kept i a t' s k (?cv1\<lparr>cv_jobs := update_first i' (\<lambda>j. set_next None (j\<lparr>cr_enabled := False\<rparr>)) (cv_jobs ?cv1)\<rparr>)"
      by (rule kept_update_first [OF kept2 order_refl]) (auto simp: one_time_def)
    have kept4: "cron_kept i a t' s k (?cv1\<lparr>cv_jobs := update_first i' (set_next n) (cv_jobs ?cv1)\<rparr>)" if "i' \<noteq> i" for n
      by (rule kept_update_first [OF kept2 order_refl]) (use that in \<open>auto simp: one_time_def\<close>)
    show ?thesis
      using kept_by_save [OF kept_remove [OF kept2, of env i'], of env] kept_by_save [OF kept3, of env] kept_by_save [OF kept4, of env] at found True
      by (auto simp: cron_finish_def Let_def)
  qed
qed

text \<open>While every write succeeds the file holds the jobs in memory.\<close>

definition file_current :: "cron_service \<Rightarrow> bool" where
  "file_current cv \<longleftrightarrow> cv_file cv = CronSaved (cv_jobs cv)"

lemma file_current_save: "ce_can_save env (cv_jobs cv) \<Longrightarrow> file_current (snd (cron_save env cv))"
  by (simp add: file_current_def cron_save_def)

lemma file_current_simps [simp]:
  "file_current (cv\<lparr>cv_due := d\<rparr>) = file_current cv" "file_current (cv\<lparr>cv_current := c\<rparr>) = file_current cv"
  "file_current (cv\<lparr>cv_ran := r\<rparr>) = file_current cv" "file_current (cv\<lparr>cv_running := b\<rparr>) = file_current cv"
  by (simp_all add: file_current_def)

lemma file_current_load: "file_current cv \<Longrightarrow> cron_load cv = (True, cv)"
  by (simp add: file_current_def cron_load_def)

lemma file_current_remove:
  assumes "file_current cv" and "\<And>jobs. ce_can_save env jobs"
  shows "file_current (snd (remove_job env i cv))"
proof (cases "length (filter (\<lambda>j. cr_id j \<noteq> i) (cv_jobs cv)) < length (cv_jobs cv)")
  case True
  then show ?thesis using file_current_save [OF assms(2)] by (simp add: remove_job_def)
next
  case False
  then have "filter (\<lambda>j. cr_id j \<noteq> i) (cv_jobs cv) = cv_jobs cv"
    using length_filter_less [of _ "cv_jobs cv" "\<lambda>j. cr_id j \<noteq> i"] by (auto simp: filter_id_conv)
  then show ?thesis using assms(1) False by (simp add: remove_job_def file_current_def)
qed

lemma file_current_finish:
  assumes "file_current cv" and "\<And>jobs. ce_can_save env jobs"
  shows "file_current (cron_finish env i start err now cv)"
  using assms(1) file_current_save [of env, OF assms(2)]
  by (auto simp: cron_finish_def Let_def split: option.split)

lemma file_current_step:
  assumes "file_current cv" and "\<And>jobs. ce_can_save env jobs"
  shows "file_current (cron_step env x cv)"
proof -
  obtain op t where x: "x = (op, t)" by fastforce
  note save = file_current_save [of env, OF assms(2)]
  show ?thesis
  proof (cases op)
    case OpStart
    have "cron_save env cv' = (True, cv'\<lparr>cv_file := CronSaved (cv_jobs cv')\<rparr>)" for cv'
      using assms(2) by (simp add: cron_save_def)
    then show ?thesis unfolding x OpStart
      using assms(1) file_current_load [OF assms(1)] by (simp add: cron_start_def file_current_def)
  next
    case (OpFinish i start err)
    then show ?thesis using file_current_finish [OF assms] by (simp add: x)
  next
    case (OpRemove i)
    then show ?thesis using file_current_remove [OF assms] by (simp add: x)
  qed (use assms(1) save in \<open>simp_all add: x cron_stop_def file_current_load cron_tick_def cron_begin_def Let_def
      add_job_def update_job_def enable_job_def case_prod_beta split: option.split\<close>)
qed

lemma kept_step:
  assumes kept: "cron_kept i a t s k cv" and later: "t \<le> t'" and leaves: "leaves_job saved i a (op, t')"
    and written: "saved \<Longrightarrow> file_current cv"
  shows "\<exists>s' k'. cron_kept i a t' s' k' (cron_step env (op, t') cv) \<and> (s \<longrightarrow> s' \<and> k' = k)"
proof -
  note now = kept_later [OF kept later]
  have "cron_kept i a t' s k (cron_step env (op, t') cv)" if "op \<noteq> OpTick"
  proof (cases op)
    case OpStart
    then show ?thesis using kept_start [OF kept later] by simp
  next
    case OpStop
    then show ?thesis using now by (simp add: cron_stop_def cron_kept_def)
  next
    case OpLoad
    show ?thesis
    proof (cases saved)
      case True
      then show ?thesis using file_current_load [OF written] now OpLoad by simp
    next
      case False
      then have before: "t' < a" using leaves OpLoad by (simp add: leaves_job_def)
      have "cron_kept i a t' s k (cv\<lparr>cv_jobs := file_jobs cv\<rparr>)"
        by (rule kept_by_change [OF kept later]) (use kept before in \<open>auto simp: cron_kept_def\<close>)
      then show ?thesis unfolding OpLoad by (simp add: cron_load_def file_jobs_def split: cron_file.splits)
    qed
  next
    case (OpBegin i')
    then show ?thesis using kept_begin [OF kept later] by simp
  next
    case (OpFinish i' start err)
    then show ?thesis using kept_finish [OF kept later] by simp
  next
    case (OpAdd i' name schedule message deliver channel to)
    then have "i' \<noteq> i" using leaves by (simp add: leaves_job_def)
    have "cron_kept i a t' s k (cv\<lparr>cv_jobs := cv_jobs cv @ [j]\<rparr>)" if "cr_id j = i'" for j
      by (rule kept_by_change [OF kept later])
        (use kept_jobs [OF kept] that \<open>i' \<noteq> i\<close> in \<open>auto simp: jobs_once_def one_time_def no_next_def\<close>)
    from kept_by_save [OF this] show ?thesis
      unfolding OpAdd cron_step.simps add_job_def Let_def by (simp add: case_prod_beta)
  next
    case (OpUpdate job)
    then have other: "cr_id job \<noteq> i \<or> one_time i a job \<and> t' < a" using leaves by (simp add: leaves_job_def)
    have "cron_kept i a t' s k (cv\<lparr>cv_jobs := update_first (cr_id job) (\<lambda>_. job\<lparr>cr_updated := t'\<rparr>) (cv_jobs cv)\<rparr>)"
    proof (rule kept_by_change [OF kept later])
      have ids: "map cr_id (update_first (cr_id job) (\<lambda>_. job\<lparr>cr_updated := t'\<rparr>) jobs) = map cr_id jobs" for jobs
        by (induction jobs) auto
      have "list_all (one_time i a) (update_first (cr_id job) (\<lambda>_. job\<lparr>cr_updated := t'\<rparr>) (cv_jobs cv))"
        by (rule list_all_update_first_id) (use kept_jobs [OF kept] other in \<open>auto simp: jobs_once_def one_time_def\<close>)
      then show "jobs_once i a (update_first (cr_id job) (\<lambda>_. job\<lparr>cr_updated := t'\<rparr>) (cv_jobs cv))"
        using kept_jobs [OF kept] by (simp add: jobs_once_def ids)
      assume none: "no_next i (cv_jobs cv)" and "a \<le> t'"
      then have "cr_id job \<noteq> i" using other by simp
      then show "no_next i (update_first (cr_id job) (\<lambda>_. job\<lparr>cr_updated := t'\<rparr>) (cv_jobs cv))"
        unfolding no_next_def by (intro list_all_update_first_id [OF none [unfolded no_next_def]]) simp
    qed
    from kept_by_save [OF this] now show ?thesis unfolding OpUpdate by (simp add: update_job_def)
  next
    case (OpRemove i')
    then show ?thesis using kept_remove [OF now] by simp
  next
    case (OpEnable i' enabled)
    have "cron_kept i a t' s k (cv\<lparr>cv_jobs := update_first i' (\<lambda>j. set_next (if enabled then compute_next_run env (cr_schedule j) t' else None)
                (j\<lparr>cr_enabled := enabled, cr_updated := t'\<rparr>)) (cv_jobs cv)\<rparr>)"
      by (rule kept_update_first [OF kept later]) (auto simp: one_time_def compute_next_run_def)
    from kept_by_save [OF this] now show ?thesis unfolding OpEnable by (simp add: enable_job_def)
  qed (use that in simp)
  with kept_tick [OF kept later] show ?thesis by (cases "op = OpTick") auto
qed

lemma kept_run:
  assumes "cron_kept i a t s k cv" and "sorted (t # map snd ops)" and "list_all (leaves_job saved i a) ops"
    and "saved \<Longrightarrow> file_current cv" and "\<And>jobs. saved \<Longrightarrow> ce_can_save env jobs"
  shows "\<exists>t' s' k'. cron_kept i a t' s' k' (cron_run env ops cv) \<and> (s \<longrightarrow> s' \<and> k' = k)"
  using assms
proof (induction ops arbitrary: t s k cv)
  case Nil
  then show ?case by (auto simp: cron_run_def)
next
  case (Cons op ops)
  obtain o' t' where op: "op = (o', t')" by fastforce
  have times: "t \<le> t'" "sorted (t' # map snd ops)" and leaves: "leaves_job saved i a (o', t')" "list_all (leaves_job saved i a) ops"
    using Cons.prems(2,3) op by auto
  obtain s' k' where one: "cron_kept i a t' s' k' (cron_step env (o', t') cv)" "s \<longrightarrow> s' \<and> k' = k"
    using kept_step [OF Cons.prems(1) times(1) leaves(1) Cons.prems(4), of env] by blast
  have "saved \<Longrightarrow> file_current (cron_step env (o', t') cv)"
    using file_current_step [OF Cons.prems(4)] Cons.prems(5) by blast
  from Cons.IH [OF one(1) times(2) leaves(2) this Cons.prems(5)] one(2) show ?case
    by (auto simp: cron_run_def op)
qed

text \<open>What a job that waits for its turn must not be hit by: its removal, and a reading of the file, which holds
  other jobs when a write has failed or another process has changed it.\<close>

definition keeps_waiting :: "string \<Rightarrow> cron_op \<Rightarrow> bool" where
  "keeps_waiting i op = (case op of OpRemove i' \<Rightarrow> i' \<noteq> i | OpStart \<Rightarrow> False | OpLoad \<Rightarrow> False | _ \<Rightarrow> True)"

text \<open>The job waits: it is due, in the list, and no run of it is going on.\<close>

definition waits :: "string \<Rightarrow> cron_service \<Rightarrow> bool" where
  "waits i cv \<longleftrightarrow> i \<in> set (cv_due cv) \<and> i \<in> cr_id ` set (cv_jobs cv) \<and> i \<notin> fst ` set (cv_current cv)"

lemma update_first_id_set: "(\<And>j. cr_id j = i' \<Longrightarrow> cr_id (f j) = i') \<Longrightarrow> cr_id ` set (update_first i' f jobs) = cr_id ` set jobs"
  by (induction jobs) auto

lemma finish_waits:
  assumes "waits i cv"
  shows "waits i (cron_finish env i' start err now cv)"
proof (cases "(i', start) \<in> set (cv_current cv)")
  case False
  then show ?thesis using assms by (simp add: cron_finish_def)
next
  case True
  then have other: "i' \<noteq> i" using assms by (force simp: waits_def)
  have current: "set (remove1 x (cv_current cv)) \<subseteq> set (cv_current cv)" for x by (rule set_remove1_subset)
  have ids: "cr_id ` set (update_first i' f jobs) = cr_id ` set jobs" if "\<And>j. cr_id (f j) = cr_id j" for f jobs
    by (rule update_first_id_set) (simp add: that)
  have rest: "i \<in> cr_id ` set (filter (\<lambda>j. cr_id j \<noteq> i') jobs) \<longleftrightarrow> i \<in> cr_id ` set jobs" for jobs using other by auto
  show ?thesis
    using assms current [of "(i', start)"] True
    by (auto simp: waits_def cron_finish_def Let_def remove_job_def ids rest split: option.splits simp del: set_filter)
qed

lemma waits_step:
  assumes waiting: "waits i cv" and keeps: "keeps_waiting i (fst x)"
  shows "(\<exists>t. x = (OpBegin i, t) \<and> cv_ran (cron_step env x cv) = cv_ran cv @ [(i, t)]) \<or> waits i (cron_step env x cv)"
proof -
  obtain op t where x: "x = (op, t)" by fastforce
  show ?thesis
  proof (cases op)
    case OpTick
    have "map cr_id (map (\<lambda>j. if P j then set_next None j else j) jobs) = map cr_id jobs" for P jobs
      by (induction jobs) auto
    then have "cr_id ` set (map (\<lambda>j. if P j then set_next None j else j) jobs) = cr_id ` set jobs" for P jobs
      by (metis list.set_map)
    then show ?thesis using waiting by (simp add: x OpTick waits_def cron_tick_def Let_def del: list.set_map set_map)
  next
    case (OpBegin i')
    show ?thesis
    proof (cases "i' = i")
      case True
      have "find (\<lambda>j. cr_id j = i) (cv_jobs cv) \<noteq> None" using waiting by (auto simp: waits_def find_None_iff)
      then show ?thesis using waiting True by (auto simp: x OpBegin waits_def cron_begin_def)
    next
      case False
      then have "i \<in> set (remove1 i' (cv_due cv)) \<longleftrightarrow> i \<in> set (cv_due cv)" by simp
      then show ?thesis using waiting False by (auto simp: x OpBegin waits_def cron_begin_def Let_def split: option.split)
    qed
  next
    case (OpFinish i' start err)
    then show ?thesis using finish_waits [OF waiting] by (simp add: x)
  next
    case (OpUpdate job)
    have "cr_id ` set (update_first (cr_id job) (\<lambda>_. job\<lparr>cr_updated := t\<rparr>) jobs) = cr_id ` set jobs" for jobs
      by (rule update_first_id_set) simp
    then show ?thesis using waiting by (simp add: x OpUpdate waits_def update_job_def)
  next
    case (OpEnable i' enabled)
    have "cr_id ` set (update_first i' (\<lambda>j. set_next n (j\<lparr>cr_enabled := enabled, cr_updated := t\<rparr>)) jobs) = cr_id ` set jobs"
      "cr_id ` set (update_first i' (\<lambda>j. set_next (g j) (j\<lparr>cr_enabled := enabled, cr_updated := t\<rparr>)) jobs) = cr_id ` set jobs"
      for n g jobs by (rule update_first_id_set; simp)+
    then show ?thesis using waiting by (simp add: x OpEnable waits_def enable_job_def)
  next
    case (OpRemove i')
    then show ?thesis using waiting keeps by (auto simp: x keeps_waiting_def waits_def remove_job_def Let_def)
  qed (use waiting keeps in \<open>auto simp: x keeps_waiting_def waits_def cron_stop_def add_job_def Let_def case_prod_beta\<close>)
qed

lemma ran_step: "\<exists>rs. cv_ran (cron_step env x cv) = cv_ran cv @ rs"
proof -
  obtain op t where x: "x = (op, t)" by fastforce
  have "cv_ran (snd (cron_load cv)) = cv_ran cv" for cv by (simp add: cron_load_def split: cron_file.split)
  then have load: "cron_load cv = (b, cv1) \<Longrightarrow> cv_ran cv1 = cv_ran cv" for b cv1 by (metis snd_conv)
  have save: "cron_save env cv1 = (b, cv2) \<Longrightarrow> cv_ran cv2 = cv_ran cv1" for b cv1 cv2 by (metis snd_conv cron_save_simps(4))
  have start: "cv_ran (snd (cron_start env t cv)) = cv_ran cv"
    by (auto simp: cron_start_def split: prod.split bool.split dest!: load save)
  show ?thesis
    by (cases op) (auto simp: x start load cron_stop_def cron_tick_def cron_begin_def cron_finish_def remove_job_def add_job_def
        update_job_def enable_job_def Let_def case_prod_beta cron_load_def split: option.split cron_file.split)
qed

lemma ran_run: "\<exists>rs. cv_ran (cron_run env ops cv) = cv_ran cv @ rs"
proof (induction ops arbitrary: cv)
  case (Cons x ops)
  obtain rs where "cv_ran (cron_step env x cv) = cv_ran cv @ rs" using ran_step by blast
  moreover obtain rs' where "cv_ran (cron_run env ops (cron_step env x cv)) = cv_ran (cron_step env x cv) @ rs'" using Cons by blast
  ultimately show ?case by (simp add: cron_run_def)
qed (simp add: cron_run_def)

lemma waits_run:
  assumes "waits i cv" and "list_all (\<lambda>x. keeps_waiting i (fst x)) ops" and "sorted (map snd ops)" and "(OpBegin i, t) \<in> set ops"
  shows "\<exists>t' rs. t' \<le> t \<and> (OpBegin i, t') \<in> set ops \<and> cv_ran (cron_run env ops cv) = cv_ran cv @ rs \<and> (i, t') \<in> set rs"
  using assms
proof (induction ops arbitrary: cv)
  case (Cons x ops)
  have run: "cron_run env (x # ops) cv = cron_run env ops (cron_step env x cv)" by (simp add: cron_run_def)
  obtain rs where rs: "cv_ran (cron_run env (x # ops) cv) = cv_ran (cron_step env x cv) @ rs" unfolding run using ran_run by blast
  show ?case
  proof (cases "\<exists>t0. x = (OpBegin i, t0) \<and> cv_ran (cron_step env x cv) = cv_ran cv @ [(i, t0)]")
    case True
    then obtain t0 where t0: "x = (OpBegin i, t0)" "cv_ran (cron_step env x cv) = cv_ran cv @ [(i, t0)]" by blast
    then have "t0 \<le> t" using Cons.prems(3,4) by auto
    with t0 rs show ?thesis by (intro exI [of _ t0] exI [of _ "(i, t0) # rs"]) simp
  next
    case False
    then have waiting: "waits i (cron_step env x cv)" using waits_step [OF Cons.prems(1), of x env] Cons.prems(2) by auto
    have "(OpBegin i, t) \<in> set ops"
    proof (rule ccontr)
      assume "(OpBegin i, t) \<notin> set ops"
      then have "x = (OpBegin i, t)" using Cons.prems(4) by simp
      moreover have "find (\<lambda>j. cr_id j = i) (cv_jobs cv) \<noteq> None" using Cons.prems(1) by (auto simp: waits_def find_None_iff)
      ultimately show False using False Cons.prems(1) by (auto simp: waits_def cron_begin_def)
    qed
    from Cons.IH [OF waiting _ _ this] Cons.prems(2,3) obtain t' rs' where
      "t' \<le> t" "(OpBegin i, t') \<in> set ops" "cv_ran (cron_run env ops (cron_step env x cv)) = cv_ran (cron_step env x cv) @ rs'"
      "(i, t') \<in> set rs'" by auto
    moreover obtain rs0 where "cv_ran (cron_step env x cv) = cv_ran cv @ rs0" using ran_step by blast
    ultimately show ?thesis unfolding run by (intro exI [of _ t'] exI [of _ "rs0 @ rs'"]) simp
  qed
qed simp

text \<open>A tick writes the jobs in memory, whatever the file held: a change that another process has made to it,
  such as the commands of the command line, is lost at the next tick of a running service.\<close>

lemma tick_overwrites_file:
  assumes "cv_running cv" and "\<And>jobs. ce_can_save env jobs"
  shows "cron_tick env now (cv\<lparr>cv_file := f\<rparr>) = cron_tick env now cv"
  using assms by (simp add: cron_tick_def cron_save_def Let_def)

text \<open>An interval that takes the next run past the largest integer makes it negative, so the job is due at
  every tick.\<close>

lemma overflowing_interval_always_due:
  assumes "cs_kind s = ''every''" and "cs_every s = Some d" and "0 < now" and "d < 2 ^ 63" and "now < 2 ^ 63" and "2 ^ 63 \<le> now + d"
  shows "\<exists>n. compute_next_run env s now = Some n \<and> n < 0"
proof -
  have "int64 (now + d) = now + d - 2 ^ 64" using assms(4-6) by (intro int64_wraps) auto
  then show ?thesis using assms by (simp add: compute_next_run_def)
qed

section \<open>Properties\<close>

text \<open>Property C5: A one-time job is run at most once, and not before its time, in whatever order the service is
  started, stopped and ticks, other jobs are added and changed, and this one is enabled, disabled or removed,
  between its start and its end as well, and whether or not the writes of the file succeed; before its time it may also
  be updated as a job of that time. The file may be loaded again before that time, and after it if no write has failed.\<close>

theorem one_time_job_runs_once:
  assumes "list_all (\<lambda>j. cr_id j \<noteq> i) (cv_jobs cv @ file_jobs cv)" and "i \<notin> set (cv_due cv)" and "i \<notin> fst ` set (cv_ran cv)"
    and "cs_kind schedule = ''at''" and "cs_at schedule = Some a"
    and "sorted (now # map snd ops)" and "list_all (leaves_job saved i a) ops" and "saved \<longrightarrow> (\<forall>jobs. ce_can_save env jobs)"
  shows "case filter (\<lambda>r. fst r = i) (cv_ran (cron_run env ops (snd (add_job env i now name schedule message deliver channel to cv)))) of
    runs \<Rightarrow> length runs \<le> 1 \<and> list_all (\<lambda>r. a \<le> snd r) runs"
proof -
  have none: "i \<notin> cr_id ` set jobs" if "list_all (\<lambda>j. cr_id j \<noteq> i) jobs" for jobs using that by (auto simp: list_all_iff)
  let ?job = "\<lparr>cr_id = i, cr_name = name, cr_enabled = True, cr_schedule = schedule,
     cr_payload = \<lparr>cp_kind = ''agent_turn'', cp_message = message, cp_command = [], cp_deliver = deliver, cp_channel = channel, cp_to = to\<rparr>,
     cr_state = \<lparr>cj_next = compute_next_run env schedule now, cj_last = None, cj_status = [], cj_error = []\<rparr>,
     cr_created = now, cr_updated = now, cr_delete = (cs_kind schedule = ''at'')\<rparr>"
  have file_ok: "jobs_once i a (file_jobs cv)" and mem_ok: "jobs_once i a (cv_jobs cv @ [?job])"
    using assms(1,4,5) none [of "cv_jobs cv"] none [of "file_jobs cv"]
    by (auto simp: jobs_once_def one_time_def list_all_iff compute_next_run_def count_list_0_iff)
  have "cron_kept i a now False 0 (cv\<lparr>cv_jobs := cv_jobs cv @ [?job]\<rparr>)"
    using assms(2,3) file_ok mem_ok by (auto simp: cron_kept_def runs_of_def count_list_0_iff list_all_iff)
  from kept_by_save [OF this, of env]
  have "cron_kept i a now False 0 (snd (add_job env i now name schedule message deliver channel to cv))"
    by (simp add: add_job_def Let_def case_prod_beta)
  moreover have "saved \<Longrightarrow> file_current (snd (add_job env i now name schedule message deliver channel to cv))"
    using assms(8) file_current_save [of env] by (simp add: add_job_def Let_def case_prod_beta)
  ultimately obtain t s k
    where "cron_kept i a t s k (cron_run env ops (snd (add_job env i now name schedule message deliver channel to cv)))"
    using kept_run [OF _ assms(6,7), of False 0 _ env] assms(8) by blast
  moreover have "length (filter (\<lambda>r. fst r = i) rs) = count_list (map fst rs) i" for rs :: "(string \<times> int) list"
    by (induction rs) auto
  ultimately show ?thesis by (auto simp: cron_kept_def runs_of_def list_all_iff)
qed

text \<open>A one-time job whose time has passed while the service was not running is not run after the
  start, then or later: it stays in the list, enabled and without a next run.\<close>

theorem missed_one_time_job_never_runs:
  assumes "\<not> cv_running cv" and "cv_file cv = CronSaved jobs" and "jobs_once i a jobs" and "j \<in> set jobs" and "cr_id j = i"
    and "cr_enabled j" and "a \<le> now" and "i \<notin> set (cv_due cv)" and "i \<notin> fst ` set (cv_ran cv)"
    and "cron_start env now cv = (True, cv')"
    and "sorted (now # map snd ops)" and "list_all (leaves_job False i a) ops"
  shows "runs_of i (cron_run env ops cv') = 0
    \<and> list_ex (\<lambda>j. cr_id j = i \<and> cr_enabled j \<and> cj_next (cr_state j) = None) (cv_jobs cv')"
proof -
  have stored: "file_jobs cv = jobs" using assms(2) by (simp add: file_jobs_def)
  let ?jobs = "recompute_next_runs env now jobs"
  have once: "jobs_once i a ?jobs"
    unfolding recompute_next_runs_def by (rule jobs_once_map [OF assms(3)]) (auto simp: one_time_next)
  have past: "no_next i ?jobs" using assms(3,7) unfolding no_next_def recompute_next_runs_def jobs_once_def list_all_iff
    by (auto simp: one_time_past) (auto simp: one_time_def)
  have "cron_kept i a now True 0 (cv\<lparr>cv_jobs := ?jobs\<rparr>)"
    using assms(3,7,8,9) once past stored by (auto simp: cron_kept_def runs_of_def count_list_0_iff list_all_iff)
  from kept_by_save [OF this, of env] have saved: "cron_kept i a now True 0 (snd (cron_save env (cv\<lparr>cv_jobs := ?jobs\<rparr>)))" .
  have "cron_load cv = (True, cv\<lparr>cv_jobs := jobs\<rparr>)" using assms(2) by (simp add: cron_load_def)
  then have cv': "cv' = (snd (cron_save env (cv\<lparr>cv_jobs := ?jobs\<rparr>)))\<lparr>cv_running := True\<rparr>"
    using assms(1,10) by (auto simp: cron_start_def split: prod.splits bool.splits)
  have "cron_kept i a now True 0 cv'" using saved by (simp add: cv' cron_kept_def)
  from kept_run [OF this assms(11,12), where env = env] have "runs_of i (cron_run env ops cv') = 0" by (auto simp: cron_kept_def)
  moreover have "set_next None j \<in> set ?jobs"
  proof -
    have "one_time i a j" using assms(3,4) by (simp add: jobs_once_def list_all_iff)
    from one_time_past [OF this assms(5,7), of env] have "compute_next_run env (cr_schedule j) now = None" .
    then have "(if cr_enabled j then set_next (compute_next_run env (cr_schedule j) now) j else j) = set_next None j" using assms(6) by simp
    then show ?thesis unfolding recompute_next_runs_def set_map using assms(4) by (metis (lifting) imageI)
  qed
  ultimately show ?thesis using assms(5,6) by (auto simp: cv' list_ex_iff intro!: bexI [of _ "set_next None j"])
qed

text \<open>Property C31: A job that a tick of the running service finds due is run, at the latest when the loop comes to it,
  whatever other operations come in between: the runs of other jobs and their results, additions, updates, ticks, a stop of
  the service, even its own disabling. Only its removal or a reading of the file (by a new start) can prevent it, or the
  end of an earlier run of it that is still going on.\<close>

theorem due_jobs_run:
  assumes "cv_running cv" and "j \<in> set (cv_jobs cv)" and "is_due now j" and "cr_id j \<notin> fst ` set (cv_current cv)"
    and "sorted (now # map snd ops)" and "list_all (\<lambda>x. keeps_waiting (cr_id j) (fst x)) ops" and "(OpBegin (cr_id j), t) \<in> set ops"
  shows "\<exists>t' rs. now \<le> t' \<and> t' \<le> t \<and> (cr_id j, t') \<in> set rs \<and> cv_ran (cron_run env ((OpTick, now) # ops) cv) = cv_ran cv @ rs"
proof -
  let ?cv = "cron_tick env now cv"
  have "map cr_id (cv_jobs ?cv) = map cr_id (cv_jobs cv)" using assms(1) by (simp add: cron_tick_def Let_def)
  then have ids: "cr_id ` set (cv_jobs ?cv) = cr_id ` set (cv_jobs cv)" by (metis set_map)
  have "cv_current ?cv = cv_current cv" "cv_ran ?cv = cv_ran cv" "cr_id j \<in> set (cv_due ?cv)"
    using assms(1-3) by (simp_all add: cron_tick_def Let_def)
  with ids assms(2,4) have waiting: "waits (cr_id j) ?cv" by (simp add: waits_def)
  have "cron_run env ((OpTick, now) # ops) cv = cron_run env ops ?cv" by (simp add: cron_run_def)
  moreover from waits_run [OF waiting assms(6) _ assms(7), of env] obtain t' rs where
    "t' \<le> t" "(OpBegin (cr_id j), t') \<in> set ops" "cv_ran (cron_run env ops ?cv) = cv_ran ?cv @ rs" "(cr_id j, t') \<in> set rs"
    using assms(5) by auto
  moreover from this(2) have "now \<le> t'" using assms(5) by auto
  ultimately show ?thesis using \<open>cv_ran ?cv = cv_ran cv\<close> by auto
qed

section \<open>Witnesses\<close>

definition sample_cron_env :: cron_env where
  "sample_cron_env = \<lparr>ce_can_save = (\<lambda>_. True), ce_next_tick = (\<lambda>_ t. Some (t + 60000))\<rparr>"

definition sample_schedule :: cron_schedule where
  "sample_schedule = \<lparr>cs_kind = ''at'', cs_at = Some 5000, cs_every = None, cs_expr = [], cs_tz = []\<rparr>"

definition sample_added :: cron_service where
  "sample_added = snd (add_job sample_cron_env ''j'' 0 ''n'' sample_schedule ''m'' True ''c'' ''t'' (new_cron_service CronNoFile))"

definition sample_cron_ops :: "(cron_op \<times> int) list" where
  "sample_cron_ops = [(OpStart, 0), (OpLoad, 10), (OpTick, 4000), (OpUpdate (hd (cv_jobs sample_added)), 4500), (OpTick, 5000), (OpStop, 5000),
     (OpStart, 5001), (OpEnable ''j'' True, 5002), (OpBegin ''j'', 5003), (OpTick, 5500), (OpFinish ''j'' 5003 None, 6000),
     (OpTick, 7000), (OpBegin ''j'', 7000)]"

theorem one_time_job_runs_once_witness:
  "cv_ran (cron_run sample_cron_env sample_cron_ops sample_added) = [(''j'', 5003)]
   \<and> (case filter (\<lambda>r. fst r = ''j'') (cv_ran (cron_run sample_cron_env sample_cron_ops sample_added)) of
        runs \<Rightarrow> length runs \<le> 1 \<and> list_all (\<lambda>r. 5000 \<le> snd r) runs)"
proof
  show "cv_ran (cron_run sample_cron_env sample_cron_ops sample_added) = [(''j'', 5003)]" by code_simp
  have "list_all (\<lambda>j. cr_id j \<noteq> ''j'') (cv_jobs (new_cron_service CronNoFile) @ file_jobs (new_cron_service CronNoFile))"
    "''j'' \<notin> set (cv_due (new_cron_service CronNoFile))" "''j'' \<notin> fst ` set (cv_ran (new_cron_service CronNoFile))"
    "cs_kind sample_schedule = ''at''" "cs_at sample_schedule = Some 5000" "sorted (0 # map snd sample_cron_ops)"
    "list_all (leaves_job False ''j'' 5000) sample_cron_ops"
    by code_simp+
  moreover have "False \<longrightarrow> (\<forall>jobs. ce_can_save sample_cron_env jobs)" by simp
  ultimately show "case filter (\<lambda>r. fst r = ''j'')
      (cv_ran (cron_run sample_cron_env sample_cron_ops sample_added)) of runs \<Rightarrow> length runs \<le> 1 \<and> list_all (\<lambda>r. 5000 \<le> snd r) runs"
    unfolding sample_added_def by (rule one_time_job_runs_once)
qed

definition sample_missed :: cron_service where
  "sample_missed = new_cron_service (cv_file sample_added)"

theorem missed_one_time_job_never_runs_witness:
  "case cron_start sample_cron_env 5000 sample_missed of (_, cv') \<Rightarrow>
     runs_of ''j'' (cron_run sample_cron_env [(OpTick, 6000), (OpBegin ''j'', 6000)] cv') = 0
     \<and> list_ex (\<lambda>j. cr_id j = ''j'' \<and> cr_enabled j \<and> cj_next (cr_state j) = None) (cv_jobs cv')"
proof -
  let ?jobs = "cv_jobs sample_added"
  obtain ok cv' where start: "cron_start sample_cron_env 5000 sample_missed = (ok, cv')" by fastforce
  have "fst (cron_start sample_cron_env 5000 sample_missed)" by code_simp
  then have ok: "ok = True" using start by simp
  have facts: "\<not> cv_running sample_missed" "cv_file sample_missed = CronSaved ?jobs" "jobs_once ''j'' 5000 ?jobs"
    "hd ?jobs \<in> set ?jobs" "cr_id (hd ?jobs) = ''j''" "cr_enabled (hd ?jobs)" "(5000 :: int) \<le> 5000"
    "''j'' \<notin> set (cv_due sample_missed)" "''j'' \<notin> fst ` set (cv_ran sample_missed)"
    by code_simp+
  have ops: "sorted ((5000 :: int) # map snd [(OpTick, 6000), (OpBegin ''j'', 6000)])"
    "list_all (leaves_job False ''j'' 5000) [(OpTick, 6000), (OpBegin ''j'', 6000)]" by code_simp+
  show ?thesis using missed_one_time_job_never_runs [OF facts start [unfolded ok] ops] unfolding start prod.case .
qed

definition sample_running :: cron_service where
  "sample_running = snd (cron_start sample_cron_env 0 sample_added)"

theorem due_jobs_run_witness:
  "\<exists>t' rs. 5000 \<le> t' \<and> t' \<le> 5002 \<and> (''j'', t') \<in> set rs
     \<and> cv_ran (cron_run sample_cron_env [(OpTick, 5000), (OpStop, 5000), (OpEnable ''j'' False, 5001), (OpBegin ''j'', 5002)] sample_running)
       = cv_ran sample_running @ rs"
proof -
  let ?j = "hd (cv_jobs sample_running)" and ?ops = "[(OpStop, 5000), (OpEnable ''j'' False, 5001), (OpBegin ''j'', 5002)]"
  have "cr_id ?j = ''j''" by code_simp
  moreover have "cv_running sample_running" "?j \<in> set (cv_jobs sample_running)" "is_due 5000 ?j"
    "''j'' \<notin> fst ` set (cv_current sample_running)" "sorted ((5000 :: int) # map snd ?ops)"
    "list_all (\<lambda>x. keeps_waiting ''j'' (fst x)) ?ops"
    by code_simp+
  moreover have "(OpBegin ''j'', 5002) \<in> set ?ops" by simp
  ultimately show ?thesis using due_jobs_run [of sample_running ?j 5000 ?ops 5002 sample_cron_env] by simp
qed

text \<open>When the write of a tick fails and the file is loaded again after that, a one-time job is due once more and is
  run a second time; so is one that is updated with the copy that the caller got before the tick.\<close>

definition no_save_at_all :: cron_env where
  "no_save_at_all = sample_cron_env\<lparr>ce_can_save := (\<lambda>_. False)\<rparr>"

lemma reloaded_job_runs_twice:
  "runs_of ''j'' (cron_run no_save_at_all [(OpTick, 5000), (OpBegin ''j'', 5000), (OpFinish ''j'' 5000 None, 5001), (OpLoad, 5002),
     (OpTick, 6000), (OpBegin ''j'', 6000)] sample_running) = 2"
  by code_simp

lemma updated_job_runs_twice:
  "runs_of ''j'' (cron_run sample_cron_env [(OpTick, 5000), (OpUpdate (hd (cv_jobs sample_added)), 5000), (OpBegin ''j'', 5000),
     (OpTick, 6000), (OpBegin ''j'', 6000)] sample_running) = 2"
  by code_simp

end
