(* ===== verification/Cron_Tool.thy ===== *)
theory Cron_Tool
  imports Cron_Service
begin

text \<open>
  The tool by which the agent schedules jobs (\<open>pkg/tools/cron.go\<close>), and what the gateway does with a
  job that is run (\<open>setupCronTool\<close> in \<open>cmd/operator/internal/gateway/helpers.go\<close>). An argument that
  is absent or has another type is \<open>None\<close>, a number is the integer that Go's conversion from
  \<open>float64\<close> gave; characters stand for runes. The exec tool and the agent are arguments.
\<close>

section \<open>Arguments and results\<close>

record cron_args =
  ca_action :: "string option"
  ca_message :: "string option"
  ca_command :: "string option"
  ca_at :: "int option"
  ca_every :: "int option"
  ca_expr :: "string option"
  ca_job :: "string option"
  ca_deliver :: "bool option"

datatype cron_tool_result = CronToolError string | CronToolSilent string

definition truncate_text :: "string \<Rightarrow> nat \<Rightarrow> string" where
  "truncate_text s n =
     (if n = 0 then []
      else if length s \<le> n then s
      else if n \<le> 3 then take n s
      else take (n - 3) s @ ''...'')"

text \<open>Which of the three kinds of schedule the arguments ask for; the products wrap around.\<close>

definition cron_schedule_of :: "cron_args \<Rightarrow> int \<Rightarrow> cron_schedule option" where
  "cron_schedule_of args now =
     (case ca_at args of
        Some n \<Rightarrow> Some \<lparr>cs_kind = ''at'', cs_at = Some (int64 (now + int64 (n * 1000))), cs_every = None, cs_expr = [], cs_tz = []\<rparr>
      | None \<Rightarrow>
          (case ca_every args of
             Some n \<Rightarrow> Some \<lparr>cs_kind = ''every'', cs_at = None, cs_every = Some (int64 (n * 1000)), cs_expr = [], cs_tz = []\<rparr>
           | None \<Rightarrow>
               (case ca_expr args of
                  Some e \<Rightarrow> Some \<lparr>cs_kind = ''cron'', cs_at = None, cs_every = None, cs_expr = e, cs_tz = []\<rparr>
                | None \<Rightarrow> None)))"

section \<open>Operations of the tool\<close>

definition tool_add_job ::
  "cron_env \<Rightarrow> string \<Rightarrow> string \<Rightarrow> string \<Rightarrow> int \<Rightarrow> cron_args \<Rightarrow> cron_service \<Rightarrow> cron_tool_result \<times> cron_service" where
  "tool_add_job env newID channel chatID now args cv =
     (if channel = [] \<or> chatID = [] then (CronToolError ''no session context (channel/chat_id not set). Use this tool in an active conversation.'', cv)
      else if ca_message args = None \<or> ca_message args = Some [] then (CronToolError ''message is required for add'', cv)
      else
        let message = the (ca_message args) in
        case cron_schedule_of args now of
          None \<Rightarrow> (CronToolError ''one of at_seconds, every_seconds, or cron_expr is required'', cv)
        | Some schedule \<Rightarrow>
            let command = (case ca_command args of None \<Rightarrow> [] | Some c \<Rightarrow> c);
                deliver = (if command \<noteq> [] then False else case ca_deliver args of None \<Rightarrow> True | Some d \<Rightarrow> d)
            in (case add_job env newID now (truncate_text message 30) schedule message deliver channel chatID cv of
                  (None, cv) \<Rightarrow> (CronToolError ''Error adding job'', cv)
                | (Some job, cv) \<Rightarrow>
                    (CronToolSilent (''Cron job added: '' @ cr_name job @ '' (id: '' @ cr_id job @ '')''),
                     if command \<noteq> []
                     then snd (update_job env now (job\<lparr>cr_payload := (cr_payload job)\<lparr>cp_command := command\<rparr>\<rparr>) cv)
                     else cv)))"

definition int_text :: "int \<Rightarrow> string" where
  "int_text n = (if n < 0 then ''-'' @ decimal (nat (- n)) else decimal (nat n))"

text \<open>Go's integer division truncates.\<close>

definition schedule_info :: "cron_schedule \<Rightarrow> string" where
  "schedule_info s =
     (if cs_kind s = ''every'' \<and> cs_every s \<noteq> None
      then ''every '' @ int_text (sgn (the (cs_every s)) * (\<bar>the (cs_every s)\<bar> div 1000)) @ ''s''
      else if cs_kind s = ''cron'' then cs_expr s
      else if cs_kind s = ''at'' then ''one-time''
      else ''unknown'')"

definition tool_list_jobs :: "cron_service \<Rightarrow> string" where
  "tool_list_jobs cv =
     (case list_jobs False cv of
        [] \<Rightarrow> ''No scheduled jobs''
      | jobs \<Rightarrow> ''Scheduled jobs:'' @ newline @ concat (map (\<lambda>j.
          ''- '' @ cr_name j @ '' (id: '' @ cr_id j @ '', '' @ schedule_info (cr_schedule j) @ '')'' @ newline) jobs))"

definition tool_remove_job :: "cron_env \<Rightarrow> cron_args \<Rightarrow> cron_service \<Rightarrow> cron_tool_result \<times> cron_service" where
  "tool_remove_job env args cv =
     (case ca_job args of
        None \<Rightarrow> (CronToolError ''job_id is required for remove'', cv)
      | Some i \<Rightarrow>
          if i = [] then (CronToolError ''job_id is required for remove'', cv)
          else
            case remove_job env i cv of
              (True, cv) \<Rightarrow> (CronToolSilent (''Cron job removed: '' @ i), cv)
            | (False, cv) \<Rightarrow> (CronToolError (''Job '' @ i @ '' not found''), cv))"

definition tool_enable_job :: "cron_env \<Rightarrow> int \<Rightarrow> cron_args \<Rightarrow> bool \<Rightarrow> cron_service \<Rightarrow> cron_tool_result \<times> cron_service" where
  "tool_enable_job env now args enable cv =
     (case ca_job args of
        None \<Rightarrow> (CronToolError ''job_id is required for enable/disable'', cv)
      | Some i \<Rightarrow>
          if i = [] then (CronToolError ''job_id is required for enable/disable'', cv)
          else
            case enable_job env now i enable cv of
              (True, cv') \<Rightarrow>
                (CronToolSilent (''Cron job '' @ [CHR 0x27]
                   @ (case find (\<lambda>j. cr_id j = i) (cv_jobs cv') of None \<Rightarrow> [] | Some j \<Rightarrow> cr_name j) @ [CHR 0x27]
                   @ (if enable then '' enabled'' else '' disabled'')), cv')
            | (False, cv) \<Rightarrow> (CronToolError (''Job '' @ i @ '' not found''), cv))"

definition cron_tool_execute ::
  "cron_env \<Rightarrow> string \<Rightarrow> string \<Rightarrow> string \<Rightarrow> int \<Rightarrow> cron_args \<Rightarrow> cron_service \<Rightarrow> cron_tool_result \<times> cron_service" where
  "cron_tool_execute env newID channel chatID now args cv =
     (case ca_action args of
        None \<Rightarrow> (CronToolError ''action is required'', cv)
      | Some a \<Rightarrow>
          if a = ''add'' then tool_add_job env newID channel chatID now args cv
          else if a = ''list'' then (CronToolSilent (tool_list_jobs cv), cv)
          else if a = ''remove'' then tool_remove_job env args cv
          else if a = ''enable'' then tool_enable_job env now args True cv
          else if a = ''disable'' then tool_enable_job env now args False cv
          else (CronToolError (''unknown action: '' @ a), cv))"

section \<open>Running a job\<close>

text \<open>What running a job does: a command goes to the exec tool, which gives whether it failed and its text, and a
  prompt to the agent under a session of its own, which gives an error or a response.\<close>

record 'w cron_runner =
  cu_exec :: "string \<Rightarrow> 'w \<Rightarrow> (bool \<times> string) \<times> 'w"
  cu_agent :: "string \<Rightarrow> string \<Rightarrow> string \<Rightarrow> string \<Rightarrow> 'w \<Rightarrow> (string + string) \<times> 'w"
  cu_publish :: "string \<Rightarrow> string \<Rightarrow> string \<Rightarrow> 'w \<Rightarrow> 'w"

definition execute_job :: "'w cron_runner \<Rightarrow> cron_job \<Rightarrow> 'w \<Rightarrow> string \<times> 'w" where
  "execute_job u job w =
     (let p = cr_payload job;
          channel = (if cp_channel p = [] then ''cli'' else cp_channel p);
          chatID = (if cp_to p = [] then ''direct'' else cp_to p)
      in if cp_command p \<noteq> []
         then
           (case cu_exec u (cp_command p) w of
              ((failed, text), w) \<Rightarrow>
                (''ok'', cu_publish u channel chatID
                   (if failed then ''Error executing scheduled command: '' @ text
                    else ''Scheduled command '' @ [CHR 0x27] @ cp_command p @ [CHR 0x27] @ '' executed:'' @ newline @ text) w))
         else if cp_deliver p then (''ok'', cu_publish u channel chatID (cp_message p) w)
         else
           (case cu_agent u (cp_message p) (''cron-'' @ cr_id job) channel chatID w of
              (Inl e, w) \<Rightarrow> (''Error: '' @ e, w)
            | (Inr _, w) \<Rightarrow> (''ok'', w)))"

text \<open>The callback of the gateway hands the text on and reports no error.\<close>

definition gateway_on_job :: "'w cron_runner \<Rightarrow> cron_job \<Rightarrow> 'w \<Rightarrow> (string \<times> string option) \<times> 'w" where
  "gateway_on_job u job w = (case execute_job u job w of (result, w) \<Rightarrow> ((result, None), w))"

section \<open>Lemmas\<close>

text \<open>So a job of the gateway never has the status \<open>error\<close>, whatever became of it.\<close>

lemma gateway_job_never_fails: "snd (fst (gateway_on_job u job w)) = None"
  by (simp add: gateway_on_job_def case_prod_beta)

lemma gateway_status_ok: "cj_status (cr_state (finished_job start now (snd (fst (gateway_on_job u job w))) j)) = ''ok''"
  by (simp add: gateway_job_never_fails finished_job_def)

text \<open>A one-time job for now or for the past is accepted and has no next run: it never runs.\<close>

lemma past_reminder_accepted:
  assumes "channel \<noteq> []" and "chatID \<noteq> []" and "ca_message args = Some (c # message)" and "ca_at args = Some n" and "n \<le> 0"
    and "0 \<le> now" and "now < 2 ^ 63" and "- (2 ^ 63) \<le> now + n * 1000" and "- (2 ^ 63) \<le> n * 1000"
    and "\<And>jobs. ce_can_save env jobs" and "ca_command args = None"
  shows "\<exists>text cv'. tool_add_job env newID channel chatID now args cv = (CronToolSilent text, cv')
    \<and> cr_id (last (cv_jobs cv')) = newID \<and> cj_next (cr_state (last (cv_jobs cv'))) = None"
proof -
  have "int64 (n * 1000) = n * 1000" "int64 (now + n * 1000) = now + n * 1000"
    using assms(5-9) by (intro int64_id; linarith)+
  then show ?thesis
    using assms by (simp add: tool_add_job_def Let_def cron_schedule_of_def add_job_def cron_save_def compute_next_run_def)
qed

end
