(* ===== verification/Filepath.thy ===== *)
theory Filepath
  imports Prelude
begin

text \<open>
  What the tools use of Go's package \<open>path/filepath\<close> on Unix: \<open>Clean\<close>, \<open>IsAbs\<close>, \<open>IsLocal\<close>, \<open>Join\<close>,
  \<open>Abs\<close>, \<open>Dir\<close> and \<open>Rel\<close>. All of them work on the text of a path; a clean path is the list of its
  components. \<open>Rel\<close> is modelled for an absolute target, which is what the sources give it.
\<close>

section \<open>Components\<close>

fun split_path :: "string \<Rightarrow> string list" where
  "split_path [] = [[]]"
| "split_path (c # s) =
     (if c = CHR 0x2F then [] # split_path s
      else (case split_path s of p # ps \<Rightarrow> (c # p) # ps | [] \<Rightarrow> [[c]]))"

fun join_path :: "string list \<Rightarrow> string" where
  "join_path [] = []"
| "join_path [p] = p"
| "join_path (p # q # ps) = p @ CHR 0x2F # join_path (q # ps)"

definition is_abs :: "string \<Rightarrow> bool" where
  "is_abs s = has_prefix s [CHR 0x2F]"

text \<open>One component of \<open>Clean\<close>, on the stack of the components kept so far.\<close>

definition clean_step :: "bool \<Rightarrow> string list \<Rightarrow> string \<Rightarrow> string list" where
  "clean_step rooted stack p =
     (if p = [] \<or> p = ''.'' then stack
      else if p = ''..'' then
        (case stack of
           [] \<Rightarrow> if rooted then [] else [''..'']
         | p0 # rest \<Rightarrow> if p0 = ''..'' then ''..'' # stack else rest)
      else p # stack)"

definition clean_parts :: "bool \<Rightarrow> string list \<Rightarrow> string list" where
  "clean_parts rooted ps = rev (foldl (clean_step rooted) [] ps)"

definition path_clean :: "string \<Rightarrow> string" where
  "path_clean s =
     (if is_abs s then CHR 0x2F # join_path (clean_parts True (split_path s))
      else case clean_parts False (split_path s) of [] \<Rightarrow> ''.'' | ps \<Rightarrow> join_path ps)"

definition is_local :: "string \<Rightarrow> bool" where
  "is_local s =
     (if is_abs s \<or> s = [] then False
      else
        let hasDots = list_ex (\<lambda>p. p = ''.'' \<or> p = ''..'') (split_path s);
            s = (if hasDots then path_clean s else s)
        in \<not> (s = ''..'' \<or> has_prefix s (''..'' @ [CHR 0x2F])))"

definition path_join :: "string \<Rightarrow> string \<Rightarrow> string" where
  "path_join a b =
     (if a \<noteq> [] then path_clean (a @ CHR 0x2F # b) else if b \<noteq> [] then path_clean b else [])"

definition path_abs :: "string \<Rightarrow> string \<Rightarrow> string" where
  "path_abs cwd s = (if is_abs s then path_clean s else path_join cwd s)"

definition path_dir :: "string \<Rightarrow> string" where
  "path_dir s = path_clean (rev (dropWhile (\<lambda>c. c \<noteq> CHR 0x2F) (rev s)))"

text \<open>\<open>Rel\<close>, on the components of the two clean paths; \<open>None\<close> is its error.\<close>

fun rel_parts :: "string list \<Rightarrow> string list \<Rightarrow> string list" where
  "rel_parts (b # bs) (t # ts) = (if b = t then rel_parts bs ts else replicate (length (b # bs)) ''..'' @ t # ts)"
| "rel_parts bs ts = replicate (length bs) ''..'' @ ts"

definition path_parts :: "string \<Rightarrow> string list" where
  "path_parts s = clean_parts True (split_path s)"

definition path_rel :: "string \<Rightarrow> string \<Rightarrow> string option" where
  "path_rel base target =
     (if path_clean target = path_clean base then Some ''.''
      else if \<not> is_abs (path_clean base) then None
      else Some (join_path (rel_parts (path_parts base) (path_parts target))))"

section \<open>Lemmas\<close>

lemma split_path_nonempty [simp]: "split_path s \<noteq> []"
  by (induction s) (auto split: list.splits)

lemma split_path_no_slash: "p \<in> set (split_path s) \<Longrightarrow> CHR 0x2F \<notin> set p"
  by (induction s arbitrary: p) (auto split: list.splits if_splits)

lemma split_path_single: "CHR 0x2F \<notin> set s \<Longrightarrow> split_path s = [s]"
  by (induction s) auto

lemma split_path_append: "split_path (s @ CHR 0x2F # t) = split_path s @ split_path t"
  by (induction s) (auto split: list.splits)

lemma split_join: "ps \<noteq> [] \<Longrightarrow> (\<And>p. p \<in> set ps \<Longrightarrow> CHR 0x2F \<notin> set p) \<Longrightarrow> split_path (join_path ps) = ps"
  by (induction ps rule: join_path.induct) (auto simp: split_path_single split_path_append)

text \<open>A plain component stays where it is.\<close>

definition plain :: "string \<Rightarrow> bool" where
  "plain p \<longleftrightarrow> p \<noteq> [] \<and> p \<noteq> ''.'' \<and> p \<noteq> ''..'' \<and> CHR 0x2F \<notin> set p"

lemma clean_step_plain [simp]: "plain p \<Longrightarrow> clean_step r S p = p # S"
  by (simp add: clean_step_def plain_def)

lemma foldl_plain: "list_all plain ps \<Longrightarrow> foldl (clean_step r) S ps = rev ps @ S"
  by (induction ps arbitrary: S) auto

lemma clean_parts_plain: "list_all plain ps \<Longrightarrow> clean_parts r ps = ps"
  by (simp add: clean_parts_def foldl_plain)

lemma rooted_step_plain: "list_all plain S \<Longrightarrow> CHR 0x2F \<notin> set p \<Longrightarrow> list_all plain (clean_step True S p)"
  by (cases S) (auto simp: clean_step_def plain_def)

lemma rooted_parts_plain:
  assumes "\<And>p. p \<in> set ps \<Longrightarrow> CHR 0x2F \<notin> set p"
  shows "list_all plain (clean_parts True ps)"
proof -
  have "list_all plain S \<Longrightarrow> (\<And>p. p \<in> set ps \<Longrightarrow> CHR 0x2F \<notin> set p) \<Longrightarrow> list_all plain (foldl (clean_step True) S ps)" for S
    by (induction ps arbitrary: S) (auto simp: rooted_step_plain)
  from this [of "[]"] assms show ?thesis by (simp add: clean_parts_def)
qed

lemma path_parts_plain: "list_all plain (path_parts s)"
  unfolding path_parts_def by (rule rooted_parts_plain) (rule split_path_no_slash)

text \<open>Without a root, what is kept is some \<open>..\<close> components below plain ones.\<close>

definition rel_stack :: "string list \<Rightarrow> bool" where
  "rel_stack S \<longleftrightarrow> (\<exists>n ps. S = ps @ replicate n ''..'' \<and> list_all plain ps)"

lemma rel_stack_step:
  assumes "rel_stack S" and "CHR 0x2F \<notin> set p"
  shows "rel_stack (clean_step False S p)"
proof -
  obtain n ps where S: "S = ps @ replicate n ''..''" "list_all plain ps" using assms(1) unfolding rel_stack_def by blast
  consider "p = [] \<or> p = ''.''" | "p = ''..''" "ps = []" | q qs where "p = ''..''" "ps = q # qs" | "plain p"
    using assms(2) by (cases ps) (auto simp: plain_def)
  then show ?thesis
  proof cases
    case 1
    then show ?thesis using assms(1) by (simp add: clean_step_def)
  next
    case 2
    then have "clean_step False S p = [] @ replicate (Suc n) ''..''" using S by (cases n) (simp_all add: clean_step_def)
    then show ?thesis unfolding rel_stack_def by (metis list.pred_inject(1))
  next
    case 3
    then have "clean_step False S p = qs @ replicate n ''..''" using S by (auto simp: clean_step_def plain_def)
    then show ?thesis using S 3 unfolding rel_stack_def by auto
  next
    case 4
    then have "clean_step False S p = (p # ps) @ replicate n ''..''" using S by simp
    then show ?thesis using S 4 unfolding rel_stack_def by (metis list.pred_inject(2))
  qed
qed

lemma rel_stack_parts:
  assumes "\<And>p. p \<in> set ps \<Longrightarrow> CHR 0x2F \<notin> set p"
  shows "rel_stack (rev (clean_parts False ps))"
proof -
  have "rel_stack S \<Longrightarrow> (\<And>p. p \<in> set ps \<Longrightarrow> CHR 0x2F \<notin> set p) \<Longrightarrow> rel_stack (foldl (clean_step False) S ps)" for S
    by (induction ps arbitrary: S) (auto simp: rel_stack_step)
  moreover have "rel_stack []" unfolding rel_stack_def by (metis append_Nil list.pred_inject(1) replicate_0)
  ultimately show ?thesis using assms by (simp add: clean_parts_def)
qed

text \<open>A run without a root that ends with plain components only is the same run on top of any stack.\<close>

lemma no_dots_later: "''..'' \<in> set S \<Longrightarrow> ''..'' \<in> set (foldl (clean_step False) S ps)"
proof (induction ps arbitrary: S)
  case (Cons p ps)
  have "''..'' \<in> set (clean_step False S p)" using Cons.prems by (cases S) (auto simp: clean_step_def)
  with Cons.IH show ?case by simp
qed simp

lemma run_on_stack:
  "''..'' \<notin> set (foldl (clean_step False) S ps) \<Longrightarrow> foldl (clean_step True) (S @ T) ps = foldl (clean_step False) S ps @ T"
proof (induction ps arbitrary: S)
  case (Cons p ps)
  have none: "''..'' \<notin> set (clean_step False S p)" "''..'' \<notin> set S"
    using Cons.prems no_dots_later [of "clean_step False S p" ps] no_dots_later [of S "p # ps"] by auto
  then have "clean_step True (S @ T) p = clean_step False S p @ T"
    by (cases S) (auto simp: clean_step_def)
  with Cons.IH [of "clean_step False S p"] Cons.prems show ?case by simp
qed simp

lemma clean_parts_append:
  "''..'' \<notin> set (clean_parts False qs) \<Longrightarrow> clean_parts True (ps @ qs) = clean_parts True ps @ clean_parts False qs"
  using run_on_stack [of "[]" qs "foldl (clean_step True) [] ps"] by (simp add: clean_parts_def)

lemma join_path_Cons: "join_path (p # ps) = (if ps = [] then p else p @ CHR 0x2F # join_path ps)"
  by (cases ps) auto

lemma plain_hd: "plain p \<Longrightarrow> \<not> has_prefix (p @ s) [CHR 0x2F] \<and> p @ s \<noteq> []"
  by (cases p) (auto simp: plain_def)

lemma plain_join_not_abs: "list_all plain ps \<Longrightarrow> \<not> is_abs (join_path ps)"
  using plain_hd [of _ "[]"] plain_hd by (cases ps) (auto simp: is_abs_def join_path_Cons)

lemma foldl_no_dots:
  "list_all (\<lambda>p. p \<noteq> ''..'' \<and> CHR 0x2F \<notin> set p) ps \<Longrightarrow> list_all plain S \<Longrightarrow> list_all plain (foldl (clean_step r) S ps)"
  by (induction ps arbitrary: S) (auto simp: clean_step_def plain_def)

lemma local_parts_plain:
  assumes "is_local s"
  shows "list_all plain (clean_parts False (split_path s))"
proof (cases "list_ex (\<lambda>p. p = ''.'' \<or> p = ''..'') (split_path s)")
  case False
  then have "list_all (\<lambda>p. p \<noteq> ''..'' \<and> CHR 0x2F \<notin> set p) (split_path s)"
    using split_path_no_slash by (auto simp: list_all_iff list_ex_iff)
  from foldl_no_dots [OF this, of "[]"] show ?thesis by (simp add: clean_parts_def)
next
  case True
  let ?ps = "clean_parts False (split_path s)"
  have clean: "path_clean s = (case ?ps of [] \<Rightarrow> ''.'' | ps \<Rightarrow> join_path ps)"
    using assms by (auto simp: is_local_def path_clean_def split: if_splits)
  have up: "\<not> (path_clean s = ''..'' \<or> has_prefix (path_clean s) (''..'' @ [CHR 0x2F]))"
    using assms True by (cases "is_abs s \<or> s = []") (simp_all add: is_local_def Let_def)
  obtain n qs where qs: "rev ?ps = qs @ replicate n ''..''" "list_all plain qs"
    using rel_stack_parts [of "split_path s"] split_path_no_slash unfolding rel_stack_def by blast
  then have ps: "?ps = replicate n ''..'' @ rev qs" by (metis rev_append rev_replicate rev_rev_ident)
  have "n = 0"
  proof (rule ccontr)
    assume "n \<noteq> 0"
    then obtain rest where rest: "?ps = ''..'' # rest" using ps by (cases n) auto
    then have "path_clean s = ''..'' \<or> (\<exists>t. path_clean s = ''..'' @ CHR 0x2F # t)"
      unfolding clean by (auto simp: join_path_Cons)
    with up show False by auto
  qed
  with ps qs(2) show ?thesis by simp
qed

lemma plain_join_local:
  assumes "list_all plain ps" and "ps \<noteq> []"
  shows "is_local (join_path ps)"
proof -
  have split: "split_path (join_path ps) = ps" using assms by (intro split_join) (auto simp: list_all_iff plain_def)
  then have "\<not> list_ex (\<lambda>p. p = ''.'' \<or> p = ''..'') (split_path (join_path ps))"
    using assms(1) by (auto simp: list_all_iff list_ex_iff plain_def)
  moreover have "\<not> (join_path ps = ''..'' \<or> has_prefix (join_path ps) (''..'' @ [CHR 0x2F]))"
  proof
    assume "join_path ps = ''..'' \<or> has_prefix (join_path ps) (''..'' @ [CHR 0x2F])"
    then have "hd (split_path (join_path ps)) = ''..''" by (auto simp: has_prefix_iff split_path_append)
    then show False using split assms by (cases ps) (auto simp: plain_def)
  qed
  moreover have "join_path ps \<noteq> []" using assms by (cases ps) (auto simp: plain_def join_path_Cons)
  ultimately show ?thesis using plain_join_not_abs [OF assms(1)] by (simp add: is_local_def Let_def)
qed

lemma up_join_not_local: "\<not> is_local (join_path (''..'' # ps))"
proof
  assume local: "is_local (join_path (''..'' # ps))"
  have "split_path (join_path (''..'' # ps)) = ''..'' # (if ps = [] then [] else split_path (join_path ps))"
    using split_path_append [of "''..''"] by (simp add: join_path_Cons)
  then have "''..'' \<in> set (clean_parts False (split_path (join_path (''..'' # ps))))"
    using no_dots_later [of "[''..'']"] by (simp add: clean_parts_def clean_step_def)
  with local_parts_plain [OF local] show False by (auto simp: list_all_iff plain_def)
qed

lemma split_abs: "is_abs s \<Longrightarrow> \<exists>t. s = CHR 0x2F # t"
  by (cases s) (auto simp: is_abs_def)

lemma clean_abs: "is_abs s \<Longrightarrow> path_clean s = CHR 0x2F # join_path (path_parts s)"
  by (simp add: path_clean_def path_parts_def)

lemma parts_of_join:
  assumes "list_all plain ps"
  shows "path_parts (CHR 0x2F # join_path ps) = ps"
proof (cases "ps = []")
  case False
  then have "split_path (join_path ps) = ps" using assms by (intro split_join) (auto simp: list_all_iff plain_def)
  then show ?thesis using clean_parts_plain [OF assms] by (simp add: path_parts_def clean_parts_def clean_step_def)
qed (simp add: path_parts_def clean_parts_def clean_step_def)

lemma parts_clean [simp]: "is_abs s \<Longrightarrow> path_parts (path_clean s) = path_parts s"
  by (simp add: clean_abs parts_of_join path_parts_plain)

lemma clean_is_abs [simp]: "is_abs s \<Longrightarrow> is_abs (path_clean s)"
  by (simp add: clean_abs) (simp add: is_abs_def)

lemma clean_eq_iff: "is_abs a \<Longrightarrow> is_abs b \<Longrightarrow> path_clean a = path_clean b \<longleftrightarrow> path_parts a = path_parts b"
  by (metis clean_abs parts_clean)

text \<open>Lexically inside a directory.\<close>

definition inside :: "string \<Rightarrow> string \<Rightarrow> bool" where
  "inside dir s \<longleftrightarrow> is_abs s \<and> (\<exists>ps. path_parts s = path_parts dir @ ps)"

lemma rel_parts_inside: "rel_parts bs (bs @ ts) = ts"
  by (induction bs) (cases ts; simp)+

lemma rel_parts_outside: "\<nexists>xs. ts = bs @ xs \<Longrightarrow> \<exists>ps. rel_parts bs ts = ''..'' # ps"
proof (induction bs arbitrary: ts)
  case (Cons b bs)
  then show ?case by (cases ts; cases bs) (auto split: if_splits)
qed simp

lemma rel_local_iff_inside:
  assumes "is_abs dir" and "is_abs s"
  shows "(case path_rel dir s of None \<Rightarrow> False | Some r \<Rightarrow> is_local r) \<longleftrightarrow> inside dir s"
proof (cases "path_clean s = path_clean dir")
  case True
  then have "path_parts s = path_parts dir" using clean_eq_iff assms by simp
  then have "inside dir s" using assms(2) by (simp add: inside_def)
  moreover have "is_local ''.''" by code_simp
  ultimately show ?thesis using True by (simp add: path_rel_def)
next
  case False
  then have neq: "path_parts s \<noteq> path_parts dir" using clean_eq_iff assms by simp
  have rel: "path_rel dir s = Some (join_path (rel_parts (path_parts dir) (path_parts s)))"
    using False assms by (simp add: path_rel_def)
  show ?thesis
  proof (cases "\<exists>xs. path_parts s = path_parts dir @ xs")
    case True
    then obtain xs where xs: "path_parts s = path_parts dir @ xs" by blast
    moreover have "list_all plain xs" using path_parts_plain [of s] xs by simp
    ultimately show ?thesis using rel neq assms(2) plain_join_local [of xs] by (auto simp: rel_parts_inside inside_def)
  next
    case False
    then obtain ps where "rel_parts (path_parts dir) (path_parts s) = ''..'' # ps" using rel_parts_outside by metis
    then show ?thesis using rel False up_join_not_local by (simp add: inside_def)
  qed
qed

lemma join_local_parts:
  assumes "is_abs dir" and "is_local r"
  shows "is_abs (path_join dir r) \<and> path_parts (path_join dir r) = path_parts dir @ clean_parts False (split_path r)"
proof -
  have ne: "dir \<noteq> []" using assms(1) by (auto simp: is_abs_def)
  have abs: "is_abs (dir @ CHR 0x2F # r)" using split_abs [OF assms(1)] by (auto simp: is_abs_def)
  have "''..'' \<notin> set (clean_parts False (split_path r))"
    using local_parts_plain [OF assms(2)] by (auto simp: list_all_iff plain_def)
  then show ?thesis
    using ne abs by (simp add: path_join_def) (simp add: path_parts_def split_path_append clean_parts_append)
qed

lemma join_local_inside: "is_abs dir \<Longrightarrow> is_local r \<Longrightarrow> inside dir (path_join dir r)"
  using join_local_parts by (auto simp: inside_def)

end
