(* ===== verification/Workspace_Files.thy ===== *)
theory Workspace_Files
  imports Filepath
begin

text \<open>
  The file tools of the agent (\<open>pkg/tools/filesystem.go\<close>, \<open>pkg/tools/edit.go\<close>): reading, writing,
  editing and appending, on the whole host or within the workspace, with an allow list of paths.
  The disk maps the components of an absolute path to the content of its file; it has no symbolic
  links and no directories of its own, and predicates say which files may be read and written. An
  atomic write has its final effect or none. A pattern of the allow list is a predicate on paths.
  Listing directories is not modelled.
\<close>

section \<open>Paths of the workspace\<close>

datatype file_error =
    NoWorkspace | NotRelative string | PathEscapes string | FileNotFound | FileDenied | WriteFailed | OldTextMissing
  | OldTextRepeated nat | ArgRequired string

definition get_safe_rel_path :: "string \<Rightarrow> string \<Rightarrow> file_error + string" where
  "get_safe_rel_path workspace path =
     (if workspace = [] then Inl NoWorkspace
      else
        let rel = path_clean path in
        case (if is_abs rel then path_rel workspace rel else Some rel) of
          None \<Rightarrow> Inl (NotRelative path)
        | Some rel \<Rightarrow> if is_local rel then Inr rel else Inl (PathEscapes path))"

section \<open>File systems\<close>

type_synonym disk = "string list \<Rightarrow> string option"

record file_env =
  fv_cwd :: string
  fv_can_read :: "string list \<Rightarrow> bool"
  fv_can_write :: "string list \<Rightarrow> bool"

datatype file_system = HostFs | SandboxFs string | WhitelistFs string "(string \<Rightarrow> bool) list"

definition build_fs :: "string \<Rightarrow> bool \<Rightarrow> (string \<Rightarrow> bool) list \<Rightarrow> file_system" where
  "build_fs workspace restrict patterns =
     (if \<not> restrict then HostFs
      else if patterns \<noteq> [] then WhitelistFs workspace patterns
      else SandboxFs workspace)"

definition read_at :: "file_env \<Rightarrow> string list \<Rightarrow> disk \<Rightarrow> file_error + string" where
  "read_at env q d =
     (case d q of None \<Rightarrow> Inl FileNotFound | Some c \<Rightarrow> if fv_can_read env q then Inr c else Inl FileDenied)"

definition write_at :: "file_env \<Rightarrow> string list \<Rightarrow> string \<Rightarrow> disk \<Rightarrow> file_error option \<times> disk" where
  "write_at env q content d = (if fv_can_write env q then (None, d(q \<mapsto> content)) else (Some WriteFailed, d))"

definition host_path :: "file_env \<Rightarrow> string \<Rightarrow> string list" where
  "host_path env path = path_parts (path_abs (fv_cwd env) path)"

text \<open>The place of a relative path below the root that the workspace opens.\<close>

definition sandbox_path :: "file_env \<Rightarrow> string \<Rightarrow> string \<Rightarrow> file_error + string list" where
  "sandbox_path env workspace path =
     (case get_safe_rel_path workspace path of
        Inl e \<Rightarrow> Inl e
      | Inr rel \<Rightarrow> Inr (host_path env workspace @ clean_parts False (split_path rel)))"

definition fs_path :: "file_env \<Rightarrow> file_system \<Rightarrow> string \<Rightarrow> file_error + string list" where
  "fs_path env fs path =
     (case fs of
        HostFs \<Rightarrow> Inr (host_path env path)
      | SandboxFs workspace \<Rightarrow> sandbox_path env workspace path
      | WhitelistFs workspace patterns \<Rightarrow>
          if list_ex (\<lambda>p. p path) patterns then Inr (host_path env path) else sandbox_path env workspace path)"

definition fs_read :: "file_env \<Rightarrow> file_system \<Rightarrow> string \<Rightarrow> disk \<Rightarrow> file_error + string" where
  "fs_read env fs path d = (case fs_path env fs path of Inl e \<Rightarrow> Inl e | Inr q \<Rightarrow> read_at env q d)"

definition fs_write :: "file_env \<Rightarrow> file_system \<Rightarrow> string \<Rightarrow> string \<Rightarrow> disk \<Rightarrow> file_error option \<times> disk" where
  "fs_write env fs path content d =
     (case fs_path env fs path of Inl e \<Rightarrow> (Some e, d) | Inr q \<Rightarrow> write_at env q content d)"

section \<open>Editing\<close>

text \<open>\<open>strings.Count\<close> counts occurrences that do not overlap, and those of the empty text between all
  characters; \<open>strings.Replace\<close> with count 1 replaces the first occurrence.\<close>

function count_text :: "string \<Rightarrow> string \<Rightarrow> nat" where
  "count_text old s =
     (if old = [] then length s + 1
      else
        case s of
          [] \<Rightarrow> 0
        | c # cs \<Rightarrow> if has_prefix s old then 1 + count_text old (drop (length old) s) else count_text old cs)"
  by pat_completeness auto
termination by (relation "measure (\<lambda>(_, s). length s)") auto

declare count_text.simps [simp del]

fun replace_first :: "string \<Rightarrow> string \<Rightarrow> string \<Rightarrow> string" where
  "replace_first old new [] = (if old = [] then new else [])"
| "replace_first old new (c # cs) =
     (if has_prefix (c # cs) old then new @ drop (length old) (c # cs) else c # replace_first old new cs)"

definition replace_edit_content :: "string \<Rightarrow> string \<Rightarrow> string \<Rightarrow> file_error + string" where
  "replace_edit_content content old new =
     (if \<not> contains content old then Inl OldTextMissing
      else if count_text old content > 1 then Inl (OldTextRepeated (count_text old content))
      else Inr (replace_first old new content))"

definition edit_file :: "file_env \<Rightarrow> file_system \<Rightarrow> string \<Rightarrow> string \<Rightarrow> string \<Rightarrow> disk \<Rightarrow> file_error option \<times> disk" where
  "edit_file env fs path old new d =
     (case fs_read env fs path d of
        Inl e \<Rightarrow> (Some e, d)
      | Inr content \<Rightarrow>
          (case replace_edit_content content old new of
             Inl e \<Rightarrow> (Some e, d)
           | Inr content' \<Rightarrow> fs_write env fs path content' d))"

definition append_file :: "file_env \<Rightarrow> file_system \<Rightarrow> string \<Rightarrow> string \<Rightarrow> disk \<Rightarrow> file_error option \<times> disk" where
  "append_file env fs path content d =
     (case fs_read env fs path d of
        Inl FileNotFound \<Rightarrow> fs_write env fs path content d
      | Inl e \<Rightarrow> (Some e, d)
      | Inr old \<Rightarrow> fs_write env fs path (old @ content) d)"

section \<open>The tools\<close>

text \<open>Calls with their arguments; an argument that is absent or not a string is \<open>None\<close>.\<close>

datatype file_call =
    ReadFile "string option"
  | WriteFile "string option" "string option"
  | EditFile "string option" "string option" "string option"
  | AppendFile "string option" "string option"

datatype file_result = FileToolError file_error | FileText string | FileSilent string

definition silent_or_error :: "string \<Rightarrow> file_error option \<times> disk \<Rightarrow> file_result \<times> disk" where
  "silent_or_error text r = (case r of (None, d) \<Rightarrow> (FileSilent text, d) | (Some e, d) \<Rightarrow> (FileToolError e, d))"

fun file_tool :: "file_env \<Rightarrow> file_system \<Rightarrow> file_call \<Rightarrow> disk \<Rightarrow> file_result \<times> disk" where
  "file_tool env fs (ReadFile (Some path)) d =
     (case fs_read env fs path d of Inl e \<Rightarrow> (FileToolError e, d) | Inr c \<Rightarrow> (FileText c, d))"
| "file_tool env fs (ReadFile None) d = (FileToolError (ArgRequired ''path''), d)"
| "file_tool env fs (WriteFile (Some path) (Some content)) d =
     silent_or_error (''File written: '' @ path) (fs_write env fs path content d)"
| "file_tool env fs (WriteFile (Some path) None) d = (FileToolError (ArgRequired ''content''), d)"
| "file_tool env fs (WriteFile None _) d = (FileToolError (ArgRequired ''path''), d)"
| "file_tool env fs (EditFile (Some path) (Some old) (Some new)) d =
     silent_or_error (''File edited: '' @ path) (edit_file env fs path old new d)"
| "file_tool env fs (EditFile (Some path) (Some old) None) d = (FileToolError (ArgRequired ''new_text''), d)"
| "file_tool env fs (EditFile (Some path) None _) d = (FileToolError (ArgRequired ''old_text''), d)"
| "file_tool env fs (EditFile None _ _) d = (FileToolError (ArgRequired ''path''), d)"
| "file_tool env fs (AppendFile (Some path) (Some content)) d =
     silent_or_error (''Appended to '' @ path) (append_file env fs path content d)"
| "file_tool env fs (AppendFile (Some path) None) d = (FileToolError (ArgRequired ''content''), d)"
| "file_tool env fs (AppendFile None _) d = (FileToolError (ArgRequired ''path''), d)"

fun file_tools :: "file_env \<Rightarrow> file_system \<Rightarrow> file_call list \<Rightarrow> disk \<Rightarrow> file_result list \<times> disk" where
  "file_tools env fs [] d = ([], d)"
| "file_tools env fs (c # cs) d =
     (case file_tool env fs c d of (r, d) \<Rightarrow> (case file_tools env fs cs d of (rs, d) \<Rightarrow> (r # rs, d)))"

section \<open>Lemmas\<close>

lemma sandbox_below:
  assumes "sandbox_path env workspace path = Inr q"
  shows "\<exists>ps. q = host_path env workspace @ ps \<and> list_all plain ps"
proof -
  obtain rel where rel: "get_safe_rel_path workspace path = Inr rel" "q = host_path env workspace @ clean_parts False (split_path rel)"
    using assms by (auto simp: sandbox_path_def split: sum.splits)
  then have "is_local rel" by (auto simp: get_safe_rel_path_def Let_def split: if_splits option.splits)
  with local_parts_plain rel(2) show ?thesis by blast
qed

text \<open>Two disks with the same files below a directory.\<close>

definition same_below :: "string list \<Rightarrow> disk \<Rightarrow> disk \<Rightarrow> bool" where
  "same_below root d d' \<longleftrightarrow> (\<forall>ps. d (root @ ps) = d' (root @ ps))"

definition same_outside :: "string list \<Rightarrow> disk \<Rightarrow> disk \<Rightarrow> bool" where
  "same_outside root d d' \<longleftrightarrow> (\<forall>q. (\<nexists>ps. q = root @ ps) \<longrightarrow> d q = d' q)"

lemma same_outside_trans: "same_outside root d1 d2 \<Longrightarrow> same_outside root d2 d3 \<Longrightarrow> same_outside root d1 d3"
  by (simp add: same_outside_def)

definition confined :: "string list \<Rightarrow> (disk \<Rightarrow> 'r \<times> disk) \<Rightarrow> bool" where
  "confined root f \<longleftrightarrow> (\<forall>d d'. same_outside root d (snd (f d)) \<and> (same_below root d d' \<longrightarrow>
     fst (f d) = fst (f d') \<and> same_below root (snd (f d)) (snd (f d'))))"

lemma confined_const: "confined root (\<lambda>d. (r, d))"
  by (simp add: confined_def same_outside_def)

lemma confined_eq: "confined root g \<Longrightarrow> (\<And>d. f d = g d) \<Longrightarrow> confined root f"
  by (simp add: confined_def)

lemma sandbox_read_same:
  assumes "same_below (host_path env workspace) d d'"
  shows "fs_read env (SandboxFs workspace) path d = fs_read env (SandboxFs workspace) path d'"
proof (cases "sandbox_path env workspace path")
  case (Inr q)
  with sandbox_below [OF Inr] assms show ?thesis by (auto simp: fs_read_def fs_path_def read_at_def same_below_def)
qed (simp add: fs_read_def fs_path_def)

lemma sandbox_write_confined: "confined (host_path env workspace) (fs_write env (SandboxFs workspace) path content)"
proof (cases "sandbox_path env workspace path")
  case (Inr q)
  with sandbox_below [OF Inr] show ?thesis
    by (auto simp: fs_write_def fs_path_def write_at_def confined_def same_below_def same_outside_def)
qed (simp add: fs_write_def fs_path_def confined_def same_outside_def)

lemma confined_by_read:
  assumes "\<And>d d'. same_below root d d' \<Longrightarrow> r d = r d'" and "\<And>x. confined root (f x)"
  shows "confined root (\<lambda>d. f (r d) d)"
  using assms unfolding confined_def by metis

lemma confined_map: "confined root f \<Longrightarrow> confined root (\<lambda>d. case f d of (x, d) \<Rightarrow> (g x, d))"
  unfolding confined_def by (simp add: case_prod_beta)

lemma edit_confined: "confined (host_path env workspace) (edit_file env (SandboxFs workspace) path old new)"
proof -
  have "confined (host_path env workspace) (\<lambda>d. case x of Inl e \<Rightarrow> (Some e, d) | Inr content \<Rightarrow>
      (case replace_edit_content content old new of Inl e \<Rightarrow> (Some e, d)
       | Inr content' \<Rightarrow> fs_write env (SandboxFs workspace) path content' d))" for x
    by (cases x; cases "replace_edit_content (projr x) old new") (simp_all add: confined_const sandbox_write_confined)
  from confined_by_read [where r = "fs_read env (SandboxFs workspace) path", OF sandbox_read_same this]
  show ?thesis by (rule confined_eq) (simp_all add: edit_file_def)
qed

lemma append_confined: "confined (host_path env workspace) (append_file env (SandboxFs workspace) path content)"
proof -
  have "confined (host_path env workspace) (\<lambda>d. case x of Inl FileNotFound \<Rightarrow> fs_write env (SandboxFs workspace) path content d
      | Inl e \<Rightarrow> (Some e, d) | Inr old \<Rightarrow> fs_write env (SandboxFs workspace) path (old @ content) d)" for x
    by (cases x; cases "projl x") (simp_all add: confined_const sandbox_write_confined)
  from confined_by_read [where r = "fs_read env (SandboxFs workspace) path", OF sandbox_read_same this]
  show ?thesis by (rule confined_eq) (simp_all add: append_file_def)
qed

lemma silent_confined:
  assumes f: "confined root f"
  shows "confined root (\<lambda>d. silent_or_error text (f d))"
proof -
  have "silent_or_error text (f d) = (case f d of (e, d) \<Rightarrow> (case e of None \<Rightarrow> FileSilent text | Some e \<Rightarrow> FileToolError e, d))" for d
    by (auto simp: silent_or_error_def split: prod.splits option.splits)
  then show ?thesis using confined_map [OF f] by simp
qed

lemma read_confined: "confined (host_path env workspace) (file_tool env (SandboxFs workspace) (ReadFile (Some path)))"
proof -
  have "confined (host_path env workspace) (\<lambda>d. case x of Inl e \<Rightarrow> (FileToolError e, d) | Inr c \<Rightarrow> (FileText c, d))" for x
    by (cases x) (simp_all add: confined_const)
  from confined_by_read [where r = "fs_read env (SandboxFs workspace) path"
      and f = "\<lambda>x d. case x of Inl e \<Rightarrow> (FileToolError e, d) | Inr c \<Rightarrow> (FileText c, d)", OF sandbox_read_same this]
  show ?thesis by (rule confined_eq) simp_all
qed

lemma tool_confined: "confined (host_path env workspace) (file_tool env (SandboxFs workspace) c)"
proof (cases c)
  case (ReadFile p)
  show ?thesis
    by (cases p) (simp_all only: ReadFile read_confined, rule confined_eq [OF confined_const], simp)
next
  case (WriteFile p content)
  show ?thesis
    by (cases p; cases content)
      ((rule confined_eq [OF confined_const] confined_eq [OF silent_confined [OF sandbox_write_confined]], simp add: WriteFile)+)
next
  case (EditFile p old new)
  show ?thesis
    by (cases p; cases old; cases new)
      ((rule confined_eq [OF confined_const] confined_eq [OF silent_confined [OF edit_confined]], simp add: EditFile)+)
next
  case (AppendFile p content)
  show ?thesis
    by (cases p; cases content)
      ((rule confined_eq [OF confined_const] confined_eq [OF silent_confined [OF append_confined]], simp add: AppendFile)+)
qed

lemma tools_confined: "confined (host_path env workspace) (file_tools env (SandboxFs workspace) cs)"
proof (induction cs)
  case Nil
  then show ?case by (simp add: confined_def same_outside_def)
next
  case (Cons c cs)
  then show ?case using tool_confined [of env workspace c] same_outside_trans
    unfolding confined_def by (simp add: case_prod_beta) metis
qed

text \<open>What counting and replacing make of the occurrences.\<close>

lemma count_text_Cons:
  "old \<noteq> [] \<Longrightarrow> count_text old (c # cs)
     = (if has_prefix (c # cs) old then 1 + count_text old (drop (length old) (c # cs)) else count_text old cs)"
  by (subst count_text.simps) simp

lemma count_text_Nil: "old \<noteq> [] \<Longrightarrow> count_text old [] = 0"
  by (subst count_text.simps) simp

lemma count_text_pos: "old \<noteq> [] \<Longrightarrow> contains s old \<Longrightarrow> 1 \<le> count_text old s"
proof (induction old s rule: count_text.induct)
  case (1 old s)
  show ?case
  proof (cases s)
    case Nil
    then show ?thesis using "1.prems" by (auto simp: contains_iff)
  next
    case (Cons c cs)
    show ?thesis
    proof (cases "has_prefix (c # cs) old")
      case False
      then have "contains cs old" using "1.prems" Cons by (auto simp: contains_iff has_prefix_iff Cons_eq_append_conv)
      then show ?thesis using 1 False Cons by (auto simp: count_text_Cons)
    qed (use Cons "1.prems" in \<open>auto simp: count_text_Cons\<close>)
  qed
qed

lemma replace_first_split:
  assumes "contains s old"
  shows "\<exists>u v. s = u @ old @ v \<and> replace_first old new s = u @ new @ v
    \<and> (\<forall>u' v'. s = u' @ old @ v' \<longrightarrow> length u \<le> length u')
    \<and> (old \<noteq> [] \<longrightarrow> count_text old s = 1 + count_text old v)"
  using assms
proof (induction s)
  case Nil
  then have "old = []" by (auto simp: contains_iff)
  then show ?case by simp
next
  case (Cons c cs)
  show ?case
  proof (cases "has_prefix (c # cs) old")
    case True
    then obtain v where v: "c # cs = old @ v" by (auto simp: has_prefix_iff)
    then have "drop (length old) (c # cs) = v" by simp
    then have "replace_first old new (c # cs) = [] @ new @ v" "old \<noteq> [] \<longrightarrow> count_text old (c # cs) = 1 + count_text old v"
      using True by (auto simp: count_text_Cons)
    then show ?thesis using v by (intro exI [of _ "[]"] exI [of _ v]) auto
  next
    case False
    then have ne: "old \<noteq> []" by (auto simp: has_prefix_iff)
    have inner: "\<exists>w. u' = c # w \<and> cs = w @ old @ v'" if "c # cs = u' @ old @ v'" for u' v'
      using that False by (cases u') (auto simp: has_prefix_iff)
    obtain u0 v0 where "c # cs = u0 @ old @ v0" using Cons.prems by (auto simp: contains_iff)
    then have "\<exists>w. cs = w @ old @ v0" using inner by blast
    then have "contains cs old" by (auto simp: contains_iff)
    then obtain u v where uv: "cs = u @ old @ v" "replace_first old new cs = u @ new @ v"
      "\<forall>u' v'. cs = u' @ old @ v' \<longrightarrow> length u \<le> length u'" "count_text old cs = 1 + count_text old v"
      using Cons.IH ne by blast
    have "c # cs = (c # u) @ old @ v" "replace_first old new (c # cs) = (c # u) @ new @ v"
      "count_text old (c # cs) = 1 + count_text old v"
      using uv False ne by (simp_all add: count_text_Cons)
    moreover have "length (c # u) \<le> length u'" if "c # cs = u' @ old @ v'" for u' v'
      using inner [OF that] uv(3) by auto
    ultimately show ?thesis by blast
  qed
qed

text \<open>With a count of one, any other occurrence begins inside the one that is replaced.\<close>

lemma other_occurrence_overlaps:
  assumes "u @ old @ v = u' @ old @ v'" and "length u \<le> length u'" and "old \<noteq> []" and "count_text old v = 0"
  shows "length u' < length u + length old"
proof (rule ccontr)
  assume "\<not> length u' < length u + length old"
  then obtain w where w: "u' = u @ old @ w"
    using assms(1) by (metis append_assoc append_eq_append_conv_if length_append not_less append_take_drop_id)
  then have "v = w @ old @ v'" using assms(1) by simp
  then have "contains v old" by (auto simp: contains_iff)
  then show False using count_text_pos [OF assms(3), of v] assms(4) by simp
qed

section \<open>Properties\<close>

text \<open>Property C4: Whatever the calls of the restricted file tools are, absolute paths and paths with \<open>..\<close> included,
  no file outside the workspace changes, and neither their results nor what they write depend on such a file.\<close>

theorem sandbox_confines_tools:
  assumes "restrict" and "file_tools env (build_fs workspace restrict []) cs d = (rs, d1)"
    and "same_below (host_path env workspace) d d'"
    and "file_tools env (build_fs workspace restrict []) cs d' = (rs', d1')"
  shows "same_outside (host_path env workspace) d d1 \<and> rs' = rs \<and> same_below (host_path env workspace) d1 d1'"
proof -
  have fs: "build_fs workspace restrict [] = SandboxFs workspace" using assms(1) by (simp add: build_fs_def)
  have "same_outside (host_path env workspace) d (snd (file_tools env (SandboxFs workspace) cs d))
      \<and> fst (file_tools env (SandboxFs workspace) cs d) = fst (file_tools env (SandboxFs workspace) cs d')
      \<and> same_below (host_path env workspace) (snd (file_tools env (SandboxFs workspace) cs d)) (snd (file_tools env (SandboxFs workspace) cs d'))"
    using tools_confined [of env workspace cs] assms(3) unfolding confined_def by blast
  then show ?thesis using assms(2,4) unfolding fs by simp
qed

text \<open>A successful edit replaces the first occurrence of the old text in one file and changes
  nothing else; every other occurrence overlaps that one (two that do not overlap are refused).\<close>

theorem edit_replaces_the_occurrence:
  assumes "edit_file env fs path old new d = (None, d')"
  shows "\<exists>q u v. fs_path env fs path = Inr q \<and> d q = Some (u @ old @ v) \<and> d' = d(q \<mapsto> u @ new @ v)
    \<and> (\<forall>u' v'. u' @ old @ v' = u @ old @ v \<longrightarrow> length u \<le> length u' \<and> (u' = u \<or> length u' < length u + length old))"
proof -
  obtain content content' where c: "fs_read env fs path d = Inr content" "replace_edit_content content old new = Inr content'"
    "fs_write env fs path content' d = (None, d')"
    using assms by (auto simp: edit_file_def split: sum.splits)
  obtain q where q: "fs_path env fs path = Inr q" "d q = Some content" "d' = d(q \<mapsto> content')"
    using c(1,3) by (auto simp: fs_read_def fs_write_def read_at_def write_at_def split: sum.splits option.splits if_splits)
  have has: "contains content old" and one: "count_text old content \<le> 1" and content': "content' = replace_first old new content"
    using c(2) by (auto simp: replace_edit_content_def split: if_splits)
  obtain u v where uv: "content = u @ old @ v" "content' = u @ new @ v"
    "\<And>u' v'. content = u' @ old @ v' \<Longrightarrow> length u \<le> length u'" "old \<noteq> [] \<Longrightarrow> count_text old content = 1 + count_text old v"
    using replace_first_split [OF has, of new] unfolding content' by blast
  have "length u \<le> length u' \<and> (u' = u \<or> length u' < length u + length old)" if eq: "u' @ old @ v' = u @ old @ v" for u' v'
  proof (cases "old = []")
    case True
    then have "content = []" using one by (subst (asm) count_text.simps) simp
    then show ?thesis using eq uv(1) by simp
  next
    case False
    have le: "length u \<le> length u'" using uv(3) [of u' v'] eq uv(1) by simp
    have "count_text old v = 0" using uv(4) [OF False] one by simp
    from other_occurrence_overlaps [OF eq [symmetric] le False this] le show ?thesis by simp
  qed
  then show ?thesis using q uv by blast
qed

section \<open>Witnesses\<close>

definition sample_env :: file_env where
  "sample_env = \<lparr>fv_cwd = ''/home'', fv_can_read = (\<lambda>_. True), fv_can_write = (\<lambda>_. True)\<rparr>"

definition sample_disk :: disk where
  "sample_disk = [[''ws'', ''a''] \<mapsto> ''x = 1'', [''etc'', ''passwd''] \<mapsto> ''root'']"

definition sample_calls :: "file_call list" where
  "sample_calls = [ReadFile (Some ''/etc/passwd''), WriteFile (Some ''../etc/passwd'') (Some ''mine''),
     EditFile (Some ''/ws/b/../a'') (Some ''1'') (Some ''2''), ReadFile (Some ''a'')]"

theorem sandbox_confines_tools_witness:
  "case file_tools sample_env (build_fs ''/ws'' True []) sample_calls sample_disk of (rs, d1) \<Rightarrow>
     rs = [FileToolError (PathEscapes ''/etc/passwd''), FileToolError (PathEscapes ''../etc/passwd''),
           FileSilent ''File edited: /ws/b/../a'', FileText ''x = 2'']
     \<and> same_outside (host_path sample_env ''/ws'') sample_disk d1"
proof -
  obtain rs d1 where run: "file_tools sample_env (build_fs ''/ws'' True []) sample_calls sample_disk = (rs, d1)" by fastforce
  have "fst (file_tools sample_env (build_fs ''/ws'' True []) sample_calls sample_disk)
      = [FileToolError (PathEscapes ''/etc/passwd''), FileToolError (PathEscapes ''../etc/passwd''),
         FileSilent ''File edited: /ws/b/../a'', FileText ''x = 2'']" by code_simp
  then have "rs = [FileToolError (PathEscapes ''/etc/passwd''), FileToolError (PathEscapes ''../etc/passwd''),
         FileSilent ''File edited: /ws/b/../a'', FileText ''x = 2'']" using run by simp
  moreover have "same_below (host_path sample_env ''/ws'') sample_disk sample_disk" by (simp add: same_below_def)
  ultimately show ?thesis using sandbox_confines_tools [OF TrueI run _ run] unfolding run by simp
qed

theorem edit_replaces_the_occurrence_witness:
  "case edit_file sample_env HostFs ''/ws/a'' ''1'' ''22'' sample_disk of (e, d') \<Rightarrow> e = None \<and>
     (\<exists>q u v. sample_disk q = Some (u @ ''1'' @ v) \<and> d' = sample_disk(q \<mapsto> u @ ''22'' @ v))"
proof -
  obtain e d' where run: "edit_file sample_env HostFs ''/ws/a'' ''1'' ''22'' sample_disk = (e, d')" by fastforce
  have "fst (edit_file sample_env HostFs ''/ws/a'' ''1'' ''22'' sample_disk) = None" by code_simp
  then have e: "e = None" using run by simp
  show ?thesis using edit_replaces_the_occurrence [OF run [unfolded e]] unfolding run e by auto
qed

end
