(* ===== verification/Exec_Guard.thy ===== *)
theory Exec_Guard
  imports Filepath Go_Regexp
begin

text \<open>
  The tool that runs shell commands (\<open>pkg/tools/shell.go\<close>): its guard with the patterns it refuses,
  the working directory it accepts (\<open>validatePath\<close> of \<open>pkg/tools/filesystem.go\<close>), and what it
  reports of the command's end. Commands are ASCII texts. The process directory, symbolic links and
  the running of a command are arguments; patterns of the configuration arrive compiled.
\<close>

section \<open>The patterns\<close>

fun alts :: "regexp list \<Rightarrow> regexp" where
  "alts [] = Cls (\<lambda>_. False)"
| "alts [r] = r"
| "alts (r # s # rs) = Alt r (alts (s # rs))"

abbreviation (input) spaces0 :: regexp where
  "spaces0 \<equiv> StarCls re_space"

abbreviation (input) spaces1 :: regexp where
  "spaces1 \<equiv> plus_cls re_space"

definition one_of :: "string \<Rightarrow> regexp" where
  "one_of s = Cls (\<lambda>c. c \<in> set s)"

definition none_of :: "string \<Rightarrow> regexp" where
  "none_of s = plus_cls (\<lambda>c. c \<notin> set s)"

definition octal :: regexp where
  "octal = one_of ''01234567''"

definition default_deny_patterns :: "regexp list" where
  "default_deny_patterns =
     (let wb = WordBoundary; backquote = [CHR 0x60]; letter = Cls (\<lambda>c. CHR ''a'' \<le> c \<and> c \<le> CHR ''z''); digit = Cls digit_char;
          shells = alts [lit ''sh'', lit ''bash''] in
      [cats [wb, lit ''rm'', spaces1, lit ''-'', one_of ''rf'', Opt (one_of ''rf''), wb],
       cats [wb, lit ''del'', spaces1, lit ''/'', one_of ''fq'', wb],
       cats [wb, lit ''rmdir'', spaces1, lit ''/s'', wb],
       cats [wb, alts [lit ''format'', lit ''mkfs'', lit ''diskpart''], wb, Cls re_space],
       cats [wb, lit ''dd'', spaces1, lit ''if=''],
       cats [lit ''>'', spaces0, lit ''/dev/'',
         alts [Cat (lit ''sd'') letter, Cat (lit ''hd'') letter, Cat (lit ''vd'') letter, Cat (lit ''xvd'') letter,
               Cat (lit ''nvme'') digit, Cat (lit ''mmcblk'') digit, Cat (lit ''loop'') digit, Cat (lit ''dm-'') digit,
               Cat (lit ''md'') digit, Cat (lit ''sr'') digit, Cat (lit ''nbd'') digit]],
       cats [wb, alts [lit ''shutdown'', lit ''reboot'', lit ''poweroff''], wb],
       cats [lit '':()'', spaces0, lit ''{'', StarCls dot_char, lit ''};'', spaces0, lit '':''],
       cats [lit ''$('', none_of '')'', lit '')''],
       cats [lit ''${'', none_of ''}'', lit ''}''],
       cats [lit backquote, none_of backquote, lit backquote],
       cats [lit ''|'', spaces0, lit ''sh'', wb],
       cats [lit ''|'', spaces0, lit ''bash'', wb],
       cats [lit '';'', spaces0, lit ''rm'', spaces1, lit ''-'', one_of ''rf''],
       cats [lit ''&&'', spaces0, lit ''rm'', spaces1, lit ''-'', one_of ''rf''],
       cats [lit ''||'', spaces0, lit ''rm'', spaces1, lit ''-'', one_of ''rf''],
       cats [lit ''<<'', spaces0, lit ''EOF''],
       cats [lit ''$('', spaces0, lit ''cat'', spaces1],
       cats [lit ''$('', spaces0, lit ''curl'', spaces1],
       cats [lit ''$('', spaces0, lit ''wget'', spaces1],
       cats [lit ''$('', spaces0, lit ''which'', spaces1],
       cats [wb, lit ''sudo'', wb],
       cats [wb, lit ''chmod'', spaces1, octal, octal, octal, Opt octal, wb],
       cats [wb, lit ''chown'', wb],
       cats [wb, lit ''pkill'', wb],
       cats [wb, lit ''killall'', wb],
       cats [wb, lit ''kill'', spaces1, lit ''-'', lit ''9'', wb],
       cats [wb, lit ''curl'', wb, StarCls dot_char, lit ''|'', spaces0, shells],
       cats [wb, lit ''wget'', wb, StarCls dot_char, lit ''|'', spaces0, shells],
       cats [wb, lit ''npm'', spaces1, lit ''install'', spaces1, lit ''-g'', wb],
       cats [wb, lit ''pip'', spaces1, lit ''install'', spaces1, lit ''--user'', wb],
       cats [wb, lit ''apt'', spaces1, alts [lit ''install'', lit ''remove'', lit ''purge''], wb],
       cats [wb, lit ''yum'', spaces1, alts [lit ''install'', lit ''remove''], wb],
       cats [wb, lit ''dnf'', spaces1, alts [lit ''install'', lit ''remove''], wb],
       cats [wb, lit ''docker'', spaces1, lit ''run'', wb],
       cats [wb, lit ''docker'', spaces1, lit ''exec'', wb],
       cats [wb, lit ''git'', spaces1, lit ''push'', wb],
       cats [wb, lit ''git'', spaces1, lit ''force'', wb],
       cats [wb, lit ''ssh'', wb, StarCls dot_char, lit ''@''],
       cats [wb, lit ''eval'', wb],
       cats [wb, lit ''source'', spaces1, StarCls dot_char, lit ''.sh'', wb]])"

text \<open>The characters that end a path in \<open>absolutePathPattern\<close>.\<close>

definition path_end :: "char \<Rightarrow> bool" where
  "path_end c \<longleftrightarrow> re_space c \<or> c = CHR 0x22 \<or> c = CHR 0x27"

definition drive_end :: "char \<Rightarrow> bool" where
  "drive_end c \<longleftrightarrow> c = CHR 0x5C \<or> c = CHR 0x22 \<or> c = CHR 0x27"

definition ascii_letter :: "char \<Rightarrow> bool" where
  "ascii_letter c \<longleftrightarrow> CHR ''A'' \<le> c \<and> c \<le> CHR ''Z'' \<or> CHR ''a'' \<le> c \<and> c \<le> CHR ''z''"

definition absolute_path_pattern :: regexp where
  "absolute_path_pattern =
     Alt (cats [Cls ascii_letter, lit '':'', Cls (\<lambda>c. c = CHR 0x5C), plus_cls (\<lambda>c. \<not> drive_end c)])
         (Cat (Cls (\<lambda>c. c = CHR 0x2F)) (plus_cls (\<lambda>c. \<not> path_end c)))"

definition safe_paths :: "string list" where
  "safe_paths = [''/dev/null'', ''/dev/zero'', ''/dev/random'', ''/dev/urandom'', ''/dev/stdin'', ''/dev/stdout'', ''/dev/stderr'']"

section \<open>The guard\<close>

record exec_tool =
  et_working_dir :: string
  et_timeout :: duration
  et_deny :: "regexp list"
  et_allow :: "regexp list"
  et_custom_allow :: "regexp list"
  et_restrict :: bool

record exec_config =
  xc_enable_deny :: bool
  xc_custom_deny :: "regexp list"
  xc_custom_allow :: "regexp list"

definition new_exec_tool :: "string \<Rightarrow> bool \<Rightarrow> exec_config option \<Rightarrow> exec_tool" where
  "new_exec_tool workingDir restrict cfg =
     \<lparr>et_working_dir = workingDir, et_timeout = 60 * second,
      et_deny = (case cfg of None \<Rightarrow> default_deny_patterns
        | Some c \<Rightarrow> if xc_enable_deny c then default_deny_patterns @ xc_custom_deny c else []),
      et_allow = [],
      et_custom_allow = (case cfg of None \<Rightarrow> [] | Some c \<Rightarrow> xc_custom_allow c),
      et_restrict = restrict\<rparr>"

text \<open>\<open>filepath.Abs\<close>, which fails for a relative path when the process has no directory.\<close>

definition abs_path :: "string option \<Rightarrow> string \<Rightarrow> string option" where
  "abs_path getwd s = (if is_abs s then Some (path_clean s) else map_option (\<lambda>wd. path_join wd s) getwd)"

datatype guard_error = DangerousPattern | NotInAllowlist | PathTraversal | OutsideWorkingDir

definition leaves_dir :: "string option \<Rightarrow> string \<Rightarrow> string \<Rightarrow> bool" where
  "leaves_dir getwd cwdPath raw =
     (case abs_path getwd raw of
        None \<Rightarrow> False
      | Some p \<Rightarrow>
          if p \<in> set safe_paths then False
          else (case path_rel cwdPath p of None \<Rightarrow> False | Some rel \<Rightarrow> has_prefix rel ''..''))"

definition guard_command :: "exec_tool \<Rightarrow> string option \<Rightarrow> string \<Rightarrow> string \<Rightarrow> guard_error option" where
  "guard_command t getwd command cwd =
     (let cmd = trim_space command;
          lower = to_lower cmd;
          explicitlyAllowed = list_ex (\<lambda>r. match_string r lower) (et_custom_allow t)
      in if \<not> explicitlyAllowed \<and> list_ex (\<lambda>r. match_string r lower) (et_deny t) then Some DangerousPattern
         else if et_allow t \<noteq> [] \<and> \<not> list_ex (\<lambda>r. match_string r lower) (et_allow t) then Some NotInAllowlist
         else if et_restrict t then
           (if contains cmd (''..'' @ [CHR 0x5C]) \<or> contains cmd (''..'' @ [CHR 0x2F]) then Some PathTraversal
            else
              case abs_path getwd cwd of
                None \<Rightarrow> None
              | Some cwdPath \<Rightarrow>
                  if list_ex (leaves_dir getwd cwdPath) (find_all absolute_path_pattern None cmd) then Some OutsideWorkingDir
                  else None)
         else None)"

section \<open>The working directory\<close>

datatype link_result = LinkResolved string | LinkMissing | LinkError

datatype path_error = WorkspaceMissing | NoAbsolutePath | OutsideWorkspace | LinkOutside | NotResolved

definition is_within_workspace :: "string \<Rightarrow> string \<Rightarrow> bool" where
  "is_within_workspace candidate workspace =
     (case path_rel (path_clean workspace) (path_clean candidate) of None \<Rightarrow> False | Some r \<Rightarrow> is_local r)"

text \<open>\<open>resolveExistingAncestor\<close> from the components of an absolute path, the last one first: \<open>filepath.Dir\<close>
  drops a component.\<close>

fun existing_ancestor :: "(string \<Rightarrow> link_result) \<Rightarrow> string list \<Rightarrow> link_result" where
  "existing_ancestor links [] = links [CHR 0x2F]"
| "existing_ancestor links (p # ps) =
     (case links (CHR 0x2F # join_path (rev (p # ps))) of
        LinkMissing \<Rightarrow> existing_ancestor links ps
      | r \<Rightarrow> r)"

definition validate_path ::
  "string option \<Rightarrow> (string \<Rightarrow> link_result) \<Rightarrow> string \<Rightarrow> string \<Rightarrow> bool \<Rightarrow> path_error + string" where
  "validate_path getwd links path workspace restrict =
     (if workspace = [] then Inl WorkspaceMissing
      else
        case abs_path getwd workspace of
          None \<Rightarrow> Inl NoAbsolutePath
        | Some absWorkspace \<Rightarrow>
            let absPath = (if is_abs path then path_clean path else path_join absWorkspace path) in
            if \<not> restrict then Inr absPath
            else if \<not> is_within_workspace absPath absWorkspace then Inl OutsideWorkspace
            else
              let workspaceReal = (case links absWorkspace of LinkResolved r \<Rightarrow> r | _ \<Rightarrow> absWorkspace) in
              case links absPath of
                LinkResolved r \<Rightarrow> if is_within_workspace r workspaceReal then Inr absPath else Inl LinkOutside
              | LinkError \<Rightarrow> Inl NotResolved
              | LinkMissing \<Rightarrow>
                  (case existing_ancestor links (rev (butlast (path_parts absPath))) of
                     LinkResolved r \<Rightarrow> if is_within_workspace r workspaceReal then Inr absPath else Inl LinkOutside
                   | LinkMissing \<Rightarrow> Inr absPath
                   | LinkError \<Rightarrow> Inl NotResolved))"

section \<open>Running a command\<close>

datatype exec_end = ExecDone | ExecTimedOut | ExecFailed string

datatype exec_outcome = NotStarted string | Ended string string exec_end

datatype exec_result = ExecBlocked path_error | ExecRefused guard_error | ExecNoCommand | ExecReport string bool

definition max_output :: nat where
  "max_output = 10000"

definition exec_output :: "duration \<Rightarrow> (duration \<Rightarrow> string) \<Rightarrow> exec_outcome \<Rightarrow> exec_result" where
  "exec_output timeout show_duration outcome =
     (case outcome of
        NotStarted e \<Rightarrow> ExecReport (''failed to start command: '' @ e) True
      | Ended out err status \<Rightarrow>
          let output = (if err \<noteq> [] then out @ newline @ ''STDERR:'' @ newline @ err else out) in
          if status = ExecTimedOut then ExecReport (''Command timed out after '' @ show_duration timeout) True
          else
            let output = (case status of ExecFailed e \<Rightarrow> output @ newline @ ''Exit code: '' @ e | _ \<Rightarrow> output);
                output = (if output = [] then ''(no output)'' else output);
                output = (if length output > max_output
                          then take max_output output @ newline @ ''... (truncated, '' @ decimal (length output - max_output) @ '' more chars)''
                          else output)
            in ExecReport output (status \<noteq> ExecDone))"

text \<open>The directory a command runs in, and the whole call.\<close>

definition exec_dir :: "exec_tool \<Rightarrow> string option \<Rightarrow> (string \<Rightarrow> link_result) \<Rightarrow> string option \<Rightarrow> path_error + string" where
  "exec_dir t getwd links wd =
     (let fallback = (\<lambda>cwd. if cwd = [] then (case getwd of None \<Rightarrow> [] | Some d \<Rightarrow> d) else cwd) in
      if wd = None \<or> wd = Some [] then Inr (fallback (et_working_dir t))
      else if et_restrict t \<and> et_working_dir t \<noteq> []
      then (case validate_path getwd links (the wd) (et_working_dir t) True of Inl e \<Rightarrow> Inl e | Inr d \<Rightarrow> Inr (fallback d))
      else Inr (the wd))"

definition exec_execute ::
  "exec_tool \<Rightarrow> string option \<Rightarrow> (string \<Rightarrow> link_result) \<Rightarrow> (duration \<Rightarrow> string) \<Rightarrow> (string \<Rightarrow> string \<Rightarrow> 'w \<Rightarrow> exec_outcome \<times> 'w)
     \<Rightarrow> string option \<Rightarrow> string option \<Rightarrow> 'w \<Rightarrow> exec_result \<times> 'w" where
  "exec_execute t getwd links show_duration run command wd w =
     (case command of
        None \<Rightarrow> (ExecNoCommand, w)
      | Some command \<Rightarrow>
          (case exec_dir t getwd links wd of
             Inl e \<Rightarrow> (ExecBlocked e, w)
           | Inr cwd \<Rightarrow>
               (case guard_command t getwd command cwd of
                  Some e \<Rightarrow> (ExecRefused e, w)
                | None \<Rightarrow> (case run command cwd w of (outcome, w) \<Rightarrow> (exec_output (et_timeout t) show_duration outcome, w)))))"

section \<open>Lemmas\<close>

lemma star_matches_head: "\<exists>ms. star_matches p b s g = (if takeWhile p s = [] then b else Some (last (takeWhile p s)), dropWhile p s, g) # ms"
proof (induction s arbitrary: b)
  case (Cons c cs)
  show ?case
  proof (cases "p c")
    case True
    obtain ms where "star_matches p (Some c) cs g = (if takeWhile p cs = [] then Some c else Some (last (takeWhile p cs)), dropWhile p cs, g) # ms"
      using Cons.IH by blast
    then show ?thesis using True by auto
  qed simp
qed simp

text \<open>The absolute paths of a command without backslashes, found by reading it once.\<close>

function abs_paths :: "string \<Rightarrow> string list" where
  "abs_paths [] = []"
| "abs_paths (c # s) =
     (if c = CHR 0x2F \<and> s \<noteq> [] \<and> \<not> path_end (hd s)
      then (c # takeWhile (\<lambda>c. \<not> path_end c) s) # abs_paths (dropWhile (\<lambda>c. \<not> path_end c) s)
      else abs_paths s)"
  by pat_completeness auto
termination by (relation "measure length") (auto simp: le_imp_less_Suc length_dropWhile_le)

lemma drive_alternative:
  assumes "CHR 0x5C \<notin> set s"
  shows "matches_at (cats [Cls ascii_letter, lit '':'', Cls (\<lambda>c. c = CHR 0x5C), plus_cls (\<lambda>c. \<not> drive_end c)]) (b, s, g) = []"
proof (cases s rule: list.exhaust [case_names Nil Cons])
  case (Cons c1 s1)
  show ?thesis
  proof (cases s1)
    case s1: (Cons c2 s2)
    then show ?thesis using assms Cons by (cases s2) (auto simp: lit_def plus_cls_def)
  qed (simp add: Cons lit_def plus_cls_def)
qed (simp add: lit_def plus_cls_def)

lemma slash_alternative:
  "matches_at (Cat (Cls (\<lambda>c. c = CHR 0x2F)) (plus_cls (\<lambda>c. \<not> path_end c))) (b, s, g)
     = (case s of c # d # cs \<Rightarrow> if c = CHR 0x2F \<and> \<not> path_end d then star_matches (\<lambda>c. \<not> path_end c) (Some d) cs g else [] | _ \<Rightarrow> [])"
  by (auto simp: plus_cls_def split: list.splits)

lemma pattern_no_drive:
  assumes "CHR 0x5C \<notin> set s"
  shows "matches_at absolute_path_pattern (b, s, g)
     = (case s of c # d # cs \<Rightarrow> if c = CHR 0x2F \<and> \<not> path_end d then star_matches (\<lambda>c. \<not> path_end c) (Some d) cs g else [] | _ \<Rightarrow> [])"
  unfolding absolute_path_pattern_def matches_at.simps(5) drive_alternative [OF assms] slash_alternative append_Nil ..

lemma pattern_here:
  assumes "CHR 0x5C \<notin> set s"
  shows "case matches_at (Group absolute_path_pattern) (b, s, None) of
      [] \<Rightarrow> \<not> (\<exists>t. s = CHR 0x2F # t \<and> t \<noteq> [] \<and> \<not> path_end (hd t))
    | (b', rest, g) # _ \<Rightarrow> (\<exists>t. s = CHR 0x2F # t \<and> t \<noteq> [] \<and> \<not> path_end (hd t)
        \<and> rest = dropWhile (\<lambda>c. \<not> path_end c) t \<and> g = Some (CHR 0x2F # takeWhile (\<lambda>c. \<not> path_end c) t))"
proof (cases "\<exists>d cs. s = CHR 0x2F # d # cs \<and> \<not> path_end d")
  case False
  then have "matches_at (Group absolute_path_pattern) (b, s, None) = []"
    by (auto simp: pattern_no_drive [OF assms] split: list.splits)
  moreover have "\<not> (\<exists>t. s = CHR 0x2F # t \<and> t \<noteq> [] \<and> \<not> path_end (hd t))" using False by (auto simp: neq_Nil_conv)
  ultimately show ?thesis by simp
next
  case True
  then obtain d cs where s: "s = CHR 0x2F # d # cs" "\<not> path_end d" by blast
  let ?tok = "\<lambda>c. \<not> path_end c"
  obtain ms where ms: "star_matches ?tok (Some d) cs None
      = (if takeWhile ?tok cs = [] then Some d else Some (last (takeWhile ?tok cs)), dropWhile ?tok cs, None) # ms"
    using star_matches_head by blast
  have len: "length (d # cs) - length (dropWhile ?tok cs) = length (d # takeWhile ?tok cs)"
  proof -
    have "length (takeWhile ?tok cs) + length (dropWhile ?tok cs) = length cs" by (metis length_append takeWhile_dropWhile_id)
    then show ?thesis by simp
  qed
  have "take (length (takeWhile ?tok cs)) cs = takeWhile ?tok cs" by (metis append_eq_conv_conj takeWhile_dropWhile_id)
  moreover have "length s - length (dropWhile ?tok cs) = Suc (Suc (length (takeWhile ?tok cs)))"
    using s len length_dropWhile_le [of ?tok cs] by (simp add: Suc_diff_le)
  ultimately have took: "take (length s - length (dropWhile ?tok cs)) s = CHR 0x2F # takeWhile ?tok (d # cs)" using s by simp
  have m: "matches_at absolute_path_pattern (b, s, None)
      = (if takeWhile ?tok cs = [] then Some d else Some (last (takeWhile ?tok cs)), dropWhile ?tok cs, None) # ms"
    using pattern_no_drive [OF assms, of b None] ms s by simp
  show ?thesis unfolding matches_at.simps(7) m using took s by simp
qed

lemma find_all_Some:
  "find_match (Group r) b s = Some (b', rest, Some t) \<Longrightarrow> length rest < length s \<Longrightarrow> t \<noteq> []
     \<Longrightarrow> find_all r b s = t # find_all r b' rest"
  by (subst find_all.simps) simp

lemma find_abs_path:
  assumes "CHR 0x5C \<notin> set s"
  shows "find_all absolute_path_pattern b s = abs_paths s"
  using assms
proof (induction s arbitrary: b rule: abs_paths.induct)
  case 1
  have "find_match (Group absolute_path_pattern) b [] = None"
    using pattern_here [of "[]" b] by (auto split: list.splits)
  then show ?case by (simp add: find_all.simps [of _ _ "[]"])
next
  case (2 c s)
  let ?tok = "\<lambda>c. \<not> path_end c"
  note here = pattern_here [OF "2.prems", of b]
  show ?case
  proof (cases "c = CHR 0x2F \<and> s \<noteq> [] \<and> \<not> path_end (hd s)")
    case True
    obtain b' rest g ms where m: "matches_at (Group absolute_path_pattern) (b, c # s, None) = (b', rest, g) # ms"
      using here True by (cases "matches_at (Group absolute_path_pattern) (b, c # s, None)") auto
    then have r: "rest = dropWhile ?tok s" "g = Some (c # takeWhile ?tok s)" using here True by auto
    have "CHR 0x5C \<notin> set rest" using "2.prems" r by (auto dest: set_dropWhileD)
    then have "find_all absolute_path_pattern b' rest = abs_paths rest" using "2.IH"(1) [OF True] r by simp
    moreover have "find_match (Group absolute_path_pattern) b (c # s) = Some (b', rest, g)"
      using m by (subst find_match.simps) (simp only: list.case)
    moreover have "length rest < length (c # s)" using r(1) by (simp add: le_imp_less_Suc length_dropWhile_le)
    ultimately have "find_all absolute_path_pattern b (c # s) = (c # takeWhile ?tok s) # abs_paths rest"
      using find_all_Some [of absolute_path_pattern b "c # s" b' rest "c # takeWhile ?tok s"] r(2) by simp
    then show ?thesis using r True by simp
  next
    case False
    then have none: "matches_at (Group absolute_path_pattern) (b, c # s, None) = []"
      using here by (cases "matches_at (Group absolute_path_pattern) (b, c # s, None)") auto
    have next_one: "find_match (Group absolute_path_pattern) b (c # s) = find_match (Group absolute_path_pattern) (Some c) s"
      using none by (subst find_match.simps) (simp only: list.case)
    have "find_all absolute_path_pattern b (c # s) = find_all absolute_path_pattern (Some c) s"
    proof (cases "find_match (Group absolute_path_pattern) (Some c) s")
      case None
      then show ?thesis using next_one by (simp add: find_all.simps [of _ b] find_all.simps [of _ "Some c"])
    next
      case (Some m)
      obtain b' rest g where m: "m = (b', rest, g)" by (cases m)
      obtain b2 s2 u where two: "m \<in> set (matches_at (Group absolute_path_pattern) (b2, s2, None))" "s = u @ s2"
        using find_match_matches [OF Some] by blast
      have "length rest < length s"
      proof -
        have "CHR 0x5C \<notin> set s2" using "2.prems" two(2) by simp
        note p = two(1) [unfolded m]
        have "\<exists>g'. (b', rest, g') \<in> set (matches_at absolute_path_pattern (b2, s2, None))" using p by auto
        then obtain g' d cs where "s2 = CHR 0x2F # d # cs" "(b', rest, g') \<in> set (star_matches ?tok (Some d) cs None)"
          unfolding pattern_no_drive [OF \<open>CHR 0x5C \<notin> set s2\<close>] by (auto split: list.splits if_splits)
        then have "length rest < length s2" by (auto dest: star_matches_suffix)
        then show ?thesis using two(2) by simp
      qed
      then show ?thesis using next_one Some m by (simp add: find_all.simps [of _ b "c # s"] find_all.simps [of _ "Some c" s])
    qed
    then show ?thesis using "2.IH"(2) [OF False] "2.prems" False by auto
  qed
qed

lemma abs_paths_token:
  assumes "list_all (\<lambda>c. \<not> path_end c) q" and "q \<noteq> []" and "v = [] \<or> path_end (hd v)"
  shows "u = [] \<or> path_end (last u) \<Longrightarrow> CHR 0x2F # q \<in> set (abs_paths (u @ CHR 0x2F # q @ v))"
proof (induction u rule: measure_induct_rule [of length])
  case (less u)
  let ?tok = "\<lambda>c. \<not> path_end c"
  show ?case
  proof (cases u)
    case Nil
    have "takeWhile ?tok (q @ v) = q" using assms(1,3) by (cases v) (auto simp: takeWhile_append list_all_iff)
    moreover have "\<not> path_end (hd (q @ v))" using assms(1,2) by (cases q) auto
    ultimately show ?thesis using Nil assms(2) by simp
  next
    case (Cons c u')
    show ?thesis
    proof (cases "c = CHR 0x2F \<and> \<not> path_end (hd (u' @ CHR 0x2F # q @ v))")
      case True
      then have "u' \<noteq> []" using less.prems Cons by (auto simp: path_end_def re_space_def)
      then have stop: "path_end (last u')" using less.prems Cons by simp
      then have "\<exists>x \<in> set u'. \<not> ?tok x" using \<open>u' \<noteq> []\<close> by auto
      then have dw: "dropWhile ?tok (u' @ CHR 0x2F # q @ v) = dropWhile ?tok u' @ CHR 0x2F # q @ v" by (auto simp: dropWhile_append)
      have "dropWhile ?tok u' \<noteq> []" using \<open>\<exists>x \<in> set u'. \<not> ?tok x\<close> by (auto simp: dropWhile_eq_Nil_conv)
      then have "path_end (last (dropWhile ?tok u'))" using stop by (metis last_appendR takeWhile_dropWhile_id)
      moreover have "length (dropWhile ?tok u') < length u" using Cons by (simp add: le_imp_less_Suc length_dropWhile_le)
      ultimately have "CHR 0x2F # q \<in> set (abs_paths (dropWhile ?tok u' @ CHR 0x2F # q @ v))" using less.IH by blast
      then show ?thesis using True Cons dw by simp
    next
      case False
      have "u' = [] \<or> path_end (last u')" using less.prems Cons by (cases u') auto
      then have "CHR 0x2F # q \<in> set (abs_paths (u' @ CHR 0x2F # q @ v))" using less.IH [of u'] Cons by simp
      then show ?thesis using False Cons by auto
    qed
  qed
qed

lemma outside_leaves:
  assumes "is_abs cwd" and "is_abs p" and "\<not> inside cwd p" and "path_clean p \<notin> set safe_paths"
  shows "leaves_dir getwd (path_clean cwd) p"
proof -
  have neq: "path_clean p \<noteq> path_clean cwd" using assms(1-3) clean_eq_iff [of p cwd] by (auto simp: inside_def)
  have "\<nexists>xs. path_parts p = path_parts cwd @ xs" using assms(2,3) by (simp add: inside_def)
  then obtain ps where ps: "rel_parts (path_parts cwd) (path_parts p) = ''..'' # ps" using rel_parts_outside by blast
  have clean2: "path_clean (path_clean p) = path_clean p" "path_clean (path_clean cwd) = path_clean cwd"
    using assms(1,2) clean_eq_iff [of "path_clean p" p] clean_eq_iff [of "path_clean cwd" cwd] by simp_all
  have "path_rel (path_clean cwd) (path_clean p) = Some (join_path (''..'' # ps))"
    using neq clean2 assms(1,2) ps by (simp add: path_rel_def)
  moreover have "has_prefix (join_path (''..'' # ps)) ''..''" by (simp add: join_path_Cons has_prefix_iff)
  ultimately show ?thesis using assms(2,4) by (simp add: leaves_dir_def abs_path_def)
qed

lemma ancestor_abs:
  assumes "\<And>s r. links s = LinkResolved r \<Longrightarrow> is_abs r"
  shows "existing_ancestor links ps = LinkResolved r \<Longrightarrow> is_abs r"
  by (induction ps) (use assms in \<open>auto split: link_result.splits\<close>)

section \<open>Properties\<close>

text \<open>A restricted tool refuses every command without backslashes in which an absolute path outside the
  working directory stands between spaces or quotes, unless the path is one of the safe devices.\<close>

theorem guard_refuses_outside_paths:
  assumes "et_restrict t" and "is_abs cwd" and "trim_space command = u @ (CHR 0x2F # q) @ v" and "CHR 0x5C \<notin> set command"
    and "q \<noteq> []" and "list_all (\<lambda>c. \<not> path_end c) q" and "u = [] \<or> path_end (last u)" and "v = [] \<or> path_end (hd v)"
    and "\<not> inside cwd (CHR 0x2F # q)" and "path_clean (CHR 0x2F # q) \<notin> set safe_paths"
  shows "guard_command t getwd command cwd \<noteq> None"
proof -
  have "CHR 0x5C \<notin> set (trim_space command)" using assms(4) set_trim_space [of command] by auto
  then have "find_all absolute_path_pattern None (trim_space command) = abs_paths (trim_space command)" by (rule find_abs_path)
  then have "CHR 0x2F # q \<in> set (find_all absolute_path_pattern None (trim_space command))"
    using abs_paths_token [OF assms(6,5,8,7)] assms(3) by simp
  moreover have "is_abs (CHR 0x2F # q)" by (simp add: is_abs_def)
  ultimately have "list_ex (leaves_dir getwd (path_clean cwd)) (find_all absolute_path_pattern None (trim_space command))"
    using outside_leaves [OF assms(2) _ assms(9,10)] by (auto simp: list_ex_iff)
  moreover have "abs_path getwd cwd = Some (path_clean cwd)" using assms(2) by (simp add: abs_path_def)
  ultimately show ?thesis using assms(1) by (simp add: guard_command_def Let_def)
qed

text \<open>Property C25: A directory or file that \<open>validatePath\<close> accepts for a restricted tool lies in the workspace, and where it exists,
  or has an ancestor that exists, so does what the symbolic links lead to.\<close>

theorem validate_path_confines:
  assumes "validate_path getwd links path workspace True = Inr p" and "is_abs workspace"
    and "\<And>s r. links s = LinkResolved r \<Longrightarrow> is_abs r"
  shows "inside workspace p \<and> (case (links (path_clean workspace), links p) of
    (LinkResolved w, LinkResolved r) \<Rightarrow> inside w r
  | (LinkResolved w, LinkMissing) \<Rightarrow> (case existing_ancestor links (rev (butlast (path_parts p))) of
       LinkResolved r \<Rightarrow> inside w r | LinkMissing \<Rightarrow> True | LinkError \<Rightarrow> False)
  | (_, LinkError) \<Rightarrow> False
  | _ \<Rightarrow> True)"
proof -
  have ws: "abs_path getwd workspace = Some (path_clean workspace)" "workspace \<noteq> []"
    using assms(1,2) by (auto simp: abs_path_def validate_path_def)
  let ?p = "if is_abs path then path_clean path else path_join (path_clean workspace) path"
  have within: "is_within_workspace r w \<longleftrightarrow> inside w r" if "is_abs w" "is_abs r" for w r
  proof -
    have "inside (path_clean w) (path_clean r) \<longleftrightarrow> inside w r" using that by (simp add: inside_def)
    then show ?thesis using rel_local_iff_inside [of "path_clean w" "path_clean r"] that by (simp add: is_within_workspace_def)
  qed
  have p: "p = ?p" and ok: "is_within_workspace p (path_clean workspace)"
    using assms(1) ws by (auto simp: validate_path_def Let_def split: if_splits link_result.splits)
  have abs_ws: "is_abs (path_clean workspace)" using assms(2) by simp
  have "path_clean workspace \<noteq> []" using abs_ws by (auto simp: is_abs_def)
  then have "is_abs ?p" using split_abs [OF abs_ws] by (auto simp: path_join_def is_abs_def intro!: clean_is_abs [unfolded is_abs_def])
  then have abs_p: "is_abs p" using p by simp
  have "inside workspace p" using ok within [OF abs_ws abs_p] assms(2) by (simp add: inside_def)
  moreover have "inside w r" if "links (path_clean workspace) = LinkResolved w" "links p = LinkResolved r" for w r
    using assms(1) ws that within [of w r] assms(3) p by (auto simp: validate_path_def Let_def split: if_splits)
  moreover have "case existing_ancestor links (rev (butlast (path_parts p))) of
       LinkResolved r \<Rightarrow> inside w r | LinkMissing \<Rightarrow> True | LinkError \<Rightarrow> False"
    if "links (path_clean workspace) = LinkResolved w" "links p = LinkMissing" for w
    using assms(1) ws that within [of w] assms(3) p ancestor_abs [OF assms(3)]
    by (auto simp: validate_path_def Let_def split: if_splits link_result.splits)
  moreover have "links p \<noteq> LinkError"
    using assms(1) ws p by (auto simp: validate_path_def Let_def split: if_splits link_result.splits)
  ultimately show ?thesis by (auto split: link_result.splits)
qed

lemma guard_refuses_outside_paths_witness:
  "guard_command (new_exec_tool ''/ws'' True None) None ''cat /etc/passwd'' ''/ws'' \<noteq> None"
proof (rule guard_refuses_outside_paths)
  show "trim_space ''cat /etc/passwd'' = ''cat '' @ (CHR 0x2F # ''etc/passwd'') @ []" by code_simp
  have "path_parts ''/ws'' = [''ws'']" "path_parts (CHR 0x2F # ''etc/passwd'') = [''etc'', ''passwd'']" by code_simp+
  then show "\<not> inside ''/ws'' (CHR 0x2F # ''etc/passwd'')" by (simp add: inside_def)
  show "path_clean (CHR 0x2F # ''etc/passwd'') \<notin> set safe_paths" by code_simp
qed (simp_all add: new_exec_tool_def is_abs_def path_end_def re_space_def)

definition sample_links :: "string \<Rightarrow> link_result" where
  "sample_links s = (if s = ''/ws'' then LinkResolved ''/data/ws'' else if s = ''/ws/a'' then LinkResolved ''/data/ws/b'' else LinkMissing)"

lemma validate_path_confines_witness:
  "inside ''/data/ws'' ''/data/ws/b''"
proof -
  have "validate_path None sample_links ''x/../a'' ''/ws'' True = Inr ''/ws/a''" by code_simp
  moreover have "is_abs ''/ws''" by code_simp
  moreover have "is_abs r" if "sample_links s = LinkResolved r" for s r
    using that by (auto simp: sample_links_def is_abs_def split: if_splits)
  moreover have "path_clean ''/ws'' = ''/ws''" by code_simp
  ultimately show ?thesis using validate_path_confines [of None sample_links "''x/../a''" "''/ws''" "''/ws/a''"]
    by (simp add: sample_links_def)
qed

section \<open>What the guard does not see\<close>

text \<open>Without a slash the workspace restriction finds nothing: \<open>cd ..\<close> leaves the working directory.\<close>

lemma abs_paths_no_slash: "CHR 0x2F \<notin> set s \<Longrightarrow> abs_paths s = []"
  by (induction s) auto

lemma slash_free_unrestricted:
  assumes "CHR 0x2F \<notin> set command" and "CHR 0x5C \<notin> set command"
  shows "guard_command t getwd command cwd = guard_command (t\<lparr>et_restrict := False\<rparr>) getwd command cwd"
proof -
  have s: "CHR 0x2F \<notin> set (trim_space command)" "CHR 0x5C \<notin> set (trim_space command)"
    using assms set_trim_space [of command] by auto
  then have "find_all absolute_path_pattern None (trim_space command) = []" by (simp add: find_abs_path abs_paths_no_slash)
  moreover have "\<not> contains (trim_space command) (''..'' @ [c])" if "c \<notin> set (trim_space command)" for c
    using that by (auto simp: contains_iff)
  ultimately show ?thesis using s by (simp add: guard_command_def Let_def split: option.splits)
qed

lemma cd_up_passes: "guard_command (new_exec_tool ''/ws'' True None) getwd ''cd .. ; cat secret'' ''/ws'' = None"
proof -
  have "list_ex (\<lambda>r. match_string r (to_lower (trim_space ''cd .. ; cat secret''))) default_deny_patterns = False" by code_simp
  then show ?thesis by (subst slash_free_unrestricted) (simp_all add: new_exec_tool_def guard_command_def Let_def)
qed

text \<open>The text is lower-cased before the patterns are tried, so the pattern of a here-document, \<open><<\s*EOF\<close>, never matches.\<close>

lemma lower_char_not_upper: "lower_char c \<noteq> CHR ''E''"
proof
  assume E: "lower_char c = CHR ''E''"
  show False
  proof (cases "CHR ''A'' \<le> c \<and> c \<le> CHR ''Z''")
    case True
    then have "65 \<le> (of_char c :: nat)" "(of_char c :: nat) \<le> 90" by (auto simp: less_eq_char_def)
    moreover from this have "of_char (lower_char c) = (of_char c + 32 :: nat)" using True by (simp add: lower_char_def of_char_of)
    ultimately show False using E by simp
  next
    case False
    then show False using E by (auto simp: lower_char_def less_eq_char_def)
  qed
qed

lemma here_document_passes: "\<not> match_string (cats [lit ''<<'', spaces0, lit ''EOF'']) (to_lower s)"
proof
  assume "match_string (cats [lit ''<<'', spaces0, lit ''EOF'']) (to_lower s)"
  then obtain m where "find_match (cats [lit ''<<'', spaces0, lit ''EOF'']) None (to_lower s) = Some m" by (auto simp: match_string_def)
  from find_match_matches [OF this] obtain b rest u
    where m: "m \<in> set (matches_at (cats [lit ''<<'', spaces0, lit ''EOF'']) (b, rest, None))" and s: "to_lower s = u @ rest" by blast
  then obtain b1 rest1 g1 b' rest' g' where lit1: "(b1, rest1, g1) \<in> set (matches_at (lit ''<<'') (b, rest, None))"
    and sp: "(b', rest', g') \<in> set (star_matches re_space b1 rest1 g1)" and lit: "m \<in> set (matches_at (lit ''EOF'') (b', rest', g'))"
    by auto
  obtain v where "rest = v @ rest1" using matches_at_suffix [OF lit1] by blast
  moreover obtain w where "rest1 = w @ rest'" using star_matches_suffix [OF sp] by blast
  ultimately have suffix: "rest = (v @ w) @ rest'" by simp
  have "rest' \<noteq> [] \<and> hd rest' = CHR ''E''" using lit by (cases rest') (auto simp: lit_def split: if_splits)
  then have "CHR ''E'' \<in> set (to_lower s)" using s suffix by (cases rest') auto
  then obtain c where "lower_char c = CHR ''E''" by (auto simp: to_lower_def)
  then show False using lower_char_not_upper by blast
qed

end
