(* ===== verification/User_Store.thy ===== *)
theory User_Store
  imports Time_Text
begin

text \<open>
  The accounts (\<open>pkg/users/store.go\<close>, \<open>sqlite_store.go\<close>, \<open>verification.go\<close>): the table of users with its
  unique identifiers and addresses, and the tokens that verify an address. A table is the list of
  its rows in the order of insertion; times are as exact as their texts. Fresh identifiers, random
  tokens and the clock are arguments.
\<close>

section \<open>Users\<close>

record user =
  us_id :: string
  us_email :: string
  us_hash :: string
  us_name :: string
  us_role :: string
  us_status :: string
  us_verified :: bool
  us_created :: time
  us_updated :: time

abbreviation (input) status_pending :: string where
  "status_pending \<equiv> ''pending_verification''"

abbreviation (input) status_active :: string where
  "status_active \<equiv> ''active''"

abbreviation (input) status_suspended :: string where
  "status_suspended \<equiv> ''suspended''"

abbreviation (input) status_deleted :: string where
  "status_deleted \<equiv> ''deleted''"

abbreviation (input) role_user :: string where
  "role_user \<equiv> ''user''"

abbreviation (input) role_admin :: string where
  "role_admin \<equiv> ''admin''"

datatype user_error = UserNotFound | EmailExists

text \<open>\<open>Create\<close> completes the user it is given; a violation of either key is reported as \<open>ErrEmailExists\<close>.\<close>

definition create_user :: "string \<Rightarrow> time \<Rightarrow> user \<Rightarrow> user list \<Rightarrow> (user_error + user) \<times> user list" where
  "create_user uuid now u us =
     (let u = u\<lparr>us_id := if us_id u = [] then uuid else us_id u, us_created := now, us_updated := now,
                us_status := if us_status u = [] then status_pending else us_status u,
                us_role := if us_role u = [] then role_user else us_role u\<rparr>
      in if list_ex (\<lambda>r. us_id r = us_id u \<or> us_email r = to_lower (us_email u)) us then (Inl EmailExists, us)
         else (Inr u, us @ [u\<lparr>us_email := to_lower (us_email u)\<rparr>]))"

definition read_user :: "user \<Rightarrow> user" where
  "read_user u = (if us_role u = [] then u\<lparr>us_role := role_user\<rparr> else u)"

definition get_user :: "string \<Rightarrow> user list \<Rightarrow> user option" where
  "get_user ident us = map_option read_user (find (\<lambda>r. us_id r = ident) us)"

definition get_user_by_email :: "string \<Rightarrow> user list \<Rightarrow> user option" where
  "get_user_by_email email us = map_option read_user (find (\<lambda>r. us_email r = to_lower email) us)"

definition update_user :: "time \<Rightarrow> user \<Rightarrow> user list \<Rightarrow> user_error option \<times> user list" where
  "update_user now u us =
     (if \<not> list_ex (\<lambda>r. us_id r = us_id u) us then (Some UserNotFound, us)
      else if list_ex (\<lambda>r. us_id r \<noteq> us_id u \<and> us_email r = to_lower (us_email u)) us then (Some EmailExists, us)
      else (None, map (\<lambda>r. if us_id r = us_id u
                           then u\<lparr>us_email := to_lower (us_email u), us_created := us_created r, us_updated := now\<rparr> else r) us))"

definition delete_user :: "string \<Rightarrow> user list \<Rightarrow> user_error option \<times> user list" where
  "delete_user ident us =
     (if list_ex (\<lambda>r. us_id r = ident) us then (None, filter (\<lambda>r. us_id r \<noteq> ident) us) else (Some UserNotFound, us))"

text \<open>\<open>List\<close>: the newest first by the text of the time, equal texts in the order of the table.\<close>

definition list_users :: "user list \<Rightarrow> user list" where
  "list_users us = rev (sort_key (\<lambda>u. stamp (us_created u)) (rev us))"

definition count_users :: "user list \<Rightarrow> nat" where
  "count_users us = length us"

section \<open>Tokens of verification\<close>

record verification_token =
  vt_id :: string
  vt_user :: string
  vt_token :: string
  vt_used :: bool
  vt_expires :: time
  vt_created :: time

datatype verify_error =
  TokenNotFound | TokenExpired | TokenUsed | AlreadyVerified | TooManyTokens | InsertFailed | VerifyUser user_error

definition token_expiry :: duration where
  "token_expiry = 24 * hour"

definition resend_cooldown :: duration where
  "resend_cooldown = 60 * second"

definition create_token :: "string \<Rightarrow> string \<Rightarrow> time \<Rightarrow> string \<Rightarrow> duration \<Rightarrow> verification_token list
    \<Rightarrow> (verify_error + verification_token) \<times> verification_token list" where
  "create_token tok ident now user_id expiry ts =
     (let vt = \<lparr>vt_id = take 16 ident, vt_user = user_id, vt_token = tok, vt_used = False,
               vt_expires = now + expiry, vt_created = now\<rparr>
      in if list_ex (\<lambda>r. vt_id r = vt_id vt \<or> vt_token r = tok) ts then (Inl InsertFailed, ts) else (Inr vt, ts @ [vt]))"

definition get_token :: "string \<Rightarrow> verification_token list \<Rightarrow> verification_token option" where
  "get_token tok ts = find (\<lambda>r. vt_token r = tok) ts"

definition mark_token_used :: "string \<Rightarrow> verification_token list \<Rightarrow> verify_error option \<times> verification_token list" where
  "mark_token_used tok ts =
     (if list_ex (\<lambda>r. vt_token r = tok) ts
      then (None, map (\<lambda>r. if vt_token r = tok then r\<lparr>vt_used := True\<rparr> else r) ts)
      else (Some TokenNotFound, ts))"

text \<open>The time of the row whose text is the last; among equal texts the times are equal.\<close>

definition last_token_time :: "string \<Rightarrow> verification_token list \<Rightarrow> time option" where
  "last_token_time user_id ts =
     (case filter (\<lambda>r. vt_user r = user_id) ts of
        [] \<Rightarrow> None
      | rs \<Rightarrow> Some (vt_created (last (sort_key (\<lambda>r. stamp (vt_created r)) rs))))"

definition delete_expired_tokens :: "time \<Rightarrow> verification_token list \<Rightarrow> verification_token list" where
  "delete_expired_tokens now ts = filter (\<lambda>r. \<not> stamp (vt_expires r) < stamp now) ts"

text \<open>\<open>VerifyEmail\<close> and \<open>ResendVerification\<close> read first and write then, without a lock over both: the parts are
  definitions of their own, and a call that is handled while no other runs is the composition.\<close>

definition verify_check :: "time \<Rightarrow> string \<Rightarrow> user list \<Rightarrow> verification_token list \<Rightarrow> verify_error + user" where
  "verify_check now tok us ts =
     (case get_token tok ts of
        None \<Rightarrow> Inl TokenNotFound
      | Some vt \<Rightarrow>
          if vt_used vt then Inl TokenUsed
          else if now > vt_expires vt then Inl TokenExpired
          else
            (case get_user (vt_user vt) us of
               None \<Rightarrow> Inl (VerifyUser UserNotFound)
             | Some u \<Rightarrow> if us_verified u then Inl AlreadyVerified else Inr u))"

definition verify_finish ::
  "time \<Rightarrow> string \<Rightarrow> user \<Rightarrow> user list \<times> verification_token list \<Rightarrow> verify_error option \<times> user list \<times> verification_token list" where
  "verify_finish now tok u = (\<lambda>(us, ts).
     case mark_token_used tok ts of
       (Some e, ts) \<Rightarrow> (Some e, us, ts)
     | (None, ts) \<Rightarrow>
         let u = u\<lparr>us_verified := True, us_status := if us_status u = status_pending then status_active else us_status u\<rparr> in
         (case update_user now u us of
            (Some e, us) \<Rightarrow> (Some (VerifyUser e), us, ts)
          | (None, us) \<Rightarrow> (None, us, ts)))"

definition verify_email ::
  "time \<Rightarrow> string \<Rightarrow> user list \<times> verification_token list \<Rightarrow> verify_error option \<times> user list \<times> verification_token list" where
  "verify_email now tok = (\<lambda>(us, ts).
     case verify_check now tok us ts of
       Inl e \<Rightarrow> (Some e, us, ts)
     | Inr u \<Rightarrow> verify_finish now tok u (us, ts))"

definition resend_check ::
  "time \<Rightarrow> duration \<Rightarrow> string \<Rightarrow> user list \<Rightarrow> verification_token list \<Rightarrow> verify_error option" where
  "resend_check now cooldown user_id us ts =
     (case get_user user_id us of
        None \<Rightarrow> Some (VerifyUser UserNotFound)
      | Some u \<Rightarrow>
          if us_verified u then Some AlreadyVerified
          else
            (case last_token_time user_id ts of
               None \<Rightarrow> None
             | Some t \<Rightarrow> if now - t < cooldown then Some TooManyTokens else None))"

definition resend_verification ::
  "string \<Rightarrow> string \<Rightarrow> time \<Rightarrow> duration \<Rightarrow> string \<Rightarrow> user list \<Rightarrow> verification_token list
     \<Rightarrow> (verify_error + verification_token) \<times> verification_token list" where
  "resend_verification tok ident now cooldown user_id us ts =
     (case resend_check now cooldown user_id us ts of
        Some e \<Rightarrow> (Inl e, ts)
      | None \<Rightarrow> create_token tok ident now user_id token_expiry ts)"

lemmas verify_email_parts = verify_email_def verify_check_def verify_finish_def

lemmas resend_parts = resend_verification_def resend_check_def

section \<open>The table of users\<close>

text \<open>Identifiers and addresses are unique, and addresses are in lower case.\<close>

definition users_ok :: "user list \<Rightarrow> bool" where
  "users_ok us \<longleftrightarrow> distinct (map us_id us) \<and> distinct (map us_email us) \<and> list_all (\<lambda>u. to_lower (us_email u) = us_email u) us"

lemma read_user_simps [simp]:
  "us_id (read_user u) = us_id u" "us_email (read_user u) = us_email u" "us_hash (read_user u) = us_hash u"
  "us_status (read_user u) = us_status u" "us_verified (read_user u) = us_verified u"
  by (simp_all add: read_user_def)

lemma find_iff_unique:
  "distinct (map k xs) \<Longrightarrow> find (\<lambda>x. k x = a) xs = Some x \<longleftrightarrow> x \<in> set xs \<and> k x = a"
  by (induction xs) (auto simp: rev_image_eqI)

lemma get_user_row: "get_user ident us = Some u \<Longrightarrow> \<exists>r \<in> set us. us_id r = ident \<and> u = read_user r"
  by (auto simp: get_user_def find_Some_iff)

lemma get_user_id: "get_user ident us = Some u \<Longrightarrow> us_id u = ident"
  using get_user_row by fastforce

lemma get_user_by_email_row:
  "get_user_by_email email us = Some u \<Longrightarrow> \<exists>r \<in> set us. us_email r = to_lower email \<and> u = read_user r"
  by (auto simp: get_user_by_email_def find_Some_iff)

lemma get_user_unique: "users_ok us \<Longrightarrow> r \<in> set us \<Longrightarrow> get_user (us_id r) us = Some (read_user r)"
  using find_iff_unique [of us_id us "us_id r" r] by (auto simp: get_user_def users_ok_def)

lemma distinct_map_replace:
  assumes "distinct (map k us)" and "distinct (map e us)" and "\<And>r. r \<in> set us \<Longrightarrow> k r \<noteq> a \<Longrightarrow> e r \<noteq> b"
  shows "distinct (map (\<lambda>r. if k r = a then b else e r) us)"
  using assms
proof (induction us)
  case (Cons r us)
  have "distinct (map (\<lambda>r. if k r = a then b else e r) us)" using Cons by simp
  moreover have "(if k r = a then b else e r) \<notin> (\<lambda>r. if k r = a then b else e r) ` set us"
    using Cons.prems by (auto split: if_splits) (metis image_eqI)
  ultimately show ?case by simp
qed simp

lemma create_user_ok:
  assumes "users_ok us" shows "users_ok (snd (create_user uuid now u us))"
  using assms by (auto simp: create_user_def users_ok_def Let_def list_ex_iff to_lower_idem)

lemma update_user_ok:
  assumes "users_ok us" shows "users_ok (snd (update_user now u us))"
proof (cases "fst (update_user now u us)")
  case None
  let ?f = "\<lambda>r. if us_id r = us_id u then u\<lparr>us_email := to_lower (us_email u), us_created := us_created r, us_updated := now\<rparr> else r"
  have upd: "snd (update_user now u us) = map ?f us" and free: "\<And>r. r \<in> set us \<Longrightarrow> us_id r \<noteq> us_id u \<Longrightarrow> us_email r \<noteq> to_lower (us_email u)"
    using None by (auto simp: update_user_def list_ex_iff split: if_splits)
  have ids: "map us_id (map ?f us) = map us_id us" by simp
  have emails: "map us_email (map ?f us) = map (\<lambda>r. if us_id r = us_id u then to_lower (us_email u) else us_email r) us" by simp
  have "distinct (map us_email (map ?f us))"
    unfolding emails using assms free by (intro distinct_map_replace) (auto simp: users_ok_def)
  moreover have "list_all (\<lambda>u. to_lower (us_email u) = us_email u) (map ?f us)" using assms by (auto simp: users_ok_def list_all_iff)
  ultimately show ?thesis using assms unfolding users_ok_def upd ids by blast
next
  case (Some e)
  then show ?thesis using assms by (auto simp: update_user_def split: if_splits)
qed

lemma delete_user_ok: "users_ok us \<Longrightarrow> users_ok (snd (delete_user ident us))"
  by (auto simp: delete_user_def users_ok_def distinct_map_filter list_all_iff)

text \<open>A user that was read can be written back with the same address.\<close>

lemma update_user_succeeds:
  assumes "users_ok us" and "r \<in> set us" and "us_id u = us_id r" and "us_email u = us_email r"
  shows "update_user now u us =
    (None, map (\<lambda>r. if us_id r = us_id u then u\<lparr>us_created := us_created r, us_updated := now\<rparr> else r) us)"
proof -
  have low: "to_lower (us_email u) = us_email r" using assms by (auto simp: users_ok_def list_all_iff)
  have "us_email r' \<noteq> us_email r" if "r' \<in> set us" "us_id r' \<noteq> us_id r" for r'
    using that assms(1,2) find_iff_unique [of us_email us "us_email r"] by (metis users_ok_def option.inject)
  then show ?thesis using assms low by (auto simp: update_user_def list_ex_iff)
qed

section \<open>Administrators among the users\<close>

definition admin_in :: "string \<Rightarrow> user list \<Rightarrow> bool" where
  "admin_in a us \<longleftrightarrow> (\<exists>u \<in> set us. us_id u = a \<and> us_role u = role_admin)"

lemma admin_in_create: "admin_in a us \<Longrightarrow> admin_in a (snd (create_user uuid now u us))"
  by (auto simp: create_user_def admin_in_def Let_def)

lemma admin_in_update:
  "admin_in a us \<Longrightarrow> us_id u \<noteq> a \<or> us_role u = role_admin \<Longrightarrow> admin_in a (snd (update_user now u us))"
proof -
  let ?f = "\<lambda>r. if us_id r = us_id u then u\<lparr>us_email := to_lower (us_email u), us_created := us_created r, us_updated := now\<rparr> else r"
  assume "admin_in a us" and u: "us_id u \<noteq> a \<or> us_role u = role_admin"
  then obtain r where r: "r \<in> set us" "us_id r = a" "us_role r = role_admin" by (auto simp: admin_in_def)
  then have "?f r \<in> set (map ?f us)" "us_id (?f r) = a \<and> us_role (?f r) = role_admin" using u by auto
  then have "admin_in a (map ?f us)" unfolding admin_in_def by blast
  then show ?thesis using \<open>admin_in a us\<close> by (simp add: update_user_def)
qed

lemma admin_in_delete: "admin_in a us \<Longrightarrow> ident \<noteq> a \<Longrightarrow> admin_in a (snd (delete_user ident us))"
  by (auto simp: delete_user_def admin_in_def)

lemma admin_in_read:
  "users_ok us \<Longrightarrow> get_user ident us = Some u \<Longrightarrow> admin_in a us \<Longrightarrow> us_id u \<noteq> a \<or> us_role u = role_admin"
proof -
  assume ok: "users_ok us" and u: "get_user ident us = Some u" and "admin_in a us"
  then obtain r where r: "r \<in> set us" "us_id r = a" "us_role r = role_admin" by (auto simp: admin_in_def)
  have "us_role u = role_admin" if "us_id u = a"
  proof -
    have "ident = us_id r" using that get_user_id [OF u] r by simp
    then have "u = read_user r" using get_user_unique [OF ok r(1)] u by simp
    then show ?thesis using r by (simp add: read_user_def)
  qed
  then show ?thesis by blast
qed

section \<open>The tokens of verification\<close>

text \<open>The rows of one user are at least the cooldown apart, in the order of the table.\<close>

definition spaced :: "verification_token list \<Rightarrow> bool" where
  "spaced ts \<longleftrightarrow> sorted_wrt (\<lambda>r r'. vt_user r = vt_user r' \<longrightarrow> vt_created r + resend_cooldown \<le> vt_created r') ts"

lemma spaced_filter: "spaced ts \<Longrightarrow> spaced (filter p ts)"
  by (simp add: spaced_def sorted_wrt_filter)

lemma spaced_map:
  "(\<And>r. vt_user (f r) = vt_user r \<and> vt_created (f r) = vt_created r) \<Longrightarrow> spaced ts \<Longrightarrow> spaced (map f ts)"
  by (simp add: spaced_def sorted_wrt_map)

lemma last_token_time_spaced:
  assumes "spaced ts" and "r \<in> set ts"
  shows "\<exists>t. last_token_time (vt_user r) ts = Some t \<and> vt_created r \<le> t"
proof -
  let ?rs = "filter (\<lambda>r'. vt_user r' = vt_user r) ts"
  have in_rs: "r \<in> set ?rs" using assms by simp
  have "sorted_wrt (\<lambda>r r'. vt_created r + resend_cooldown \<le> vt_created r') ?rs"
    using spaced_filter [OF assms(1), of "\<lambda>r'. vt_user r' = vt_user r"]
    by (auto simp: spaced_def elim!: sorted_wrt_mono_rel [rotated])
  then have wrt: "sorted_wrt (\<lambda>r r'. vt_created r \<le> vt_created r' \<and> stamp (vt_created r) \<le> stamp (vt_created r')) ?rs"
    by (rule sorted_wrt_mono_rel [rotated])
      (auto simp: resend_cooldown_def intro!: less_imp_le [OF stamp_less_later] second_before)
  then have "sorted (map (\<lambda>r. stamp (vt_created r)) ?rs)"
    by (simp add: sorted_map) (rule sorted_wrt_mono_rel [rotated], assumption, simp)
  then have "sort_key (\<lambda>r. stamp (vt_created r)) ?rs = ?rs" by (rule sort_key_id_if_sorted)
  moreover have "?rs \<noteq> []" using in_rs by (metis empty_iff empty_set)
  moreover have "vt_created r \<le> vt_created (last ?rs)"
  proof -
    obtain ys y where ys: "?rs = ys @ [y]" using \<open>?rs \<noteq> []\<close> by (metis rev_exhaust)
    then have "\<forall>x \<in> set ys. vt_created x \<le> vt_created y" using wrt by (simp add: sorted_wrt_append)
    then show ?thesis using in_rs unfolding ys by auto
  qed
  ultimately show ?thesis by (auto simp: last_token_time_def split: list.splits)
qed

end
