(* ===== verification/Auth_Tokens.thy ===== *)
theory Auth_Tokens
  imports User_Store
begin

text \<open>
  Passwords and tokens (\<open>pkg/users/password.go\<close>, \<open>jwt.go\<close>, \<open>token_blacklist.go\<close>, \<open>middleware.go\<close>). The
  functions of bcrypt and of the JWT library are fields of a record, with what is relied on as
  predicates on it: a signed token is read back until it expires, and a hash accepts its password.
  Passwords are ASCII texts, for which the classes of the Unicode tables are those below.
\<close>

section \<open>Passwords\<close>

record password_hash =
  ph_hash :: "nat \<Rightarrow> string \<Rightarrow> string option"
  ph_check :: "string \<Rightarrow> string \<Rightarrow> bool"

definition is_upper :: "char \<Rightarrow> bool" where
  "is_upper c \<longleftrightarrow> CHR ''A'' \<le> c \<and> c \<le> CHR ''Z''"

definition is_lower :: "char \<Rightarrow> bool" where
  "is_lower c \<longleftrightarrow> CHR ''a'' \<le> c \<and> c \<le> CHR ''z''"

definition is_digit :: "char \<Rightarrow> bool" where
  "is_digit c \<longleftrightarrow> CHR ''0'' \<le> c \<and> c \<le> CHR ''9''"

definition is_punct_or_symbol :: "char \<Rightarrow> bool" where
  "is_punct_or_symbol c \<longleftrightarrow> CHR 0x21 \<le> c \<and> c \<le> CHR 0x7E \<and> \<not> is_upper c \<and> \<not> is_lower c \<and> \<not> is_digit c"

fun password_classes :: "string \<Rightarrow> bool \<times> bool \<times> bool \<times> bool \<Rightarrow> bool \<times> bool \<times> bool \<times> bool" where
  "password_classes [] has = has"
| "password_classes (c # cs) (upper, lower, digit, special) =
     password_classes cs
       (if is_upper c then (True, lower, digit, special)
        else if is_lower c then (upper, True, digit, special)
        else if is_digit c then (upper, lower, True, special)
        else if is_punct_or_symbol c then (upper, lower, digit, True)
        else (upper, lower, digit, special))"

definition valid_password :: "string \<Rightarrow> bool" where
  "valid_password password \<longleftrightarrow>
     8 \<le> length password
     \<and> (case password_classes password (False, False, False, False) of (u, l, d, s) \<Rightarrow> u \<and> l \<and> d \<and> s)"

text \<open>The hash accepts the password it was made from.\<close>

definition password_law :: "password_hash \<Rightarrow> bool" where
  "password_law ph \<longleftrightarrow> (\<forall>salt p h. ph_hash ph salt p = Some h \<longrightarrow> ph_check ph h p)"

section \<open>Revoked tokens\<close>

type_synonym blacklist = "string \<Rightarrow> time option"

definition revoke_jti :: "string \<Rightarrow> time \<Rightarrow> blacklist \<Rightarrow> blacklist" where
  "revoke_jti jti expires bl = bl(jti \<mapsto> expires)"

definition is_revoked :: "string \<Rightarrow> blacklist \<Rightarrow> bool" where
  "is_revoked jti bl \<longleftrightarrow> bl jti \<noteq> None"

definition revoke_user_tokens :: "string \<Rightarrow> time \<Rightarrow> time \<Rightarrow> blacklist \<Rightarrow> blacklist" where
  "revoke_user_tokens jti access refresh bl = bl(jti @ ''-access'' \<mapsto> access, jti @ ''-refresh'' \<mapsto> refresh)"

definition sweep_blacklist :: "time \<Rightarrow> blacklist \<Rightarrow> blacklist" where
  "sweep_blacklist now bl = (\<lambda>jti. case bl jti of Some e \<Rightarrow> if now > e then None else Some e | None \<Rightarrow> None)"

section \<open>Tokens\<close>

record token_claims =
  tc_id :: string
  tc_subject :: string
  tc_issuer :: string
  tc_issued :: "time option"
  tc_expires :: "time option"
  tc_user :: string
  tc_email :: string
  tc_type :: string

text \<open>The library: signing under a key, parsing with the check of signature, method and times, and the
  rounding of a numeric date.\<close>

record jwt_library =
  jw_sign :: "string \<Rightarrow> token_claims \<Rightarrow> string"
  jw_parse :: "string \<Rightarrow> time \<Rightarrow> string \<Rightarrow> token_claims option"
  jw_date :: "time \<Rightarrow> time"

definition jwt_law :: "jwt_library \<Rightarrow> string \<Rightarrow> bool" where
  "jwt_law jw key \<longleftrightarrow>
     (\<forall>now c e. tc_expires c = Some e \<longrightarrow> jw_parse jw key now (jw_sign jw key c) = (if now < e then Some c else None))
     \<and> (\<forall>t. t - second < jw_date jw t \<and> jw_date jw t \<le> t)"

record token_service =
  ts_key :: string
  ts_access_ttl :: duration
  ts_refresh_ttl :: duration
  ts_issuer :: string
  ts_blacklisting :: bool

definition default_access_ttl :: duration where
  "default_access_ttl = 15 * minute"

definition default_refresh_ttl :: duration where
  "default_refresh_ttl = 7 * 24 * hour"

definition new_token_service :: "string \<Rightarrow> (token_service \<Rightarrow> token_service) list \<Rightarrow> token_service option" where
  "new_token_service key opts =
     (if key = [] then None
      else Some (fold (\<lambda>opt ts. opt ts) opts
        \<lparr>ts_key = key, ts_access_ttl = default_access_ttl, ts_refresh_ttl = default_refresh_ttl,
         ts_issuer = ''operator-os.standardcompute'', ts_blacklisting = False\<rparr>))"

record token_pair =
  tp_access :: string
  tp_refresh :: string
  tp_type :: string
  tp_expires_in :: int

definition token_for ::
  "jwt_library \<Rightarrow> token_service \<Rightarrow> user \<Rightarrow> string \<Rightarrow> time \<Rightarrow> duration \<Rightarrow> string \<Rightarrow> token_claims" where
  "token_for jw ts u typ now ttl jti =
     \<lparr>tc_id = jti, tc_subject = us_id u, tc_issuer = ts_issuer ts, tc_issued = Some (jw_date jw now),
      tc_expires = Some (jw_date jw (now + ttl)), tc_user = us_id u, tc_email = us_email u, tc_type = typ\<rparr>"

definition issue_token_pair :: "jwt_library \<Rightarrow> token_service \<Rightarrow> time \<Rightarrow> string \<Rightarrow> user \<Rightarrow> token_pair" where
  "issue_token_pair jw ts now jti u =
     \<lparr>tp_access = jw_sign jw (ts_key ts) (token_for jw ts u ''access'' now (ts_access_ttl ts) (jti @ ''-access'')),
      tp_refresh = jw_sign jw (ts_key ts) (token_for jw ts u ''refresh'' now (ts_refresh_ttl ts) (jti @ ''-refresh'')),
      tp_type = ''Bearer'', tp_expires_in = ts_access_ttl ts div second\<rparr>"

datatype token_error = InvalidToken | InvalidTokenType

definition validate_token ::
  "jwt_library \<Rightarrow> token_service \<Rightarrow> blacklist \<Rightarrow> time \<Rightarrow> string \<Rightarrow> token_error + token_claims" where
  "validate_token jw ts bl now tok =
     (case jw_parse jw (ts_key ts) now tok of
        None \<Rightarrow> Inl InvalidToken
      | Some c \<Rightarrow>
          if ts_blacklisting ts \<and> tc_id c \<noteq> [] \<and> is_revoked (tc_id c) bl then Inl InvalidToken else Inr c)"

definition validate_of_type ::
  "string \<Rightarrow> jwt_library \<Rightarrow> token_service \<Rightarrow> blacklist \<Rightarrow> time \<Rightarrow> string \<Rightarrow> token_error + token_claims" where
  "validate_of_type typ jw ts bl now tok =
     (case validate_token jw ts bl now tok of
        Inl e \<Rightarrow> Inl e
      | Inr c \<Rightarrow> if tc_type c \<noteq> typ then Inl InvalidTokenType else Inr c)"

abbreviation validate_access_token :: "jwt_library \<Rightarrow> token_service \<Rightarrow> blacklist \<Rightarrow> time \<Rightarrow> string \<Rightarrow> token_error + token_claims" where
  "validate_access_token \<equiv> validate_of_type ''access''"

abbreviation validate_refresh_token :: "jwt_library \<Rightarrow> token_service \<Rightarrow> blacklist \<Rightarrow> time \<Rightarrow> string \<Rightarrow> token_error + token_claims" where
  "validate_refresh_token \<equiv> validate_of_type ''refresh''"

definition revoke_token :: "token_service \<Rightarrow> time \<Rightarrow> token_claims \<Rightarrow> blacklist \<Rightarrow> blacklist" where
  "revoke_token ts now c bl =
     (if \<not> ts_blacklisting ts \<or> tc_id c = [] then bl
      else revoke_jti (tc_id c) (case tc_expires c of None \<Rightarrow> now + ts_access_ttl ts | Some e \<Rightarrow> e) bl)"

section \<open>The middleware\<close>

definition bearer_token :: "string \<Rightarrow> string" where
  "bearer_token auth =
     (if auth = [] then []
      else case split_n CHR 0x20 2 auth of
        [scheme, tok] \<Rightarrow> if equal_fold scheme ''Bearer'' then trim_space tok else []
      | _ \<Rightarrow> [])"

datatype auth_refusal = MissingToken | BadToken

definition auth_middleware ::
  "jwt_library \<Rightarrow> token_service \<Rightarrow> blacklist \<Rightarrow> time \<Rightarrow> string \<Rightarrow> auth_refusal + token_claims" where
  "auth_middleware jw ts bl now auth =
     (let tok = bearer_token auth in
      if tok = [] then Inl MissingToken
      else case validate_access_token jw ts bl now tok of Inl _ \<Rightarrow> Inl BadToken | Inr c \<Rightarrow> Inr c)"

end
