(* ===== verification/User_Api.thy ===== *)
theory User_Api
  imports Auth_Tokens
begin

text \<open>
  The endpoints of accounts (\<open>pkg/users/api.go\<close>): registration, login, refresh, logout, the verification
  of an address, profile and password. A body that does not decode is \<open>None\<close>; a reply is its status with
  the code of the error, or what a success returns. A handler runs as one step, and \<open>ParseAddress\<close> of
  \<open>net/mail\<close> is an argument.
\<close>

section \<open>Environment, state and replies\<close>

record auth_env =
  ae_jwt :: jwt_library
  ae_passwords :: password_hash
  ae_tokens :: "token_service option"
  ae_verification :: bool
  ae_valid_email :: "string \<Rightarrow> bool"

text \<open>A record of the audit log that an administrator's action leaves.\<close>

record admin_action =
  aa_action :: string
  aa_target :: string
  aa_actor :: string
  aa_detail :: "(string \<times> string) list"

record auth_state =
  as_users :: "user list"
  as_verification :: "verification_token list"
  as_blacklist :: blacklist
  as_log :: "admin_action list"

text \<open>What a handler draws from the random source.\<close>

record randoms =
  rn_uuid :: string
  rn_salt :: nat
  rn_jti :: string
  rn_token :: string
  rn_ident :: string

datatype api_reply =
    ApiError nat string
  | Registered user
  | LoggedIn token_pair user
  | Refreshed token_pair
  | EmailVerified
  | VerificationSent
  | LoggedOut
  | ProfileOf user
  | ProfileSaved

section \<open>Registration and login\<close>

fun handle_register ::
  "auth_env \<Rightarrow> time \<Rightarrow> randoms \<Rightarrow> (string \<times> string \<times> string) option \<Rightarrow> auth_state \<Rightarrow> api_reply \<times> auth_state" where
  "handle_register env now rn None st = (ApiError 400 ''invalid_json'', st)"
| "handle_register env now rn (Some (email, password, name)) st =
     (let email = trim_space email in
      if email = [] then (ApiError 400 ''missing_email'', st)
      else if \<not> ae_valid_email env email then (ApiError 400 ''invalid_email'', st)
      else if \<not> valid_password password then (ApiError 400 ''weak_password'', st)
      else
        case ph_hash (ae_passwords env) (rn_salt rn) password of
          None \<Rightarrow> (ApiError 500 ''internal'', st)
        | Some h \<Rightarrow>
            (case create_user (rn_uuid rn) now
                    \<lparr>us_id = [], us_email = to_lower email, us_hash = h, us_name = trim_space name, us_role = [],
                     us_status = status_pending, us_verified = False, us_created = 0, us_updated = 0\<rparr> (as_users st) of
               (Inl _, _) \<Rightarrow> (ApiError 409 ''email_exists'', st)
             | (Inr u, us) \<Rightarrow> (Registered u, st\<lparr>as_users := us\<rparr>)))"

fun handle_login ::
  "auth_env \<Rightarrow> time \<Rightarrow> randoms \<Rightarrow> (string \<times> string) option \<Rightarrow> auth_state \<Rightarrow> api_reply \<times> auth_state" where
  "handle_login env now rn body st =
     (case ae_tokens env of
        None \<Rightarrow> (ApiError 500 ''auth_not_configured'', st)
      | Some ts \<Rightarrow>
          (case body of
             None \<Rightarrow> (ApiError 400 ''invalid_json'', st)
           | Some (email, password) \<Rightarrow>
               if trim_space email = [] then (ApiError 400 ''missing_email'', st)
               else if password = [] then (ApiError 400 ''missing_password'', st)
               else
                 case get_user_by_email (to_lower (trim_space email)) (as_users st) of
                   None \<Rightarrow> (ApiError 401 ''invalid_credentials'', st)
                 | Some u \<Rightarrow>
                     if us_status u = status_suspended then (ApiError 403 ''account_suspended'', st)
                     else if us_status u = status_deleted then (ApiError 401 ''invalid_credentials'', st)
                     else if \<not> ph_check (ae_passwords env) (us_hash u) password then (ApiError 401 ''invalid_credentials'', st)
                     else (LoggedIn (issue_token_pair (ae_jwt env) ts now (rn_jti rn) u) u, st)))"

fun handle_refresh :: "auth_env \<Rightarrow> time \<Rightarrow> randoms \<Rightarrow> string option \<Rightarrow> auth_state \<Rightarrow> api_reply \<times> auth_state" where
  "handle_refresh env now rn body st =
     (case ae_tokens env of
        None \<Rightarrow> (ApiError 500 ''auth_not_configured'', st)
      | Some ts \<Rightarrow>
          (case body of
             None \<Rightarrow> (ApiError 400 ''invalid_json'', st)
           | Some tok \<Rightarrow>
               if tok = [] then (ApiError 400 ''missing_token'', st)
               else
                 case validate_refresh_token (ae_jwt env) ts (as_blacklist st) now tok of
                   Inl _ \<Rightarrow> (ApiError 401 ''invalid_token'', st)
                 | Inr c \<Rightarrow>
                     (case get_user (tc_user c) (as_users st) of
                        None \<Rightarrow> (ApiError 401 ''invalid_token'', st)
                      | Some u \<Rightarrow>
                          if us_status u = status_suspended \<or> us_status u = status_deleted then (ApiError 403 ''account_suspended'', st)
                          else (Refreshed (issue_token_pair (ae_jwt env) ts now (rn_jti rn) u), st))))"

fun handle_logout :: "auth_env \<Rightarrow> time \<Rightarrow> string \<Rightarrow> auth_state \<Rightarrow> api_reply \<times> auth_state" where
  "handle_logout env now auth st =
     (case ae_tokens env of
        None \<Rightarrow> (ApiError 500 ''auth_not_configured'', st)
      | Some ts \<Rightarrow>
          (let tok = bearer_token auth in
           if tok = [] then (LoggedOut, st)
           else
             case validate_token (ae_jwt env) ts (as_blacklist st) now tok of
               Inl _ \<Rightarrow> (LoggedOut, st)
             | Inr c \<Rightarrow> (LoggedOut, st\<lparr>as_blacklist := revoke_token ts now c (as_blacklist st)\<rparr>)))"

section \<open>Verification of the address\<close>

fun verify_reply :: "verify_error \<Rightarrow> api_reply" where
  "verify_reply TokenNotFound = ApiError 404 ''token_not_found''"
| "verify_reply TokenExpired = ApiError 410 ''token_expired''"
| "verify_reply TokenUsed = ApiError 409 ''token_used''"
| "verify_reply AlreadyVerified = ApiError 409 ''already_verified''"
| "verify_reply _ = ApiError 500 ''internal''"

fun handle_verify_email :: "auth_env \<Rightarrow> time \<Rightarrow> string option \<Rightarrow> auth_state \<Rightarrow> api_reply \<times> auth_state" where
  "handle_verify_email env now body st =
     (if \<not> ae_verification env then (ApiError 500 ''verification_not_configured'', st)
      else case body of
        None \<Rightarrow> (ApiError 400 ''invalid_json'', st)
      | Some tok \<Rightarrow>
          if trim_space tok = [] then (ApiError 400 ''missing_token'', st)
          else case verify_email now (trim_space tok) (as_users st, as_verification st) of
            (e, us, ts) \<Rightarrow>
              (case e of None \<Rightarrow> EmailVerified | Some e \<Rightarrow> verify_reply e, st\<lparr>as_users := us, as_verification := ts\<rparr>))"

definition handle_resend :: "auth_env \<Rightarrow> time \<Rightarrow> randoms \<Rightarrow> string option \<Rightarrow> auth_state \<Rightarrow> api_reply \<times> auth_state" where
  "handle_resend env now rn body st =
     (if \<not> ae_verification env then (ApiError 500 ''verification_not_configured'', st)
      else case body of
        None \<Rightarrow> (ApiError 400 ''invalid_json'', st)
      | Some email \<Rightarrow>
          if trim_space email = [] then (ApiError 400 ''missing_email'', st)
          else
            case get_user_by_email (to_lower (trim_space email)) (as_users st) of
              None \<Rightarrow> (VerificationSent, st)
            | Some u \<Rightarrow>
                (case resend_verification (rn_token rn) (rn_ident rn) now resend_cooldown (us_id u) (as_users st) (as_verification st) of
                   (Inl AlreadyVerified, ts) \<Rightarrow> (ApiError 409 ''already_verified'', st\<lparr>as_verification := ts\<rparr>)
                 | (Inl TooManyTokens, ts) \<Rightarrow> (ApiError 429 ''too_many_requests'', st\<lparr>as_verification := ts\<rparr>)
                 | (Inl _, ts) \<Rightarrow> (ApiError 500 ''internal'', st\<lparr>as_verification := ts\<rparr>)
                 | (Inr _, ts) \<Rightarrow> (VerificationSent, st\<lparr>as_verification := ts\<rparr>)))"

section \<open>Profile and password\<close>

text \<open>These endpoints stand behind the middleware.\<close>

definition authenticate :: "auth_env \<Rightarrow> time \<Rightarrow> string \<Rightarrow> auth_state \<Rightarrow> (nat \<times> string) + token_claims" where
  "authenticate env now auth st =
     (case ae_tokens env of
        None \<Rightarrow> Inl (500, ''auth_not_configured'')
      | Some ts \<Rightarrow>
          (case auth_middleware (ae_jwt env) ts (as_blacklist st) now auth of
             Inl MissingToken \<Rightarrow> Inl (401, ''missing_token'')
           | Inl BadToken \<Rightarrow> Inl (401, ''invalid_token'')
           | Inr c \<Rightarrow> Inr c))"

definition authenticated ::
  "auth_env \<Rightarrow> time \<Rightarrow> string \<Rightarrow> (token_claims \<Rightarrow> auth_state \<Rightarrow> api_reply \<times> auth_state) \<Rightarrow> auth_state \<Rightarrow> api_reply \<times> auth_state" where
  "authenticated env now auth next st =
     (case authenticate env now auth st of Inl (code, e) \<Rightarrow> (ApiError code e, st) | Inr c \<Rightarrow> next c st)"

definition save_profile :: "time \<Rightarrow> user \<Rightarrow> auth_state \<Rightarrow> api_reply \<times> auth_state" where
  "save_profile now u st =
     (case update_user now u (as_users st) of
        (Some _, us) \<Rightarrow> (ApiError 500 ''internal'', st\<lparr>as_users := us\<rparr>)
      | (None, us) \<Rightarrow> (ProfileSaved, st\<lparr>as_users := us\<rparr>))"

definition handle_get_profile :: "token_claims \<Rightarrow> auth_state \<Rightarrow> api_reply \<times> auth_state" where
  "handle_get_profile c st =
     (case get_user (tc_user c) (as_users st) of None \<Rightarrow> (ApiError 404 ''not_found'', st) | Some u \<Rightarrow> (ProfileOf u, st))"

definition handle_update_profile :: "time \<Rightarrow> string option \<Rightarrow> token_claims \<Rightarrow> auth_state \<Rightarrow> api_reply \<times> auth_state" where
  "handle_update_profile now body c st =
     (case body of
        None \<Rightarrow> (ApiError 400 ''bad_request'', st)
      | Some name \<Rightarrow>
          (case get_user (tc_user c) (as_users st) of
             None \<Rightarrow> (ApiError 404 ''not_found'', st)
           | Some u \<Rightarrow> save_profile now (u\<lparr>us_name := name\<rparr>) st))"

definition handle_change_password ::
  "auth_env \<Rightarrow> time \<Rightarrow> randoms \<Rightarrow> (string \<times> string) option \<Rightarrow> token_claims \<Rightarrow> auth_state \<Rightarrow> api_reply \<times> auth_state" where
  "handle_change_password env now rn body c st =
     (case body of
        None \<Rightarrow> (ApiError 400 ''bad_request'', st)
      | Some (current, new) \<Rightarrow>
          (case get_user (tc_user c) (as_users st) of
             None \<Rightarrow> (ApiError 404 ''not_found'', st)
           | Some u \<Rightarrow>
               if \<not> ph_check (ae_passwords env) (us_hash u) current then (ApiError 401 ''invalid_password'', st)
               else if \<not> valid_password new then (ApiError 400 ''weak_password'', st)
               else
                 case ph_hash (ae_passwords env) (rn_salt rn) new of
                   None \<Rightarrow> (ApiError 500 ''internal'', st)
                 | Some h \<Rightarrow> save_profile now (u\<lparr>us_hash := h\<rparr>) st))"

section \<open>All calls\<close>

datatype auth_call =
    Register "(string \<times> string \<times> string) option"
  | Login "(string \<times> string) option"
  | Refresh "string option"
  | VerifyEmail "string option"
  | ResendVerification "string option"
  | Logout string
  | GetProfile string
  | UpdateProfile string "string option"
  | ChangePassword string "(string \<times> string) option"

fun auth_api :: "auth_env \<Rightarrow> time \<Rightarrow> randoms \<Rightarrow> auth_call \<Rightarrow> auth_state \<Rightarrow> api_reply \<times> auth_state" where
  "auth_api env now rn (Register body) st = handle_register env now rn body st"
| "auth_api env now rn (Login body) st = handle_login env now rn body st"
| "auth_api env now rn (Refresh body) st = handle_refresh env now rn body st"
| "auth_api env now rn (VerifyEmail body) st = handle_verify_email env now body st"
| "auth_api env now rn (ResendVerification body) st = handle_resend env now rn body st"
| "auth_api env now rn (Logout auth) st = handle_logout env now auth st"
| "auth_api env now rn (GetProfile auth) st = authenticated env now auth handle_get_profile st"
| "auth_api env now rn (UpdateProfile auth body) st = authenticated env now auth (handle_update_profile now body) st"
| "auth_api env now rn (ChangePassword auth body) st = authenticated env now auth (handle_change_password env now rn body) st"

end
