(* ===== verification/Admin_Api.thy ===== *)
theory Admin_Api
  imports User_Api
begin

text \<open>
  The endpoints of administrators (\<open>pkg/admin/admin.go\<close>): the check of the role and the operations on
  accounts. Behind the middleware of the tokens the role is read, and then the handler runs; the two
  are separate steps, between which other requests may run.
\<close>

section \<open>Requests and replies\<close>

datatype admin_reply =
    AdminError nat string
  | AdminUser user
  | AdminUsers "user list" int int int
  | AdminStats nat nat nat nat
  | AdminDeleted

record user_patch =
  up_name :: "string option"
  up_role :: "string option"
  up_status :: "string option"

text \<open>The numbers of a query are what \<open>Atoi\<close> returned, \<open>None\<close> where it failed or the parameter is missing.\<close>

datatype admin_call =
    ListUsers string string "int option" "int option"
  | GetUser string
  | UpdateUser string "user_patch option"
  | DeleteUser string
  | SuspendUser string
  | ActivateUser string
  | SetRole string "string option"
  | Stats

definition valid_role :: "string \<Rightarrow> bool" where
  "valid_role r \<longleftrightarrow> r = role_user \<or> r = role_admin"

definition valid_status :: "string \<Rightarrow> bool" where
  "valid_status s \<longleftrightarrow> s = status_active \<or> s = status_pending \<or> s = status_suspended \<or> s = status_deleted"

section \<open>Handlers\<close>

definition admin_gate :: "user list \<Rightarrow> string \<Rightarrow> (nat \<times> string) option" where
  "admin_gate us user_id =
     (if user_id = [] then Some (401, ''unauthorized'')
      else case get_user user_id us of
        None \<Rightarrow> Some (401, ''unauthorized'')
      | Some u \<Rightarrow> if us_role u \<noteq> role_admin then Some (403, ''forbidden'') else None)"

definition log_action :: "string \<Rightarrow> string \<Rightarrow> string \<Rightarrow> (string \<times> string) list \<Rightarrow> auth_state \<Rightarrow> auth_state" where
  "log_action actor action target detail st =
     st\<lparr>as_log := as_log st @ [\<lparr>aa_action = action, aa_target = target, aa_actor = actor, aa_detail = detail\<rparr>]\<rparr>"

text \<open>Saving a changed user, with the record of the action.\<close>

definition save_user :: "time \<Rightarrow> string \<Rightarrow> string \<Rightarrow> (string \<times> string) list \<Rightarrow> user \<Rightarrow> auth_state \<Rightarrow> admin_reply \<times> auth_state" where
  "save_user now actor action detail u st =
     (case update_user now u (as_users st) of
        (Some _, us) \<Rightarrow> (AdminError 500 ''internal'', st\<lparr>as_users := us\<rparr>)
      | (None, us) \<Rightarrow> (AdminUser (u\<lparr>us_updated := now\<rparr>), log_action actor action (us_id u) detail (st\<lparr>as_users := us\<rparr>)))"

definition parse_pagination :: "int option \<Rightarrow> int option \<Rightarrow> int \<times> int" where
  "parse_pagination limit offset =
     (case limit of None \<Rightarrow> 50 | Some n \<Rightarrow> if n > 0 then min n 1000 else 50,
      case offset of None \<Rightarrow> 0 | Some n \<Rightarrow> if n \<ge> 0 then n else 0)"

definition admin_list :: "string \<Rightarrow> string \<Rightarrow> int option \<Rightarrow> int option \<Rightarrow> user list \<Rightarrow> admin_reply" where
  "admin_list status role limit offset us =
     (let (limit, offset) = parse_pagination limit offset;
          found = filter (\<lambda>u. (status = [] \<or> us_status u = status) \<and> (role = [] \<or> us_role u = role)) (list_users us);
          total = int (length found);
          start = (if offset > total then total else offset);
          stop = (if start + limit > total then total else start + limit)
      in AdminUsers (map read_user (take (nat (stop - start)) (drop (nat start) found))) total limit offset)"

definition patch_role :: "string \<Rightarrow> string \<Rightarrow> string option \<Rightarrow> user \<Rightarrow> (nat \<times> string) + user" where
  "patch_role admin target role u =
     (case role of
        None \<Rightarrow> Inr u
      | Some role \<Rightarrow>
          if \<not> valid_role role then Inl (400, ''invalid_role'')
          else if target = admin \<and> role \<noteq> role_admin then Inl (409, ''self_demotion'')
          else Inr (u\<lparr>us_role := role\<rparr>))"

definition patch_status :: "string \<Rightarrow> string \<Rightarrow> string option \<Rightarrow> user \<Rightarrow> (nat \<times> string) + user" where
  "patch_status admin target status u =
     (case status of
        None \<Rightarrow> Inr u
      | Some status \<Rightarrow>
          if \<not> valid_status status then Inl (400, ''invalid_status'')
          else if target = admin \<and> (status = status_suspended \<or> status = status_deleted) then Inl (409, ''self_action'')
          else Inr (u\<lparr>us_status := status\<rparr>))"

definition admin_update :: "time \<Rightarrow> string \<Rightarrow> string \<Rightarrow> user_patch option \<Rightarrow> auth_state \<Rightarrow> admin_reply \<times> auth_state" where
  "admin_update now admin target patch st =
     (case get_user target (as_users st) of
        None \<Rightarrow> (AdminError 404 ''not_found'', st)
      | Some u \<Rightarrow>
          (case patch of
             None \<Rightarrow> (AdminError 400 ''invalid_json'', st)
           | Some p \<Rightarrow>
               let u = (case up_name p of None \<Rightarrow> u | Some n \<Rightarrow> u\<lparr>us_name := trim_space n\<rparr>) in
               (case patch_role admin target (up_role p) u of
                  Inl (code, e) \<Rightarrow> (AdminError code e, st)
                | Inr u \<Rightarrow>
                    (case patch_status admin target (up_status p) u of
                       Inl (code, e) \<Rightarrow> (AdminError code e, st)
                     | Inr u \<Rightarrow> save_user now admin ''config.updated'' [] u st))))"

definition admin_delete :: "string \<Rightarrow> string \<Rightarrow> auth_state \<Rightarrow> admin_reply \<times> auth_state" where
  "admin_delete admin target st =
     (if target = admin then (AdminError 409 ''self_deletion'', st)
      else case delete_user target (as_users st) of
        (Some _, us) \<Rightarrow> (AdminError 404 ''not_found'', st\<lparr>as_users := us\<rparr>)
      | (None, us) \<Rightarrow> (AdminDeleted, log_action admin ''admin.user_deleted'' target [] (st\<lparr>as_users := us\<rparr>)))"

definition admin_set_status ::
  "string \<Rightarrow> string \<Rightarrow> time \<Rightarrow> string \<Rightarrow> string \<Rightarrow> auth_state \<Rightarrow> admin_reply \<times> auth_state" where
  "admin_set_status status action now admin target st =
     (case get_user target (as_users st) of
        None \<Rightarrow> (AdminError 404 ''not_found'', st)
      | Some u \<Rightarrow> save_user now admin action [] (u\<lparr>us_status := status\<rparr>) st)"

definition admin_suspend :: "time \<Rightarrow> string \<Rightarrow> string \<Rightarrow> auth_state \<Rightarrow> admin_reply \<times> auth_state" where
  "admin_suspend now admin target st =
     (if target = admin then (AdminError 409 ''self_action'', st)
      else admin_set_status status_suspended ''admin.user_suspended'' now admin target st)"

definition admin_activate :: "time \<Rightarrow> string \<Rightarrow> string \<Rightarrow> auth_state \<Rightarrow> admin_reply \<times> auth_state" where
  "admin_activate now admin target st = admin_set_status status_active ''admin.user_activated'' now admin target st"

definition admin_set_role :: "time \<Rightarrow> string \<Rightarrow> string \<Rightarrow> string option \<Rightarrow> auth_state \<Rightarrow> admin_reply \<times> auth_state" where
  "admin_set_role now admin target role st =
     (case role of
        None \<Rightarrow> (AdminError 400 ''invalid_json'', st)
      | Some role \<Rightarrow>
          if \<not> valid_role role then (AdminError 400 ''invalid_role'', st)
          else if target = admin \<and> role \<noteq> role_admin then (AdminError 409 ''self_demotion'', st)
          else
            case get_user target (as_users st) of
              None \<Rightarrow> (AdminError 404 ''not_found'', st)
            | Some u \<Rightarrow> save_user now admin ''config.updated'' [(''role'', role)] (u\<lparr>us_role := role\<rparr>) st)"

definition admin_stats :: "user list \<Rightarrow> admin_reply" where
  "admin_stats us =
     (let n = (\<lambda>s. length (filter (\<lambda>u. us_status u = s) (list_users us)))
      in AdminStats (count_users us) (n status_active) (n status_pending) (n status_suspended))"

fun admin_handler :: "time \<Rightarrow> string \<Rightarrow> admin_call \<Rightarrow> auth_state \<Rightarrow> admin_reply \<times> auth_state" where
  "admin_handler now admin (ListUsers status role limit offset) st = (admin_list status role limit offset (as_users st), st)"
| "admin_handler now admin (GetUser target) st =
     (case get_user target (as_users st) of None \<Rightarrow> (AdminError 404 ''not_found'', st) | Some u \<Rightarrow> (AdminUser u, st))"
| "admin_handler now admin (UpdateUser target patch) st = admin_update now admin target patch st"
| "admin_handler now admin (DeleteUser target) st = admin_delete admin target st"
| "admin_handler now admin (SuspendUser target) st = admin_suspend now admin target st"
| "admin_handler now admin (ActivateUser target) st = admin_activate now admin target st"
| "admin_handler now admin (SetRole target role) st = admin_set_role now admin target role st"
| "admin_handler now admin Stats st = (admin_stats (as_users st), st)"

definition admin_api :: "auth_env \<Rightarrow> time \<Rightarrow> string \<Rightarrow> admin_call \<Rightarrow> auth_state \<Rightarrow> admin_reply \<times> auth_state" where
  "admin_api env now auth call st =
     (case authenticate env now auth st of
        Inl (code, e) \<Rightarrow> (AdminError code e, st)
      | Inr c \<Rightarrow>
          (case admin_gate (as_users st) (tc_user c) of
             Some (code, e) \<Rightarrow> (AdminError code e, st)
           | None \<Rightarrow> admin_handler now (tc_user c) call st))"

end
