(* ===== verification/Accounts.thy ===== *)
theory Accounts
  imports Admin_Api
begin

text \<open>
  The account service over time: the calls of users and administrators, the sweep of the blacklist and
  the removal of old verification tokens, in any order. A trace keeps with every event the time, the
  state before it and what it returned.
\<close>

section \<open>Runs\<close>

datatype account_event =
    UserCall randoms auth_call
  | AdminCall string admin_call
  | SweepBlacklist
  | DropExpiredTokens

datatype account_outcome = UserReply api_reply | AdminReply admin_reply | NoReply

fun account_step :: "auth_env \<Rightarrow> time \<Rightarrow> account_event \<Rightarrow> auth_state \<Rightarrow> account_outcome \<times> auth_state" where
  "account_step env now (UserCall rn call) st = apfst UserReply (auth_api env now rn call st)"
| "account_step env now (AdminCall auth call) st = apfst AdminReply (admin_api env now auth call st)"
| "account_step env now SweepBlacklist st = (NoReply, st\<lparr>as_blacklist := sweep_blacklist now (as_blacklist st)\<rparr>)"
| "account_step env now DropExpiredTokens st = (NoReply, st\<lparr>as_verification := delete_expired_tokens now (as_verification st)\<rparr>)"

type_synonym account_trace = "(time \<times> account_event \<times> auth_state \<times> account_outcome) list"

fun account_trace :: "auth_env \<Rightarrow> (time \<times> account_event) list \<Rightarrow> auth_state \<Rightarrow> account_trace" where
  "account_trace env [] st = []"
| "account_trace env ((now, ev) # es) st =
     (now, ev, st, fst (account_step env now ev st)) # account_trace env es (snd (account_step env now ev st))"

fun account_state :: "auth_env \<Rightarrow> (time \<times> account_event) list \<Rightarrow> auth_state \<Rightarrow> auth_state" where
  "account_state env [] st = st"
| "account_state env ((now, ev) # es) st = account_state env es (snd (account_step env now ev st))"

fun issued_pair :: "account_outcome \<Rightarrow> token_pair option" where
  "issued_pair (UserReply (LoggedIn p u)) = Some p"
| "issued_pair (UserReply (Refreshed p)) = Some p"
| "issued_pair _ = None"

section \<open>What the calls leave unchanged\<close>

lemma save_profile_frame [frame_simps]:
  "as_blacklist (snd (save_profile now u st)) = as_blacklist st"
  "as_verification (snd (save_profile now u st)) = as_verification st"
  "as_users (snd (save_profile now u st)) = snd (update_user now u (as_users st))"
  by (auto simp: save_profile_def split: prod.splits option.splits)

lemma save_user_frame [frame_simps]:
  "as_blacklist (snd (save_user now a act d u st)) = as_blacklist st"
  "as_verification (snd (save_user now a act d u st)) = as_verification st"
  "as_users (snd (save_user now a act d u st)) = snd (update_user now u (as_users st))"
  by (auto simp: save_user_def log_action_def split: prod.splits option.splits)

lemmas admin_handler_defs = admin_update_def admin_delete_def admin_suspend_def admin_activate_def admin_set_status_def
  admin_set_role_def log_action_def

lemma admin_handler_frame [frame_simps]:
  "as_blacklist (snd (admin_handler now a call st)) = as_blacklist st"
  "as_verification (snd (admin_handler now a call st)) = as_verification st"
  by (cases call; auto simp: admin_handler_defs frame_simps Let_def split: option.splits sum.splits prod.splits)+

lemma admin_api_frame [frame_simps]:
  "as_blacklist (snd (admin_api env now auth call st)) = as_blacklist st"
  "as_verification (snd (admin_api env now auth call st)) = as_verification st"
  by (auto simp: admin_api_def frame_simps split: sum.splits option.splits prod.splits)

lemma authenticated_frame:
  "(\<And>c. P (snd (next c st))) \<Longrightarrow> P st \<Longrightarrow> P (snd (authenticated env now auth next st))"
  by (auto simp: authenticated_def split: sum.splits)

lemma profile_frame [frame_simps]:
  "as_blacklist (snd (handle_get_profile c st)) = as_blacklist st"
  "as_verification (snd (handle_get_profile c st)) = as_verification st"
  "as_blacklist (snd (handle_update_profile now body c st)) = as_blacklist st"
  "as_verification (snd (handle_update_profile now body c st)) = as_verification st"
  "as_blacklist (snd (handle_change_password env now rn cp c st)) = as_blacklist st"
  "as_verification (snd (handle_change_password env now rn cp c st)) = as_verification st"
  by (auto simp: handle_get_profile_def handle_update_profile_def handle_change_password_def frame_simps split: option.splits)

text \<open>Only logging out revokes a token, and only the calls for verification change its tokens.\<close>

lemma handle_resend_frame [frame_simps]:
  "as_blacklist (snd (handle_resend env now rn body st)) = as_blacklist st"
  "as_users (snd (handle_resend env now rn body st)) = as_users st"
  by (auto simp: handle_resend_def split: option.splits prod.splits sum.splits verify_error.splits)

lemma auth_api_blacklist:
  "(\<And>auth. call \<noteq> Logout auth) \<Longrightarrow> as_blacklist (snd (auth_api env now rn call st)) = as_blacklist st"
proof (cases call)
  case (Register body)
  then show ?thesis by (cases body) (auto simp: Let_def split: option.splits prod.splits sum.splits)
qed (auto simp: frame_simps authenticated_frame [where P = "\<lambda>s. as_blacklist s = as_blacklist st"]
  split: option.splits prod.splits sum.splits)

lemma auth_api_verification:
  "(\<And>body. call \<noteq> VerifyEmail body) \<Longrightarrow> (\<And>body. call \<noteq> ResendVerification body) \<Longrightarrow>
     as_verification (snd (auth_api env now rn call st)) = as_verification st"
proof (cases call)
  case (Register body)
  then show ?thesis by (cases body) (auto simp: Let_def split: option.splits prod.splits sum.splits)
qed (auto simp: frame_simps authenticated_frame [where P = "\<lambda>s. as_verification s = as_verification st"] Let_def
  split: option.splits prod.splits sum.splits)

section \<open>Tokens\<close>

lemma trace_step:
  "(t, ev, s, out) \<in> set (account_trace env es st) \<Longrightarrow> (t, ev) \<in> set es \<and> out = fst (account_step env t ev s)"
  by (induction env es st rule: account_trace.induct) auto

lemma step_blacklist:
  "as_blacklist (snd (account_step env t ev st)) =
     (case ev of
        UserCall rn (Logout a) \<Rightarrow> as_blacklist (snd (handle_logout env t a st))
      | SweepBlacklist \<Rightarrow> sweep_blacklist t (as_blacklist st)
      | _ \<Rightarrow> as_blacklist st)"
proof (cases ev)
  case (UserCall rn call)
  show ?thesis
  proof (cases "\<exists>a. call = Logout a")
    case False
    then have "as_blacklist (snd (auth_api env t rn call st)) = as_blacklist st" by (intro auth_api_blacklist) blast
    then show ?thesis using UserCall False by (simp del: auth_api.simps split: auth_call.split)
  qed (use UserCall in auto)
qed (simp_all add: frame_simps)

text \<open>A pair is issued only to a user in the table whose status allows it.\<close>

lemma pair_issued:
  assumes "ae_tokens env = Some ts" and "issued_pair (fst (account_step env t ev s)) = Some p"
  shows "\<exists>jti u. p = issue_token_pair (ae_jwt env) ts t jti u \<and> (\<exists>r \<in> set (as_users s). u = read_user r)
     \<and> us_status u \<noteq> status_suspended \<and> us_status u \<noteq> status_deleted"
proof (cases ev)
  case (UserCall rn call)
  then show ?thesis
  proof (cases call)
    case (Login body)
    then show ?thesis using UserCall assms
      by (auto split: option.splits if_splits dest!: get_user_by_email_row) (metis read_user_simps(4))
  next
    case (Refresh body)
    then show ?thesis using UserCall assms
      by (auto split: option.splits if_splits sum.splits dest!: get_user_row)
  next
    case (Register body)
    then show ?thesis using UserCall assms
      by (cases body) (auto simp: Let_def split: option.splits if_splits prod.splits sum.splits)
  next
    case (VerifyEmail body)
    have "issued_pair (UserReply (verify_reply e)) = None" for e by (cases e) simp_all
    then show ?thesis using UserCall VerifyEmail assms(2)
      by (cases body) (auto split: option.splits if_splits prod.splits)
  next
    case (ResendVerification body)
    then show ?thesis using UserCall assms
      by (auto simp: handle_resend_def split: option.splits if_splits prod.splits sum.splits verify_error.splits)
  next
    case (Logout auth)
    then show ?thesis using UserCall assms by (auto simp: Let_def split: option.splits if_splits sum.splits)
  qed (use assms in \<open>auto simp: authenticated_def handle_get_profile_def handle_update_profile_def handle_change_password_def
         save_profile_def split: option.splits if_splits prod.splits sum.splits\<close>)
qed (use assms in simp_all)

text \<open>The entry of a token in the blacklist stays until the token expires, as long as no other token
  with its identifier is logged out.\<close>

definition sole_owner :: "auth_env \<Rightarrow> token_service \<Rightarrow> token_claims \<Rightarrow> string \<Rightarrow> time \<Rightarrow> account_event \<Rightarrow> bool" where
  "sole_owner env ts c tok t ev \<longleftrightarrow>
     (\<forall>rn a c'. ev = UserCall rn (Logout a) \<and> jw_parse (ae_jwt env) (ts_key ts) t (bearer_token a) = Some c' \<and> tc_id c' = tc_id c
        \<longrightarrow> bearer_token a = tok)"

lemma logout_blacklist:
  assumes "ae_tokens env = Some ts" and "ts_blacklisting ts" and "tc_id c \<noteq> []" and "tc_expires c = Some e" and "tok \<noteq> []"
    and "jw_parse (ae_jwt env) (ts_key ts) t tok = Some c"
    and "sole_owner env ts c tok t (UserCall rn (Logout a))" and "as_blacklist st (tc_id c) \<in> {None, Some e}"
  shows "as_blacklist (snd (handle_logout env t a st)) (tc_id c) =
    (if bearer_token a = tok then Some e else as_blacklist st (tc_id c))"
proof (cases "bearer_token a = tok")
  case True
  then show ?thesis using assms
    by (auto simp: validate_token_def is_revoked_def revoke_token_def revoke_jti_def Let_def split: if_splits)
next
  case False
  then have "tc_id c' \<noteq> tc_id c" if "jw_parse (ae_jwt env) (ts_key ts) t (bearer_token a) = Some c'" for c'
    using assms(7) that unfolding sole_owner_def by blast
  then show ?thesis using False assms(1)
    by (auto simp: validate_token_def revoke_token_def revoke_jti_def Let_def split: option.splits)
qed

lemma blacklist_step:
  assumes "ae_tokens env = Some ts" and "ts_blacklisting ts" and "tc_id c \<noteq> []" and "tc_expires c = Some e" and "tok \<noteq> []"
    and "t < e \<Longrightarrow> jw_parse (ae_jwt env) (ts_key ts) t tok = Some c" and "t < e" and "sole_owner env ts c tok t ev"
    and "as_blacklist st (tc_id c) \<in> {None, Some e}"
  shows "as_blacklist (snd (account_step env t ev st)) (tc_id c) =
    (case ev of UserCall rn (Logout a) \<Rightarrow> if bearer_token a = tok then Some e else as_blacklist st (tc_id c) | _ \<Rightarrow> as_blacklist st (tc_id c))"
proof -
  have "sweep_blacklist t (as_blacklist st) (tc_id c) = as_blacklist st (tc_id c)"
    using assms(7,9) by (auto simp: sweep_blacklist_def)
  moreover have "as_blacklist (snd (handle_logout env t a st)) (tc_id c) = (if bearer_token a = tok then Some e else as_blacklist st (tc_id c))"
    if "ev = UserCall rn (Logout a)" for rn a
    by (rule logout_blacklist [OF assms(1-5) assms(6) [OF assms(7)] _ assms(9)]) (use that assms(8) in simp)
  ultimately show ?thesis unfolding step_blacklist by (simp split: account_event.split auth_call.split)
qed

lemma blacklist_kept:
  assumes "ae_tokens env = Some ts" and "ts_blacklisting ts" and "tc_id c \<noteq> []" and "tc_expires c = Some e" and "tok \<noteq> []"
    and "\<And>t. t < e \<Longrightarrow> jw_parse (ae_jwt env) (ts_key ts) t tok = Some c"
  shows "(\<And>t ev. (t, ev) \<in> set es \<Longrightarrow> t < e \<and> sole_owner env ts c tok t ev) \<Longrightarrow> as_blacklist st (tc_id c) \<in> {None, Some e} \<Longrightarrow>
    as_blacklist (account_state env es st) (tc_id c) =
      (if \<exists>t rn a. (t, UserCall rn (Logout a)) \<in> set es \<and> bearer_token a = tok then Some e else as_blacklist st (tc_id c))"
proof (induction es arbitrary: st)
  case (Cons x es)
  obtain t ev where x: "x = (t, ev)" by (cases x)
  let ?st = "snd (account_step env t ev st)"
  have ok: "t < e" "sole_owner env ts c tok t ev" using Cons.prems(1) [of t ev] x by simp_all
  note step = blacklist_step [OF assms(1-5) assms(6) ok Cons.prems(2)]
  have "as_blacklist ?st (tc_id c) \<in> {None, Some e}"
    using Cons.prems(2) by (auto simp: step split: account_event.split auth_call.split)
  then have final: "as_blacklist (account_state env es ?st) (tc_id c) =
      (if \<exists>t rn a. (t, UserCall rn (Logout a)) \<in> set es \<and> bearer_token a = tok then Some e else as_blacklist ?st (tc_id c))"
    using Cons.IH [of ?st] Cons.prems(1) by (meson list.set_intros(2))
  show ?case
  proof (cases "\<exists>rn a. ev = UserCall rn (Logout a) \<and> bearer_token a = tok")
    case True
    then have "as_blacklist ?st (tc_id c) = Some e" by (auto simp: step)
    moreover have "\<exists>t rn a. (t, UserCall rn (Logout a)) \<in> set (x # es) \<and> bearer_token a = tok" using True x by auto
    ultimately show ?thesis using final x by simp
  next
    case False
    then have "as_blacklist ?st (tc_id c) = as_blacklist st (tc_id c)" by (auto simp: step split: account_event.split auth_call.split)
    moreover have "(\<exists>t rn a. (t, UserCall rn (Logout a)) \<in> set (x # es) \<and> bearer_token a = tok) \<longleftrightarrow>
      (\<exists>t rn a. (t, UserCall rn (Logout a)) \<in> set es \<and> bearer_token a = tok)" using False x by auto
    ultimately show ?thesis using final by (simp only: x account_state.simps)
  qed
qed simp

lemma token_claims_simps [simp]:
  "tc_id (token_for jw ts u typ now ttl jti) = jti" "tc_user (token_for jw ts u typ now ttl jti) = us_id u"
  "tc_type (token_for jw ts u typ now ttl jti) = typ" "tc_expires (token_for jw ts u typ now ttl jti) = Some (jw_date jw (now + ttl))"
  by (simp_all add: token_for_def)

lemma authenticate_accepts:
  assumes "ae_tokens env = Some ts" and "authenticate env now auth st = Inr c"
  shows "bearer_token auth \<noteq> [] \<and> jw_parse (ae_jwt env) (ts_key ts) now (bearer_token auth) = Some c \<and> tc_type c = ''access''
    \<and> (ts_blacklisting ts \<and> tc_id c \<noteq> [] \<longrightarrow> as_blacklist st (tc_id c) = None)"
  using assms by (auto simp: authenticate_def auth_middleware_def validate_of_type_def validate_token_def is_revoked_def Let_def
    split: option.splits if_splits sum.splits auth_refusal.splits)

section \<open>Properties of tokens\<close>

text \<open>Property C1: When the middleware accepts a token that came from this service, it is an access token, issued by a
  login or a refresh less than the lifetime ago to the user it names, whose account was neither
  suspended nor deleted then, and nobody has logged out with it.\<close>

theorem accepted_token_issued:
  assumes "ae_tokens env = Some ts" and "ts_blacklisting ts" and "jwt_law (ae_jwt env) (ts_key ts)" and "as_blacklist st0 = (\<lambda>_. None)"
    and "\<And>t ev. (t, ev) \<in> set es \<Longrightarrow> t \<le> now"
    and "authenticate env now auth (account_state env es st0) = Inr c"
    and "(t0, ev0, s0, out0) \<in> set (account_trace env es st0)" and "issued_pair out0 = Some p"
    and "bearer_token auth \<in> {tp_access p, tp_refresh p}"
    and "\<And>t ev. (t, ev) \<in> set es \<Longrightarrow> sole_owner env ts c (bearer_token auth) t ev"
  shows "bearer_token auth = tp_access p \<and> now < t0 + ts_access_ttl ts
    \<and> (\<exists>r \<in> set (as_users s0). us_id r = tc_user c \<and> us_status r \<noteq> status_suspended \<and> us_status r \<noteq> status_deleted)
    \<and> \<not> (\<exists>t rn a. (t, UserCall rn (Logout a)) \<in> set es \<and> bearer_token a = bearer_token auth)"
proof -
  let ?tok = "bearer_token auth" and ?parse = "jw_parse (ae_jwt env) (ts_key ts)"
  have tok: "?tok \<noteq> []" "?parse now ?tok = Some c" "tc_type c = ''access''"
    "tc_id c \<noteq> [] \<Longrightarrow> as_blacklist (account_state env es st0) (tc_id c) = None"
    using authenticate_accepts [OF assms(1,6)] assms(2) by simp_all
  obtain jti u where p: "p = issue_token_pair (ae_jwt env) ts t0 jti u" and u: "\<exists>r \<in> set (as_users s0). u = read_user r"
    "us_status u \<noteq> status_suspended" "us_status u \<noteq> status_deleted"
    using pair_issued [OF assms(1)] trace_step [OF assms(7)] assms(8) by metis
  have parse: "?parse t (jw_sign (ae_jwt env) (ts_key ts) d) = (if t < e then Some d else None)" if "tc_expires d = Some e" for d e t
    using assms(3) that by (simp add: jwt_law_def)
  have access: "?tok = tp_access p"
    using assms(9) tok(2,3) by (auto simp: p issue_token_pair_def parse split: if_splits)
  then have c: "c = token_for (ae_jwt env) ts u ''access'' t0 (ts_access_ttl ts) (jti @ ''-access'')"
    and live: "now < jw_date (ae_jwt env) (t0 + ts_access_ttl ts)"
    using tok(2) by (auto simp: p issue_token_pair_def parse split: if_splits)
  have parse_tok: "?parse t ?tok = Some c" if "t < jw_date (ae_jwt env) (t0 + ts_access_ttl ts)" for t
    using that by (simp add: access p issue_token_pair_def parse c)
  have "as_blacklist (account_state env es st0) (tc_id c) =
      (if \<exists>t rn a. (t, UserCall rn (Logout a)) \<in> set es \<and> bearer_token a = ?tok
       then Some (jw_date (ae_jwt env) (t0 + ts_access_ttl ts)) else as_blacklist st0 (tc_id c))"
  proof (rule blacklist_kept [OF assms(1,2) _ _ tok(1)])
    show "t < jw_date (ae_jwt env) (t0 + ts_access_ttl ts) \<and> sole_owner env ts c ?tok t ev" if "(t, ev) \<in> set es" for t ev
      using assms(5) [OF that] assms(10) [OF that] live by simp
  qed (simp_all add: c parse_tok [unfolded c] assms(4))
  moreover have "as_blacklist (account_state env es st0) (tc_id c) = None" by (rule tok(4)) (simp add: c)
  ultimately have "\<not> (\<exists>t rn a. (t, UserCall rn (Logout a)) \<in> set es \<and> bearer_token a = ?tok)"
    by (metis option.distinct(1))
  moreover have "jw_date (ae_jwt env) (t0 + ts_access_ttl ts) \<le> t0 + ts_access_ttl ts" using assms(3) by (simp add: jwt_law_def)
  then have "now < t0 + ts_access_ttl ts" using live by linarith
  moreover have "\<exists>r \<in> set (as_users s0). us_id r = tc_user c \<and> us_status r \<noteq> status_suspended \<and> us_status r \<noteq> status_deleted"
    using u by (auto simp: c)
  ultimately show ?thesis using access by blast
qed

section \<open>A library of tokens for the examples\<close>

text \<open>A field is its length in unary, a zero and its text.\<close>

definition put_text :: "string \<Rightarrow> string" where
  "put_text s = replicate (length s) CHR ''1'' @ CHR ''0'' # s"

definition take_text :: "string \<Rightarrow> string \<times> string" where
  "take_text t = (let n = length (takeWhile (\<lambda>c. c = CHR ''1'') t); rest = drop (Suc n) t in (take n rest, drop n rest))"

lemma takeWhile_ones: "takeWhile (\<lambda>c. c = CHR ''1'') (replicate n CHR ''1'' @ CHR ''0'' # s) = replicate n CHR ''1''"
  by (induction n) simp_all

lemma take_put_text [simp]: "take_text (put_text s @ r) = (s, r)"
  by (simp add: take_text_def put_text_def takeWhile_ones Let_def)

definition put_time :: "time option \<Rightarrow> string" where
  "put_time t = (case t of None \<Rightarrow> put_text ''-'' | Some i \<Rightarrow> put_text ((if i < 0 then CHR ''n'' else CHR ''p'') # replicate (nat \<bar>i\<bar>) CHR ''1''))"

definition take_time :: "string \<Rightarrow> time option \<times> string" where
  "take_time s = (case take_text s of (t, r) \<Rightarrow>
     (if t = ''-'' then None else Some ((if hd t = CHR ''n'' then -1 else 1) * (int (length t) - 1)), r))"

lemma take_put_time [simp]: "take_time (put_time t @ r) = (t, r)"
  by (auto simp: take_time_def put_time_def split: option.splits)

definition sample_sign :: "string \<Rightarrow> token_claims \<Rightarrow> string" where
  "sample_sign key c = put_text (tc_id c) @ put_text (tc_subject c) @ put_text (tc_issuer c) @ put_time (tc_issued c) @ put_time (tc_expires c)
     @ put_text (tc_user c) @ put_text (tc_email c) @ put_text (tc_type c) @ ''.''"

definition sample_parse :: "string \<Rightarrow> time \<Rightarrow> string \<Rightarrow> token_claims option" where
  "sample_parse key now s =
     (let (jti, s) = take_text s; (subject, s) = take_text s; (issuer, s) = take_text s; (issued, s) = take_time s; (expires, s) = take_time s;
          (user, s) = take_text s; (email, s) = take_text s; (typ, s) = take_text s
      in if s = ''.'' \<and> (case expires of None \<Rightarrow> True | Some e \<Rightarrow> now < e)
         then Some \<lparr>tc_id = jti, tc_subject = subject, tc_issuer = issuer, tc_issued = issued, tc_expires = expires,
                    tc_user = user, tc_email = email, tc_type = typ\<rparr> else None)"

definition sample_jwt :: jwt_library where
  "sample_jwt = \<lparr>jw_sign = sample_sign, jw_parse = sample_parse, jw_date = (\<lambda>t. t)\<rparr>"

lemma sample_jwt_law: "jwt_law sample_jwt key"
  by (simp add: jwt_law_def sample_jwt_def sample_sign_def sample_parse_def)

lemma sample_parse_sign [simp]:
  "jw_parse sample_jwt key now (jw_sign sample_jwt key c) =
     (case tc_expires c of None \<Rightarrow> Some c | Some e \<Rightarrow> if now < e then Some c else None)"
  by (simp add: sample_jwt_def sample_sign_def sample_parse_def split: option.splits)

definition bearer :: "string \<Rightarrow> string" where
  "bearer tok = ''Bearer '' @ tok"

lemma bearer_sample [simp]: "bearer_token (bearer (jw_sign sample_jwt key c)) = jw_sign sample_jwt key c"
proof -
  let ?tok = "sample_sign key c"
  have "put_text s \<noteq> [] \<and> \<not> is_space (hd (put_text s))" for s by (cases s) (simp_all add: put_text_def is_space_def)
  then have "\<not> is_space (hd ?tok)" by (simp add: sample_sign_def)
  moreover have "\<not> is_space (last ?tok)" "?tok \<noteq> []" by (simp_all add: sample_sign_def is_space_def)
  ultimately have "trim_space ?tok = ?tok" by (intro trim_space_id) auto
  then show ?thesis by (simp add: bearer_def bearer_token_def sample_jwt_def numeral_2_eq_2 equal_fold_def)
qed

lemma sample_sign_nonempty [simp]: "jw_sign sample_jwt key c \<noteq> []"
  by (simp add: sample_jwt_def sample_sign_def)

definition sample_service :: token_service where
  "sample_service = \<lparr>ts_key = ''k'', ts_access_ttl = 15, ts_refresh_ttl = 10000000000, ts_issuer = ''o'', ts_blacklisting = True\<rparr>"

definition sample_auth_env :: auth_env where
  "sample_auth_env = \<lparr>ae_jwt = sample_jwt, ae_passwords = \<lparr>ph_hash = (\<lambda>_ p. Some p), ph_check = (\<lambda>h p. h = p)\<rparr>,
     ae_tokens = Some sample_service, ae_verification = True, ae_valid_email = (\<lambda>_. True)\<rparr>"

definition sample_user :: "string \<Rightarrow> string \<Rightarrow> user" where
  "sample_user ident role = \<lparr>us_id = ident, us_email = ident @ ''@x'', us_hash = ''Passw0rd!'', us_name = ident, us_role = role,
     us_status = status_active, us_verified = False, us_created = 0, us_updated = 0\<rparr>"

definition sample_randoms :: "string \<Rightarrow> randoms" where
  "sample_randoms s = \<lparr>rn_uuid = s, rn_salt = 0, rn_jti = s, rn_token = s, rn_ident = s\<rparr>"

definition sample_auth_state :: auth_state where
  "sample_auth_state = \<lparr>as_users = [sample_user ''a'' role_admin, sample_user ''b'' role_admin], as_verification = [],
     as_blacklist = (\<lambda>_. None), as_log = []\<rparr>"

definition sample_pair :: "string \<Rightarrow> token_pair" where
  "sample_pair u = issue_token_pair sample_jwt sample_service 0 u (sample_user u role_admin)"

definition sample_logins :: "(time \<times> account_event) list" where
  "sample_logins = [(0, UserCall (sample_randoms ''a'') (Login (Some (''a@x'', ''Passw0rd!'')))),
     (0, UserCall (sample_randoms ''b'') (Login (Some (''b@x'', ''Passw0rd!'')))),
     (1, UserCall (sample_randoms ''c'') (Logout (bearer (tp_access (sample_pair ''b'')))))]"

lemmas sample_defs = sample_service_def sample_auth_env_def sample_user_def sample_randoms_def sample_auth_state_def sample_pair_def
  issue_token_pair_def

lemma sample_auth_env_simps [simp]:
  "ae_jwt sample_auth_env = sample_jwt" "ae_tokens sample_auth_env = Some sample_service" "ts_key sample_service = ''k''"
  "ts_access_ttl sample_service = 15" "ts_refresh_ttl sample_service = 10000000000" "ts_blacklisting sample_service" "jw_date sample_jwt t = t"
  "as_blacklist sample_auth_state = (\<lambda>_. None)" "ph_check (ae_passwords sample_auth_env) h pw \<longleftrightarrow> h = pw"
  by (simp_all add: sample_auth_env_def sample_service_def sample_jwt_def sample_auth_state_def)

lemma login_keeps_state [simp]: "snd (handle_login env now rn body st) = st"
  by (simp split: option.splits)

lemma sample_login:
  "auth_api sample_auth_env 0 (sample_randoms ''a'') (Login (Some (''a@x'', ''Passw0rd!''))) sample_auth_state
     = (LoggedIn (sample_pair ''a'') (sample_user ''a'' role_admin), sample_auth_state)"
proof -
  have "get_user_by_email (to_lower (trim_space ''a@x'')) (as_users sample_auth_state) = Some (sample_user ''a'' role_admin)"
    "trim_space ''a@x'' \<noteq> []" by code_simp+
  then show ?thesis by (simp add: sample_pair_def) (simp add: sample_user_def sample_randoms_def)
qed

lemma sample_state:
  "account_state sample_auth_env sample_logins sample_auth_state = sample_auth_state\<lparr>as_blacklist := [''b-access'' \<mapsto> 15]\<rparr>"
  by (simp add: sample_logins_def sample_pair_def issue_token_pair_def validate_token_def is_revoked_def revoke_token_def revoke_jti_def
      del: handle_login.simps)

lemma accepted_token_issued_witness:
  "bearer_token (bearer (tp_access (sample_pair ''a''))) = tp_access (sample_pair ''a'') \<and> (2 :: int) < 0 + ts_access_ttl sample_service"
proof -
  let ?auth = "bearer (tp_access (sample_pair ''a''))" and ?st = "account_state sample_auth_env sample_logins sample_auth_state"
  let ?call = "UserCall (sample_randoms ''a'') (Login (Some (''a@x'', ''Passw0rd!'')))"
  let ?c = "token_for sample_jwt sample_service (sample_user ''a'' role_admin) ''access'' 0 15 ''a-access''"
  let ?out = "UserReply (LoggedIn (sample_pair ''a'') (sample_user ''a'' role_admin))"
  have accepted: "authenticate sample_auth_env 2 ?auth ?st = Inr ?c"
    by (simp add: authenticate_def auth_middleware_def validate_of_type_def validate_token_def is_revoked_def sample_state sample_pair_def issue_token_pair_def)
  have "fst (account_step sample_auth_env 0 ?call sample_auth_state) = ?out" by (simp add: sample_login del: auth_api.simps)
  then have first: "(0, ?call, sample_auth_state, ?out) \<in> set (account_trace sample_auth_env sample_logins sample_auth_state)"
    by (simp add: sample_logins_def del: account_step.simps)
  have owner: "sole_owner sample_auth_env sample_service ?c (bearer_token ?auth) t ev" if "(t, ev) \<in> set sample_logins" for t ev
    using that by (auto simp: sole_owner_def sample_logins_def sample_pair_def issue_token_pair_def)
  have early: "t \<le> 2" if "(t, ev) \<in> set sample_logins" for t ev using that by (auto simp: sample_logins_def)
  have "issued_pair ?out = Some (sample_pair ''a'')" "bearer_token ?auth \<in> {tp_access (sample_pair ''a''), tp_refresh (sample_pair ''a'')}"
    by (simp_all add: sample_pair_def issue_token_pair_def)
  from accepted_token_issued [of sample_auth_env sample_service, OF _ _ _ _ early accepted first this owner] sample_jwt_law
  show ?thesis by simp
qed

text \<open>Logging out ends the access token only: the refresh token of the same login goes on to give new pairs
  until it expires, while its user is in the table.\<close>

theorem logout_keeps_refresh_token:
  assumes "ae_tokens env = Some ts" and "jwt_law (ae_jwt env) (ts_key ts)" and "users_ok (as_users st)"
    and "auth_api env t rn (Login body) st = (LoggedIn p u, st1)"
    and "bearer_token auth = tp_access p" and "auth_api env t' rn' (Logout auth) st1 = (r, st2)"
    and "t'' + second \<le> t + ts_refresh_ttl ts" and "tp_refresh p \<noteq> []" and "as_blacklist st (rn_jti rn @ ''-refresh'') = None"
  shows "\<exists>p'. auth_api env t'' rn'' (Refresh (Some (tp_refresh p))) st2 = (Refreshed p', st2)"
proof -
  have st1: "st1 = st" using assms(4) login_keeps_state [of env t rn body st] by simp
  from assms(1,4) obtain r0 where p: "p = issue_token_pair (ae_jwt env) ts t (rn_jti rn) u" and u: "r0 \<in> set (as_users st)" "u = read_user r0"
    and ok: "us_status u \<noteq> status_suspended" "us_status u \<noteq> status_deleted"
    by (auto split: option.splits if_splits dest!: get_user_by_email_row)
  have parse: "jw_parse (ae_jwt env) (ts_key ts) s (jw_sign (ae_jwt env) (ts_key ts) d) = (if s < e then Some d else None)"
    if "tc_expires d = Some e" for d e s using assms(2) that by (simp add: jwt_law_def)
  have "as_users st2 = as_users st" and "as_blacklist st2 (rn_jti rn @ ''-refresh'') = None"
    using assms(1,5,6,9) st1
    by (auto simp: Let_def p issue_token_pair_def validate_token_def parse revoke_token_def revoke_jti_def split: if_splits)
  moreover have "t'' < jw_date (ae_jwt env) (t + ts_refresh_ttl ts)" using assms(2,7) by (auto simp: jwt_law_def dest: spec [of _ "t + ts_refresh_ttl ts"])
  ultimately show ?thesis using assms(1,8) u ok get_user_unique [OF assms(3) u(1)]
    by (simp add: p issue_token_pair_def validate_of_type_def validate_token_def parse is_revoked_def)
qed

lemma sample_users_ok: "users_ok (as_users sample_auth_state)"
  by (simp add: sample_auth_state_def sample_user_def users_ok_def to_lower_def lower_char_def)

lemma logout_keeps_refresh_token_witness:
  "\<exists>st p. as_blacklist st ''a-access'' = Some 15
     \<and> auth_api sample_auth_env (5 * second) (sample_randoms ''r'') (Refresh (Some (tp_refresh (sample_pair ''a'')))) st = (Refreshed p, st)"
proof -
  let ?auth = "bearer (tp_access (sample_pair ''a''))" and ?st = "sample_auth_state\<lparr>as_blacklist := [''a-access'' \<mapsto> 15]\<rparr>"
  have "auth_api sample_auth_env 1 (sample_randoms ''l'') (Logout ?auth) sample_auth_state = (LoggedOut, ?st)"
    by (simp add: sample_pair_def issue_token_pair_def validate_token_def is_revoked_def revoke_token_def revoke_jti_def)
  then have "\<exists>p. auth_api sample_auth_env (5 * second) (sample_randoms ''r'') (Refresh (Some (tp_refresh (sample_pair ''a'')))) ?st = (Refreshed p, ?st)"
    using logout_keeps_refresh_token [of sample_auth_env sample_service sample_auth_state 0 "sample_randoms ''a''" "Some (''a@x'', ''Passw0rd!'')"
        "sample_pair ''a''" "sample_user ''a'' role_admin" sample_auth_state ?auth 1 "sample_randoms ''l''" LoggedOut ?st "5 * second" "sample_randoms ''r''"]
      sample_jwt_law sample_users_ok sample_login
    by (simp add: sample_pair_def issue_token_pair_def sample_randoms_def del: auth_api.simps)
  then show ?thesis by (intro exI [of _ ?st]) simp
qed

end
