(* ===== verification/Account_Admins.thy ===== *)
theory Account_Admins
  imports Accounts
begin

text \<open>
  The table of users under the calls of users and administrators: its keys stay unique and the last
  administrator stays, unless two of them act at once; and what a suspension does not prevent.
\<close>

section \<open>Users and administrators\<close>

text \<open>What a call of a user does to the table: nothing, a new account, or a write of a row that was read,
  with its identifier and role.\<close>

definition user_change :: "user list \<Rightarrow> user list \<Rightarrow> bool" where
  "user_change us us' \<longleftrightarrow>
     us' = us \<or> (\<exists>uuid now u. us' = snd (create_user uuid now u us))
     \<or> (\<exists>now ident u u'. get_user ident us = Some u \<and> us_id u' = us_id u \<and> us_role u' = us_role u \<and> us' = snd (update_user now u' us))"

lemma user_change_refl [simp]: "user_change us us"
  by (simp add: user_change_def)

lemma user_change_update:
  "get_user ident us = Some u \<Longrightarrow> us_id u' = us_id u \<Longrightarrow> us_role u' = us_role u \<Longrightarrow> user_change us (snd (update_user now u' us))"
  unfolding user_change_def by blast

lemma user_change_written:
  "update_user now u' us = (e, us') \<Longrightarrow> get_user ident us = Some u \<Longrightarrow> us_id u' = us_id u \<Longrightarrow> us_role u' = us_role u \<Longrightarrow> user_change us us'"
  using user_change_update [of ident us u u' now] by simp

lemma user_change_created: "create_user uuid now u us = (e, us') \<Longrightarrow> user_change us us'"
  unfolding user_change_def by (metis snd_conv)

lemma verify_email_change:
  assumes "verify_email now tok (us, ts) = (e, us', ts')"
  shows "user_change us us'"
proof (cases "us' = us")
  case False
  let ?f = "\<lambda>u. u\<lparr>us_verified := True, us_status := if us_status u = status_pending then status_active else us_status u\<rparr>"
  from assms False obtain ident u e' where "get_user ident us = Some u" "update_user now (?f u) us = (e', us')"
    by (simp add: verify_email_parts Let_def split: option.splits if_splits prod.splits)
  then show ?thesis using user_change_written [of now "?f u" us e' us' ident u] by simp
qed simp

lemma auth_api_change: "user_change (as_users st) (as_users (snd (auth_api env now rn call st)))"
proof (cases call)
  case (Register body)
  then show ?thesis
    by (cases body) (auto simp: Let_def split: option.splits prod.splits sum.splits intro: user_change_created)
next
  case (VerifyEmail body)
  then show ?thesis by (auto split: option.splits prod.splits dest: verify_email_change)
next
  case (UpdateProfile auth body)
  then show ?thesis
    by (auto simp: authenticated_def handle_update_profile_def frame_simps split: sum.splits option.splits intro!: user_change_update)
next
  case (ChangePassword auth body)
  then show ?thesis
    by (auto simp: authenticated_def handle_change_password_def frame_simps split: sum.splits option.splits intro!: user_change_update)
qed (auto simp: authenticated_def handle_get_profile_def frame_simps Let_def split: option.splits sum.splits)

lemma user_change_keeps:
  assumes "user_change us us'" and "users_ok us"
  shows "users_ok us' \<and> (admin_in a us \<longrightarrow> admin_in a us')"
proof -
  consider "us' = us" | (new) uuid now u where "us' = snd (create_user uuid now u us)"
    | (upd) now ident u u' where "get_user ident us = Some u" "us_id u' = us_id u" "us_role u' = us_role u" "us' = snd (update_user now u' us)"
    using assms(1) unfolding user_change_def by blast
  then show ?thesis
  proof cases
    case new
    then show ?thesis using create_user_ok [OF assms(2)] admin_in_create by blast
  next
    case upd
    then have "us_id u' \<noteq> a \<or> us_role u' = role_admin" if "admin_in a us" using admin_in_read [OF assms(2) upd(1) that] by simp
    then show ?thesis using update_user_ok [OF assms(2)] admin_in_update upd(4) by blast
  qed (use assms(2) in simp)
qed

text \<open>What an administrator's call does: the caller stays an administrator.\<close>

lemma save_user_keeps:
  assumes "users_ok (as_users st)" and "us_id u \<noteq> a \<or> us_role u = role_admin"
  shows "users_ok (as_users (snd (save_user now act action d u st)))
    \<and> (admin_in a (as_users st) \<longrightarrow> admin_in a (as_users (snd (save_user now act action d u st))))"
  using update_user_ok [OF assms(1)] admin_in_update [OF _ assms(2)] by (simp add: frame_simps)

lemma admin_handler_keeps:
  assumes "users_ok (as_users st)" and "admin_in a (as_users st)"
  shows "users_ok (as_users (snd (admin_handler now a call st))) \<and> admin_in a (as_users (snd (admin_handler now a call st)))"
proof -
  have read: "us_id u \<noteq> a \<or> us_role u = role_admin" if "get_user ident (as_users st) = Some u" for ident u
    using admin_in_read [OF assms(1) that assms(2)] .
  have save: "users_ok (as_users (snd (save_user now a action d u st))) \<and> admin_in a (as_users (snd (save_user now a action d u st)))"
    if "us_id u \<noteq> a \<or> us_role u = role_admin" for action d u
    using save_user_keeps [OF assms(1) that] assms(2) by blast
  note id = get_user_id
  show ?thesis
  proof (cases call)
    case (UpdateUser target patch)
    show ?thesis
    proof (cases "get_user target (as_users st)")
      case (Some u)
      then show ?thesis
        using UpdateUser save read [OF Some] id [OF Some] assms
        by (auto simp: admin_update_def patch_role_def patch_status_def Let_def split: option.splits if_splits)
    qed (use UpdateUser assms in \<open>simp add: admin_update_def\<close>)
  next
    case (DeleteUser target)
    then show ?thesis using assms delete_user_ok [OF assms(1), of target] admin_in_delete [OF assms(2), of target]
      by (auto simp: admin_delete_def log_action_def split: prod.splits option.splits)
  next
    case (SetRole target role)
    then show ?thesis using save read id assms
      by (auto simp: admin_set_role_def split: option.splits)
  qed (use save read assms in \<open>auto simp: admin_handler_defs split: option.splits\<close>)
qed


lemma account_step_keeps:
  assumes "users_ok (as_users st)" and "\<exists>a. admin_in a (as_users st)"
  shows "users_ok (as_users (snd (account_step env t ev st))) \<and> (\<exists>a. admin_in a (as_users (snd (account_step env t ev st))))"
proof (cases ev)
  case (UserCall rn call)
  then show ?thesis using user_change_keeps [OF auth_api_change [of st env t rn call] assms(1)] assms(2) by (auto simp del: auth_api.simps)
next
  case (AdminCall auth call)
  show ?thesis
  proof (cases "\<exists>c. authenticate env t auth st = Inr c \<and> admin_gate (as_users st) (tc_user c) = None")
    case True
    then obtain c where c: "authenticate env t auth st = Inr c" "admin_gate (as_users st) (tc_user c) = None" by blast
    then obtain u where u: "get_user (tc_user c) (as_users st) = Some u" "us_role u = role_admin"
      by (auto simp: admin_gate_def split: if_splits option.splits)
    then have "admin_in (tc_user c) (as_users st)" using get_user_row [OF u(1)] by (auto simp: admin_in_def read_user_def split: if_splits)
    then show ?thesis using admin_handler_keeps [OF assms(1)] AdminCall c by (auto simp: admin_api_def simp del: admin_handler.simps)
  next
    case False
    then show ?thesis using AdminCall assms by (auto simp: admin_api_def split: sum.splits option.splits)
  qed
qed (use assms in simp_all)

lemma account_state_keeps:
  "users_ok (as_users st) \<Longrightarrow> \<exists>a. admin_in a (as_users st) \<Longrightarrow>
     users_ok (as_users (account_state env es st)) \<and> (\<exists>a. admin_in a (as_users (account_state env es st)))"
proof (induction env es st rule: account_state.induct)
  case (2 env now ev es st)
  then show ?case using account_step_keeps [of st env now ev] by (simp del: account_step.simps)
qed simp

lemma some_admin: "(\<exists>a. admin_in a us) \<longleftrightarrow> (\<exists>u \<in> set us. us_role u = role_admin)"
  by (auto simp: admin_in_def)

text \<open>Property C13: Whatever users and administrators do, one call after the other, identifiers and addresses of the
  users stay unique, and as long as there was an administrator there is one.\<close>

theorem administrators_remain:
  assumes "users_ok (as_users st)" and "\<exists>u \<in> set (as_users st). us_role u = role_admin"
  shows "users_ok (as_users (account_state env es st)) \<and> (\<exists>u \<in> set (as_users (account_state env es st)). us_role u = role_admin)"
  using account_state_keeps [OF assms(1)] assms(2) unfolding some_admin by blast

lemma administrators_remain_witness:
  "\<exists>u \<in> set (as_users (account_state sample_auth_env
      [(1, AdminCall (bearer (tp_access (sample_pair ''a''))) (SetRole ''b'' (Some role_user)))] sample_auth_state)). us_role u = role_admin"
proof -
  have "\<exists>u \<in> set (as_users sample_auth_state). us_role u = role_admin" by (simp add: sample_auth_state_def sample_user_def)
  from administrators_remain [OF sample_users_ok this] show ?thesis by blast
qed

text \<open>Two administrators who take each other's role at the same time, each past the check before the other's
  change, leave none.\<close>

lemma concurrent_demotion:
  assumes "as_users st = [a, b]" and "users_ok (as_users st)" and "us_role a = role_admin" and "us_role b = role_admin"
    and "us_id a \<noteq> []" and "us_id b \<noteq> []"
  shows "admin_gate (as_users st) (us_id a) = None \<and> admin_gate (as_users st) (us_id b) = None
    \<and> \<not> (\<exists>u \<in> set (as_users (snd (admin_handler t' (us_id b) (SetRole (us_id a) (Some role_user))
             (snd (admin_handler t (us_id a) (SetRole (us_id b) (Some role_user)) st))))). us_role u = role_admin)"
proof -
  have neq: "us_id a \<noteq> us_id b" "us_email a \<noteq> us_email b" and low: "to_lower (us_email a) = us_email a" "to_lower (us_email b) = us_email b"
    using assms(1,2) by (auto simp: users_ok_def)
  show ?thesis using assms(1,3-6) neq neq [symmetric] low
    by (simp add: admin_gate_def get_user_def read_user_def admin_set_role_def valid_role_def save_user_def update_user_def log_action_def)
qed

text \<open>An administrator who was suspended makes the account active again with the token of an earlier login:
  neither the middleware nor the check of the role looks at the status.\<close>

theorem suspended_admin_reactivates:
  assumes "users_ok (as_users st)" and "authenticate env now auth st = Inr c" and "tc_user c \<noteq> []"
    and "u \<in> set (as_users st)" and "us_id u = tc_user c" and "us_role u = role_admin" and "us_status u = status_suspended"
  shows "\<exists>u'. get_user (tc_user c) (as_users (snd (account_step env now (AdminCall auth (ActivateUser (tc_user c))) st))) = Some u'
    \<and> us_status u' = status_active \<and> us_role u' = role_admin"
proof -
  have u: "get_user (tc_user c) (as_users st) = Some u"
    using get_user_unique [OF assms(1,4)] assms(5,6) by (simp add: read_user_def)
  then have gate: "admin_gate (as_users st) (tc_user c) = None" using assms(3,6) by (simp add: admin_gate_def)
  let ?u = "u\<lparr>us_status := status_active\<rparr>"
  have "update_user now ?u (as_users st) = (None, map (\<lambda>r. if us_id r = us_id u then ?u\<lparr>us_created := us_created r, us_updated := now\<rparr> else r) (as_users st))"
    using update_user_succeeds [OF assms(1,4), of ?u now] by simp
  then have users: "as_users (snd (account_step env now (AdminCall auth (ActivateUser (tc_user c))) st)) =
      map (\<lambda>r. if us_id r = us_id u then ?u\<lparr>us_created := us_created r, us_updated := now\<rparr> else r) (as_users st)" (is "_ = ?us")
    using assms(2) gate u by (simp add: admin_api_def admin_activate_def admin_set_status_def frame_simps)
  let ?r = "?u\<lparr>us_created := us_created u, us_updated := now\<rparr>"
  have "?r \<in> set ?us" unfolding set_map by (rule image_eqI [OF _ assms(4)]) simp
  moreover have "users_ok ?us"
    using update_user_ok [OF assms(1), of now ?u] update_user_succeeds [OF assms(1,4), of ?u now] by simp
  ultimately have "get_user (us_id ?r) ?us = Some (read_user ?r)" by (rule get_user_unique [rotated])
  then show ?thesis using users assms(5,6) by (auto simp: read_user_def)
qed

definition suspended_state :: auth_state where
  "suspended_state = sample_auth_state\<lparr>as_users := [sample_user ''a'' role_admin, (sample_user ''b'' role_admin)\<lparr>us_status := status_suspended\<rparr>]\<rparr>"

lemma suspended_admin_reactivates_witness:
  "\<exists>u. get_user ''b'' (as_users (snd (account_step sample_auth_env 3
      (AdminCall (bearer (tp_access (sample_pair ''b''))) (ActivateUser ''b'')) suspended_state))) = Some u \<and> us_status u = status_active"
proof -
  let ?auth = "bearer (tp_access (sample_pair ''b''))" and ?c = "token_for sample_jwt sample_service (sample_user ''b'' role_admin) ''access'' 0 15 ''b-access''"
  have "authenticate sample_auth_env 3 ?auth suspended_state = Inr ?c"
    by (simp add: authenticate_def auth_middleware_def validate_of_type_def validate_token_def is_revoked_def sample_pair_def issue_token_pair_def suspended_state_def)
  moreover have "users_ok (as_users suspended_state)" by (simp add: suspended_state_def sample_user_def users_ok_def to_lower_def lower_char_def)
  moreover have "(sample_user ''b'' role_admin)\<lparr>us_status := status_suspended\<rparr> \<in> set (as_users suspended_state)" by (simp add: suspended_state_def)
  moreover have "tc_user ?c = ''b''" by (simp add: sample_user_def)
  ultimately show ?thesis using suspended_admin_reactivates [of suspended_state sample_auth_env 3 ?auth ?c] by (fastforce simp: sample_user_def)
qed

end
