(* ===== verification/Account_Verification.thy ===== *)
theory Account_Verification
  imports Accounts
begin

text \<open>
  Verification of addresses over time: where the tokens come from, how often one is sent and how often
  it counts.
\<close>

section \<open>Verification of addresses\<close>

lemma account_state_append [simp]: "account_state env (es @ es') st = account_state env es' (account_state env es st)"
  by (induction env es st rule: account_state.induct) auto

text \<open>The user and the token of a call that stores a new token.\<close>

definition requested :: "auth_state \<Rightarrow> account_event \<Rightarrow> account_outcome \<Rightarrow> (string \<times> string) option" where
  "requested st ev out =
     (case ev of
        UserCall rn (ResendVerification (Some email)) \<Rightarrow>
          if out = UserReply VerificationSent
          then map_option (\<lambda>u. (us_id u, rn_token rn)) (get_user_by_email (to_lower (trim_space email)) (as_users st)) else None
      | _ \<Rightarrow> None)"

lemma create_token_cases:
  "create_token tok ident now uid expiry ts = (x, ts') \<Longrightarrow>
     (case x of Inl e \<Rightarrow> e = InsertFailed \<and> ts' = ts
      | Inr vt \<Rightarrow> ts' = ts @ [vt] \<and> vt_user vt = uid \<and> vt_token vt = tok \<and> \<not> vt_used vt \<and> vt_created vt = now
          \<and> vt_expires vt = now + expiry)"
  by (auto simp: create_token_def Let_def split: if_splits)

lemma resend_cases:
  "resend_verification tok ident now cooldown uid us ts = (x, ts') \<Longrightarrow>
     (case x of Inl e \<Rightarrow> ts' = ts
      | Inr vt \<Rightarrow> ts' = ts @ [vt] \<and> vt_user vt = uid \<and> vt_token vt = tok \<and> \<not> vt_used vt \<and> vt_created vt = now
          \<and> vt_expires vt = now + token_expiry \<and> (\<forall>t. last_token_time uid ts = Some t \<longrightarrow> t + cooldown \<le> now))"
  by (auto simp: resend_parts split: option.splits if_splits sum.splits dest!: create_token_cases)

text \<open>A step adds the row of a request, or marks or removes rows.\<close>

lemma step_tokens:
  "case requested st ev (fst (account_step env t ev st)) of
     Some (uid, tok) \<Rightarrow>
       \<exists>vt. as_verification (snd (account_step env t ev st)) = as_verification st @ [vt] \<and> vt_user vt = uid \<and> vt_token vt = tok
         \<and> \<not> vt_used vt \<and> vt_created vt = t \<and> vt_expires vt = t + token_expiry
         \<and> (\<forall>l. last_token_time uid (as_verification st) = Some l \<longrightarrow> l + resend_cooldown \<le> t)
   | None \<Rightarrow>
       as_verification (snd (account_step env t ev st)) = as_verification st
       \<or> (\<exists>tok. as_verification (snd (account_step env t ev st))
            = map (\<lambda>r. if vt_token r = tok then r\<lparr>vt_used := True\<rparr> else r) (as_verification st))
       \<or> as_verification (snd (account_step env t ev st)) = delete_expired_tokens t (as_verification st)"
proof (cases ev)
  case (UserCall rn call)
  show ?thesis
  proof (cases call)
    case (ResendVerification body)
    then show ?thesis using UserCall
      by (cases body)
        (auto simp: requested_def handle_resend_def split: option.splits prod.splits sum.splits verify_error.splits dest!: resend_cases)
  next
    case (VerifyEmail body)
    then show ?thesis using UserCall
      by (auto simp: requested_def verify_email_parts mark_token_used_def Let_def split: option.splits prod.splits if_splits)
  qed (use UserCall auth_api_verification [of call env t rn st] in \<open>simp_all add: requested_def del: auth_api.simps\<close>)
qed (simp_all add: requested_def frame_simps)

lemma spaced_step: "spaced (as_verification st) \<Longrightarrow> spaced (as_verification (snd (account_step env t ev st)))"
proof -
  assume sp: "spaced (as_verification st)"
  show ?thesis
  proof (cases "requested st ev (fst (account_step env t ev st))")
    case None
    then show ?thesis using step_tokens [of env t ev st] sp
      by (auto simp: delete_expired_tokens_def intro!: spaced_filter spaced_map)
  next
    case (Some req)
    obtain uid tok where req: "req = (uid, tok)" by (cases req)
    obtain vt where vt: "as_verification (snd (account_step env t ev st)) = as_verification st @ [vt]" "vt_user vt = uid" "vt_created vt = t"
      "\<And>l. last_token_time uid (as_verification st) = Some l \<Longrightarrow> l + resend_cooldown \<le> t"
      using step_tokens [of env t ev st] unfolding Some req by auto
    have "vt_created r + resend_cooldown \<le> t" if "r \<in> set (as_verification st)" "vt_user r = uid" for r
      using last_token_time_spaced [OF sp that(1)] that(2) vt(4) by fastforce
    then show ?thesis using sp vt(1-3) by (auto simp: spaced_def sorted_wrt_append)
  qed
qed

lemma spaced_state: "spaced (as_verification st) \<Longrightarrow> spaced (as_verification (account_state env es st))"
  by (induction env es st rule: account_state.induct) (simp_all add: spaced_step del: account_step.simps)

text \<open>A row stays, apart from its mark, until it has expired, up to the second that the comparison of texts ignores.\<close>

lemma row_kept_step:
  assumes "r \<in> set (as_verification st)" and "t + second \<le> vt_expires r"
  shows "\<exists>r' \<in> set (as_verification (snd (account_step env t ev st))). vt_user r' = vt_user r \<and> vt_created r' = vt_created r \<and> vt_expires r' = vt_expires r"
proof -
  have "\<not> stamp (vt_expires r) < stamp t" using stamp_less_later [OF second_before [OF assms(2)]] by (simp add: not_less less_imp_le)
  then have "r \<in> set (delete_expired_tokens t (as_verification st))" using assms(1) by (simp add: delete_expired_tokens_def)
  moreover have "\<exists>r' \<in> set (map (\<lambda>r. if vt_token r = tok then r\<lparr>vt_used := True\<rparr> else r) (as_verification st)).
      vt_user r' = vt_user r \<and> vt_created r' = vt_created r \<and> vt_expires r' = vt_expires r" for tok
    using assms(1) by (intro bexI [of _ "if vt_token r = tok then r\<lparr>vt_used := True\<rparr> else r"]) auto
  ultimately show ?thesis using step_tokens [of env t ev st] assms(1) by (auto split: option.splits)
qed

lemma row_kept:
  "r \<in> set (as_verification st) \<Longrightarrow> (\<And>t ev. (t, ev) \<in> set es \<Longrightarrow> t + second \<le> vt_expires r) \<Longrightarrow>
     \<exists>r' \<in> set (as_verification (account_state env es st)). vt_user r' = vt_user r \<and> vt_created r' = vt_created r"
proof (induction es arbitrary: st r)
  case (Cons x es)
  obtain t ev where x: "x = (t, ev)" by (cases x)
  obtain r' where "r' \<in> set (as_verification (snd (account_step env t ev st)))" "vt_user r' = vt_user r" "vt_created r' = vt_created r" "vt_expires r' = vt_expires r"
    using row_kept_step [OF Cons.prems(1)] Cons.prems(2) [of t ev] x by force
  then show ?case using Cons.IH [of r' "snd (account_step env t ev st)"] Cons.prems(2) x by (force simp del: account_step.simps)
qed auto

text \<open>Property C26: One user is sent at most one verification token a minute, when the calls are handled one after the
  other: two calls that overlap can both pass the check (\<open>overlapping_resends\<close>).\<close>

theorem verification_requests_spaced:
  assumes "as_verification st = []" and "sorted (map fst (es1 @ (t1, ev1) # es2 @ [(t2, ev2)]))"
    and "requested (account_state env es1 st) ev1 (fst (account_step env t1 ev1 (account_state env es1 st))) = Some (uid, tok1)"
    and "requested (account_state env (es1 @ (t1, ev1) # es2) st) ev2
           (fst (account_step env t2 ev2 (account_state env (es1 @ (t1, ev1) # es2) st))) = Some (uid, tok2)"
  shows "t1 + resend_cooldown \<le> t2"
proof (cases "t2 + second \<le> t1 + token_expiry")
  case True
  let ?s1 = "account_state env es1 st" and ?s2 = "account_state env (es1 @ (t1, ev1) # es2) st"
  obtain vt where vt: "vt \<in> set (as_verification (snd (account_step env t1 ev1 ?s1)))" "vt_user vt = uid" "vt_created vt = t1" "vt_expires vt = t1 + token_expiry"
    using step_tokens [of env t1 ev1 ?s1] assms(3) by force
  have "t \<le> t2" if "(t, ev) \<in> set es2" for t ev
    using assms(2) that by (auto simp: sorted_append)
  then have "\<exists>r \<in> set (as_verification ?s2). vt_user r = uid \<and> vt_created r = t1"
    using row_kept [OF vt(1), of es2 env] vt(2-4) True by force
  then obtain r where r: "r \<in> set (as_verification ?s2)" "vt_user r = uid" "vt_created r = t1" by blast
  have "spaced (as_verification ?s2)" by (rule spaced_state) (simp add: assms(1) spaced_def)
  then obtain l where "last_token_time uid (as_verification ?s2) = Some l" "t1 \<le> l"
    using last_token_time_spaced [OF _ r(1)] r(2,3) by auto
  moreover from this have "l + resend_cooldown \<le> t2" using step_tokens [of env t2 ev2 ?s2] assms(4) by auto
  ultimately show ?thesis by simp
qed (simp add: resend_cooldown_def token_expiry_def)

lemma spaced_times_witness_call:
  "get_user_by_email (to_lower (trim_space ''a@x'')) (as_users sample_auth_state) = Some (sample_user ''a'' role_admin)"
  by code_simp

lemma verification_requests_spaced_witness:
  "(0 :: int) + resend_cooldown \<le> 60 * second"
proof -
  let ?call = "\<lambda>r. UserCall (sample_randoms r) (ResendVerification (Some ''a@x''))"
  have "requested sample_auth_state (?call ''t'') (fst (account_step sample_auth_env 0 (?call ''t'') sample_auth_state)) = Some (''a'', ''t'')"
    by code_simp
  moreover have "requested (account_state sample_auth_env [(0, ?call ''t'')] sample_auth_state) (?call ''u'')
      (fst (account_step sample_auth_env (60 * second) (?call ''u'') (account_state sample_auth_env [(0, ?call ''t'')] sample_auth_state))) = Some (''a'', ''u'')"
    by code_simp
  ultimately show ?thesis
    using verification_requests_spaced [of sample_auth_state "[]" 0 "?call ''t''" "[]" "60 * second" "?call ''u''" sample_auth_env "''a''" "''t''" "''u''"]
    by (simp add: sample_auth_state_def del: account_step.simps)
qed

text \<open>Where the rows come from.\<close>

fun drawn :: "account_event \<Rightarrow> string list" where
  "drawn (UserCall rn (ResendVerification body)) = [rn_token rn]"
| "drawn _ = []"

lemma requested_drawn: "requested st ev out = Some (uid, tok) \<Longrightarrow> drawn ev = [tok]"
  by (cases ev rule: drawn.cases) (auto simp: requested_def split: option.splits if_splits)

definition requested_before ::
  "auth_env \<Rightarrow> auth_state \<Rightarrow> (time \<times> account_event) list \<Rightarrow> string \<Rightarrow> string \<Rightarrow> time \<Rightarrow> bool" where
  "requested_before env st es uid tok t0 \<longleftrightarrow>
     (\<exists>ea ev0 eb. es = ea @ (t0, ev0) # eb
        \<and> requested (account_state env ea st) ev0 (fst (account_step env t0 ev0 (account_state env ea st))) = Some (uid, tok))"

lemma requested_before_snoc: "requested_before env st es uid tok t0 \<Longrightarrow> requested_before env st (es @ [x]) uid tok t0"
  unfolding requested_before_def by (metis append_Cons append_assoc)

lemma requested_before_drawn: "requested_before env st es uid tok t0 \<Longrightarrow> tok \<in> set (concat (map (drawn \<circ> snd) es))"
  by (auto simp: requested_before_def dest!: requested_drawn)

lemma rows_requested:
  "as_verification st = [] \<Longrightarrow> r \<in> set (as_verification (account_state env es st)) \<Longrightarrow>
     \<exists>t0. requested_before env st es (vt_user r) (vt_token r) t0 \<and> vt_expires r = t0 + token_expiry"
proof (induction es arbitrary: r rule: rev_induct)
  case (snoc x es)
  obtain t ev where x: "x = (t, ev)" by (cases x)
  let ?s = "account_state env es st"
  have old: "\<exists>t0. requested_before env st (es @ [x]) (vt_user r') (vt_token r') t0 \<and> vt_expires r' = t0 + token_expiry"
    if "r' \<in> set (as_verification ?s)" for r'
    using snoc.IH [OF snoc.prems(1) that] requested_before_snoc by blast
  have row: "r \<in> set (as_verification (snd (account_step env t ev ?s)))" using snoc.prems(2) x by simp
  show ?case
  proof (cases "requested ?s ev (fst (account_step env t ev ?s))")
    case None
    then have "\<exists>r' \<in> set (as_verification ?s). vt_user r' = vt_user r \<and> vt_token r' = vt_token r \<and> vt_expires r' = vt_expires r"
      using step_tokens [of env t ev ?s] row by (auto simp: delete_expired_tokens_def split: if_splits) blast+
    then show ?thesis using old by metis
  next
    case (Some req)
    obtain uid tok where req: "req = (uid, tok)" by (cases req)
    obtain vt where vt: "as_verification (snd (account_step env t ev ?s)) = as_verification ?s @ [vt]" "vt_user vt = uid" "vt_token vt = tok"
      "vt_expires vt = t + token_expiry"
      using step_tokens [of env t ev ?s] unfolding Some req by auto
    have "requested_before env st (es @ [x]) uid tok t" using Some req x unfolding requested_before_def by blast
    then show ?thesis using row old vt by auto
  qed
qed simp

text \<open>A token that is marked stays marked, as long as it is not drawn again.\<close>

definition token_spent :: "string \<Rightarrow> verification_token list \<Rightarrow> bool" where
  "token_spent tok ts \<longleftrightarrow> (\<forall>r \<in> set ts. vt_token r = tok \<longrightarrow> vt_used r)"

lemma token_spent_step:
  assumes "token_spent tok (as_verification st)" and "tok \<notin> set (drawn ev)"
  shows "token_spent tok (as_verification (snd (account_step env t ev st)))"
proof (cases "requested st ev (fst (account_step env t ev st))")
  case None
  then show ?thesis using step_tokens [of env t ev st] assms(1) by (auto simp: token_spent_def delete_expired_tokens_def)
next
  case (Some req)
  obtain uid tok' where req: "req = (uid, tok')" by (cases req)
  then have "tok' \<noteq> tok" using requested_drawn [of st ev _ uid tok'] Some assms(2) by auto
  moreover obtain vt where "as_verification (snd (account_step env t ev st)) = as_verification st @ [vt]" "vt_token vt = tok'"
    using step_tokens [of env t ev st] unfolding Some req by auto
  ultimately show ?thesis using assms(1) by (auto simp: token_spent_def)
qed

lemma token_spent_state:
  "token_spent tok (as_verification st) \<Longrightarrow> tok \<notin> set (concat (map (drawn \<circ> snd) es)) \<Longrightarrow> token_spent tok (as_verification (account_state env es st))"
proof (induction es arbitrary: st)
  case (Cons x es)
  then show ?case using token_spent_step [of tok st "snd x" env "fst x"] by (cases x) (simp del: account_step.simps)
qed simp

lemma verify_email_cases:
  assumes "verify_email now tok (us, ts) = (None, us', ts')"
  shows "\<exists>vt u. get_token tok ts = Some vt \<and> \<not> vt_used vt \<and> now \<le> vt_expires vt \<and> get_user (vt_user vt) us = Some u \<and> \<not> us_verified u
    \<and> ts' = map (\<lambda>r. if vt_token r = tok then r\<lparr>vt_used := True\<rparr> else r) ts
    \<and> update_user now (u\<lparr>us_verified := True, us_status := if us_status u = status_pending then status_active else us_status u\<rparr>) us = (None, us')"
  using assms by (auto simp: verify_email_parts mark_token_used_def Let_def split: option.splits if_splits prod.splits)

lemma email_verified_cases:
  assumes "account_step env t (UserCall rn (VerifyEmail (Some tok))) st = (UserReply EmailVerified, st')"
  shows "verify_email t (trim_space tok) (as_users st, as_verification st) = (None, as_users st', as_verification st')"
proof -
  have "verify_reply e \<noteq> EmailVerified" for e by (cases e) simp_all
  then show ?thesis using assms by (auto split: if_splits prod.splits option.splits)
qed

lemma updated_row: "update_user now u us = (None, us') \<Longrightarrow> \<exists>r \<in> set us'. us_id r = us_id u \<and> us_verified r = us_verified u"
proof -
  let ?f = "\<lambda>r. if us_id r = us_id u then u\<lparr>us_email := to_lower (us_email u), us_created := us_created r, us_updated := now\<rparr> else r"
  assume "update_user now u us = (None, us')"
  then obtain r where "r \<in> set us" "us_id r = us_id u" "us' = map ?f us" by (auto simp: update_user_def list_ex_iff split: if_splits)
  then show ?thesis by (intro bexI [of _ "?f r"]) simp_all
qed

text \<open>Property C14: When the calls are handled one after the other and the random tokens differ, an address is verified
  only with a token that was requested for its user at most a day before, and each token verifies once, whatever is
  called in between. Two calls that overlap can both verify with one token (\<open>overlapping_verifications\<close>).\<close>

theorem token_verifies_once:
  assumes "as_verification st = []" and "distinct (concat (map (drawn \<circ> snd) es))"
    and "es = es1 @ (t, UserCall rn (VerifyEmail (Some tok))) # es2"
    and "account_step env t (UserCall rn (VerifyEmail (Some tok))) (account_state env es1 st) = (UserReply EmailVerified, st')"
  shows "(\<exists>uid t0. requested_before env st es1 uid (trim_space tok) t0 \<and> t \<le> t0 + token_expiry
        \<and> (\<exists>u \<in> set (as_users st'). us_id u = uid \<and> us_verified u))
    \<and> (\<forall>ea t1 rn1 tok1 eb. es2 = ea @ (t1, UserCall rn1 (VerifyEmail (Some tok1))) # eb \<and> trim_space tok1 = trim_space tok
        \<longrightarrow> fst (account_step env t1 (UserCall rn1 (VerifyEmail (Some tok1))) (account_state env ea st')) \<noteq> UserReply EmailVerified)"
proof (intro conjI allI impI notI; (elim conjE)?)
  let ?s = "account_state env es1 st"
  obtain vt u where vt: "get_token (trim_space tok) (as_verification ?s) = Some vt" "t \<le> vt_expires vt" "get_user (vt_user vt) (as_users ?s) = Some u"
    and ts': "as_verification st' = map (\<lambda>r. if vt_token r = trim_space tok then r\<lparr>vt_used := True\<rparr> else r) (as_verification ?s)"
    and upd: "update_user t (u\<lparr>us_verified := True, us_status := if us_status u = status_pending then status_active else us_status u\<rparr>) (as_users ?s) = (None, as_users st')"
    using verify_email_cases [OF email_verified_cases [OF assms(4)]] by blast
  have row: "vt \<in> set (as_verification ?s)" "vt_token vt = trim_space tok"
    using vt(1) by (auto simp: get_token_def find_Some_iff)
  obtain t0 where t0: "requested_before env st es1 (vt_user vt) (trim_space tok) t0" "vt_expires vt = t0 + token_expiry"
    using rows_requested [OF assms(1) row(1)] row(2) by auto
  show "\<exists>uid t0. requested_before env st es1 uid (trim_space tok) t0 \<and> t \<le> t0 + token_expiry
        \<and> (\<exists>u \<in> set (as_users st'). us_id u = uid \<and> us_verified u)"
    using t0 vt(2) updated_row [OF upd] get_user_id [OF vt(3)] by auto
  fix ea t1 rn1 tok1 eb
  assume es2: "es2 = ea @ (t1, UserCall rn1 (VerifyEmail (Some tok1))) # eb" and same: "trim_space tok1 = trim_space tok"
    and again: "fst (account_step env t1 (UserCall rn1 (VerifyEmail (Some tok1))) (account_state env ea st')) = UserReply EmailVerified"
  have "token_spent (trim_space tok) (as_verification st')" by (auto simp: ts' token_spent_def)
  moreover have "trim_space tok \<notin> set (concat (map (drawn \<circ> snd) ea))"
    using assms(2) requested_before_drawn [OF t0(1)] unfolding assms(3) es2 by auto
  ultimately have "token_spent (trim_space tok) (as_verification (account_state env ea st'))" by (rule token_spent_state)
  moreover obtain vt' where "get_token (trim_space tok1) (as_verification (account_state env ea st')) = Some vt'" "\<not> vt_used vt'"
    using verify_email_cases [OF email_verified_cases] again by (metis surjective_pairing)
  ultimately show False using same by (auto simp: token_spent_def get_token_def find_Some_iff)
qed

definition sample_verification :: "(time \<times> account_event) list" where
  "sample_verification = [(0, UserCall (sample_randoms ''t'') (ResendVerification (Some ''a@x''))),
     (5, UserCall (sample_randoms ''v'') (VerifyEmail (Some ''t''))), (6, UserCall (sample_randoms ''w'') (VerifyEmail (Some '' t'')))]"

lemma token_verifies_once_witness:
  "fst (account_step sample_auth_env 6 (UserCall (sample_randoms ''w'') (VerifyEmail (Some '' t'')))
     (account_state sample_auth_env (take 2 sample_verification) sample_auth_state)) \<noteq> UserReply EmailVerified"
proof -
  let ?s = "account_state sample_auth_env (take 1 sample_verification) sample_auth_state" and ?ev = "UserCall (sample_randoms ''v'') (VerifyEmail (Some ''t''))"
  have "fst (account_step sample_auth_env 5 ?ev ?s) = UserReply EmailVerified" by code_simp
  then obtain st' where step: "account_step sample_auth_env 5 ?ev ?s = (UserReply EmailVerified, st')" by (metis prod.collapse)
  have split: "sample_verification = take 1 sample_verification @ (5, ?ev) # [(6, UserCall (sample_randoms ''w'') (VerifyEmail (Some '' t'')))]"
    by (simp add: sample_verification_def)
  have trim_t: "trim_space '' t'' = ''t''" "trim_space ''t'' = ''t''" by code_simp+
  have empty: "as_verification sample_auth_state = []" by (simp add: sample_auth_state_def)
  have "distinct (concat (map (drawn \<circ> snd) sample_verification))" by (simp add: sample_verification_def)
  from token_verifies_once [OF empty this split step, THEN conjunct2]
  have "fst (account_step sample_auth_env 6 (UserCall (sample_randoms ''w'') (VerifyEmail (Some '' t''))) st') \<noteq> UserReply EmailVerified"
    using trim_t by (auto dest: spec [of _ "[]"] simp del: account_step.simps)
  moreover have "account_state sample_auth_env (take 2 sample_verification) sample_auth_state = st'"
    using step by (simp add: sample_verification_def numeral_2_eq_2 del: account_step.simps)
  ultimately show ?thesis by simp
qed


text \<open>What calls that overlap can do. Two that check one token before either marks it both verify with it: marking does
  not look at the mark. And the row that is written is the one that was read, so what an administrator has done to the
  account in between is undone.\<close>

lemma update_user_again:
  assumes "update_user t1 u us = (None, us1)"
  shows "fst (update_user t2 u us1) = None"
proof -
  let ?f = "\<lambda>r. if us_id r = us_id u then u\<lparr>us_email := to_lower (us_email u), us_created := us_created r, us_updated := t1\<rparr> else r"
  have found: "list_ex (\<lambda>r. us_id r = us_id u) us" and free: "\<not> list_ex (\<lambda>r. us_id r \<noteq> us_id u \<and> us_email r = to_lower (us_email u)) us"
    and us1: "us1 = map ?f us"
    using assms unfolding update_user_def by (simp_all split: if_splits)
  have "list_ex (\<lambda>r. us_id r = us_id u) us1" using found unfolding us1 by (induction us) auto
  moreover have "\<not> list_ex (\<lambda>r. us_id r \<noteq> us_id u \<and> us_email r = to_lower (us_email u)) us1"
    using free unfolding us1 by (auto simp: list_ex_iff)
  ultimately show ?thesis by (simp add: update_user_def)
qed

lemma verify_finish_ok:
  assumes "verify_finish t tok u (us, ts) = (None, us1, ts1)"
  shows "list_ex (\<lambda>r. vt_token r = tok) ts1"
    and "update_user t (u\<lparr>us_verified := True, us_status := if us_status u = status_pending then status_active else us_status u\<rparr>) us = (None, us1)"
proof -
  obtain e ts' where m: "mark_token_used tok ts = (e, ts')" by fastforce
  obtain e' us' where w: "update_user t (u\<lparr>us_verified := True, us_status := if us_status u = status_pending then status_active else us_status u\<rparr>) us = (e', us')"
    by fastforce
  from assms m w have "e = None" "e' = None" "us1 = us'" "ts1 = ts'"
    by (simp_all add: verify_finish_def Let_def split: option.splits)
  with m w show "update_user t (u\<lparr>us_verified := True, us_status := if us_status u = status_pending then status_active else us_status u\<rparr>) us = (None, us1)"
    by simp
  have marked: "list_ex (\<lambda>r. vt_token r = tok) (map (\<lambda>r. if vt_token r = tok then r\<lparr>vt_used := True\<rparr> else r) rs)"
    if "list_ex (\<lambda>r. vt_token r = tok) rs" for rs using that by (induction rs) auto
  from m \<open>e = None\<close> have "list_ex (\<lambda>r. vt_token r = tok) ts" "ts' = map (\<lambda>r. if vt_token r = tok then r\<lparr>vt_used := True\<rparr> else r) ts"
    by (simp_all add: mark_token_used_def split: if_splits)
  then show "list_ex (\<lambda>r. vt_token r = tok) ts1" using marked \<open>ts1 = ts'\<close> by blast
qed

lemma overlapping_verifications:
  assumes "verify_check t1 tok us ts = Inr u" and "verify_check t2 tok us ts = Inr u"
    and "verify_finish t1 tok u (us, ts) = (None, us1, ts1)"
  shows "fst (verify_finish t2 tok u (us1, ts1)) = None"
  using update_user_again [OF verify_finish_ok(2) [OF assms(3)], of t2] verify_finish_ok(1) [OF assms(3)]
  by (simp add: verify_finish_def mark_token_used_def Let_def split_beta split: option.splits)

lemma verification_undoes_suspension:
  assumes "verify_check t tok us ts = Inr u" and "us_status u = status_pending" and "verify_finish t tok u (us', ts') = (None, us2, ts2)"
  shows "\<exists>r \<in> set us2. us_id r = us_id u \<and> us_status r = status_active"
proof -
  let ?u = "u\<lparr>us_verified := True, us_status := status_active\<rparr>"
  let ?f = "\<lambda>r. if us_id r = us_id ?u then ?u\<lparr>us_email := to_lower (us_email ?u), us_created := us_created r, us_updated := t\<rparr> else r"
  have "update_user t ?u us' = (None, us2)" using verify_finish_ok(2) [OF assms(3)] assms(2) by simp
  then obtain r where "r \<in> set us'" "us_id r = us_id u" "us2 = map ?f us'"
    by (auto simp: update_user_def list_ex_iff split: if_splits)
  then show ?thesis by (intro bexI [of _ "?f r"]) simp_all
qed

lemma overlapping_resends:
  assumes "resend_check t1 cooldown uid us ts = None" and "resend_check t2 cooldown uid us ts = None"
    and "create_token tok1 id1 t1 uid token_expiry ts = (Inr vt1, ts1)"
    and "tok2 \<noteq> tok1" and "take 16 id2 \<noteq> take 16 id1" and "list_all (\<lambda>r. vt_id r \<noteq> take 16 id2 \<and> vt_token r \<noteq> tok2) ts"
  shows "\<exists>vt2 ts2. create_token tok2 id2 t2 uid token_expiry ts1 = (Inr vt2, ts2) \<and> vt_user vt2 = uid \<and> vt_user vt1 = uid"
  using assms(3-6) by (auto simp: create_token_def Let_def list_all_iff list_ex_iff split: if_splits)

text \<open>Asking for a verification mail tells whether an address has an account, and a login whether it is suspended.\<close>

lemma resend_reveals_accounts:
  assumes "ae_verification env" and "trim_space email \<noteq> []"
  shows "get_user_by_email (to_lower (trim_space email)) (as_users st) = None \<Longrightarrow> fst (handle_resend env now rn (Some email) st) = VerificationSent"
    and "users_ok (as_users st) \<Longrightarrow> u \<in> set (as_users st) \<Longrightarrow> us_email u = to_lower (trim_space email) \<Longrightarrow> us_verified u \<Longrightarrow>
      fst (handle_resend env now rn (Some email) st) = ApiError 409 ''already_verified''"
proof -
  assume ok: "users_ok (as_users st)" and u: "u \<in> set (as_users st)" "us_email u = to_lower (trim_space email)" "us_verified u"
  have "find (\<lambda>r. us_email r = to_lower (trim_space email)) (as_users st) = Some u"
    using ok u find_iff_unique [of us_email "as_users st" "to_lower (trim_space email)" u] by (simp add: users_ok_def)
  then have "get_user_by_email (to_lower (trim_space email)) (as_users st) = Some (read_user u)" by (simp add: get_user_by_email_def)
  then show "fst (handle_resend env now rn (Some email) st) = ApiError 409 ''already_verified''"
    using assms get_user_unique [OF ok u(1)] u(3) by (simp add: handle_resend_def resend_parts)
qed (use assms in \<open>simp add: handle_resend_def\<close>)

end
