(* ===== verification/User_Agents.thy ===== *)
theory User_Agents
  imports Time_Text
begin

text \<open>
  The agents a user configures (\<open>pkg/agents\<close>): the table with its keys and the endpoints on it. A row keeps
  its lists as lists, since the JSON text of the columns reads back as it was written; an empty list
  and \<open>nil\<close> are the same in a row, and differ in a request, where \<open>nil\<close> is \<open>None\<close>. A temperature is its text.
\<close>

section \<open>Agents\<close>

record agent_scope =
  sc_integration :: string
  sc_tools :: "string list"
  sc_scopes :: "string list"

record user_agent =
  ag_id :: string
  ag_user :: string
  ag_name :: string
  ag_description :: string
  ag_prompt :: string
  ag_model :: string
  ag_fallbacks :: "string list"
  ag_tools :: "string list"
  ag_skills :: "string list"
  ag_max_tokens :: int
  ag_temperature :: "string option"
  ag_max_iterations :: int
  ag_default :: bool
  ag_status :: string
  ag_integrations :: "agent_scope list"
  ag_created :: time
  ag_updated :: time

datatype agent_error = AgentNotFound | NameExists

abbreviation (input) agent_active :: string where
  "agent_active \<equiv> ''active''"

abbreviation (input) agent_archived :: string where
  "agent_archived \<equiv> ''archived''"

definition max_agents :: nat where
  "max_agents = 50"

section \<open>The store\<close>

definition insert_agent :: "string \<Rightarrow> time \<Rightarrow> user_agent \<Rightarrow> user_agent list \<Rightarrow> (agent_error + user_agent) \<times> user_agent list" where
  "insert_agent uuid now a ags =
     (let a = a\<lparr>ag_id := if ag_id a = [] then uuid else ag_id a, ag_created := now, ag_updated := now,
                ag_status := if ag_status a = [] then agent_active else ag_status a\<rparr>
      in if list_ex (\<lambda>r. ag_id r = ag_id a \<or> ag_user r = ag_user a \<and> ag_name r = ag_name a) ags then (Inl NameExists, ags)
         else (Inr a, ags @ [a]))"

definition get_agent :: "string \<Rightarrow> user_agent list \<Rightarrow> user_agent option" where
  "get_agent ident ags = find (\<lambda>r. ag_id r = ident) ags"

text \<open>An update leaves the owner and the time of creation of the row alone.\<close>

definition update_agent :: "time \<Rightarrow> user_agent \<Rightarrow> user_agent list \<Rightarrow> agent_error option \<times> user_agent list" where
  "update_agent now a ags =
     (case get_agent (ag_id a) ags of
        None \<Rightarrow> (Some AgentNotFound, ags)
      | Some old \<Rightarrow>
          if list_ex (\<lambda>r. ag_id r \<noteq> ag_id a \<and> ag_user r = ag_user old \<and> ag_name r = ag_name a) ags then (Some NameExists, ags)
          else (None, map (\<lambda>r. if ag_id r = ag_id a
                               then a\<lparr>ag_user := ag_user r, ag_created := ag_created r, ag_updated := now\<rparr> else r) ags))"

definition delete_agent :: "string \<Rightarrow> user_agent list \<Rightarrow> agent_error option \<times> user_agent list" where
  "delete_agent ident ags =
     (if get_agent ident ags = None then (Some AgentNotFound, ags) else (None, filter (\<lambda>r. ag_id r \<noteq> ident) ags))"

definition list_agents :: "string \<Rightarrow> user_agent list \<Rightarrow> user_agent list" where
  "list_agents user_id ags = sort_key (\<lambda>r. stamp (ag_created r)) (filter (\<lambda>r. ag_user r = user_id) ags)"

definition count_agents :: "string \<Rightarrow> user_agent list \<Rightarrow> nat" where
  "count_agents user_id ags = length (filter (\<lambda>r. ag_user r = user_id) ags)"

text \<open>The query for the default takes the first row its index on owner and flag gives, in the order of insertion.\<close>

definition get_default :: "string \<Rightarrow> user_agent list \<Rightarrow> user_agent option" where
  "get_default user_id ags = find (\<lambda>r. ag_user r = user_id \<and> ag_default r) ags"

definition set_default :: "string \<Rightarrow> string \<Rightarrow> user_agent list \<Rightarrow> agent_error option \<times> user_agent list" where
  "set_default user_id ident ags =
     (case get_agent ident ags of
        None \<Rightarrow> (Some AgentNotFound, ags)
      | Some r \<Rightarrow>
          if ag_user r \<noteq> user_id then (Some AgentNotFound, ags)
          else (None, map (\<lambda>r. if ag_id r = ident then r\<lparr>ag_default := True\<rparr> else r)
                        (map (\<lambda>r. if ag_user r = user_id then r\<lparr>ag_default := False\<rparr> else r) ags)))"

section \<open>The endpoints\<close>

record create_request =
  cr_name :: string
  cr_description :: string
  cr_prompt :: string
  cr_model :: string
  cr_fallbacks :: "string list"
  cr_tools :: "string list"
  cr_skills :: "string list"
  cr_max_tokens :: int
  cr_temperature :: "string option"
  cr_max_iterations :: int
  cr_default :: bool
  cr_integrations :: "agent_scope list"

record update_request =
  ur_name :: "string option"
  ur_description :: "string option"
  ur_prompt :: "string option"
  ur_model :: "string option"
  ur_fallbacks :: "string list option"
  ur_tools :: "string list option"
  ur_skills :: "string list option"
  ur_max_tokens :: "int option"
  ur_temperature :: "string option"
  ur_max_iterations :: "int option"
  ur_default :: "bool option"
  ur_status :: "string option"
  ur_integrations :: "agent_scope list option"

datatype agent_reply = AgentFailure nat string | AgentCreated user_agent | AgentShown user_agent | AgentList "user_agent list" | AgentRemoved

definition name_problem :: "string \<Rightarrow> string option" where
  "name_problem name =
     (if name = [] then Some ''name_required'' else if 100 < length name then Some ''name_too_long'' else None)"

definition scopes_ok :: "agent_scope list \<Rightarrow> bool" where
  "scopes_ok scopes \<longleftrightarrow> list_all (\<lambda>s. sc_integration s \<noteq> []) scopes"

definition handle_create ::
  "string \<Rightarrow> time \<Rightarrow> string \<Rightarrow> create_request option \<Rightarrow> user_agent list \<Rightarrow> agent_reply \<times> user_agent list" where
  "handle_create uuid now user_id body ags =
     (case body of
        None \<Rightarrow> (AgentFailure 400 ''invalid_json'', ags)
      | Some req \<Rightarrow>
          (case name_problem (trim_space (cr_name req)) of
             Some e \<Rightarrow> (AgentFailure 400 e, ags)
           | None \<Rightarrow>
               if 50000 < length (cr_prompt req) then (AgentFailure 400 ''prompt_too_long'', ags)
               else if max_agents \<le> count_agents user_id ags then (AgentFailure 409 ''max_agents'', ags)
               else if \<not> scopes_ok (cr_integrations req) then (AgentFailure 400 ''invalid_integration_scope'', ags)
               else
                 case insert_agent uuid now
                     \<lparr>ag_id = [], ag_user = user_id, ag_name = trim_space (cr_name req),
                      ag_description = trim_space (cr_description req), ag_prompt = cr_prompt req,
                      ag_model = trim_space (cr_model req), ag_fallbacks = cr_fallbacks req, ag_tools = cr_tools req,
                      ag_skills = cr_skills req, ag_max_tokens = cr_max_tokens req, ag_temperature = cr_temperature req,
                      ag_max_iterations = cr_max_iterations req, ag_default = cr_default req, ag_status = [],
                      ag_integrations = cr_integrations req, ag_created = 0, ag_updated = 0\<rparr> ags of
                   (Inl _, ags) \<Rightarrow> (AgentFailure 409 ''name_exists'', ags)
                 | (Inr a, ags) \<Rightarrow> (AgentCreated a, ags)))"

definition override :: "'a option \<Rightarrow> 'a \<Rightarrow> 'a" where
  "override new old = (case new of None \<Rightarrow> old | Some x \<Rightarrow> x)"

text \<open>The partial update; \<open>Inl\<close> is the error the reply names.\<close>

definition apply_update :: "update_request \<Rightarrow> user_agent \<Rightarrow> string + user_agent" where
  "apply_update req a =
     (case Option.bind (ur_name req) (\<lambda>n. name_problem (trim_space n)) of
        Some e \<Rightarrow> Inl e
      | None \<Rightarrow>
          if (case ur_prompt req of None \<Rightarrow> False | Some p \<Rightarrow> 50000 < length p) then Inl ''prompt_too_long''
          else if (case ur_status req of None \<Rightarrow> False | Some s \<Rightarrow> s \<noteq> agent_active \<and> s \<noteq> agent_archived) then Inl ''invalid_status''
          else if (case ur_integrations req of None \<Rightarrow> False | Some s \<Rightarrow> \<not> scopes_ok s) then Inl ''invalid_integration_scope''
          else Inr (a\<lparr>ag_name := override (map_option trim_space (ur_name req)) (ag_name a),
                      ag_description := override (map_option trim_space (ur_description req)) (ag_description a),
                      ag_prompt := override (ur_prompt req) (ag_prompt a),
                      ag_model := override (map_option trim_space (ur_model req)) (ag_model a),
                      ag_fallbacks := override (ur_fallbacks req) (ag_fallbacks a),
                      ag_tools := override (ur_tools req) (ag_tools a),
                      ag_skills := override (ur_skills req) (ag_skills a),
                      ag_max_tokens := override (ur_max_tokens req) (ag_max_tokens a),
                      ag_temperature := (case ur_temperature req of None \<Rightarrow> ag_temperature a | Some t \<Rightarrow> Some t),
                      ag_max_iterations := override (ur_max_iterations req) (ag_max_iterations a),
                      ag_default := override (ur_default req) (ag_default a),
                      ag_status := override (ur_status req) (ag_status a),
                      ag_integrations := override (ur_integrations req) (ag_integrations a)\<rparr>))"

text \<open>The agent of a user; that of another user is not found.\<close>

definition own_agent :: "string \<Rightarrow> string \<Rightarrow> user_agent list \<Rightarrow> user_agent option" where
  "own_agent user_id ident ags =
     (case get_agent ident ags of None \<Rightarrow> None | Some a \<Rightarrow> if ag_user a \<noteq> user_id then None else Some a)"

definition handle_update ::
  "time \<Rightarrow> string \<Rightarrow> string \<Rightarrow> update_request option \<Rightarrow> user_agent list \<Rightarrow> agent_reply \<times> user_agent list" where
  "handle_update now user_id ident body ags =
     (case own_agent user_id ident ags of
        None \<Rightarrow> (AgentFailure 404 ''not_found'', ags)
      | Some a \<Rightarrow>
          (case body of
             None \<Rightarrow> (AgentFailure 400 ''invalid_json'', ags)
           | Some req \<Rightarrow>
               (case apply_update req a of
                  Inl e \<Rightarrow> (AgentFailure 400 e, ags)
                | Inr a \<Rightarrow>
                    (case update_agent now a ags of
                       (Some NameExists, ags) \<Rightarrow> (AgentFailure 409 ''name_exists'', ags)
                     | (Some AgentNotFound, ags) \<Rightarrow> (AgentFailure 500 ''internal'', ags)
                     | (None, ags) \<Rightarrow> (AgentShown (a\<lparr>ag_updated := now\<rparr>), ags)))))"

definition handle_delete :: "string \<Rightarrow> string \<Rightarrow> user_agent list \<Rightarrow> agent_reply \<times> user_agent list" where
  "handle_delete user_id ident ags =
     (case own_agent user_id ident ags of
        None \<Rightarrow> (AgentFailure 404 ''not_found'', ags)
      | Some _ \<Rightarrow>
          (case delete_agent ident ags of
             (Some _, ags) \<Rightarrow> (AgentFailure 500 ''internal'', ags)
           | (None, ags) \<Rightarrow> (AgentRemoved, ags)))"

definition handle_set_default :: "string \<Rightarrow> string \<Rightarrow> user_agent list \<Rightarrow> agent_reply \<times> user_agent list" where
  "handle_set_default user_id ident ags =
     (case set_default user_id ident ags of
        (Some _, ags) \<Rightarrow> (AgentFailure 404 ''not_found'', ags)
      | (None, ags) \<Rightarrow>
          (case get_agent ident ags of None \<Rightarrow> (AgentFailure 500 ''internal'', ags) | Some a \<Rightarrow> (AgentShown a, ags)))"

datatype agent_call =
    ListAgents
  | CreateAgent "create_request option"
  | GetAgent string
  | UpdateAgent string "update_request option"
  | DeleteAgent string
  | SetDefaultAgent string

text \<open>All calls need an authenticated user.\<close>

fun agent_handler :: "string \<Rightarrow> time \<Rightarrow> string \<Rightarrow> agent_call \<Rightarrow> user_agent list \<Rightarrow> agent_reply \<times> user_agent list" where
  "agent_handler uuid now user_id ListAgents ags = (AgentList (list_agents user_id ags), ags)"
| "agent_handler uuid now user_id (CreateAgent body) ags = handle_create uuid now user_id body ags"
| "agent_handler uuid now user_id (GetAgent ident) ags =
     (case own_agent user_id ident ags of None \<Rightarrow> (AgentFailure 404 ''not_found'', ags) | Some a \<Rightarrow> (AgentShown a, ags))"
| "agent_handler uuid now user_id (UpdateAgent ident body) ags = handle_update now user_id ident body ags"
| "agent_handler uuid now user_id (DeleteAgent ident) ags = handle_delete user_id ident ags"
| "agent_handler uuid now user_id (SetDefaultAgent ident) ags = handle_set_default user_id ident ags"

definition agents_api :: "string \<Rightarrow> time \<Rightarrow> string \<Rightarrow> agent_call \<Rightarrow> user_agent list \<Rightarrow> agent_reply \<times> user_agent list" where
  "agents_api uuid now user_id call ags =
     (if user_id = [] then (AgentFailure 401 ''unauthorized'', ags) else agent_handler uuid now user_id call ags)"

fun agents_run :: "(string \<times> time \<times> string \<times> agent_call) list \<Rightarrow> user_agent list \<Rightarrow> user_agent list" where
  "agents_run [] ags = ags"
| "agents_run ((uuid, now, user_id, call) # cs) ags = agents_run cs (snd (agents_api uuid now user_id call ags))"

section \<open>Lemmas\<close>

text \<open>The rows of one user, and those of all others.\<close>

definition own :: "string \<Rightarrow> user_agent list \<Rightarrow> user_agent list" where
  "own u = filter (\<lambda>r. ag_user r = u)"

definition others :: "string \<Rightarrow> user_agent list \<Rightarrow> user_agent list" where
  "others u = filter (\<lambda>r. ag_user r \<noteq> u)"

definition ids_ok :: "user_agent list \<Rightarrow> bool" where
  "ids_ok ags \<longleftrightarrow> distinct (map ag_id ags)"

lemma set_own [simp]: "r \<in> set (own u ags) \<longleftrightarrow> r \<in> set ags \<and> ag_user r = u"
  by (auto simp: own_def)

lemma get_agent_Some: "get_agent ident ags = Some r \<Longrightarrow> r \<in> set ags \<and> ag_id r = ident"
  by (auto simp: get_agent_def find_Some_iff)

lemma get_agent_unique: "ids_ok ags \<Longrightarrow> get_agent ident ags = Some r \<longleftrightarrow> r \<in> set ags \<and> ag_id r = ident"
  unfolding get_agent_def ids_ok_def by (induction ags) (auto simp: rev_image_eqI)

lemma ids_ok_own [simp]: "ids_ok ags \<Longrightarrow> ids_ok (own u ags)"
  by (simp add: ids_ok_def own_def distinct_map_filter)

lemma own_agent_own: "ids_ok ags \<Longrightarrow> own_agent u ident ags = get_agent ident (own u ags)"
proof -
  assume ok: "ids_ok ags"
  have "own_agent u ident ags = Some r \<longleftrightarrow> get_agent ident (own u ags) = Some r" for r
  proof -
    have "own_agent u ident ags = Some r \<longleftrightarrow> get_agent ident ags = Some r \<and> ag_user r = u"
      by (auto simp: own_agent_def split: option.splits if_splits)
    then show ?thesis using get_agent_unique [OF ok] get_agent_unique [OF ids_ok_own [OF ok]] by auto
  qed
  then show ?thesis by (metis not_Some_eq)
qed

lemma own_own [simp]: "own u (own u ags) = own u ags"
  by (simp add: own_def)

lemma own_agent_in_own: "ids_ok ags \<Longrightarrow> own_agent u ident (own u ags) = own_agent u ident ags"
  using own_agent_own [of ags u ident] own_agent_own [of "own u ags" u ident] by simp

lemma own_agent_Some: "own_agent u ident ags = Some a \<Longrightarrow> get_agent ident ags = Some a \<and> ag_user a = u \<and> ag_id a = ident"
  by (auto simp: own_agent_def dest: get_agent_Some split: option.splits if_splits)

text \<open>A map that keeps the owners splits over own and other rows.\<close>

lemma own_map: "(\<And>r. ag_user (f r) = ag_user r) \<Longrightarrow> own u (map f ags) = map f (own u ags)"
  by (induction ags) (simp_all add: own_def)

lemma others_map: "(\<And>r. ag_user (f r) = ag_user r) \<Longrightarrow> (\<And>r. r \<in> set ags \<Longrightarrow> ag_user r \<noteq> u \<Longrightarrow> f r = r) \<Longrightarrow> others u (map f ags) = others u ags"
  by (induction ags) (auto simp: others_def)

text \<open>Only the owner's row has the identifier of a row.\<close>

lemma other_id: "ids_ok ags \<Longrightarrow> own_agent u ident ags = Some a \<Longrightarrow> r \<in> set ags \<Longrightarrow> ag_user r \<noteq> u \<Longrightarrow> ag_id r \<noteq> ident"
  using get_agent_unique [of ags ident] own_agent_Some by fastforce

text \<open>Each operation works on the rows of its user as if there were no others.\<close>

definition confined_to :: "string \<Rightarrow> user_agent list \<Rightarrow> (user_agent list \<Rightarrow> 'r \<times> user_agent list) \<Rightarrow> bool" where
  "confined_to u ags f \<longleftrightarrow> f (own u ags) = apsnd (own u) (f ags) \<and> others u (snd (f ags)) = others u ags"

lemma confined_skip: "confined_to u ags (\<lambda>ags. (r, ags))"
  by (simp add: confined_to_def)

lemma insert_confined:
  assumes "ag_user a = u" and "ag_id a = []" and "uuid \<notin> ag_id ` set ags"
  shows "confined_to u ags (insert_agent uuid now a)"
proof -
  let ?a = "a\<lparr>ag_id := uuid, ag_created := now, ag_updated := now, ag_status := if ag_status a = [] then agent_active else ag_status a\<rparr>"
  have free: "ag_id r \<noteq> uuid" if "r \<in> set ags" for r using assms(3) that by auto
  then have "list_ex (\<lambda>r. ag_id r = uuid \<or> ag_user r = u \<and> ag_name r = ag_name a) ags
      = list_ex (\<lambda>r. ag_id r = uuid \<or> ag_user r = u \<and> ag_name r = ag_name a) (own u ags)"
    by (auto simp: list_ex_iff)
  then show ?thesis using assms(1,2) by (auto simp: confined_to_def insert_agent_def Let_def own_def others_def)
qed

lemma update_confined:
  assumes "ids_ok ags" and "own_agent u ident ags = Some old" and "ag_id a = ident"
  shows "confined_to u ags (update_agent now a)"
proof -
  let ?f = "\<lambda>r. if ag_id r = ident then a\<lparr>ag_user := ag_user r, ag_created := ag_created r, ag_updated := now\<rparr> else r"
  have g: "get_agent ident ags = Some old" "ag_user old = u" using own_agent_Some [OF assms(2)] by simp_all
  have g': "get_agent ident (own u ags) = Some old" using own_agent_own [OF assms(1), of u ident] assms(2) by simp
  have "list_ex (\<lambda>r. ag_id r \<noteq> ident \<and> ag_user r = u \<and> ag_name r = ag_name a) (own u ags)
      = list_ex (\<lambda>r. ag_id r \<noteq> ident \<and> ag_user r = u \<and> ag_name r = ag_name a) ags"
    by (auto simp: list_ex_iff)
  moreover have "own u (map ?f ags) = map ?f (own u ags)" by (rule own_map) simp
  moreover have "others u (map ?f ags) = others u ags" by (rule others_map) (use other_id [OF assms(1,2)] in auto)
  ultimately show ?thesis using g g' assms(3) by (simp add: confined_to_def update_agent_def)
qed

lemma delete_confined:
  assumes "ids_ok ags" and "own_agent u ident ags = Some old"
  shows "confined_to u ags (delete_agent ident)"
proof -
  have "get_agent ident (own u ags) = Some old" "get_agent ident ags = Some old"
    using own_agent_own [OF assms(1), of u ident] own_agent_Some [OF assms(2)] assms(2) by simp_all
  moreover have "others u (filter (\<lambda>r. ag_id r \<noteq> ident) ags) = others u ags"
    unfolding others_def filter_filter by (rule filter_cong) (use other_id [OF assms] in auto)
  moreover have "filter (\<lambda>r. ag_id r \<noteq> ident) (own u ags) = own u (filter (\<lambda>r. ag_id r \<noteq> ident) ags)"
    unfolding own_def filter_filter by (rule filter_cong) auto
  ultimately show ?thesis by (simp add: confined_to_def delete_agent_def)
qed

lemma set_default_confined:
  assumes "ids_ok ags" shows "confined_to u ags (set_default u ident)"
proof -
  let ?g = "\<lambda>r. if ag_user r = u then r\<lparr>ag_default := False\<rparr> else r" and ?f = "\<lambda>r. if ag_id r = ident then r\<lparr>ag_default := True\<rparr> else r"
  have def: "set_default u ident xs = (case own_agent u ident xs of None \<Rightarrow> (Some AgentNotFound, xs) | Some _ \<Rightarrow> (None, map ?f (map ?g xs)))" for xs
    by (auto simp: set_default_def own_agent_def split: option.splits)
  have keep: "own u (map ?f (map ?g ags)) = map ?f (map ?g (own u ags))"
    unfolding map_map by (rule own_map) simp
  have "others u (map ?f (map ?g ags)) = others u ags" if "own_agent u ident ags = Some a" for a
    unfolding map_map by (rule others_map) (use other_id [OF assms that] in auto)
  then show ?thesis using keep own_agent_in_own [OF assms, of u ident] by (auto simp: confined_to_def def split: option.splits)
qed

lemma confined_result: "confined_to u ags f \<Longrightarrow> confined_to u ags (\<lambda>ags. apfst h (f ags))"
  by (simp add: confined_to_def apsnd_apfst_commute)

lemma create_confined:
  assumes "uuid \<notin> ag_id ` set ags"
  shows "confined_to u ags (handle_create uuid now u body)"
proof (cases body)
  case (Some req)
  let ?a = "\<lparr>ag_id = [], ag_user = u, ag_name = trim_space (cr_name req),
                      ag_description = trim_space (cr_description req), ag_prompt = cr_prompt req,
                      ag_model = trim_space (cr_model req), ag_fallbacks = cr_fallbacks req, ag_tools = cr_tools req,
                      ag_skills = cr_skills req, ag_max_tokens = cr_max_tokens req, ag_temperature = cr_temperature req,
                      ag_max_iterations = cr_max_iterations req, ag_default = cr_default req, ag_status = [],
                      ag_integrations = cr_integrations req, ag_created = 0, ag_updated = 0\<rparr>"
  let ?h = "\<lambda>x. case x of Inl e \<Rightarrow> AgentFailure 409 ''name_exists'' | Inr a \<Rightarrow> AgentCreated a"
  have "confined_to u ags (\<lambda>ags. apfst ?h (insert_agent uuid now ?a ags))"
    by (rule confined_result [OF insert_confined]) (use assms in simp_all)
  moreover have "count_agents u (own u ags) = count_agents u ags" by (simp add: count_agents_def own_def)
  moreover have "(case insert_agent uuid now ?a xs of (Inl _, ags) \<Rightarrow> (AgentFailure 409 ''name_exists'', ags) | (Inr a, ags) \<Rightarrow> (AgentCreated a, ags))
      = apfst ?h (insert_agent uuid now ?a xs)" for xs
    by (simp split: prod.splits sum.splits)
  ultimately show ?thesis using Some by (simp add: handle_create_def confined_to_def split: option.splits)
qed (simp add: handle_create_def confined_to_def)

lemma apply_update_keeps: "apply_update req a = Inr b \<Longrightarrow> ag_id b = ag_id a \<and> ag_user b = ag_user a"
  by (auto simp: apply_update_def split: option.splits if_splits)

lemma update_handler_confined:
  assumes "ids_ok ags" shows "confined_to u ags (handle_update now u ident body)"
proof -
  let ?h = "\<lambda>b e. case e of Some NameExists \<Rightarrow> AgentFailure 409 ''name_exists'' | Some AgentNotFound \<Rightarrow> AgentFailure 500 ''internal''
     | None \<Rightarrow> AgentShown (b\<lparr>ag_updated := now\<rparr>)"
  have result: "(case update_agent now b xs of (Some NameExists, ags) \<Rightarrow> (AgentFailure 409 ''name_exists'', ags)
      | (Some AgentNotFound, ags) \<Rightarrow> (AgentFailure 500 ''internal'', ags) | (None, ags) \<Rightarrow> (AgentShown (b\<lparr>ag_updated := now\<rparr>), ags))
      = apfst (?h b) (update_agent now b xs)" for b xs
    by (simp split: prod.splits option.splits agent_error.splits)
  have "confined_to u ags (\<lambda>xs. apfst (?h b) (update_agent now b xs))"
    if "own_agent u ident ags = Some a" "apply_update req a = Inr b" for a req b
    by (rule confined_result [OF update_confined [OF assms that(1)]]) (use apply_update_keeps [OF that(2)] own_agent_Some [OF that(1)] in simp)
  then show ?thesis
    by (auto simp: handle_update_def result confined_to_def own_agent_in_own [OF assms] split: option.splits sum.splits)
qed

lemma get_agent_map:
  "(\<And>r. ag_id (f r) = ag_id r) \<Longrightarrow> get_agent ident (map f ags) = map_option f (get_agent ident ags)"
  by (induction ags) (auto simp: get_agent_def)

lemma set_default_result:
  "set_default u ident ags =
     (case own_agent u ident ags of
        None \<Rightarrow> (Some AgentNotFound, ags)
      | Some _ \<Rightarrow> (None, map (\<lambda>r. if ag_user r = u then r\<lparr>ag_default := ag_id r = ident\<rparr> else if ag_id r = ident then r\<lparr>ag_default := True\<rparr> else r) ags))"
  by (auto simp: set_default_def own_agent_def split: option.splits)

lemma handle_set_default_result:
  "handle_set_default u ident ags =
     (case own_agent u ident ags of
        None \<Rightarrow> (AgentFailure 404 ''not_found'', ags)
      | Some a \<Rightarrow> (AgentShown (a\<lparr>ag_default := True\<rparr>), snd (set_default u ident ags)))"
proof (cases "own_agent u ident ags")
  case (Some a)
  then show ?thesis using own_agent_Some [OF Some]
    by (simp add: handle_set_default_def set_default_result get_agent_map)
qed (simp add: handle_set_default_def set_default_result)

lemma handler_confined:
  assumes "ids_ok ags" and "uuid \<notin> ag_id ` set ags"
  shows "confined_to u ags (agents_api uuid now u call)"
proof (cases "u = []")
  case False
  have api: "confined_to u ags (agent_handler uuid now u call) \<Longrightarrow> ?thesis" using False by (simp add: agents_api_def confined_to_def)
  show ?thesis
  proof (cases call)
    case (DeleteAgent ident)
    have "handle_delete u ident xs = (case own_agent u ident xs of None \<Rightarrow> (AgentFailure 404 ''not_found'', xs)
        | Some _ \<Rightarrow> apfst (\<lambda>e. case e of None \<Rightarrow> AgentRemoved | Some _ \<Rightarrow> AgentFailure 500 ''internal'') (delete_agent ident xs))" for xs
      by (simp add: handle_delete_def split: option.splits prod.splits)
    moreover have "delete_agent ident (own u ags) = apsnd (own u) (delete_agent ident ags) \<and> others u (snd (delete_agent ident ags)) = others u ags"
      if "own_agent u ident ags = Some a" for a
      using delete_confined [OF assms(1) that] by (simp add: confined_to_def)
    ultimately show ?thesis using DeleteAgent
      by (intro api) (cases "own_agent u ident ags"; simp add: confined_to_def own_agent_in_own [OF assms(1)] apsnd_apfst_commute)
  next
    case (SetDefaultAgent ident)
    then show ?thesis using set_default_confined [OF assms(1), of u ident]
      by (intro api) (auto simp: confined_to_def handle_set_default_result own_agent_in_own [OF assms(1)] split: option.splits)
  next
    case ListAgents
    then show ?thesis by (intro api) (simp add: confined_to_def list_agents_def own_def others_def)
  next
    case (CreateAgent body)
    then show ?thesis using create_confined [OF assms(2)] by (intro api) (simp add: confined_to_def)
  next
    case (GetAgent ident)
    then show ?thesis by (intro api) (auto simp: confined_to_def own_agent_in_own [OF assms(1)] split: option.splits)
  next
    case (UpdateAgent ident body)
    then show ?thesis using update_handler_confined [OF assms(1)] by (intro api) (simp add: confined_to_def)
  qed
qed (simp add: agents_api_def confined_to_def)

text \<open>No call adds more than one row, and only a call that finds room adds one.\<close>

lemma length_own_map: "(\<And>r. ag_user (f r) = ag_user r) \<Longrightarrow> count_agents u (map f ags) = count_agents u ags"
  by (induction ags) (simp_all add: count_agents_def)

lemma update_count: "count_agents u (snd (update_agent now a ags)) = count_agents u ags"
  by (auto simp: update_agent_def length_own_map split: option.splits)

lemma delete_count: "count_agents u (snd (delete_agent ident ags)) \<le> count_agents u ags"
proof -
  have "length (filter p (filter q rs)) \<le> length (filter p rs)" for p q and rs :: "user_agent list" by (induction rs) auto
  then show ?thesis by (simp add: delete_agent_def count_agents_def del: filter_filter)
qed

lemma set_default_count: "count_agents u (snd (set_default v ident ags)) = count_agents u ags"
  by (auto simp: set_default_result length_own_map split: option.splits)

lemma create_count: "count_agents u (snd (handle_create uuid now v body ags)) \<le> max max_agents (count_agents u ags)"
  by (auto simp: handle_create_def insert_agent_def Let_def count_agents_def split: option.splits)

lemma handler_count: "count_agents u (snd (agents_api uuid now v call ags)) \<le> max max_agents (count_agents u ags)"
proof (cases "v = []")
  case False
  show ?thesis
  proof (cases call)
    case (CreateAgent body)
    then show ?thesis using create_count False by (simp add: agents_api_def)
  next
    case (UpdateAgent ident body)
    have "snd (handle_update now v ident body ags) = ags \<or> (\<exists>a. snd (handle_update now v ident body ags) = snd (update_agent now a ags))"
      by (auto simp: handle_update_def split: option.splits sum.splits prod.splits agent_error.splits) (metis snd_conv)+
    then show ?thesis using UpdateAgent False update_count by (auto simp: agents_api_def)
  next
    case (DeleteAgent ident)
    then show ?thesis using False delete_count [of u ident ags]
      by (auto simp: agents_api_def handle_delete_def split: option.splits prod.splits)
  next
    case (SetDefaultAgent ident)
    then show ?thesis using False set_default_count [of u v ident ags]
      by (auto simp: agents_api_def handle_set_default_result split: option.splits)
  qed (use False in \<open>auto simp: agents_api_def split: option.splits\<close>)
qed (simp add: agents_api_def)

section \<open>Properties\<close>

text \<open>Property C22: A call of a user works as if the table held the rows of that user alone: the reply and the user's rows
  are those of the call on these rows, and the rows of all others stay as they are.\<close>

theorem agents_of_others_invisible:
  assumes "ids_ok ags" and "uuid \<notin> ag_id ` set ags"
  shows "agents_api uuid now u call (own u ags) = apsnd (own u) (agents_api uuid now u call ags)
    \<and> others u (snd (agents_api uuid now u call ags)) = others u ags"
  using handler_confined [OF assms] by (simp add: confined_to_def)

definition sample_agent :: "string \<Rightarrow> string \<Rightarrow> bool \<Rightarrow> user_agent" where
  "sample_agent ident u dflt = \<lparr>ag_id = ident, ag_user = u, ag_name = ident, ag_description = [], ag_prompt = [], ag_model = [],
     ag_fallbacks = [], ag_tools = [], ag_skills = [], ag_max_tokens = 0, ag_temperature = None, ag_max_iterations = 0,
     ag_default = dflt, ag_status = agent_active, ag_integrations = [], ag_created = 0, ag_updated = 0\<rparr>"

lemma agents_of_others_invisible_witness:
  "fst (agents_api ''n'' 1 ''u'' (DeleteAgent ''b'') [sample_agent ''a'' ''u'' True, sample_agent ''b'' ''v'' False]) = AgentFailure 404 ''not_found''"
proof -
  let ?ags = "[sample_agent ''a'' ''u'' True, sample_agent ''b'' ''v'' False]"
  have "ids_ok ?ags" "''n'' \<notin> ag_id ` set ?ags" by (simp_all add: ids_ok_def sample_agent_def)
  from agents_of_others_invisible [OF this, of 1 "''u''" "DeleteAgent ''b''"]
  have "fst (agents_api ''n'' 1 ''u'' (DeleteAgent ''b'') ?ags) = fst (agents_api ''n'' 1 ''u'' (DeleteAgent ''b'') (own ''u'' ?ags))"
    by simp
  also have "\<dots> = AgentFailure 404 ''not_found''" by (simp add: own_def sample_agent_def agents_api_def handle_delete_def own_agent_def get_agent_def)
  finally show ?thesis .
qed

text \<open>Property C29: Whatever calls are made, one after the other, a user that started with at most fifty agents has at most
  fifty.\<close>

theorem at_most_fifty_agents:
  "count_agents u (agents_run cs ags) \<le> max max_agents (count_agents u ags)"
proof (induction cs ags rule: agents_run.induct)
  case (2 uuid now v call cs ags)
  then show ?case using handler_count [of u uuid now v call ags] by simp
qed simp

text \<open>Choosing a default leaves one; setting the flag by an update leaves the former default in place, which
  goes on to be the one that is found.\<close>

lemma find_exists: "x \<in> set xs \<Longrightarrow> p x \<Longrightarrow> \<exists>d. find p xs = Some d \<and> d \<in> set xs \<and> p d"
  by (induction xs) auto

lemma find_append_Some: "find p xs = Some x \<Longrightarrow> find p (xs @ ys) = Some x"
  by (induction xs) auto

lemma find_append_None: "(\<And>r. r \<in> set xs \<Longrightarrow> \<not> p r) \<Longrightarrow> p d \<Longrightarrow> find p (xs @ d # ys) = Some d"
  by (induction xs) auto

lemma set_default_exclusive:
  assumes "ids_ok ags" and "own_agent u ident ags = Some a"
  shows "\<exists>d. get_default u (snd (handle_set_default u ident ags)) = Some d \<and> ag_id d = ident
    \<and> (\<forall>r \<in> set (snd (handle_set_default u ident ags)). ag_user r = u \<and> ag_default r \<longrightarrow> ag_id r = ident)"
proof -
  let ?f = "\<lambda>r. if ag_user r = u then r\<lparr>ag_default := ag_id r = ident\<rparr> else if ag_id r = ident then r\<lparr>ag_default := True\<rparr> else r"
  have result: "snd (handle_set_default u ident ags) = map ?f ags" using assms(2) by (simp add: handle_set_default_result set_default_result)
  have "get_agent ident ags = Some a" and a: "ag_user a = u" "ag_id a = ident" using own_agent_Some [OF assms(2)] by simp_all
  then have "a \<in> set ags" using get_agent_unique [OF assms(1)] by blast
  then have "?f a \<in> set (map ?f ags)" unfolding set_map by (rule imageI)
  moreover have "ag_user (?f a) = u \<and> ag_default (?f a)" by (simp add: a)
  ultimately have "\<exists>d. find (\<lambda>r. ag_user r = u \<and> ag_default r) (map ?f ags) = Some d \<and> d \<in> set (map ?f ags) \<and> ag_user d = u \<and> ag_default d"
    by (rule find_exists)
  then obtain d where d: "find (\<lambda>r. ag_user r = u \<and> ag_default r) (map ?f ags) = Some d"
    and "d \<in> set (map ?f ags) \<and> ag_user d = u \<and> ag_default d" by blast
  have "ag_user (?f r) = u \<Longrightarrow> ag_default (?f r) \<Longrightarrow> ag_id (?f r) = ident" for r by (simp split: if_splits)
  then have only: "\<forall>r \<in> set (map ?f ags). ag_user r = u \<and> ag_default r \<longrightarrow> ag_id r = ident" unfolding set_map by (intro ballI) (erule imageE, simp)
  have "ag_id d = ident" using only \<open>d \<in> _ \<and> _\<close> by blast
  then show ?thesis using d only unfolding result get_default_def by blast
qed

definition only_default :: update_request where
  "only_default = \<lparr>ur_name = None, ur_description = None, ur_prompt = None, ur_model = None, ur_fallbacks = None, ur_tools = None,
     ur_skills = None, ur_max_tokens = None, ur_temperature = None, ur_max_iterations = None, ur_default = Some True,
     ur_status = None, ur_integrations = None\<rparr>"

text \<open>Making an agent the default by an update succeeds and changes nothing for the user: the earlier default
  keeps its flag and stays the one that is found.\<close>

theorem update_keeps_old_default:
  assumes "ids_ok ags" and "get_default u ags = Some d" and "own_agent u ident ags = Some a" and "u \<noteq> []"
    and "ags = xs @ d # ys" and "a \<in> set ys"
    and "\<And>r. r \<in> set ags \<Longrightarrow> ag_id r \<noteq> ident \<Longrightarrow> ag_user r = u \<Longrightarrow> ag_name r \<noteq> ag_name a"
  shows "agents_api uuid now u (UpdateAgent ident (Some only_default)) ags = (AgentShown (a\<lparr>ag_default := True, ag_updated := now\<rparr>),
      map (\<lambda>r. if ag_id r = ident then a\<lparr>ag_default := True, ag_created := ag_created r, ag_updated := now\<rparr> else r) ags)
    \<and> get_default u (snd (agents_api uuid now u (UpdateAgent ident (Some only_default)) ags)) = Some d"
proof -
  let ?f = "\<lambda>r. if ag_id r = ident then a\<lparr>ag_default := True, ag_created := ag_created r, ag_updated := now\<rparr> else r"
  have a: "get_agent ident ags = Some a" "ag_user a = u" "ag_id a = ident" using own_agent_Some [OF assms(3)] by simp_all
  have "apply_update only_default a = Inr (a\<lparr>ag_default := True\<rparr>)" by (simp add: apply_update_def only_default_def override_def)
  moreover have "map (\<lambda>r. if ag_id r = ident then a\<lparr>ag_default := True, ag_user := ag_user r, ag_created := ag_created r, ag_updated := now\<rparr> else r) ags = map ?f ags"
  proof (rule map_cong [OF refl])
    fix r assume "r \<in> set ags"
    then have "r = a" if "ag_id r = ident" using get_agent_unique [OF assms(1), of ident r] a that by auto
    then show "(if ag_id r = ident then a\<lparr>ag_default := True, ag_user := ag_user r, ag_created := ag_created r, ag_updated := now\<rparr> else r) = ?f r"
      using user_agent.surjective [of r] by auto
  qed
  moreover have "\<not> list_ex (\<lambda>r. ag_id r \<noteq> ident \<and> ag_user r = u \<and> ag_name r = ag_name a) ags"
    using assms(7) by (auto simp: list_ex_iff)
  ultimately have upd: "agents_api uuid now u (UpdateAgent ident (Some only_default)) ags = (AgentShown (a\<lparr>ag_default := True, ag_updated := now\<rparr>), map ?f ags)"
    using assms(3,4) a by (simp add: agents_api_def handle_update_def update_agent_def)
  have d: "ag_user d = u" "ag_default d" using assms(2) by (auto simp: get_default_def find_Some_iff)
  have "ag_id ` set (xs @ [d]) \<inter> ag_id ` set ys = {}" using assms(1) unfolding assms(5) ids_ok_def by auto
  then have ids: "ag_id r \<noteq> ident" if "r \<in> set (xs @ [d])" for r
    using imageI [OF assms(6), of ag_id] imageI [OF that, of ag_id] unfolding a(3) by (metis disjoint_iff)
  have "map ?f xs = xs" by (rule map_idI) (simp add: ids)
  moreover have "?f d = d" by (simp add: ids)
  moreover have "\<not> (ag_user r = u \<and> ag_default r)" if "r \<in> set xs" for r
  proof
    assume "ag_user r = u \<and> ag_default r"
    then obtain d' where "find (\<lambda>r. ag_user r = u \<and> ag_default r) xs = Some d'" "d' \<in> set xs"
      using find_exists [OF \<open>r \<in> set xs\<close>, of "\<lambda>r. ag_user r = u \<and> ag_default r"] by blast
    then have "get_default u ags = Some d'" unfolding assms(5) get_default_def
      by (blast intro: find_append_Some)
    then have "d \<in> set xs" using assms(2) \<open>d' \<in> set xs\<close> by simp
    then show False using assms(1) unfolding assms(5) ids_ok_def by simp
  qed
  then have "find (\<lambda>r. ag_user r = u \<and> ag_default r) (xs @ d # zs) = Some d" for zs
    using d by (intro find_append_None) simp_all
  ultimately show ?thesis unfolding upd by (simp add: get_default_def assms(5))
qed

lemma update_keeps_old_default_witness:
  "get_default ''u'' (snd (agents_api ''n'' 1 ''u'' (UpdateAgent ''b'' (Some only_default))
      [sample_agent ''a'' ''u'' True, sample_agent ''b'' ''u'' False])) = Some (sample_agent ''a'' ''u'' True)"
proof -
  let ?a = "sample_agent ''a'' ''u'' True" and ?b = "sample_agent ''b'' ''u'' False"
  have "ids_ok [?a, ?b]" "get_default ''u'' [?a, ?b] = Some ?a" "own_agent ''u'' ''b'' [?a, ?b] = Some ?b"
    by (simp_all add: ids_ok_def sample_agent_def get_default_def own_agent_def get_agent_def)
  moreover have "''u'' \<noteq> []" "[?a, ?b] = [] @ ?a # [?b]" "?b \<in> set [?b]" by simp_all
  moreover have "\<And>r. r \<in> set [?a, ?b] \<Longrightarrow> ag_id r \<noteq> ''b'' \<Longrightarrow> ag_user r = ''u'' \<Longrightarrow> ag_name r \<noteq> ag_name ?b"
    by (auto simp: sample_agent_def)
  ultimately show ?thesis by (rule update_keeps_old_default [THEN conjunct2])
qed

end
