(* ===== verification/Integrations.thy ===== *)
theory Integrations
  imports Json Time_Text "HOL-Library.AList"
begin

text \<open>
  Manifests of integrations with their registry (\<open>pkg/integrations/registry.go\<close>) and the filter that
  narrows an agent to some of their tools and scopes (\<open>scope_filter.go\<close>). The registry is a Go map; it is
  a list of its values here, and where the code ranges over the map the order is an argument.
\<close>

section \<open>Manifests\<close>

record dynamic_param =
  dp_label :: string
  dp_placeholder :: string
  dp_required :: bool
  dp_validation :: string

record oauth_config =
  oc_auth_url :: string
  oc_token_url :: string
  oc_scopes :: "string list"
  oc_use_pkce :: bool
  oc_params :: "(string \<times> dynamic_param) list"
  oc_extra :: "(string \<times> string) list"

record api_key_config =
  ak_header :: string
  ak_prefix :: string
  ak_label :: string

record tool_manifest =
  tm_name :: string
  tm_description :: string
  tm_parameters :: "(string \<times> json) list"
  tm_scopes :: "string list"
  tm_rate_limit :: int

record integration =
  ig_id :: string
  ig_name :: string
  ig_icon :: string
  ig_category :: string
  ig_description :: string
  ig_auth_type :: string
  ig_oauth :: "oauth_config option"
  ig_api_key :: "api_key_config option"
  ig_tools :: "tool_manifest list"
  ig_required_plan :: string
  ig_templates :: "string list"
  ig_status :: string
  ig_version :: string

datatype manifest_error =
    MissingManifest
  | MissingField string
  | BadAuthType string
  | BadManifestStatus string
  | ToolUndescribed string
  | DuplicateTool string
  | AlreadyRegistered string
  | BadManifestText

definition valid_auth_type :: "string \<Rightarrow> bool" where
  "valid_auth_type t \<longleftrightarrow> t \<in> {''oauth2'', ''api_key'', ''none''}"

definition valid_integration_status :: "string \<Rightarrow> bool" where
  "valid_integration_status s \<longleftrightarrow> s \<in> {''active'', ''beta'', ''deprecated'', []}"

definition validate_auth :: "integration \<Rightarrow> manifest_error option" where
  "validate_auth i =
     (if ig_auth_type i = ''oauth2''
      then (case ig_oauth i of
              None \<Rightarrow> Some (MissingField ''oauth'')
            | Some c \<Rightarrow>
                if oc_auth_url c = [] then Some (MissingField ''authorization_url'')
                else if oc_token_url c = [] then Some (MissingField ''token_url'') else None)
      else if ig_auth_type i = ''api_key''
      then (case ig_api_key i of
              None \<Rightarrow> Some (MissingField ''api_key_config'')
            | Some c \<Rightarrow> if ak_header c = [] then Some (MissingField ''header'') else None)
      else None)"

fun validate_tools :: "string list \<Rightarrow> tool_manifest list \<Rightarrow> manifest_error option" where
  "validate_tools seen [] = None"
| "validate_tools seen (t # ts) =
     (if tm_name t = [] then Some (MissingField ''tool name'')
      else if tm_description t = [] then Some (ToolUndescribed (tm_name t))
      else if tm_name t \<in> set seen then Some (DuplicateTool (tm_name t))
      else validate_tools (tm_name t # seen) ts)"

definition validate_manifest :: "integration \<Rightarrow> manifest_error option" where
  "validate_manifest i =
     (if ig_id i = [] then Some (MissingField ''ID'')
      else if ig_name i = [] then Some (MissingField ''name'')
      else if ig_category i = [] then Some (MissingField ''category'')
      else if ig_description i = [] then Some (MissingField ''description'')
      else if \<not> valid_auth_type (ig_auth_type i) then Some (BadAuthType (ig_auth_type i))
      else if \<not> valid_integration_status (ig_status i) then Some (BadManifestStatus (ig_status i))
      else case validate_auth i of Some e \<Rightarrow> Some e | None \<Rightarrow> validate_tools [] (ig_tools i))"

definition tool_names :: "integration \<Rightarrow> string list" where
  "tool_names i = map tm_name (ig_tools i)"

section \<open>The registry\<close>

type_synonym registry = "integration list"

definition get_integration :: "string \<Rightarrow> registry \<Rightarrow> integration option" where
  "get_integration ident reg = find (\<lambda>i. ig_id i = ident) reg"

definition register_integration :: "integration option \<Rightarrow> registry \<Rightarrow> manifest_error option \<times> registry" where
  "register_integration m reg =
     (case m of
        None \<Rightarrow> (Some MissingManifest, reg)
      | Some i \<Rightarrow>
          (case validate_manifest i of
             Some e \<Rightarrow> (Some e, reg)
           | None \<Rightarrow> if get_integration (ig_id i) reg \<noteq> None then (Some (AlreadyRegistered (ig_id i)), reg) else (None, reg @ [i])))"

definition replace_integration :: "integration option \<Rightarrow> registry \<Rightarrow> manifest_error option \<times> registry" where
  "replace_integration m reg =
     (case m of
        None \<Rightarrow> (Some MissingManifest, reg)
      | Some i \<Rightarrow>
          (case validate_manifest i of
             Some e \<Rightarrow> (Some e, reg)
           | None \<Rightarrow>
               (None, if get_integration (ig_id i) reg = None then reg @ [i]
                      else map (\<lambda>j. if ig_id j = ig_id i then i else j) reg)))"

definition remove_integration :: "string \<Rightarrow> registry \<Rightarrow> bool \<times> registry" where
  "remove_integration ident reg = (get_integration ident reg \<noteq> None, filter (\<lambda>i. ig_id i \<noteq> ident) reg)"

text \<open>\<open>LoadFromJSON\<close> and \<open>LoadMultipleFromJSON\<close>, from the manifests the text decodes to; a failure keeps what was
  registered before it.\<close>

definition load_one :: "integration option \<Rightarrow> registry \<Rightarrow> manifest_error option \<times> registry" where
  "load_one parsed reg = (case parsed of None \<Rightarrow> (Some BadManifestText, reg) | Some i \<Rightarrow> register_integration (Some i) reg)"

fun register_all :: "integration list \<Rightarrow> registry \<Rightarrow> manifest_error option \<times> registry" where
  "register_all [] reg = (None, reg)"
| "register_all (i # is) reg =
     (case register_integration (Some i) reg of (Some e, reg) \<Rightarrow> (Some e, reg) | (None, reg) \<Rightarrow> register_all is reg)"

definition load_multiple :: "integration list option \<Rightarrow> registry \<Rightarrow> manifest_error option \<times> registry" where
  "load_multiple parsed reg = (case parsed of None \<Rightarrow> (Some BadManifestText, reg) | Some is \<Rightarrow> register_all is reg)"

text \<open>The lists sort by identifier, which is unique, so the order of the map does not show in them.\<close>

definition list_integrations :: "registry \<Rightarrow> integration list" where
  "list_integrations reg = sort_key ig_id reg"

definition list_by_category :: "string \<Rightarrow> registry \<Rightarrow> integration list" where
  "list_by_category category reg = sort_key ig_id (filter (\<lambda>i. equal_fold (ig_category i) category) reg)"

definition list_active :: "registry \<Rightarrow> integration list" where
  "list_active reg = sort_key ig_id (filter (\<lambda>i. ig_status i = ''active'' \<or> ig_status i = []) reg)"

definition categories :: "registry \<Rightarrow> string list" where
  "categories reg = sort (remdups (map (\<lambda>i. to_lower (ig_category i)) reg))"

definition all_tool_names :: "registry \<Rightarrow> string list" where
  "all_tool_names reg = sort (concat (map tool_names reg))"

text \<open>\<open>order\<close> is the registry in the order in which the statement ranges over it.\<close>

fun get_tool_manifest :: "string \<Rightarrow> integration list \<Rightarrow> (tool_manifest \<times> string) option" where
  "get_tool_manifest name [] = None"
| "get_tool_manifest name (i # order) =
     (case find (\<lambda>t. tm_name t = name) (ig_tools i) of
        Some t \<Rightarrow> Some (t, ig_id i)
      | None \<Rightarrow> get_tool_manifest name order)"

section \<open>Scopes of agents\<close>

record integration_scope =
  as_integration :: string
  as_tools :: "string list"
  as_scopes :: "string list"

record scope_filter =
  sf_scopes :: "(string \<times> integration_scope) list"
  sf_open :: bool

record integration_tool =
  it_manifest :: tool_manifest
  it_integration :: string

definition new_scope_filter :: "integration_scope list \<Rightarrow> scope_filter" where
  "new_scope_filter scopes =
     (if scopes = [] then \<lparr>sf_scopes = [], sf_open = True\<rparr>
      else \<lparr>sf_scopes = fold (\<lambda>s m. AList.update (as_integration s) s m) scopes [], sf_open = False\<rparr>)"

definition integration_allowed :: "scope_filter \<Rightarrow> string \<Rightarrow> bool" where
  "integration_allowed f ident \<longleftrightarrow> sf_open f \<or> map_of (sf_scopes f) ident \<noteq> None"

definition tool_allowed :: "scope_filter \<Rightarrow> string \<Rightarrow> string \<Rightarrow> bool" where
  "tool_allowed f ident tool \<longleftrightarrow> sf_open f \<or>
     (case map_of (sf_scopes f) ident of None \<Rightarrow> False | Some s \<Rightarrow> as_tools s = [] \<or> tool \<in> set (as_tools s))"

definition scope_allowed :: "scope_filter \<Rightarrow> string \<Rightarrow> string \<Rightarrow> bool" where
  "scope_allowed f ident scope \<longleftrightarrow> sf_open f \<or>
     (case map_of (sf_scopes f) ident of None \<Rightarrow> False | Some s \<Rightarrow> as_scopes s = [] \<or> scope \<in> set (as_scopes s))"

definition filter_tools :: "scope_filter \<Rightarrow> integration_tool list \<Rightarrow> integration_tool list" where
  "filter_tools f tools =
     (if sf_open f then tools else filter (\<lambda>t. tool_allowed f (it_integration t) (tm_name (it_manifest t))) tools)"

text \<open>Each name comes with the order in which the registry is ranged over for it; without a registry nothing is
  known.\<close>

definition filter_tool_names :: "scope_filter \<Rightarrow> (string \<times> integration list) list \<Rightarrow> bool \<Rightarrow> string list" where
  "filter_tool_names f calls has_registry =
     (if sf_open f then map fst calls
      else if \<not> has_registry then []
      else map fst (filter (\<lambda>(name, order).
             case get_tool_manifest name order of None \<Rightarrow> False | Some (_, ident) \<Rightarrow> tool_allowed f ident name) calls))"

definition allowed_integration_ids :: "scope_filter \<Rightarrow> string list" where
  "allowed_integration_ids f = (if sf_open f then [] else sort (map fst (sf_scopes f)))"

definition get_scope :: "scope_filter \<Rightarrow> string \<Rightarrow> integration_scope option" where
  "get_scope f ident = (if sf_open f then None else map_of (sf_scopes f) ident)"

definition effective_scopes :: "scope_filter \<Rightarrow> string \<Rightarrow> string list \<Rightarrow> string list" where
  "effective_scopes f ident defaults =
     (if sf_open f then defaults
      else case map_of (sf_scopes f) ident of
             None \<Rightarrow> []
           | Some s \<Rightarrow> if as_scopes s = [] then defaults else filter (\<lambda>x. x \<in> set defaults) (as_scopes s))"

datatype scope_error =
    NoIntegrationId nat
  | DuplicateScope nat string
  | UnknownIntegration nat string
  | UnknownTool nat string
  | UnknownScope nat string

definition validate_names :: "nat \<Rightarrow> integration_scope \<Rightarrow> integration \<Rightarrow> scope_error option" where
  "validate_names n s i =
     (case find (\<lambda>t. t \<notin> set (tool_names i)) (as_tools s) of
        Some t \<Rightarrow> Some (UnknownTool n t)
      | None \<Rightarrow>
          (case ig_oauth i of
             None \<Rightarrow> None
           | Some c \<Rightarrow> map_option (UnknownScope n) (find (\<lambda>x. x \<notin> set (oc_scopes c)) (as_scopes s))))"

fun validate_scopes :: "registry option \<Rightarrow> nat \<Rightarrow> string list \<Rightarrow> integration_scope list \<Rightarrow> scope_error option" where
  "validate_scopes reg n seen [] = None"
| "validate_scopes reg n seen (s # ss) =
     (if as_integration s = [] then Some (NoIntegrationId n)
      else if as_integration s \<in> set seen then Some (DuplicateScope n (as_integration s))
      else
        case (case reg of
                None \<Rightarrow> None
              | Some reg \<Rightarrow>
                  (case get_integration (as_integration s) reg of
                     None \<Rightarrow> Some (UnknownIntegration n (as_integration s))
                   | Some i \<Rightarrow> validate_names n s i)) of
          Some e \<Rightarrow> Some e
        | None \<Rightarrow> validate_scopes reg (Suc n) (as_integration s # seen) ss)"

definition validate_agent_scopes :: "integration_scope list \<Rightarrow> registry option \<Rightarrow> scope_error option" where
  "validate_agent_scopes scopes reg = validate_scopes reg 0 [] scopes"

definition scope_summary :: "integration_scope list \<Rightarrow> string" where
  "scope_summary scopes =
     (if scopes = [] then ''open access (all integrations)''
      else concat (map2 (@) (map (\<lambda>i. if i = 0 then [] else '', '') [0..<length scopes])
        (map (\<lambda>s. if as_tools s = [] then as_integration s @ '' (all tools)''
                  else as_integration s @ '' ('' @ decimal (length (as_tools s)) @ '' tools)'') scopes)))"

section \<open>Lemmas\<close>

lemma get_integration_Some: "get_integration ident reg = Some i \<Longrightarrow> i \<in> set reg \<and> ig_id i = ident"
  unfolding get_integration_def by (auto simp: find_Some_iff)

lemma get_integration_None: "get_integration ident reg = None \<longleftrightarrow> ident \<notin> ig_id ` set reg"
  unfolding get_integration_def by (auto simp: find_None_iff)

text \<open>What the registry keeps: identifiers are unique, and every manifest passed the validation.\<close>

definition registry_ok :: "registry \<Rightarrow> bool" where
  "registry_ok reg \<longleftrightarrow> distinct (map ig_id reg) \<and> (\<forall>i \<in> set reg. validate_manifest i = None)"

lemma registry_ok_Nil [simp]: "registry_ok []"
  by (simp add: registry_ok_def)

lemma register_ok: "registry_ok reg \<Longrightarrow> registry_ok (snd (register_integration m reg))"
  by (auto simp: registry_ok_def register_integration_def get_integration_None split: option.splits)

lemma replace_ok:
  assumes "registry_ok reg"
  shows "registry_ok (snd (replace_integration m reg))"
proof -
  have "map ig_id (map (\<lambda>j. if ig_id j = ig_id i then i else j) reg) = map ig_id reg" for i by simp
  then show ?thesis using assms
    by (auto simp: registry_ok_def replace_integration_def get_integration_None simp del: map_map split: option.splits)
qed

lemma remove_ok: "registry_ok reg \<Longrightarrow> registry_ok (snd (remove_integration ident reg))"
  by (auto simp: registry_ok_def remove_integration_def distinct_map_filter)

lemma register_all_ok: "registry_ok reg \<Longrightarrow> registry_ok (snd (register_all is reg))"
proof (induction "is" reg rule: register_all.induct)
  case (2 i later reg)
  then show ?case using register_ok [OF "2.prems", of "Some i"] by (auto split: prod.splits option.splits)
qed simp

text \<open>The tools of a manifest that passed have distinct names.\<close>

lemma validate_tools_distinct: "validate_tools seen ts = None \<Longrightarrow> distinct (map tm_name ts) \<and> set (map tm_name ts) \<inter> set seen = {}"
  by (induction seen ts rule: validate_tools.induct) (auto split: if_splits)

lemma registry_tools_distinct: "registry_ok reg \<Longrightarrow> i \<in> set reg \<Longrightarrow> distinct (tool_names i)"
  using validate_tools_distinct [of "[]"]
  by (fastforce simp: registry_ok_def validate_manifest_def tool_names_def split: if_splits option.splits)

text \<open>A tool is looked up in the first integration that has it.\<close>

lemma get_tool_manifest_None: "get_tool_manifest name order = None \<longleftrightarrow> (\<forall>i \<in> set order. name \<notin> set (tool_names i))"
  by (induction name order rule: get_tool_manifest.induct) (auto simp: tool_names_def find_None_iff find_Some_iff split: option.splits)

lemma get_tool_manifest_Some:
  "get_tool_manifest name order = Some (t, ident) \<Longrightarrow> \<exists>i \<in> set order. ig_id i = ident \<and> name \<in> set (tool_names i)"
  by (induction name order rule: get_tool_manifest.induct) (auto simp: tool_names_def find_Some_iff split: option.splits)

text \<open>The map of a filter holds the last entry of each integration.\<close>

lemma find_snoc: "find p (xs @ [y]) = (case find p xs of Some x \<Rightarrow> Some x | None \<Rightarrow> if p y then Some y else None)"
  by (induction xs) auto

lemma map_of_filter_scopes:
  "map_of (fold (\<lambda>s m. AList.update (as_integration s) s m) scopes m) ident
     = (case find (\<lambda>s. as_integration s = ident) (rev scopes) of Some s \<Rightarrow> Some s | None \<Rightarrow> map_of m ident)"
proof (induction scopes arbitrary: m)
  case (Cons s scopes)
  show ?case by (simp add: Cons.IH update_conv find_snoc split: option.split)
qed simp

lemma new_filter_lookup:
  "scopes \<noteq> [] \<Longrightarrow> map_of (sf_scopes (new_scope_filter scopes)) ident = find (\<lambda>s. as_integration s = ident) (rev scopes)"
  by (simp add: new_scope_filter_def map_of_filter_scopes split: option.splits)

lemma new_filter_open [simp]: "sf_open (new_scope_filter scopes) \<longleftrightarrow> scopes = []"
  by (simp add: new_scope_filter_def)

lemma new_filter_entry:
  assumes "distinct (map as_integration scopes)" and "s \<in> set scopes"
  shows "map_of (sf_scopes (new_scope_filter scopes)) (as_integration s) = Some s"
proof -
  have "find (\<lambda>r. as_integration r = as_integration s) xs = Some s" if "distinct (map as_integration xs)" "s \<in> set xs" for xs
    using that by (induction xs) (auto simp: rev_image_eqI)
  from this [of "rev scopes"] have "find (\<lambda>r. as_integration r = as_integration s) (rev scopes) = Some s"
    using assms by (simp add: rev_map [symmetric])
  moreover have "scopes \<noteq> []" using assms(2) by auto
  ultimately show ?thesis by (simp add: new_filter_lookup)
qed

text \<open>What the validation of the scopes of an agent gives.\<close>

lemma validate_scopes_ok:
  assumes "validate_scopes (Some reg) n seen ss = None"
  shows "distinct (map as_integration ss) \<and> set (map as_integration ss) \<inter> set seen = {}
    \<and> (\<forall>s \<in> set ss. \<exists>i. get_integration (as_integration s) reg = Some i \<and> set (as_tools s) \<subseteq> set (tool_names i)
        \<and> (\<forall>c. ig_oauth i = Some c \<longrightarrow> set (as_scopes s) \<subseteq> set (oc_scopes c)))"
  using assms
proof (induction ss arbitrary: n seen)
  case (Cons s ss)
  from Cons.prems obtain i where i: "get_integration (as_integration s) reg = Some i" and names: "validate_names n s i = None"
    and new: "as_integration s \<notin> set seen" and rest: "validate_scopes (Some reg) (Suc n) (as_integration s # seen) ss = None"
    by (auto split: if_splits option.splits)
  have "set (as_tools s) \<subseteq> set (tool_names i)" "\<forall>c. ig_oauth i = Some c \<longrightarrow> set (as_scopes s) \<subseteq> set (oc_scopes c)"
    using names by (auto simp: validate_names_def find_None_iff split: option.splits)
  with Cons.IH [OF rest] i new show ?case by auto
qed simp

section \<open>Properties\<close>

text \<open>Where no two integrations share the name of a tool, an agent keeps exactly the names of tools of its integrations
  that its scopes allow, whatever the order in which the registry is ranged over.\<close>

theorem filtered_names_exact:
  assumes "scopes \<noteq> []"
    and unshared: "\<And>i j name. i \<in> set reg \<Longrightarrow> j \<in> set reg \<Longrightarrow> name \<in> set (tool_names i) \<Longrightarrow> name \<in> set (tool_names j) \<Longrightarrow> i = j"
    and orders: "\<And>name order. (name, order) \<in> set calls \<Longrightarrow> set order = set reg"
  shows "filter_tool_names (new_scope_filter scopes) calls True
    = filter (\<lambda>name. \<exists>i \<in> set reg. name \<in> set (tool_names i) \<and> tool_allowed (new_scope_filter scopes) (ig_id i) name) (map fst calls)"
proof -
  let ?f = "new_scope_filter scopes"
  have "(case get_tool_manifest name order of None \<Rightarrow> False | Some (_, ident) \<Rightarrow> tool_allowed ?f ident name)
      \<longleftrightarrow> (\<exists>i \<in> set reg. name \<in> set (tool_names i) \<and> tool_allowed ?f (ig_id i) name)" if call: "(name, order) \<in> set calls" for name order
  proof (cases "get_tool_manifest name order")
    case None
    then have "\<forall>i \<in> set reg. name \<notin> set (tool_names i)" unfolding get_tool_manifest_None orders [OF call] .
    then show ?thesis using None by auto
  next
    case (Some r)
    moreover obtain t ident where r: "r = (t, ident)" by (cases r)
    ultimately have "\<exists>i \<in> set order. ig_id i = ident \<and> name \<in> set (tool_names i)" using get_tool_manifest_Some by blast
    then obtain i where ident: "ident = ig_id i" and i: "i \<in> set reg" "name \<in> set (tool_names i)" unfolding orders [OF call] by blast
    have "(\<exists>j \<in> set reg. name \<in> set (tool_names j) \<and> tool_allowed ?f (ig_id j) name) \<longleftrightarrow> tool_allowed ?f (ig_id i) name"
      using i unshared by blast
    then show ?thesis by (simp add: Some r ident)
  qed
  then have "filter (\<lambda>(name, order). case get_tool_manifest name order of None \<Rightarrow> False | Some (_, ident) \<Rightarrow> tool_allowed ?f ident name) calls
      = filter ((\<lambda>name. \<exists>i \<in> set reg. name \<in> set (tool_names i) \<and> tool_allowed ?f (ig_id i) name) \<circ> fst) calls"
    by (intro filter_cong) auto
  then show ?thesis using assms(1) by (simp add: filter_tool_names_def filter_map)
qed

definition sample_integration :: "string \<Rightarrow> string list \<Rightarrow> string list \<Rightarrow> integration" where
  "sample_integration ident names scopes = \<lparr>ig_id = ident, ig_name = ident, ig_icon = [], ig_category = ''mail'', ig_description = ident,
     ig_auth_type = ''oauth2'', ig_oauth = Some \<lparr>oc_auth_url = ''a'', oc_token_url = ''t'', oc_scopes = scopes, oc_use_pkce = False, oc_params = [], oc_extra = []\<rparr>,
     ig_api_key = None, ig_tools = map (\<lambda>n. \<lparr>tm_name = n, tm_description = n, tm_parameters = [], tm_scopes = [], tm_rate_limit = 0\<rparr>) names,
     ig_required_plan = [], ig_templates = [], ig_status = [], ig_version = []\<rparr>"

definition only_scope :: "string \<Rightarrow> string list \<Rightarrow> string list \<Rightarrow> integration_scope" where
  "only_scope ident names scopes = \<lparr>as_integration = ident, as_tools = names, as_scopes = scopes\<rparr>"

lemma filtered_names_exact_witness:
  "filter_tool_names (new_scope_filter [only_scope ''a'' [''x''] []])
     [(''x'', [sample_integration ''b'' [''z''] [], sample_integration ''a'' [''x'', ''y''] []]),
      (''y'', [sample_integration ''a'' [''x'', ''y''] [], sample_integration ''b'' [''z''] []]), (''z'', [sample_integration ''a'' [''x'', ''y''] [], sample_integration ''b'' [''z''] []])]
     True = [''x'']"
proof -
  let ?a = "sample_integration ''a'' [''x'', ''y''] []" and ?b = "sample_integration ''b'' [''z''] []"
  let ?calls = "[(''x'', [?b, ?a]), (''y'', [?a, ?b]), (''z'', [?a, ?b])]"
  have names: "tool_names ?a = [''x'', ''y'']" "tool_names ?b = [''z'']" "ig_id ?a = ''a''" "ig_id ?b = ''b''"
    by (simp_all add: tool_names_def sample_integration_def)
  have "filter_tool_names (new_scope_filter [only_scope ''a'' [''x''] []]) ?calls True
      = filter (\<lambda>name. \<exists>i \<in> set [?a, ?b]. name \<in> set (tool_names i) \<and> tool_allowed (new_scope_filter [only_scope ''a'' [''x''] []]) (ig_id i) name) (map fst ?calls)"
    by (rule filtered_names_exact) (use names in auto)
  also have "\<dots> = [''x'']" by (simp add: names tool_allowed_def new_scope_filter_def only_scope_def)
  finally show ?thesis .
qed

text \<open>Scopes that pass the validation take effect as they are written: of the integration of each entry the tools it names are
  allowed, or all, and the scopes it names, or the defaults, are requested.\<close>

theorem validated_scopes_take_effect:
  assumes "validate_agent_scopes scopes (Some reg) = None" and "s \<in> set scopes"
    and "get_integration (as_integration s) reg = Some i" and "ig_oauth i = Some c"
  shows "effective_scopes (new_scope_filter scopes) (as_integration s) (oc_scopes c) = (if as_scopes s = [] then oc_scopes c else as_scopes s)
    \<and> set (as_scopes s) \<subseteq> set (oc_scopes c) \<and> set (as_tools s) \<subseteq> set (tool_names i)
    \<and> (tool_allowed (new_scope_filter scopes) (as_integration s) tool \<longleftrightarrow> as_tools s = [] \<or> tool \<in> set (as_tools s))"
proof -
  note valid = validate_scopes_ok [OF assms(1) [unfolded validate_agent_scopes_def]]
  have "\<exists>i. get_integration (as_integration s) reg = Some i \<and> set (as_tools s) \<subseteq> set (tool_names i)
      \<and> (\<forall>c. ig_oauth i = Some c \<longrightarrow> set (as_scopes s) \<subseteq> set (oc_scopes c))"
    using valid assms(2) by blast
  then have ok: "distinct (map as_integration scopes)" "set (as_tools s) \<subseteq> set (tool_names i)" "set (as_scopes s) \<subseteq> set (oc_scopes c)"
    using valid assms(3,4) by simp_all
  have nonempty: "scopes \<noteq> []" using assms(2) by auto
  have "filter (\<lambda>x. x \<in> set (oc_scopes c)) (as_scopes s) = as_scopes s" using ok(3) by (auto simp: filter_id_conv)
  then show ?thesis using ok(2,3) nonempty new_filter_entry [OF ok(1) assms(2)]
    by (simp add: effective_scopes_def tool_allowed_def)
qed

lemma validated_scopes_take_effect_witness:
  "effective_scopes (new_scope_filter [only_scope ''a'' [''x''] [''r'']]) ''a'' [''r'', ''w''] = [''r'']"
proof -
  let ?i = "sample_integration ''a'' [''x''] [''r'', ''w'']" and ?s = "only_scope ''a'' [''x''] [''r'']"
  let ?c = "\<lparr>oc_auth_url = ''a'', oc_token_url = ''t'', oc_scopes = [''r'', ''w''], oc_use_pkce = False, oc_params = [], oc_extra = []\<rparr>"
  have "validate_agent_scopes [?s] (Some [?i]) = None" "?s \<in> set [?s]" "get_integration (as_integration ?s) [?i] = Some ?i" "ig_oauth ?i = Some ?c"
    by (simp_all add: validate_agent_scopes_def validate_names_def get_integration_def sample_integration_def only_scope_def tool_names_def)
  from validated_scopes_take_effect [OF this] show ?thesis by (simp add: only_scope_def)
qed

text \<open>Two integrations may have a tool of the same name; then the order of the map decides whether an agent has it.\<close>

lemma shared_name_depends_on_order:
  "filter_tool_names (new_scope_filter [only_scope ''a'' [] []])
       [(''x'', [sample_integration ''a'' [''x''] [], sample_integration ''b'' [''x''] []])] True = [''x'']
   \<and> filter_tool_names (new_scope_filter [only_scope ''a'' [] []])
       [(''x'', [sample_integration ''b'' [''x''] [], sample_integration ''a'' [''x''] []])] True = []
   \<and> registry_ok [sample_integration ''a'' [''x''] [], sample_integration ''b'' [''x''] []]"
  by (simp add: filter_tool_names_def new_scope_filter_def only_scope_def sample_integration_def tool_allowed_def registry_ok_def
      validate_manifest_def validate_auth_def valid_auth_type_def valid_integration_status_def)

end
