(* ===== verification/Integration_Tools.thy ===== *)
theory Integration_Tools
  imports Integrations
begin

text \<open>
  The tools of integrations (\<open>pkg/integrations/tool_adapter.go\<close>): their registration with the agent, the executor that
  turns a call into an HTTP request, and the tables of endpoints of Google and Shopify (\<open>google/executor.go\<close>,
  \<open>shopify/executor.go\<close>). The HTTP client, the resolver of tokens, the parsing of URLs and the writing of JSON are
  arguments of the executor; texts are bytes.
\<close>

section \<open>Registration\<close>

type_synonym tool_table = "string \<Rightarrow> integration_tool option"

definition register_tools :: "registry \<Rightarrow> string \<Rightarrow> tool_table \<Rightarrow> nat \<times> tool_table" where
  "register_tools reg ident tools =
     (case get_integration ident reg of
        None \<Rightarrow> (0, tools)
      | Some i \<Rightarrow> (length (ig_tools i),
                  fold (\<lambda>m tools. tools(tm_name m \<mapsto> \<lparr>it_manifest = m, it_integration = ident\<rparr>)) (ig_tools i) tools))"

definition register_all_tools :: "registry \<Rightarrow> tool_table \<Rightarrow> nat \<times> tool_table" where
  "register_all_tools reg tools =
     fold (\<lambda>i (n, tools). case register_tools reg (ig_id i) tools of (k, tools) \<Rightarrow> (n + k, tools)) (list_integrations reg) (0, tools)"

section \<open>What \<open>fmt.Fscanf\<close> takes from a reader\<close>

text \<open>The number of bytes read for a rune: as many as its first byte announces, or up to the byte that cannot
  follow, or to the end.\<close>

definition rune_length :: "nat \<Rightarrow> nat" where
  "rune_length b = (if 0xC2 \<le> b \<and> b \<le> 0xDF then 2 else if 0xE0 \<le> b \<and> b \<le> 0xEF then 3 else if 0xF0 \<le> b \<and> b \<le> 0xF4 then 4 else 1)"

definition second_ok :: "nat \<Rightarrow> nat \<Rightarrow> bool" where
  "second_ok b c \<longleftrightarrow> (if b = 0xE0 then 0xA0 else if b = 0xF0 then 0x90 else 0x80) \<le> c
     \<and> c \<le> (if b = 0xED then 0x9F else if b = 0xF4 then 0x8F else 0xBF)"

definition rune_bytes :: "nat list \<Rightarrow> nat" where
  "rune_bytes bs =
     (case bs of
        [] \<Rightarrow> 0
      | [b] \<Rightarrow> 1
      | [b, c] \<Rightarrow> if rune_length b = 1 then 1 else 2
      | b # c # d # rest \<Rightarrow>
          if rune_length b = 1 then 1
          else if \<not> second_ok b c \<or> rune_length b = 2 then 2
          else if d < 0x80 \<or> 0xBF < d \<or> rune_length b = 3 \<or> rest = [] then 3 else 4)"

text \<open>The white space of Unicode, one byte or more.\<close>

definition scan_space :: "nat list \<Rightarrow> bool" where
  "scan_space bs \<longleftrightarrow> (case bs of
        [b] \<Rightarrow> 9 \<le> b \<and> b \<le> 13 \<or> b = 32
      | [b, c] \<Rightarrow> b = 0xC2 \<and> (c = 0x85 \<or> c = 0xA0)
      | [b, c, d] \<Rightarrow>
          b = 0xE1 \<and> c = 0x9A \<and> d = 0x80
          \<or> b = 0xE2 \<and> c = 0x80 \<and> (0x80 \<le> d \<and> d \<le> 0x8A \<or> d = 0xA8 \<or> d = 0xA9 \<or> d = 0xAF)
          \<or> b = 0xE2 \<and> c = 0x81 \<and> d = 0x9F
          \<or> b = 0xE3 \<and> c = 0x80 \<and> d = 0x80
      | _ \<Rightarrow> False)"

lemma rune_bytes_pos: "bs \<noteq> [] \<Longrightarrow> 0 < rune_bytes bs"
  by (auto simp: rune_bytes_def split: list.splits)

text \<open>What is left of a reader after \<open>Fscanf\<close> with the verb \<open>%s\<close> and an argument it cannot scan into: white space is
  skipped, a line end stops it, and a rune that is not white space was read to see that and is lost, since the
  body of a response has no \<open>UnreadRune\<close>.\<close>

function after_scan :: "string \<Rightarrow> string" where
  "after_scan s =
     (let bs = map of_char s; n = rune_bytes bs
      in if s = [] then []
         else if hd bs = (10::nat) then tl s
         else if scan_space (take n bs) then after_scan (drop n s)
         else drop n s)"
  by pat_completeness auto

termination
  by (relation "measure length") (auto simp: rune_bytes_pos Let_def)

declare after_scan.simps [simp del]

section \<open>The executor\<close>

datatype exec_error =
    NoUser
  | NoTokenResolver
  | TokenFailed string
  | NoEndpointResolver
  | EndpointFailed string
  | BadRequest
  | SendFailed string
  | ApiError int string

record http_request =
  rq_method :: string
  rq_url :: string
  rq_token :: string
  rq_json :: "string option"

text \<open>The bytes of a response that arrive before its end or an error of the connection.\<close>

record http_response =
  rp_status :: int
  rp_bytes :: string
  rp_broken :: bool

record 'w http_executor =
  hx_base :: "(string \<Rightarrow> string) option"
  hx_token :: "(string \<Rightarrow> string \<Rightarrow> 'w \<Rightarrow> (string + string) \<times> 'w) option"
  hx_endpoint :: "(string \<Rightarrow> string \<Rightarrow> string + string \<times> string) option"
  hx_write :: "(string \<times> json) list \<Rightarrow> string"
  hx_url_ok :: "string \<Rightarrow> bool"
  hx_send :: "http_request \<Rightarrow> 'w \<Rightarrow> (string + http_response) \<times> 'w"

definition sends_body :: "string \<Rightarrow> bool" where
  "sends_body meth \<longleftrightarrow> meth \<in> {''POST'', ''PUT'', ''PATCH''}"

definition read_reply :: "http_response \<Rightarrow> exec_error + string" where
  "read_reply r =
     (let text = after_scan (rp_bytes r) in if 400 \<le> rp_status r then Inl (ApiError (rp_status r) text) else Inr text)"

definition http_execute ::
  "'w http_executor \<Rightarrow> string \<Rightarrow> string \<Rightarrow> string \<Rightarrow> (string \<times> json) list \<Rightarrow> 'w \<Rightarrow> (exec_error + string) \<times> 'w" where
  "http_execute x user_id ident tool args w =
     (if user_id = [] then (Inl NoUser, w)
      else
        case hx_token x of
          None \<Rightarrow> (Inl NoTokenResolver, w)
        | Some resolve_token \<Rightarrow>
            (case resolve_token user_id ident w of
               (Inl e, w) \<Rightarrow> (Inl (TokenFailed e), w)
             | (Inr token, w) \<Rightarrow>
                 (case hx_endpoint x of
                    None \<Rightarrow> (Inl NoEndpointResolver, w)
                  | Some endpoint \<Rightarrow>
                      (case endpoint ident tool of
                         Inl e \<Rightarrow> (Inl (EndpointFailed e), w)
                       | Inr (meth, path) \<Rightarrow>
                           let url = (case hx_base x of None \<Rightarrow> [] | Some base \<Rightarrow> base ident) @ path
                           in if \<not> hx_url_ok x url then (Inl BadRequest, w)
                              else
                                case hx_send x \<lparr>rq_method = meth, rq_url = url, rq_token = token,
                                       rq_json = (if sends_body meth then Some (hx_write x args) else None)\<rparr> w of
                                  (Inl e, w) \<Rightarrow> (Inl (SendFailed e), w)
                                | (Inr r, w) \<Rightarrow> (read_reply r, w)))))"

datatype call_error = NoExecutor string string | ExecutorFailed string exec_error

definition call_integration_tool ::
  "'w http_executor option \<Rightarrow> string \<Rightarrow> integration_tool \<Rightarrow> (string \<times> json) list \<Rightarrow> 'w \<Rightarrow> (call_error + string) \<times> 'w" where
  "call_integration_tool x user_id t args w =
     (case x of
        None \<Rightarrow> (Inl (NoExecutor (it_integration t) (tm_name (it_manifest t))), w)
      | Some x \<Rightarrow>
          (case http_execute x user_id (it_integration t) (tm_name (it_manifest t)) args w of
             (Inl e, w) \<Rightarrow> (Inl (ExecutorFailed (tm_name (it_manifest t)) e), w)
           | (Inr text, w) \<Rightarrow> (Inr text, w)))"

section \<open>Endpoints\<close>

fun replace_all :: "string \<Rightarrow> string \<Rightarrow> string \<Rightarrow> string" where
  "replace_all old new [] = []"
| "replace_all old new (c # s) =
     (if old \<noteq> [] \<and> has_prefix (c # s) old then new @ replace_all old new (drop (length old - 1) s)
      else c # replace_all old new s)"

definition hex_digit :: "nat \<Rightarrow> char" where
  "hex_digit n = ''0123456789ABCDEF'' ! n"

definition path_char :: "char \<Rightarrow> bool" where
  "path_char c \<longleftrightarrow> c \<in> set ''-_.~$&+=:@'' \<or> (CHR ''0'' \<le> c \<and> c \<le> CHR ''9'')
     \<or> (CHR ''A'' \<le> c \<and> c \<le> CHR ''Z'') \<or> (CHR ''a'' \<le> c \<and> c \<le> CHR ''z'')"

definition path_escape :: "string \<Rightarrow> string" where
  "path_escape s = concat (map (\<lambda>c. if path_char c then [c] else [CHR ''%'', hex_digit (of_char c div 16), hex_digit (of_char c mod 16)]) s)"

type_synonym endpoints = "(string \<times> string \<times> string) list"

definition gmail_endpoints :: endpoints where
  "gmail_endpoints =
     [(''gmail_list_messages'', ''GET'', ''/gmail/v1/users/me/messages''),
      (''gmail_get_message'', ''GET'', ''/gmail/v1/users/me/messages/{message_id}''),
      (''gmail_send_message'', ''POST'', ''/gmail/v1/users/me/messages/send''),
      (''gmail_search_messages'', ''GET'', ''/gmail/v1/users/me/messages''),
      (''gmail_list_labels'', ''GET'', ''/gmail/v1/users/me/labels''),
      (''gmail_modify_labels'', ''POST'', ''/gmail/v1/users/me/messages/{message_id}/modify''),
      (''gmail_trash_message'', ''POST'', ''/gmail/v1/users/me/messages/{message_id}/trash'')]"

definition drive_endpoints :: endpoints where
  "drive_endpoints =
     [(''drive_list_files'', ''GET'', ''/drive/v3/files''),
      (''drive_get_file'', ''GET'', ''/drive/v3/files/{file_id}''),
      (''drive_search_files'', ''GET'', ''/drive/v3/files''),
      (''drive_get_content'', ''GET'', ''/drive/v3/files/{file_id}''),
      (''drive_create_file'', ''POST'', ''/drive/v3/files''),
      (''drive_create_folder'', ''POST'', ''/drive/v3/files''),
      (''drive_delete_file'', ''PATCH'', ''/drive/v3/files/{file_id}'')]"

definition calendar_endpoints :: endpoints where
  "calendar_endpoints =
     [(''calendar_list_events'', ''GET'', ''/calendar/v3/calendars/{calendar_id}/events''),
      (''calendar_get_event'', ''GET'', ''/calendar/v3/calendars/{calendar_id}/events/{event_id}''),
      (''calendar_create_event'', ''POST'', ''/calendar/v3/calendars/{calendar_id}/events''),
      (''calendar_update_event'', ''PATCH'', ''/calendar/v3/calendars/{calendar_id}/events/{event_id}''),
      (''calendar_delete_event'', ''DELETE'', ''/calendar/v3/calendars/{calendar_id}/events/{event_id}''),
      (''calendar_list_calendars'', ''GET'', ''/calendar/v3/users/me/calendarList''),
      (''calendar_quick_add'', ''POST'', ''/calendar/v3/calendars/{calendar_id}/events/quickAdd'')]"

definition google_endpoints :: endpoints where
  "google_endpoints = gmail_endpoints @ drive_endpoints @ calendar_endpoints"

definition product_endpoints :: endpoints where
  "product_endpoints =
     [(''shopify_list_products'', ''GET'', ''/admin/api/2024-10/products.json''),
      (''shopify_get_product'', ''GET'', ''/admin/api/2024-10/products/{product_id}.json''),
      (''shopify_create_product'', ''POST'', ''/admin/api/2024-10/products.json''),
      (''shopify_update_product'', ''PUT'', ''/admin/api/2024-10/products/{product_id}.json''),
      (''shopify_delete_product'', ''DELETE'', ''/admin/api/2024-10/products/{product_id}.json''),
      (''shopify_count_products'', ''GET'', ''/admin/api/2024-10/products/count.json''),
      (''shopify_search_products'', ''GET'', ''/admin/api/2024-10/products.json'')]"

definition order_endpoints :: endpoints where
  "order_endpoints =
     [(''shopify_list_orders'', ''GET'', ''/admin/api/2024-10/orders.json''),
      (''shopify_get_order'', ''GET'', ''/admin/api/2024-10/orders/{order_id}.json''),
      (''shopify_count_orders'', ''GET'', ''/admin/api/2024-10/orders/count.json''),
      (''shopify_close_order'', ''POST'', ''/admin/api/2024-10/orders/{order_id}/close.json''),
      (''shopify_cancel_order'', ''POST'', ''/admin/api/2024-10/orders/{order_id}/cancel.json''),
      (''shopify_create_order'', ''POST'', ''/admin/api/2024-10/orders.json''),
      (''shopify_update_order'', ''PUT'', ''/admin/api/2024-10/orders/{order_id}.json'')]"

definition customer_endpoints :: endpoints where
  "customer_endpoints =
     [(''shopify_list_customers'', ''GET'', ''/admin/api/2024-10/customers.json''),
      (''shopify_get_customer'', ''GET'', ''/admin/api/2024-10/customers/{customer_id}.json''),
      (''shopify_create_customer'', ''POST'', ''/admin/api/2024-10/customers.json''),
      (''shopify_update_customer'', ''PUT'', ''/admin/api/2024-10/customers/{customer_id}.json''),
      (''shopify_search_customers'', ''GET'', ''/admin/api/2024-10/customers/search.json''),
      (''shopify_count_customers'', ''GET'', ''/admin/api/2024-10/customers/count.json''),
      (''shopify_customer_orders'', ''GET'', ''/admin/api/2024-10/customers/{customer_id}/orders.json'')]"

definition shopify_endpoints :: endpoints where
  "shopify_endpoints = product_endpoints @ order_endpoints @ customer_endpoints"

text \<open>\<open>ResolveEndpoint\<close>; the arguments come in the order in which their map is ranged over.\<close>

definition fill_parameter :: "string \<times> json \<Rightarrow> string \<Rightarrow> string" where
  "fill_parameter arg p =
     (let placeholder = ''{'' @ fst arg @ ''}''
      in if contains p placeholder
         then (case snd arg of JString s \<Rightarrow> replace_all placeholder (path_escape s) p | _ \<Rightarrow> p) else p)"

definition finish_path :: "string \<Rightarrow> string \<Rightarrow> string + string \<times> string" where
  "finish_path meth p = (if contains p ''{'' then Inl ''unresolved path parameters'' else Inr (meth, p))"

definition resolve_shopify :: "string \<Rightarrow> (string \<times> json) list \<Rightarrow> string + string \<times> string" where
  "resolve_shopify tool args =
     (case map_of shopify_endpoints tool of
        None \<Rightarrow> Inl ''unknown tool''
      | Some (meth, p) \<Rightarrow> finish_path meth (fold fill_parameter args p))"

definition calendar_of :: "(string \<times> json) list \<Rightarrow> string" where
  "calendar_of args = (case map_of args ''calendar_id'' of Some (JString v) \<Rightarrow> if v \<noteq> [] then v else ''primary'' | _ \<Rightarrow> ''primary'')"

definition resolve_google :: "string \<Rightarrow> (string \<times> json) list \<Rightarrow> string + string \<times> string" where
  "resolve_google tool args =
     (case map_of google_endpoints tool of
        None \<Rightarrow> Inl ''unknown tool''
      | Some (meth, p) \<Rightarrow>
          let p = (if contains p ''{calendar_id}'' then replace_all ''{calendar_id}'' (path_escape (calendar_of args)) p else p)
          in finish_path meth (fold fill_parameter args p))"

definition google_base :: "string \<Rightarrow> string" where
  "google_base ident = (if ident = ''google_gmail'' then ''https://gmail.googleapis.com'' else ''https://www.googleapis.com'')"

definition shopify_base :: "string \<Rightarrow> string" where
  "shopify_base shop = (if shop = [] then ''https://unknown.myshopify.com'' else ''https://'' @ shop @ ''.myshopify.com'')"

text \<open>The executors the two packages build; what belongs to the library is that of \<open>x\<close>.\<close>

definition google_executor :: "(string \<Rightarrow> string \<Rightarrow> 'w \<Rightarrow> (string + string) \<times> 'w) \<Rightarrow> 'w http_executor \<Rightarrow> 'w http_executor" where
  "google_executor resolve_token x =
     x\<lparr>hx_base := Some google_base, hx_token := Some resolve_token,
       hx_endpoint := Some (\<lambda>ident tool.
         case map_of google_endpoints tool of
           None \<Rightarrow> Inl ''unknown Google tool''
         | Some (meth, p) \<Rightarrow> Inr (meth, if contains p ''{calendar_id}'' then replace_all ''{calendar_id}'' ''primary'' p else p))\<rparr>"

definition shopify_executor :: "(string \<Rightarrow> string \<Rightarrow> 'w \<Rightarrow> (string + string) \<times> 'w) \<Rightarrow> 'w http_executor \<Rightarrow> 'w http_executor" where
  "shopify_executor resolve_token x =
     x\<lparr>hx_base := Some (\<lambda>ident. []), hx_token := Some resolve_token,
       hx_endpoint := Some (\<lambda>ident tool.
         case map_of shopify_endpoints tool of None \<Rightarrow> Inl ''unknown Shopify tool'' | Some r \<Rightarrow> Inr r)\<rparr>"

section \<open>Lemmas\<close>

lemma after_scan_Nil [simp]: "after_scan [] = []"
  by (simp add: after_scan.simps)

text \<open>What is lost: white space that holds no line end, and then one rune, a line end or none that is white space.\<close>

definition one_rune :: "string \<Rightarrow> string \<Rightarrow> bool" where
  "one_rune x rest \<longleftrightarrow> x \<noteq> [] \<and> length x = rune_bytes (map of_char (x @ rest))"

definition blank_rune :: "string \<Rightarrow> bool" where
  "blank_rune x \<longleftrightarrow> scan_space (map of_char x) \<and> hd x \<noteq> CHR 0x0A"

lemma rune_bytes_le: "rune_bytes bs \<le> length bs"
  by (auto simp: rune_bytes_def Suc_le_eq split: list.split)

lemma after_scan_parts:
  "\<exists>blanks lost. s = concat blanks @ lost @ after_scan s \<and> list_all blank_rune blanks
     \<and> (lost = [] \<and> after_scan s = [] \<or> lost = [CHR 0x0A]
        \<or> one_rune lost (after_scan s) \<and> \<not> scan_space (map of_char lost))"
proof (induction s rule: after_scan.induct)
  case (1 s)
  let ?bs = "map of_char s :: nat list"
  let ?n = "rune_bytes ?bs"
  show ?case
  proof (cases "s = []")
    case True
    then show ?thesis by (intro exI [of _ "[]"]) simp
  next
    case False
    then obtain c cs where s: "s = c # cs" by (cases s) auto
    have n: "0 < ?n" "?n \<le> length s" using rune_bytes_pos [of ?bs] rune_bytes_le [of ?bs] False by simp_all
    have code: "(of_char c = (10 :: nat)) = (c = CHR 0x0A)"
      using inj_onD [OF inj_of_char, of c "CHR 0x0A"] by (auto simp: of_char_def)
    show ?thesis
    proof (cases "hd ?bs = 10")
      case True
      then have "c = CHR 0x0A" using code s by simp
      moreover have "after_scan s = cs" unfolding after_scan.simps [of s] Let_def using True s by (simp del: list.map list.sel) simp
      ultimately have "c = CHR 0x0A" "after_scan s = cs" by simp_all
      then show ?thesis using s by (intro exI [of _ "[]"] exI [of _ "[c]"]) simp
    next
      case nl: False
      show ?thesis
      proof (cases "scan_space (take ?n ?bs)")
        case True
        have eq: "after_scan s = after_scan (drop ?n s)" using nl True False by (simp add: after_scan.simps [of s] Let_def)
        from "1.IH" [OF refl refl False nl True] obtain blanks lost where
          ih: "drop ?n s = concat blanks @ lost @ after_scan (drop ?n s)" "list_all blank_rune blanks"
            "lost = [] \<and> after_scan (drop ?n s) = [] \<or> lost = [CHR 0x0A]
             \<or> one_rune lost (after_scan (drop ?n s)) \<and> \<not> scan_space (map of_char lost)" by blast
        have "hd (take ?n s) = c" using n s by (cases ?n) simp_all
        then have "hd (take ?n s) \<noteq> CHR 0x0A" using nl s code by simp
        then have "blank_rune (take ?n s)" using True unfolding blank_rune_def by (simp only: take_map) simp
        moreover have "s = concat (take ?n s # blanks) @ lost @ after_scan s"
          using ih(1) append_take_drop_id [of ?n s] unfolding eq by simp
        ultimately show ?thesis using ih(2,3) unfolding eq
          by (intro exI [of _ "take ?n s # blanks"] exI [of _ lost]) simp
      next
        case nsp: False
        have eq: "after_scan s = drop ?n s" using nl nsp False by (simp add: after_scan.simps [of s] Let_def)
        have "one_rune (take ?n s) (drop ?n s)" using n False by (simp add: one_rune_def)
        then show ?thesis using nsp unfolding eq
          by (intro exI [of _ "[]"] exI [of _ "take ?n s"]) (simp only: take_map, simp)
      qed
    qed
  qed
qed

lemma after_scan_shorter: "s \<noteq> [] \<Longrightarrow> length (after_scan s) < length s"
proof (induction s rule: after_scan.induct)
  case (1 s)
  let ?bs = "map of_char s :: nat list"
  have pos: "0 < rune_bytes ?bs" using "1.prems" by (simp add: rune_bytes_pos)
  have "length (after_scan (drop (rune_bytes ?bs) s)) < length s"
    if "hd ?bs \<noteq> 10" "scan_space (take (rune_bytes ?bs) ?bs)"
  proof (cases "drop (rune_bytes ?bs) s = []")
    case False
    with "1.IH" [OF refl refl "1.prems" that] have "length (after_scan (drop (rune_bytes ?bs) s)) < length (drop (rune_bytes ?bs) s)" by simp
    then show ?thesis by simp
  qed (use "1.prems" in simp)
  then show ?case using "1.prems" pos by (simp add: after_scan.simps [of s] Let_def)
qed

lemma after_scan_ascii:
  assumes "of_char c < (128 :: nat)" and "\<not> ((9 :: nat) \<le> of_char c \<and> of_char c \<le> (13 :: nat))" and "of_char c \<noteq> (32 :: nat)"
  shows "after_scan (c # rest) = rest"
proof -
  have "rune_length (of_char c) = 1" using assms(1) by (simp add: rune_length_def)
  then have "rune_bytes (map of_char (c # rest)) = 1" by (simp add: rune_bytes_def split: list.split)
  then show ?thesis using assms by (auto simp: after_scan.simps [of "c # rest"] Let_def scan_space_def)
qed

text \<open>The letters a segment of a path is escaped to hold neither a brace nor a slash.\<close>

lemma hex_digit_plain: "n < 16 \<Longrightarrow> hex_digit n \<in> set ''0123456789ABCDEF''"
  unfolding hex_digit_def by (rule nth_mem) simp

lemma escaped_cases: "c \<in> set (if p then [a] else [d, x, y]) \<Longrightarrow> x \<in> H \<Longrightarrow> y \<in> H \<Longrightarrow> p \<and> c = a \<or> c = d \<or> c \<in> H"
  by (auto split: if_splits)

lemma path_escape_plain: "c \<in> set (path_escape s) \<Longrightarrow> c \<notin> set ''{}/?#''"
proof -
  assume "c \<in> set (path_escape s)"
  then obtain a where "c \<in> set (if path_char a then [a] else [CHR ''%'', hex_digit (of_char a div 16), hex_digit (of_char a mod 16)])"
    unfolding path_escape_def set_concat set_map by blast
  moreover have "hex_digit (of_char a div 16) \<in> set ''0123456789ABCDEF''" "hex_digit (of_char a mod 16) \<in> set ''0123456789ABCDEF''"
    using nat_of_char_less_256 [of a] by (intro hex_digit_plain; linarith)+
  ultimately have "path_char a \<and> c = a \<or> c = CHR ''%'' \<or> c \<in> set ''0123456789ABCDEF''" by (rule escaped_cases)
  moreover have "path_char c \<Longrightarrow> c \<notin> set ''{}/?#''" by (auto simp: path_char_def less_eq_char_def)
  moreover have "c \<in> set ''0123456789ABCDEF'' \<Longrightarrow> c \<notin> set ''{}/?#''" by fastforce
  ultimately show ?thesis by auto
qed

text \<open>A request that is answered, with the token of its user for its integration.\<close>

lemma http_execute_Inr:
  assumes "http_execute x u ident tool args w = (Inr answer, w')"
  obtains resolve meth path w1 r req where "hx_token x = Some resolve" "resolve u ident w = (Inr (rq_token req), w1)"
    "rq_url req = (case hx_base x of None \<Rightarrow> [] | Some base \<Rightarrow> base ident) @ path" "rq_method req = meth"
    "rq_json req = (if sends_body meth then Some (hx_write x args) else None)"
    "the (hx_endpoint x) ident tool = Inr (meth, path)" "hx_send x req w1 = (Inr r, w')" "read_reply r = Inr answer"
proof -
  from assms obtain resolve token w1 endpoint meth path where
    parts: "hx_token x = Some resolve" "resolve u ident w = (Inr token, w1)" "hx_endpoint x = Some endpoint" "endpoint ident tool = Inr (meth, path)"
    by (auto simp: http_execute_def split: if_splits option.splits prod.splits sum.splits)
  let ?req = "\<lparr>rq_method = meth, rq_url = (case hx_base x of None \<Rightarrow> [] | Some base \<Rightarrow> base ident) @ path, rq_token = token,
      rq_json = (if sends_body meth then Some (hx_write x args) else None)\<rparr>"
  from assms parts obtain r where "hx_send x ?req w1 = (Inr r, w')" "read_reply r = Inr answer"
    by (auto simp: http_execute_def Let_def split: if_splits prod.splits sum.splits)
  then show thesis using parts by (intro that [of resolve ?req w1 path meth r]) simp_all
qed

lemma google_template: "map_of google_endpoints tool = Some (meth, p) \<Longrightarrow>
    (if contains p ''{calendar_id}'' then replace_all ''{calendar_id}'' ''primary'' p else p) = replace_all ''{calendar_id}'' ''primary'' p"
  by (auto simp: google_endpoints_def gmail_endpoints_def drive_endpoints_def calendar_endpoints_def split: if_splits)

section \<open>Properties\<close>

text \<open>Property C10: The answer a tool gets is what the integration replied, with a status below 400, to a request with the
  user's own token for it, without the white space at its front and without the one character that follows, whether that
  is a line end, which ends the skipping, or the first character that is not white space; a reply of nothing but white
  space other than line ends gives nothing. A JSON object or array loses its opening bracket.\<close>

theorem answer_without_first_character:
  assumes "http_execute x u ident tool args w = (Inr answer, w')"
  shows "\<exists>resolve w1 req r blanks lost. hx_token x = Some resolve \<and> resolve u ident w = (Inr (rq_token req), w1)
    \<and> hx_send x req w1 = (Inr r, w') \<and> rp_status r < 400
    \<and> rp_bytes r = concat blanks @ lost @ answer \<and> list_all blank_rune blanks
    \<and> (lost = [] \<and> answer = [] \<or> lost = [CHR 0x0A] \<or> one_rune lost answer \<and> \<not> scan_space (map of_char lost))
    \<and> (\<forall>rest. rp_bytes r = CHR ''{'' # rest \<or> rp_bytes r = CHR ''['' # rest \<longrightarrow> answer = rest)"
proof -
  from http_execute_Inr [OF assms] obtain resolve w1 req r where
    sent: "hx_token x = Some resolve" "resolve u ident w = (Inr (rq_token req), w1)" "hx_send x req w1 = (Inr r, w')" and reply: "read_reply r = Inr answer"
    by metis
  from reply have ok: "rp_status r < 400" and ans: "answer = after_scan (rp_bytes r)" by (auto simp: read_reply_def Let_def split: if_splits)
  moreover have "\<forall>rest. rp_bytes r = CHR ''{'' # rest \<or> rp_bytes r = CHR ''['' # rest \<longrightarrow> answer = rest"
    unfolding ans by (auto simp: after_scan_ascii)
  ultimately show ?thesis using sent after_scan_parts [of "rp_bytes r"] unfolding ans by blast
qed

definition sample_http :: "unit http_executor" where
  "sample_http = \<lparr>hx_base = None, hx_token = None, hx_endpoint = None, hx_write = (\<lambda>_. ''{}''), hx_url_ok = (\<lambda>_. True),
     hx_send = (\<lambda>req w. if has_prefix (rq_url req) ''http'' then (Inr \<lparr>rp_status = 200, rp_bytes = ''{}'', rp_broken = False\<rparr>, w) else (Inl ''scheme'', w))\<rparr>"

lemma answer_without_first_character_witness:
  "fst (http_execute (google_executor (\<lambda>u ident w. (Inr ''t'', w)) sample_http) ''u'' ''google_gmail'' ''gmail_list_labels'' [] ()) = Inr ''}''"
proof -
  let ?x = "google_executor (\<lambda>u ident w. (Inr ''t'', w)) sample_http"
  have reply: "hx_send ?x req w = (Inr r, w') \<Longrightarrow> rp_bytes r = ''{}''" for req w r w'
    by (auto simp: google_executor_def sample_http_def split: if_splits)
  obtain answer where run: "http_execute ?x ''u'' ''google_gmail'' ''gmail_list_labels'' [] () = (Inr answer, ())"
    by (simp add: http_execute_def google_executor_def google_endpoints_def gmail_endpoints_def sample_http_def google_base_def read_reply_def)
  from answer_without_first_character [OF this] obtain req w r w1 where "hx_send ?x req w = (Inr r, w1)"
    "\<forall>rest. rp_bytes r = CHR ''{'' # rest \<or> rp_bytes r = CHR ''['' # rest \<longrightarrow> answer = rest" by metis
  with reply have "answer = ''}''" by fastforce
  then show ?thesis using run by simp
qed

text \<open>What a model asks of a Google tool that reads or removes never gets to Google: the request is the same for all
  arguments, and where the endpoint names an identifier the request holds the placeholder.\<close>

theorem google_reads_ignore_arguments:
  assumes "map_of google_endpoints tool = Some (meth, p)" and "meth \<in> {''GET'', ''DELETE''}"
  shows "http_execute (google_executor rt x) u ident tool args w = http_execute (google_executor rt x) u ident tool args' w
    \<and> (\<forall>answer w'. http_execute (google_executor rt x) u ident tool args w = (Inr answer, w') \<longrightarrow>
         (\<exists>req w1 r. hx_send x req w1 = (Inr r, w') \<and> rq_json req = None
            \<and> rq_url req = google_base ident @ replace_all ''{calendar_id}'' ''primary'' p))"
proof -
  have "http_execute (google_executor rt x) u ident tool args w = http_execute (google_executor rt x) u ident tool args' w"
    using assms by (auto simp: http_execute_def google_executor_def sends_body_def Let_def split: option.splits prod.splits sum.splits)
  moreover have "\<exists>req w1 r. hx_send x req w1 = (Inr r, w') \<and> rq_json req = None \<and> rq_url req = google_base ident @ replace_all ''{calendar_id}'' ''primary'' p"
    if run: "http_execute (google_executor rt x) u ident tool args w = (Inr answer, w')" for answer w'
    using run by (rule http_execute_Inr)
      (use assms google_template [OF assms(1)] in \<open>auto simp: google_executor_def sends_body_def split: if_splits\<close>)
  ultimately show ?thesis by blast
qed

lemma google_reads_ignore_arguments_witness:
  "\<exists>req w1 r. hx_send sample_http req w1 = (Inr r, ()) \<and> rq_url req = ''https://www.googleapis.com/drive/v3/files/{file_id}''"
proof -
  let ?x = "google_executor (\<lambda>u ident w. (Inr ''t'', w)) sample_http"
  have "map_of google_endpoints ''drive_get_file'' = Some (''GET'', ''/drive/v3/files/{file_id}'')" "''GET'' \<in> {''GET'', ''DELETE''}"
    by (simp_all add: google_endpoints_def gmail_endpoints_def drive_endpoints_def)
  note ignores = google_reads_ignore_arguments [OF this, THEN conjunct2, rule_format]
  obtain answer where "http_execute ?x ''u'' ''google_drive'' ''drive_get_file'' [(''file_id'', JString ''f'')] () = (Inr answer, ())"
    by (simp add: http_execute_def google_executor_def google_endpoints_def gmail_endpoints_def drive_endpoints_def sample_http_def google_base_def read_reply_def)
  from ignores [OF this] show ?thesis by (auto simp: google_base_def)
qed

text \<open>Every call of a Shopify tool fails: the request has a path for its URL, without scheme and shop, and a client sends no
  request without a scheme.\<close>

lemma shopify_paths: "map_of shopify_endpoints tool = Some (meth, p) \<Longrightarrow> has_prefix p ''/admin/''"
  by (auto simp: shopify_endpoints_def product_endpoints_def order_endpoints_def customer_endpoints_def split: if_splits)

lemma shopify_calls_fail:
  assumes "\<And>req w. \<not> has_prefix (rq_url req) ''http'' \<Longrightarrow> isl (fst (hx_send x req w))"
  shows "isl (fst (http_execute (shopify_executor rt x) u ident tool args w))"
proof (rule ccontr)
  assume "\<not> ?thesis"
  then obtain answer w' where "http_execute (shopify_executor rt x) u ident tool args w = (Inr answer, w')"
    by (cases "http_execute (shopify_executor rt x) u ident tool args w"; cases "fst (http_execute (shopify_executor rt x) u ident tool args w)") auto
  then obtain meth path req w1 r where "map_of shopify_endpoints tool = Some (meth, path)" "rq_url req = path" "hx_send x req w1 = (Inr r, w')"
    by (rule http_execute_Inr) (auto simp: shopify_executor_def split: option.splits)
  moreover from this have "has_prefix path ''/admin/''" by (intro shopify_paths)
  then have "\<not> has_prefix path ''http''" by (cases path) auto
  ultimately show False using assms [of req w1] by simp
qed

end
