(* ===== verification/Integration_Store.thy ===== *)
theory Integration_Store
  imports Time_Text
begin

text \<open>
  The integrations of users (\<open>pkg/integrations/store.go\<close>): the table, with one row for each user and integration.
  A row keeps its configuration and scopes as lists, since their JSON text reads back as it was written.
\<close>

record user_integration =
  ui_id :: string
  ui_user :: string
  ui_integration :: string
  ui_status :: string
  ui_config :: "(string \<times> string) list"
  ui_scopes :: "string list"
  ui_error :: string
  ui_last_used :: "time option"
  ui_created :: time
  ui_updated :: time

datatype ui_error = UiMissing | UiField string | UiStatus string | UiConnected string | UiNotFound

abbreviation (input) ui_pending :: string where "ui_pending \<equiv> ''pending''"
abbreviation (input) ui_active :: string where "ui_active \<equiv> ''active''"
abbreviation (input) ui_failed :: string where "ui_failed \<equiv> ''failed''"
abbreviation (input) ui_disabled :: string where "ui_disabled \<equiv> ''disabled''"

definition valid_ui_status :: "string \<Rightarrow> bool" where
  "valid_ui_status s \<longleftrightarrow> s \<in> {''pending'', ''active'', ''failed'', ''revoked'', ''disabled''}"

definition ui_of :: "string \<Rightarrow> string \<Rightarrow> user_integration \<Rightarrow> bool" where
  "ui_of user_id ident r \<longleftrightarrow> ui_user r = user_id \<and> ui_integration r = ident"

definition ui_keys :: "string \<Rightarrow> string \<Rightarrow> ui_error option" where
  "ui_keys user_id ident =
     (if user_id = [] then Some (UiField ''user_id'') else if ident = [] then Some (UiField ''integration_id'') else None)"

definition ui_create :: "string \<Rightarrow> time \<Rightarrow> user_integration option \<Rightarrow> user_integration list \<Rightarrow> (ui_error + user_integration) \<times> user_integration list" where
  "ui_create uuid now ui rows =
     (case ui of
        None \<Rightarrow> (Inl UiMissing, rows)
      | Some u \<Rightarrow>
          (case ui_keys (ui_user u) (ui_integration u) of
             Some e \<Rightarrow> (Inl e, rows)
           | None \<Rightarrow>
               let u = (if ui_status u = [] then u\<lparr>ui_status := ui_pending\<rparr> else u)
               in if \<not> valid_ui_status (ui_status u) then (Inl (UiStatus (ui_status u)), rows)
                  else
                    let u = u\<lparr>ui_id := if ui_id u = [] then uuid else ui_id u, ui_created := now, ui_updated := now\<rparr>
                    in if list_ex (\<lambda>r. ui_id r = ui_id u \<or> ui_of (ui_user u) (ui_integration u) r) rows
                       then (Inl (UiConnected (ui_integration u)), rows) else (Inr u, rows @ [u])))"

definition ui_get :: "string \<Rightarrow> string \<Rightarrow> user_integration list \<Rightarrow> ui_error + user_integration" where
  "ui_get user_id ident rows =
     (case ui_keys user_id ident of
        Some e \<Rightarrow> Inl e
      | None \<Rightarrow> (case find (ui_of user_id ident) rows of None \<Rightarrow> Inl UiNotFound | Some r \<Rightarrow> Inr r))"

definition ui_get_by_id :: "string \<Rightarrow> user_integration list \<Rightarrow> ui_error + user_integration" where
  "ui_get_by_id i rows =
     (if i = [] then Inl (UiField ''id'')
      else case find (\<lambda>r. ui_id r = i) rows of None \<Rightarrow> Inl UiNotFound | Some r \<Rightarrow> Inr r)"

definition ui_list :: "string \<Rightarrow> string \<Rightarrow> user_integration list \<Rightarrow> ui_error + user_integration list" where
  "ui_list user_id status rows =
     (if user_id = [] then Inl (UiField ''user_id'')
      else if status \<noteq> [] \<and> \<not> valid_ui_status status then Inl (UiStatus status)
      else Inr (sort_key (\<lambda>r. stamp (ui_created r)) (filter (\<lambda>r. ui_user r = user_id \<and> (status = [] \<or> ui_status r = status)) rows)))"

definition ui_update :: "time \<Rightarrow> user_integration option \<Rightarrow> user_integration list \<Rightarrow> ui_error option \<times> user_integration list" where
  "ui_update now ui rows =
     (case ui of
        None \<Rightarrow> (Some UiMissing, rows)
      | Some u \<Rightarrow>
          if ui_id u = [] then (Some (UiField ''id''), rows)
          else if ui_status u \<noteq> [] \<and> \<not> valid_ui_status (ui_status u) then (Some (UiStatus (ui_status u)), rows)
          else if \<not> list_ex (\<lambda>r. ui_id r = ui_id u) rows then (Some UiNotFound, rows)
          else (None, map (\<lambda>r. if ui_id r = ui_id u
                               then r\<lparr>ui_status := ui_status u, ui_config := ui_config u, ui_scopes := ui_scopes u, ui_error := ui_error u,
                                      ui_last_used := ui_last_used u, ui_updated := now\<rparr> else r) rows))"

definition ui_update_status :: "time \<Rightarrow> string \<Rightarrow> string \<Rightarrow> string \<Rightarrow> string \<Rightarrow> user_integration list \<Rightarrow> ui_error option \<times> user_integration list" where
  "ui_update_status now user_id ident status text rows =
     (case ui_keys user_id ident of
        Some e \<Rightarrow> (Some e, rows)
      | None \<Rightarrow>
          if \<not> valid_ui_status status then (Some (UiStatus status), rows)
          else if \<not> list_ex (ui_of user_id ident) rows then (Some UiNotFound, rows)
          else (None, map (\<lambda>r. if ui_of user_id ident r then r\<lparr>ui_status := status, ui_error := text, ui_updated := now\<rparr> else r) rows))"

definition ui_delete :: "string \<Rightarrow> string \<Rightarrow> user_integration list \<Rightarrow> ui_error option \<times> user_integration list" where
  "ui_delete user_id ident rows =
     (case ui_keys user_id ident of
        Some e \<Rightarrow> (Some e, rows)
      | None \<Rightarrow>
          if \<not> list_ex (ui_of user_id ident) rows then (Some UiNotFound, rows)
          else (None, filter (\<lambda>r. \<not> ui_of user_id ident r) rows))"

definition ui_record_usage :: "time \<Rightarrow> string \<Rightarrow> string \<Rightarrow> user_integration list \<Rightarrow> ui_error option \<times> user_integration list" where
  "ui_record_usage now user_id ident rows =
     (case ui_keys user_id ident of
        Some e \<Rightarrow> (Some e, rows)
      | None \<Rightarrow>
          if \<not> list_ex (ui_of user_id ident) rows then (Some UiNotFound, rows)
          else (None, map (\<lambda>r. if ui_of user_id ident r then r\<lparr>ui_last_used := Some now, ui_updated := now\<rparr> else r) rows))"

definition ui_count :: "string \<Rightarrow> user_integration list \<Rightarrow> ui_error + nat" where
  "ui_count user_id rows = (if user_id = [] then Inl (UiField ''user_id'') else Inr (length (filter (\<lambda>r. ui_user r = user_id) rows)))"

section \<open>Lemmas\<close>

text \<open>What the table keeps: identifiers and pairs of user and integration are unique, and statuses are known ones.\<close>

definition ui_rows_ok :: "user_integration list \<Rightarrow> bool" where
  "ui_rows_ok rows \<longleftrightarrow> distinct (map ui_id rows) \<and> distinct (map (\<lambda>r. (ui_user r, ui_integration r)) rows)
     \<and> (\<forall>r \<in> set rows. valid_ui_status (ui_status r))"

lemma ui_rows_ok_Nil [simp]: "ui_rows_ok []"
  by (simp add: ui_rows_ok_def)

lemma valid_ui_statuses [simp]:
  "valid_ui_status ''pending''" "valid_ui_status ''active''" "valid_ui_status ''failed''" "valid_ui_status ''revoked''" "valid_ui_status ''disabled''"
  by (simp_all add: valid_ui_status_def)

text \<open>A map that keeps identifiers and pairs, and writes known statuses.\<close>

lemma ui_rows_ok_map:
  assumes "ui_rows_ok rows"
    and "\<And>r. ui_id (f r) = ui_id r \<and> ui_user (f r) = ui_user r \<and> ui_integration (f r) = ui_integration r"
    and "\<And>r. r \<in> set rows \<Longrightarrow> valid_ui_status (ui_status (f r))"
  shows "ui_rows_ok (map f rows)"
  using assms by (simp add: ui_rows_ok_def comp_def)

lemma ui_rows_ok_filter: "ui_rows_ok rows \<Longrightarrow> ui_rows_ok (filter p rows)"
  by (simp add: ui_rows_ok_def distinct_map_filter)

lemma ui_create_ok: "ui_rows_ok rows \<Longrightarrow> ui_rows_ok (snd (ui_create uuid now u rows))"
  by (auto simp: ui_create_def ui_rows_ok_def list_ex_iff ui_of_def Let_def split: option.splits)

lemma ui_update_status_ok: "ui_rows_ok rows \<Longrightarrow> ui_rows_ok (snd (ui_update_status now user_id ident status text rows))"
  by (auto simp: ui_update_status_def split: option.splits intro!: ui_rows_ok_map) (simp_all add: ui_rows_ok_def)

lemma ui_delete_ok: "ui_rows_ok rows \<Longrightarrow> ui_rows_ok (snd (ui_delete user_id ident rows))"
  by (auto simp: ui_delete_def ui_rows_ok_filter split: option.splits)

lemma ui_record_usage_ok: "ui_rows_ok rows \<Longrightarrow> ui_rows_ok (snd (ui_record_usage now user_id ident rows))"
  by (auto simp: ui_record_usage_def split: option.splits intro!: ui_rows_ok_map) (simp_all add: ui_rows_ok_def)

lemma ui_get_Inr: "ui_get user_id ident rows = Inr r \<Longrightarrow> r \<in> set rows \<and> ui_user r = user_id \<and> ui_integration r = ident \<and> user_id \<noteq> [] \<and> ident \<noteq> []"
  by (auto simp: ui_get_def ui_keys_def ui_of_def dest!: find_Some_set split: option.splits if_splits)

lemma ui_get_row:
  "ui_rows_ok rows \<Longrightarrow> user_id \<noteq> [] \<Longrightarrow> ident \<noteq> [] \<Longrightarrow> r \<in> set rows \<Longrightarrow> ui_user r = user_id \<Longrightarrow> ui_integration r = ident
    \<Longrightarrow> ui_get user_id ident rows = Inr r"
proof -
  assume a: "ui_rows_ok rows" "user_id \<noteq> []" "ident \<noteq> []" "r \<in> set rows" "ui_user r = user_id" "ui_integration r = ident"
  have "find (ui_of user_id ident) rows = Some r"
    using a(1,4,5,6) unfolding ui_rows_ok_def ui_of_def by (induction rows) force+
  then show ?thesis using a(2,3) by (simp add: ui_get_def ui_keys_def)
qed

end
