(* ===== verification/Integration_Management.thy ===== *)
theory Integration_Management
  imports Integrations Integration_Store Token_Refresh
begin

text \<open>
  The endpoints that connect users with integrations (\<open>pkg/integrations/management_api.go\<close>, \<open>api.go\<close>), over the registry, the
  table of integrations of users, the OAuth flows, the vault of credentials and the retries of their refreshing. Bodies arrive
  decoded and a handler is one step; the parts a deployment may leave out are \<open>None\<close>.
\<close>

section \<open>State and requests\<close>

record 'w integration_env =
  ie_registry :: registry
  ie_store :: bool
  ie_oauth :: "'w oauth_service option"
  ie_vault :: "vault_keys option"
  ie_refresh :: "'w refresh_manager option"
  ie_flow_text :: "oauth_error \<Rightarrow> string"

record 'w integration_state =
  is_rows :: "user_integration list"
  is_flows :: "oauth_state list"
  is_refresh :: "'w refresh_state"

text \<open>What a call draws: identifiers and random bytes, and the time.\<close>

record call_draws =
  cd_uuid :: string
  cd_token :: "string option"
  cd_verifier :: "string option"
  cd_flow :: "string option"
  cd_vault :: "string option"
  cd_salt :: "string option"
  cd_nonce :: "string option"
  cd_now :: time

record connect_request =
  cq_integration :: string
  cq_config :: "(string \<times> string) list"
  cq_scopes :: "string list"
  cq_redirect :: string
  cq_api_key :: string

record token_status =
  ts_access :: bool
  ts_refresh :: bool
  ts_expires :: "time option"
  ts_expired :: bool
  ts_needs_refresh :: bool
  ts_status :: string

record integration_status =
  st_row :: user_integration
  st_known :: "(string \<times> string \<times> string) option"
  st_token :: "token_status option"
  st_retries :: "refresh_status option"

datatype manage_reply =
    ManageFailure nat string
  | ConnectStarted string "(string \<times> string) list"
  | ConnectDone string
  | DisconnectDone string
  | StatusReply integration_status
  | StatusListReply "integration_status list"
  | StatusChanged string string
  | ConfigReply string "(string \<times> string) list"
  | RowReply user_integration
  | RowListReply "user_integration list"
  | DeletedReply

definition ui_failure :: "ui_error \<Rightarrow> manage_reply" where
  "ui_failure e = (case e of UiNotFound \<Rightarrow> ManageFailure 404 ''not_found'' | _ \<Rightarrow> ManageFailure 500 ''internal'')"

section \<open>Connecting\<close>

text \<open>The row of a connection: a new one, or the one there was with its status alone.\<close>

definition record_connection ::
  "call_draws \<Rightarrow> string \<Rightarrow> string \<Rightarrow> string \<Rightarrow> (string \<times> string) list \<Rightarrow> string list \<Rightarrow> user_integration option \<Rightarrow> user_integration list
     \<Rightarrow> ui_error option \<times> user_integration list" where
  "record_connection d user_id ident status config scopes existing rows =
     (case existing of
        None \<Rightarrow>
          (case ui_create (cd_uuid d) (cd_now d)
                  (Some \<lparr>ui_id = [], ui_user = user_id, ui_integration = ident, ui_status = status, ui_config = config, ui_scopes = scopes,
                         ui_error = [], ui_last_used = None, ui_created = 0, ui_updated = 0\<rparr>) rows of
             (Inl e, rows) \<Rightarrow> (Some e, rows)
           | (Inr _, rows) \<Rightarrow> (None, rows))
      | Some _ \<Rightarrow> ui_update_status (cd_now d) user_id ident status [] rows)"

text \<open>The flow that connecting and reconnecting start, with the row already pending.\<close>

definition begin_flow ::
  "'w integration_env \<Rightarrow> 'w oauth_service \<Rightarrow> call_draws \<Rightarrow> string \<Rightarrow> string \<Rightarrow> string list \<Rightarrow> string \<Rightarrow> 'w integration_state
     \<Rightarrow> manage_reply \<times> 'w integration_state" where
  "begin_flow env sv d user_id ident scopes redirect st =
     (case start_flow sv user_id ident scopes redirect (cd_token d) (cd_verifier d) (cd_flow d) (cd_now d) (is_flows st) of
        (Inl e, flows) \<Rightarrow>
          (ManageFailure 502 ''oauth_error'',
           st\<lparr>is_flows := flows, is_rows := snd (ui_update_status (cd_now d) user_id ident ui_failed (ie_flow_text env e) (is_rows st))\<rparr>)
      | (Inr r, flows) \<Rightarrow> (ConnectStarted ident (sf_params r), st\<lparr>is_flows := flows\<rparr>))"

definition connect_oauth ::
  "'w integration_env \<Rightarrow> call_draws \<Rightarrow> string \<Rightarrow> integration \<Rightarrow> connect_request \<Rightarrow> user_integration option \<Rightarrow> 'w integration_state
     \<Rightarrow> manage_reply \<times> 'w integration_state" where
  "connect_oauth env d user_id i req existing st =
     (case ie_oauth env of
        None \<Rightarrow> (ManageFailure 503 ''oauth_not_configured'', st)
      | Some sv \<Rightarrow>
          (case record_connection d user_id (ig_id i) ui_pending (cq_config req) (cq_scopes req) existing (is_rows st) of
             (Some _, rows) \<Rightarrow> (ManageFailure 500 ''internal'', st\<lparr>is_rows := rows\<rparr>)
           | (None, rows) \<Rightarrow> begin_flow env sv d user_id (ig_id i) (cq_scopes req) (cq_redirect req) (st\<lparr>is_rows := rows\<rparr>)))"

definition store_api_key ::
  "'w integration_env \<Rightarrow> call_draws \<Rightarrow> string \<Rightarrow> integration \<Rightarrow> connect_request \<Rightarrow> vault_row list \<Rightarrow> vault_error option \<times> vault_row list" where
  "store_api_key env d user_id i req vault =
     (case ie_vault env of
        None \<Rightarrow> (None, vault)
      | Some k \<Rightarrow>
          (case vault_store k (cd_vault d) (cd_salt d) (cd_nonce d) (cd_now d)
                  \<lparr>vc_id = [], vc_user = user_id, vc_provider = ig_id i, vc_access = cq_api_key req, vc_refresh = [], vc_type = ''api_key'',
                   vc_id_token = [], vc_scopes = [], vc_label = ig_name i, vc_status = ''active'', vc_expires = None, vc_created = None,
                   vc_updated = None\<rparr> vault of
             (e, _, vault) \<Rightarrow> (e, vault)))"

definition connect_api_key ::
  "'w integration_env \<Rightarrow> call_draws \<Rightarrow> string \<Rightarrow> integration \<Rightarrow> connect_request \<Rightarrow> user_integration option \<Rightarrow> 'w integration_state
     \<Rightarrow> manage_reply \<times> 'w integration_state" where
  "connect_api_key env d user_id i req existing st =
     (if cq_api_key req = [] then (ManageFailure 400 ''missing_api_key'', st)
      else
        case store_api_key env d user_id i req (rs_rows (is_refresh st)) of
          (Some _, vault) \<Rightarrow> (ManageFailure 500 ''internal'', st\<lparr>is_refresh := (is_refresh st)\<lparr>rs_rows := vault\<rparr>\<rparr>)
        | (None, vault) \<Rightarrow>
            let st = st\<lparr>is_refresh := (is_refresh st)\<lparr>rs_rows := vault\<rparr>\<rparr>
            in case record_connection d user_id (ig_id i) ui_active (cq_config req) (cq_scopes req) existing (is_rows st) of
                 (Some _, rows) \<Rightarrow> (ManageFailure 500 ''internal'', st\<lparr>is_rows := rows\<rparr>)
               | (None, rows) \<Rightarrow> (ConnectDone (ig_id i), st\<lparr>is_rows := rows\<rparr>))"

definition connect_no_auth ::
  "call_draws \<Rightarrow> string \<Rightarrow> integration \<Rightarrow> connect_request \<Rightarrow> user_integration option \<Rightarrow> 'w integration_state
     \<Rightarrow> manage_reply \<times> 'w integration_state" where
  "connect_no_auth d user_id i req existing st =
     (case record_connection d user_id (ig_id i) ui_active (cq_config req) [] existing (is_rows st) of
        (Some _, rows) \<Rightarrow> (ManageFailure 500 ''internal'', st\<lparr>is_rows := rows\<rparr>)
      | (None, rows) \<Rightarrow> (ConnectDone (ig_id i), st\<lparr>is_rows := rows\<rparr>))"

definition handle_connect ::
  "'w integration_env \<Rightarrow> call_draws \<Rightarrow> string \<Rightarrow> connect_request option \<Rightarrow> 'w integration_state \<Rightarrow> manage_reply \<times> 'w integration_state" where
  "handle_connect env d user_id body st =
     (case body of
        None \<Rightarrow> (ManageFailure 400 ''invalid_json'', st)
      | Some req \<Rightarrow>
          if cq_integration req = [] then (ManageFailure 400 ''missing_integration_id'', st)
          else
            case get_integration (cq_integration req) (ie_registry env) of
              None \<Rightarrow> (ManageFailure 404 ''integration_not_found'', st)
            | Some i \<Rightarrow>
                let existing = (case ui_get user_id (cq_integration req) (is_rows st) of Inl _ \<Rightarrow> None | Inr r \<Rightarrow> Some r)
                in if (case existing of None \<Rightarrow> False | Some r \<Rightarrow> ui_status r = ui_active \<or> ui_status r = ui_pending)
                   then (ManageFailure 409 ''already_connected'', st)
                   else if ig_auth_type i = ''oauth2'' then connect_oauth env d user_id i req existing st
                   else if ig_auth_type i = ''api_key'' then connect_api_key env d user_id i req existing st
                   else if ig_auth_type i = ''none'' then connect_no_auth d user_id i req existing st
                   else (ManageFailure 400 ''unsupported_auth'', st))"

section \<open>Disconnecting\<close>

definition handle_disconnect ::
  "'w integration_env \<Rightarrow> call_draws \<Rightarrow> string \<Rightarrow> string option \<Rightarrow> 'w integration_state \<Rightarrow> manage_reply \<times> 'w integration_state" where
  "handle_disconnect env d user_id body st =
     (case body of
        None \<Rightarrow> (ManageFailure 400 ''invalid_json'', st)
      | Some ident \<Rightarrow>
          if ident = [] then (ManageFailure 400 ''missing_integration_id'', st)
          else
            case ui_get user_id ident (is_rows st) of
              Inl e \<Rightarrow> (ui_failure e, st)
            | Inr _ \<Rightarrow>
                let rf = is_refresh st;
                    rf = (if ie_vault env = None then rf else rf\<lparr>rs_rows := snd (vault_revoke user_id ident (cd_now d) (rs_rows rf))\<rparr>);
                    rf = (if ie_refresh env = None then rf else reset_retries user_id ident rf)
                in case ui_delete user_id ident (is_rows st) of
                     (Some _, rows) \<Rightarrow> (ManageFailure 500 ''internal'', st\<lparr>is_rows := rows, is_refresh := rf\<rparr>)
                   | (None, rows) \<Rightarrow>
                       (DisconnectDone ident,
                        st\<lparr>is_rows := rows,
                           is_refresh := (if ie_vault env = None then rf else rf\<lparr>rs_rows := snd (vault_delete user_id ident (rs_rows rf))\<rparr>)\<rparr>))"

section \<open>Status, enabling and configuration\<close>

definition build_status :: "'w integration_env \<Rightarrow> time \<Rightarrow> string \<Rightarrow> 'w integration_state \<Rightarrow> user_integration \<Rightarrow> integration_status" where
  "build_status env now user_id st r =
     \<lparr>st_row = r,
      st_known = map_option (\<lambda>i. (ig_name i, ig_category i, ig_auth_type i)) (get_integration (ui_integration r) (ie_registry env)),
      st_token = (case ie_vault env of
                    None \<Rightarrow> None
                  | Some k \<Rightarrow>
                      (case vault_get k user_id (ui_integration r) (rs_rows (is_refresh st)) of
                         Inr (Some c) \<Rightarrow> Some \<lparr>ts_access = (vc_access c \<noteq> []), ts_refresh = (vc_refresh c \<noteq> []), ts_expires = vc_expires c,
                           ts_expired = cred_expired c now, ts_needs_refresh = needs_refresh c now, ts_status = vc_status c\<rparr>
                       | _ \<Rightarrow> None)),
      st_retries = Option.bind (ie_refresh env) (\<lambda>m. get_refresh_status m user_id (ui_integration r) (is_refresh st))\<rparr>"

definition handle_list_status :: "'w integration_env \<Rightarrow> time \<Rightarrow> string \<Rightarrow> string \<Rightarrow> 'w integration_state \<Rightarrow> manage_reply" where
  "handle_list_status env now user_id status st =
     (case ui_list user_id status (is_rows st) of
        Inl _ \<Rightarrow> ManageFailure 500 ''internal''
      | Inr rows \<Rightarrow> StatusListReply (map (build_status env now user_id st) rows))"

definition set_enabled ::
  "time \<Rightarrow> string \<Rightarrow> string \<Rightarrow> string \<Rightarrow> string \<Rightarrow> string \<Rightarrow> 'w integration_state \<Rightarrow> manage_reply \<times> 'w integration_state" where
  "set_enabled now user_id ident target source already st =
     (case ui_get user_id ident (is_rows st) of
        Inl e \<Rightarrow> (ui_failure e, st)
      | Inr r \<Rightarrow>
          if ui_status r = target then (ManageFailure 409 already, st)
          else if ui_status r \<noteq> source then (ManageFailure 400 ''invalid_state'', st)
          else
            case ui_update_status now user_id ident target [] (is_rows st) of
              (Some _, rows) \<Rightarrow> (ManageFailure 500 ''internal'', st\<lparr>is_rows := rows\<rparr>)
            | (None, rows) \<Rightarrow> (StatusChanged ident target, st\<lparr>is_rows := rows\<rparr>))"

definition handle_enable :: "time \<Rightarrow> string \<Rightarrow> string \<Rightarrow> 'w integration_state \<Rightarrow> manage_reply \<times> 'w integration_state" where
  "handle_enable now user_id ident st = set_enabled now user_id ident ui_active ui_disabled ''already_active'' st"

definition handle_disable :: "time \<Rightarrow> string \<Rightarrow> string \<Rightarrow> 'w integration_state \<Rightarrow> manage_reply \<times> 'w integration_state" where
  "handle_disable now user_id ident st = set_enabled now user_id ident ui_disabled ui_active ''already_disabled'' st"

text \<open>The body of a reconnection is optional: it is what the decoder could read of it.\<close>

definition handle_reconnect ::
  "'w integration_env \<Rightarrow> call_draws \<Rightarrow> string \<Rightarrow> string \<Rightarrow> string list \<times> string \<Rightarrow> 'w integration_state \<Rightarrow> manage_reply \<times> 'w integration_state" where
  "handle_reconnect env d user_id ident body st =
     (case ui_get user_id ident (is_rows st) of
        Inl e \<Rightarrow> (ui_failure e, st)
      | Inr r \<Rightarrow>
          (case get_integration ident (ie_registry env) of
             None \<Rightarrow> (ManageFailure 404 ''integration_not_found'', st)
           | Some i \<Rightarrow>
               if ig_auth_type i \<noteq> ''oauth2'' then (ManageFailure 400 ''not_oauth'', st)
               else
                 case ie_oauth env of
                   None \<Rightarrow> (ManageFailure 503 ''oauth_not_configured'', st)
                 | Some sv \<Rightarrow>
                     (case ui_update_status (cd_now d) user_id ident ui_pending [] (is_rows st) of
                        (Some _, rows) \<Rightarrow> (ManageFailure 500 ''internal'', st\<lparr>is_rows := rows\<rparr>)
                      | (None, rows) \<Rightarrow>
                          begin_flow env sv d user_id ident (if fst body = [] then ui_scopes r else fst body) (snd body)
                            (st\<lparr>is_rows := rows,
                                is_refresh := (if ie_refresh env = None then is_refresh st else reset_retries user_id ident (is_refresh st))\<rparr>))))"

definition handle_update_config ::
  "time \<Rightarrow> string \<Rightarrow> string \<Rightarrow> (string \<times> string) list option option \<Rightarrow> 'w integration_state \<Rightarrow> manage_reply \<times> 'w integration_state" where
  "handle_update_config now user_id ident body st =
     (case ui_get user_id ident (is_rows st) of
        Inl e \<Rightarrow> (ui_failure e, st)
      | Inr r \<Rightarrow>
          (case body of
             None \<Rightarrow> (ManageFailure 400 ''invalid_json'', st)
           | Some None \<Rightarrow> (ManageFailure 400 ''missing_config'', st)
           | Some (Some config) \<Rightarrow>
               let r = r\<lparr>ui_config := AList.updates (map fst config) (map snd config) (ui_config r)\<rparr>
               in case ui_update now (Some r) (is_rows st) of
                    (Some _, rows) \<Rightarrow> (ManageFailure 500 ''internal'', st\<lparr>is_rows := rows\<rparr>)
                  | (None, rows) \<Rightarrow> (ConfigReply ident (ui_config r), st\<lparr>is_rows := rows\<rparr>)))"

section \<open>All calls\<close>

datatype manage_call =
    Connect "connect_request option"
  | Disconnect "string option"
  | ListStatus string
  | SingleStatus string
  | Enable string
  | Disable string
  | Reconnect string "string list \<times> string"
  | UpdateConfig string "(string \<times> string) list option option"
  | ListRows string
  | CreateRow "(string \<times> (string \<times> string) list \<times> string list) option"
  | GetRow string
  | DeleteRow string

definition create_row ::
  "'w integration_env \<Rightarrow> call_draws \<Rightarrow> string \<Rightarrow> (string \<times> (string \<times> string) list \<times> string list) option \<Rightarrow> 'w integration_state
     \<Rightarrow> manage_reply \<times> 'w integration_state" where
  "create_row env d user_id body st =
     (case body of
        None \<Rightarrow> (ManageFailure 400 ''invalid_json'', st)
      | Some (ident, config, scopes) \<Rightarrow>
          if ident = [] then (ManageFailure 400 ''missing_integration_id'', st)
          else if get_integration ident (ie_registry env) = None then (ManageFailure 404 ''integration_not_found'', st)
          else
            case ui_create (cd_uuid d) (cd_now d)
                   (Some \<lparr>ui_id = [], ui_user = user_id, ui_integration = ident, ui_status = ui_pending, ui_config = config,
                          ui_scopes = scopes, ui_error = [], ui_last_used = None, ui_created = 0, ui_updated = 0\<rparr>) (is_rows st) of
              (Inl (UiConnected _), rows) \<Rightarrow> (ManageFailure 409 ''already_connected'', st\<lparr>is_rows := rows\<rparr>)
            | (Inl _, rows) \<Rightarrow> (ManageFailure 500 ''internal'', st\<lparr>is_rows := rows\<rparr>)
            | (Inr r, rows) \<Rightarrow> (RowReply r, st\<lparr>is_rows := rows\<rparr>))"

fun manage_handler ::
  "'w integration_env \<Rightarrow> call_draws \<Rightarrow> string \<Rightarrow> manage_call \<Rightarrow> 'w integration_state \<Rightarrow> manage_reply \<times> 'w integration_state" where
  "manage_handler env d user_id (Connect body) st = handle_connect env d user_id body st"
| "manage_handler env d user_id (Disconnect body) st = handle_disconnect env d user_id body st"
| "manage_handler env d user_id (ListStatus status) st = (handle_list_status env (cd_now d) user_id status st, st)"
| "manage_handler env d user_id (SingleStatus ident) st =
     (case ui_get user_id ident (is_rows st) of
        Inl e \<Rightarrow> (ui_failure e, st)
      | Inr r \<Rightarrow> (StatusReply (build_status env (cd_now d) user_id st r), st))"
| "manage_handler env d user_id (Enable ident) st = handle_enable (cd_now d) user_id ident st"
| "manage_handler env d user_id (Disable ident) st = handle_disable (cd_now d) user_id ident st"
| "manage_handler env d user_id (Reconnect ident body) st = handle_reconnect env d user_id ident body st"
| "manage_handler env d user_id (UpdateConfig ident body) st = handle_update_config (cd_now d) user_id ident body st"
| "manage_handler env d user_id (ListRows status) st =
     (case ui_list user_id status (is_rows st) of Inl _ \<Rightarrow> (ManageFailure 500 ''internal'', st) | Inr rows \<Rightarrow> (RowListReply rows, st))"
| "manage_handler env d user_id (CreateRow body) st = create_row env d user_id body st"
| "manage_handler env d user_id (GetRow ident) st =
     (case ui_get user_id ident (is_rows st) of Inl e \<Rightarrow> (ui_failure e, st) | Inr r \<Rightarrow> (RowReply r, st))"
| "manage_handler env d user_id (DeleteRow ident) st =
     (case ui_delete user_id ident (is_rows st) of
        (Some e, rows) \<Rightarrow> (ui_failure e, st\<lparr>is_rows := rows\<rparr>)
      | (None, rows) \<Rightarrow> (DeletedReply, st\<lparr>is_rows := rows\<rparr>))"

text \<open>The paths of the calls on one integration hold its identifier.\<close>

definition path_problem :: "manage_call \<Rightarrow> string option" where
  "path_problem call =
     (case call of
        SingleStatus i \<Rightarrow> if i = [] then Some ''invalid_path'' else None
      | Enable i \<Rightarrow> if i = [] then Some ''invalid_path'' else None
      | Disable i \<Rightarrow> if i = [] then Some ''invalid_path'' else None
      | Reconnect i _ \<Rightarrow> if i = [] then Some ''invalid_path'' else None
      | UpdateConfig i _ \<Rightarrow> if i = [] then Some ''invalid_path'' else None
      | GetRow i \<Rightarrow> if i = [] then Some ''missing_id'' else None
      | DeleteRow i \<Rightarrow> if i = [] then Some ''missing_id'' else None
      | _ \<Rightarrow> None)"

definition manage_api ::
  "'w integration_env \<Rightarrow> call_draws \<Rightarrow> string \<Rightarrow> manage_call \<Rightarrow> 'w integration_state \<Rightarrow> manage_reply \<times> 'w integration_state" where
  "manage_api env d user_id call st =
     (if user_id = [] then (ManageFailure 401 ''unauthorized'', st)
      else if \<not> ie_store env then (ManageFailure 503 ''not_configured'', st)
      else case path_problem call of
             Some e \<Rightarrow> (ManageFailure 400 e, st)
           | None \<Rightarrow> manage_handler env d user_id call st)"

text \<open>One step of a deployment: a call of a user, the callback of a flow, or the refreshing of a credential.\<close>

datatype deployment_event = UserCall string manage_call | FlowCallback string string string | RefreshTask vault_credential

fun deployment_step :: "'w integration_env \<Rightarrow> call_draws \<times> deployment_event \<Rightarrow> 'w integration_state \<Rightarrow> 'w integration_state" where
  "deployment_step env (d, UserCall user_id call) st = snd (manage_api env d user_id call st)"
| "deployment_step env (d, FlowCallback state code err) st =
     (case ie_oauth env of
        None \<Rightarrow> st
      | Some sv \<Rightarrow>
          (case handle_oauth_callback sv state code err (cd_now d) (is_flows st) (rs_world (is_refresh st)) of
             (_, flows, w) \<Rightarrow> st\<lparr>is_flows := flows, is_refresh := (is_refresh st)\<lparr>rs_world := w\<rparr>\<rparr>))"
| "deployment_step env (d, RefreshTask cred) st =
     (case ie_refresh env of
        None \<Rightarrow> st
      | Some m \<Rightarrow> st\<lparr>is_refresh := refresh_task m (cd_salt d, cd_nonce d) (cd_now d) cred (is_refresh st)\<rparr>)"

definition deployment_run :: "'w integration_env \<Rightarrow> (call_draws \<times> deployment_event) list \<Rightarrow> 'w integration_state \<Rightarrow> 'w integration_state" where
  "deployment_run env steps st = fold (deployment_step env) steps st"

section \<open>Lemmas\<close>

text \<open>The statuses a row of an integration may have: the known ones, and of those that use OAuth only two.\<close>

definition fine_status :: "registry \<Rightarrow> string \<Rightarrow> string \<Rightarrow> bool" where
  "fine_status reg ident s \<longleftrightarrow> valid_ui_status s
     \<and> (case get_integration ident reg of None \<Rightarrow> True | Some i \<Rightarrow> ig_auth_type i = ''oauth2'' \<longrightarrow> s = ui_pending \<or> s = ui_failed)"

definition rows_fine :: "registry \<Rightarrow> user_integration list \<Rightarrow> bool" where
  "rows_fine reg rows \<longleftrightarrow> ui_rows_ok rows \<and> (\<forall>r \<in> set rows. fine_status reg (ui_integration r) (ui_status r) \<and> ui_user r \<noteq> [] \<and> ui_integration r \<noteq> [])"

lemma rows_fine_Nil [simp]: "rows_fine reg []"
  by (simp add: rows_fine_def)

lemma fine_statuses [simp]: "fine_status reg ident ''pending''" "fine_status reg ident ''failed''"
  by (simp_all add: fine_status_def split: option.splits)

lemma rows_fine_create:
  assumes "rows_fine reg rows" and "fine_status reg (ui_integration u) (ui_status u)"
  shows "rows_fine reg (snd (ui_create uuid now (Some u) rows))"
proof -
  have "ui_status u \<noteq> []" using assms(2) by (auto simp: fine_status_def valid_ui_status_def)
  then have "set (snd (ui_create uuid now (Some u) rows)) \<subseteq> set rows \<union> {r. ui_integration r = ui_integration u \<and> ui_status r = ui_status u \<and> ui_user r \<noteq> [] \<and> ui_integration r \<noteq> []}"
    by (auto simp: ui_create_def ui_keys_def Let_def split: option.splits if_splits)
  moreover have "ui_rows_ok (snd (ui_create uuid now (Some u) rows))" using assms(1) by (simp add: rows_fine_def ui_create_ok)
  ultimately show ?thesis using assms unfolding rows_fine_def by force
qed

lemma rows_fine_status:
  "rows_fine reg rows \<Longrightarrow> fine_status reg ident status \<Longrightarrow> rows_fine reg (snd (ui_update_status now user_id ident status msg rows))"
  using ui_update_status_ok [of rows now user_id ident status msg]
  by (auto simp: rows_fine_def ui_update_status_def ui_of_def split: option.splits)

lemma rows_fine_filter: "rows_fine reg rows \<Longrightarrow> rows_fine reg (filter p rows)"
  by (simp add: rows_fine_def ui_rows_ok_filter)

lemma rows_fine_delete: "rows_fine reg rows \<Longrightarrow> rows_fine reg (snd (ui_delete user_id ident rows))"
  by (auto simp: ui_delete_def rows_fine_filter split: option.splits)

lemma rows_fine_update:
  assumes "rows_fine reg rows" and "r \<in> set rows"
  shows "rows_fine reg (snd (ui_update now (Some (r\<lparr>ui_config := c\<rparr>)) rows))"
proof -
  let ?f = "\<lambda>q. if ui_id q = ui_id r then q\<lparr>ui_status := ui_status r, ui_config := c, ui_scopes := ui_scopes r, ui_error := ui_error r,
      ui_last_used := ui_last_used r, ui_updated := now\<rparr> else q"
  have same: "q = r" if "q \<in> set rows" "ui_id q = ui_id r" for q
    using assms that by (auto simp: rows_fine_def ui_rows_ok_def distinct_map inj_on_def)
  have fine: "\<forall>q \<in> set rows. fine_status reg (ui_integration (?f q)) (ui_status (?f q)) \<and> ui_user (?f q) \<noteq> [] \<and> ui_integration (?f q) \<noteq> []"
    using assms(1) same by (auto simp: rows_fine_def)
  moreover have "ui_rows_ok (map ?f rows)"
    by (rule ui_rows_ok_map) (use assms(1) fine in \<open>auto simp: rows_fine_def fine_status_def\<close>)
  ultimately have "rows_fine reg (map ?f rows)" by (auto simp: rows_fine_def)
  then show ?thesis using assms(1) by (auto simp: ui_update_def cong del: if_weak_cong)
qed

lemma rows_fine_record:
  assumes "rows_fine reg rows" and "fine_status reg ident status"
  shows "rows_fine reg (snd (record_connection d user_id ident status config scopes existing rows))"
proof (cases existing)
  case None
  then show ?thesis
    using rows_fine_create [OF assms(1), of "\<lparr>ui_id = [], ui_user = user_id, ui_integration = ident, ui_status = status, ui_config = config, ui_scopes = scopes,
        ui_error = [], ui_last_used = None, ui_created = 0, ui_updated = 0\<rparr>" "cd_uuid d" "cd_now d"] assms(2)
    by (auto simp: record_connection_def split: prod.splits sum.splits)
qed (simp add: record_connection_def rows_fine_status assms)

lemma begin_flow_fine: "rows_fine reg (is_rows st) \<Longrightarrow> rows_fine reg (is_rows (snd (begin_flow env sv d user_id ident scopes redirect st)))"
  by (auto simp: begin_flow_def rows_fine_status split: prod.splits sum.splits)

text \<open>Connecting, by the kind of the integration.\<close>

lemma snd_rows: "f x = (e, rows) \<Longrightarrow> rows_fine reg (snd (f x)) \<Longrightarrow> rows_fine reg rows"
  by simp

lemma connect_oauth_fine:
  assumes "rows_fine reg (is_rows st)"
  shows "rows_fine reg (is_rows (snd (connect_oauth env d user_id i req existing st)))"
proof -
  obtain e rows where r: "record_connection d user_id (ig_id i) ui_pending (cq_config req) (cq_scopes req) existing (is_rows st) = (e, rows)" by fastforce
  then have "rows_fine reg rows" using rows_fine_record [OF assms fine_statuses(1)] by (metis snd_conv)
  then show ?thesis using assms r by (auto simp: connect_oauth_def begin_flow_fine split: option.splits)
qed

lemma connect_other_fine:
  assumes "rows_fine reg (is_rows st)" and "fine_status reg (ig_id i) ui_active"
  shows "rows_fine reg (is_rows (snd (connect_api_key env d user_id i req existing st)))"
    and "rows_fine reg (is_rows (snd (connect_no_auth d user_id i req existing st)))"
proof -
  have r: "rows_fine reg rows" if "record_connection d user_id (ig_id i) ui_active config scopes existing (is_rows st) = (e, rows)" for config scopes e rows
    using rows_fine_record [OF assms] that by (metis snd_conv)
  show "rows_fine reg (is_rows (snd (connect_api_key env d user_id i req existing st)))"
    using assms(1) r by (auto simp: connect_api_key_def Let_def split: prod.splits option.splits)
  show "rows_fine reg (is_rows (snd (connect_no_auth d user_id i req existing st)))"
    using assms(1) r by (auto simp: connect_no_auth_def split: prod.splits option.splits)
qed

lemma fine_active: "get_integration ident reg = Some i \<Longrightarrow> ig_auth_type i \<noteq> ''oauth2'' \<Longrightarrow> fine_status reg (ig_id i) ''active''"
  using get_integration_Some [of ident reg i] by (simp add: fine_status_def)

lemma connect_fine:
  assumes "rows_fine (ie_registry env) (is_rows st)"
  shows "rows_fine (ie_registry env) (is_rows (snd (handle_connect env d user_id body st)))"
  using assms fine_active
  by (auto simp: handle_connect_def Let_def connect_oauth_fine intro!: connect_other_fine split: option.splits sum.splits)

text \<open>Enabling and disabling need a status that an integration over OAuth does not have.\<close>

lemma set_enabled_fine:
  assumes "rows_fine reg (is_rows st)" and "source = ''active'' \<or> source = ''disabled''" and "target = ''active'' \<or> target = ''disabled''"
  shows "rows_fine reg (is_rows (snd (set_enabled now user_id ident target source already st)))"
proof (cases "ui_get user_id ident (is_rows st)")
  case (Inr r)
  have "fine_status reg ident target" if "ui_status r = source"
  proof -
    have "fine_status reg ident source" using ui_get_Inr [OF Inr] assms(1) that unfolding rows_fine_def by blast
    then show ?thesis using assms(2,3) by (cases "get_integration ident reg") (auto simp: fine_status_def)
  qed
  then have "rows_fine reg rows" if "ui_status r = source" "ui_update_status now user_id ident target [] (is_rows st) = (e, rows)" for e rows
    using rows_fine_status [OF assms(1)] that by (metis snd_conv)
  then show ?thesis using assms(1) Inr by (auto simp: set_enabled_def split: prod.split option.split)
qed (simp add: set_enabled_def assms(1))

lemma reconnect_fine:
  assumes "rows_fine (ie_registry env) (is_rows st)"
  shows "rows_fine (ie_registry env) (is_rows (snd (handle_reconnect env d user_id ident body st)))"
proof -
  have "rows_fine (ie_registry env) rows" if "ui_update_status (cd_now d) user_id ident ui_pending [] (is_rows st) = (e, rows)" for e rows
    using rows_fine_status [OF assms fine_statuses(1)] that by (metis snd_conv)
  then show ?thesis using assms
    by (auto simp: handle_reconnect_def intro!: begin_flow_fine split: prod.splits option.splits sum.splits)
qed

lemma update_config_fine:
  assumes "rows_fine reg (is_rows st)"
  shows "rows_fine reg (is_rows (snd (handle_update_config now user_id ident body st)))"
proof (cases "ui_get user_id ident (is_rows st)")
  case (Inr r)
  then have "rows_fine reg rows" if "ui_update now (Some (r\<lparr>ui_config := c\<rparr>)) (is_rows st) = (e, rows)" for c e rows
    using rows_fine_update [OF assms, of r now c] ui_get_Inr that by (metis snd_conv)
  then show ?thesis using assms Inr by (auto simp: handle_update_config_def Let_def split: prod.split option.split)
qed (simp add: handle_update_config_def assms)

lemma create_row_fine:
  assumes "rows_fine reg (is_rows st)"
  shows "rows_fine reg (is_rows (snd (create_row env d user_id body st)))"
proof -
  have "rows_fine reg rows" if "ui_create (cd_uuid d) (cd_now d) (Some \<lparr>ui_id = [], ui_user = user_id, ui_integration = ident, ui_status = ui_pending,
      ui_config = config, ui_scopes = scopes, ui_error = [], ui_last_used = None, ui_created = 0, ui_updated = 0\<rparr>) (is_rows st) = (e, rows)" for ident config scopes e rows
    using rows_fine_create [OF assms, of "\<lparr>ui_id = [], ui_user = user_id, ui_integration = ident, ui_status = ui_pending,
      ui_config = config, ui_scopes = scopes, ui_error = [], ui_last_used = None, ui_created = 0, ui_updated = 0\<rparr>" "cd_uuid d" "cd_now d"] that by simp
  then show ?thesis using assms by (auto simp: create_row_def split: prod.split option.split sum.split ui_error.split)
qed

lemma disconnect_fine:
  assumes "rows_fine reg (is_rows st)"
  shows "rows_fine reg (is_rows (snd (handle_disconnect env d user_id body st)))"
proof -
  have "rows_fine reg rows" if "ui_delete user_id ident (is_rows st) = (e, rows)" for ident e rows
    using rows_fine_delete [OF assms, of user_id ident] that by simp
  then show ?thesis using assms by (auto simp: handle_disconnect_def Let_def split: prod.split option.split sum.split)
qed

lemma api_fine:
  assumes "rows_fine (ie_registry env) (is_rows st)"
  shows "rows_fine (ie_registry env) (is_rows (snd (manage_api env d user_id call st)))"
proof -
  have "rows_fine (ie_registry env) (is_rows (snd (manage_handler env d user_id call st)))"
  proof (cases call)
    case (DeleteRow ident)
    then show ?thesis using rows_fine_delete [OF assms, of user_id ident] by (auto split: prod.split option.split)
  qed (use assms in \<open>auto simp: handle_enable_def handle_disable_def connect_fine disconnect_fine set_enabled_fine reconnect_fine update_config_fine create_row_fine
      split: sum.split\<close>)
  then show ?thesis using assms by (auto simp: manage_api_def split: option.split)
qed

lemma step_fine: "rows_fine (ie_registry env) (is_rows st) \<Longrightarrow> rows_fine (ie_registry env) (is_rows (deployment_step env e st))"
  by (induction env e st rule: deployment_step.induct) (auto simp: api_fine split: option.split prod.split)

lemma run_fine: "rows_fine (ie_registry env) (is_rows st) \<Longrightarrow> rows_fine (ie_registry env) (is_rows (deployment_run env steps st))"
  by (induction steps arbitrary: st) (simp_all add: deployment_run_def step_fine)

text \<open>A refused enabling.\<close>

lemma enable_refused:
  assumes "rows_fine reg (is_rows st)" and "r \<in> set (is_rows st)" and "ie_store env" and "ui_status r \<noteq> ''active''" and "ui_status r \<noteq> ''disabled''"
  shows "manage_api env d (ui_user r) (Enable (ui_integration r)) st = (ManageFailure 400 ''invalid_state'', st)"
proof -
  have "ui_user r \<noteq> []" "ui_integration r \<noteq> []" "ui_rows_ok (is_rows st)" using assms(1,2) by (auto simp: rows_fine_def)
  then show ?thesis using assms(2-) ui_get_row [of "is_rows st"]
    by (simp add: manage_api_def path_problem_def handle_enable_def set_enabled_def)
qed

lemma connect_refused:
  assumes "rows_fine (ie_registry env) (is_rows st)" and "r \<in> set (is_rows st)" and "ie_store env" and "ui_status r = ''pending''"
    and "cq_integration req = ui_integration r" and "get_integration (ui_integration r) (ie_registry env) = Some i"
  shows "manage_api env d (ui_user r) (Connect (Some req)) st = (ManageFailure 409 ''already_connected'', st)"
proof -
  have "ui_user r \<noteq> []" "ui_integration r \<noteq> []" "ui_rows_ok (is_rows st)" using assms(1,2) by (auto simp: rows_fine_def)
  then show ?thesis using assms(2-) ui_get_row [of "is_rows st"]
    by (simp add: manage_api_def path_problem_def handle_connect_def)
qed

text \<open>Revoking before deleting leaves no trace.\<close>

lemma vault_forgets:
  assumes "user_id \<noteq> []" and "ident \<noteq> []"
  shows "snd (vault_delete user_id ident (snd (vault_revoke user_id ident now rows))) = filter (\<lambda>r. \<not> row_of_pair user_id ident r) rows"
proof -
  let ?f = "\<lambda>r. if row_of_pair user_id ident r then r\<lparr>vr_status := ''revoked'', vr_updated := now\<rparr> else r"
  have "filter (\<lambda>r. \<not> row_of_pair user_id ident r) (map ?f rows) = filter (\<lambda>r. \<not> row_of_pair user_id ident r) rows"
    by (induction rows) (auto simp: row_of_pair_def)
  moreover have "list_ex (row_of_pair user_id ident) (map ?f rows) = list_ex (row_of_pair user_id ident) rows"
    by (induction rows) (auto simp: row_of_pair_def)
  moreover have "filter (\<lambda>r. \<not> row_of_pair user_id ident r) rows = rows" if "\<not> list_ex (row_of_pair user_id ident) rows"
    using that by (auto simp: list_ex_iff filter_id_conv)
  ultimately show ?thesis using assms by (simp add: vault_delete_def vault_revoke_def)
qed

lemma ui_failure_not_done [simp]: "ui_failure e \<noteq> DisconnectDone j"
  by (simp add: ui_failure_def split: ui_error.split)

section \<open>Properties\<close>

text \<open>Property C6: An integration over OAuth never gets connected: after any calls, callbacks and refreshes its row is pending or failed, and it can
  be neither enabled nor, while pending, connected again.\<close>

theorem oauth_never_connected:
  assumes "is_rows st = []" and "r \<in> set (is_rows (deployment_run env steps st))" and "ie_store env"
    and "get_integration (ui_integration r) (ie_registry env) = Some i" and "ig_auth_type i = ''oauth2''"
  shows "(ui_status r = ui_pending \<or> ui_status r = ui_failed)
    \<and> fst (manage_api env d (ui_user r) (Enable (ui_integration r)) (deployment_run env steps st)) = ManageFailure 400 ''invalid_state''
    \<and> (ui_status r = ui_pending \<and> cq_integration req = ui_integration r \<longrightarrow>
         fst (manage_api env d (ui_user r) (Connect (Some req)) (deployment_run env steps st)) = ManageFailure 409 ''already_connected'')"
proof -
  have fine: "rows_fine (ie_registry env) (is_rows (deployment_run env steps st))" by (rule run_fine) (simp add: assms(1))
  then have "fine_status (ie_registry env) (ui_integration r) (ui_status r)" using assms(2) by (simp add: rows_fine_def)
  then have "ui_status r = ui_pending \<or> ui_status r = ui_failed" using assms(4,5) by (simp add: fine_status_def)
  then show ?thesis using enable_refused [OF fine assms(2,3), of d] connect_refused [OF fine assms(2,3) _ _ assms(4), of req d] by auto
qed

text \<open>Property C16: Disconnecting removes what there is of the connection and no more: the row, the credential in the vault and the retries of its
  refreshing.\<close>

theorem disconnect_forgets:
  assumes "manage_api env d u (Disconnect (Some ident)) st = (DisconnectDone j, st')"
  shows "is_rows st' = filter (\<lambda>r. \<not> ui_of u ident r) (is_rows st) \<and> is_flows st' = is_flows st
    \<and> rs_rows (is_refresh st') = (if ie_vault env = None then rs_rows (is_refresh st) else filter (\<lambda>r. \<not> row_of_pair u ident r) (rs_rows (is_refresh st)))
    \<and> rs_retries (is_refresh st') = (if ie_refresh env = None then rs_retries (is_refresh st) else (rs_retries (is_refresh st))(cred_key u ident := None))
    \<and> rs_world (is_refresh st') = rs_world (is_refresh st) \<and> rs_calls (is_refresh st') = rs_calls (is_refresh st)"
proof -
  have named: "u \<noteq> []" "ident \<noteq> []" using assms by (auto simp: manage_api_def handle_disconnect_def split: if_splits option.splits)
  then show ?thesis using assms vault_forgets [OF named, of "cd_now d" "rs_rows (is_refresh st)"]
    by (auto simp: manage_api_def path_problem_def handle_disconnect_def ui_delete_def ui_keys_def reset_retries_def clear_retries_def Let_def
        split: if_splits sum.splits option.splits)
qed

definition sample_env :: "unit integration_env" where
  "sample_env = \<lparr>ie_registry = [sample_integration ''a'' [] []], ie_store = True, ie_oauth = Some sample_granting, ie_vault = None, ie_refresh = None,
     ie_flow_text = (\<lambda>_. ''failed'')\<rparr>"

definition sample_draws :: call_draws where
  "sample_draws = \<lparr>cd_uuid = ''i'', cd_token = Some ''t'', cd_verifier = Some ''v'', cd_flow = Some ''f'', cd_vault = None, cd_salt = None, cd_nonce = None, cd_now = 1\<rparr>"

definition sample_connect :: connect_request where
  "sample_connect = \<lparr>cq_integration = ''a'', cq_config = [], cq_scopes = [], cq_redirect = [], cq_api_key = []\<rparr>"

definition sample_state :: "user_integration list \<Rightarrow> unit integration_state" where
  "sample_state rows = \<lparr>is_rows = rows, is_flows = [], is_refresh = sample_refresh_state []\<rparr>"

definition sample_row :: "string \<Rightarrow> string \<Rightarrow> user_integration" where
  "sample_row u status = \<lparr>ui_id = u, ui_user = u, ui_integration = ''a'', ui_status = status, ui_config = [], ui_scopes = [], ui_error = [],
     ui_last_used = None, ui_created = 1, ui_updated = 1\<rparr>"

lemma oauth_never_connected_witness:
  "\<exists>r. is_rows (deployment_run sample_env [(sample_draws, UserCall ''u'' (Connect (Some sample_connect)))] (sample_state [])) = [r]
     \<and> (ui_status r = ''pending'' \<or> ui_status r = ''failed'')
     \<and> fst (manage_api sample_env sample_draws (ui_user r) (Enable (ui_integration r))
         (deployment_run sample_env [(sample_draws, UserCall ''u'' (Connect (Some sample_connect)))] (sample_state []))) = ManageFailure 400 ''invalid_state''"
proof -
  let ?steps = "[(sample_draws, UserCall ''u'' (Connect (Some sample_connect)))]"
  have "\<exists>r. is_rows (deployment_run sample_env ?steps (sample_state [])) = [r] \<and> ui_integration r = ''a''"
    by (auto simp: deployment_run_def manage_api_def path_problem_def handle_connect_def connect_oauth_def record_connection_def ui_create_def ui_get_def
        ui_keys_def ui_update_status_def ui_of_def begin_flow_def sample_env_def sample_draws_def sample_connect_def sample_state_def
        get_integration_def sample_integration_def Let_def split: prod.split sum.split)
  then obtain r where r: "is_rows (deployment_run sample_env ?steps (sample_state [])) = [r]" "ui_integration r = ''a''" by blast
  have "is_rows (sample_state []) = []" "r \<in> set (is_rows (deployment_run sample_env ?steps (sample_state [])))" "ie_store sample_env"
    "get_integration (ui_integration r) (ie_registry sample_env) = Some (sample_integration ''a'' [] [])" "ig_auth_type (sample_integration ''a'' [] []) = ''oauth2''"
    using r by (simp_all add: sample_state_def sample_env_def get_integration_def sample_integration_def)
  from oauth_never_connected [OF this, of sample_draws] r(1) show ?thesis by blast
qed

lemma disconnect_forgets_witness:
  "is_rows (snd (manage_api sample_env sample_draws ''u'' (Disconnect (Some ''a'')) (sample_state [sample_row ''u'' ''active'', sample_row ''v'' ''active''])))
     = [sample_row ''v'' ''active'']"
proof -
  let ?st = "sample_state [sample_row ''u'' ''active'', sample_row ''v'' ''active'']"
  have "fst (manage_api sample_env sample_draws ''u'' (Disconnect (Some ''a'')) ?st) = DisconnectDone ''a''"
    by (simp add: manage_api_def path_problem_def handle_disconnect_def ui_get_def ui_delete_def ui_keys_def ui_of_def Let_def sample_state_def sample_row_def sample_env_def)
  then obtain st' where "manage_api sample_env sample_draws ''u'' (Disconnect (Some ''a'')) ?st = (DisconnectDone ''a'', st')"
    by (metis prod.collapse)
  from this disconnect_forgets [OF this] show ?thesis by (simp add: sample_state_def sample_row_def ui_of_def)
qed

text \<open>Deleting the row by the other endpoint leaves the credential where it is.\<close>

lemma delete_row_keeps_credential:
  "is_refresh (snd (manage_api env d u (DeleteRow ident) st)) = is_refresh st"
  by (auto simp: manage_api_def split: prod.split option.split)

end
