(* ===== verification/Beta_Launch.thy ===== *)
theory Beta_Launch
  imports Time_Text "HOL-Library.Word"
begin

unbundle bit_operations_syntax

text \<open>
  The launch of the beta (\<open>pkg/beta/beta.go\<close>, \<open>readiness.go\<close>): invitation codes, feature flags with their rollout, the
  waiting list and the checks before a launch. Columns of times hold whole seconds, and the lists of a flag
  are stored as text by a writer and reader of their own, which are modelled. Strings are ASCII.
\<close>

section \<open>Lists as text\<close>

abbreviation (input) quote :: char where
  "quote \<equiv> CHR 0x22"

definition quote_string :: "string \<Rightarrow> string" where
  "quote_string s = quote # concat (map (\<lambda>c. if c = quote then [CHR 0x5C, quote] else [c]) s) @ [quote]"

fun join_commas :: "string list \<Rightarrow> string" where
  "join_commas [] = []"
| "join_commas [s] = s"
| "join_commas (s # t # ss) = s @ '','' @ join_commas (t # ss)"

definition marshal_strings :: "string list \<Rightarrow> string" where
  "marshal_strings ss = (if ss = [] then ''[]'' else ''['' @ join_commas (map quote_string ss) @ '']'')"

fun split_commas :: "string \<Rightarrow> string list" where
  "split_commas [] = [[]]"
| "split_commas (c # s) =
     (if c = CHR '','' then [] # split_commas s
      else case split_commas s of [] \<Rightarrow> [[c]] | p # ps \<Rightarrow> (c # p) # ps)"

definition trim_quotes :: "string \<Rightarrow> string" where
  "trim_quotes s = trim_right (\<lambda>c. c = quote) (dropWhile (\<lambda>c. c = quote) s)"

definition unmarshal_strings :: "string \<Rightarrow> string list" where
  "unmarshal_strings s =
     (let s = trim_space s
      in if s = [] \<or> s = ''[]'' \<or> s = ''null'' then []
         else
           let s = (if has_prefix s ''['' then tl s else s);
               s = (if s \<noteq> [] \<and> last s = CHR '']'' then butlast s else s)
           in if s = [] then [] else filter (\<lambda>p. p \<noteq> []) (map (\<lambda>p. trim_quotes (trim_space p)) (split_commas s)))"

section \<open>Data\<close>

record invite_code =
  ic_id :: string
  ic_code :: string
  ic_creator :: string
  ic_email :: string
  ic_max_uses :: int
  ic_uses :: int
  ic_expires :: "time option"
  ic_note :: string
  ic_status :: string
  ic_created :: time
  ic_updated :: time

record feature_flag =
  ff_id :: string
  ff_name :: string
  ff_description :: string
  ff_enabled :: bool
  ff_rollout :: int
  ff_plans :: "string list"
  ff_users :: "string list"
  ff_created :: time
  ff_updated :: time

record waitlist_entry =
  we_id :: string
  we_email :: string
  we_name :: string
  we_source :: string
  we_status :: string
  we_invite :: string
  we_note :: string
  we_created :: time
  we_updated :: time

datatype beta_error =
    InviteNotFound | InviteExpired | InviteUsed | InviteExhausted | InvalidCode | CreatorRequired
  | FlagNotFound | DuplicateFlag | InvalidFlag | FlagNameRequired | InvalidRollout
  | WaitlistDuplicate | WaitlistNotFound | InvalidEmail | InvalidStatus | EmptyID | DatabaseRefused

text \<open>The tables hold the texts of the lists of a flag.\<close>

record flag_row =
  fr_flag :: feature_flag
  fr_plans :: string
  fr_users :: string

record beta_store =
  bt_invites :: "invite_code list"
  bt_flags :: "flag_row list"
  bt_waitlist :: "waitlist_entry list"

definition whole_second :: "time \<Rightarrow> time" where
  "whole_second t = t - t mod second"

definition valid_invite_status :: "string \<Rightarrow> bool" where
  "valid_invite_status s \<longleftrightarrow> s \<in> {''active'', ''revoked'', ''expired''}"

definition valid_waitlist_status :: "string \<Rightarrow> bool" where
  "valid_waitlist_status s \<longleftrightarrow> s \<in> {''pending'', ''invited'', ''joined'', ''removed''}"

definition expired_at :: "time \<Rightarrow> invite_code \<Rightarrow> bool" where
  "expired_at now ic \<longleftrightarrow> (case ic_expires ic of None \<Rightarrow> False | Some e \<Rightarrow> now > e)"

definition used_up :: "invite_code \<Rightarrow> bool" where
  "used_up ic \<longleftrightarrow> ic_max_uses ic > 0 \<and> ic_uses ic \<ge> ic_max_uses ic"

definition is_usable :: "time \<Rightarrow> invite_code \<Rightarrow> bool" where
  "is_usable now ic \<longleftrightarrow> ic_status ic = ''active'' \<and> \<not> expired_at now ic \<and> \<not> used_up ic"

section \<open>Invitations\<close>

definition create_invite :: "string \<Rightarrow> string \<Rightarrow> time \<Rightarrow> invite_code option \<Rightarrow> beta_store \<Rightarrow> (beta_error + invite_code) \<times> beta_store" where
  "create_invite new_id new_code now invite b =
     (case invite of
        None \<Rightarrow> (Inl InvalidCode, b)
      | Some ic \<Rightarrow>
          if ic_creator ic = [] then (Inl CreatorRequired, b)
          else
            let ic = ic\<lparr>ic_id := if ic_id ic = [] then new_id else ic_id ic, ic_code := if ic_code ic = [] then new_code else ic_code ic,
                        ic_status := if ic_status ic = [] then ''active'' else ic_status ic\<rparr>
            in if \<not> valid_invite_status (ic_status ic) then (Inl InvalidStatus, b)
               else if list_ex (\<lambda>r. ic_id r = ic_id ic \<or> ic_code r = ic_code ic) (bt_invites b) then (Inl DatabaseRefused, b)
               else
                 let ic = ic\<lparr>ic_created := now, ic_updated := now\<rparr>;
                     row = ic\<lparr>ic_created := whole_second now, ic_updated := whole_second now, ic_expires := map_option whole_second (ic_expires ic)\<rparr>
                 in (Inr ic, b\<lparr>bt_invites := bt_invites b @ [row]\<rparr>))"

definition get_invite :: "string \<Rightarrow> beta_store \<Rightarrow> beta_error + invite_code" where
  "get_invite ident b =
     (if ident = [] then Inl EmptyID
      else case find (\<lambda>r. ic_id r = ident) (bt_invites b) of None \<Rightarrow> Inl InviteNotFound | Some r \<Rightarrow> Inr r)"

definition get_invite_by_code :: "string \<Rightarrow> beta_store \<Rightarrow> beta_error + invite_code" where
  "get_invite_by_code code b =
     (if code = [] then Inl InvalidCode
      else case find (\<lambda>r. ic_code r = code) (bt_invites b) of None \<Rightarrow> Inl InviteNotFound | Some r \<Rightarrow> Inr r)"

text \<open>The newest first; which of one second comes first is the database's choice, here the later row.\<close>

definition list_invites :: "string \<Rightarrow> beta_store \<Rightarrow> beta_error + invite_code list" where
  "list_invites status b =
     (if status \<noteq> [] \<and> \<not> valid_invite_status status then Inl InvalidStatus
      else Inr (newest_first ic_created (filter (\<lambda>r. status = [] \<or> ic_status r = status) (bt_invites b))))"

definition redeem_invite :: "time \<Rightarrow> string \<Rightarrow> string \<Rightarrow> beta_store \<Rightarrow> (beta_error + invite_code) \<times> beta_store" where
  "redeem_invite now code email b =
     (if code = [] then (Inl InvalidCode, b)
      else
        case get_invite_by_code code b of
          Inl _ \<Rightarrow> (Inl InviteNotFound, b)
        | Inr ic \<Rightarrow>
            if ic_status ic = ''revoked'' then (Inl InviteUsed, b)
            else if expired_at now ic then (Inl InviteExpired, b)
            else if used_up ic then (Inl InviteExhausted, b)
            else if ic_email ic \<noteq> [] \<and> \<not> equal_fold (ic_email ic) email then (Inl InviteNotFound, b)
            else
              (Inr (ic\<lparr>ic_uses := ic_uses ic + 1, ic_updated := now\<rparr>),
               b\<lparr>bt_invites := map (\<lambda>r. if ic_id r = ic_id ic then r\<lparr>ic_uses := ic_uses r + 1, ic_updated := whole_second now\<rparr> else r)
                  (bt_invites b)\<rparr>))"

definition revoke_invite :: "time \<Rightarrow> string \<Rightarrow> beta_store \<Rightarrow> beta_error option \<times> beta_store" where
  "revoke_invite now ident b =
     (if ident = [] then (Some EmptyID, b)
      else if \<not> list_ex (\<lambda>r. ic_id r = ident) (bt_invites b) then (Some InviteNotFound, b)
      else (None, b\<lparr>bt_invites := map (\<lambda>r. if ic_id r = ident then r\<lparr>ic_status := ''revoked'', ic_updated := whole_second now\<rparr> else r)
                      (bt_invites b)\<rparr>))"

definition count_invites :: "string \<Rightarrow> beta_store \<Rightarrow> nat" where
  "count_invites status b = length (filter (\<lambda>r. status = [] \<or> ic_status r = status) (bt_invites b))"

section \<open>Flags\<close>

definition fnv_step :: "32 word \<Rightarrow> char \<Rightarrow> 32 word" where
  "fnv_step h c = (h XOR word_of_nat (of_char c)) * 16777619"

definition hash_to_percent :: "string \<Rightarrow> string \<Rightarrow> int" where
  "hash_to_percent user_id name = int (unat (foldl fnv_step 2166136261 (user_id @ '':'' @ name) mod 100))"

definition flag_enabled :: "string \<Rightarrow> string \<Rightarrow> feature_flag \<Rightarrow> bool" where
  "flag_enabled user_id plan ff \<longleftrightarrow> ff_enabled ff
     \<and> (user_id \<in> set (ff_users ff) \<or> plan \<in> set (ff_plans ff)
        \<or> (if 100 \<le> ff_rollout ff then True else if ff_rollout ff \<le> 0 then False
            else hash_to_percent user_id (ff_name ff) < ff_rollout ff))"

definition bad_rollout :: "int \<Rightarrow> bool" where
  "bad_rollout pct \<longleftrightarrow> pct < 0 \<or> 100 < pct"

definition row_of_flag :: "feature_flag \<Rightarrow> flag_row" where
  "row_of_flag ff = \<lparr>fr_flag = ff\<lparr>ff_created := whole_second (ff_created ff), ff_updated := whole_second (ff_updated ff)\<rparr>,
     fr_plans = marshal_strings (ff_plans ff), fr_users = marshal_strings (ff_users ff)\<rparr>"

definition scan_flag :: "flag_row \<Rightarrow> feature_flag" where
  "scan_flag r = (fr_flag r)\<lparr>ff_plans := unmarshal_strings (fr_plans r), ff_users := unmarshal_strings (fr_users r)\<rparr>"

definition create_flag :: "string \<Rightarrow> time \<Rightarrow> feature_flag option \<Rightarrow> beta_store \<Rightarrow> (beta_error + feature_flag) \<times> beta_store" where
  "create_flag new_id now flag b =
     (case flag of
        None \<Rightarrow> (Inl InvalidFlag, b)
      | Some ff \<Rightarrow>
          if ff_name ff = [] then (Inl FlagNameRequired, b)
          else if bad_rollout (ff_rollout ff) then (Inl InvalidRollout, b)
          else
            let ff = ff\<lparr>ff_id := if ff_id ff = [] then new_id else ff_id ff, ff_created := now, ff_updated := now\<rparr>
            in if list_ex (\<lambda>r. ff_id (fr_flag r) = ff_id ff \<or> ff_name (fr_flag r) = ff_name ff) (bt_flags b) then (Inl DuplicateFlag, b)
               else (Inr ff, b\<lparr>bt_flags := bt_flags b @ [row_of_flag ff]\<rparr>))"

definition get_flag :: "string \<Rightarrow> beta_store \<Rightarrow> beta_error + feature_flag" where
  "get_flag name b =
     (if name = [] then Inl InvalidFlag
      else case find (\<lambda>r. ff_name (fr_flag r) = name) (bt_flags b) of None \<Rightarrow> Inl FlagNotFound | Some r \<Rightarrow> Inr (scan_flag r))"

definition get_flag_by_id :: "string \<Rightarrow> beta_store \<Rightarrow> beta_error + feature_flag" where
  "get_flag_by_id ident b =
     (if ident = [] then Inl EmptyID
      else case find (\<lambda>r. ff_id (fr_flag r) = ident) (bt_flags b) of None \<Rightarrow> Inl FlagNotFound | Some r \<Rightarrow> Inr (scan_flag r))"

definition list_flags :: "beta_store \<Rightarrow> feature_flag list" where
  "list_flags b = map scan_flag (sort_key (\<lambda>r. ff_name (fr_flag r)) (bt_flags b))"

definition update_flag :: "time \<Rightarrow> feature_flag option \<Rightarrow> beta_store \<Rightarrow> (beta_error + feature_flag) \<times> beta_store" where
  "update_flag now flag b =
     (case flag of
        None \<Rightarrow> (Inl InvalidFlag, b)
      | Some ff \<Rightarrow>
          if ff_id ff = [] then (Inl EmptyID, b)
          else if bad_rollout (ff_rollout ff) then (Inl InvalidRollout, b)
          else
            let ff = ff\<lparr>ff_updated := now\<rparr>
            in if list_ex (\<lambda>r. ff_id (fr_flag r) = ff_id ff) (bt_flags b)
               then if list_ex (\<lambda>r. ff_id (fr_flag r) \<noteq> ff_id ff \<and> ff_name (fr_flag r) = ff_name ff) (bt_flags b) then (Inl DatabaseRefused, b)
                    else (Inr ff, b\<lparr>bt_flags := map (\<lambda>r. if ff_id (fr_flag r) = ff_id ff
                                     then row_of_flag (ff\<lparr>ff_created := ff_created (fr_flag r)\<rparr>) else r) (bt_flags b)\<rparr>)
               else (Inl FlagNotFound, b))"

definition delete_flag :: "string \<Rightarrow> beta_store \<Rightarrow> beta_error option \<times> beta_store" where
  "delete_flag name b =
     (if name = [] then (Some InvalidFlag, b)
      else if \<not> list_ex (\<lambda>r. ff_name (fr_flag r) = name) (bt_flags b) then (Some FlagNotFound, b)
      else (None, b\<lparr>bt_flags := filter (\<lambda>r. ff_name (fr_flag r) \<noteq> name) (bt_flags b)\<rparr>))"

section \<open>The waiting list\<close>

definition plain_email :: "string \<Rightarrow> string" where
  "plain_email email = to_lower (trim_space email)"

definition add_to_waitlist :: "string \<Rightarrow> time \<Rightarrow> waitlist_entry option \<Rightarrow> beta_store \<Rightarrow> (beta_error + waitlist_entry) \<times> beta_store" where
  "add_to_waitlist new_id now entry b =
     (case entry of
        None \<Rightarrow> (Inl InvalidEmail, b)
      | Some e \<Rightarrow>
          if we_email e = [] \<or> \<not> contains (we_email e) ''@'' then (Inl InvalidEmail, b)
          else
            let e = e\<lparr>we_id := if we_id e = [] then new_id else we_id e, we_status := if we_status e = [] then ''pending'' else we_status e\<rparr>
            in if \<not> valid_waitlist_status (we_status e) then (Inl InvalidStatus, b)
               else
                 let e = e\<lparr>we_email := plain_email (we_email e), we_created := now, we_updated := now\<rparr>
                 in if list_ex (\<lambda>r. we_id r = we_id e \<or> we_email r = we_email e) (bt_waitlist b) then (Inl WaitlistDuplicate, b)
                    else (Inr e, b\<lparr>bt_waitlist := bt_waitlist b @ [e\<lparr>we_created := whole_second now, we_updated := whole_second now\<rparr>]\<rparr>))"

definition get_waitlist_entry :: "string \<Rightarrow> beta_store \<Rightarrow> beta_error + waitlist_entry" where
  "get_waitlist_entry email b =
     (if email = [] then Inl InvalidEmail
      else case find (\<lambda>r. we_email r = plain_email email) (bt_waitlist b) of None \<Rightarrow> Inl WaitlistNotFound | Some r \<Rightarrow> Inr r)"

definition list_waitlist :: "string \<Rightarrow> beta_store \<Rightarrow> beta_error + waitlist_entry list" where
  "list_waitlist status b =
     (if status \<noteq> [] \<and> \<not> valid_waitlist_status status then Inl InvalidStatus
      else Inr (sort_key we_created (filter (\<lambda>r. status = [] \<or> we_status r = status) (bt_waitlist b))))"

definition update_waitlist_status :: "time \<Rightarrow> string \<Rightarrow> string \<Rightarrow> string \<Rightarrow> beta_store \<Rightarrow> beta_error option \<times> beta_store" where
  "update_waitlist_status now email status invite b =
     (if email = [] then (Some InvalidEmail, b)
      else if \<not> valid_waitlist_status status then (Some InvalidStatus, b)
      else if \<not> list_ex (\<lambda>r. we_email r = plain_email email) (bt_waitlist b) then (Some WaitlistNotFound, b)
      else (None, b\<lparr>bt_waitlist := map (\<lambda>r. if we_email r = plain_email email
                       then r\<lparr>we_status := status, we_invite := invite, we_updated := whole_second now\<rparr> else r) (bt_waitlist b)\<rparr>))"

definition remove_from_waitlist :: "string \<Rightarrow> beta_store \<Rightarrow> beta_error option \<times> beta_store" where
  "remove_from_waitlist email b =
     (if email = [] then (Some InvalidEmail, b)
      else if \<not> list_ex (\<lambda>r. we_email r = plain_email email) (bt_waitlist b) then (Some WaitlistNotFound, b)
      else (None, b\<lparr>bt_waitlist := filter (\<lambda>r. we_email r \<noteq> plain_email email) (bt_waitlist b)\<rparr>))"

definition count_waitlist :: "string \<Rightarrow> beta_store \<Rightarrow> nat" where
  "count_waitlist status b = length (filter (\<lambda>r. status = [] \<or> we_status r = status) (bt_waitlist b))"

section \<open>Readiness\<close>

record readiness_check =
  rd_name :: string
  rd_category :: string
  rd_critical :: bool
  rd_status :: string
  rd_message :: string

record readiness_report =
  rr_checks :: "readiness_check list"
  rr_passed :: nat
  rr_failed :: nat
  rr_warnings :: nat
  rr_critical :: nat
  rr_ready :: bool

text \<open>A registered check is its name, category and weight, with what running it gives.\<close>

definition run_readiness :: "(string \<times> string \<times> bool \<times> readiness_check) list \<Rightarrow> readiness_report" where
  "run_readiness checks =
     (let results = map (\<lambda>(name, category, critical, r). r\<lparr>rd_name := name, rd_category := category, rd_critical := critical\<rparr>) checks;
          failed = filter (\<lambda>r. rd_status r = ''fail'') results;
          critical = filter rd_critical failed
      in \<lparr>rr_checks = results, rr_passed = length (filter (\<lambda>r. rd_status r = ''pass'') results), rr_failed = length failed,
          rr_warnings = length (filter (\<lambda>r. rd_status r = ''warn'') results), rr_critical = length critical,
          rr_ready = (length critical = 0 \<and> length failed = 0)\<rparr>)"

end
