(* ===== verification/Beta_Api.thy ===== *)
theory Beta_Api
  imports Beta_Launch
begin

text \<open>
  The endpoints of the beta (\<open>pkg/beta/api.go\<close>) and runs of them. Bodies arrive decoded; the user that creates an
  invitation is the header \<open>X-User-ID\<close> as the client sends it.
\<close>

section \<open>Requests and replies\<close>

record invite_request =
  iq_email :: string
  iq_max_uses :: int
  iq_note :: string
  iq_ttl_hours :: int

record flag_request =
  fq_name :: string
  fq_description :: string
  fq_enabled :: bool
  fq_rollout :: int
  fq_plans :: "string list"
  fq_users :: "string list"

record check_request =
  kq_flag :: string
  kq_user :: string
  kq_plan :: string

record signup_request =
  wq_email :: string
  wq_name :: string
  wq_source :: string

datatype beta_reply =
    BetaFailure nat
  | InviteReply nat invite_code
  | InvitesReply "invite_code list"
  | RevokedReply
  | RedeemedReply invite_code
  | FlagReply nat feature_flag
  | FlagsReply "feature_flag list"
  | FlagDeleted
  | CheckReply bool
  | EntryReply nat waitlist_entry
  | EntriesReply "waitlist_entry list" nat nat
  | EntryRemoved
  | ReadinessReply nat readiness_report

datatype beta_call =
    ListInvites string
  | CreateInvite string "invite_request option"
  | GetInvite string
  | RevokeInvite string
  | Redeem "(string \<times> string) option"
  | ListFlags
  | CreateFlag "flag_request option"
  | GetFlag string
  | PutFlag string "flag_request option"
  | DeleteFlag string
  | CheckFlag "check_request option"
  | ListWaitlist string
  | JoinWaitlist "signup_request option"
  | GetEntry string
  | RemoveEntry string
  | Readiness "(string \<times> string \<times> bool \<times> readiness_check) list option"

section \<open>Invitations\<close>

text \<open>The lifetime is a product of two 64-bit integers, which wraps around.\<close>

definition lifetime :: "int \<Rightarrow> duration" where
  "lifetime hours = sint (word_of_int hours * word_of_int hour :: 64 word)"

definition handle_create_invite ::
  "string \<Rightarrow> string \<Rightarrow> time \<Rightarrow> string \<Rightarrow> invite_request option \<Rightarrow> beta_store \<Rightarrow> beta_reply \<times> beta_store" where
  "handle_create_invite new_id new_code now user_id body b =
     (if user_id = [] then (BetaFailure 401, b)
      else
        case body of
          None \<Rightarrow> (BetaFailure 400, b)
        | Some req \<Rightarrow>
            (case create_invite new_id new_code now
                    (Some \<lparr>ic_id = [], ic_code = [], ic_creator = user_id, ic_email = iq_email req, ic_max_uses = iq_max_uses req, ic_uses = 0,
                           ic_expires = (if iq_ttl_hours req > 0 then Some (now + lifetime (iq_ttl_hours req)) else None),
                           ic_note = iq_note req, ic_status = [], ic_created = 0, ic_updated = 0\<rparr>) b of
               (Inl _, b) \<Rightarrow> (BetaFailure 500, b)
             | (Inr ic, b) \<Rightarrow> (InviteReply 201 ic, b)))"

definition redeem_status :: "beta_error \<Rightarrow> nat" where
  "redeem_status e = (case e of InviteNotFound \<Rightarrow> 404 | InviteExpired \<Rightarrow> 410 | InviteUsed \<Rightarrow> 409 | InviteExhausted \<Rightarrow> 409 | _ \<Rightarrow> 400)"

definition handle_redeem :: "time \<Rightarrow> (string \<times> string) option \<Rightarrow> beta_store \<Rightarrow> beta_reply \<times> beta_store" where
  "handle_redeem now body b =
     (case body of
        None \<Rightarrow> (BetaFailure 400, b)
      | Some (code, email) \<Rightarrow>
          if code = [] \<or> email = [] then (BetaFailure 400, b)
          else
            case redeem_invite now code email b of
              (Inl e, b) \<Rightarrow> (BetaFailure (redeem_status e), b)
            | (Inr ic, b) \<Rightarrow> (RedeemedReply ic, b))"

definition handle_invite_by_id :: "time \<Rightarrow> bool \<Rightarrow> string \<Rightarrow> beta_store \<Rightarrow> beta_reply \<times> beta_store" where
  "handle_invite_by_id now revoke ident b =
     (if ident = [] then (BetaFailure 400, b)
      else if revoke
      then (case revoke_invite now ident b of
              (Some InviteNotFound, b) \<Rightarrow> (BetaFailure 404, b)
            | (Some _, b) \<Rightarrow> (BetaFailure 500, b)
            | (None, b) \<Rightarrow> (RevokedReply, b))
      else (case get_invite ident b of
              Inl InviteNotFound \<Rightarrow> (BetaFailure 404, b)
            | Inl _ \<Rightarrow> (BetaFailure 500, b)
            | Inr ic \<Rightarrow> (InviteReply 200 ic, b)))"

section \<open>Flags\<close>

definition handle_create_flag :: "string \<Rightarrow> time \<Rightarrow> flag_request option \<Rightarrow> beta_store \<Rightarrow> beta_reply \<times> beta_store" where
  "handle_create_flag new_id now body b =
     (case body of
        None \<Rightarrow> (BetaFailure 400, b)
      | Some req \<Rightarrow>
          if fq_name req = [] then (BetaFailure 400, b)
          else
            case create_flag new_id now
                   (Some \<lparr>ff_id = [], ff_name = fq_name req, ff_description = fq_description req, ff_enabled = fq_enabled req,
                          ff_rollout = fq_rollout req, ff_plans = fq_plans req, ff_users = fq_users req, ff_created = 0, ff_updated = 0\<rparr>) b of
              (Inl DuplicateFlag, b) \<Rightarrow> (BetaFailure 409, b)
            | (Inl InvalidRollout, b) \<Rightarrow> (BetaFailure 400, b)
            | (Inl _, b) \<Rightarrow> (BetaFailure 500, b)
            | (Inr ff, b) \<Rightarrow> (FlagReply 201 ff, b))"

definition handle_put_flag :: "time \<Rightarrow> string \<Rightarrow> flag_request option \<Rightarrow> beta_store \<Rightarrow> beta_reply \<times> beta_store" where
  "handle_put_flag now name body b =
     (case body of
        None \<Rightarrow> (BetaFailure 400, b)
      | Some req \<Rightarrow>
          (case get_flag name b of
             Inl FlagNotFound \<Rightarrow> (BetaFailure 404, b)
           | Inl _ \<Rightarrow> (BetaFailure 500, b)
           | Inr ff \<Rightarrow>
               (case update_flag now
                       (Some (ff\<lparr>ff_description := fq_description req, ff_enabled := fq_enabled req, ff_rollout := fq_rollout req,
                                 ff_plans := fq_plans req, ff_users := fq_users req\<rparr>)) b of
                  (Inl InvalidRollout, b) \<Rightarrow> (BetaFailure 400, b)
                | (Inl _, b) \<Rightarrow> (BetaFailure 500, b)
                | (Inr ff, b) \<Rightarrow> (FlagReply 200 ff, b))))"

definition handle_check_flag :: "check_request option \<Rightarrow> beta_store \<Rightarrow> beta_reply" where
  "handle_check_flag body b =
     (case body of
        None \<Rightarrow> BetaFailure 400
      | Some req \<Rightarrow>
          if kq_flag req = [] \<or> kq_user req = [] then BetaFailure 400
          else
            case get_flag (kq_flag req) b of
              Inl FlagNotFound \<Rightarrow> CheckReply False
            | Inl _ \<Rightarrow> BetaFailure 500
            | Inr ff \<Rightarrow> CheckReply (flag_enabled (kq_user req) (kq_plan req) ff))"

text \<open>The path of a flag named \<open>check\<close> is that of the check, which takes no other method.\<close>

definition handle_flag_by_name :: "string \<Rightarrow> beta_reply \<times> beta_store \<Rightarrow> beta_store \<Rightarrow> beta_reply \<times> beta_store" where
  "handle_flag_by_name name action b =
     (if name = ''check'' then (BetaFailure 405, b) else if name = [] then (BetaFailure 400, b) else action)"

section \<open>All calls\<close>

fun beta_api :: "string \<times> string \<times> time \<Rightarrow> beta_call \<Rightarrow> beta_store \<Rightarrow> beta_reply \<times> beta_store" where
  "beta_api d (ListInvites status) b =
     (case list_invites status b of Inl _ \<Rightarrow> (BetaFailure 400, b) | Inr ics \<Rightarrow> (InvitesReply ics, b))"
| "beta_api (new_id, new_code, now) (CreateInvite user_id body) b = handle_create_invite new_id new_code now user_id body b"
| "beta_api (_, _, now) (GetInvite ident) b = handle_invite_by_id now False ident b"
| "beta_api (_, _, now) (RevokeInvite ident) b = handle_invite_by_id now True ident b"
| "beta_api (_, _, now) (Redeem body) b = handle_redeem now body b"
| "beta_api d ListFlags b = (FlagsReply (list_flags b), b)"
| "beta_api (new_id, _, now) (CreateFlag body) b = handle_create_flag new_id now body b"
| "beta_api d (GetFlag name) b =
     handle_flag_by_name name
       (case get_flag name b of Inl FlagNotFound \<Rightarrow> (BetaFailure 404, b) | Inl _ \<Rightarrow> (BetaFailure 500, b) | Inr ff \<Rightarrow> (FlagReply 200 ff, b)) b"
| "beta_api (_, _, now) (PutFlag name body) b = handle_flag_by_name name (handle_put_flag now name body b) b"
| "beta_api d (DeleteFlag name) b =
     handle_flag_by_name name
       (case delete_flag name b of
          (Some FlagNotFound, b) \<Rightarrow> (BetaFailure 404, b)
        | (Some _, b) \<Rightarrow> (BetaFailure 500, b)
        | (None, b) \<Rightarrow> (FlagDeleted, b)) b"
| "beta_api d (CheckFlag body) b = (handle_check_flag body b, b)"
| "beta_api d (ListWaitlist status) b =
     (case list_waitlist status b of
        Inl _ \<Rightarrow> (BetaFailure 400, b)
      | Inr es \<Rightarrow> (EntriesReply es (count_waitlist [] b) (count_waitlist ''pending'' b), b))"
| "beta_api (new_id, _, now) (JoinWaitlist body) b =
     (case body of
        None \<Rightarrow> (BetaFailure 400, b)
      | Some req \<Rightarrow>
          if wq_email req = [] then (BetaFailure 400, b)
          else
            case add_to_waitlist new_id now
                   (Some \<lparr>we_id = [], we_email = wq_email req, we_name = wq_name req, we_source = wq_source req, we_status = [], we_invite = [],
                          we_note = [], we_created = 0, we_updated = 0\<rparr>) b of
              (Inl WaitlistDuplicate, b) \<Rightarrow> (BetaFailure 409, b)
            | (Inl InvalidEmail, b) \<Rightarrow> (BetaFailure 400, b)
            | (Inl _, b) \<Rightarrow> (BetaFailure 500, b)
            | (Inr e, b) \<Rightarrow> (EntryReply 201 e, b))"
| "beta_api d (GetEntry email) b =
     (if email = [] then (BetaFailure 400, b)
      else case get_waitlist_entry email b of
             Inl WaitlistNotFound \<Rightarrow> (BetaFailure 404, b) | Inl _ \<Rightarrow> (BetaFailure 500, b) | Inr e \<Rightarrow> (EntryReply 200 e, b))"
| "beta_api d (RemoveEntry email) b =
     (if email = [] then (BetaFailure 400, b)
      else case remove_from_waitlist email b of
             (Some WaitlistNotFound, b) \<Rightarrow> (BetaFailure 404, b) | (Some _, b) \<Rightarrow> (BetaFailure 500, b) | (None, b) \<Rightarrow> (EntryRemoved, b))"
| "beta_api d (Readiness checks) b =
     (case checks of
        None \<Rightarrow> (BetaFailure 503, b)
      | Some cs \<Rightarrow> (let r = run_readiness cs in ReadinessReply (if rr_ready r then 200 else 503) r, b))"

text \<open>A run notes the invitations that were redeemed.\<close>

fun beta_run :: "((string \<times> string \<times> time) \<times> beta_call) list \<Rightarrow> beta_store \<Rightarrow> string list \<times> beta_store" where
  "beta_run [] b = ([], b)"
| "beta_run ((d, call) # cs) b =
     (case beta_api d call b of
        (r, b) \<Rightarrow> (case beta_run cs b of
                     (ids, b) \<Rightarrow> (case r of RedeemedReply ic \<Rightarrow> (ic_id ic # ids, b) | _ \<Rightarrow> (ids, b))))"

definition empty_beta :: beta_store where
  "empty_beta = \<lparr>bt_invites = [], bt_flags = [], bt_waitlist = []\<rparr>"

section \<open>Lemmas\<close>

definition plain_item :: "string \<Rightarrow> bool" where
  "plain_item s \<longleftrightarrow> s \<noteq> [] \<and> CHR '','' \<notin> set s \<and> quote \<notin> set s"

lemma split_commas_not_Nil [simp]: "split_commas s \<noteq> []"
  by (cases s) (auto split: list.split)

lemma split_commas_plain: "CHR '','' \<notin> set p \<Longrightarrow> split_commas p = [p]"
  by (induction p) auto

lemma split_commas_append: "CHR '','' \<notin> set p \<Longrightarrow> split_commas (p @ CHR '','' # s) = p # split_commas s"
  by (induction p) auto

lemma split_commas_join: "ps \<noteq> [] \<Longrightarrow> \<forall>p \<in> set ps. CHR '','' \<notin> set p \<Longrightarrow> split_commas (join_commas ps) = ps"
  by (induction ps rule: join_commas.induct) (auto simp: split_commas_plain split_commas_append)

lemma quote_plain: "quote \<notin> set s \<Longrightarrow> quote_string s = quote # s @ [quote]"
proof -
  assume "quote \<notin> set s"
  then have "concat (map (\<lambda>c. if c = quote then [CHR 0x5C, quote] else [c]) s) = s" by (induction s) auto
  then show ?thesis by (simp add: quote_string_def)
qed

lemma trim_quoted: "s \<noteq> [] \<Longrightarrow> quote \<notin> set s \<Longrightarrow> trim_quotes (quote # s @ [quote]) = s"
proof -
  assume s: "s \<noteq> []" "quote \<notin> set s"
  then have "dropWhile (\<lambda>c. c = quote) (s @ [quote]) = s @ [quote]" by (cases s) auto
  moreover have "trim_right (\<lambda>c. c = quote) s = s" using s by (intro trim_right_id) (metis last_in_set)
  ultimately show ?thesis by (simp add: trim_quotes_def trim_right_snoc)
qed

lemma join_commas_quoted: "ss \<noteq> [] \<Longrightarrow> \<exists>m. join_commas (map (\<lambda>s. quote # s @ [quote]) ss) = quote # m @ [quote]"
proof (induction ss rule: join_commas.induct)
  case (3 s t ss)
  then obtain m where "join_commas (map (\<lambda>s. quote # s @ [quote]) (t # ss)) = quote # m @ [quote]" by auto
  then show ?case by simp
qed auto

lemma plain_lists_survive:
  assumes "\<forall>s \<in> set ss. plain_item s"
  shows "unmarshal_strings (marshal_strings ss) = ss"
proof (cases "ss = []")
  case True
  then show ?thesis by (simp add: marshal_strings_def unmarshal_strings_def trim_space_def trim_right_def is_space_def)
next
  case False
  let ?q = "\<lambda>s. quote # s @ [quote]"
  let ?j = "join_commas (map ?q ss)"
  obtain m where m: "?j = ?q m" using join_commas_quoted [OF False] by blast
  have quoted: "map quote_string ss = map ?q ss" using assms by (simp add: quote_plain plain_item_def)
  have trim: "trim_space (CHR ''['' # ?j @ '']'') = CHR ''['' # ?j @ '']''" "trim_space (?q s) = ?q s" for s
    by (simp_all add: trim_space_def trim_right_def is_space_def)
  have pieces: "split_commas ?j = map ?q ss" using False assms by (intro split_commas_join) (auto simp: plain_item_def)
  have items: "map (\<lambda>p. trim_quotes (trim_space p)) (map ?q ss) = ss"
    using assms by (auto simp: trim trim_quoted plain_item_def intro!: map_idI)
  have "filter (\<lambda>p. p \<noteq> []) ss = ss" using assms by (auto simp: plain_item_def filter_id_conv)
  then have "filter (\<lambda>p. p \<noteq> []) (map (\<lambda>p. trim_quotes (trim_space p)) (split_commas ?j)) = ss" unfolding pieces items .
  moreover have "unmarshal_strings (CHR ''['' # ?j @ '']'') = filter (\<lambda>p. p \<noteq> []) (map (\<lambda>p. trim_quotes (trim_space p)) (split_commas ?j))"
    unfolding unmarshal_strings_def trim(1) Let_def by (simp add: m butlast_append del: split_commas.simps)
  ultimately show ?thesis using False by (simp add: marshal_strings_def quoted)
qed

text \<open>How often an invitation was redeemed, and what the other operations leave of the invitations.\<close>

definition uses_of :: "string \<Rightarrow> beta_store \<Rightarrow> int" where
  "uses_of ident b = (case find (\<lambda>r. ic_id r = ident) (bt_invites b) of None \<Rightarrow> 0 | Some r \<Rightarrow> ic_uses r)"

definition invites_ok :: "beta_store \<Rightarrow> bool" where
  "invites_ok b \<longleftrightarrow> distinct (map ic_id (bt_invites b)) \<and> (\<forall>r \<in> set (bt_invites b). 0 < ic_max_uses r \<longrightarrow> ic_uses r \<le> ic_max_uses r)"

lemma find_map_same: "(\<And>r. p (f r) = p r) \<Longrightarrow> find p (map f xs) = map_option f (find p xs)"
  by (induction xs) auto

lemma other_tables [frame_simps]:
  "bt_invites (snd (create_flag i now f b)) = bt_invites b" "bt_invites (snd (update_flag now f b)) = bt_invites b"
  "bt_invites (snd (delete_flag n b)) = bt_invites b" "bt_invites (snd (add_to_waitlist i now e b)) = bt_invites b"
  "bt_invites (snd (remove_from_waitlist m b)) = bt_invites b"
  by (auto simp: create_flag_def update_flag_def delete_flag_def add_to_waitlist_def remove_from_waitlist_def Let_def split: option.split)

lemma other_tables_pair:
  "create_flag i now f b = (x, b') \<Longrightarrow> bt_invites b' = bt_invites b" "update_flag now f b = (x, b') \<Longrightarrow> bt_invites b' = bt_invites b"
  "delete_flag n b = (e, b') \<Longrightarrow> bt_invites b' = bt_invites b" "add_to_waitlist i now w b = (y, b') \<Longrightarrow> bt_invites b' = bt_invites b"
  "remove_from_waitlist m b = (e, b') \<Longrightarrow> bt_invites b' = bt_invites b"
  using other_tables by (metis snd_conv)+

definition redeemed_id :: "beta_reply \<Rightarrow> string \<Rightarrow> int" where
  "redeemed_id r ident = (case r of RedeemedReply ic \<Rightarrow> if ic_id ic = ident then 1 else 0 | _ \<Rightarrow> 0)"

lemma same_invites_step:
  "bt_invites b' = bt_invites b \<Longrightarrow> (\<forall>ic. r \<noteq> RedeemedReply ic) \<Longrightarrow> invites_ok b
    \<Longrightarrow> invites_ok b' \<and> uses_of ident b' = uses_of ident b + redeemed_id r ident"
  by (auto simp: invites_ok_def uses_of_def redeemed_id_def split: beta_reply.split)

lemma add_invite:
  assumes "invites_ok b" and "ic_uses row = 0" and "\<forall>r \<in> set (bt_invites b). ic_id r \<noteq> ic_id row"
  shows "invites_ok (b\<lparr>bt_invites := bt_invites b @ [row]\<rparr>)" and "uses_of ident (b\<lparr>bt_invites := bt_invites b @ [row]\<rparr>) = uses_of ident b"
  using assms by (auto simp: invites_ok_def uses_of_def find_append find_None_iff dest!: find_Some_set split: option.split)

lemma create_invite_step:
  assumes "invites_ok b" and "create_invite i c now (Some ic) b = (x, b')" and "ic_uses ic = 0"
  shows "invites_ok b' \<and> uses_of ident b' = uses_of ident b"
  using assms by (auto simp: create_invite_def Let_def list_ex_iff add_invite split: if_splits)

lemma revoke_invite_step:
  assumes "invites_ok b" and "revoke_invite now i b = (x, b')"
  shows "invites_ok b' \<and> uses_of ident b' = uses_of ident b"
  using assms by (auto simp: revoke_invite_def invites_ok_def uses_of_def comp_def find_map_same if_distrib [of ic_id] option.case_eq_if map_option_case
      cong: if_cong split: if_splits option.splits)

lemma redeem_invite_step:
  assumes "invites_ok b" and "redeem_invite now code email b = (Inr ic, b')"
  shows "invites_ok b' \<and> uses_of ident b' = uses_of ident b + (if ic_id ic = ident then 1 else 0)"
proof -
  obtain r where r: "r \<in> set (bt_invites b)" "ic_id ic = ic_id r" "\<not> used_up r"
    and b': "bt_invites b' = map (\<lambda>q. if ic_id q = ic_id r then q\<lparr>ic_uses := ic_uses q + 1, ic_updated := whole_second now\<rparr> else q) (bt_invites b)"
    using assms(2) by (auto simp: redeem_invite_def get_invite_by_code_def dest: find_Some_set split: if_splits sum.splits option.splits)
  have same: "q = r" if "q \<in> set (bt_invites b)" "ic_id q = ic_id r" for q
    using assms(1) r(1) that by (auto simp: invites_ok_def distinct_map inj_on_def)
  have "find (\<lambda>q. ic_id q = ic_id r) (bt_invites b) \<noteq> None" using r(1) by (auto simp: find_None_iff)
  then have "uses_of ident b' = uses_of ident b + (if ic_id ic = ident then 1 else 0)"
    unfolding uses_of_def b' by (subst find_map_same) (auto simp: r(2) dest: find_Some_set split: option.split)
  moreover have "ic_uses q + 1 \<le> ic_max_uses q" if "q \<in> set (bt_invites b)" "ic_id q = ic_id r" "0 < ic_max_uses q" for q
    using same [OF that(1,2)] r(3) that(3) by (auto simp: used_up_def)
  then have "invites_ok b'" using assms(1)
    by (auto simp: invites_ok_def b' comp_def if_distrib [of ic_id] cong: if_cong)
  ultimately show ?thesis by simp
qed

lemma beta_step:
  assumes "invites_ok b" and "beta_api d call b = (r, b')"
  shows "invites_ok b' \<and> uses_of ident b' = uses_of ident b + redeemed_id r ident"
proof -
  obtain i c now where d: "d = (i, c, now)" by (cases d) auto
  show ?thesis
  proof (cases call)
    case (CreateInvite user_id body)
    then show ?thesis using assms create_invite_step [OF assms(1)]
      by (fastforce simp: d handle_create_invite_def redeemed_id_def split: if_splits option.splits prod.splits sum.splits)
  next
    case (RevokeInvite ident')
    then show ?thesis using assms revoke_invite_step [OF assms(1)]
      by (fastforce simp: d handle_invite_by_id_def redeemed_id_def split: if_splits option.splits prod.splits beta_error.splits)
  next
    case (Redeem body)
    show ?thesis
    proof (cases "\<exists>ic. r = RedeemedReply ic")
      case True
      then obtain ic code email where "r = RedeemedReply ic" "redeem_invite now code email b = (Inr ic, b')"
        using assms(2) Redeem by (auto simp: d handle_redeem_def split: if_splits option.splits prod.splits sum.splits)
      then show ?thesis using redeem_invite_step [OF assms(1)] by (auto simp: redeemed_id_def)
    next
      case False
      then have "b' = b" using assms(2) Redeem
        by (auto simp: d handle_redeem_def redeem_invite_def split: if_splits option.splits prod.splits sum.splits)
      then show ?thesis using False assms(1) by (intro same_invites_step) auto
    qed
  next
    case (CreateFlag body)
    then show ?thesis using assms
      by (intro same_invites_step) (auto simp: d handle_create_flag_def dest: other_tables_pair split: if_splits option.splits prod.splits sum.splits beta_error.splits)
  next
    case (PutFlag name body)
    then show ?thesis using assms
      by (intro same_invites_step) (auto simp: d handle_flag_by_name_def handle_put_flag_def dest: other_tables_pair split: if_splits option.splits prod.splits sum.splits beta_error.splits)
  next
    case (DeleteFlag name)
    then show ?thesis using assms
      by (intro same_invites_step) (auto simp: d handle_flag_by_name_def dest: other_tables_pair split: if_splits option.splits prod.splits beta_error.splits)
  next
    case (JoinWaitlist body)
    then show ?thesis using assms
      by (intro same_invites_step) (auto simp: d dest: other_tables_pair split: if_splits option.splits prod.splits sum.splits beta_error.splits)
  next
    case (RemoveEntry email)
    then show ?thesis using assms
      by (intro same_invites_step) (auto simp: d dest: other_tables_pair split: if_splits option.splits prod.splits beta_error.splits)
  qed (use assms in \<open>auto simp: d redeemed_id_def handle_check_flag_def handle_invite_by_id_def handle_flag_by_name_def Let_def intro!: same_invites_step
      split: if_splits option.splits sum.splits beta_error.splits\<close>)
qed

lemma beta_run_counts:
  "invites_ok b \<Longrightarrow> beta_run cs b = (ids, b') \<Longrightarrow> invites_ok b' \<and> uses_of ident b' = uses_of ident b + int (count_list ids ident)"
proof (induction cs b arbitrary: ids b' rule: beta_run.induct)
  case (2 d call cs b)
  obtain r b1 where step: "beta_api d call b = (r, b1)" by fastforce
  obtain ids1 b2 where rest: "beta_run cs b1 = (ids1, b2)" by fastforce
  have "invites_ok b1" "uses_of ident b1 = uses_of ident b + redeemed_id r ident" using beta_step [OF "2.prems"(1) step, of ident] by simp_all
  moreover have "b' = b2" "ids = (case r of RedeemedReply ic \<Rightarrow> ic_id ic # ids1 | _ \<Rightarrow> ids1)"
    using "2.prems"(2) step rest by (auto split: beta_reply.splits)
  ultimately show ?case using "2.IH" [OF step [symmetric] _ rest]
    by (auto simp: redeemed_id_def split: beta_reply.splits)
qed simp

lemma find_unique: "distinct (map f xs) \<Longrightarrow> r \<in> set xs \<Longrightarrow> find (\<lambda>q. f q = f r) xs = Some r"
  by (induction xs) (auto simp: rev_image_eqI)

section \<open>Properties\<close>

text \<open>Property C32: An invitation is redeemed as often as its counter says and never more often than it allows, whatever calls are made.\<close>

theorem redemptions_bounded:
  assumes "beta_run cs empty_beta = (ids, b)" and "r \<in> set (bt_invites b)"
  shows "ic_uses r = int (count_list ids (ic_id r)) \<and> (0 < ic_max_uses r \<longrightarrow> int (count_list ids (ic_id r)) \<le> ic_max_uses r)"
proof -
  have ok: "invites_ok b" and counts: "uses_of (ic_id r) b = int (count_list ids (ic_id r))"
    using beta_run_counts [OF _ assms(1), of "ic_id r"] by (simp_all add: invites_ok_def empty_beta_def uses_of_def)
  have "find (\<lambda>q. ic_id q = ic_id r) (bt_invites b) = Some r"
    using ok assms(2) by (auto simp: invites_ok_def intro!: find_unique)
  then have "ic_uses r = uses_of (ic_id r) b" by (simp add: uses_of_def)
  then show ?thesis using ok counts assms(2) by (auto simp: invites_ok_def)
qed

text \<open>Property C38: The plans and users of a flag read back as they were written where each is not empty and holds neither a comma nor
  a quotation mark.\<close>

theorem flag_lists_survive:
  assumes "create_flag i now (Some ff) b = (Inr ff', b')" and "\<forall>s \<in> set (ff_plans ff) \<union> set (ff_users ff). plain_item s"
  shows "\<exists>stored. get_flag (ff_name ff) b' = Inr stored \<and> ff_plans stored = ff_plans ff \<and> ff_users stored = ff_users ff
    \<and> ff_rollout stored = ff_rollout ff \<and> (\<forall>u plan. flag_enabled u plan stored = flag_enabled u plan ff)"
proof -
  have "find (\<lambda>r. ff_name (fr_flag r) = ff_name ff) (bt_flags b) = None" "ff_name ff \<noteq> []" "bt_flags b' = bt_flags b @ [row_of_flag ff']"
    and same: "ff_name ff' = ff_name ff" "ff_plans ff' = ff_plans ff" "ff_users ff' = ff_users ff" "ff_rollout ff' = ff_rollout ff" "ff_enabled ff' = ff_enabled ff"
    using assms(1) by (auto simp: create_flag_def Let_def list_ex_iff find_None_iff split: if_splits)
  then have "get_flag (ff_name ff) b' = Inr (scan_flag (row_of_flag ff'))"
    by (simp add: get_flag_def find_append row_of_flag_def)
  moreover have "unmarshal_strings (marshal_strings (ff_plans ff)) = ff_plans ff" "unmarshal_strings (marshal_strings (ff_users ff)) = ff_users ff"
    using assms(2) by (auto intro!: plain_lists_survive)
  ultimately show ?thesis by (auto simp: scan_flag_def row_of_flag_def same flag_enabled_def)
qed

definition sample_flag :: feature_flag where
  "sample_flag = \<lparr>ff_id = ''f'', ff_name = ''dark'', ff_description = [], ff_enabled = True, ff_rollout = 0, ff_plans = [''pro''], ff_users = [''u1'', ''u2''],
     ff_created = 0, ff_updated = 0\<rparr>"

lemma flag_lists_survive_witness:
  "\<exists>stored. get_flag ''dark'' (snd (create_flag ''i'' 1 (Some sample_flag) empty_beta)) = Inr stored \<and> flag_enabled ''u2'' [] stored"
proof -
  obtain ff' b' where c: "create_flag ''i'' 1 (Some sample_flag) empty_beta = (Inr ff', b')"
    by (simp add: create_flag_def sample_flag_def bad_rollout_def empty_beta_def Let_def)
  have "\<forall>s \<in> set (ff_plans sample_flag) \<union> set (ff_users sample_flag). plain_item s" by (simp add: sample_flag_def plain_item_def)
  from flag_lists_survive [OF c this] obtain stored where "get_flag (ff_name sample_flag) b' = Inr stored"
    "\<forall>u plan. flag_enabled u plan stored = flag_enabled u plan sample_flag" by blast
  moreover have "ff_name sample_flag = ''dark''" "flag_enabled ''u2'' [] sample_flag" by (simp_all add: sample_flag_def flag_enabled_def)
  ultimately show ?thesis using c by auto
qed

definition sample_invite :: invite_request where
  "sample_invite = \<lparr>iq_email = [], iq_max_uses = 1, iq_note = [], iq_ttl_hours = 0\<rparr>"

lemma redemptions_bounded_witness:
  "\<exists>r. bt_invites (snd (beta_run [((''i'', ''c'', 1), CreateInvite ''u'' (Some sample_invite)), ((''i'', ''c'', 2), Redeem (Some (''c'', ''m'')))] empty_beta)) = [r]
    \<and> ic_uses r = int (count_list [''i''] ''i'') \<and> int (count_list [''i''] ''i'') \<le> 1"
proof -
  let ?cs = "[((''i'', ''c'', 1), CreateInvite ''u'' (Some sample_invite)), ((''i'', ''c'', 2), Redeem (Some (''c'', ''m'')))]"
  obtain b where run: "beta_run ?cs empty_beta = ([''i''], b)" and "\<exists>r. bt_invites b = [r] \<and> ic_id r = ''i'' \<and> ic_max_uses r = 1"
    by (simp add: handle_create_invite_def create_invite_def handle_redeem_def redeem_invite_def get_invite_by_code_def sample_invite_def empty_beta_def
        valid_invite_status_def expired_at_def used_up_def)
  then obtain r where r: "bt_invites b = [r]" "ic_id r = ''i''" "ic_max_uses r = 1" by blast
  from redemptions_bounded [OF run, of r] r run show ?thesis by auto
qed

text \<open>A name with a comma is read back as two: the flag of the one user is enabled for two others.\<close>

lemma comma_enables_others:
  "flag_enabled ''eve'' [] (scan_flag (row_of_flag (sample_flag\<lparr>ff_users := [''bob,eve'']\<rparr>)))
   \<and> \<not> flag_enabled ''bob,eve'' [] (scan_flag (row_of_flag (sample_flag\<lparr>ff_users := [''bob,eve'']\<rparr>)))"
  by (simp add: flag_enabled_def scan_flag_def row_of_flag_def sample_flag_def marshal_strings_def unmarshal_strings_def quote_string_def
      trim_space_def trim_right_def trim_quotes_def is_space_def)

text \<open>An invitation marked expired is redeemed all the same, though it does not count as usable.\<close>

lemma expired_status_redeemed:
  assumes "get_invite_by_code code b = Inr ic" and "ic_status ic = ''expired''" and "ic_expires ic = None" and "ic_max_uses ic = 0" and "ic_email ic = []"
  shows "\<not> is_usable now ic \<and> fst (redeem_invite now code email b) = Inr (ic\<lparr>ic_uses := ic_uses ic + 1, ic_updated := now\<rparr>)"
  using assms by (auto simp: is_usable_def redeem_invite_def get_invite_by_code_def expired_at_def used_up_def split: if_splits option.splits)

text \<open>Raising the percentage of a flag keeps it enabled for everyone it was enabled for.\<close>

lemma rollout_monotone: "flag_enabled u plan ff \<Longrightarrow> ff_rollout ff \<le> p \<Longrightarrow> flag_enabled u plan (ff\<lparr>ff_rollout := p\<rparr>)"
  by (auto simp: flag_enabled_def split: if_splits)

end
