(* ===== verification/Audit_Log.thy ===== *)
theory Audit_Log
  imports Time_Text Json "HOL-Library.Multiset"
begin

text \<open>
  The audit log (\<open>pkg/audit\<close>): events and how they are built, the SQLite store with its queries, the logger, the
  middleware that records requests, and the endpoints. A timestamp is compared as the text of its
  column. The details of an event are a map, which its column keeps as JSON; the times of query
  parameters, the texts of statuses and the splitting of addresses are those of Go's library, given as arguments.
\<close>

section \<open>Events\<close>

record audit_event =
  ev_id :: string
  ev_time :: time
  ev_user :: string
  ev_actor :: string
  ev_action :: string
  ev_resource :: string
  ev_resource_id :: string
  ev_detail :: "string \<rightharpoonup> string"
  ev_ip :: string
  ev_agent :: string
  ev_status :: string
  ev_error :: string

definition new_event :: "string \<Rightarrow> time \<Rightarrow> string \<Rightarrow> audit_event" where
  "new_event new_id now action =
     \<lparr>ev_id = new_id, ev_time = now, ev_user = [], ev_actor = [], ev_action = action, ev_resource = [], ev_resource_id = [],
      ev_detail = Map.empty, ev_ip = [], ev_agent = [], ev_status = ''success'', ev_error = []\<rparr>"

definition with_resource :: "string \<Rightarrow> string \<Rightarrow> audit_event \<Rightarrow> audit_event" where
  "with_resource res res_id e = e\<lparr>ev_resource := res, ev_resource_id := res_id\<rparr>"

definition with_detail :: "string \<Rightarrow> string \<Rightarrow> audit_event \<Rightarrow> audit_event" where
  "with_detail key v e = e\<lparr>ev_detail := (ev_detail e)(key \<mapsto> v)\<rparr>"

definition with_failure :: "string \<Rightarrow> audit_event \<Rightarrow> audit_event" where
  "with_failure msg e = e\<lparr>ev_status := ''failure'', ev_error := msg\<rparr>"

section \<open>The store\<close>

datatype audit_error = NilEvent | EmptyAction | InsertFailed

definition log_event :: "audit_event option \<Rightarrow> audit_event list \<Rightarrow> audit_error option \<times> audit_event list" where
  "log_event event log =
     (case event of
        None \<Rightarrow> (Some NilEvent, log)
      | Some e \<Rightarrow>
          if ev_action e = [] then (Some EmptyAction, log)
          else if list_ex (\<lambda>r. ev_id r = ev_id e) log then (Some InsertFailed, log)
          else (None, log @ [e]))"

record query_filter =
  qf_user :: string
  qf_action :: string
  qf_resource :: string
  qf_resource_id :: string
  qf_status :: string
  qf_since :: "time option"
  qf_until :: "time option"
  qf_limit :: int
  qf_offset :: int

text \<open>SQLite's \<open>LIKE\<close>: a percent sign stands for any text, an underscore for any character, and the case of a letter is ignored.\<close>

fun like :: "string \<Rightarrow> string \<Rightarrow> bool" where
  "like [] s \<longleftrightarrow> s = []"
| "like (p # ps) [] \<longleftrightarrow> p = CHR ''%'' \<and> like ps []"
| "like (p # ps) (c # cs) \<longleftrightarrow>
     (if p = CHR ''%'' then like ps (c # cs) \<or> like (p # ps) cs
      else (p = CHR ''_'' \<or> lower_char p = lower_char c) \<and> like ps cs)"

definition matches_action :: "string \<Rightarrow> string \<Rightarrow> bool" where
  "matches_action wanted action \<longleftrightarrow>
     (if wanted = [] then True
      else if last wanted = CHR ''.'' then like (wanted @ ''%'') action
      else action = wanted)"

definition matches :: "query_filter \<Rightarrow> audit_event \<Rightarrow> bool" where
  "matches f e \<longleftrightarrow>
     (qf_user f = [] \<or> ev_user e = qf_user f) \<and> matches_action (qf_action f) (ev_action e)
     \<and> (qf_resource f = [] \<or> ev_resource e = qf_resource f) \<and> (qf_resource_id f = [] \<or> ev_resource_id e = qf_resource_id f)
     \<and> (qf_status f = [] \<or> ev_status e = qf_status f)
     \<and> (case qf_since f of None \<Rightarrow> True | Some t \<Rightarrow> stamp t \<le> stamp (ev_time e))
     \<and> (case qf_until f of None \<Rightarrow> True | Some t \<Rightarrow> stamp (ev_time e) \<le> stamp t)"

definition page_limit :: "int \<Rightarrow> nat" where
  "page_limit limit = (if limit \<le> 0 then 100 else if 1000 < limit then 1000 else nat limit)"

text \<open>Events whose texts of time are equal come here in the order of the table. SQLite does not document the order
  of ties; it is only assumed to be the same for every page of one query.\<close>

definition query_events :: "query_filter \<Rightarrow> audit_event list \<Rightarrow> audit_event list" where
  "query_events f log =
     take (page_limit (qf_limit f))
       (drop (nat (qf_offset f)) (newest_first (\<lambda>e. stamp (ev_time e)) (filter (matches f) log)))"

definition count_events :: "query_filter \<Rightarrow> audit_event list \<Rightarrow> nat" where
  "count_events f log = length (filter (matches f) log)"

definition delete_events_before :: "time \<Rightarrow> audit_event list \<Rightarrow> nat \<times> audit_event list" where
  "delete_events_before before log =
     (let old = (\<lambda>e. stamp (ev_time e) < stamp before)
      in (length (filter old log), filter (\<lambda>e. \<not> old e) log))"

text \<open>The logger reports what the store refuses, if it has somebody to report to.\<close>

definition logger_log :: "bool \<Rightarrow> audit_event option \<Rightarrow> audit_event list \<Rightarrow> audit_error option \<times> audit_event list" where
  "logger_log on_error event log =
     (case log_event event log of (err, log') \<Rightarrow> (if on_error then err else None, log'))"

section \<open>The middleware\<close>

text \<open>What a handler does with its response, as far as the status goes.\<close>

datatype response_act = WriteHeader nat | WriteBody

fun response_status :: "response_act list \<Rightarrow> nat \<times> bool \<Rightarrow> nat" where
  "response_status [] (status, written) = status"
| "response_status (WriteHeader code # acts) (status, written) =
     (if written then response_status acts (status, written) else response_status acts (code, True))"
| "response_status (WriteBody # acts) (status, written) = response_status acts (status, True)"

record audited_request =
  ar_forwarded :: string
  ar_real_ip :: string
  ar_remote :: string
  ar_agent :: string

definition extract_ip :: "(string \<Rightarrow> string option) \<Rightarrow> audited_request \<Rightarrow> string" where
  "extract_ip host_of r =
     (let first = trim_space (takeWhile (\<lambda>c. c \<noteq> CHR '','') (ar_forwarded r))
      in if ar_forwarded r \<noteq> [] \<and> first \<noteq> [] then first
         else if ar_real_ip r \<noteq> [] then ar_real_ip r
         else case host_of (ar_remote r) of None \<Rightarrow> ar_remote r | Some host \<Rightarrow> host)"

definition wrap_handler ::
  "(string \<Rightarrow> string option) \<Rightarrow> (nat \<Rightarrow> string) \<Rightarrow> string \<times> time \<Rightarrow> string \<Rightarrow> string \<Rightarrow> string option \<Rightarrow> audited_request
     \<Rightarrow> response_act list \<Rightarrow> audit_event list \<Rightarrow> audit_event list" where
  "wrap_handler host_of status_text d action res user r acts log =
     (let status = response_status acts (200, False);
          e = (with_resource res [] (new_event (fst d) (snd d) action))\<lparr>ev_ip := extract_ip host_of r, ev_agent := ar_agent r\<rparr>;
          e = (case user of None \<Rightarrow> e | Some u \<Rightarrow> e\<lparr>ev_user := u\<rparr>);
          e = (if 400 \<le> status then with_failure (status_text status) e else e)
      in snd (logger_log False (Some e) log))"

section \<open>The endpoints\<close>

definition parse_filter :: "(string \<Rightarrow> time option) \<Rightarrow> (string \<Rightarrow> string) \<Rightarrow> query_filter" where
  "parse_filter parse_time q =
     \<lparr>qf_user = q ''user_id'', qf_action = q ''action'', qf_resource = q ''resource'', qf_resource_id = q ''resource_id'',
      qf_status = q ''status'',
      qf_since = (if q ''since'' = [] then None else parse_time (q ''since'')),
      qf_until = (if q ''until'' = [] then None else parse_time (q ''until'')),
      qf_limit = (case parse_int (q ''limit'') of None \<Rightarrow> 0 | Some n \<Rightarrow> if 0 < n then n else 0),
      qf_offset = (case parse_int (q ''offset'') of None \<Rightarrow> 0 | Some n \<Rightarrow> if 0 \<le> n then n else 0)\<rparr>"

record events_reply =
  er_events :: "audit_event list"
  er_count :: nat
  er_limit :: int
  er_offset :: int

definition handle_list_events :: "(string \<Rightarrow> time option) \<Rightarrow> (string \<Rightarrow> string) \<Rightarrow> audit_event list \<Rightarrow> events_reply" where
  "handle_list_events parse_time q log =
     (let f = parse_filter parse_time q; es = query_events f log
      in \<lparr>er_events = es, er_count = length es, er_limit = qf_limit f, er_offset = qf_offset f\<rparr>)"

definition handle_count_events :: "(string \<Rightarrow> time option) \<Rightarrow> (string \<Rightarrow> string) \<Rightarrow> audit_event list \<Rightarrow> nat" where
  "handle_count_events parse_time q log = count_events (parse_filter parse_time q) log"

section \<open>Pages\<close>

lemma concat_pages: "concat (map (\<lambda>k. take n (drop (k * n) xs)) [0..<m]) = take (m * n) xs"
proof (induction m)
  case (Suc m)
  have "take (Suc m * n) xs = take (m * n) xs @ take n (drop (m * n) xs)" by (metis add.commute mult_Suc take_add)
  with Suc show ?case by simp
qed simp

lemma matches_paged [simp]: "matches (f\<lparr>qf_limit := l, qf_offset := off\<rparr>) = matches f"
  by (simp add: fun_eq_iff matches_def)

lemma page_limit_bound: "page_limit limit \<le> 1000" and page_limit_pos: "0 < page_limit limit"
  by (auto simp: page_limit_def)

lemma query_at_most_1000: "length (query_events f log) \<le> 1000"
  using page_limit_bound [of "qf_limit f"] by (simp add: query_events_def min.coboundedI2 min_le_iff_disj)

lemma concat_query_pages:
  "0 < n \<Longrightarrow> n \<le> 1000 \<Longrightarrow>
   concat (map (\<lambda>k. query_events (f\<lparr>qf_limit := int n, qf_offset := int (k * n)\<rparr>) log) [0..<m])
     = take (m * n) (newest_first (\<lambda>e. stamp (ev_time e)) (filter (matches f) log))"
  by (simp add: query_events_def page_limit_def concat_pages nat_mult_distrib)

lemma mset_newest_first [simp]: "mset (newest_first key rows) = mset rows"
  by (simp add: newest_first_def)

text \<open>Property C34: Pages of at most a thousand events, read one after the other, give every event the filter asks for exactly
  once, and no event comes before one that is younger by a second or more.\<close>

theorem pages_cover_the_log:
  assumes "0 < n" and "n \<le> 1000" and "count_events f log \<le> m * n"
    and "es = concat (map (\<lambda>k. query_events (f\<lparr>qf_limit := int n, qf_offset := int (k * n)\<rparr>) log) [0..<m])"
  shows "mset es = mset (filter (matches f) log) \<and> sorted_wrt (\<lambda>e e'. ev_time e' < ev_time e + second) es"
proof -
  let ?all = "newest_first (\<lambda>e. stamp (ev_time e)) (filter (matches f) log)"
  have "es = take (m * n) ?all" using concat_query_pages [OF assms(1,2)] assms(4) by simp
  also have "\<dots> = ?all" using assms(3) by (simp add: count_events_def)
  finally have es: "es = ?all" .
  show ?thesis unfolding es using newest_first_sorted [of "\<lambda>e. stamp (ev_time e)" "filter (matches f) log"]
    by (auto elim!: sorted_wrt_mono_rel [rotated] dest: stamp_le_bound)
qed

section \<open>Prefixes of actions\<close>

lemma like_any: "like ''%'' s"
  by (induction s) auto

lemma like_prefix:
  "\<forall>c \<in> set a. c \<noteq> CHR ''%'' \<and> c \<noteq> CHR ''_'' \<Longrightarrow> like (a @ ''%'') s \<longleftrightarrow> length a \<le> length s \<and> to_lower (take (length a) s) = to_lower a"
proof (induction a arbitrary: s)
  case step: (Cons p a)
  have ih: "like (a @ ''%'') cs \<longleftrightarrow> length a \<le> length cs \<and> to_lower (take (length a) cs) = to_lower a" for cs
    using step by simp
  show ?case
  proof (cases s)
    case (Cons c cs)
    have "p \<noteq> CHR ''%'' \<and> p \<noteq> CHR ''_''" using step.prems by simp
    then have "like ((p # a) @ ''%'') (c # cs) \<longleftrightarrow> lower_char p = lower_char c \<and> like (a @ ''%'') cs" by simp
    then show ?thesis unfolding Cons ih by (simp add: to_lower_def conj_ac eq_commute [of "lower_char p"])
  qed (use step.prems in simp)
qed (simp add: like_any to_lower_def del: like.simps)

text \<open>A filter that ends in a dot takes the actions that start with it, whatever the case of their letters.\<close>

lemma category_filter:
  assumes "wanted \<noteq> []" and "last wanted = CHR ''.''" and "CHR ''%'' \<notin> set wanted" and "CHR ''_'' \<notin> set wanted"
  shows "matches_action wanted action \<longleftrightarrow> length wanted \<le> length action \<and> to_lower (take (length wanted) action) = to_lower wanted"
  using like_prefix [of wanted action] assms by (auto simp: matches_action_def)

text \<open>The wildcards of the filter are not quoted.\<close>

lemma filter_with_wildcard: "matches_action ''%.'' ''auth.login'' \<and> matches_action ''auth_x.'' ''auth.x.y''"
  by (simp add: matches_action_def lower_char_def)

section \<open>The limit a reply reports\<close>

lemma reported_limit_unclamped:
  assumes "q ''limit'' = ''5000''"
  shows "er_limit (handle_list_events pt q log) = 5000 \<and> er_count (handle_list_events pt q log) \<le> 1000"
  using assms query_at_most_1000 [of "parse_filter pt q" log]
  by (simp add: handle_list_events_def Let_def parse_filter_def parse_int_def digits_value_def is_digit_def)

section \<open>Deleting old events\<close>

lemma delete_events_before_bounds:
  assumes "delete_events_before before log = (n, log')"
  shows "length log' + n = length log" "set log' \<subseteq> set log"
    "e \<in> set log \<Longrightarrow> before + second \<le> ev_time e \<Longrightarrow> e \<in> set log'"
    "e \<in> set log' \<Longrightarrow> before < ev_time e + second"
proof -
  have log': "n = length (filter (\<lambda>e. stamp (ev_time e) < stamp before) log)" "log' = filter (\<lambda>e. \<not> stamp (ev_time e) < stamp before) log"
    using assms by (simp_all add: delete_events_before_def Let_def)
  show "length log' + n = length log" unfolding log' using sum_length_filter_compl [of "\<lambda>e. stamp (ev_time e) < stamp before" log] by simp
  show "set log' \<subseteq> set log" unfolding log' by auto
  show "e \<in> set log \<Longrightarrow> before + second \<le> ev_time e \<Longrightarrow> e \<in> set log'"
    unfolding log' using stamp_less_later [OF second_before, of before "ev_time e"] by auto
  show "e \<in> set log' \<Longrightarrow> before < ev_time e + second" unfolding log' using stamp_le_bound [of before "ev_time e"] by auto
qed

text \<open>Within a second the order of the texts may delete an event that is not older.\<close>

lemma younger_event_deleted:
  "delete_events_before (2 * second) [(new_event i (2 * second + 500000000) action)] = (1, [])"
  by (simp add: delete_events_before_def new_event_def stamp_def fraction_text_def list_less_def)

section \<open>The middleware\<close>

lemma response_status_written: "response_status acts (status, True) = status"
  by (induction acts "(status, True)" rule: response_status.induct) auto

text \<open>The status is that of the first thing the handler writes.\<close>

lemma response_status_first:
  "response_status acts (200, False) = (case acts of WriteHeader code # _ \<Rightarrow> code | _ \<Rightarrow> 200)"
  by (cases acts; cases "hd acts") (auto simp: response_status_written)

text \<open>Every request leaves one event, with the user the middleware knows and a failure from status 400 on.\<close>

lemma request_is_logged:
  assumes "action \<noteq> []" and "new_id \<notin> ev_id ` set log"
  shows "\<exists>e. wrap_handler host st (new_id, now) action res user r acts log = log @ [e]
    \<and> ev_action e = action \<and> ev_time e = now \<and> ev_user e = (case user of None \<Rightarrow> [] | Some u \<Rightarrow> u)
    \<and> (ev_status e = ''failure'' \<longleftrightarrow> 400 \<le> response_status acts (200, False))"
  using assms by (auto simp: wrap_handler_def Let_def logger_log_def log_event_def new_event_def with_resource_def with_failure_def
      list_ex_iff split: option.split)

definition all_events :: query_filter where
  "all_events = \<lparr>qf_user = [], qf_action = [], qf_resource = [], qf_resource_id = [], qf_status = [], qf_since = None, qf_until = None,
     qf_limit = 0, qf_offset = 0\<rparr>"

definition sample_log :: "audit_event list" where
  "sample_log = [new_event ''e1'' 0 ''admin.user_deleted'', new_event ''e2'' (3 * second) ''config.updated'']"

lemma pages_cover_the_log_witness:
  "\<exists>es. es = concat (map (\<lambda>k. query_events (all_events\<lparr>qf_limit := int 1, qf_offset := int (k * 1)\<rparr>) sample_log) [0..<2])
     \<and> mset es = mset sample_log \<and> sorted_wrt (\<lambda>e e'. ev_time e' < ev_time e + second) es"
proof -
  have all: "matches all_events e" for e by (simp add: matches_def matches_action_def all_events_def)
  then have "filter (matches all_events) sample_log = sample_log" by (simp add: filter_id_conv)
  moreover from this have "count_events all_events sample_log \<le> 2 * 1" by (simp add: count_events_def sample_log_def)
  ultimately show ?thesis using pages_cover_the_log [of 1 all_events sample_log 2] by simp
qed

end
