(* ===== verification/Data_Rights.thy ===== *)
theory Data_Rights
  imports Audit_Log
begin

text \<open>
  Requests of data subjects (\<open>pkg/gdpr\<close>): the table of requests, the service that exports and erases the data of a
  user, the enforcement of retention, and the endpoints. A source of data is a record of two operations on a
  world of type \<open>'w\<close>, which stands for all the data they act on; the JSON writer and the identifiers are arguments.
\<close>

section \<open>Requests\<close>

record subject_request =
  dr_id :: string
  dr_user :: string
  dr_type :: string
  dr_status :: string
  dr_requested_by :: string
  dr_notes :: string
  dr_result :: string
  dr_error :: string
  dr_created :: time
  dr_updated :: time
  dr_completed :: "time option"

datatype gdpr_error =
  NilRequest | UserIdRequired | RequestNotFound | InvalidRequestType | InvalidRequestStatus | AlreadyProcessed | RequestInsertFailed

definition valid_request_type :: "string \<Rightarrow> bool" where
  "valid_request_type t \<longleftrightarrow> t \<in> {''export'', ''erasure''}"

definition valid_request_status :: "string \<Rightarrow> bool" where
  "valid_request_status s \<longleftrightarrow> s \<in> {''pending'', ''processing'', ''completed'', ''failed'', ''canceled''}"

text \<open>A request without a time of creation has \<open>None\<close> there.\<close>

definition create_request :: "string \<Rightarrow> time \<Rightarrow> (subject_request \<times> time option) option \<Rightarrow> subject_request list
    \<Rightarrow> (gdpr_error + subject_request) \<times> subject_request list" where
  "create_request new_id now request rows =
     (case request of
        None \<Rightarrow> (Inl NilRequest, rows)
      | Some (r, created) \<Rightarrow>
          if dr_user r = [] then (Inl UserIdRequired, rows)
          else if \<not> valid_request_type (dr_type r) then (Inl InvalidRequestType, rows)
          else
            let r = r\<lparr>dr_id := if dr_id r = [] then new_id else dr_id r, dr_created := (case created of None \<Rightarrow> now | Some t \<Rightarrow> t),
                      dr_updated := now, dr_status := if dr_status r = [] then ''pending'' else dr_status r\<rparr>
            in if \<not> valid_request_status (dr_status r) then (Inl InvalidRequestStatus, rows)
               else if list_ex (\<lambda>q. dr_id q = dr_id r) rows then (Inl RequestInsertFailed, rows)
               else (Inr r, rows @ [r\<lparr>dr_completed := None\<rparr>]))"

definition get_request :: "string \<Rightarrow> subject_request list \<Rightarrow> gdpr_error + subject_request" where
  "get_request ident rows =
     (if ident = [] then Inl RequestNotFound
      else case find (\<lambda>r. dr_id r = ident) rows of None \<Rightarrow> Inl RequestNotFound | Some r \<Rightarrow> Inr r)"

definition list_requests :: "string \<Rightarrow> subject_request list \<Rightarrow> gdpr_error + subject_request list" where
  "list_requests user_id rows =
     (if user_id = [] then Inl UserIdRequired
      else Inr (newest_first (\<lambda>r. stamp (dr_created r)) (filter (\<lambda>r. dr_user r = user_id) rows)))"

definition list_requests_by_status :: "string \<Rightarrow> subject_request list \<Rightarrow> gdpr_error + subject_request list" where
  "list_requests_by_status status rows =
     (if \<not> valid_request_status status then Inl InvalidRequestStatus
      else Inr (sort_key (\<lambda>r. stamp (dr_created r)) (filter (\<lambda>r. dr_status r = status) rows)))"

definition update_request_status :: "time \<Rightarrow> string \<Rightarrow> string \<Rightarrow> string \<Rightarrow> subject_request list \<Rightarrow> gdpr_error option \<times> subject_request list" where
  "update_request_status now ident status msg rows =
     (if ident = [] then (Some RequestNotFound, rows)
      else if \<not> valid_request_status status then (Some InvalidRequestStatus, rows)
      else if list_ex (\<lambda>r. dr_id r = ident) rows then
        (None, map (\<lambda>r. if dr_id r = ident
                        then r\<lparr>dr_status := status, dr_error := msg, dr_updated := now,
                               dr_completed := if status \<in> {''completed'', ''failed''} then Some now else dr_completed r\<rparr>
                        else r) rows)
      else (Some RequestNotFound, rows))"

definition set_request_result :: "time \<Rightarrow> string \<Rightarrow> string \<Rightarrow> subject_request list \<Rightarrow> gdpr_error option \<times> subject_request list" where
  "set_request_result now ident result rows =
     (if ident = [] then (Some RequestNotFound, rows)
      else if list_ex (\<lambda>r. dr_id r = ident) rows then
        (None, map (\<lambda>r. if dr_id r = ident
                        then r\<lparr>dr_status := ''completed'', dr_result := result, dr_updated := now, dr_completed := Some now\<rparr>
                        else r) rows)
      else (Some RequestNotFound, rows))"

definition count_requests :: "string \<Rightarrow> subject_request list \<Rightarrow> gdpr_error + nat" where
  "count_requests status rows =
     (if status = [] then Inr (length rows)
      else if \<not> valid_request_status status then Inl InvalidRequestStatus
      else Inr (length (filter (\<lambda>r. dr_status r = status) rows)))"

definition delete_requests_before :: "time \<Rightarrow> subject_request list \<Rightarrow> nat \<times> subject_request list" where
  "delete_requests_before before rows =
     (let old = (\<lambda>r. case dr_completed r of None \<Rightarrow> False | Some t \<Rightarrow> stamp t < stamp before)
      in (length (filter old rows), filter (\<lambda>r. \<not> old r) rows))"

section \<open>The service\<close>

record ('d, 'w) data_source =
  ds_name :: string
  ds_export :: "string \<Rightarrow> 'w \<Rightarrow> (string + 'd \<times> int) \<times> 'w"
  ds_erase :: "string \<Rightarrow> 'w \<Rightarrow> (int \<times> string option) \<times> 'w"

datatype 'd section_data = ExportError string | ExportData 'd

record 'd export_section =
  xs_name :: string
  xs_count :: int
  xs_data :: "'d section_data"

record 'd data_export =
  de_user :: string
  de_time :: time
  de_sections :: "'d export_section list"

record erasure_section =
  rs_name :: string
  rs_deleted :: int
  rs_error :: string

record erasure_report =
  ep_user :: string
  ep_time :: time
  ep_sections :: "erasure_section list"
  ep_total :: int

definition service_request :: "string \<Rightarrow> string \<Rightarrow> string \<Rightarrow> subject_request" where
  "service_request user_id typ requested_by =
     \<lparr>dr_id = [], dr_user = user_id, dr_type = typ, dr_status = ''processing'', dr_requested_by = requested_by, dr_notes = [], dr_result = [],
      dr_error = [], dr_created = 0, dr_updated = 0, dr_completed = None\<rparr>"

fun export_sections :: "string \<Rightarrow> ('d, 'w) data_source list \<Rightarrow> 'w \<Rightarrow> 'd export_section list \<times> 'w" where
  "export_sections user_id [] w = ([], w)"
| "export_sections user_id (src # srcs) w =
     (case ds_export src user_id w of
        (res, w) \<Rightarrow>
          let x = (case res of
                     Inl msg \<Rightarrow> \<lparr>xs_name = ds_name src, xs_count = 0, xs_data = ExportError msg\<rparr>
                   | Inr (data, n) \<Rightarrow> \<lparr>xs_name = ds_name src, xs_count = n, xs_data = ExportData data\<rparr>)
          in case export_sections user_id srcs w of (xs, w) \<Rightarrow> (x # xs, w))"

text \<open>The clock is read at the start and when the result is stored; \<open>marshal\<close> is \<open>json.Marshal\<close> of an export, which may fail.\<close>

definition export_user_data ::
  "('d data_export \<Rightarrow> string + string) \<Rightarrow> ('d, 'w) data_source list \<Rightarrow> string \<times> time \<times> time \<Rightarrow> string \<Rightarrow> string
     \<Rightarrow> subject_request list \<times> 'w \<Rightarrow> (gdpr_error + 'd data_export) \<times> subject_request list \<times> 'w" where
  "export_user_data marshal sources d user_id requested_by st =
     (case (d, st) of
        ((new_id, now, later), (rows, w)) \<Rightarrow>
          if user_id = [] then (Inl UserIdRequired, rows, w)
          else
            case create_request new_id now (Some (service_request user_id ''export'' requested_by, None)) rows of
              (Inl err, rows) \<Rightarrow> (Inl err, rows, w)
            | (Inr req, rows) \<Rightarrow>
                case export_sections user_id sources w of
                  (xs, w) \<Rightarrow>
                    let export = \<lparr>de_user = user_id, de_time = now, de_sections = xs\<rparr>
                    in case marshal export of
                         Inl msg \<Rightarrow> (Inr export, snd (update_request_status later (dr_id req) ''failed'' msg rows), w)
                       | Inr text \<Rightarrow> (Inr export, snd (set_request_result later (dr_id req) text rows), w))"

text \<open>The loop keeps the sections so far, the 64-bit sum of deletions, and whether a source failed.\<close>

fun erase_sources :: "string \<Rightarrow> ('d, 'w) data_source list \<Rightarrow> erasure_section list \<times> int \<times> bool \<Rightarrow> 'w
    \<Rightarrow> (erasure_section list \<times> int \<times> bool) \<times> 'w" where
  "erase_sources user_id [] acc w = (acc, w)"
| "erase_sources user_id (src # srcs) (xs, tot, failed) w =
     (case ds_erase src user_id w of
        ((n, err), w) \<Rightarrow>
          erase_sources user_id srcs
            (xs @ [\<lparr>rs_name = ds_name src, rs_deleted = n, rs_error = (case err of None \<Rightarrow> [] | Some msg \<Rightarrow> msg)\<rparr>],
             int64 (tot + n), failed \<or> err \<noteq> None) w)"

definition erase_user_data ::
  "(erasure_report \<Rightarrow> string) \<Rightarrow> ('d, 'w) data_source list \<Rightarrow> string \<times> time \<times> time \<Rightarrow> string \<Rightarrow> string
     \<Rightarrow> subject_request list \<times> 'w \<Rightarrow> (gdpr_error + erasure_report) \<times> subject_request list \<times> 'w" where
  "erase_user_data report_text sources d user_id requested_by st =
     (case (d, st) of
        ((new_id, now, later), (rows, w)) \<Rightarrow>
          if user_id = [] then (Inl UserIdRequired, rows, w)
          else
            case create_request new_id now (Some (service_request user_id ''erasure'' requested_by, None)) rows of
              (Inl err, rows) \<Rightarrow> (Inl err, rows, w)
            | (Inr req, rows) \<Rightarrow>
                case erase_sources user_id sources ([], 0, False) w of
                  ((xs, tot, failed), w) \<Rightarrow>
                    let report = \<lparr>ep_user = user_id, ep_time = now, ep_sections = xs, ep_total = tot\<rparr>
                    in (Inr report,
                        snd (if failed then update_request_status later (dr_id req) ''failed'' ''some data sources failed; see report'' rows
                             else set_request_result later (dr_id req) (report_text report) rows), w))"

definition cancel_request :: "time \<Rightarrow> string \<Rightarrow> subject_request list \<Rightarrow> gdpr_error option \<times> subject_request list" where
  "cancel_request now ident rows =
     (case get_request ident rows of
        Inl err \<Rightarrow> (Some err, rows)
      | Inr r \<Rightarrow>
          if dr_status r \<noteq> ''pending'' then (Some AlreadyProcessed, rows)
          else update_request_status now ident ''canceled'' [] rows)"

section \<open>Retention\<close>

record 'w retention_rule =
  rr_name :: string
  rr_retention :: duration
  rr_cleanup :: "time \<Rightarrow> 'w \<Rightarrow> (int \<times> string option) \<times> 'w"

text \<open>The cutoff of a section is written without the fraction of its second.\<close>

record retention_section =
  ts_name :: string
  ts_cutoff :: time
  ts_removed :: int
  ts_error :: string

fun enforce_rules :: "time \<Rightarrow> 'w retention_rule list \<Rightarrow> retention_section list \<times> int \<Rightarrow> 'w \<Rightarrow> (retention_section list \<times> int) \<times> 'w" where
  "enforce_rules now [] acc w = (acc, w)"
| "enforce_rules now (rule # rules) (xs, tot) w =
     (let cutoff = now - rr_retention rule
      in case rr_cleanup rule cutoff w of
           ((n, err), w) \<Rightarrow>
             enforce_rules now rules
               (xs @ [\<lparr>ts_name = rr_name rule, ts_cutoff = cutoff div second * second, ts_removed = n,
                       ts_error = (case err of None \<Rightarrow> [] | Some msg \<Rightarrow> msg)\<rparr>], int64 (tot + n)) w)"

definition enforce_retention :: "time \<Rightarrow> 'w retention_rule list \<Rightarrow> 'w \<Rightarrow> (retention_section list \<times> int) \<times> 'w" where
  "enforce_retention now rules w = enforce_rules now rules ([], 0) w"

record retention_policy =
  rp_audit :: duration
  rp_usage :: duration
  rp_sessions :: duration
  rp_users :: duration

definition default_policy :: retention_policy where
  "default_policy = \<lparr>rp_audit = 365 * day, rp_usage = 180 * day, rp_sessions = 90 * day, rp_users = 30 * day\<rparr>"

definition service_policy :: "retention_policy \<Rightarrow> retention_policy" where
  "service_policy p = (if p = \<lparr>rp_audit = 0, rp_usage = 0, rp_sessions = 0, rp_users = 0\<rparr> then default_policy else p)"

section \<open>The endpoints\<close>

datatype gdpr_call =
    ExportCall
  | EraseCall bool
  | ListCall
  | GetCall string
  | CancelCall string
  | RetentionCall

datatype 'd gdpr_reply =
    GdprFailure nat string
  | ExportReply "'d data_export"
  | ErasureReply erasure_report
  | RequestsReply "subject_request list"
  | RequestReply subject_request
  | CanceledReply
  | RetentionReply int int int int

definition whole_days :: "duration \<Rightarrow> int" where
  "whole_days d = (if d < 0 then - (- d div day) else d div day)"

record ('d, 'w) gdpr_env =
  ge_sources :: "('d, 'w) data_source list"
  ge_policy :: retention_policy
  ge_export_text :: "'d data_export \<Rightarrow> string + string"
  ge_report_text :: "erasure_report \<Rightarrow> string"

definition own_request :: "string \<Rightarrow> string \<Rightarrow> subject_request list \<Rightarrow> 'd gdpr_reply + subject_request" where
  "own_request user_id ident rows =
     (if ident = [] then Inl (GdprFailure 400 ''missing_id'')
      else
        case get_request ident rows of
          Inl RequestNotFound \<Rightarrow> Inl (GdprFailure 404 ''not_found'')
        | Inl _ \<Rightarrow> Inl (GdprFailure 500 ''internal'')
        | Inr r \<Rightarrow> if dr_user r \<noteq> user_id then Inl (GdprFailure 404 ''not_found'') else Inr r)"

text \<open>\<open>user_id\<close> is the value under the package's own key in the context of the request, empty when there is none.\<close>

fun gdpr_handle ::
  "('d, 'w) gdpr_env \<Rightarrow> string \<times> time \<times> time \<Rightarrow> string \<Rightarrow> gdpr_call \<Rightarrow> subject_request list \<times> 'w
     \<Rightarrow> 'd gdpr_reply \<times> subject_request list \<times> 'w" where
  "gdpr_handle env d user_id ExportCall st =
     (case export_user_data (ge_export_text env) (ge_sources env) d user_id user_id st of
        (Inl _, st) \<Rightarrow> (GdprFailure 500 ''internal'', st)
      | (Inr x, st) \<Rightarrow> (ExportReply x, st))"
| "gdpr_handle env d user_id (EraseCall confirm) st =
     (if \<not> confirm then (GdprFailure 400 ''confirmation_required'', st)
      else case erase_user_data (ge_report_text env) (ge_sources env) d user_id user_id st of
             (Inl _, st) \<Rightarrow> (GdprFailure 500 ''internal'', st)
           | (Inr x, st) \<Rightarrow> (ErasureReply x, st))"
| "gdpr_handle env d user_id ListCall st =
     (case list_requests user_id (fst st) of
        Inl _ \<Rightarrow> (GdprFailure 500 ''internal'', st)
      | Inr rs \<Rightarrow> (RequestsReply rs, st))"
| "gdpr_handle env d user_id (GetCall ident) st =
     (case own_request user_id ident (fst st) of
        Inl reply \<Rightarrow> (reply, st)
      | Inr r \<Rightarrow> (RequestReply r, st))"
| "gdpr_handle env (new_id, now, later) user_id (CancelCall ident) (rows, w) =
     (case own_request user_id ident rows of
        Inl reply \<Rightarrow> (reply, rows, w)
      | Inr r \<Rightarrow>
          case cancel_request now ident rows of
            (Some AlreadyProcessed, rows) \<Rightarrow> (GdprFailure 409 ''already_processed'', rows, w)
          | (Some _, rows) \<Rightarrow> (GdprFailure 500 ''internal'', rows, w)
          | (None, rows) \<Rightarrow> (CanceledReply, rows, w))"
| "gdpr_handle env d user_id RetentionCall st =
     (let p = ge_policy env
      in (RetentionReply (whole_days (rp_audit p)) (whole_days (rp_usage p)) (whole_days (rp_sessions p)) (whole_days (rp_users p)), st))"

definition gdpr_api ::
  "('d, 'w) gdpr_env option \<Rightarrow> string \<times> time \<times> time \<Rightarrow> string \<Rightarrow> gdpr_call \<Rightarrow> subject_request list \<times> 'w
     \<Rightarrow> 'd gdpr_reply \<times> subject_request list \<times> 'w" where
  "gdpr_api env d user_id call st =
     (case env of
        None \<Rightarrow> (GdprFailure 503 ''not_configured'', st)
      | Some e \<Rightarrow>
          if user_id = [] then (GdprFailure 401 ''unauthorized'', st)
          else gdpr_handle e d user_id call st)"

fun gdpr_run ::
  "('d, 'w) gdpr_env option \<Rightarrow> ((string \<times> time \<times> time) \<times> string \<times> gdpr_call) list \<Rightarrow> subject_request list \<times> 'w
     \<Rightarrow> 'd gdpr_reply list \<times> subject_request list \<times> 'w" where
  "gdpr_run env [] st = ([], st)"
| "gdpr_run env ((d, user_id, call) # cs) st =
     (case gdpr_api env d user_id call st of
        (r, st) \<Rightarrow> (case gdpr_run env cs st of (rs, st) \<Rightarrow> (r # rs, st)))"

section \<open>What an erasure leaves\<close>

lemma erase_sources_outcome:
  assumes "erase_sources u srcs (xs, tot, failed) w = ((xs', tot', failed'), w')"
    and "\<forall>src \<in> S. \<forall>w n w'. ds_erase src u w = ((n, None), w') \<longrightarrow> \<not> holds src w'"
    and "\<forall>src \<in> S. \<forall>other \<in> S. \<forall>w r w'. ds_erase other u w = (r, w') \<longrightarrow> holds src w' \<longrightarrow> holds src w"
    and "set srcs \<subseteq> S"
  shows "map rs_name xs' = map rs_name xs @ map ds_name srcs \<and> (failed \<longrightarrow> failed')
    \<and> (\<forall>src \<in> S. holds src w' \<longrightarrow> holds src w) \<and> (\<not> failed' \<longrightarrow> (\<forall>src \<in> set srcs. \<not> holds src w'))"
  using assms
proof (induction u srcs "(xs, tot, failed)" w arbitrary: xs tot failed rule: erase_sources.induct)
  case (2 u src srcs xs tot failed w)
  obtain n err w1 where step: "ds_erase src u w = ((n, err), w1)" by (metis surj_pair)
  have rest: "map rs_name xs' = map rs_name xs @ map ds_name (src # srcs)" "failed \<or> err \<noteq> None \<longrightarrow> failed'"
      "\<forall>q \<in> S. holds q w' \<longrightarrow> holds q w1" "\<not> failed' \<longrightarrow> (\<forall>q \<in> set srcs. \<not> holds q w')"
    using "2.hyps" [OF step [symmetric] refl] "2.prems" step by auto
  have "src \<in> S" using "2.prems"(4) by simp
  then have others: "\<forall>q \<in> S. holds q w1 \<longrightarrow> holds q w" using "2.prems"(3) \<open>src \<in> S\<close> step by metis
  have gone: "err = None \<longrightarrow> \<not> holds src w1" using "2.prems"(2) \<open>src \<in> S\<close> step by metis
  show ?case using rest others gone \<open>src \<in> S\<close> by auto
qed simp

lemma new_request:
  assumes "create_request new_id now (Some (service_request u typ by, None)) rows = (Inr req, rows1)"
  shows "req = (service_request u typ by)\<lparr>dr_id := new_id, dr_created := now, dr_updated := now\<rparr>" "rows1 = rows @ [req]"
    "new_id \<notin> dr_id ` set rows"
  using assms by (auto simp: create_request_def service_request_def Let_def list_ex_iff split: if_splits)

lemma finish_new_request:
  assumes "new_id \<notin> dr_id ` set rows" and "dr_id req = new_id" and "new_id \<noteq> []"
  shows "snd (set_request_result later new_id txt (rows @ [req]))
      = rows @ [req\<lparr>dr_status := ''completed'', dr_result := txt, dr_updated := later, dr_completed := Some later\<rparr>]"
    "snd (update_request_status later new_id ''failed'' msg (rows @ [req]))
      = rows @ [req\<lparr>dr_status := ''failed'', dr_error := msg, dr_updated := later, dr_completed := Some later\<rparr>]"
  using assms by (auto simp: set_request_result_def update_request_status_def valid_request_status_def rev_image_eqI intro!: map_idI)

text \<open>Property C23: An erasure asks every source, leaves one finished request, and marks it completed only if no source holds data of
  the user any more. The hypotheses are the contract of a source: one that erases without an error holds nothing of the
  user afterwards, and erasing in one source gives no other its data back.\<close>

theorem completed_erasure_is_complete:
  assumes "erase_user_data text_of sources (new_id, now, later) u by (rows, w) = (Inr report, rows', w')" and "new_id \<noteq> []"
    and "\<forall>src \<in> set sources. \<forall>w n w'. ds_erase src u w = ((n, None), w') \<longrightarrow> \<not> holds src w'"
    and "\<forall>src \<in> set sources. \<forall>other \<in> set sources. \<forall>w r w'. ds_erase other u w = (r, w') \<longrightarrow> holds src w' \<longrightarrow> holds src w"
  shows "map rs_name (ep_sections report) = map ds_name sources
    \<and> (\<exists>r. rows' = rows @ [r] \<and> dr_user r = u \<and> dr_type r = ''erasure'' \<and> dr_requested_by r = by \<and> dr_completed r = Some later
         \<and> dr_status r \<in> {''completed'', ''failed''} \<and> (dr_status r = ''completed'' \<longrightarrow> (\<forall>src \<in> set sources. \<not> holds src w')))"
proof -
  obtain req rows1 where new: "create_request new_id now (Some (service_request u ''erasure'' by, None)) rows = (Inr req, rows1)"
    using assms(1) by (auto simp: erase_user_data_def split: if_splits prod.splits sum.splits)
  obtain xs tot failed w1 where run: "erase_sources u sources ([], 0, False) w = ((xs, tot, failed), w1)" by (metis surj_pair)
  note req = new_request [OF new]
  have "dr_id req = new_id" by (simp add: req(1))
  note finish = finish_new_request [OF req(3) this assms(2)]
  have out: "w' = w1" "ep_sections report = xs"
    and rows': "rows' = rows @ [if failed then req\<lparr>dr_status := ''failed'', dr_error := ''some data sources failed; see report'', dr_updated := later, dr_completed := Some later\<rparr>
        else req\<lparr>dr_status := ''completed'', dr_result := text_of report, dr_updated := later, dr_completed := Some later\<rparr>]"
    using assms(1) new run by (auto simp: erase_user_data_def Let_def req(2) finish \<open>dr_id req = new_id\<close> split: if_splits)
  have spec: "map rs_name xs = map ds_name sources \<and> (\<not> failed \<longrightarrow> (\<forall>src \<in> set sources. \<not> holds src w'))"
    using erase_sources_outcome [OF run assms(3,4)] out by simp
  show ?thesis using spec by (auto simp: rows' out(2) req(1) service_request_def)
qed

section \<open>Requests over time\<close>

definition never_pending :: "subject_request list \<Rightarrow> bool" where
  "never_pending rows \<longleftrightarrow> (\<forall>r \<in> set rows. dr_status r \<in> {''processing'', ''completed'', ''failed''})"

lemma never_pending_finish:
  "never_pending rows \<Longrightarrow> never_pending (snd (set_request_result t i txt rows))"
  "never_pending rows \<Longrightarrow> never_pending (snd (update_request_status t i ''failed'' msg rows))"
  by (auto simp: never_pending_def set_request_result_def update_request_status_def)

lemma never_pending_new:
  "create_request new_id now (Some (service_request u typ by, None)) rows = (res, rows1) \<Longrightarrow> never_pending rows \<Longrightarrow> never_pending rows1"
  by (auto simp: create_request_def service_request_def never_pending_def Let_def split: if_splits)

lemma never_pending_export:
  assumes "export_user_data txt sources d u by (rows, w) = (res, rows', w')" and "never_pending rows"
  shows "never_pending rows'"
  using assms by (auto simp: export_user_data_def Let_def dest!: never_pending_new intro: never_pending_finish
      split: prod.splits if_splits sum.splits)

lemma never_pending_erase:
  assumes "erase_user_data txt sources d u by (rows, w) = (res, rows', w')" and "never_pending rows"
  shows "never_pending rows'"
  using assms by (auto simp: erase_user_data_def Let_def dest!: never_pending_new intro: never_pending_finish
      split: prod.splits if_splits sum.splits)

lemma cancel_refused:
  "never_pending rows \<Longrightarrow> cancel_request t i rows = (err, rows') \<Longrightarrow> rows' = rows \<and> err \<noteq> None"
  by (auto simp: cancel_request_def get_request_def never_pending_def dest!: find_Some_set split: if_splits option.splits)

lemma never_pending_step:
  assumes "gdpr_api env d u call (rows, w) = (r, rows', w')" and "never_pending rows"
  shows "never_pending rows' \<and> r \<noteq> CanceledReply"
proof (cases call)
  case (CancelCall ident)
  obtain i now later where d: "d = (i, now, later)" by (metis surj_pair)
  show ?thesis using assms unfolding CancelCall d
    by (auto simp: gdpr_api_def own_request_def dest: cancel_refused split: option.splits if_splits sum.splits prod.splits gdpr_error.splits)
qed (use assms in \<open>auto simp: gdpr_api_def own_request_def Let_def dest: never_pending_export never_pending_erase
      split: option.splits if_splits sum.splits prod.splits gdpr_error.splits\<close>)

text \<open>Property C39: No call cancels a request: those in the table are never pending, since the service creates them as processing.\<close>

theorem no_request_is_cancelled:
  assumes "gdpr_run env cs ([], w) = (replies, rows, w')"
  shows "CanceledReply \<notin> set replies \<and> (\<forall>r \<in> set rows. dr_status r \<in> {''processing'', ''completed'', ''failed''})"
proof -
  have "never_pending rows0 \<Longrightarrow> gdpr_run env cs (rows0, w) = (replies, rows, w') \<Longrightarrow> CanceledReply \<notin> set replies \<and> never_pending rows" for rows0
  proof (induction cs arbitrary: rows0 w replies)
    case (Cons c cs)
    obtain d u call where c: "c = (d, u, call)" by (metis surj_pair)
    obtain r rows1 w1 where step: "gdpr_api env d u call (rows0, w) = (r, rows1, w1)" by (metis surj_pair)
    then show ?case using Cons never_pending_step [OF step] unfolding c by (auto split: prod.splits)
  qed auto
  from this [of "[]"] show ?thesis using assms by (simp add: never_pending_def)
qed

text \<open>What a user gets to see is the user's own.\<close>

lemma own_request_own: "own_request u ident rows = Inr r \<Longrightarrow> dr_user r = u"
  "own_request u ident rows = Inl reply \<Longrightarrow> \<exists>n msg. reply = GdprFailure n msg"
  by (auto simp: own_request_def split: if_splits sum.splits gdpr_error.splits)

lemma replies_show_own_requests:
  assumes "fst (gdpr_handle env d u call st) = RequestReply r \<or> fst (gdpr_handle env d u call st) = RequestsReply rs \<and> r \<in> set rs"
  shows "dr_user r = u"
proof (cases call)
  case (CancelCall ident)
  obtain i now later rows w where d: "d = (i, now, later)" "st = (rows, w)" by (metis surj_pair)
  show ?thesis using assms unfolding CancelCall d
    by (auto dest!: own_request_own(2) split: sum.splits prod.splits option.splits gdpr_error.splits)
next
  case (GetCall ident)
  then show ?thesis using assms by (auto dest!: own_request_own split: sum.splits)
next
  case ListCall
  then show ?thesis using assms by (auto simp: list_requests_def split: if_splits)
qed (use assms in \<open>auto simp: Let_def split: sum.splits prod.splits if_splits\<close>)

section \<open>Retention of the log and the requests\<close>

definition audit_rule :: "duration \<Rightarrow> (audit_event list \<times> subject_request list) retention_rule" where
  "audit_rule keep = \<lparr>rr_name = ''audit_log'', rr_retention = keep,
     rr_cleanup = (\<lambda>before (log, rows). case delete_events_before before log of (n, log) \<Rightarrow> ((int n, None), log, rows))\<rparr>"

definition request_rule :: "duration \<Rightarrow> (audit_event list \<times> subject_request list) retention_rule" where
  "request_rule keep = \<lparr>rr_name = ''data_subject_requests'', rr_retention = keep,
     rr_cleanup = (\<lambda>before (log, rows). case delete_requests_before before rows of (n, rows) \<Rightarrow> ((int n, None), log, rows))\<rparr>"

lemma delete_requests_before_bounds:
  assumes "delete_requests_before before rows = (n, rows')"
  shows "r \<in> set rows' \<Longrightarrow> dr_completed r = Some t \<Longrightarrow> before < t + second"
    "r \<in> set rows \<Longrightarrow> (case dr_completed r of None \<Rightarrow> True | Some t \<Rightarrow> before + second \<le> t) \<Longrightarrow> r \<in> set rows'"
proof -
  have rows': "rows' = filter (\<lambda>r. \<not> (case dr_completed r of None \<Rightarrow> False | Some t \<Rightarrow> stamp t < stamp before)) rows"
    using assms by (simp add: delete_requests_before_def Let_def)
  show "r \<in> set rows' \<Longrightarrow> dr_completed r = Some t \<Longrightarrow> before < t + second"
    unfolding rows' using stamp_le_bound [of before t] by auto
  show "r \<in> set rows \<Longrightarrow> (case dr_completed r of None \<Rightarrow> True | Some t \<Rightarrow> before + second \<le> t) \<Longrightarrow> r \<in> set rows'"
    unfolding rows' by (auto split: option.splits dest: less_asym [OF stamp_less_later [OF second_before]])
qed

text \<open>Property C36: Enforcing retention on audit log and requests leaves no event and no finished request that is older than its limit
  by more than a second, and removes none that is younger by a second or not finished.\<close>

theorem retention_window:
  assumes "enforce_retention now [audit_rule a, request_rule q] (log, rows) = (report, log', rows')"
  shows "(\<forall>e \<in> set log'. e \<in> set log \<and> now < ev_time e + a + second)
    \<and> (\<forall>e \<in> set log. now + second \<le> ev_time e + a \<longrightarrow> e \<in> set log')
    \<and> (\<forall>r \<in> set rows'. \<forall>t. dr_completed r = Some t \<longrightarrow> now < t + q + second)
    \<and> (\<forall>r \<in> set rows. (case dr_completed r of None \<Rightarrow> True | Some t \<Rightarrow> now + second \<le> t + q) \<longrightarrow> r \<in> set rows')"
proof -
  obtain n m where l: "delete_events_before (now - a) log = (n, log')" and r: "delete_requests_before (now - q) rows = (m, rows')"
    using assms by (auto simp: enforce_retention_def audit_rule_def request_rule_def Let_def split: prod.splits)
  show ?thesis
  proof (intro conjI ballI allI impI)
    show "e \<in> set log" "now < ev_time e + a + second" if "e \<in> set log'" for e
      using delete_events_before_bounds(2,4) [OF l] that by (auto simp: algebra_simps)
    show "e \<in> set log'" if "e \<in> set log" "now + second \<le> ev_time e + a" for e
      using delete_events_before_bounds(3) [OF l that(1)] that(2) by simp
    show "now < t + q + second" if "r \<in> set rows'" "dr_completed r = Some t" for r t
      using delete_requests_before_bounds(1) [OF r that] by simp
    show "r \<in> set rows'" if "r \<in> set rows" "case dr_completed r of None \<Rightarrow> True | Some t \<Rightarrow> now + second \<le> t + q" for r
      using delete_requests_before_bounds(2) [OF r that(1)] that(2) by (auto split: option.splits)
  qed
qed

section \<open>Instances\<close>

text \<open>A source whose data is the list of the users it knows.\<close>

definition sample_source :: "string \<Rightarrow> (string list, string list) data_source" where
  "sample_source name = \<lparr>ds_name = name, ds_export = (\<lambda>u w. (Inr (filter (\<lambda>v. v = u) w, 1), w)), ds_erase = (\<lambda>u w. ((1, None), filter (\<lambda>v. v \<noteq> u) w))\<rparr>"

lemma completed_erasure_is_complete_witness:
  "\<exists>report r. erase_user_data (\<lambda>_. ''report'') [sample_source ''users'', sample_source ''agents''] (''r1'', 5, 6) ''u1'' ''u1'' ([], [''u1'', ''u2''])
      = (Inr report, [r], [''u2'']) \<and> map rs_name (ep_sections report) = [''users'', ''agents''] \<and> dr_user r = ''u1'' \<and> dr_completed r = Some 6"
proof -
  let ?srcs = "[sample_source ''users'', sample_source ''agents'']"
  obtain report rows' w' where run: "erase_user_data (\<lambda>_. ''report'') ?srcs (''r1'', 5, 6) ''u1'' ''u1'' ([], [''u1'', ''u2'']) = (Inr report, rows', w')"
    by (simp add: erase_user_data_def create_request_def service_request_def valid_request_type_def valid_request_status_def sample_source_def Let_def)
  moreover have "w' = [''u2'']" using run
    by (auto simp: erase_user_data_def create_request_def service_request_def valid_request_type_def valid_request_status_def sample_source_def Let_def)
  ultimately show ?thesis
    using completed_erasure_is_complete [OF run, of "\<lambda>_ w. ''u1'' \<in> set w"] by (auto simp: sample_source_def)
qed

definition sample_env :: "(string list, string list) gdpr_env" where
  "sample_env = \<lparr>ge_sources = [sample_source ''users''], ge_policy = default_policy, ge_export_text = (\<lambda>_. Inr ''{}''), ge_report_text = (\<lambda>_. ''{}'')\<rparr>"

lemma no_request_is_cancelled_witness:
  "\<exists>replies rows w'. gdpr_run (Some sample_env) [((''r1'', 5, 6), ''u1'', EraseCall True), ((''r2'', 7, 8), ''u1'', CancelCall ''r1'')] ([], [''u1''])
      = (replies, rows, w') \<and> CanceledReply \<notin> set replies \<and> length rows = 1"
proof -
  let ?run = "gdpr_run (Some sample_env) [((''r1'', 5, 6), ''u1'', EraseCall True), ((''r2'', 7, 8), ''u1'', CancelCall ''r1'')] ([], [''u1''])"
  have "length (fst (snd ?run)) = 1"
    by (simp add: gdpr_api_def sample_env_def sample_source_def erase_user_data_def create_request_def service_request_def valid_request_type_def
        valid_request_status_def set_request_result_def own_request_def get_request_def cancel_request_def Let_def)
  then show ?thesis using no_request_is_cancelled [of "Some sample_env" _ "[''u1'']" "fst ?run" "fst (snd ?run)" "snd (snd ?run)"]
    by (metis prod.collapse)
qed

definition old_log :: "audit_event list" where
  "old_log = [new_event ''e1'' 0 ''config.updated'', new_event ''e2'' (9 * second) ''config.updated'']"

lemma retention_window_witness:
  "\<exists>report log' rows'. enforce_retention (10 * second) [audit_rule (5 * second), request_rule (5 * second)] (old_log, []) = (report, log', rows')
    \<and> new_event ''e1'' 0 ''config.updated'' \<notin> set log' \<and> new_event ''e2'' (9 * second) ''config.updated'' \<in> set log'"
proof -
  obtain report log' rows' where run: "enforce_retention (10 * second) [audit_rule (5 * second), request_rule (5 * second)] (old_log, []) = (report, log', rows')"
    by (metis surj_pair)
  show ?thesis using retention_window [OF run] run by (fastforce simp: old_log_def new_event_def)
qed

end
