(* ===== verification/Migrations.thy ===== *)
theory Migrations
  imports Time_Text Json "HOL-Library.Multiset"
begin

text \<open>
  Migrations of the database (\<open>pkg/dbmigrate\<close>): the files and their versions, applying what is pending, and rolling
  back. The schema and data the scripts act on are a state of type \<open>'d\<close>, and \<open>exec\<close> runs a script on it in
  a transaction, with \<open>None\<close> for an error; the table of applied versions is modelled in full.
\<close>

section \<open>Files\<close>

record migration =
  mg_version :: int
  mg_name :: string
  mg_sql :: string

record dir_entry =
  en_name :: string
  en_dir :: bool
  en_content :: "string option"

datatype migration_error =
    DuplicateVersion int
  | UnreadableFile string
  | MigrationFailed int
  | NoDownMigration int
  | RollbackFailed int
  | NegativeTarget

definition strip_suffix :: "string \<Rightarrow> string \<Rightarrow> string" where
  "strip_suffix s suffix = (if has_suffix s suffix then take (length s - length suffix) s else s)"

text \<open>\<open>parse_int\<close> is \<open>strconv.Atoi\<close>: it accepts a sign.\<close>

definition parse_version :: "string \<Rightarrow> int option" where
  "parse_version name =
     (let base = strip_suffix name ''.sql''
      in parse_int (case index_byte CHR ''_'' base of None \<Rightarrow> base | Some i \<Rightarrow> if 0 < i then take i base else base))"

fun load_files :: "(string \<Rightarrow> bool) \<Rightarrow> (string \<Rightarrow> int option) \<Rightarrow> int set \<Rightarrow> dir_entry list \<Rightarrow> migration_error + migration list" where
  "load_files wanted version seen [] = Inr []"
| "load_files wanted version seen (e # es) =
     (if en_dir e \<or> \<not> wanted (en_name e) then load_files wanted version seen es
      else
        case version (en_name e) of
          None \<Rightarrow> load_files wanted version seen es
        | Some v \<Rightarrow>
            if v \<in> seen then Inl (DuplicateVersion v)
            else
              case en_content e of
                None \<Rightarrow> Inl (UnreadableFile (en_name e))
              | Some sql \<Rightarrow>
                  case load_files wanted version (insert v seen) es of
                    Inl err \<Rightarrow> Inl err
                  | Inr ms \<Rightarrow> Inr (\<lparr>mg_version = v, mg_name = en_name e, mg_sql = sql\<rparr> # ms))"

definition load_migrations :: "dir_entry list \<Rightarrow> migration_error + migration list" where
  "load_migrations es =
     (case load_files (\<lambda>n. has_suffix n ''.sql'' \<and> \<not> has_suffix n ''.down.sql'') parse_version {} es of
        Inl err \<Rightarrow> Inl err
      | Inr ms \<Rightarrow> Inr (sort_key mg_version ms))"

definition load_down_migrations :: "dir_entry list \<Rightarrow> migration_error + migration list" where
  "load_down_migrations es =
     (case load_files (\<lambda>n. has_suffix n ''.down.sql'') (\<lambda>n. parse_version (strip_suffix n ''.down.sql'' @ ''.sql'')) {} es of
        Inl err \<Rightarrow> Inl err
      | Inr ms \<Rightarrow> Inr (sort_key mg_version ms))"

text \<open>\<open>NewFromList\<close> looks for duplicates in the sorted list.\<close>

fun first_duplicate :: "int set \<Rightarrow> migration list \<Rightarrow> int option" where
  "first_duplicate seen [] = None"
| "first_duplicate seen (m # ms) = (if mg_version m \<in> seen then Some (mg_version m) else first_duplicate (insert (mg_version m) seen) ms)"

definition migrations_from_list :: "migration list \<Rightarrow> migration_error + migration list" where
  "migrations_from_list ms =
     (let sorted_ms = sort_key mg_version ms
      in case first_duplicate {} sorted_ms of Some v \<Rightarrow> Inl (DuplicateVersion v) | None \<Rightarrow> Inr sorted_ms)"

section \<open>Applying\<close>

record applied_migration =
  am_version :: int
  am_name :: string
  am_time :: time

record 'd migrated =
  mi_data :: 'd
  mi_applied :: "applied_migration list"

definition applied_versions :: "'d migrated \<Rightarrow> int list" where
  "applied_versions db = map am_version (mi_applied db)"

definition list_applied :: "'d migrated \<Rightarrow> applied_migration list" where
  "list_applied db = sort_key am_version (mi_applied db)"

definition pending :: "migration list \<Rightarrow> 'd migrated \<Rightarrow> migration list" where
  "pending ms db = filter (\<lambda>m. mg_version m \<notin> set (applied_versions db)) ms"

definition latest_version :: "'d migrated \<Rightarrow> int" where
  "latest_version db = (if mi_applied db = [] then 0 else Max (set (applied_versions db)))"

text \<open>\<open>clock v\<close> is the time at which version \<open>v\<close> is recorded.\<close>

definition apply_migration :: "(int \<Rightarrow> time) \<Rightarrow> (string \<Rightarrow> 'd \<Rightarrow> 'd option) \<Rightarrow> migration \<Rightarrow> 'd migrated \<Rightarrow> 'd migrated option" where
  "apply_migration clock exec m db =
     (case exec (mg_sql m) (mi_data db) of
        None \<Rightarrow> None
      | Some d \<Rightarrow>
          if mg_version m \<in> set (applied_versions db) then None
          else Some \<lparr>mi_data = d, mi_applied = mi_applied db @
                       [\<lparr>am_version = mg_version m, am_name = mg_name m, am_time = clock (mg_version m)\<rparr>]\<rparr>)"

fun apply_all :: "(int \<Rightarrow> time) \<Rightarrow> (string \<Rightarrow> 'd \<Rightarrow> 'd option) \<Rightarrow> int set \<Rightarrow> migration list \<Rightarrow> nat \<Rightarrow> 'd migrated
    \<Rightarrow> migration_error option \<times> nat \<times> 'd migrated" where
  "apply_all clock exec applied [] n db = (None, n, db)"
| "apply_all clock exec applied (m # ms) n db =
     (if mg_version m \<in> applied then apply_all clock exec applied ms n db
      else case apply_migration clock exec m db of
             None \<Rightarrow> (Some (MigrationFailed (mg_version m)), n, db)
           | Some db' \<Rightarrow> apply_all clock exec applied ms (n + 1) db')"

definition up :: "(int \<Rightarrow> time) \<Rightarrow> (string \<Rightarrow> 'd \<Rightarrow> 'd option) \<Rightarrow> migration list \<Rightarrow> 'd migrated \<Rightarrow> migration_error option \<times> nat \<times> 'd migrated" where
  "up clock exec ms db = apply_all clock exec (set (applied_versions db)) ms 0 db"

definition auto_migrate :: "(int \<Rightarrow> time) \<Rightarrow> (string \<Rightarrow> 'd \<Rightarrow> 'd option) \<Rightarrow> dir_entry list \<Rightarrow> 'd migrated \<Rightarrow> migration_error option \<times> nat \<times> 'd migrated" where
  "auto_migrate clock exec es db =
     (case load_migrations es of Inl err \<Rightarrow> (Some err, 0, db) | Inr ms \<Rightarrow> up clock exec ms db)"

section \<open>Rolling back\<close>

definition find_down :: "migration list \<Rightarrow> int \<Rightarrow> migration option" where
  "find_down downs v = find (\<lambda>d. mg_version d = v) downs"

definition rollback :: "(string \<Rightarrow> 'd \<Rightarrow> 'd option) \<Rightarrow> migration list \<Rightarrow> int \<Rightarrow> 'd migrated \<Rightarrow> migration_error + 'd migrated" where
  "rollback exec downs v db =
     (case find_down downs v of
        None \<Rightarrow> Inl (NoDownMigration v)
      | Some d \<Rightarrow>
          case exec (mg_sql d) (mi_data db) of
            None \<Rightarrow> Inl (RollbackFailed v)
          | Some s \<Rightarrow> Inr \<lparr>mi_data = s, mi_applied = filter (\<lambda>a. am_version a \<noteq> v) (mi_applied db)\<rparr>)"

definition down :: "(string \<Rightarrow> 'd \<Rightarrow> 'd option) \<Rightarrow> migration list \<Rightarrow> 'd migrated \<Rightarrow> (migration_error + int) \<times> 'd migrated" where
  "down exec downs db =
     (let v = latest_version db
      in if v = 0 then (Inr 0, db)
         else case rollback exec downs v db of Inl err \<Rightarrow> (Inl err, db) | Inr db' \<Rightarrow> (Inr v, db'))"

text \<open>The loop of \<open>DownTo\<close>, for a target that is not negative: every round removes the row of the latest version.\<close>

lemma latest_applied: "mi_applied db \<noteq> [] \<Longrightarrow> \<exists>a \<in> set (mi_applied db). am_version a = latest_version db"
proof -
  assume "mi_applied db \<noteq> []"
  then have "Max (am_version ` set (mi_applied db)) \<in> am_version ` set (mi_applied db)" by (intro Max_in) auto
  then obtain a where "a \<in> set (mi_applied db)" "am_version a = Max (am_version ` set (mi_applied db))" by auto
  then show ?thesis using \<open>mi_applied db \<noteq> []\<close> by (auto simp: latest_version_def applied_versions_def)
qed

lemma rollback_shorter:
  "rollback exec downs (latest_version db) db = Inr db' \<Longrightarrow> mi_applied db \<noteq> [] \<Longrightarrow> length (mi_applied db') < length (mi_applied db)"
  using latest_applied [of db] by (auto simp: rollback_def intro!: length_filter_less split: option.splits)

function down_loop :: "(string \<Rightarrow> 'd \<Rightarrow> 'd option) \<Rightarrow> migration list \<Rightarrow> nat \<Rightarrow> nat \<Rightarrow> 'd migrated \<Rightarrow> migration_error option \<times> nat \<times> 'd migrated" where
  "down_loop exec downs target n db =
     (if latest_version db \<le> int target then (None, n, db)
      else case rollback exec downs (latest_version db) db of
             Inl err \<Rightarrow> (Some err, n, db)
           | Inr db' \<Rightarrow> down_loop exec downs target (n + 1) db')"
  by pat_completeness auto
termination
proof (relation "measure (\<lambda>(exec, downs, target, n, db). length (mi_applied db))")
  fix exec downs target n db db'
  assume "\<not> latest_version db \<le> int target" and "rollback exec downs (latest_version db) db = Inr db'"
  moreover from this(1) have "mi_applied db \<noteq> []" by (auto simp: latest_version_def)
  ultimately show "((exec, downs, target, n + 1, db'), exec, downs, target, n, db) \<in> measure (\<lambda>(exec, downs, target, n, db). length (mi_applied db))"
    using rollback_shorter by simp
qed simp

declare down_loop.simps [simp del]

definition down_to :: "(string \<Rightarrow> 'd \<Rightarrow> 'd option) \<Rightarrow> migration list \<Rightarrow> int \<Rightarrow> 'd migrated \<Rightarrow> migration_error option \<times> nat \<times> 'd migrated" where
  "down_to exec downs target db =
     (if target < 0 then (Some NegativeTarget, 0, db) else down_loop exec downs (nat target) 0 db)"

section \<open>What is applied\<close>

text \<open>Running a list of scripts one after the other.\<close>

fun exec_all :: "(string \<Rightarrow> 'd \<Rightarrow> 'd option) \<Rightarrow> migration list \<Rightarrow> 'd \<Rightarrow> 'd option" where
  "exec_all exec [] s = Some s"
| "exec_all exec (m # ms) s = (case exec (mg_sql m) s of None \<Rightarrow> None | Some s' \<Rightarrow> exec_all exec ms s')"

definition row_of :: "(int \<Rightarrow> time) \<Rightarrow> migration \<Rightarrow> applied_migration" where
  "row_of clock m = \<lparr>am_version = mg_version m, am_name = mg_name m, am_time = clock (mg_version m)\<rparr>"

lemma exec_all_snoc: "exec_all exec (ms @ [m]) s = Option.bind (exec_all exec ms s) (exec (mg_sql m))"
  by (induction ms arbitrary: s) (auto split: option.splits)

lemma apply_all_outcome:
  assumes "apply_all clock exec applied ms n db = (err, k, db')"
    and "distinct (map mg_version ms)" and "\<forall>m \<in> set ms. mg_version m \<in> applied \<or> mg_version m \<notin> set (applied_versions db)"
    and "todo = filter (\<lambda>m. mg_version m \<notin> applied) ms"
  shows "\<exists>i \<le> length todo. k = n + i \<and> mi_applied db' = mi_applied db @ map (row_of clock) (take i todo)
    \<and> exec_all exec (take i todo) (mi_data db) = Some (mi_data db')
    \<and> (case err of None \<Rightarrow> i = length todo
       | Some e \<Rightarrow> i < length todo \<and> e = MigrationFailed (mg_version (todo ! i)) \<and> exec (mg_sql (todo ! i)) (mi_data db') = None)"
  using assms
proof (induction clock exec applied ms n db arbitrary: todo rule: apply_all.induct)
  case (2 clock exec applied m ms n db)
  show ?case
  proof (cases "mg_version m \<in> applied")
    case True
    then show ?thesis using "2.IH"(1) [OF True] "2.prems" by auto
  next
    case False
    let ?todo = "filter (\<lambda>m. mg_version m \<notin> applied) ms"
    have todo: "todo = m # ?todo" using False "2.prems"(4) by simp
    have fresh: "mg_version m \<notin> set (applied_versions db)" using False "2.prems"(3) by simp
    show ?thesis
    proof (cases "apply_migration clock exec m db")
      case None
      then have "exec (mg_sql m) (mi_data db) = None" using fresh by (auto simp: apply_migration_def split: option.splits)
      then show ?thesis using "2.prems"(1) False None todo by (auto intro!: exI [of _ 0])
    next
      case (Some db1)
      then obtain s where s: "exec (mg_sql m) (mi_data db) = Some s"
        and db1: "db1 = \<lparr>mi_data = s, mi_applied = mi_applied db @ [row_of clock m]\<rparr>"
        using fresh by (auto simp: apply_migration_def row_of_def split: option.splits)
      have run: "apply_all clock exec applied ms (n + 1) db1 = (err, k, db')" using "2.prems"(1) False Some by simp
      have "\<forall>q \<in> set ms. mg_version q \<in> applied \<or> mg_version q \<notin> set (applied_versions db1)"
      proof
        fix q assume "q \<in> set ms"
        moreover have "mg_version m \<notin> mg_version ` set ms" using "2.prems"(2) by simp
        ultimately have "mg_version q \<noteq> mg_version m" by (metis imageI)
        then show "mg_version q \<in> applied \<or> mg_version q \<notin> set (applied_versions db1)"
          using "2.prems"(3) \<open>q \<in> set ms\<close> by (simp add: db1 applied_versions_def row_of_def)
      qed
      then obtain i where "i \<le> length ?todo" "k = n + 1 + i" "mi_applied db' = mi_applied db1 @ map (row_of clock) (take i ?todo)"
          "exec_all exec (take i ?todo) (mi_data db1) = Some (mi_data db')"
          "case err of None \<Rightarrow> i = length ?todo
           | Some e \<Rightarrow> i < length ?todo \<and> e = MigrationFailed (mg_version (?todo ! i)) \<and> exec (mg_sql (?todo ! i)) (mi_data db') = None"
        using "2.IH"(2) [OF False Some run _ _ refl] "2.prems"(2) by auto
      then show ?thesis using s by (intro exI [of _ "Suc i"]) (auto simp: todo db1 split: option.splits)
    qed
  qed
qed auto

lemma up_outcome:
  assumes "distinct (map mg_version ms)" and "up clock exec ms db = (err, k, db')"
  shows "k \<le> length (pending ms db) \<and> mi_applied db' = mi_applied db @ map (row_of clock) (take k (pending ms db))
    \<and> exec_all exec (take k (pending ms db)) (mi_data db) = Some (mi_data db') \<and> pending ms db' = drop k (pending ms db)
    \<and> (err = None \<longleftrightarrow> pending ms db' = []) \<and> (err \<noteq> None \<longrightarrow> exec (mg_sql (pending ms db ! k)) (mi_data db') = None)"
proof -
  let ?todo = "pending ms db"
  have "\<exists>i \<le> length ?todo. k = 0 + i \<and> mi_applied db' = mi_applied db @ map (row_of clock) (take i ?todo)
      \<and> exec_all exec (take i ?todo) (mi_data db) = Some (mi_data db')
      \<and> (case err of None \<Rightarrow> i = length ?todo
         | Some e \<Rightarrow> i < length ?todo \<and> e = MigrationFailed (mg_version (?todo ! i)) \<and> exec (mg_sql (?todo ! i)) (mi_data db') = None)"
    by (rule apply_all_outcome [OF assms(2) [unfolded up_def] assms(1)]) (simp_all add: pending_def)
  then have out: "k \<le> length ?todo" "mi_applied db' = mi_applied db @ map (row_of clock) (take k ?todo)"
      "exec_all exec (take k ?todo) (mi_data db) = Some (mi_data db')"
      "case err of None \<Rightarrow> k = length ?todo
       | Some e \<Rightarrow> k < length ?todo \<and> e = MigrationFailed (mg_version (?todo ! k)) \<and> exec (mg_sql (?todo ! k)) (mi_data db') = None"
    by auto
  have inj: "inj_on mg_version (set ms)" using assms(1) by (simp add: distinct_map)
  obtain ran where ran: "ran = take k ?todo" by simp
  have sub: "set ran \<subseteq> set ms" unfolding ran by (auto simp: pending_def dest!: in_set_takeD)
  have versions: "set (applied_versions db') = set (applied_versions db) \<union> mg_version ` set ran"
    unfolding ran by (simp add: applied_versions_def out(2) row_of_def image_image)
  have "mg_version m \<in> mg_version ` set ran \<longleftrightarrow> m \<in> set ran" if "m \<in> set ms" for m
    using inj that sub by (rule inj_on_image_mem_iff)
  then have "pending ms db' = filter (\<lambda>m. m \<notin> set ran) ?todo"
    unfolding pending_def versions by (simp cong: filter_cong)
  then have "pending ms db' = filter (\<lambda>m. m \<notin> set (take k ?todo)) ?todo" by (simp only: ran)
  also have "\<dots> = drop k ?todo"
  proof -
    have "distinct ?todo" using assms(1) by (auto simp: pending_def distinct_map)
    then have disj: "set (take k ?todo) \<inter> set (drop k ?todo) = {}" by (rule set_take_disj_set_drop_if_distinct) simp
    have "filter (\<lambda>m. m \<notin> set (take k ?todo)) (take k ?todo @ drop k ?todo) = drop k ?todo"
      using disj unfolding filter_append by (auto simp: filter_empty_conv filter_id_conv)
    then show ?thesis by simp
  qed
  finally have rest: "pending ms db' = drop k ?todo" .
  then show ?thesis using out by (auto split: option.splits)
qed

text \<open>What the loaders give: the migrations of the files that are meant, or of the list, each version once and in
  ascending order.\<close>

definition file_migration :: "(string \<Rightarrow> bool) \<Rightarrow> (string \<Rightarrow> int option) \<Rightarrow> dir_entry \<Rightarrow> migration option" where
  "file_migration wanted version e =
     (if en_dir e \<or> \<not> wanted (en_name e) then None
      else case (version (en_name e), en_content e) of
             (Some v, Some sql) \<Rightarrow> Some \<lparr>mg_version = v, mg_name = en_name e, mg_sql = sql\<rparr>
           | _ \<Rightarrow> None)"

abbreviation up_file :: "dir_entry \<Rightarrow> migration option" where
  "up_file \<equiv> file_migration (\<lambda>n. has_suffix n ''.sql'' \<and> \<not> has_suffix n ''.down.sql'') parse_version"

lemma load_files_Inr:
  "load_files wanted version seen es = Inr ms \<Longrightarrow>
     ms = List.map_filter (file_migration wanted version) es \<and> distinct (map mg_version ms) \<and> seen \<inter> mg_version ` set ms = {}"
proof (induction wanted version seen es arbitrary: ms rule: load_files.induct)
  case (2 wanted version seen e es)
  then show ?case
    by (auto simp: file_migration_def map_filter_simps split: if_splits option.splits sum.splits) blast+
qed (simp add: map_filter_simps)

lemma first_duplicate_None: "first_duplicate seen ms = None \<Longrightarrow> distinct (map mg_version ms) \<and> seen \<inter> mg_version ` set ms = {}"
  by (induction seen ms rule: first_duplicate.induct) (auto split: if_splits)

lemma loaded_ascending:
  assumes "load_migrations es = Inr ms \<and> given = List.map_filter up_file es \<or> migrations_from_list given = Inr ms"
  shows "mset ms = mset given" and "sorted_wrt (<) (map mg_version ms)"
proof -
  have sorted: "ms = sort_key mg_version given" "distinct (map mg_version ms)"
  proof -
    have "ms = sort_key mg_version given \<and> distinct (map mg_version ms)"
    using assms
  proof
    assume l: "load_migrations es = Inr ms \<and> given = List.map_filter up_file es"
    then obtain ms0 where ms0: "load_files (\<lambda>n. has_suffix n ''.sql'' \<and> \<not> has_suffix n ''.down.sql'') parse_version {} es = Inr ms0"
      "ms = sort_key mg_version ms0" by (auto simp: load_migrations_def split: sum.splits)
    from load_files_Inr [OF ms0(1)] l have "ms0 = given" "distinct (map mg_version ms0)" by (auto simp del: distinct_map)
    moreover have "distinct (map mg_version (sort_key mg_version ms0)) = distinct (map mg_version ms0)"
      by (simp add: distinct_map distinct_sort)
    ultimately show ?thesis using ms0(2) by simp
  next
    assume "migrations_from_list given = Inr ms"
    then show ?thesis using first_duplicate_None by (auto simp: migrations_from_list_def Let_def split: option.splits)
  qed
  then show "ms = sort_key mg_version given" "distinct (map mg_version ms)" by blast+
  qed
  show "mset ms = mset given" unfolding sorted(1) by simp
  have "sorted (map mg_version ms)" unfolding sorted(1) by simp
  with sorted(2) show "sorted_wrt (<) (map mg_version ms)" by (simp add: strict_sorted_iff)
qed

text \<open>Property C35: The migrations that are loaded from a directory, or given as a list, are those of its files of that kind
  with a version, each version once, in ascending order. Migrating runs the pending ones in this order up to the first
  that fails, records exactly those that ran, and the data is what their scripts make of it; it succeeds if and only if
  none is left.\<close>

theorem up_runs_pending:
  assumes "load_migrations es = Inr ms \<and> given = List.map_filter up_file es \<or> migrations_from_list given = Inr ms"
    and "up clock exec ms db = (err, k, db')"
  shows "mset ms = mset given \<and> sorted_wrt (<) (map mg_version ms)
    \<and> k \<le> length (pending ms db) \<and> mi_applied db' = mi_applied db @ map (row_of clock) (take k (pending ms db))
    \<and> exec_all exec (take k (pending ms db)) (mi_data db) = Some (mi_data db') \<and> pending ms db' = drop k (pending ms db)
    \<and> (err = None \<longleftrightarrow> pending ms db' = []) \<and> (err \<noteq> None \<longrightarrow> exec (mg_sql (pending ms db ! k)) (mi_data db') = None)"
proof -
  note loaded = loaded_ascending [OF assms(1)]
  from loaded(2) have "distinct (map mg_version ms)" by (simp add: strict_sorted_iff)
  from loaded up_outcome [OF this assms(2)] show ?thesis by blast
qed

section \<open>Up and down\<close>

lemma latest_of_last:
  assumes "mi_applied db = rows @ [r]" and "\<forall>q \<in> set rows. am_version q < am_version r"
  shows "latest_version db = am_version r"
  unfolding latest_version_def applied_versions_def using assms by (auto intro!: Max_eqI)

lemma down_loop_undoes:
  assumes "sorted_wrt (<) (map mg_version ts)" and "\<forall>m \<in> set ts. int target < mg_version m" and "\<forall>r \<in> set rows. am_version r \<le> int target"
    and "\<forall>m \<in> set ts. \<exists>d. find_down downs (mg_version m) = Some d \<and> (\<forall>s s'. exec (mg_sql m) s = Some s' \<longrightarrow> exec (mg_sql d) s' = Some s)"
    and "exec_all exec ts s = Some s'"
  shows "down_loop exec downs target n \<lparr>mi_data = s', mi_applied = rows @ map (row_of clock) ts\<rparr>
    = (None, n + length ts, \<lparr>mi_data = s, mi_applied = rows\<rparr>)"
  using assms
proof (induction ts arbitrary: s' n rule: rev_induct)
  case Nil
  then have "latest_version \<lparr>mi_data = s', mi_applied = rows\<rparr> \<le> int target" by (auto simp: latest_version_def applied_versions_def)
  then show ?case using Nil by (subst down_loop.simps) simp
next
  case (snoc m ts)
  obtain s1 where s1: "exec_all exec ts s = Some s1" "exec (mg_sql m) s1 = Some s'"
    using snoc.prems(5) by (auto simp: exec_all_snoc bind_eq_Some_conv)
  obtain d where d: "find_down downs (mg_version m) = Some d" "exec (mg_sql d) s' = Some s1"
    using snoc.prems(4) s1(2) by auto
  let ?db = "\<lparr>mi_data = s', mi_applied = rows @ map (row_of clock) ts @ [row_of clock m]\<rparr>"
  have below: "\<forall>q \<in> set (rows @ map (row_of clock) ts). am_version q < mg_version m"
    using snoc.prems(1-3) by (fastforce simp: row_of_def sorted_wrt_append)
  have latest: "latest_version ?db = mg_version m"
    using latest_of_last [of ?db "rows @ map (row_of clock) ts" "row_of clock m"] below by (simp add: row_of_def)
  have "filter (\<lambda>a. am_version a \<noteq> mg_version m) (rows @ map (row_of clock) ts @ [row_of clock m]) = rows @ map (row_of clock) ts"
  proof -
    have "filter (\<lambda>a. am_version a \<noteq> mg_version m) (rows @ map (row_of clock) ts) = rows @ map (row_of clock) ts"
      using below by (intro filter_True) (metis less_irrefl)
    then show ?thesis by (simp add: row_of_def)
  qed
  then have undone: "rollback exec downs (mg_version m) ?db = Inr \<lparr>mi_data = s1, mi_applied = rows @ map (row_of clock) ts\<rparr>"
    using d by (simp add: rollback_def)
  have "down_loop exec downs target n ?db = down_loop exec downs target (n + 1) \<lparr>mi_data = s1, mi_applied = rows @ map (row_of clock) ts\<rparr>"
    using snoc.prems(2) undone latest by (subst down_loop.simps) simp
  also have "\<dots> = (None, n + 1 + length ts, \<lparr>mi_data = s, mi_applied = rows\<rparr>)"
    using snoc.prems s1(1) by (intro snoc.IH) (auto simp: sorted_wrt_append)
  finally show ?case by simp
qed

text \<open>Property C18: Rolling back to the version before a migration undoes it: where every applied version is at most the target, every pending
  one above it, and each has a down script that reverts what its script does, the database is as before.\<close>

theorem down_reverts_up:
  assumes "sorted_wrt (<) (map mg_version ms)" and "up clock exec ms db = (None, k, db')" and "0 \<le> target"
    and "\<forall>v \<in> set (applied_versions db). v \<le> target" and "\<forall>m \<in> set (pending ms db). target < mg_version m"
    and "\<forall>m \<in> set (pending ms db). \<exists>d. find_down downs (mg_version m) = Some d
           \<and> (\<forall>s s'. exec (mg_sql m) s = Some s' \<longrightarrow> exec (mg_sql d) s' = Some s)"
  shows "down_to exec downs target db' = (None, k, db)"
proof -
  let ?todo = "pending ms db"
  have dist: "distinct (map mg_version ms)" using assms(1) by (simp add: strict_sorted_iff)
  have run: "mi_applied db' = mi_applied db @ map (row_of clock) ?todo" "exec_all exec ?todo (mi_data db) = Some (mi_data db')" "k = length ?todo"
    using up_outcome [OF dist assms(2)] by auto
  have "sorted_wrt (<) (map mg_version ?todo)" using assms(1) by (simp add: pending_def sorted_wrt_map sorted_wrt_filter)
  then have "down_loop exec downs (nat target) 0 \<lparr>mi_data = mi_data db', mi_applied = mi_applied db @ map (row_of clock) ?todo\<rparr>
      = (None, 0 + length ?todo, \<lparr>mi_data = mi_data db, mi_applied = mi_applied db\<rparr>)"
    using assms(3-6) run(2) by (intro down_loop_undoes) (auto simp: applied_versions_def)
  moreover have "\<lparr>mi_data = mi_data db', mi_applied = mi_applied db @ map (row_of clock) ?todo\<rparr> = db'"
    by (cases db') (use run(1) in simp)
  moreover have "\<lparr>mi_data = mi_data db, mi_applied = mi_applied db\<rparr> = db" by simp
  ultimately show ?thesis using assms(3) run(3) by (simp add: down_to_def)
qed

text \<open>Migrating again does nothing.\<close>

lemma up_again:
  assumes "distinct (map mg_version ms)" and "up clock exec ms db = (None, k, db')"
  shows "up clock2 exec2 ms db' = (None, 0, db')"
proof -
  have "pending ms db' = []" using up_outcome [OF assms] by blast
  moreover obtain err n db'' where again: "up clock2 exec2 ms db' = (err, n, db'')" by (metis surj_pair)
  ultimately have "err = None \<and> n = 0 \<and> mi_applied db'' = mi_applied db' \<and> mi_data db'' = mi_data db'"
    using up_outcome [OF assms(1) again] by auto
  then show ?thesis using again by simp
qed

text \<open>What is rolled back is the greatest version, also where an older one was applied later, and version 0 never is.\<close>

lemma greatest_version_first:
  "latest_version \<lparr>mi_data = d, mi_applied = [\<lparr>am_version = 5, am_name = [], am_time = 1\<rparr>, \<lparr>am_version = 3, am_name = [], am_time = 2\<rparr>]\<rparr> = 5"
  by (simp add: latest_version_def applied_versions_def)

lemma version_zero_stays: "latest_version db = 0 \<Longrightarrow> down exec downs db = (Inr 0, db) \<and> down_to exec downs 0 db = (None, 0, db)"
  by (simp add: down_def down_to_def down_loop.simps)

section \<open>Instances\<close>

text \<open>A database of lines, and scripts that add one or take one away.\<close>

definition sample_exec :: "string \<Rightarrow> string list \<Rightarrow> string list option" where
  "sample_exec sql d = (if sql = ''-'' then (if d = [] then None else Some (butlast d)) else Some (d @ [sql]))"

definition sample_migrations :: "migration list" where
  "sample_migrations = [\<lparr>mg_version = 1, mg_name = ''001_a.sql'', mg_sql = ''a''\<rparr>, \<lparr>mg_version = 2, mg_name = ''002_b.sql'', mg_sql = ''b''\<rparr>]"

definition sample_downs :: "migration list" where
  "sample_downs = [\<lparr>mg_version = 1, mg_name = ''001_a.down.sql'', mg_sql = ''-''\<rparr>, \<lparr>mg_version = 2, mg_name = ''002_b.down.sql'', mg_sql = ''-''\<rparr>]"

definition sample_db :: "string list migrated" where
  "sample_db = \<lparr>mi_data = [''a''], mi_applied = [\<lparr>am_version = 1, am_name = ''001_a.sql'', am_time = 0\<rparr>]\<rparr>"

lemma sample_up:
  "up (\<lambda>_. 7) sample_exec sample_migrations sample_db
     = (None, 1, \<lparr>mi_data = [''a'', ''b''], mi_applied = mi_applied sample_db @ [\<lparr>am_version = 2, am_name = ''002_b.sql'', am_time = 7\<rparr>]\<rparr>)"
  by (simp add: up_def sample_db_def sample_migrations_def sample_exec_def apply_migration_def applied_versions_def)

definition sample_dir :: "dir_entry list" where
  "sample_dir = [\<lparr>en_name = ''2_b.sql'', en_dir = False, en_content = Some ''b''\<rparr>,
     \<lparr>en_name = ''001_a.down.sql'', en_dir = False, en_content = Some ''x''\<rparr>,
     \<lparr>en_name = ''001_a.sql'', en_dir = False, en_content = Some ''a''\<rparr>]"

lemma up_runs_pending_witness:
  "\<exists>ms db'. load_migrations sample_dir = Inr ms \<and> map mg_version ms = [1, 2]
     \<and> up (\<lambda>_. 7) sample_exec ms sample_db = (None, 1, db') \<and> pending ms db' = [] \<and> sorted_wrt (<) (map mg_version ms)"
proof -
  let ?ms = "[\<lparr>mg_version = 1, mg_name = ''001_a.sql'', mg_sql = ''a''\<rparr>, \<lparr>mg_version = 2, mg_name = ''2_b.sql'', mg_sql = ''b''\<rparr>]"
  have load: "load_migrations sample_dir = Inr ?ms" by code_simp
  obtain err k db' where run: "up (\<lambda>_. 7) sample_exec ?ms sample_db = (err, k, db')" by (metis prod_cases3)
  then have "err = None" "k = 1"
    by (simp_all add: up_def sample_db_def sample_exec_def apply_migration_def applied_versions_def)
  have given: "load_migrations sample_dir = Inr ?ms \<and> List.map_filter up_file sample_dir = List.map_filter up_file sample_dir
      \<or> migrations_from_list (List.map_filter up_file sample_dir) = Inr ?ms" using load by simp
  from up_runs_pending [OF given run] \<open>err = None\<close> have "pending ?ms db' = []" "sorted_wrt (<) (map mg_version ?ms)" by blast+
  then show ?thesis using load run \<open>err = None\<close> \<open>k = 1\<close> by (intro exI [of _ ?ms] exI [of _ db'] conjI) simp_all
qed

lemma down_reverts_up_witness:
  "down_to sample_exec sample_downs 1 \<lparr>mi_data = [''a'', ''b''], mi_applied = mi_applied sample_db @ [\<lparr>am_version = 2, am_name = ''002_b.sql'', am_time = 7\<rparr>]\<rparr>
     = (None, 1, sample_db)"
  by (rule down_reverts_up [OF _ sample_up])
    (auto simp: sample_migrations_def sample_downs_def sample_db_def applied_versions_def pending_def find_down_def sample_exec_def)

end
