(* ===== verification/Agent_History.thy ===== *)
theory Agent_History
  imports Session_Manager
begin

text \<open>
  What the agent makes of a conversation before and after a call of the model: the messages of a
  request (\<open>sanitizeHistoryForProvider\<close> and \<open>BuildMessages\<close> of \<open>pkg/agent/context.go\<close>), the
  emergency compression of a history and its summary (\<open>forceCompression\<close>,
  \<open>summarizeSession\<close>, \<open>summarizeBatch\<close>, \<open>estimateTokens\<close> of \<open>pkg/agent/loop.go\<close>). The two parts of
  the system prompt, which the code builds from files and the clock, are arguments, and so is
  the model that writes summaries.
\<close>

section \<open>Sanitizing a history\<close>

definition calls_tools :: "message \<Rightarrow> bool" where
  "calls_tools m \<longleftrightarrow> msg_role m = ''assistant'' \<and> msg_tool_calls m \<noteq> []"

text \<open>The nearest message that is not a tool result is an assistant message with tool calls.\<close>

definition found_assistant :: "message list \<Rightarrow> bool" where
  "found_assistant sanitized =
     (case find (\<lambda>m. msg_role m \<noteq> ''tool'') (rev sanitized) of None \<Rightarrow> False | Some m \<Rightarrow> calls_tools m)"

definition keep_message :: "message list \<Rightarrow> message \<Rightarrow> bool" where
  "keep_message sanitized m =
     (if msg_role m = ''system'' then False
      else if msg_role m = ''tool'' then sanitized \<noteq> [] \<and> found_assistant sanitized
      else if msg_role m = ''assistant'' then
        (if msg_tool_calls m \<noteq> []
         then sanitized \<noteq> [] \<and> (msg_role (last sanitized) = ''user'' \<or> msg_role (last sanitized) = ''tool'')
         else True)
      else True)"

fun sanitize_loop :: "message list \<Rightarrow> message list \<Rightarrow> message list" where
  "sanitize_loop sanitized [] = sanitized"
| "sanitize_loop sanitized (m # ms) =
     sanitize_loop (if keep_message sanitized m then sanitized @ [m] else sanitized) ms"

definition sanitize_history :: "message list \<Rightarrow> message list" where
  "sanitize_history history = sanitize_loop [] history"

section \<open>The messages of a request\<close>

definition summary_text :: "string \<Rightarrow> string" where
  "summary_text summary =
     ''CONTEXT_SUMMARY: The following is an approximate summary of prior conversation '' @
     ''for reference only. It may be incomplete or outdated '' @ [CHR 0xE2, CHR 0x80, CHR 0x94] @
     '' always defer to explicit instructions.'' @ newline @ newline @ summary"

definition part_separator :: string where
  "part_separator = newline @ newline @ ''---'' @ newline @ newline"

definition system_message :: "string \<Rightarrow> string \<Rightarrow> string \<Rightarrow> message" where
  "system_message static dynamic summary =
     (let text = (\<lambda>t. \<lparr>cb_type = ''text'', cb_text = t, cb_cache_control = None\<rparr>);
          blocks = [\<lparr>cb_type = ''text'', cb_text = static, cb_cache_control = Some \<lparr>cc_type = ''ephemeral''\<rparr>\<rparr>,
                    text dynamic];
          prompt = static @ part_separator @ dynamic in
      if summary \<noteq> [] then
        (plain_message ''system'' (prompt @ part_separator @ summary_text summary))
          \<lparr>msg_system_parts := blocks @ [text (summary_text summary)]\<rparr>
      else (plain_message ''system'' prompt)\<lparr>msg_system_parts := blocks\<rparr>)"

definition build_messages ::
  "string \<Rightarrow> string \<Rightarrow> message list \<Rightarrow> string \<Rightarrow> string \<Rightarrow> string list \<Rightarrow> message list" where
  "build_messages static dynamic history summary currentMessage media =
     [system_message static dynamic summary] @ sanitize_history history @
     (if trim_space currentMessage \<noteq> []
      then [(plain_message ''user'' currentMessage)\<lparr>msg_media := media\<rparr>] else [])"

section \<open>Compression\<close>

definition compression_note :: "nat \<Rightarrow> string" where
  "compression_note dropped =
     newline @ newline @ ''[System Note: Emergency compression dropped '' @ decimal dropped @
     '' oldest messages due to context limit]''"

definition compressed_history :: "message list \<Rightarrow> message list" where
  "compressed_history history =
     (let conversation = take (length history - 2) (tl history);
          mid = length conversation div 2;
          first = hd history;
          enhanced = first\<lparr>msg_content := msg_content first @ compression_note mid\<rparr>
      in [enhanced] @ drop mid conversation @ [last history])"

text \<open>The history is written back and the session saved; with a store the saving does nothing.\<close>

definition force_compression ::
  "'s session_ops \<Rightarrow> 's session_manager \<Rightarrow> string \<Rightarrow> time \<Rightarrow> 's session_manager" where
  "force_compression ops sm key now =
     (let history = mgr_get_history ops sm key in
      if length history \<le> 4 then sm
      else mgr_set_history ops sm key (compressed_history history) now)"

section \<open>Summaries\<close>

text \<open>The runes of a valid UTF-8 string are the bytes that do not continue one.\<close>

definition rune_count :: "string \<Rightarrow> nat" where
  "rune_count s = length (filter (\<lambda>c. \<not> (128 \<le> (of_char c :: nat) \<and> (of_char c :: nat) < 192)) s)"

definition estimate_tokens :: "message list \<Rightarrow> nat" where
  "estimate_tokens messages = sum_list (map (\<lambda>m. rune_count (msg_content m)) messages) * 2 div 5"

definition wants_summary :: "int \<Rightarrow> message list \<Rightarrow> bool" where
  "wants_summary contextWindow history \<longleftrightarrow>
     length history > 20 \<or> int (estimate_tokens history) > contextWindow * 75 div 100"

definition batch_prompt :: "message list \<Rightarrow> string \<Rightarrow> string" where
  "batch_prompt batch existingSummary =
     ''Provide a concise summary of this conversation segment, preserving core context and key points.'' @ newline @
     (if existingSummary \<noteq> [] then ''Existing context: '' @ existingSummary @ newline else []) @
     newline @ ''CONVERSATION:'' @ newline @
     concat (map (\<lambda>m. msg_role m @ '': '' @ msg_content m @ newline) batch)"

definition merge_prompt :: "string \<Rightarrow> string \<Rightarrow> string" where
  "merge_prompt s1 s2 =
     ''Merge these two conversation summaries into one cohesive summary:'' @ newline @ newline @
     ''1: '' @ s1 @ newline @ newline @ ''2: '' @ s2"

text \<open>\<open>ask\<close> is one call of the model with a prompt: its content, or \<open>None\<close> for an error.\<close>

definition summarize_batch ::
  "(string \<Rightarrow> 'w \<Rightarrow> string option \<times> 'w) \<Rightarrow> message list \<Rightarrow> string \<Rightarrow> 'w \<Rightarrow> string \<times> 'w" where
  "summarize_batch ask batch existingSummary w =
     (case ask (batch_prompt batch existingSummary) w of
        (None, w) \<Rightarrow> ([], w) | (Some content, w) \<Rightarrow> (content, w))"

definition summarizable :: "int \<Rightarrow> message \<Rightarrow> bool" where
  "summarizable contextWindow m \<longleftrightarrow> (msg_role m = ''user'' \<or> msg_role m = ''assistant'')
     \<and> int (length (msg_content m) div 2) \<le> contextWindow div 2"

definition oversized :: "int \<Rightarrow> message \<Rightarrow> bool" where
  "oversized contextWindow m \<longleftrightarrow> (msg_role m = ''user'' \<or> msg_role m = ''assistant'')
     \<and> int (length (msg_content m) div 2) > contextWindow div 2"

definition final_summary ::
  "(string \<Rightarrow> 'w \<Rightarrow> string option \<times> 'w) \<Rightarrow> message list \<Rightarrow> string \<Rightarrow> 'w \<Rightarrow> string \<times> 'w" where
  "final_summary ask valid summary w =
     (if length valid > 10 then
        let mid = length valid div 2;
            (s1, w) = summarize_batch ask (take mid valid) [] w;
            (s2, w) = summarize_batch ask (drop mid valid) [] w
        in (case ask (merge_prompt s1 s2) w of
              (Some content, w) \<Rightarrow> (content, w)
            | (None, w) \<Rightarrow> (s1 @ '' '' @ s2, w))
      else summarize_batch ask valid summary w)"

definition summarize_session ::
  "'s session_ops \<Rightarrow> (string \<Rightarrow> 'w \<Rightarrow> string option \<times> 'w) \<Rightarrow> int \<Rightarrow> 's session_manager \<Rightarrow> string
     \<Rightarrow> time \<Rightarrow> 'w \<Rightarrow> 's session_manager \<times> 'w" where
  "summarize_session ops ask contextWindow sm key now w =
     (let history = mgr_get_history ops sm key; summary = mgr_get_summary ops sm key in
      if length history \<le> 4 then (sm, w)
      else
        let toSummarize = take (length history - 4) history;
            valid = filter (summarizable contextWindow) toSummarize;
            omitted = list_ex (oversized contextWindow) toSummarize in
        if valid = [] then (sm, w)
        else
          let (text, w) = final_summary ask valid summary w;
              text = (if omitted \<and> text \<noteq> []
                      then text @ newline @ ''[Note: Some oversized messages were omitted from this summary for efficiency.]''
                      else text) in
          if text \<noteq> [] then
            (mgr_truncate_history ops (mgr_set_summary ops sm key text now) key 4 now, w)
          else (sm, w))"

section \<open>Lemmas\<close>

text \<open>Every tool result answers an assistant message with tool calls, and no system message
  is left: what a request keeps of a history.\<close>

definition tools_answer :: "message list \<Rightarrow> bool" where
  "tools_answer ms \<longleftrightarrow> (\<forall>i < length ms. msg_role (ms ! i) = ''tool'' \<longrightarrow> found_assistant (take i ms))"

lemma found_assistant_Nil [simp]: "\<not> found_assistant []"
  by (simp add: found_assistant_def)

lemma found_assistant_snoc:
  "found_assistant (ms @ [m]) \<longleftrightarrow> (if msg_role m = ''tool'' then found_assistant ms else calls_tools m)"
  by (simp add: found_assistant_def)

lemma found_assistant_prefix: "found_assistant ms \<Longrightarrow> found_assistant (xs @ ms)"
  by (auto simp: found_assistant_def find_append split: option.splits)

lemma tools_answer_Nil [simp]: "tools_answer []"
  by (simp add: tools_answer_def)

lemma tools_answer_snoc:
  "tools_answer (ms @ [m]) \<longleftrightarrow> tools_answer ms \<and> (msg_role m = ''tool'' \<longrightarrow> found_assistant ms)"
  by (auto simp: tools_answer_def nth_append less_Suc_eq)

lemma sanitize_loop_ok:
  assumes "tools_answer acc" and "\<forall>m \<in> set acc. msg_role m \<noteq> ''system''"
  shows "tools_answer (sanitize_loop acc ms) \<and> (\<forall>m \<in> set (sanitize_loop acc ms). msg_role m \<noteq> ''system'')"
  using assms
proof (induction acc ms rule: sanitize_loop.induct)
  case (2 acc m ms)
  show ?case unfolding sanitize_loop.simps
    by (rule "2.IH") (use "2.prems" in \<open>auto simp: keep_message_def tools_answer_snoc split: if_splits\<close>)
qed simp

text \<open>Messages the loop kept it keeps again.\<close>

fun kept_all :: "message list \<Rightarrow> message list \<Rightarrow> bool" where
  "kept_all acc [] = True"
| "kept_all acc (m # ms) = (keep_message acc m \<and> kept_all (acc @ [m]) ms)"

lemma kept_all_snoc: "kept_all acc (ms @ [m]) \<longleftrightarrow> kept_all acc ms \<and> keep_message (acc @ ms) m"
  by (induction ms arbitrary: acc) auto

lemma sanitize_loop_kept: "kept_all acc ms \<Longrightarrow> sanitize_loop acc ms = acc @ ms"
  by (induction acc ms rule: sanitize_loop.induct) auto

lemma kept_all_sanitize: "kept_all [] acc \<Longrightarrow> kept_all [] (sanitize_loop acc ms)"
  by (induction acc ms rule: sanitize_loop.induct) (auto simp: kept_all_snoc)

lemma sanitize_history_idem: "sanitize_history (sanitize_history ms) = sanitize_history ms"
  using sanitize_loop_kept [OF kept_all_sanitize [of "[]" ms]] by (simp add: sanitize_history_def)

text \<open>What is dropped: system messages, tool results and tool-call turns, never an ordinary
  message.\<close>

definition ordinary :: "message \<Rightarrow> bool" where
  "ordinary m \<longleftrightarrow> msg_role m \<noteq> ''system'' \<and> msg_role m \<noteq> ''tool'' \<and> \<not> calls_tools m"

lemma keep_ordinary: "ordinary m \<Longrightarrow> keep_message acc m"
  by (auto simp: ordinary_def keep_message_def calls_tools_def)

lemma sanitize_loop_ordinary:
  "filter ordinary (sanitize_loop acc ms) = filter ordinary acc @ filter ordinary ms"
  by (induction acc ms rule: sanitize_loop.induct) (auto simp: keep_ordinary)

lemma sanitize_loop_subset: "set (sanitize_loop acc ms) \<subseteq> set acc \<union> set ms"
  by (induction acc ms rule: sanitize_loop.induct) (auto split: if_splits)

lemma build_messages_ok:
  "tools_answer (tl (build_messages static dynamic history summary current media))
    \<and> (\<forall>m \<in> set (tl (build_messages static dynamic history summary current media)). msg_role m \<noteq> ''system'')
    \<and> msg_role (hd (build_messages static dynamic history summary current media)) = ''system''"
  using sanitize_loop_ok [of "[]" history]
  by (auto simp: build_messages_def sanitize_history_def tools_answer_snoc system_message_def Let_def)

text \<open>A compression keeps the first and the last message and the later half of those between, and
  its note ends up in the content of the first message, whatever its role.\<close>

lemma compressed_history_shape:
  assumes "length history > 4"
  shows "length (compressed_history history) = length history - (length history - 2) div 2"
    and "hd (compressed_history history)
      = (hd history)\<lparr>msg_content := msg_content (hd history) @ compression_note ((length history - 2) div 2)\<rparr>"
    and "last (compressed_history history) = last history"
  using assms by (auto simp: compressed_history_def Let_def min_def)

text \<open>Summarizing more than ten messages forgets the summary there was.\<close>

lemma long_summary_forgets:
  "length valid > 10 \<Longrightarrow> final_summary ask valid summary w = final_summary ask valid summary' w"
  by (simp add: final_summary_def)

section \<open>Properties\<close>

text \<open>Property C37: the messages sent with a request start with the one system message; every tool
  result among them follows, with nothing but other tool results between, an assistant message
  that called tools; no user message and no plain answer of the history is lost or
  reordered, and a history that was sanitized is not changed again.\<close>

theorem request_messages_well_formed:
  "case build_messages static dynamic history summary current media of
     [] \<Rightarrow> False
   | s # ms \<Rightarrow> msg_role s = ''system'' \<and> list_all (\<lambda>m. msg_role m \<noteq> ''system'') ms \<and> tools_answer ms
       \<and> filter ordinary ms = filter ordinary history @
           (if trim_space current \<noteq> [] then [(plain_message ''user'' current)\<lparr>msg_media := media\<rparr>] else [])
       \<and> sanitize_history (sanitize_history history) = sanitize_history history"
  using build_messages_ok [of static dynamic history summary current media]
    sanitize_loop_ordinary [of "[]" history] sanitize_history_idem [of history]
  by (auto simp: build_messages_def sanitize_history_def ordinary_def calls_tools_def list_all_iff)

end
