(* ===== verification/Agent_Loop.thy ===== *)
theory Agent_Loop
  imports Agent_History Fallback Routing
begin

text \<open>
  The agent loop of \<open>pkg/agent/loop.go\<close>: a call of the model with its fallback chain and
  retries, the rounds of tool calls (\<open>runLLMIteration\<close>), the tools they reach
  (\<open>pkg/tools/registry.go\<close>, \<open>pkg/tools/message.go\<close>), the registry of agents
  (\<open>pkg/agent/registry.go\<close>), and the handling of one inbound message from routing to
  the published answer (\<open>processMessage\<close>, \<open>runAgentLoop\<close>, one turn of \<open>Run\<close>).

  The model, the tools other than the message tool, the clock, the bus, the prompt files and the
  media files are a world with a hidden state that every use may change. An agent's sessions
  are a manager of theory Session_Manager over any store. The goroutines of the code, which
  write summaries and publish reasoning, run to their end where they start; publishing
  reasoning is left out.
\<close>

section \<open>Data\<close>

datatype outbound =
    OutMessage (out_channel: string) (out_chat: string) string
  | OutMedia (out_channel: string) (out_chat: string) "(string \<times> string \<times> string \<times> string) list"

record tool_result =
  tr_for_llm :: string
  tr_for_user :: string
  tr_silent :: bool
  tr_is_error :: bool
  tr_async :: bool
  tr_err :: "string option"
  tr_media :: "string list"

definition new_tool_result :: "string \<Rightarrow> tool_result" where
  "new_tool_result forLLM =
     \<lparr>tr_for_llm = forLLM, tr_for_user = [], tr_silent = False, tr_is_error = False, tr_async = False,
      tr_err = None, tr_media = []\<rparr>"

text \<open>The message tool is the one whose state the loop looks at; the others act in the world.\<close>

datatype tool = MessageTool | WorldTool

record message_tool =
  mt_default_channel :: string
  mt_default_chat_id :: string
  mt_sent_in_round :: bool

record agent_instance =
  ai_id :: string
  ai_model :: string
  ai_max_iterations :: nat
  ai_context_window :: int
  ai_candidates :: "fallback_candidate list"
  ai_tools :: "string \<Rightarrow> tool option"
  ai_allow_agents :: "string list option"

record inbound =
  in_channel :: string
  in_sender_id :: string
  in_chat_id :: string
  in_content :: string
  in_media :: "string list"
  in_peer_kind :: string
  in_peer_id :: string
  in_session_key :: string
  in_metadata :: "string \<Rightarrow> string"

record process_options =
  po_session_key :: string
  po_channel :: string
  po_chat_id :: string
  po_user_message :: string
  po_media :: "string list"
  po_default_response :: string
  po_enable_summary :: bool
  po_send_response :: bool
  po_no_history :: bool

text \<open>A publish answers the error text, or \<open>None\<close>; \<open>wd_load_media\<close> is the data URL of a
  \<open>media://\<close> reference that can be read within the size limit.\<close>

record 'w world =
  wd_now :: "'w \<Rightarrow> time \<times> 'w"
  wd_canceled :: "'w \<Rightarrow> bool \<times> 'w"
  wd_sleep :: "duration \<Rightarrow> 'w \<Rightarrow> 'w"
  wd_chat :: "message list \<Rightarrow> string \<Rightarrow> 'w \<Rightarrow> (go_error + llm_response) \<times> 'w"
  wd_tool :: "string \<Rightarrow> arguments \<Rightarrow> string \<Rightarrow> string \<Rightarrow> 'w \<Rightarrow> tool_result \<times> 'w"
  wd_prompts :: "string \<Rightarrow> string \<Rightarrow> string \<Rightarrow> 'w \<Rightarrow> (string \<times> string) \<times> 'w"
  wd_publish :: "outbound \<Rightarrow> 'w \<Rightarrow> string option \<times> 'w"
  wd_load_media :: "string \<Rightarrow> 'w \<Rightarrow> string option \<times> 'w"
  wd_media_meta :: "string \<Rightarrow> (string \<times> string) option"
  wd_marshal :: "arguments \<Rightarrow> string"
  wd_unmarshal :: "string \<Rightarrow> arguments option"
  wd_duration_text :: "duration \<Rightarrow> string"

text \<open>\<open>as_agents\<close> is a traversal of the map of agents; the other maps go by agent id.\<close>

record ('s, 'w) agent_state =
  as_agents :: "(string \<times> agent_instance) list"
  as_sessions :: "string \<Rightarrow> 's session_manager"
  as_message_tool :: "string \<Rightarrow> message_tool"
  as_tracker :: cooldown_tracker
  as_last_channel :: string
  as_world :: 'w

text \<open>What stays as configured: the routing configuration, whether there is a media store, and
  the enabled channels, if a channel manager is set.\<close>

record loop_config =
  ac_routing :: routing_config
  ac_media_store :: bool
  ac_channels :: "string list option"

section \<open>Small helpers\<close>

text \<open>\<open>filepath.Ext\<close>\<close>

fun rev_ext :: "string \<Rightarrow> string \<Rightarrow> string" where
  "rev_ext acc [] = []"
| "rev_ext acc (c # cs) =
     (if c = CHR ''.'' then c # acc else if c = CHR ''/'' then [] else rev_ext (c # acc) cs)"

definition file_ext :: "string \<Rightarrow> string" where
  "file_ext name = rev_ext [] (rev name)"

definition infer_media_type :: "string \<Rightarrow> string \<Rightarrow> string" where
  "infer_media_type filename contentType =
     (let ct = to_lower contentType; fn = to_lower filename in
      if has_prefix ct ''image/'' then ''image''
      else if has_prefix ct ''audio/'' \<or> ct = ''application/ogg'' then ''audio''
      else if has_prefix ct ''video/'' then ''video''
      else
        let ext = file_ext fn in
        if ext \<in> {''.jpg'', ''.jpeg'', ''.png'', ''.gif'', ''.webp'', ''.bmp'', ''.svg''} then ''image''
        else if ext \<in> {''.mp3'', ''.wav'', ''.ogg'', ''.m4a'', ''.flac'', ''.aac'', ''.wma'', ''.opus''} then ''audio''
        else if ext \<in> {''.mp4'', ''.avi'', ''.mov'', ''.webm'', ''.mkv''} then ''video''
        else ''file'')"

definition extract_peer :: "inbound \<Rightarrow> route_peer option" where
  "extract_peer msg =
     (if in_peer_kind msg = [] then None
      else
        let peerID = (if in_peer_id msg = []
                      then (if in_peer_kind msg = ''direct'' then in_sender_id msg else in_chat_id msg)
                      else in_peer_id msg)
        in Some \<lparr>peer_kind = in_peer_kind msg, peer_id = peerID\<rparr>)"

definition extract_parent_peer :: "inbound \<Rightarrow> route_peer option" where
  "extract_parent_peer msg =
     (let parentKind = in_metadata msg ''parent_peer_kind''; parentID = in_metadata msg ''parent_peer_id'' in
      if parentKind = [] \<or> parentID = [] then None
      else Some \<lparr>peer_kind = parentKind, peer_id = parentID\<rparr>)"

section \<open>The registry of agents\<close>

definition get_agent :: "(string \<times> agent_instance) list \<Rightarrow> string \<Rightarrow> agent_instance option" where
  "get_agent agents agentID = map_of agents (normalize_agent_id agentID)"

definition get_default_agent :: "(string \<times> agent_instance) list \<Rightarrow> agent_instance option" where
  "get_default_agent agents =
     (case map_of agents ''main'' of
        Some a \<Rightarrow> Some a
      | None \<Rightarrow> (case agents of [] \<Rightarrow> None | (_, a) # _ \<Rightarrow> Some a))"

definition can_spawn_subagent :: "(string \<times> agent_instance) list \<Rightarrow> string \<Rightarrow> string \<Rightarrow> bool" where
  "can_spawn_subagent agents parentAgentID targetAgentID =
     (case get_agent agents parentAgentID of
        None \<Rightarrow> False
      | Some parent \<Rightarrow>
          (case ai_allow_agents parent of
             None \<Rightarrow> False
           | Some allowed \<Rightarrow>
               let targetNorm = normalize_agent_id targetAgentID in
               list_ex (\<lambda>a. a = ''*'' \<or> normalize_agent_id a = targetNorm) allowed))"

section \<open>Tools\<close>

definition message_tool_set_context :: "string \<Rightarrow> string \<Rightarrow> message_tool \<Rightarrow> message_tool" where
  "message_tool_set_context channel chatID t =
     \<lparr>mt_default_channel = channel, mt_default_chat_id = chatID, mt_sent_in_round = False\<rparr>"

definition string_arg :: "arguments \<Rightarrow> string \<Rightarrow> string option" where
  "string_arg args name = (case map_of args name of Some (JString s) \<Rightarrow> Some s | _ \<Rightarrow> None)"

definition message_tool_execute ::
  "'w world \<Rightarrow> arguments \<Rightarrow> message_tool \<Rightarrow> 'w \<Rightarrow> tool_result \<times> message_tool \<times> 'w" where
  "message_tool_execute W args t w =
     (case string_arg args ''content'' of
        None \<Rightarrow> ((new_tool_result ''content is required'')\<lparr>tr_is_error := True\<rparr>, t, w)
      | Some content \<Rightarrow>
          let channel = (case string_arg args ''channel'' of None \<Rightarrow> [] | Some s \<Rightarrow> s);
              chatID = (case string_arg args ''chat_id'' of None \<Rightarrow> [] | Some s \<Rightarrow> s);
              channel = (if channel = [] then mt_default_channel t else channel);
              chatID = (if chatID = [] then mt_default_chat_id t else chatID) in
          if channel = [] \<or> chatID = []
          then ((new_tool_result ''No target channel/chat specified'')\<lparr>tr_is_error := True\<rparr>, t, w)
          else
            (case wd_publish W (OutMessage channel chatID content) w of
               (Some err, w) \<Rightarrow>
                 ((new_tool_result (''sending message: '' @ err))\<lparr>tr_is_error := True, tr_err := Some err\<rparr>, t, w)
             | (None, w) \<Rightarrow>
                 ((new_tool_result (''Message sent to '' @ channel @ '':'' @ chatID))\<lparr>tr_silent := True\<rparr>,
                  t\<lparr>mt_sent_in_round := True\<rparr>, w)))"

text \<open>\<open>ExecuteWithContext\<close>; \<open>%q\<close> quotes a name, here one without characters to escape.\<close>

definition execute_tool ::
  "'w world \<Rightarrow> agent_instance \<Rightarrow> string \<Rightarrow> arguments \<Rightarrow> string \<Rightarrow> string \<Rightarrow> ('s, 'w) agent_state
     \<Rightarrow> tool_result \<times> ('s, 'w) agent_state" where
  "execute_tool W agent name args channel chatID st =
     (case ai_tools agent name of
        None \<Rightarrow>
          ((new_tool_result (''tool '' @ [CHR 0x22] @ name @ [CHR 0x22] @ '' not found''))
             \<lparr>tr_is_error := True, tr_err := Some ''tool not found''\<rparr>, st)
      | Some WorldTool \<Rightarrow>
          (case wd_tool W name args channel chatID (as_world st) of (r, w) \<Rightarrow> (r, st\<lparr>as_world := w\<rparr>))
      | Some MessageTool \<Rightarrow>
          let t = as_message_tool st (ai_id agent);
              t = (if channel \<noteq> [] \<and> chatID \<noteq> [] then message_tool_set_context channel chatID t else t) in
          (case message_tool_execute W args t (as_world st) of
             (r, t, w) \<Rightarrow>
               (r, st\<lparr>as_message_tool := (as_message_tool st)(ai_id agent := t), as_world := w\<rparr>)))"

section \<open>Sessions and the bus\<close>

definition tick :: "'w world \<Rightarrow> ('s, 'w) agent_state \<Rightarrow> time \<times> ('s, 'w) agent_state" where
  "tick W st = (case wd_now W (as_world st) of (now, w) \<Rightarrow> (now, st\<lparr>as_world := w\<rparr>))"

text \<open>A call on the session manager of an agent, which reads the clock.\<close>

definition with_sessions ::
  "'w world \<Rightarrow> agent_instance \<Rightarrow> ('s session_manager \<Rightarrow> time \<Rightarrow> 's session_manager)
     \<Rightarrow> ('s, 'w) agent_state \<Rightarrow> ('s, 'w) agent_state" where
  "with_sessions W agent f st =
     (case tick W st of
        (now, st) \<Rightarrow> st\<lparr>as_sessions := (as_sessions st)(ai_id agent := f (as_sessions st (ai_id agent)) now)\<rparr>)"

definition add_full_message ::
  "'w world \<Rightarrow> 's session_ops \<Rightarrow> agent_instance \<Rightarrow> string \<Rightarrow> message \<Rightarrow> ('s, 'w) agent_state \<Rightarrow> ('s, 'w) agent_state" where
  "add_full_message W ops agent key m = with_sessions W agent (\<lambda>sm. mgr_add_full_message ops sm key m)"

definition publish :: "'w world \<Rightarrow> outbound \<Rightarrow> ('s, 'w) agent_state \<Rightarrow> ('s, 'w) agent_state" where
  "publish W out st = st\<lparr>as_world := snd (wd_publish W out (as_world st))\<rparr>"

definition session_messages ::
  "'w world \<Rightarrow> 's session_ops \<Rightarrow> agent_instance \<Rightarrow> string \<Rightarrow> bool \<Rightarrow> string \<Rightarrow> string list \<Rightarrow> string \<Rightarrow> string
     \<Rightarrow> ('s, 'w) agent_state \<Rightarrow> message list \<times> ('s, 'w) agent_state" where
  "session_messages W ops agent key noHistory current media channel chatID st =
     (let sm = as_sessions st (ai_id agent);
          history = (if noHistory then [] else mgr_get_history ops sm key);
          summary = (if noHistory then [] else mgr_get_summary ops sm key) in
      case wd_prompts W (ai_id agent) channel chatID (as_world st) of
        ((static, dynamic), w) \<Rightarrow>
          (build_messages static dynamic history summary current media, st\<lparr>as_world := w\<rparr>))"

section \<open>A call of the model\<close>

datatype chat_error = ChatFailed go_error | ChainFailed chain_error

fun reason_text :: "failover_reason \<Rightarrow> string" where
  "reason_text FailoverAuth = ''auth''"
| "reason_text FailoverRateLimit = ''rate_limit''"
| "reason_text FailoverBilling = ''billing''"
| "reason_text FailoverTimeout = ''timeout''"
| "reason_text FailoverFormat = ''format''"
| "reason_text FailoverOverloaded = ''overloaded''"
| "reason_text FailoverUnknown = ''unknown''"

definition failover_text :: "failover_error \<Rightarrow> string" where
  "failover_text e =
     ''failover('' @ reason_text (fe_reason e) @ ''): provider='' @ fe_provider e @ '' model='' @ fe_model e @
     '' status='' @ decimal (fe_status e) @ '': '' @ error_message (fe_wrapped e)"

text \<open>\<open>dt\<close> is \<open>Duration.String\<close>, \<open>round_millisecond\<close> is \<open>Round(time.Millisecond)\<close>.\<close>

definition round_millisecond :: "duration \<Rightarrow> duration" where
  "round_millisecond d = (d + millisecond div 2) div millisecond * millisecond"

fun attempt_error_text :: "(duration \<Rightarrow> string) \<Rightarrow> attempt_error \<Rightarrow> string" where
  "attempt_error_text dt (InCooldown p d) = ''provider '' @ p @ '' in cooldown ('' @ dt d @ '' remaining)''"
| "attempt_error_text dt (RunError e) = error_message e"
| "attempt_error_text dt (Classified e) = failover_text e"

fun attempts_text :: "(duration \<Rightarrow> string) \<Rightarrow> nat \<Rightarrow> fallback_attempt list \<Rightarrow> string" where
  "attempts_text dt i [] = []"
| "attempts_text dt i (a # rest) =
     newline @ ''  ['' @ decimal (i + 1) @ ''] '' @ fa_provider a @ ''/'' @ fa_model a @
     (if fa_skipped a then '': skipped (cooldown)''
      else '': '' @ attempt_error_text dt (fa_error a) @ '' (reason='' @
           (case fa_reason a of None \<Rightarrow> [] | Some r \<Rightarrow> reason_text r) @ '', '' @
           dt (round_millisecond (fa_duration a)) @ '')'') @
     attempts_text dt (i + 1) rest"

fun chain_error_text :: "(duration \<Rightarrow> string) \<Rightarrow> chain_error \<Rightarrow> string" where
  "chain_error_text dt NoCandidates = ''fallback: no candidates configured''"
| "chain_error_text dt ChainCanceled = ''context canceled''"
| "chain_error_text dt (Unclassified p m e) =
     ''fallback: unclassified error from '' @ p @ ''/'' @ m @ '': '' @ error_message e"
| "chain_error_text dt (NonRetriable e) = failover_text e"
| "chain_error_text dt (Exhausted attempts) =
     ''fallback: all '' @ decimal (length attempts) @ '' candidates failed:'' @ attempts_text dt 0 attempts"

fun chat_error_text :: "(duration \<Rightarrow> string) \<Rightarrow> chat_error \<Rightarrow> string" where
  "chat_error_text dt (ChatFailed e) = error_message e"
| "chat_error_text dt (ChainFailed e) = chain_error_text dt e"

text \<open>\<open>errors.Is(err, context.DeadlineExceeded)\<close>: an exhausted chain does not unwrap.\<close>

fun is_deadline :: "chat_error \<Rightarrow> bool" where
  "is_deadline (ChatFailed e) = (e = CtxDeadlineExceeded)"
| "is_deadline (ChainFailed (Unclassified p m e)) = (e = CtxDeadlineExceeded)"
| "is_deadline (ChainFailed (NonRetriable e)) = (fe_wrapped e = CtxDeadlineExceeded)"
| "is_deadline (ChainFailed _) = False"

definition is_timeout_error :: "(duration \<Rightarrow> string) \<Rightarrow> chat_error \<Rightarrow> bool" where
  "is_timeout_error dt e \<longleftrightarrow>
     (let msg = to_lower (chat_error_text dt e) in
      is_deadline e \<or> contains msg ''deadline exceeded'' \<or> contains msg ''client.timeout''
      \<or> contains msg ''timed out'' \<or> contains msg ''timeout exceeded'')"

definition is_context_error :: "(duration \<Rightarrow> string) \<Rightarrow> chat_error \<Rightarrow> bool" where
  "is_context_error dt e \<longleftrightarrow>
     (let msg = to_lower (chat_error_text dt e) in
      \<not> is_timeout_error dt e \<and>
      list_ex (contains msg)
        [''context_length_exceeded'', ''context window'', ''maximum context length'', ''token limit'',
         ''too many tokens'', ''max_tokens'', ''invalidparameter'', ''prompt is too long'', ''request too large''])"

text \<open>\<open>callLLM\<close>: the provider named by a candidate is not used, only its model.\<close>

definition chain_env :: "'w world \<Rightarrow> message list \<Rightarrow> ('w, llm_response) environment" where
  "chain_env W messages =
     \<lparr>env_time = wd_now W, env_canceled = wd_canceled W, env_run = (\<lambda>provider model. wd_chat W messages model)\<rparr>"

definition call_llm ::
  "'w world \<Rightarrow> agent_instance \<Rightarrow> message list \<Rightarrow> ('s, 'w) agent_state
     \<Rightarrow> (chat_error + llm_response) \<times> ('s, 'w) agent_state" where
  "call_llm W agent messages st =
     (if length (ai_candidates agent) > 1 then
        (case fallback_execute (chain_env W messages) (ai_candidates agent) (as_tracker st) (as_world st) of
           (Inl e, c, w) \<Rightarrow> (Inl (ChainFailed e), st\<lparr>as_tracker := c, as_world := w\<rparr>)
         | (Inr r, c, w) \<Rightarrow> (Inr (fr_response r), st\<lparr>as_tracker := c, as_world := w\<rparr>))
      else
        (case wd_chat W messages (ai_model agent) (as_world st) of
           (Inl e, w) \<Rightarrow> (Inl (ChatFailed e), st\<lparr>as_world := w\<rparr>)
         | (Inr r, w) \<Rightarrow> (Inr r, st\<lparr>as_world := w\<rparr>)))"

text \<open>The retry loop; \<open>left\<close> is \<open>maxRetries - retry\<close>. A compression rebuilds the messages from the
  session.\<close>

definition max_retries :: nat where "max_retries = 2"

definition compress_and_rebuild ::
  "'w world \<Rightarrow> 's session_ops \<Rightarrow> agent_instance \<Rightarrow> process_options \<Rightarrow> bool \<Rightarrow> ('s, 'w) agent_state
     \<Rightarrow> message list \<times> ('s, 'w) agent_state" where
  "compress_and_rebuild W ops agent opts first st =
     (let st = (if first \<and> \<not> is_internal_channel (po_channel opts)
                then publish W (OutMessage (po_channel opts) (po_chat_id opts)
                       ''Context window exceeded. Compressing history and retrying...'') st
                else st);
          st = with_sessions W agent (\<lambda>sm. force_compression ops sm (po_session_key opts)) st
      in session_messages W ops agent (po_session_key opts) False [] [] (po_channel opts) (po_chat_id opts) st)"

fun try_llm ::
  "'w world \<Rightarrow> 's session_ops \<Rightarrow> agent_instance \<Rightarrow> process_options \<Rightarrow> nat \<Rightarrow> message list \<Rightarrow> ('s, 'w) agent_state
     \<Rightarrow> (chat_error + llm_response) \<times> message list \<times> ('s, 'w) agent_state" where
  "try_llm W ops agent opts left messages st =
     (case call_llm W agent messages st of
        (Inr r, st) \<Rightarrow> (Inr r, messages, st)
      | (Inl e, st) \<Rightarrow>
          (case left of
             0 \<Rightarrow> (Inl e, messages, st)
           | Suc left' \<Rightarrow>
               if is_timeout_error (wd_duration_text W) e then
                 let backoff = int (max_retries - left + 1) * 5 * second
                 in try_llm W ops agent opts left' messages (st\<lparr>as_world := wd_sleep W backoff (as_world st)\<rparr>)
               else if is_context_error (wd_duration_text W) e then
                 (case compress_and_rebuild W ops agent opts (left = max_retries) st of
                    (messages, st) \<Rightarrow> try_llm W ops agent opts left' messages st)
               else (Inl e, messages, st)))"

declare try_llm.simps [simp del]

section \<open>Rounds of tool calls\<close>

definition saved_tool_call :: "'w world \<Rightarrow> tool_call \<Rightarrow> tool_call" where
  "saved_tool_call W tc =
     (let argumentsJSON = wd_marshal W (case tc_arguments tc of None \<Rightarrow> [] | Some a \<Rightarrow> a);
          thought = (case tc_function tc of None \<Rightarrow> [] | Some f \<Rightarrow> fc_thought_signature f)
      in \<lparr>tc_id = tc_id tc, tc_type = ''function'',
          tc_function = Some \<lparr>fc_name = tc_name tc, fc_arguments = argumentsJSON, fc_thought_signature = thought\<rparr>,
          tc_name = tc_name tc, tc_arguments = None, tc_thought_signature = thought,
          tc_extra_content = tc_extra_content tc\<rparr>)"

definition assistant_message :: "'w world \<Rightarrow> llm_response \<Rightarrow> tool_call list \<Rightarrow> message" where
  "assistant_message W r calls =
     (plain_message ''assistant'' (lr_content r))
       \<lparr>msg_reasoning_content := lr_reasoning_content r, msg_tool_calls := map (saved_tool_call W) calls\<rparr>"

definition tool_message :: "tool_call \<Rightarrow> tool_result \<Rightarrow> message" where
  "tool_message tc r =
     (let content = (if tr_for_llm r = [] then (case tr_err r of None \<Rightarrow> [] | Some e \<Rightarrow> e) else tr_for_llm r)
      in (plain_message ''tool'' content)\<lparr>msg_tool_call_id := tc_id tc\<rparr>)"

definition media_part :: "'w world \<Rightarrow> bool \<Rightarrow> string \<Rightarrow> string \<times> string \<times> string \<times> string" where
  "media_part W store ref =
     (case (if store then wd_media_meta W ref else None) of
        None \<Rightarrow> ([], ref, [], [])
      | Some (filename, contentType) \<Rightarrow> (infer_media_type filename contentType, ref, filename, contentType))"

definition report_tool_result ::
  "'w world \<Rightarrow> loop_config \<Rightarrow> process_options \<Rightarrow> tool_result \<Rightarrow> ('s, 'w) agent_state \<Rightarrow> ('s, 'w) agent_state" where
  "report_tool_result W cfg opts r st =
     (let st = (if \<not> tr_silent r \<and> tr_for_user r \<noteq> [] \<and> po_send_response opts
                then publish W (OutMessage (po_channel opts) (po_chat_id opts) (tr_for_user r)) st else st)
      in (if tr_media r \<noteq> [] \<and> po_send_response opts
          then publish W (OutMedia (po_channel opts) (po_chat_id opts)
                 (map (media_part W (ac_media_store cfg)) (tr_media r))) st else st))"

fun run_tools ::
  "'w world \<Rightarrow> 's session_ops \<Rightarrow> loop_config \<Rightarrow> agent_instance \<Rightarrow> process_options \<Rightarrow> tool_call list
     \<Rightarrow> message list \<Rightarrow> ('s, 'w) agent_state \<Rightarrow> message list \<times> ('s, 'w) agent_state" where
  "run_tools W ops cfg agent opts [] messages st = (messages, st)"
| "run_tools W ops cfg agent opts (tc # calls) messages st =
     (let args = (case tc_arguments tc of None \<Rightarrow> [] | Some a \<Rightarrow> a);
          (r, st) = execute_tool W agent (tc_name tc) args (po_channel opts) (po_chat_id opts) st;
          st = report_tool_result W cfg opts r st;
          m = tool_message tc r;
          st = add_full_message W ops agent (po_session_key opts) m st
      in run_tools W ops cfg agent opts calls (messages @ [m]) st)"

text \<open>\<open>runLLMIteration\<close>; \<open>n\<close> is the number of iterations left.\<close>

fun llm_iterations ::
  "'w world \<Rightarrow> 's session_ops \<Rightarrow> loop_config \<Rightarrow> agent_instance \<Rightarrow> process_options \<Rightarrow> nat \<Rightarrow> message list
     \<Rightarrow> ('s, 'w) agent_state \<Rightarrow> (chat_error + string) \<times> ('s, 'w) agent_state" where
  "llm_iterations W ops cfg agent opts 0 messages st = (Inr [], st)"
| "llm_iterations W ops cfg agent opts (Suc n) messages st =
     (case try_llm W ops agent opts max_retries messages st of
        (Inl e, messages, st) \<Rightarrow> (Inl e, st)
      | (Inr r, messages, st) \<Rightarrow>
          if lr_tool_calls r = [] then (Inr (lr_content r), st)
          else
            let calls = map (normalize_tool_call (wd_marshal W) (wd_unmarshal W)) (lr_tool_calls r);
                m = assistant_message W r calls;
                st = add_full_message W ops agent (po_session_key opts) m st;
                (messages, st) = run_tools W ops cfg agent opts calls (messages @ [m]) st
            in llm_iterations W ops cfg agent opts n messages st)"

definition run_llm_iteration ::
  "'w world \<Rightarrow> 's session_ops \<Rightarrow> loop_config \<Rightarrow> agent_instance \<Rightarrow> process_options \<Rightarrow> message list
     \<Rightarrow> ('s, 'w) agent_state \<Rightarrow> (chat_error + string) \<times> ('s, 'w) agent_state" where
  "run_llm_iteration W ops cfg agent opts messages st =
     llm_iterations W ops cfg agent opts (ai_max_iterations agent) messages st"

section \<open>One message through the loop\<close>

definition default_response :: string where
  "default_response =
     ''I'' @ [CHR 0x27] @ ''ve completed processing but have no response to give. Increase '' @ [CHR 0x60] @
     ''max_tool_iterations'' @ [CHR 0x60] @ '' in config.json.''"

fun resolve_refs :: "'w world \<Rightarrow> string list \<Rightarrow> 'w \<Rightarrow> string list \<times> 'w" where
  "resolve_refs W [] w = ([], w)"
| "resolve_refs W (ref # refs) w =
     (if \<not> has_prefix ref ''media://'' then
        (case resolve_refs W refs w of (rs, w) \<Rightarrow> (ref # rs, w))
      else
        (case wd_load_media W ref w of
           (None, w) \<Rightarrow> resolve_refs W refs w
         | (Some url, w) \<Rightarrow> (case resolve_refs W refs w of (rs, w) \<Rightarrow> (url # rs, w))))"

fun resolve_messages :: "'w world \<Rightarrow> message list \<Rightarrow> 'w \<Rightarrow> message list \<times> 'w" where
  "resolve_messages W [] w = ([], w)"
| "resolve_messages W (m # ms) w =
     (let (m', w) = (if msg_media m = [] then (m, w)
                     else (case resolve_refs W (msg_media m) w of (rs, w) \<Rightarrow> (m\<lparr>msg_media := rs\<rparr>, w)));
          (ms', w) = resolve_messages W ms w
      in (m' # ms', w))"

definition resolve_media_refs ::
  "'w world \<Rightarrow> loop_config \<Rightarrow> message list \<Rightarrow> ('s, 'w) agent_state \<Rightarrow> message list \<times> ('s, 'w) agent_state" where
  "resolve_media_refs W cfg messages st =
     (if \<not> ac_media_store cfg then (messages, st)
      else (case resolve_messages W messages (as_world st) of (ms, w) \<Rightarrow> (ms, st\<lparr>as_world := w\<rparr>)))"

definition update_tool_contexts ::
  "agent_instance \<Rightarrow> string \<Rightarrow> string \<Rightarrow> ('s, 'w) agent_state \<Rightarrow> ('s, 'w) agent_state" where
  "update_tool_contexts agent channel chatID st =
     (if ai_tools agent ''message'' = Some MessageTool
      then st\<lparr>as_message_tool := (as_message_tool st)
             (ai_id agent := message_tool_set_context channel chatID (as_message_tool st (ai_id agent)))\<rparr>
      else st)"

text \<open>One prompt to the agent's model, as the summaries use it.\<close>

definition ask_model :: "'w world \<Rightarrow> agent_instance \<Rightarrow> string \<Rightarrow> 'w \<Rightarrow> string option \<times> 'w" where
  "ask_model W agent prompt w =
     (case wd_chat W [plain_message ''user'' prompt] (ai_model agent) w of
        (Inl e, w) \<Rightarrow> (None, w) | (Inr r, w) \<Rightarrow> (Some (lr_content r), w))"

definition maybe_summarize ::
  "'w world \<Rightarrow> 's session_ops \<Rightarrow> agent_instance \<Rightarrow> string \<Rightarrow> ('s, 'w) agent_state \<Rightarrow> ('s, 'w) agent_state" where
  "maybe_summarize W ops agent key st =
     (if wants_summary (ai_context_window agent) (mgr_get_history ops (as_sessions st (ai_id agent)) key) then
        (case tick W st of
           (now, st) \<Rightarrow>
             (case summarize_session ops (ask_model W agent) (ai_context_window agent)
                     (as_sessions st (ai_id agent)) key now (as_world st) of
                (sm, w) \<Rightarrow> st\<lparr>as_sessions := (as_sessions st)(ai_id agent := sm), as_world := w\<rparr>))
      else st)"

definition run_agent_loop ::
  "'w world \<Rightarrow> 's session_ops \<Rightarrow> loop_config \<Rightarrow> agent_instance \<Rightarrow> process_options \<Rightarrow> ('s, 'w) agent_state
     \<Rightarrow> (chat_error + string) \<times> ('s, 'w) agent_state" where
  "run_agent_loop W ops cfg agent opts st =
     (let channel = po_channel opts; chatID = po_chat_id opts; key = po_session_key opts;
          st = (if channel \<noteq> [] \<and> chatID \<noteq> [] \<and> \<not> is_internal_channel channel
                then st\<lparr>as_last_channel := channel @ '':'' @ chatID\<rparr> else st);
          st = update_tool_contexts agent channel chatID st;
          (messages, st) = session_messages W ops agent key (po_no_history opts) (po_user_message opts)
                             (po_media opts) channel chatID st;
          (messages, st) = resolve_media_refs W cfg messages st;
          st = add_full_message W ops agent key (plain_message ''user'' (po_user_message opts)) st in
      case run_llm_iteration W ops cfg agent opts messages st of
        (Inl e, st) \<Rightarrow> (Inl e, st)
      | (Inr content, st) \<Rightarrow>
          let final = (if content = [] then po_default_response opts else content);
              st = add_full_message W ops agent key (plain_message ''assistant'' final) st;
              st = (if po_enable_summary opts then maybe_summarize W ops agent key st else st);
              st = (if po_send_response opts then publish W (OutMessage channel chatID final) st else st)
          in (Inr final, st))"

section \<open>Commands\<close>

text \<open>\<open>strings.Fields\<close> on ASCII white space.\<close>

function fields :: "string \<Rightarrow> string list" where
  "fields s =
     (let s = dropWhile is_space s in
      if s = [] then [] else takeWhile (\<lambda>c. \<not> is_space c) s # fields (dropWhile (\<lambda>c. \<not> is_space c) s))"
  by auto
termination
proof (relation "measure length")
  fix s x :: string
  assume x: "x = dropWhile is_space s" "x \<noteq> []"
  from x(2) obtain c cs where c: "x = c # cs" by (meson neq_Nil_conv)
  have "\<not> is_space (hd x)" using x hd_dropWhile [of is_space s] by blast
  then have "\<not> is_space c" by (simp add: c)
  then have "length (dropWhile (\<lambda>c. \<not> is_space c) x) \<le> length cs" by (simp add: c length_dropWhile_le)
  moreover have "length x \<le> length s" by (simp add: x length_dropWhile_le)
  ultimately show "(dropWhile (\<lambda>c. \<not> is_space c) x, s) \<in> measure length" by (simp add: c)
qed simp

declare fields.simps [simp del]

fun join :: "string \<Rightarrow> string list \<Rightarrow> string" where
  "join sep [] = []"
| "join sep [x] = x"
| "join sep (x # y # xs) = x @ sep @ join sep (y # xs)"

definition set_default_model :: "string \<Rightarrow> ('s, 'w) agent_state \<Rightarrow> ('s, 'w) agent_state" where
  "set_default_model model st =
     (case get_default_agent (as_agents st) of
        None \<Rightarrow> st
      | Some a \<Rightarrow> st\<lparr>as_agents := map (\<lambda>(k, b). (k, if ai_id b = ai_id a then b\<lparr>ai_model := model\<rparr> else b)) (as_agents st)\<rparr>)"

definition show_command :: "loop_config \<Rightarrow> inbound \<Rightarrow> string list \<Rightarrow> ('s, 'w) agent_state \<Rightarrow> string" where
  "show_command cfg msg args st =
     (case args of
        [] \<Rightarrow> ''Usage: /show [model|channel|agents]''
      | target # _ \<Rightarrow>
          if target = ''model'' then
            (case get_default_agent (as_agents st) of
               None \<Rightarrow> ''No default agent configured'' | Some a \<Rightarrow> ''Current model: '' @ ai_model a)
          else if target = ''channel'' then ''Current channel: '' @ in_channel msg
          else if target = ''agents'' then ''Registered agents: '' @ join '', '' (map fst (as_agents st))
          else ''Unknown show target: '' @ target)"

definition list_command :: "loop_config \<Rightarrow> string list \<Rightarrow> ('s, 'w) agent_state \<Rightarrow> string" where
  "list_command cfg args st =
     (case args of
        [] \<Rightarrow> ''Usage: /list [models|channels|agents]''
      | target # _ \<Rightarrow>
          if target = ''models'' then ''Available models: configured in config.json per agent''
          else if target = ''channels'' then
            (case ac_channels cfg of
               None \<Rightarrow> ''Channel manager not initialized''
             | Some channels \<Rightarrow>
                 if channels = [] then ''No channels enabled''
                 else ''Enabled channels: '' @ join '', '' channels)
          else if target = ''agents'' then ''Registered agents: '' @ join '', '' (map fst (as_agents st))
          else ''Unknown list target: '' @ target)"

definition switch_command ::
  "loop_config \<Rightarrow> string list \<Rightarrow> ('s, 'w) agent_state \<Rightarrow> string \<times> ('s, 'w) agent_state" where
  "switch_command cfg args st =
     (if length args < 3 \<or> args ! 1 \<noteq> ''to'' then (''Usage: /switch [model|channel] to <name>'', st)
      else
        let target = args ! 0; val = args ! 2 in
        if target = ''model'' then
          (case get_default_agent (as_agents st) of
             None \<Rightarrow> (''No default agent configured'', st)
           | Some a \<Rightarrow> (''Switched model from '' @ ai_model a @ '' to '' @ val, set_default_model val st))
        else if target = ''channel'' then
          (case ac_channels cfg of
             None \<Rightarrow> (''Channel manager not initialized'', st)
           | Some channels \<Rightarrow>
               if val \<notin> set channels \<and> val \<noteq> ''cli''
               then (''Channel '' @ [CHR 0x27] @ val @ [CHR 0x27] @ '' not found or not enabled'', st)
               else (''Switched target channel to '' @ val, st))
        else (''Unknown switch target: '' @ target, st))"

definition handle_command ::
  "loop_config \<Rightarrow> inbound \<Rightarrow> ('s, 'w) agent_state \<Rightarrow> (string \<times> ('s, 'w) agent_state) option" where
  "handle_command cfg msg st =
     (let content = trim_space (in_content msg) in
      if \<not> has_prefix content ''/'' then None
      else
        (case fields content of
           [] \<Rightarrow> None
         | cmd # args \<Rightarrow>
             if cmd = ''/show'' then Some (show_command cfg msg args st, st)
             else if cmd = ''/list'' then Some (list_command cfg args st, st)
             else if cmd = ''/switch'' then Some (switch_command cfg args st)
             else None))"

section \<open>Inbound messages\<close>

datatype process_error = NoAgent string | NoDefaultAgent | NoHeartbeatAgent | LlmFailed chat_error

fun process_error_text :: "(duration \<Rightarrow> string) \<Rightarrow> process_error \<Rightarrow> string" where
  "process_error_text dt (NoAgent agentID) = ''no agent available for route (agent_id='' @ agentID @ '')''"
| "process_error_text dt NoDefaultAgent = ''no default agent for system message''"
| "process_error_text dt NoHeartbeatAgent = ''no default agent for heartbeat''"
| "process_error_text dt (LlmFailed e) = ''LLM call failed after retries: '' @ chat_error_text dt e"

definition lift_error ::
  "(chat_error + string) \<times> ('s, 'w) agent_state \<Rightarrow> (process_error + string) \<times> ('s, 'w) agent_state" where
  "lift_error x = (case x of (Inl e, st) \<Rightarrow> (Inl (LlmFailed e), st) | (Inr r, st) \<Rightarrow> (Inr r, st))"

definition origin_of :: "string \<Rightarrow> string \<times> string" where
  "origin_of chatID =
     (case index_byte CHR '':'' chatID of
        None \<Rightarrow> (''cli'', chatID)
      | Some idx \<Rightarrow> if idx > 0 then (take idx chatID, drop (idx + 1) chatID) else (''cli'', chatID))"

definition process_system_message ::
  "'w world \<Rightarrow> 's session_ops \<Rightarrow> loop_config \<Rightarrow> inbound \<Rightarrow> ('s, 'w) agent_state
     \<Rightarrow> (process_error + string) \<times> ('s, 'w) agent_state" where
  "process_system_message W ops cfg msg st =
     (let (originChannel, originChatID) = origin_of (in_chat_id msg) in
      if is_internal_channel originChannel then (Inr [], st)
      else
        case get_default_agent (as_agents st) of
          None \<Rightarrow> (Inl NoDefaultAgent, st)
        | Some agent \<Rightarrow>
            lift_error (run_agent_loop W ops cfg agent
              \<lparr>po_session_key = build_agent_main_session_key (ai_id agent), po_channel = originChannel,
               po_chat_id = originChatID,
               po_user_message = ''[System: '' @ in_sender_id msg @ ''] '' @ in_content msg, po_media = [],
               po_default_response = ''Background task completed.'', po_enable_summary = False,
               po_send_response = True, po_no_history = False\<rparr> st))"

definition message_route :: "loop_config \<Rightarrow> inbound \<Rightarrow> resolved_route" where
  "message_route cfg msg = resolve_route (ac_routing cfg)
     \<lparr>ri_channel = in_channel msg, ri_account_id = in_metadata msg ''account_id'',
      ri_peer = extract_peer msg, ri_parent_peer = extract_parent_peer msg,
      ri_guild_id = in_metadata msg ''guild_id'', ri_team_id = in_metadata msg ''team_id''\<rparr>"

definition agent_for :: "(string \<times> agent_instance) list \<Rightarrow> resolved_route \<Rightarrow> agent_instance option" where
  "agent_for agents route =
     (case get_agent agents (rr_agent_id route) of None \<Rightarrow> get_default_agent agents | Some a \<Rightarrow> Some a)"

definition process_message ::
  "'w world \<Rightarrow> 's session_ops \<Rightarrow> loop_config \<Rightarrow> inbound \<Rightarrow> ('s, 'w) agent_state
     \<Rightarrow> (process_error + string) \<times> ('s, 'w) agent_state" where
  "process_message W ops cfg msg st =
     (if in_channel msg = ''system'' then process_system_message W ops cfg msg st
      else
        case handle_command cfg msg st of
          Some (response, st) \<Rightarrow> (Inr response, st)
        | None \<Rightarrow>
            let route = message_route cfg msg in
            case agent_for (as_agents st) route of
              None \<Rightarrow> (Inl (NoAgent (rr_agent_id route)), st)
            | Some agent \<Rightarrow>
                let st = update_tool_contexts agent (in_channel msg) (in_chat_id msg) st;
                    sessionKey = (if in_session_key msg \<noteq> [] \<and> has_prefix (in_session_key msg) ''agent:''
                                  then in_session_key msg else rr_session_key route) in
                lift_error (run_agent_loop W ops cfg agent
                  \<lparr>po_session_key = sessionKey, po_channel = in_channel msg, po_chat_id = in_chat_id msg,
                   po_user_message = in_content msg, po_media = in_media msg,
                   po_default_response = default_response, po_enable_summary = True,
                   po_send_response = False, po_no_history = False\<rparr> st))"

text \<open>\<open>ProcessDirect\<close>, for the command line and cron, and \<open>ProcessHeartbeat\<close>.\<close>

definition process_direct ::
  "'w world \<Rightarrow> 's session_ops \<Rightarrow> loop_config \<Rightarrow> string \<Rightarrow> string \<Rightarrow> string \<Rightarrow> string \<Rightarrow> ('s, 'w) agent_state
     \<Rightarrow> (process_error + string) \<times> ('s, 'w) agent_state" where
  "process_direct W ops cfg content sessionKey channel chatID st =
     process_message W ops cfg
       \<lparr>in_channel = channel, in_sender_id = ''cron'', in_chat_id = chatID, in_content = content, in_media = [],
        in_peer_kind = [], in_peer_id = [], in_session_key = sessionKey, in_metadata = (\<lambda>_. [])\<rparr> st"

definition process_heartbeat ::
  "'w world \<Rightarrow> 's session_ops \<Rightarrow> loop_config \<Rightarrow> string \<Rightarrow> string \<Rightarrow> string \<Rightarrow> ('s, 'w) agent_state
     \<Rightarrow> (process_error + string) \<times> ('s, 'w) agent_state" where
  "process_heartbeat W ops cfg content channel chatID st =
     (case get_default_agent (as_agents st) of
        None \<Rightarrow> (Inl NoHeartbeatAgent, st)
      | Some agent \<Rightarrow>
          lift_error (run_agent_loop W ops cfg agent
            \<lparr>po_session_key = ''heartbeat'', po_channel = channel, po_chat_id = chatID, po_user_message = content,
             po_media = [], po_default_response = default_response, po_enable_summary = False,
             po_send_response = False, po_no_history = True\<rparr> st))"

text \<open>One turn of \<open>Run\<close>: the answer is published unless the message tool of the default
  agent sent something in its round.\<close>

definition already_sent :: "('s, 'w) agent_state \<Rightarrow> bool" where
  "already_sent st =
     (case get_default_agent (as_agents st) of
        None \<Rightarrow> False
      | Some a \<Rightarrow> ai_tools a ''message'' = Some MessageTool \<and> mt_sent_in_round (as_message_tool st (ai_id a)))"

definition run_turn ::
  "'w world \<Rightarrow> 's session_ops \<Rightarrow> loop_config \<Rightarrow> inbound \<Rightarrow> ('s, 'w) agent_state \<Rightarrow> ('s, 'w) agent_state" where
  "run_turn W ops cfg msg st =
     (case process_message W ops cfg msg st of
        (result, st) \<Rightarrow>
          let response = (case result of
                Inl e \<Rightarrow> ''Error processing message: '' @ process_error_text (wd_duration_text W) e
              | Inr r \<Rightarrow> r) in
          if response = [] then st
          else if already_sent st then st
          else publish W (OutMessage (in_channel msg) (in_chat_id msg) response) st)"

end
