(* ===== verification/Agent_Requests.thy ===== *)
theory Agent_Requests
  imports Agent_Loop
begin

text \<open>
  What the agent loop sends to the model: the shape of every request and their number. A
  guarded world is one whose hidden state keeps an invariant as long as the requests keep a
  shape; the invariant counts the requests. The world that logs them is the instance.
\<close>

section \<open>The shape of a request\<close>

definition request_ok :: "message list \<Rightarrow> bool" where
  "request_ok ms \<longleftrightarrow> ms \<noteq> [] \<and> tools_answer ms \<and> (\<forall>m \<in> set (tl ms). msg_role m \<noteq> ''system'')"

lemma tools_answer_Cons:
  "tools_answer ms \<Longrightarrow> msg_role s \<noteq> ''tool'' \<Longrightarrow> tools_answer (s # ms)"
proof (induction ms rule: rev_induct)
  case Nil
  then show ?case using tools_answer_snoc [of "[]" s] by simp
next
  case (snoc m ms)
  then show ?case
    using tools_answer_snoc [of "s # ms" m] found_assistant_prefix [of ms "[s]"]
    by (auto simp: tools_answer_snoc)
qed

lemma request_ok_build:
  "request_ok (build_messages static dynamic history summary current media)"
proof -
  obtain s ms where b: "build_messages static dynamic history summary current media = s # ms"
    by (simp add: build_messages_def)
  show ?thesis
    using build_messages_ok [of static dynamic history summary current media]
    by (auto simp: b request_ok_def intro!: tools_answer_Cons)
qed

lemma request_ok_snoc:
  "request_ok ms \<Longrightarrow> msg_role m \<noteq> ''system'' \<Longrightarrow> (msg_role m = ''tool'' \<Longrightarrow> found_assistant ms) \<Longrightarrow>
    request_ok (ms @ [m])"
  by (auto simp: request_ok_def tools_answer_snoc)

text \<open>Loading media changes neither roles nor tool calls.\<close>

definition same_shape :: "message \<Rightarrow> message \<Rightarrow> bool" where
  "same_shape m m' \<longleftrightarrow> msg_role m' = msg_role m \<and> msg_tool_calls m' = msg_tool_calls m"

lemma same_shape_tools:
  "list_all2 same_shape ms ms' \<Longrightarrow> (found_assistant ms' \<longleftrightarrow> found_assistant ms) \<and> (tools_answer ms' \<longleftrightarrow> tools_answer ms)"
proof (induction ms arbitrary: ms' rule: rev_induct)
  case (snoc m ms)
  then obtain m' ns where ns: "ms' = ns @ [m']" "list_all2 same_shape ms ns" "same_shape m m'"
    by (auto simp: list_all2_append1 list_all2_Cons1)
  have "msg_role m' = msg_role m" "calls_tools m' = calls_tools m"
    using ns(3) by (simp_all add: same_shape_def calls_tools_def)
  with snoc.IH [OF ns(2)] ns(1) show ?case
    by (simp add: found_assistant_snoc tools_answer_snoc)
qed simp

lemma list_all2_partner: "list_all2 P xs ys \<Longrightarrow> y \<in> set ys \<Longrightarrow> \<exists>x \<in> set xs. P x y"
  by (induction rule: list_all2_induct) auto

lemma same_shape_request:
  assumes "list_all2 same_shape ms ms'" and "request_ok ms"
  shows "request_ok ms'"
proof -
  obtain m ns m' ns' where "ms = m # ns" "ms' = m' # ns'" "list_all2 same_shape ns ns'"
    using assms by (cases ms; cases ms') (auto simp: request_ok_def)
  moreover from this have "\<forall>x \<in> set ns'. \<exists>y \<in> set ns. same_shape y x"
    by (blast intro: list_all2_partner)
  ultimately show ?thesis
    using assms same_shape_tools [OF assms(1)] by (force simp: request_ok_def same_shape_def)
qed

lemma resolve_messages_shape: "list_all2 same_shape ms (fst (resolve_messages W ms w))"
  by (induction W ms w rule: resolve_messages.induct)
     (auto simp: Let_def same_shape_def split: prod.splits if_splits)

section \<open>Guarded worlds\<close>

locale guarded_world =
  fixes W :: "'w world" and I :: "nat \<Rightarrow> 'w \<Rightarrow> bool"
  assumes now: "I n w \<Longrightarrow> I n (snd (wd_now W w))"
    and canceled: "I n w \<Longrightarrow> I n (snd (wd_canceled W w))"
    and sleep: "I n w \<Longrightarrow> I n (wd_sleep W d w)"
    and chat: "I n w \<Longrightarrow> request_ok ms \<Longrightarrow> I (Suc n) (snd (wd_chat W ms model w))"
    and tool: "I n w \<Longrightarrow> I n (snd (wd_tool W name args channel chatID w))"
    and prompts: "I n w \<Longrightarrow> I n (snd (wd_prompts W aid channel chatID w))"
    and publish: "I n w \<Longrightarrow> I n (snd (wd_publish W out w))"
    and load_media: "I n w \<Longrightarrow> I n (snd (wd_load_media W ref w))"
    and weaken: "I n w \<Longrightarrow> n \<le> m \<Longrightarrow> I m w"
begin

lemma tick_world: "I n (as_world st) \<Longrightarrow> I n (as_world (snd (tick W st)))"
  using now [of n "as_world st"] by (auto simp: tick_def split: prod.splits)

lemma with_sessions_world: "I n (as_world st) \<Longrightarrow> I n (as_world (with_sessions W agent f st))"
  using tick_world [of n st] by (auto simp: with_sessions_def split: prod.splits)

lemma add_full_message_world: "I n (as_world st) \<Longrightarrow> I n (as_world (add_full_message W ops agent key m st))"
  by (simp add: add_full_message_def with_sessions_world)

lemma publish_world: "I n (as_world st) \<Longrightarrow> I n (as_world (Agent_Loop.publish W out st))"
  by (simp add: publish_def publish)

lemma session_messages_world:
  "I n (as_world st) \<Longrightarrow>
    I n (as_world (snd (session_messages W ops agent key noHistory current media channel chatID st)))
    \<and> request_ok (fst (session_messages W ops agent key noHistory current media channel chatID st))"
  using prompts [of n "as_world st" "ai_id agent" channel chatID]
  by (auto simp: session_messages_def Let_def request_ok_build split: prod.splits)

lemma message_tool_world:
  "I n w \<Longrightarrow> I n (snd (snd (message_tool_execute W args t w)))"
  using publish [of n w] by (simp add: message_tool_execute_def Let_def split_beta split: option.split)

lemma execute_tool_world:
  assumes "I n (as_world st)"
  shows "I n (as_world (snd (execute_tool W agent name args channel chatID st)))"
proof (cases "ai_tools agent name")
  case None
  then show ?thesis using assms by (simp add: execute_tool_def)
next
  case (Some t)
  then show ?thesis
    using tool [OF assms, of name args channel chatID] message_tool_world [OF assms]
    by (cases t) (simp_all add: execute_tool_def Let_def split_beta)
qed

lemma report_world: "I n (as_world st) \<Longrightarrow> I n (as_world (report_tool_result W cfg opts r st))"
  by (simp add: report_tool_result_def Let_def publish_world)

text \<open>The chain makes at most one request per candidate.\<close>

lemma execute_body_world:
  assumes "I n w" and "request_ok ms"
  shows "I (Suc n) (snd (snd (execute_body ops (chain_env W ms) is_last cand attempts c w)))"
proof -
  have suc: "I (Suc n) w" if "I n w" for n w using weaken [OF that] by simp
  have c: "I n (snd (wd_canceled W w))" if "I n w" for n w using canceled [OF that] .
  have t: "I n (snd (wd_now W w))" if "I n w" for n w using now [OF that] .
  have r: "I (Suc n) (snd (wd_chat W ms model w))" if "I n w" for n w model using chat [OF that assms(2)] .
  show ?thesis
    using assms(1)
    by (auto simp: execute_body_def chain_env_def Let_def split_beta intro!: c t r
        intro: suc split: sum.split option.split)
qed

lemma execute_loop_world:
  assumes "I n w" and "request_ok ms"
  shows "I (n + length cands) (snd (snd (execute_loop ops (chain_env W ms) cands attempts c w)))"
  using assms(1)
proof (induction cands arbitrary: n attempts c w)
  case (Cons cand cands)
  note step = execute_body_world [OF Cons.prems assms(2), of ops "cands = []" cand attempts c]
  show ?case
  proof (cases "execute_body ops (chain_env W ms) (cands = []) cand attempts c w")
    case (fields r c' w')
    show ?thesis
    proof (cases r)
      case (Return x)
      then show ?thesis using step fields weaken [of "Suc n" w' "n + length (cand # cands)"] by simp
    next
      case (Continue as)
      then show ?thesis using step fields Cons.IH [of "Suc n" w' as c'] by simp
    qed
  qed
qed simp

definition calls_per_try :: "agent_instance \<Rightarrow> nat" where
  "calls_per_try agent = max 1 (length (ai_candidates agent))"

lemma call_llm_world:
  assumes "I n (as_world st)" and "request_ok ms"
  shows "I (n + calls_per_try agent) (as_world (snd (call_llm W agent ms st)))"
proof (cases "length (ai_candidates agent) > 1")
  case True
  then have "ai_candidates agent \<noteq> []" by auto
  with True show ?thesis
    using execute_loop_world [OF assms, of "ai_candidates agent" tracker_ops "[]" "as_tracker st"]
    by (auto simp: call_llm_def fallback_execute_def execute_chain_def calls_per_try_def max_def
        split: prod.splits sum.splits)
next
  case False
  then have "calls_per_try agent = 1" by (simp add: calls_per_try_def)
  with False show ?thesis
    using chat [OF assms, of "ai_model agent"] by (auto simp: call_llm_def split: prod.splits sum.splits)
qed

lemma compress_world:
  "I n (as_world st) \<Longrightarrow> I n (as_world (snd (compress_and_rebuild W ops agent opts first st)))
    \<and> request_ok (fst (compress_and_rebuild W ops agent opts first st))"
  unfolding compress_and_rebuild_def Let_def
  by (rule session_messages_world) (auto intro!: with_sessions_world publish_world)

lemma try_llm_world:
  assumes "I n (as_world st)" and "request_ok ms"
  shows "I (n + Suc left * calls_per_try agent) (as_world (snd (snd (try_llm W ops agent opts left ms st))))
    \<and> request_ok (fst (snd (try_llm W ops agent opts left ms st)))"
  using assms
proof (induction left arbitrary: n ms st)
  case 0
  show ?case
    using call_llm_world [OF 0, of agent] 0(2)
    by (auto simp: try_llm.simps [of _ _ _ _ 0] split: prod.splits sum.splits)
next
  case (Suc left)
  let ?n = "n + calls_per_try agent"
  have one: "I ?n (as_world (snd (call_llm W agent ms st)))" by (rule call_llm_world [OF Suc.prems])
  have n: "?n + Suc left * calls_per_try agent = n + Suc (Suc left) * calls_per_try agent" by simp
  have le: "?n \<le> n + Suc (Suc left) * calls_per_try agent" by simp
  show ?case
  proof (cases "call_llm W agent ms st")
    case (Pair r st1)
    with one have one: "I ?n (as_world st1)" by simp
    show ?thesis
    proof (cases r)
      case (Inr x)
      then show ?thesis using Pair weaken [OF one le] Suc.prems(2)
        by (simp add: try_llm.simps [of _ _ _ _ "Suc left"])
    next
      case (Inl e)
      have slept: "I ?n (as_world (st1\<lparr>as_world := wd_sleep W d (as_world st1)\<rparr>))" for d
        using sleep [OF one] by simp
      obtain ms2 st2 where c: "compress_and_rebuild W ops agent opts (Suc left = max_retries) st1 = (ms2, st2)"
        by (cases "compress_and_rebuild W ops agent opts (Suc left = max_retries) st1")
      have c2: "I ?n (as_world st2)" "request_ok ms2"
        using compress_world [OF one, of ops agent opts "Suc left = max_retries"] c by simp_all
      show ?thesis
        using Suc.IH [OF slept Suc.prems(2)] Suc.IH [OF c2] weaken [OF one le] Suc.prems(2)
        by (simp add: try_llm.simps [of _ _ _ _ "Suc left"] Pair Inl c add.assoc Let_def)
    qed
  qed
qed

lemma run_tools_world:
  assumes "I n (as_world st)" and "request_ok ms" and "found_assistant ms"
  shows "I n (as_world (snd (run_tools W ops cfg agent opts calls ms st)))
    \<and> request_ok (fst (run_tools W ops cfg agent opts calls ms st))"
  using assms
proof (induction calls arbitrary: ms st)
  case (Cons tc calls)
  obtain r st1 where x: "execute_tool W agent (tc_name tc) (case tc_arguments tc of None \<Rightarrow> [] | Some a \<Rightarrow> a)
      (po_channel opts) (po_chat_id opts) st = (r, st1)" (is "?x = _") by (cases ?x)
  have st1: "I n (as_world st1)"
    using execute_tool_world [OF Cons.prems(1), of agent "tc_name tc"
        "case tc_arguments tc of None \<Rightarrow> [] | Some a \<Rightarrow> a" "po_channel opts" "po_chat_id opts"] x by simp
  let ?m = "tool_message tc r"
  let ?st = "add_full_message W ops agent (po_session_key opts) ?m (report_tool_result W cfg opts r st1)"
  have st: "I n (as_world ?st)" by (intro add_full_message_world report_world st1)
  have role: "msg_role ?m = ''tool''" by (simp add: tool_message_def)
  have "request_ok (ms @ [?m])" "found_assistant (ms @ [?m])"
    using Cons.prems(2,3) role by (auto simp: found_assistant_snoc intro!: request_ok_snoc)
  from Cons.IH [OF st this] show ?case by (simp add: x Let_def)
qed simp

lemma llm_iterations_world:
  assumes "I n (as_world st)" and "request_ok ms"
  shows "I (n + k * (3 * calls_per_try agent)) (as_world (snd (llm_iterations W ops cfg agent opts k ms st)))"
  using assms
proof (induction k arbitrary: n ms st)
  case (Suc k)
  let ?n = "n + 3 * calls_per_try agent"
  obtain r ms1 st1 where t: "try_llm W ops agent opts max_retries ms st = (r, ms1, st1)"
    by (cases "try_llm W ops agent opts max_retries ms st")
  have st1: "I ?n (as_world st1)" "request_ok ms1"
    using try_llm_world [OF Suc.prems, of max_retries agent ops opts] t by (simp_all add: max_retries_def)
  have le: "?n \<le> n + Suc k * (3 * calls_per_try agent)" by simp
  show ?case
  proof (cases r)
    case (Inl e)
    then show ?thesis using t weaken [OF st1(1) le] by simp
  next
    case (Inr x)
    show ?thesis
    proof (cases "lr_tool_calls x = []")
      case True
      then show ?thesis using t Inr weaken [OF st1(1) le] by simp
    next
      case False
      let ?calls = "map (normalize_tool_call (wd_marshal W) (wd_unmarshal W)) (lr_tool_calls x)"
      let ?m = "assistant_message W x ?calls"
      let ?st = "add_full_message W ops agent (po_session_key opts) ?m st1"
      have m: "msg_role ?m = ''assistant''" "calls_tools ?m"
        using False by (simp_all add: assistant_message_def calls_tools_def)
      then have "request_ok (ms1 @ [?m])" "found_assistant (ms1 @ [?m])"
        using st1(2) by (auto simp: found_assistant_snoc intro!: request_ok_snoc)
      note tools = run_tools_world [OF add_full_message_world [OF st1(1), of ops agent "po_session_key opts" ?m]
          this, of ops cfg agent opts ?calls]
      obtain ms2 st2 where rt: "run_tools W ops cfg agent opts ?calls (ms1 @ [?m]) ?st = (ms2, st2)"
        by (cases "run_tools W ops cfg agent opts ?calls (ms1 @ [?m]) ?st")
      with tools have "I ?n (as_world st2)" "request_ok ms2" by simp_all
      from Suc.IH [OF this] show ?thesis
        using t Inr False rt by (simp add: algebra_simps)
    qed
  qed
qed simp

end

section \<open>The world that logs requests\<close>

definition logging_world :: "'w world \<Rightarrow> ('w \<times> message list list) world" where
  "logging_world W =
     \<lparr>wd_now = (\<lambda>(w, l). case wd_now W w of (t, w) \<Rightarrow> (t, (w, l))),
      wd_canceled = (\<lambda>(w, l). case wd_canceled W w of (b, w) \<Rightarrow> (b, (w, l))),
      wd_sleep = (\<lambda>d (w, l). (wd_sleep W d w, l)),
      wd_chat = (\<lambda>ms model (w, l). case wd_chat W ms model w of (r, w) \<Rightarrow> (r, (w, l @ [ms]))),
      wd_tool = (\<lambda>name args channel chat (w, l). case wd_tool W name args channel chat w of (r, w) \<Rightarrow> (r, (w, l))),
      wd_prompts = (\<lambda>aid channel chat (w, l). case wd_prompts W aid channel chat w of (p, w) \<Rightarrow> (p, (w, l))),
      wd_publish = (\<lambda>out (w, l). case wd_publish W out w of (e, w) \<Rightarrow> (e, (w, l))),
      wd_load_media = (\<lambda>ref (w, l). case wd_load_media W ref w of (u, w) \<Rightarrow> (u, (w, l))),
      wd_media_meta = wd_media_meta W, wd_marshal = wd_marshal W, wd_unmarshal = wd_unmarshal W,
      wd_duration_text = wd_duration_text W\<rparr>"

fun log_ok :: "nat \<Rightarrow> 'w \<times> message list list \<Rightarrow> bool" where
  "log_ok n (w, l) = (length l \<le> n \<and> (\<forall>ms \<in> set l. request_ok ms))"

interpretation logged: guarded_world "logging_world W" log_ok for W
  by unfold_locales (auto simp: logging_world_def split: prod.splits)

context guarded_world
begin

text \<open>A summary is asked for in at most three requests of one user message each.\<close>

lemma ask_model_world:
  assumes "I n w"
  shows "I (Suc n) (snd (ask_model W agent prompt w))"
proof -
  have "request_ok [plain_message ''user'' prompt]"
    using tools_answer_snoc [of "[]" "plain_message ''user'' prompt"] by (simp add: request_ok_def plain_message_def)
  from chat [OF assms this, of "ai_model agent"] show ?thesis
    by (auto simp: ask_model_def split: prod.splits sum.splits)
qed

lemma summarize_batch_world: "I n w \<Longrightarrow> I (Suc n) (snd (summarize_batch (ask_model W agent) batch old w))"
  using ask_model_world [of n w agent "batch_prompt batch old"] by (auto simp: summarize_batch_def split: prod.splits option.splits)

lemma final_summary_world:
  assumes "I n w"
  shows "I (n + 3) (snd (final_summary (ask_model W agent) valid summary w))"
proof (cases "length valid > 10")
  case True
  let ?mid = "length valid div 2"
  obtain s1 w1 where b1: "summarize_batch (ask_model W agent) (take ?mid valid) [] w = (s1, w1)" by fastforce
  obtain s2 w2 where b2: "summarize_batch (ask_model W agent) (drop ?mid valid) [] w1 = (s2, w2)" by fastforce
  have "I (Suc n) w1" using summarize_batch_world [OF assms, of agent "take ?mid valid" "[]"] b1 by simp
  then have "I (Suc (Suc n)) w2" using summarize_batch_world [of "Suc n" w1 agent "drop ?mid valid" "[]"] b2 by simp
  then have "I (Suc (Suc (Suc n))) (snd (ask_model W agent (merge_prompt s1 s2) w2))" by (rule ask_model_world)
  then have "I (n + 3) (snd (ask_model W agent (merge_prompt s1 s2) w2))" by (simp add: numeral_3_eq_3)
  then show ?thesis
    using True b1 b2 by (cases "ask_model W agent (merge_prompt s1 s2) w2") (auto simp: final_summary_def Let_def split: option.splits)
next
  case False
  then show ?thesis using weaken [OF summarize_batch_world [OF assms, of agent valid summary], of "n + 3"]
    by (simp add: final_summary_def)
qed

lemma summarize_session_world:
  assumes "I n w"
  shows "I (n + 3) (snd (summarize_session ops (ask_model W agent) window sm key now w))"
  using final_summary_world [OF assms, of agent] weaken [OF assms, of "n + 3"]
  by (auto simp: summarize_session_def Let_def split_beta)

lemma maybe_summarize_world:
  assumes "I n (as_world st)"
  shows "I (n + 3) (as_world (maybe_summarize W ops agent key st))"
proof -
  obtain now st1 where t: "tick W st = (now, st1)" by fastforce
  have "I n (as_world st1)" using tick_world [OF assms] t by simp
  from summarize_session_world [OF this, of ops agent "ai_context_window agent" "as_sessions st1 (ai_id agent)" key now]
  show ?thesis using weaken [OF assms, of "n + 3"] by (auto simp: maybe_summarize_def t split: prod.splits)
qed

lemma run_agent_loop_world:
  assumes "I n (as_world st)"
  shows "I (n + ai_max_iterations agent * (3 * calls_per_try agent) + (if po_enable_summary opts then 3 else 0))
    (as_world (snd (run_agent_loop W ops cfg agent opts st)))"
proof -
  let ?key = "po_session_key opts"
  let ?st0 = "update_tool_contexts agent (po_channel opts) (po_chat_id opts)
    (if po_channel opts \<noteq> [] \<and> po_chat_id opts \<noteq> [] \<and> \<not> is_internal_channel (po_channel opts)
     then st\<lparr>as_last_channel := po_channel opts @ '':'' @ po_chat_id opts\<rparr> else st)"
  have st0: "I n (as_world ?st0)" using assms(1) by (simp add: update_tool_contexts_def)
  let ?call = "session_messages W ops agent ?key (po_no_history opts) (po_user_message opts) (po_media opts)
    (po_channel opts) (po_chat_id opts) ?st0"
  obtain ms1 st1 where b: "?call = (ms1, st1)" by (cases ?call)
  have 1: "I n (as_world st1)" "request_ok ms1"
    using session_messages_world [OF st0, of ops agent ?key "po_no_history opts" "po_user_message opts"
        "po_media opts" "po_channel opts" "po_chat_id opts"] b by simp_all
  obtain ms2 st2 where r: "resolve_media_refs W cfg ms1 st1 = (ms2, st2)" by (cases "resolve_media_refs W cfg ms1 st1")
  have 2: "I n (as_world st2)" "request_ok ms2"
  proof -
    have refs: "I n (snd (resolve_refs W refs w))" if "I n w" for refs w
      using that
    proof (induction refs arbitrary: w)
      case (Cons ref refs)
      then show ?case
        using Cons.IH [OF Cons.prems] Cons.IH [OF load_media [OF Cons.prems, of ref]] load_media [OF Cons.prems, of ref]
        by (auto simp: split_beta split: option.split)
    qed simp
    have msgs: "I n (snd (resolve_messages W ms w))" if "I n w" for ms w
      using that
    proof (induction ms arbitrary: w)
      case (Cons m ms)
      have "I n (snd (resolve_messages W ms (snd (resolve_refs W (msg_media m) w))))"
        by (rule Cons.IH [OF refs [OF Cons.prems]])
      then show ?case
        using Cons by (auto simp: Let_def split_beta)
    qed simp
    show "I n (as_world st2)" using msgs [OF 1(1), of ms1] r 1(1)
      by (auto simp: resolve_media_refs_def split: prod.splits if_splits)
    show "request_ok ms2"
      using same_shape_request [OF resolve_messages_shape 1(2), of W "as_world st1"] r 1(2)
      by (auto simp: resolve_media_refs_def split: prod.splits if_splits)
  qed
  let ?st3 = "add_full_message W ops agent ?key (plain_message ''user'' (po_user_message opts)) st2"
  let ?n = "n + ai_max_iterations agent * (3 * calls_per_try agent)"
  obtain x st4 where run: "run_llm_iteration W ops cfg agent opts ms2 ?st3 = (x, st4)"
    by (cases "run_llm_iteration W ops cfg agent opts ms2 ?st3")
  have st3: "I n (as_world ?st3)" by (rule add_full_message_world [OF 2(1)])
  have 4: "I ?n (as_world st4)"
    using llm_iterations_world [OF st3 2(2), where k = "ai_max_iterations agent" and agent = agent
        and ops = ops and cfg = cfg and opts = opts] run
    by (simp add: run_llm_iteration_def)
  have with_summary: "I (?n + 3) (as_world st4)" using weaken [OF 4, of "?n + 3"] by simp
  show ?thesis
    using 4 with_summary
    by (cases x) (auto simp: run_agent_loop_def b r run Let_def intro!: publish_world maybe_summarize_world add_full_message_world)
qed

end

section \<open>Properties\<close>

text \<open>Property C2: handling a message sends the model at most three requests per candidate and
  iteration, and at most three more for a summary if the turn may make one; in every one of them a system message can
  only come first and every tool result follows, with only tool results between, an assistant message that called tools.\<close>

theorem turn_requests:
  assumes "as_world st = (w, [])"
  shows "case as_world (snd (run_agent_loop (logging_world W) ops cfg agent opts st)) of
     (w', l) \<Rightarrow> length l \<le> ai_max_iterations agent * (3 * max 1 (length (ai_candidates agent))) + (if po_enable_summary opts then 3 else 0)
       \<and> (\<forall>ms \<in> set l. request_ok ms)"
proof -
  have "log_ok 0 (as_world st)" by (simp add: assms(1))
  from logged.run_agent_loop_world [OF this, where W = W and agent = agent and ops = ops and cfg = cfg and opts = opts] show ?thesis
    by (cases "as_world (snd (run_agent_loop (logging_world W) ops cfg agent opts st))")
       (simp add: logged.calls_per_try_def)
qed

text \<open>A world where the model first calls a tool and then answers.\<close>

definition sample_world :: "nat world" where
  "sample_world =
     \<lparr>wd_now = (\<lambda>w. (int w, w + 1)), wd_canceled = (\<lambda>w. (False, w)), wd_sleep = (\<lambda>d w. w),
      wd_chat = (\<lambda>ms model w. (Inr (if msg_role (last ms) = ''tool''
          then \<lparr>lr_content = ''done'', lr_reasoning_content = [], lr_tool_calls = []\<rparr>
          else \<lparr>lr_content = [], lr_reasoning_content = [], lr_tool_calls =
            [\<lparr>tc_id = ''c1'', tc_type = ''function'', tc_function = None, tc_name = ''exec'',
              tc_arguments = Some [], tc_thought_signature = [], tc_extra_content = None\<rparr>]\<rparr>), w)),
      wd_tool = (\<lambda>name args channel chat w. (new_tool_result ''ok'', w)),
      wd_prompts = (\<lambda>aid channel chat w. ((''static'', ''dynamic''), w)),
      wd_publish = (\<lambda>out w. (None, w)), wd_load_media = (\<lambda>ref w. (None, w)),
      wd_media_meta = (\<lambda>ref. None), wd_marshal = (\<lambda>a. ''{}''), wd_unmarshal = (\<lambda>s. None),
      wd_duration_text = (\<lambda>d. [])\<rparr>"

definition sample_agent :: agent_instance where
  "sample_agent =
     \<lparr>ai_id = ''main'', ai_model = ''m'', ai_max_iterations = 5, ai_context_window = 1000, ai_candidates = [],
      ai_tools = (\<lambda>name. if name = ''exec'' then Some WorldTool
                        else if name = ''message'' then Some MessageTool else None),
      ai_allow_agents = None\<rparr>"

definition sample_state :: "'w \<Rightarrow> (db, 'w) agent_state" where
  "sample_state w =
     \<lparr>as_agents = [(''main'', sample_agent)], as_sessions = (\<lambda>_. new_session_manager [] []),
      as_message_tool = (\<lambda>_. \<lparr>mt_default_channel = [], mt_default_chat_id = [], mt_sent_in_round = False\<rparr>),
      as_tracker = new_cooldown_tracker, as_last_channel = [], as_world = w\<rparr>"

definition sample_loop_config :: loop_config where
  "sample_loop_config =
     \<lparr>ac_routing = \<lparr>rc_agents = [], rc_bindings = [], rc_dm_scope = [], rc_identity_links = []\<rparr>,
      ac_media_store = False, ac_channels = None\<rparr>"

definition sample_options :: process_options where
  "sample_options =
     \<lparr>po_session_key = ''k'', po_channel = ''telegram'', po_chat_id = ''1'', po_user_message = ''hi'',
      po_media = [], po_default_response = ''none'', po_enable_summary = False, po_send_response = False,
      po_no_history = False\<rparr>"

theorem turn_requests_witness:
  "\<exists>cfg l w'. as_world (snd (run_agent_loop (logging_world sample_world) sqlite_ops cfg sample_agent
      sample_options (sample_state (0, [])))) = (w', l) \<and> length l = 2 \<and> (\<forall>ms \<in> set l. request_ok ms)"
proof -
  let ?w = "as_world (snd (run_agent_loop (logging_world sample_world) sqlite_ops sample_loop_config sample_agent
      sample_options (sample_state (0, []))))"
  have "length (snd ?w) = 2" by code_simp
  then show ?thesis
    using turn_requests [where st = "sample_state (0, [])" and w = 0 and opts = sample_options and W = sample_world
        and ops = sqlite_ops and cfg = sample_loop_config and agent = sample_agent]
    by (intro exI [of _ sample_loop_config] exI [of _ "snd ?w"] exI [of _ "fst ?w"])
       (auto simp: sample_state_def sample_options_def split: prod.splits)
qed

end
