(* ===== verification/Agent_Turn.thy ===== *)
theory Agent_Turn
  imports Agent_Requests
begin

text \<open>
  What a turn of the agent loop writes: the messages it adds to the session, and the answer it
  publishes or fails to publish.
\<close>

section \<open>What leaves the sessions alone\<close>

lemma sessions_unchanged [simp]:
  "as_sessions (snd (tick W st)) = as_sessions st"
  "as_sessions (publish W out st) = as_sessions st"
  "as_sessions (snd (session_messages W ops agent key nh cur media ch chat st)) = as_sessions st"
  "as_sessions (snd (execute_tool W agent name args ch chat st)) = as_sessions st"
  "as_sessions (report_tool_result W cfg opts r st) = as_sessions st"
  "as_sessions (snd (call_llm W agent ms st)) = as_sessions st"
  "as_sessions (update_tool_contexts agent ch chat st) = as_sessions st"
  "as_sessions (snd (resolve_media_refs W cfg ms st)) = as_sessions st"
  by (simp_all add: tick_def publish_def session_messages_def execute_tool_def report_tool_result_def
      call_llm_def update_tool_contexts_def resolve_media_refs_def Let_def split_beta
      split: option.split tool.split sum.split)

lemma sessions_with_sessions:
  "\<exists>now. as_sessions (with_sessions W agent f st)
     = (as_sessions st)(ai_id agent := f (as_sessions st (ai_id agent)) now)"
  by (intro exI [of _ "fst (tick W st)"]) (simp add: with_sessions_def split_beta)

section \<open>What leaves the message tools and the agents alone\<close>

definition same_tools :: "string \<Rightarrow> ('s, 'w) agent_state \<Rightarrow> ('s, 'w) agent_state \<Rightarrow> bool" where
  "same_tools aid st st' \<longleftrightarrow> as_agents st' = as_agents st
     \<and> (\<forall>i. i \<noteq> aid \<longrightarrow> as_message_tool st' i = as_message_tool st i)"

lemma same_tools_refl [simp]: "same_tools aid st st"
  by (simp add: same_tools_def)

lemma same_tools_trans: "same_tools aid st st' \<Longrightarrow> same_tools aid st' st'' \<Longrightarrow> same_tools aid st st''"
  by (simp add: same_tools_def)

lemma same_tools_step [simp]:
  "same_tools aid st (snd (tick W st))"
  "same_tools aid st (with_sessions W agent f st)"
  "same_tools aid st (add_full_message W ops agent key m st)"
  "same_tools aid st (publish W out st)"
  "same_tools aid st (snd (session_messages W ops agent key nh cur media ch chat st))"
  "same_tools (ai_id agent) st (snd (execute_tool W agent name args ch chat st))"
  "same_tools aid st (report_tool_result W cfg opts r st)"
  "same_tools aid st (snd (call_llm W agent ms st))"
  "same_tools (ai_id agent) st (update_tool_contexts agent ch chat st)"
  "same_tools aid st (snd (resolve_media_refs W cfg ms st))"
  "same_tools aid st (maybe_summarize W ops agent key st)"
  by (simp_all add: same_tools_def tick_def with_sessions_def add_full_message_def publish_def session_messages_def
      execute_tool_def report_tool_result_def call_llm_def update_tool_contexts_def resolve_media_refs_def
      maybe_summarize_def Let_def split_beta split: option.split tool.split sum.split)

lemma same_tools_compress [simp]:
  "same_tools aid st (snd (compress_and_rebuild W ops agent opts first st))"
proof -
  let ?st = "if first \<and> \<not> is_internal_channel (po_channel opts)
    then publish W (OutMessage (po_channel opts) (po_chat_id opts)
           ''Context window exceeded. Compressing history and retrying...'') st else st"
  have "same_tools aid st ?st" by simp
  then have "same_tools aid st (with_sessions W agent (\<lambda>sm. force_compression ops sm (po_session_key opts)) ?st)"
    by (rule same_tools_trans) simp
  then show ?thesis unfolding compress_and_rebuild_def Let_def by (rule same_tools_trans) simp
qed

lemma same_tools_try [simp]: "same_tools aid st (snd (snd (try_llm W ops agent opts left ms st)))"
proof (induction left arbitrary: ms st)
  case 0
  obtain r st1 where c: "call_llm W agent ms st = (r, st1)" by (cases "call_llm W agent ms st")
  have "same_tools aid st st1" using same_tools_step(8) [of aid st W agent ms] by (simp add: c)
  then show ?case by (cases r) (simp_all add: try_llm.simps [of _ _ _ _ 0] c)
next
  case (Suc left)
  obtain r st1 where c: "call_llm W agent ms st = (r, st1)" by (cases "call_llm W agent ms st")
  have st1: "same_tools aid st st1" using same_tools_step(8) [of aid st W agent ms] c by simp
  have sleep: "same_tools aid st (st1\<lparr>as_world := w\<rparr>)" for w using st1 by (simp add: same_tools_def)
  have comp: "same_tools aid st (snd (compress_and_rebuild W ops agent opts f st1))" for f
    by (rule same_tools_trans [OF st1]) simp
  show ?case
    using st1 same_tools_trans [OF sleep Suc.IH] same_tools_trans [OF comp Suc.IH]
    by (cases r) (simp_all add: try_llm.simps [of _ _ _ _ "Suc left"] c Let_def split_beta)
qed

lemma same_tools_run_tools [simp]:
  "same_tools (ai_id agent) st (snd (run_tools W ops cfg agent opts calls ms st))"
proof (induction calls arbitrary: ms st)
  case (Cons tc calls)
  let ?x = "execute_tool W agent (tc_name tc) (case tc_arguments tc of None \<Rightarrow> [] | Some a \<Rightarrow> a)
      (po_channel opts) (po_chat_id opts) st"
  have "same_tools (ai_id agent) st (add_full_message W ops agent (po_session_key opts) m
      (report_tool_result W cfg opts r (snd ?x)))" for m r
    by (rule same_tools_trans [OF same_tools_trans [OF same_tools_step(6) same_tools_step(7)] same_tools_step(3)])
  from same_tools_trans [OF this Cons.IH] show ?case by (simp add: Let_def split_beta)
qed simp

lemma same_tools_iterations:
  "same_tools (ai_id agent) st (snd (llm_iterations W ops cfg agent opts n ms st))"
proof (induction n arbitrary: ms st)
  case (Suc n)
  obtain r ms1 st1 where t: "try_llm W ops agent opts max_retries ms st = (r, ms1, st1)"
    by (cases "try_llm W ops agent opts max_retries ms st")
  have st1: "same_tools (ai_id agent) st st1"
    using same_tools_try [of "ai_id agent" st W ops agent opts max_retries ms] t by simp
  have "same_tools (ai_id agent) st
     (snd (run_tools W ops cfg agent opts calls ms' (add_full_message W ops agent k m st1)))" for calls ms' k m
    by (rule same_tools_trans [OF same_tools_trans [OF st1 same_tools_step(3)] same_tools_run_tools])
  from same_tools_trans [OF this Suc.IH] st1 show ?case by (cases r) (simp_all add: t Let_def split_beta)
qed simp

lemma same_tools_run_agent_loop:
  "same_tools (ai_id agent) st (snd (run_agent_loop W ops cfg agent opts st))"
proof -
  let ?key = "po_session_key opts"
  let ?st0 = "if po_channel opts \<noteq> [] \<and> po_chat_id opts \<noteq> [] \<and> \<not> is_internal_channel (po_channel opts)
     then st\<lparr>as_last_channel := po_channel opts @ '':'' @ po_chat_id opts\<rparr> else st"
  let ?st1 = "update_tool_contexts agent (po_channel opts) (po_chat_id opts) ?st0"
  have "same_tools (ai_id agent) st ?st0" by (simp add: same_tools_def)
  then have st1: "same_tools (ai_id agent) st ?st1" by (rule same_tools_trans) simp
  let ?b = "session_messages W ops agent ?key (po_no_history opts) (po_user_message opts) (po_media opts)
    (po_channel opts) (po_chat_id opts) ?st1"
  obtain ms2 st2 where b: "?b = (ms2, st2)" by (cases ?b)
  have st2: "same_tools (ai_id agent) st st2"
  proof -
    have "same_tools (ai_id agent) ?st1 (snd ?b)" by simp
    then show ?thesis using same_tools_trans [OF st1] by (simp add: b)
  qed
  obtain ms3 st3 where r: "resolve_media_refs W cfg ms2 st2 = (ms3, st3)" by (cases "resolve_media_refs W cfg ms2 st2")
  have st3: "same_tools (ai_id agent) st st3"
  proof -
    have "same_tools (ai_id agent) st2 (snd (resolve_media_refs W cfg ms2 st2))" by simp
    then show ?thesis using same_tools_trans [OF st2] by (simp add: r)
  qed
  let ?st4 = "add_full_message W ops agent ?key (plain_message ''user'' (po_user_message opts)) st3"
  obtain x st5 where i: "run_llm_iteration W ops cfg agent opts ms3 ?st4 = (x, st5)"
    by (cases "run_llm_iteration W ops cfg agent opts ms3 ?st4")
  have st5: "same_tools (ai_id agent) st st5"
  proof -
    have "same_tools (ai_id agent) ?st4 (snd (run_llm_iteration W ops cfg agent opts ms3 ?st4))"
      by (simp only: run_llm_iteration_def same_tools_iterations)
    then show ?thesis using same_tools_trans [OF same_tools_trans [OF st3 same_tools_step(3)]] by (simp add: i)
  qed
  let ?final = "\<lambda>content. if content = [] then po_default_response opts else content"
  have "same_tools (ai_id agent) st (add_full_message W ops agent ?key (plain_message ''assistant'' c) st5)" for c
    by (rule same_tools_trans [OF st5]) simp
  then have "same_tools (ai_id agent) st
     (if po_enable_summary opts
      then maybe_summarize W ops agent ?key (add_full_message W ops agent ?key (plain_message ''assistant'' c) st5)
      else add_full_message W ops agent ?key (plain_message ''assistant'' c) st5)" for c
    by (simp add: same_tools_trans [OF _ same_tools_step(11)])
  then have "same_tools (ai_id agent) st (if po_send_response opts then publish W out
     (if po_enable_summary opts
      then maybe_summarize W ops agent ?key (add_full_message W ops agent ?key (plain_message ''assistant'' c) st5)
      else add_full_message W ops agent ?key (plain_message ''assistant'' c) st5) else
     (if po_enable_summary opts
      then maybe_summarize W ops agent ?key (add_full_message W ops agent ?key (plain_message ''assistant'' c) st5)
      else add_full_message W ops agent ?key (plain_message ''assistant'' c) st5))" for c out
    by (simp add: same_tools_trans [OF _ same_tools_step(4)])
  with st5 show ?thesis by (cases x) (simp_all add: run_agent_loop_def Let_def b r i)
qed

section \<open>The messages a turn adds to the session\<close>

text \<open>A round of tool calls: the assistant message and one result per call, in order.\<close>

definition answered_block :: "message list \<Rightarrow> bool" where
  "answered_block b = (case b of [] \<Rightarrow> False | a # rs \<Rightarrow> calls_tools a
     \<and> list_all (\<lambda>r. msg_role r = ''tool'') rs
     \<and> map msg_tool_call_id rs = map tc_id (msg_tool_calls a))"

text \<open>No failed call of the agent's model reports a context error.\<close>

definition no_overflow :: "'w world \<Rightarrow> agent_instance \<Rightarrow> ('s, 'w) agent_state \<Rightarrow> bool" where
  "no_overflow W agent st \<longleftrightarrow> (\<forall>ms (st' :: ('s, 'w) agent_state) e.
     fst (call_llm W agent ms st') = Inl e \<longrightarrow> \<not> is_context_error (wd_duration_text W) e)"

lemma try_llm_no_overflow:
  fixes st st0 :: "('s, 'w) agent_state"
  assumes "no_overflow W agent st0"
  shows "as_sessions (snd (snd (try_llm W ops agent opts left ms st))) = as_sessions st
    \<and> fst (snd (try_llm W ops agent opts left ms st)) = ms"
proof (induction left arbitrary: st)
  case 0
  obtain r st1 where c: "call_llm W agent ms st = (r, st1)" by (cases "call_llm W agent ms st")
  have "as_sessions st1 = as_sessions st" using sessions_unchanged(6) [of W agent ms st] c by simp
  then show ?case by (cases r) (simp_all add: try_llm.simps [of _ _ _ _ 0] c)
next
  case (Suc left)
  obtain r st1 where c: "call_llm W agent ms st = (r, st1)" by (cases "call_llm W agent ms st")
  have st1: "as_sessions st1 = as_sessions st" using sessions_unchanged(6) [of W agent ms st] c by simp
  have "\<not> is_context_error (wd_duration_text W) e" if "r = Inl e" for e
    using assms c that unfolding no_overflow_def by (metis fst_conv)
  then show ?case using Suc.IH st1
    by (cases r) (simp_all add: try_llm.simps [of _ _ _ _ "Suc left"] c Let_def)
qed

context session_store
begin

text \<open>Messages \<open>ms\<close> were added to session \<open>key\<close> of agent \<open>aid\<close>, whose sessions are in memory or in a store, and
  nothing else happened to any session.\<close>

definition recorded ::
  "string \<Rightarrow> string \<Rightarrow> message list \<Rightarrow> ('s, 'w) agent_state \<Rightarrow> ('s, 'w) agent_state \<Rightarrow> bool" where
  "recorded aid key ms st st' \<longleftrightarrow> mgr_ok inv (as_sessions st' aid)
     \<and> mgr_stored stored (as_sessions st' aid) = mgr_stored stored (as_sessions st aid)
     \<and> mgr_get_history ops (as_sessions st' aid) key
         = mgr_get_history ops (as_sessions st aid) key @ map (mgr_stored stored (as_sessions st aid)) ms
     \<and> (\<forall>k. k \<noteq> key \<longrightarrow> mgr_get_history ops (as_sessions st' aid) k = mgr_get_history ops (as_sessions st aid) k)
     \<and> (\<forall>i. i \<noteq> aid \<longrightarrow> as_sessions st' i = as_sessions st i)"

lemma recorded_refl: "mgr_ok inv (as_sessions st aid) \<Longrightarrow> as_sessions st' = as_sessions st \<Longrightarrow> recorded aid key [] st st'"
  by (simp add: recorded_def)

lemma recorded_ok: "recorded aid key ms st st' \<Longrightarrow> mgr_ok inv (as_sessions st' aid)"
  by (simp add: recorded_def)

lemma recorded_trans: "recorded aid key ms st st1 \<Longrightarrow> recorded aid key ns st1 st2 \<Longrightarrow> recorded aid key (ms @ ns) st st2"
  by (simp add: recorded_def)

lemma recorded_cong1: "recorded aid key ms st st1 \<Longrightarrow> as_sessions st = as_sessions st0 \<Longrightarrow> recorded aid key ms st0 st1"
  by (simp add: recorded_def)

lemma recorded_cong2: "recorded aid key ms st st1 \<Longrightarrow> as_sessions st2 = as_sessions st1 \<Longrightarrow> recorded aid key ms st st2"
  by (simp add: recorded_def)

lemma add_full_message_recorded:
  assumes "mgr_ok inv (as_sessions st (ai_id agent))"
  shows "recorded (ai_id agent) key [m] st (add_full_message W ops agent key m st)"
proof -
  let ?f = "\<lambda>sm. mgr_add_full_message ops sm key m"
  obtain now where ses: "as_sessions (add_full_message W ops agent key m st)
      = (as_sessions st)(ai_id agent := ?f (as_sessions st (ai_id agent)) now)"
    using sessions_with_sessions [of W agent ?f st] by (auto simp: add_full_message_def)
  show ?thesis
    using mgr_step_ok [OF assms, of "MAdd key m" now] mgr_history_step [OF assms, of "MAdd key m" now]
    by (simp add: recorded_def ses mgr_history_ok [OF assms] spec_add_def spec_history_def)
qed

lemma run_tools_recorded:
  assumes "mgr_ok inv (as_sessions st (ai_id agent))"
  shows "\<exists>rs. recorded (ai_id agent) (po_session_key opts) rs st (snd (run_tools W ops cfg agent opts calls ms st))
    \<and> fst (run_tools W ops cfg agent opts calls ms st) = ms @ rs
    \<and> list_all (\<lambda>r. msg_role r = ''tool'') rs \<and> map msg_tool_call_id rs = map tc_id calls"
  using assms
proof (induction calls arbitrary: ms st)
  case Nil
  then show ?case using recorded_refl [OF Nil refl] by (intro exI [of _ "[]"]) simp
next
  case (Cons tc calls)
  let ?x = "execute_tool W agent (tc_name tc) (case tc_arguments tc of None \<Rightarrow> [] | Some a \<Rightarrow> a)
      (po_channel opts) (po_chat_id opts) st"
  obtain r st1 where x: "?x = (r, st1)" by (cases ?x)
  let ?st2 = "report_tool_result W cfg opts r st1" and ?m = "tool_message tc r"
  let ?st3 = "add_full_message W ops agent (po_session_key opts) ?m ?st2"
  have ses: "as_sessions ?st2 = as_sessions st"
    using sessions_unchanged(4) [of W agent "tc_name tc" "case tc_arguments tc of None \<Rightarrow> [] | Some a \<Rightarrow> a"
        "po_channel opts" "po_chat_id opts" st] x by simp
  then have "mgr_ok inv (as_sessions ?st2 (ai_id agent))" using Cons.prems by simp
  then have r1: "recorded (ai_id agent) (po_session_key opts) [?m] ?st2 ?st3" by (rule add_full_message_recorded)
  from Cons.IH [OF recorded_ok [OF this], of "ms @ [?m]"] obtain rs where
    r2: "recorded (ai_id agent) (po_session_key opts) rs ?st3
        (snd (run_tools W ops cfg agent opts calls (ms @ [?m]) ?st3))"
      "fst (run_tools W ops cfg agent opts calls (ms @ [?m]) ?st3) = (ms @ [?m]) @ rs"
      "list_all (\<lambda>r. msg_role r = ''tool'') rs" "map msg_tool_call_id rs = map tc_id calls" by blast
  have m: "msg_role ?m = ''tool''" "msg_tool_call_id ?m = tc_id tc" by (simp_all add: tool_message_def)
  show ?case
    using recorded_cong1 [OF recorded_trans [OF r1 r2(1)] ses] r2(2-4) m
    by (intro exI [of _ "?m # rs"]) (simp add: x Let_def)
qed

lemma llm_iterations_recorded:
  fixes st st0 :: "('s, 'w) agent_state"
  assumes "mgr_ok inv (as_sessions st (ai_id agent))" and "no_overflow W agent st0"
  shows "\<exists>turn. length turn \<le> n \<and> list_all answered_block turn
    \<and> recorded (ai_id agent) (po_session_key opts) (concat turn) st (snd (llm_iterations W ops cfg agent opts n ms st))"
  using assms(1)
proof (induction n arbitrary: ms st)
  case 0
  then show ?case using recorded_refl [OF 0 refl] by (intro exI [of _ "[]"]) simp
next
  case (Suc n)
  obtain r ms1 st1 where t: "try_llm W ops agent opts max_retries ms st = (r, ms1, st1)"
    by (cases "try_llm W ops agent opts max_retries ms st")
  then have ses: "as_sessions st1 = as_sessions st"
    using try_llm_no_overflow [OF assms(2), of ops opts max_retries ms st] by simp
  then have b1: "mgr_ok inv (as_sessions st1 (ai_id agent))" using Suc.prems by simp
  have done_now: ?case if "snd (llm_iterations W ops cfg agent opts (Suc n) ms st) = st1"
    using that recorded_refl [OF Suc.prems ses] by (intro exI [of _ "[]"]) simp
  show ?case
  proof (cases r)
    case (Inl e)
    then show ?thesis by (intro done_now) (simp add: t)
  next
    case (Inr x)
    show ?thesis
    proof (cases "lr_tool_calls x = []")
      case True
      then show ?thesis by (intro done_now) (simp add: t Inr)
    next
      case False
      let ?calls = "map (normalize_tool_call (wd_marshal W) (wd_unmarshal W)) (lr_tool_calls x)"
      let ?m = "assistant_message W x ?calls"
      let ?st2 = "add_full_message W ops agent (po_session_key opts) ?m st1"
      have r1: "recorded (ai_id agent) (po_session_key opts) [?m] st1 ?st2" by (rule add_full_message_recorded [OF b1])
      obtain ms3 st3 where rt: "run_tools W ops cfg agent opts ?calls (ms1 @ [?m]) ?st2 = (ms3, st3)"
        by (cases "run_tools W ops cfg agent opts ?calls (ms1 @ [?m]) ?st2")
      from run_tools_recorded [OF recorded_ok [OF r1], of opts W cfg ?calls "ms1 @ [?m]"] obtain rs where
        r2: "recorded (ai_id agent) (po_session_key opts) rs ?st2 st3"
          "list_all (\<lambda>r. msg_role r = ''tool'') rs" "map msg_tool_call_id rs = map tc_id ?calls"
        by (auto simp: rt)
      from Suc.IH [OF recorded_ok [OF r2(1)], of ms3] obtain turn where
        r3: "length turn \<le> n" "list_all answered_block turn"
          "recorded (ai_id agent) (po_session_key opts) (concat turn) st3
            (snd (llm_iterations W ops cfg agent opts n ms3 st3))" by blast
      have "answered_block (?m # rs)"
        using False r2(2,3) by (simp add: answered_block_def calls_tools_def assistant_message_def saved_tool_call_def
            Let_def comp_def)
      moreover have "recorded (ai_id agent) (po_session_key opts) (concat ((?m # rs) # turn)) st
          (snd (llm_iterations W ops cfg agent opts (Suc n) ms st))"
        using recorded_cong1 [OF recorded_trans [OF recorded_trans [OF r1 r2(1)] r3(3)] ses]
        by (simp add: t Inr False rt)
      ultimately show ?thesis using r3(1,2) by (intro exI [of _ "(?m # rs) # turn"]) simp
    qed
  qed
qed

end

text \<open>The parts of \<open>runAgentLoop\<close> before and after the rounds.\<close>

lemma run_agent_loop_parts:
  "\<exists>ms st3 r st4. as_sessions st3 = as_sessions st
    \<and> llm_iterations W ops cfg agent opts (ai_max_iterations agent) ms
        (add_full_message W ops agent (po_session_key opts) (plain_message ''user'' (po_user_message opts)) st3) = (r, st4)
    \<and> (case r of
         Inl e \<Rightarrow> run_agent_loop W ops cfg agent opts st = (Inl e, st4)
       | Inr content \<Rightarrow>
           let final = (if content = [] then po_default_response opts else content);
               st5 = add_full_message W ops agent (po_session_key opts) (plain_message ''assistant'' final) st4;
               st6 = (if po_enable_summary opts then maybe_summarize W ops agent (po_session_key opts) st5 else st5)
           in run_agent_loop W ops cfg agent opts st
             = (Inr final, if po_send_response opts
                 then publish W (OutMessage (po_channel opts) (po_chat_id opts) final) st6 else st6))"
proof -
  let ?key = "po_session_key opts"
  let ?st0 = "if po_channel opts \<noteq> [] \<and> po_chat_id opts \<noteq> [] \<and> \<not> is_internal_channel (po_channel opts)
     then st\<lparr>as_last_channel := po_channel opts @ '':'' @ po_chat_id opts\<rparr> else st"
  let ?st1 = "update_tool_contexts agent (po_channel opts) (po_chat_id opts) ?st0"
  let ?b = "session_messages W ops agent ?key (po_no_history opts) (po_user_message opts) (po_media opts)
    (po_channel opts) (po_chat_id opts) ?st1"
  obtain ms2 st2 where b: "?b = (ms2, st2)" by (cases ?b)
  obtain ms3 st3 where r: "resolve_media_refs W cfg ms2 st2 = (ms3, st3)" by (cases "resolve_media_refs W cfg ms2 st2")
  have s2: "as_sessions (snd ?b) = as_sessions st" by simp
  have s3: "as_sessions (snd (resolve_media_refs W cfg ms2 st2)) = as_sessions st2" by simp
  have ses: "as_sessions st3 = as_sessions st" using s2 s3 unfolding b r by simp
  let ?st4 = "add_full_message W ops agent ?key (plain_message ''user'' (po_user_message opts)) st3"
  obtain x st5 where i: "llm_iterations W ops cfg agent opts (ai_max_iterations agent) ms3 ?st4 = (x, st5)"
    by (cases "llm_iterations W ops cfg agent opts (ai_max_iterations agent) ms3 ?st4")
  have run: "run_agent_loop W ops cfg agent opts st = (case (x, st5) of
        (Inl e, st) \<Rightarrow> (Inl e, st)
      | (Inr content, st) \<Rightarrow>
          let final = (if content = [] then po_default_response opts else content);
              st = add_full_message W ops agent ?key (plain_message ''assistant'' final) st;
              st = (if po_enable_summary opts then maybe_summarize W ops agent ?key st else st);
              st = (if po_send_response opts
                    then publish W (OutMessage (po_channel opts) (po_chat_id opts) final) st else st)
          in (Inr final, st))"
    by (simp only: run_agent_loop_def run_llm_iteration_def Let_def b r i prod.case)
  have "case x of Inl e \<Rightarrow> run_agent_loop W ops cfg agent opts st = (Inl e, st5)
       | Inr content \<Rightarrow>
           let final = (if content = [] then po_default_response opts else content);
               st5 = add_full_message W ops agent ?key (plain_message ''assistant'' final) st5;
               st6 = (if po_enable_summary opts then maybe_summarize W ops agent ?key st5 else st5)
           in run_agent_loop W ops cfg agent opts st
             = (Inr final, if po_send_response opts
                 then publish W (OutMessage (po_channel opts) (po_chat_id opts) final) st6 else st6)"
    unfolding run by (cases x) (simp_all only: sum.case prod.case Let_def)
  with ses i show ?thesis by blast
qed

context session_store
begin

text \<open>A summary replaces the session by its last four messages, or leaves it.\<close>

lemma maybe_summarize_history:
  assumes "mgr_ok inv (as_sessions st (ai_id agent))"
  shows "\<forall>k. mgr_get_history ops (as_sessions (maybe_summarize W ops agent key st) (ai_id agent)) k
        = mgr_get_history ops (as_sessions st (ai_id agent)) k
      \<or> k = key \<and> wants_summary (ai_context_window agent) (mgr_get_history ops (as_sessions st (ai_id agent)) key)
        \<and> mgr_get_history ops (as_sessions (maybe_summarize W ops agent key st) (ai_id agent)) k
          = keep_last 4 (mgr_get_history ops (as_sessions st (ai_id agent)) key)"
    and "i \<noteq> ai_id agent \<Longrightarrow> as_sessions (maybe_summarize W ops agent key st) i = as_sessions st i"
proof -
  let ?sm = "as_sessions st (ai_id agent)"
  have two: "mgr_get_history ops (mgr_truncate_history ops (mgr_set_summary ops ?sm key x now) key 4 now) k
      = (if k = key then keep_last 4 (mgr_get_history ops ?sm key) else mgr_get_history ops ?sm k)" for x now k
  proof -
    note s = mgr_step_ok [OF assms, of "MSetSummary key x" now, simplified]
    from mgr_history_step [OF s(1), of "MTruncate key 4" now k] s
    show ?thesis
      by (auto simp: mgr_history_ok [OF assms] spec_truncate_def spec_set_summary_def spec_history_def
          keep_last_def split: option.splits)
  qed
  show "\<forall>k. mgr_get_history ops (as_sessions (maybe_summarize W ops agent key st) (ai_id agent)) k
        = mgr_get_history ops ?sm k
      \<or> k = key \<and> wants_summary (ai_context_window agent) (mgr_get_history ops ?sm key)
        \<and> mgr_get_history ops (as_sessions (maybe_summarize W ops agent key st) (ai_id agent)) k
          = keep_last 4 (mgr_get_history ops ?sm key)"
    by (auto simp: maybe_summarize_def summarize_session_def Let_def split_beta two)
  show "i \<noteq> ai_id agent \<Longrightarrow> as_sessions (maybe_summarize W ops agent key st) i = as_sessions st i"
    by (simp add: maybe_summarize_def split_beta)
qed

lemma run_agent_loop_recorded:
  fixes st st0 :: "('s, 'w) agent_state"
  assumes "mgr_ok inv (as_sessions st (ai_id agent))" and "no_overflow W agent st0"
  shows "\<exists>turn st5. length turn \<le> ai_max_iterations agent \<and> list_all answered_block turn
    \<and> recorded (ai_id agent) (po_session_key opts)
        (plain_message ''user'' (po_user_message opts) # concat turn @
          (case fst (run_agent_loop W ops cfg agent opts st) of
             Inl e \<Rightarrow> [] | Inr final \<Rightarrow> [plain_message ''assistant'' final]))
        st st5
    \<and> as_sessions (snd (run_agent_loop W ops cfg agent opts st))
      = (if po_enable_summary opts \<and> (\<exists>final. fst (run_agent_loop W ops cfg agent opts st) = Inr final)
         then as_sessions (maybe_summarize W ops agent (po_session_key opts) st5) else as_sessions st5)"
proof -
  let ?key = "po_session_key opts" and ?u = "plain_message ''user'' (po_user_message opts)"
  obtain ms st3 r st4 where ses: "as_sessions st3 = as_sessions st"
    and it: "llm_iterations W ops cfg agent opts (ai_max_iterations agent) ms (add_full_message W ops agent ?key ?u st3) = (r, st4)"
    and run: "case r of
         Inl e \<Rightarrow> run_agent_loop W ops cfg agent opts st = (Inl e, st4)
       | Inr content \<Rightarrow>
           let final = (if content = [] then po_default_response opts else content);
               st5 = add_full_message W ops agent ?key (plain_message ''assistant'' final) st4;
               st6 = (if po_enable_summary opts then maybe_summarize W ops agent ?key st5 else st5)
           in run_agent_loop W ops cfg agent opts st
             = (Inr final, if po_send_response opts
                 then publish W (OutMessage (po_channel opts) (po_chat_id opts) final) st6 else st6)"
    using run_agent_loop_parts [of st W ops cfg agent opts] by blast
  have "mgr_ok inv (as_sessions st3 (ai_id agent))" using assms(1) ses by simp
  then have r1: "recorded (ai_id agent) ?key [?u] st3 (add_full_message W ops agent ?key ?u st3)"
    by (rule add_full_message_recorded)
  from llm_iterations_recorded [OF recorded_ok [OF r1] assms(2), of "ai_max_iterations agent" opts cfg ms] obtain turn where
    turn: "length turn \<le> ai_max_iterations agent" "list_all answered_block turn"
    and r2: "recorded (ai_id agent) ?key (concat turn) (add_full_message W ops agent ?key ?u st3) st4"
    by (auto simp: it)
  note r12 = recorded_cong1 [OF recorded_trans [OF r1 r2] ses]
  show ?thesis
  proof (cases r)
    case (Inl e)
    then show ?thesis using turn r12 run by (intro exI [of _ turn] exI [of _ st4]) simp
  next
    case (Inr content)
    let ?final = "if content = [] then po_default_response opts else content"
    let ?st5 = "add_full_message W ops agent ?key (plain_message ''assistant'' ?final) st4"
    let ?st6 = "if po_enable_summary opts then maybe_summarize W ops agent ?key ?st5 else ?st5"
    have r3: "recorded (ai_id agent) ?key [plain_message ''assistant'' ?final] st4 ?st5"
      by (rule add_full_message_recorded [OF recorded_ok [OF r12]])
    have fin: "run_agent_loop W ops cfg agent opts st = (Inr ?final,
        if po_send_response opts then publish W (OutMessage (po_channel opts) (po_chat_id opts) ?final) ?st6 else ?st6)"
      using run by (simp add: Inr Let_def)
    from recorded_trans [OF r12 r3] turn show ?thesis
      by (intro exI [of _ turn] exI [of _ ?st5]) (simp add: fin)
  qed
qed

end

section \<open>Properties\<close>

text \<open>Property C3: whether an agent keeps its sessions in memory or in the SQLite store, a turn in which no call of
  the model fails for the size of its context adds to the session, in this order: the user's message, at most the
  maximum number of rounds, each an assistant message with tool calls and exactly one result per call in the order of
  the calls, and, when the turn succeeds, the answer; a failed turn leaves only complete rounds. If a summary is made
  after a turn that succeeds, which takes a history of more than 20 messages or of more than three quarters of the
  context window, the session is left with the last four messages of that list. No other session of the agent and no
  other agent's sessions change. A store keeps of each message what the table has columns for.\<close>

theorem turn_recorded:
  fixes st :: "(db, 'w) agent_state"
  assumes "case sm_store (as_sessions st (ai_id agent)) of None \<Rightarrow> True | Some d \<Rightarrow> wf_db d"
    and "no_overflow W agent st"
  shows "case run_agent_loop W sqlite_ops cfg agent opts st of (result, st') \<Rightarrow>
    \<exists>turn full. length turn \<le> ai_max_iterations agent \<and> list_all answered_block turn
      \<and> full = mgr_get_history sqlite_ops (as_sessions st (ai_id agent)) (po_session_key opts) @
          map (if sm_store (as_sessions st (ai_id agent)) = None then (\<lambda>m. m) else stored_message)
            (plain_message ''user'' (po_user_message opts) # concat turn @
              (case result of Inl e \<Rightarrow> [] | Inr final \<Rightarrow> [plain_message ''assistant'' final]))
      \<and> (mgr_get_history sqlite_ops (as_sessions st' (ai_id agent)) (po_session_key opts) = full
        \<or> po_enable_summary opts \<and> (\<exists>final. result = Inr final) \<and> wants_summary (ai_context_window agent) full
          \<and> mgr_get_history sqlite_ops (as_sessions st' (ai_id agent)) (po_session_key opts) = keep_last 4 full)
      \<and> (\<forall>k. k \<noteq> po_session_key opts \<longrightarrow> mgr_get_history sqlite_ops (as_sessions st' (ai_id agent)) k
            = mgr_get_history sqlite_ops (as_sessions st (ai_id agent)) k)
      \<and> (\<forall>i. i \<noteq> ai_id agent \<longrightarrow> as_sessions st' i = as_sessions st i)"
proof -
  let ?run = "run_agent_loop W sqlite_ops cfg agent opts st" and ?key = "po_session_key opts"
  have ok: "mgr_ok wf_db (as_sessions st (ai_id agent))" using assms(1) by (simp add: mgr_ok_def)
  have stored: "mgr_stored stored_message (as_sessions st (ai_id agent))
      = (if sm_store (as_sessions st (ai_id agent)) = None then (\<lambda>m. m) else stored_message)"
    by (simp add: mgr_stored_def split: option.splits)
  obtain turn st5 where t: "length turn \<le> ai_max_iterations agent" "list_all answered_block turn"
    "sqlite_sessions.recorded (ai_id agent) ?key
        (plain_message ''user'' (po_user_message opts) # concat turn @
          (case fst ?run of Inl e \<Rightarrow> [] | Inr final \<Rightarrow> [plain_message ''assistant'' final])) st st5"
    and s: "as_sessions (snd ?run) = (if po_enable_summary opts \<and> (\<exists>final. fst ?run = Inr final)
         then as_sessions (maybe_summarize W sqlite_ops agent ?key st5) else as_sessions st5)"
    using sqlite_sessions.run_agent_loop_recorded [OF ok assms(2), of opts cfg] by blast
  let ?old = "\<lambda>k. mgr_get_history sqlite_ops (as_sessions st (ai_id agent)) k"
    and ?new = "\<lambda>k. mgr_get_history sqlite_ops (as_sessions (snd ?run) (ai_id agent)) k"
  define full where "full = ?old ?key @ map (if sm_store (as_sessions st (ai_id agent)) = None then (\<lambda>m. m) else stored_message)
      (plain_message ''user'' (po_user_message opts) # concat turn @
        (case fst ?run of Inl e \<Rightarrow> [] | Inr final \<Rightarrow> [plain_message ''assistant'' final]))"
  note five = t(3) [unfolded sqlite_sessions.recorded_def stored, folded full_def]
  note kept = sqlite_sessions.maybe_summarize_history [OF conjunct1 [OF five], where W = W and key = ?key]
  have one: "?new ?key = full \<or> po_enable_summary opts \<and> (\<exists>final. fst ?run = Inr final)
      \<and> wants_summary (ai_context_window agent) full \<and> ?new ?key = keep_last 4 full"
    using five spec [OF kept(1), of ?key] unfolding s by (simp split: if_splits)
  have others: "?new k = ?old k" if "k \<noteq> ?key" for k
    using five spec [OF kept(1), of k] that unfolding s by (simp split: if_splits)
  have agents: "as_sessions (snd ?run) i = as_sessions st i" if "i \<noteq> ai_id agent" for i
    using five kept(2) [OF that] that unfolding s by (simp split: if_splits)
  show ?thesis
    unfolding split_beta
    by (rule exI [of _ turn], rule exI [of _ full]) (intro conjI allI impI t(1,2) full_def one others agents)
qed

theorem turn_recorded_witness:
  "case run_agent_loop sample_world sqlite_ops sample_loop_config sample_agent
     (sample_options\<lparr>po_enable_summary := True\<rparr>) (sample_state 0) of
     (result, st') \<Rightarrow> \<exists>turn. length turn \<le> 5 \<and> list_all answered_block turn
      \<and> (let full = plain_message ''user'' ''hi'' # concat turn @
              (case result of Inl e \<Rightarrow> [] | Inr final \<Rightarrow> [plain_message ''assistant'' final])
         in mgr_get_history sqlite_ops (as_sessions st' ''main'') ''k'' \<in> {full, keep_last 4 full})"
proof -
  let ?st = "sample_state (0 :: nat)" and ?o = "sample_options\<lparr>po_enable_summary := True\<rparr>"
  have no: "no_overflow sample_world sample_agent ?st"
    by (auto simp: no_overflow_def call_llm_def sample_agent_def sample_world_def split: prod.splits)
  have mem: "sm_store (as_sessions ?st (ai_id sample_agent)) = None"
    "mgr_get_history sqlite_ops (as_sessions ?st i) k = []" for i k
    by (simp_all add: sample_state_def new_session_manager_def mgr_get_history_def)
  then have ok: "case sm_store (as_sessions ?st (ai_id sample_agent)) of None \<Rightarrow> True | Some d \<Rightarrow> wf_db d" by simp
  have names: "ai_id sample_agent = ''main''" "po_session_key ?o = ''k''"
    "po_user_message ?o = ''hi''" "ai_max_iterations sample_agent = 5"
    by (simp_all add: sample_agent_def sample_options_def)
  from turn_recorded [OF ok no, where cfg = sample_loop_config and opts = ?o, unfolded names mem(2) mem(1) [unfolded names]]
  show ?thesis unfolding split_beta Let_def by (auto 0 3)
qed

text \<open>A turn of one agent does not look at the message tool of another.\<close>

lemma same_tools_process_message:
  assumes "in_channel msg \<noteq> ''system''" and "handle_command cfg msg st = None"
    and "agent_for (as_agents st) (message_route cfg msg) = Some agent"
  shows "same_tools (ai_id agent) st (snd (process_message W ops cfg msg st))"
proof -
  have loop: "same_tools (ai_id agent) st (snd (run_agent_loop W ops cfg agent opts (update_tool_contexts agent ch chat st)))"
    for opts ch chat
    by (rule same_tools_trans [OF same_tools_step(9) same_tools_run_agent_loop])
  have "snd (lift_error x) = snd x" for x :: "(chat_error + string) \<times> ('a, 'b) agent_state"
    by (auto simp: lift_error_def split: prod.splits sum.splits)
  then show ?thesis
    using assms loop by (simp add: process_message_def Let_def)
qed

text \<open>once the message tool of the default agent has sent something, the answers to
  messages routed to another agent are not published, however many come: the flag is only
  reset by a turn of the default agent, but it is the one looked at for every agent.\<close>

theorem stale_flag_drops_answer:
  assumes "in_channel msg \<noteq> ''system''" and "handle_command cfg msg st = None"
    and "agent_for (as_agents st) (message_route cfg msg) = Some agent"
    and "already_sent st" and "\<And>a. get_default_agent (as_agents st) = Some a \<Longrightarrow> ai_id a \<noteq> ai_id agent"
  shows "run_turn W ops cfg msg st = snd (process_message W ops cfg msg st)
    \<and> already_sent (run_turn W ops cfg msg st)"
proof -
  let ?st = "snd (process_message W ops cfg msg st)"
  have "same_tools (ai_id agent) st ?st" by (rule same_tools_process_message [OF assms(1-3)])
  with assms(4,5) have "already_sent ?st"
    by (auto simp: already_sent_def same_tools_def split: option.splits)
  then show ?thesis by (simp add: run_turn_def split_beta Let_def)
qed

definition sample_message :: inbound where
  "sample_message =
     \<lparr>in_channel = ''telegram'', in_sender_id = ''user123'', in_chat_id = ''user123'', in_content = ''hello'',
      in_media = [], in_peer_kind = ''direct'', in_peer_id = [], in_session_key = [], in_metadata = (\<lambda>_. [])\<rparr>"

definition two_agents :: "(string \<times> agent_instance) list" where
  "two_agents = [(''sales'', sample_agent\<lparr>ai_id := ''sales''\<rparr>), (''support'', sample_agent\<lparr>ai_id := ''support''\<rparr>)]"

text \<open>The sales agent is the default one and sent something with the message tool; the binding
  sends the user's message to the support agent.\<close>

theorem stale_flag_drops_answer_witness:
  "\<exists>cfg st. agent_for (as_agents st) (message_route cfg sample_message) = Some (sample_agent\<lparr>ai_id := ''support''\<rparr>)
    \<and> run_turn sample_world sqlite_ops cfg sample_message st
      = snd (process_message sample_world sqlite_ops cfg sample_message st)"
proof -
  let ?cfg = "sample_loop_config\<lparr>ac_routing := Routing.sample_config\<rparr>"
  let ?st = "(sample_state (0 :: nat))\<lparr>as_agents := two_agents, as_message_tool := (\<lambda>i.
      \<lparr>mt_default_channel = [], mt_default_chat_id = [], mt_sent_in_round = (i = ''sales'')\<rparr>)\<rparr>"
  have r: "normalize_agent_id (rr_agent_id (message_route ?cfg sample_message)) = ''support''" by code_simp
  then have a: "agent_for (as_agents ?st) (message_route ?cfg sample_message) = Some (sample_agent\<lparr>ai_id := ''support''\<rparr>)"
    by (simp add: agent_for_def get_agent_def two_agents_def)
  have c: "handle_command ?cfg sample_message ?st = None" by code_simp
  have d: "get_default_agent (as_agents ?st) = Some (sample_agent\<lparr>ai_id := ''sales''\<rparr>)"
    by (simp add: get_default_agent_def two_agents_def)
  then have s: "already_sent ?st" by (simp add: already_sent_def sample_agent_def)
  have "in_channel sample_message \<noteq> ''system''" by (simp add: sample_message_def)
  from stale_flag_drops_answer [OF this c a s, of sample_world sqlite_ops] d a show ?thesis
    by (intro exI [of _ ?cfg] exI [of _ ?st]) simp
qed

text \<open>while an agent has fallback candidates, switching its model changes nothing: the
  chain asks for the models of the candidates it was configured with.\<close>

theorem switch_model_without_effect:
  assumes "get_default_agent (as_agents st) = Some a" and "length (ai_candidates a) > 1"
    and "(''main'', a) \<in> set (as_agents st)" and "distinct (map fst (as_agents st))"
  shows "\<exists>b. get_default_agent (as_agents (set_default_model model st)) = Some b \<and> ai_model b = model
    \<and> (\<forall>W ms (st' :: ('s, 'w) agent_state). call_llm W b ms st' = call_llm W a ms st')"
proof -
  let ?b = "a\<lparr>ai_model := model\<rparr>"
  have "map_of (as_agents (set_default_model model st)) ''main'' = Some ?b"
    using assms by (simp add: set_default_model_def map_of_map_restrict map_of_eq_Some_iff image_iff)
      (force simp: comp_def split_beta)
  then show ?thesis
    using assms(2) by (intro exI [of _ ?b]) (simp add: get_default_agent_def call_llm_def)
qed

theorem switch_model_without_effect_witness:
  "\<exists>(st :: (db, nat) agent_state) a b. get_default_agent (as_agents st) = Some a \<and> ai_model a = ''m''
    \<and> get_default_agent (as_agents (set_default_model ''other'' st)) = Some b \<and> ai_model b = ''other''
    \<and> (\<forall>W ms (st' :: (db, nat) agent_state). call_llm W b ms st' = call_llm W a ms st')"
proof -
  let ?a = "sample_agent\<lparr>ai_candidates := [\<lparr>fc_provider = ''p'', fc_model = ''x''\<rparr>, \<lparr>fc_provider = ''q'', fc_model = ''y''\<rparr>]\<rparr>"
  let ?st = "(sample_state (0 :: nat))\<lparr>as_agents := [(''main'', ?a)]\<rparr>"
  have d: "get_default_agent (as_agents ?st) = Some ?a" by (simp add: get_default_agent_def)
  obtain b where "get_default_agent (as_agents (set_default_model ''other'' ?st)) = Some b" "ai_model b = ''other''"
    "\<forall>W ms (st' :: (db, nat) agent_state). call_llm W b ms st' = call_llm W ?a ms st'"
    using switch_model_without_effect [OF d, of "''other''"] by auto
  then show ?thesis using d by (intro exI [of _ ?st] exI [of _ ?a] exI [of _ b]) (simp add: sample_agent_def)
qed

end
