(* ===== verification/Spec2Isabelle.thy ===== *)
theory Spec2Isabelle
  imports Routing Identity Fallback Split_Message Rate_Limit Auth_Rate_Limit Billing Overage Webhook
    Session_Eviction Tenant_Isolation Channel_Delivery Session_Manager Token_Refresh Media_Store Cron_Tool Workspace_Files Exec_Guard Account_Admins Account_Verification User_Agents Integration_Tools Integration_Management Beta_Api Data_Rights Migrations Agent_Turn
begin

text \<open>
  Operator OS is a gateway between chat channels and language models, with accounts, billing and
  scheduled jobs around it. This development models the Go packages under \<open>src/pkg\<close> that hold its
  logic, one theory or a small group of theories for each, as functions on explicit states. This
  theory imports them all.

  The way of a message. A channel (\<open>pkg/channels\<close>) turns what it receives into an inbound
  message, after its allow list (\<open>pkg/identity\<close>) and its group trigger let it pass. The agent
  loop (\<open>pkg/agent\<close>) takes it from the bus, picks the agent and the session key
  (\<open>pkg/routing\<close>), reads the history of the session (\<open>pkg/session\<close>), calls the model through the
  fallback chain (\<open>pkg/providers\<close>), runs the tools the model asks for, stores what was said, and
  publishes the answer, which the channel manager splits, queues and sends. Around it, the HTTP
  service limits requests (\<open>pkg/ratelimit\<close>, \<open>pkg/middleware\<close>), keeps plans, subscriptions and
  usage (\<open>pkg/billing\<close>) and credentials of other services (\<open>pkg/oauth\<close>); \<open>pkg/cron\<close> runs jobs at
  their times and \<open>pkg/media\<close> keeps the files of a conversation.

  The theories and the code:

    \<^item> \<open>Prelude\<close>, \<open>Json\<close>, \<open>Base64\<close>, \<open>Calendar\<close>, \<open>Time_Text\<close>, \<open>Go_Regexp\<close>: what the sources use of Go's
      library: strings, durations, 64-bit integers, the decoding of JSON values into structs,
      base64, dates, the order of times written as text, and the regular expressions of the error
      classifier. Their lemmas are the generic ones the components share.
    \<^item> \<open>Routing\<close> (\<open>pkg/routing\<close>): identifiers, session keys, and the seven levels of
      \<open>ResolveRoute\<close>. Lemmas: normalised identifiers are canonical, keys parse back and tell
      sessions apart, and the route is the first binding in the order of the levels.
    \<^item> \<open>Identity\<close> (\<open>pkg/identity\<close>): sender identifiers and allow lists; which senders an entry lets in.
    \<^item> \<open>Cooldown\<close>, \<open>Error_Classifier\<close>, \<open>Fallback\<close> (\<open>pkg/providers\<close>): the back-off of a provider, the
      classes of errors, model references and the fallback chain. The chain uses the tracker
      through locale \<open>cooldown\<close>. Lemmas: every candidate is accounted for, a provider that is
      cooling down is not contacted, the reference form of a candidate list.
    \<^item> \<open>Messages\<close>, \<open>Session_Interface\<close>, \<open>Session_Manager\<close>, \<open>Session_Store\<close>, \<open>Session_Eviction\<close>,
      \<open>Tenant_Isolation\<close> (\<open>pkg/session\<close>, \<open>pkg/providers/protocoltypes\<close>): the sessions in memory and
      their files, the SQLite tables, the sweep of old sessions and the tenants on shared tables.
      Locale \<open>session_store\<close> is the contract; the stores are its interpretations by a view into
      an abstract session. Lemmas: both backends agree, what is saved is loaded, a tenant's
      operations leave the others' sessions alone.
    \<^item> \<open>Agent_History\<close>, \<open>Agent_Loop\<close>, \<open>Agent_Requests\<close>, \<open>Agent_Turn\<close> (\<open>pkg/agent\<close>, parts of \<open>pkg/tools\<close>):
      the messages of a request, compression and summaries; the rounds of model and tools; the
      shape and number of the requests; what a turn writes and publishes.
    \<^item> \<open>Split_Message\<close>, \<open>Channel_Manager\<close>, \<open>Channel_Delivery\<close> (\<open>pkg/channels\<close>): splitting of long texts,
      the base of every channel, the manager with its queues, and what becomes of an outbound
      message on a channel that logs its calls.
    \<^item> \<open>Rate_Limit\<close>, \<open>Auth_Rate_Limit\<close> (\<open>pkg/ratelimit\<close>, \<open>pkg/middleware/authratelimit.go\<close>): token buckets
      with their store, and attempts per address. Lemmas: what is admitted in an interval.
    \<^item> \<open>Billing\<close>, \<open>Overage\<close>, \<open>Plan_Change\<close>, \<open>Stripe_Client\<close>, \<open>Webhook\<close> (\<open>pkg/billing\<close>): plans and
      subscriptions, usage and limits, changes of plan, the Stripe client and its events. Lemmas:
      when a request is refused, what a change or an event does to the subscription, and that
      only signed events do.
    \<^item> \<open>OAuth_Flow\<close>, \<open>Credential_Vault\<close>, \<open>Token_Refresh\<close> (\<open>pkg/oauth\<close>): flows and callbacks, stored
      credentials, their refreshing. Lemmas: one exchange per state token, round trip of the
      vault, one request per refresh.
    \<^item> \<open>Media_Store\<close> (\<open>pkg/media\<close>): references, scopes and files; what a release removes.
    \<^item> \<open>Cron_Service\<close>, \<open>Cron_Tool\<close> (\<open>pkg/cron\<close>, \<open>pkg/tools/cron.go\<close>): jobs, the run loop and the tool that
      schedules. Lemmas: a one-time job runs at most once, what is due is run when its turn comes, and what a
      reload or an update behind a tick's back breaks.
    \<^item> \<open>User_Store\<close>, \<open>Auth_Tokens\<close>, \<open>User_Api\<close>, \<open>Admin_Api\<close>, \<open>Accounts\<close>, \<open>Account_Admins\<close>,
      \<open>Account_Verification\<close> (\<open>pkg/users\<close>, \<open>pkg/admin\<close>): accounts, tokens and their blacklist, the
      endpoints, and runs of them. Lemmas: which tokens are accepted, that an administrator remains,
      how often a verification token is sent and counts, and what calls that overlap can do.
    \<^item> \<open>User_Agents\<close> (\<open>pkg/agents\<close>): the agents a user configures. Lemmas: calls of a user are confined to
      own rows, the limit of fifty, one default and how an update leaves two.
    \<^item> \<open>Integrations\<close>, \<open>Integration_Tools\<close>, \<open>Integration_Store\<close>, \<open>Integration_Management\<close>
      (\<open>pkg/integrations\<close>): manifests and their registry, the scopes of agents, the tools with their HTTP
      executor, and the connecting of users, which drives \<open>OAuth_Flow\<close>, \<open>Credential_Vault\<close> and \<open>Token_Refresh\<close>.
      Lemmas: what a filter lets through, what of an answer arrives and which requests are sent, which
      statuses a connection reaches, and what disconnecting removes.
    \<^item> \<open>Beta_Launch\<close>, \<open>Beta_Api\<close> (\<open>pkg/beta\<close>): invitations, feature flags with their text form, the waitlist
      and the readiness report. Lemmas: how often an invitation is redeemed, which flags read back as
      written, and that a larger rollout keeps who was in.
    \<^item> \<open>Audit_Log\<close>, \<open>Data_Rights\<close> (\<open>pkg/audit\<close>, \<open>pkg/gdpr\<close>): the audit log with its queries, and the requests of
      users for their data. Lemmas: pages cover the log, what retention removes, when an erasure
      counts as completed, which statuses a request reaches.
    \<^item> \<open>Migrations\<close> (\<open>pkg/dbmigrate\<close>): the scripts that change the schema. Lemmas: what is run and recorded
      when one fails, that they come in ascending order, and that rolling back undoes.
    \<^item> \<open>Filepath\<close>, \<open>Workspace_Files\<close>, \<open>Go_Regexp\<close>, \<open>Exec_Guard\<close> (\<open>pkg/tools\<close>): paths as Go treats them,
      the file tools within the workspace, regular expressions, and the guard of shell commands.
      Lemmas: the restricted tools stay in the workspace, which paths the guard refuses.

  Conventions. A struct is a record whose fields carry a short prefix, an enumeration or an error a
  datatype, \<open>(value, error)\<close> a sum or an option, a map a function to options or an association list,
  a SQL table the list of its rows in the order of insertion. A mutex is the atomicity of one
  operation; where the code gives a lock up between two parts of an operation, the parts are definitions of their
  own, and for callbacks of OAuth, the runs of jobs, refreshes, tenants and workers of channels the runs interleave
  them. The HTTP handlers of accounts, agents, integrations, billing, invitations and requests for data are one step
  each: theorems about runs of them speak of calls handled one after the other, and what two calls that overlap can do
  beyond that is shown by lemmas on their parts (\<open>overlapping_verifications\<close>, \<open>overlapping_resends\<close>,
  \<open>concurrent_callbacks_both_exchange\<close>) or listed as a finding. The summary of a session, which the code makes in the
  background after a turn, is made at the end of the turn. The clock, random
  values, the network, model and tools are arguments or a world with a hidden state that each
  use may change, so theorems hold for every behaviour of theirs. Errors of the database and of
  the disk appear only where the code reacts to them in a way that matters.

  Fuel. The loop of \<open>SplitMessage\<close> runs under fuel, one unit per round. One unit more than the text has runes
  is enough for a text without code fences (\<open>split_message_plain\<close>), and for a limit of at least ten and fence lines
  that leave room in it (\<open>split_message_fits\<close>: each round shortens what is left); for a text that opens a block with a
  line as long as the limit no number is (\<open>split_message_long_fence_diverges\<close>). \<open>work_message\<close> hands the
  fuel on. The number of iterations of the agent loop is the configured bound of the code, and
  every other recursion is structural or has a measure.

  Not modelled. The channel adapters and provider clients, which translate to the interfaces of
  other services; the Postgres, Redis and NATS stores, which repeat the SQLite stores over
  another library; HTTP routing and the text of JSON; configuration files and their migration;
  sandbox, health and load tests, skills, MCP and the web interface. Nor is
  the interleaving of goroutines inside an operation modelled, floating-point rounding, and Unicode
  beyond ASCII in \<open>TrimSpace\<close> and \<open>ToLower\<close>. Some parts have no caller in the repository but tests:
  the HTTP middleware of \<open>pkg/ratelimit\<close>, \<open>SetUserPlan\<close>, and the manager that refreshes tokens.
\<close>

end
